(* ===== verification/Prelude.thy ===== *)
theory Prelude
  imports "HOL-Library.Word" "HOL-Library.Monad_Syntax"
begin

section \<open>Prelude: machine types, error codes, typed heaps and the allocator\<close>

text \<open>
  The vocabulary every component of the kernel model shares.

  \<^item> Machine integers are words of their C width.  A pointer is a 32-bit word and the null
    pointer is 0.
  \<^item> Every C struct type that lives behind a pointer has a heap of its own, a partial map from
    pointers to records.  Reading through a pointer is a lookup in that map, so it is \<open>None\<close>
    for the null pointer and for freed memory.
  \<^item> An operation of the kernel returns an \<open>option\<close>.  \<open>None\<close> says that the kernel does not
    come back from the call with a meaningful state: it has read or written memory that is
    not an object of the type at hand, or it has called \<open>kernel_panic\<close>, which never returns.
    Error codes the C code returns are ordinary values.
  \<^item> The block an allocation returns is decided outside the kernel's own code, by the vendored
    allocator.  A heap carries the list of answers the allocator is going to give.  An answer
    that names a block in use is no legal answer of an allocator and counts as a failure, so
    the lists range over every legal behaviour, failures at any point included.
  \<^item> The trace lines of the debugging build (\<open>debug_print\<close>, compiled in with
    \<open>KERNEL_DEBUGGING\<close> only) are not part of the model.
\<close>

type_synonym u8 = "8 word"
type_synonym u16 = "16 word"
type_synonym u32 = "32 word"
type_synonym u64 = "64 word"
type_synonym ptr = "32 word"
type_synonym 'a pheap = "ptr \<Rightarrow> 'a option"

abbreviation NULL :: ptr where
  "NULL \<equiv> 0"

named_theorems heap_simps \<open>reading and writing the typed heaps\<close>
named_theorems list_specs \<open>what the operations of the linked list do\<close>
named_theorems op_defs \<open>definitions of kernel operations\<close>

subsection \<open>Enumerations of the kernel interface\<close>

datatype return_t =
    UNKNOWN_ERROR | NO_ERROR | OUT_OF_MEMORY | SIZE_TOO_SMALL | BLOCKED_RETRY | MEM_NOT_ALIGNED
  | PARAMETERS_NULL | PARAMETERS_INVALID | PARAMETERS_OUT_OF_RANGE | INVALID_CONTEXT
  | OBJECT_TABLE_FULL | INVALID_OBJECT | WRONG_OBJ_TYPE | OBJECT_ADD_FAILED
  | OBJECT_IN_INVALID_STATE | SEMAPHORE_EMPTY | TIMER_CALLBACK_MISSING | SHM_WRONG_SIZE
  | ALARM_ID_UNKNOWN | UNKNOWN_PIPE
  | PIPE_FULL | PIPE_POLARITY_WRONG | PIPE_RECEIVERS_FULL | PIPE_EMPTY
  | ALARM_ALREADY_CANCELLED | DEVICE_ID_INVALID | DEVICE_USER_DATA_INVALID
  | DEVICE_REGISTER_INVALID | DEVICE_READ_BAD_ADDRESS
  | DEVICE_WRITE_BAD_ADDRESS | DEVICE_OPERATION_NOT_SUPPORTED
  | OBJECT_NAME_EXISTS_IN_REGISTRY | OBJECT_NOT_ADDED_TO_REGISTRY | OBJECT_NOT_IN_REGISTRY
  | OBJECT_NOT_RETRIEVED_FROM_REGISTRY | OBJECT_NOT_REMOVED_FROM_REGISTRY
  | NO_ROOT_INTERRUPT_HANDLER | UNEXPECTED_INTERRUPT | UNKNOWN_INTERRUPT_CAUSE
  | UNKNOWN_EXTERNAL_INTERRUPT_VECTOR | INTERRUPT_NO_EXT_VECTOR_SPECIFIED
  | PIPE_MESSAGE_SIZE_NOT_ALIGNED | MMAP_NOT_ALLOWED_AT_ZERO | OUT_OF_PROCESS_IDS
  | INVALID_ELF | ERROR_UNKNOWN_SYSCALL

datatype thread_state_t =
    THREAD_UNKNOWN | THREAD_NOT_CREATED | THREAD_IDLE | THREAD_READY | THREAD_RUNNING
  | THREAD_SYSTEM | THREAD_PAUSED | THREAD_WAITING | THREAD_TERMINATED | THREAD_DEAD

subsection \<open>Typed heaps\<close>

text \<open>Write one field of the object at a pointer; the object must be there.\<close>

definition store :: "ptr \<Rightarrow> ('a \<Rightarrow> 'a) \<Rightarrow> 'a pheap \<Rightarrow> 'a pheap option" where
  "store p f h = (case h p of None \<Rightarrow> None | Some x \<Rightarrow> Some (h(p \<mapsto> f x)))"

text \<open>
  \<open>mem_alloc\<close>: the pool must not be null (the code asserts it).  The next answer of the
  allocator is consumed; running out of answers is a failed allocation, too.
\<close>

definition mem_alloc :: "ptr \<Rightarrow> 'a pheap \<Rightarrow> ptr list \<Rightarrow> (ptr \<times> ptr list) option" where
  "mem_alloc pool h answers =
     (if pool = NULL then None
      else Some (case answers of
                   [] \<Rightarrow> (NULL, [])
                 | a # as \<Rightarrow> (if h a = None then a else NULL, as)))"

text \<open>
  \<open>mem_free\<close>: the pool is dereferenced, freeing the null pointer does nothing, and freeing
  what is not a live block is an illegal access.
\<close>

definition mem_free :: "ptr \<Rightarrow> ptr \<Rightarrow> 'a pheap \<Rightarrow> 'a pheap option" where
  "mem_free pool p h =
     (if pool = NULL then None
      else if p = NULL then Some h
      else case h p of None \<Rightarrow> None | Some _ \<Rightarrow> Some (h(p := None)))"

text \<open>\<open>kernel_assert\<close> returns only when the condition holds.\<close>

definition kernel_assert :: "bool \<Rightarrow> unit option" where
  "kernel_assert c = (if c then Some () else None)"

lemma store_Some [heap_simps]: "h p = Some x \<Longrightarrow> store p f h = Some (h(p \<mapsto> f x))"
  by (simp add: store_def)

lemma store_None [heap_simps]: "h p = None \<Longrightarrow> store p f h = None"
  by (simp add: store_def)

lemma storeE:
  assumes "store p f h = Some h'"
  obtains x where "h p = Some x" "h' = h(p \<mapsto> f x)"
  using assms by (auto simp: store_def split: option.splits)

lemma mem_alloc_fresh:
  "mem_alloc pool h answers = Some (a, rest) \<Longrightarrow> a \<noteq> NULL \<Longrightarrow> h a = None"
  by (auto simp: mem_alloc_def split: if_splits list.splits)

lemma mem_alloc_total: "pool \<noteq> NULL \<Longrightarrow> \<exists>a rest. mem_alloc pool h answers = Some (a, rest)"
  by (simp add: mem_alloc_def split: list.splits)

lemma mem_free_Some [heap_simps]:
  "pool \<noteq> NULL \<Longrightarrow> p \<noteq> NULL \<Longrightarrow> h p = Some x \<Longrightarrow> mem_free pool p h = Some (h(p := None))"
  by (simp add: mem_free_def)

lemma kernel_assert_simps [simp]:
  "kernel_assert True = Some ()" "kernel_assert False = None"
  by (simp_all add: kernel_assert_def)

subsection \<open>Counting in words\<close>

lemma unat_inc: "(c :: 'a::len word) < m \<Longrightarrow> unat (c + 1) = Suc (unat c)"
proof -
  assume "c < m"
  then have "Suc (unat c) \<le> unat m" by (simp add: word_less_nat_alt Suc_le_eq)
  also have "unat m < 2 ^ LENGTH('a)" by (rule unsigned_less)
  finally show ?thesis by (simp add: unat_word_ariths unat_1)
qed

lemma inc_le_iff: "(c :: 'a::len word) < m \<Longrightarrow> c + 1 \<le> m"
  by (simp add: word_le_nat_alt unat_inc) (simp add: word_less_nat_alt)

subsection \<open>Lists of distinct pointers\<close>

text \<open>
  There are fewer than \<open>2 ^ 32\<close> non-null pointers, so a count of live objects kept in 32 bits
  never wraps around.
\<close>

lemma card_ptr_bound: "NULL \<notin> (A :: ptr set) \<Longrightarrow> card A < 2 ^ 32"
proof -
  assume "NULL \<notin> A"
  then have "card A < card (UNIV :: ptr set)"
    by (intro psubset_card_mono) auto
  then show ?thesis by (simp add: card_word)
qed

lemma length_distinct_ptr: "distinct (as :: ptr list) \<Longrightarrow> NULL \<notin> set as \<Longrightarrow> length as < 2 ^ 32"
  by (metis card_ptr_bound distinct_card)

lemma unat_of_nat_length [simp]:
  "distinct (as :: ptr list) \<Longrightarrow> NULL \<notin> set as \<Longrightarrow> unat (of_nat (length as) :: u32) = length as"
  using length_distinct_ptr [of as] by (simp add: unat_of_nat take_bit_nat_eq_self)

end
