(* ===== verification/Unbounded_List.thy ===== *)
theory Unbounded_List
  imports Prelude
begin

section \<open>The linked list of the kernel (\<open>utils/collections/unbounded_list.c\<close>)\<close>

text \<open>
  The data structures and every operation of the doubly linked list, at the level of
  pointers.  The elements, the list headers and the iterators have a heap each.  Where the C
  function writes through an out parameter, the model returns \<open>Some\<close> of the value written, or
  \<open>None\<close> (inside the fault option) when the function returns false and leaves it unwritten; the
  out parameters are the addresses of variables at every call of the kernel, never null.
\<close>

subsection \<open>State\<close>

record list_t_element =
  le_item :: ptr
  le_next :: ptr
  le_prev :: ptr

record list_t =
  l_size :: u32
  l_head :: ptr
  l_tail :: ptr
  l_pool :: ptr

record list_it_t =
  it_list :: ptr
  it_current :: ptr
  it_pos :: u32

text \<open>The heaps of the list component, and the answers its allocations are going to get.\<close>

record lheap =
  elems :: "list_t_element pheap"
  lists :: "list_t pheap"
  its :: "list_it_t pheap"
  answers :: "ptr list"

subsection \<open>Creation and deletion\<close>

definition list_initialise :: "ptr \<Rightarrow> ptr \<Rightarrow> lheap \<Rightarrow> lheap" where
  "list_initialise l pool s =
     (if l = NULL then s
      else s\<lparr>lists := (lists s)(l \<mapsto>
             \<lparr>l_size = 0, l_head = NULL, l_tail = NULL, l_pool = pool\<rparr>)\<rparr>)"

definition list_create :: "ptr \<Rightarrow> lheap \<Rightarrow> (ptr \<times> lheap) option" where
  "list_create pool s = do {
     (lst, as) \<leftarrow> mem_alloc pool (lists s) (answers s);
     let s = s\<lparr>answers := as\<rparr>;
     Some (lst, if lst \<noteq> NULL then list_initialise lst pool s else s)
   }"

text \<open>The loop of \<open>list_delete\<close> runs once per counted element.\<close>

primrec list_delete_loop ::
  "nat \<Rightarrow> ptr \<Rightarrow> ptr \<Rightarrow> list_t_element pheap \<Rightarrow> list_t_element pheap option" where
  "list_delete_loop 0 pool e h = Some h"
| "list_delete_loop (Suc n) pool e h = do {
     x \<leftarrow> h e;
     h \<leftarrow> mem_free pool e h;
     list_delete_loop n pool (le_next x) h
   }"

definition list_delete :: "ptr \<Rightarrow> lheap \<Rightarrow> lheap option" where
  "list_delete l s =
     (if l = NULL then Some s
      else do {
        lst \<leftarrow> lists s l;
        if l_pool lst = NULL then Some s
        else do {
          h \<leftarrow> list_delete_loop (unat (l_size lst)) (l_pool lst) (l_head lst) (elems s);
          ls \<leftarrow> mem_free (l_pool lst) l (lists s);
          Some (s\<lparr>elems := h, lists := ls\<rparr>)
        }
      })"

subsection \<open>Adding and inserting\<close>

definition list_add :: "ptr \<Rightarrow> ptr \<Rightarrow> lheap \<Rightarrow> (bool \<times> lheap) option" where
  "list_add l item s =
     (if l = NULL then Some (False, s)
      else do {
        lst \<leftarrow> lists s l;
        (element, as) \<leftarrow> mem_alloc (l_pool lst) (elems s) (answers s);
        let s = s\<lparr>answers := as\<rparr>;
        if element = NULL then Some (False, s)
        else do {
          let h = (elems s)(element \<mapsto> \<lparr>le_item = item, le_next = NULL, le_prev = NULL\<rparr>);
          if l_tail lst \<noteq> NULL then do {
            let pv = l_tail lst;
            h \<leftarrow> store pv (\<lambda>e. e\<lparr>le_next := element\<rparr>) h;
            h \<leftarrow> store element (\<lambda>e. e\<lparr>le_prev := pv\<rparr>) h;
            Some (True, s\<lparr>elems := h,
                    lists := (lists s)(l \<mapsto> lst\<lparr>l_tail := element, l_size := l_size lst + 1\<rparr>)\<rparr>)
          }
          else
            Some (True, s\<lparr>elems := h,
                    lists := (lists s)(l \<mapsto> lst\<lparr>l_head := element, l_tail := element,
                                               l_size := l_size lst + 1\<rparr>)\<rparr>)
        }
      })"

text \<open>
  The search loop of \<open>list_insert\<close> and \<open>list_get\<close>: follow \<open>next\<close>, give up with null at the
  end of the chain.
\<close>

primrec list_walk :: "nat \<Rightarrow> list_t_element pheap \<Rightarrow> ptr \<Rightarrow> ptr option" where
  "list_walk 0 h e = Some e"
| "list_walk (Suc n) h e = do {
     x \<leftarrow> h e;
     if le_next x \<noteq> NULL then list_walk n h (le_next x) else Some NULL
   }"

definition list_insert :: "ptr \<Rightarrow> u32 \<Rightarrow> ptr \<Rightarrow> lheap \<Rightarrow> (bool \<times> lheap) option" where
  "list_insert l index item s =
     (if l = NULL then Some (False, s)
      else do {
        lst \<leftarrow> lists s l;
        if \<not> index \<le> l_size lst then Some (False, s)
        else do {
          (new_element, as) \<leftarrow> mem_alloc (l_pool lst) (elems s) (answers s);
          let s = s\<lparr>answers := as\<rparr>;
          if new_element = NULL then Some (False, s)
          else do {
            let h = (elems s)(new_element \<mapsto>
                       \<lparr>le_item = item, le_next = NULL, le_prev = NULL\<rparr>);
            element_before \<leftarrow>
              (if index \<noteq> 0 then list_walk (unat (index - 1)) h (l_head lst)
               else Some (l_head lst));
            if element_before \<noteq> NULL then do {
              b \<leftarrow> h element_before;
              h \<leftarrow> (if le_next b \<noteq> NULL then do {
                      h \<leftarrow> store new_element (\<lambda>e. e\<lparr>le_next := le_next b\<rparr>) h;
                      store (le_next b) (\<lambda>e. e\<lparr>le_prev := new_element\<rparr>) h
                    } else Some h);
              let lst = (if element_before = l_tail lst then lst\<lparr>l_tail := new_element\<rparr> else lst);
              h \<leftarrow> store new_element (\<lambda>e. e\<lparr>le_prev := element_before\<rparr>) h;
              h \<leftarrow> store element_before (\<lambda>e. e\<lparr>le_next := new_element\<rparr>) h;
              Some (True, s\<lparr>elems := h,
                      lists := (lists s)(l \<mapsto> lst\<lparr>l_size := l_size lst + 1\<rparr>)\<rparr>)
            }
            else if l_size lst = 0 then
              Some (True, s\<lparr>elems := h,
                      lists := (lists s)(l \<mapsto> lst\<lparr>l_head := new_element, l_tail := new_element,
                                                 l_size := l_size lst + 1\<rparr>)\<rparr>)
            else do {
              h \<leftarrow> mem_free (l_pool lst) new_element h;
              Some (False, s\<lparr>elems := h\<rparr>)
            }
          }
        }
      })"

subsection \<open>Removing\<close>

text \<open>
  The search loop of \<open>list_remove\<close> keeps the element before; the pair is the previous and the
  current element.
\<close>

primrec list_walk2 :: "nat \<Rightarrow> list_t_element pheap \<Rightarrow> ptr \<Rightarrow> ptr \<Rightarrow> (ptr \<times> ptr) option" where
  "list_walk2 0 h p e = Some (p, e)"
| "list_walk2 (Suc n) h p e =
     (if e = NULL then Some (NULL, NULL)
      else do {
        x \<leftarrow> h e;
        if le_next x \<noteq> NULL then list_walk2 n h e (le_next x) else Some (NULL, NULL)
      })"

definition list_remove :: "ptr \<Rightarrow> u32 \<Rightarrow> lheap \<Rightarrow> (bool \<times> lheap) option" where
  "list_remove l index s =
     (if l = NULL then Some (False, s)
      else do {
        lst \<leftarrow> lists s l;
        if \<not> l_size lst > index then Some (False, s)
        else do {
          (p, e) \<leftarrow> list_walk2 (unat index) (elems s) (l_head lst) (l_head lst);
          h \<leftarrow> (if p \<noteq> NULL \<and> p \<noteq> e \<and> e \<noteq> NULL then do {
                  x \<leftarrow> elems s e;
                  h \<leftarrow> store p (\<lambda>y. y\<lparr>le_next := (if le_next x \<noteq> NULL then le_next x else NULL)\<rparr>)
                         (elems s);
                  store e (\<lambda>y. y\<lparr>le_prev := p\<rparr>) h
                } else Some (elems s));
          lst \<leftarrow> (if l_size lst = 1 then Some (lst\<lparr>l_tail := NULL, l_head := NULL\<rparr>)
                  else if e \<noteq> NULL then do {
                    let lst = (if e = l_tail lst then lst\<lparr>l_tail := p\<rparr> else lst);
                    if e = l_head lst then do {
                      x \<leftarrow> h e;
                      Some (lst\<lparr>l_head := le_next x\<rparr>)
                    } else Some lst
                  } else Some lst);
          h \<leftarrow> mem_free (l_pool lst) e h;
          Some (True, s\<lparr>elems := h, lists := (lists s)(l \<mapsto> lst\<lparr>l_size := l_size lst - 1\<rparr>)\<rparr>)
        }
      })"

text \<open>
  The search loop of \<open>list_remove_item\<close> and \<open>list_contains\<close>: at most \<open>n\<close> more elements are
  compared; the result is the index of the first match.
\<close>

primrec list_find :: "nat \<Rightarrow> u32 \<Rightarrow> list_t_element pheap \<Rightarrow> ptr \<Rightarrow> ptr \<Rightarrow> u32 option option" where
  "list_find 0 p h e item = Some None"
| "list_find (Suc n) p h e item = do {
     x \<leftarrow> h e;
     if le_item x = item then Some (Some p) else list_find n (p + 1) h (le_next x) item
   }"

definition list_remove_item :: "ptr \<Rightarrow> ptr \<Rightarrow> lheap \<Rightarrow> (bool \<times> lheap) option" where
  "list_remove_item l item s =
     (if l = NULL then Some (False, s)
      else do {
        lst \<leftarrow> lists s l;
        if l_size lst = 0 then Some (False, s)
        else do {
          found \<leftarrow> list_find (unat (l_size lst)) 0 (elems s) (l_head lst) item;
          (case found of
             Some p \<Rightarrow> list_remove l p s
           | None \<Rightarrow> Some (False, s))
        }
      })"

definition list_contains :: "ptr \<Rightarrow> ptr \<Rightarrow> lheap \<Rightarrow> bool option" where
  "list_contains l item s =
     (if l = NULL then Some False
      else do {
        lst \<leftarrow> lists s l;
        if l_size lst = 0 then Some False
        else do {
          found \<leftarrow> list_find (unat (l_size lst)) 0 (elems s) (l_head lst) item;
          Some (found \<noteq> None)
        }
      })"

definition list_remove_tail :: "ptr \<Rightarrow> lheap \<Rightarrow> (bool \<times> lheap) option" where
  "list_remove_tail l s =
     (if l = NULL then Some (False, s)
      else do {
        lst \<leftarrow> lists s l;
        if l_tail lst = NULL then Some (False, s)
        else do {
          let e = l_tail lst;
          (h, lst) \<leftarrow>
            (if l_head lst = l_tail lst then Some (elems s, lst\<lparr>l_head := NULL, l_tail := NULL\<rparr>)
             else do {
               x \<leftarrow> elems s (l_tail lst);
               h \<leftarrow> store (le_prev x) (\<lambda>y. y\<lparr>le_next := NULL\<rparr>) (elems s);
               Some (h, lst\<lparr>l_tail := le_prev x\<rparr>)
             });
          h \<leftarrow> mem_free (l_pool lst) e h;
          Some (True, s\<lparr>elems := h, lists := (lists s)(l \<mapsto> lst\<lparr>l_size := l_size lst - 1\<rparr>)\<rparr>)
        }
      })"

subsection \<open>Reordering and reading\<close>

definition list_head_to_tail :: "ptr \<Rightarrow> lheap \<Rightarrow> (bool \<times> lheap) option" where
  "list_head_to_tail l s =
     (if l = NULL then Some (False, s)
      else do {
        lst \<leftarrow> lists s l;
        if l_size lst \<le> 1 then Some (True, s)
        else do {
          hd_e \<leftarrow> elems s (l_head lst);
          tl_e \<leftarrow> elems s (l_tail lst);
          let oldHeadNext = le_next hd_e;
          let oldTailPrev = le_prev tl_e;
          let oldTail = l_tail lst;
          let oldHead = l_head lst;
          h \<leftarrow> store oldTail (\<lambda>e. e\<lparr>le_prev := NULL\<rparr>) (elems s);
          h \<leftarrow> store oldTail (\<lambda>e. e\<lparr>le_next := oldHeadNext\<rparr>) h;
          h \<leftarrow> store oldHead (\<lambda>e. e\<lparr>le_prev := oldTailPrev\<rparr>) h;
          h \<leftarrow> store oldHead (\<lambda>e. e\<lparr>le_next := NULL\<rparr>) h;
          h \<leftarrow> store oldTailPrev (\<lambda>e. e\<lparr>le_next := oldHead\<rparr>) h;
          h \<leftarrow> store oldHeadNext (\<lambda>e. e\<lparr>le_prev := oldTail\<rparr>) h;
          Some (True, s\<lparr>elems := h,
                  lists := (lists s)(l \<mapsto> lst\<lparr>l_head := oldTail, l_tail := oldHead\<rparr>)\<rparr>)
        }
      })"

definition list_get :: "ptr \<Rightarrow> u32 \<Rightarrow> lheap \<Rightarrow> ptr option option" where
  "list_get l index s =
     (if l = NULL then Some None
      else do {
        lst \<leftarrow> lists s l;
        if \<not> l_size lst > index then Some None
        else do {
          e \<leftarrow> list_walk (unat index) (elems s) (l_head lst);
          if e = NULL then Some None
          else do { x \<leftarrow> elems s e; Some (Some (le_item x)) }
        }
      })"

definition list_get_tail :: "ptr \<Rightarrow> lheap \<Rightarrow> ptr option option" where
  "list_get_tail l s =
     (if l = NULL then Some None
      else do {
        lst \<leftarrow> lists s l;
        if l_tail lst = NULL then Some None
        else do { x \<leftarrow> elems s (l_tail lst); Some (Some (le_item x)) }
      })"

text \<open>The loop of \<open>list_next\<close> stops at the element that holds \<open>current\<close>.\<close>

primrec list_next_loop :: "nat \<Rightarrow> list_t_element pheap \<Rightarrow> ptr \<Rightarrow> ptr \<Rightarrow> ptr option" where
  "list_next_loop 0 h e current = Some e"
| "list_next_loop (Suc n) h e current = do {
     x \<leftarrow> h e;
     if le_item x = current then Some e else list_next_loop n h (le_next x) current
   }"

definition list_next :: "ptr \<Rightarrow> ptr \<Rightarrow> lheap \<Rightarrow> ptr option option" where
  "list_next l current s = do {
     lst \<leftarrow> lists s l;
     e \<leftarrow> list_next_loop (unat (l_size lst)) (elems s) (l_head lst) current;
     x \<leftarrow> elems s e;
     if le_next x \<noteq> NULL then do { y \<leftarrow> elems s (le_next x); Some (Some (le_item y)) }
     else Some None
   }"

definition list_size :: "ptr \<Rightarrow> lheap \<Rightarrow> u32 option" where
  "list_size l s = do { lst \<leftarrow> lists s l; Some (l_size lst) }"

subsection \<open>Iterators\<close>

definition list_it_initialise :: "ptr \<Rightarrow> ptr \<Rightarrow> lheap \<Rightarrow> lheap option" where
  "list_it_initialise it l s = do {
     let s = (if it \<noteq> NULL
              then s\<lparr>its := (its s)(it \<mapsto> \<lparr>it_list = l, it_current = NULL, it_pos = 0\<rparr>)\<rparr> else s);
     if l \<noteq> NULL then do {
       lst \<leftarrow> lists s l;
       if l_size lst > 0 then do {
         i \<leftarrow> store it (\<lambda>x. x\<lparr>it_current := l_head lst\<rparr>) (its s);
         Some (s\<lparr>its := i\<rparr>)
       } else Some s
     } else Some s
   }"

definition list_it_create :: "ptr \<Rightarrow> lheap \<Rightarrow> (ptr \<times> lheap) option" where
  "list_it_create l s =
     (if l = NULL then Some (NULL, s)
      else do {
        lst \<leftarrow> lists s l;
        (it, as) \<leftarrow> mem_alloc (l_pool lst) (its s) (answers s);
        s \<leftarrow> list_it_initialise it l (s\<lparr>answers := as\<rparr>);
        Some (it, s)
      })"

definition list_it_delete :: "ptr \<Rightarrow> lheap \<Rightarrow> lheap option" where
  "list_it_delete it s =
     (if it = NULL then Some s
      else do {
        i \<leftarrow> its s it;
        lst \<leftarrow> lists s (it_list i);
        h \<leftarrow> mem_free (l_pool lst) it (its s);
        Some (s\<lparr>its := h\<rparr>)
      })"

definition list_it_get :: "ptr \<Rightarrow> lheap \<Rightarrow> (ptr option \<times> lheap) option" where
  "list_it_get it s =
     (if it = NULL then Some (None, s)
      else do {
        i \<leftarrow> its s it;
        i \<leftarrow> (if it_current i = NULL
              then do { lst \<leftarrow> lists s (it_list i); Some (i\<lparr>it_current := l_head lst\<rparr>) }
              else Some i);
        let s = s\<lparr>its := (its s)(it \<mapsto> i)\<rparr>;
        if it_current i = NULL then Some (None, s)
        else do { x \<leftarrow> elems s (it_current i); Some (Some (le_item x), s) }
      })"

primrec list_it_fwd_loop ::
  "nat \<Rightarrow> list_t_element pheap \<Rightarrow> list_it_t \<Rightarrow> (bool \<times> list_it_t) option" where
  "list_it_fwd_loop 0 h i = Some (True, i)"
| "list_it_fwd_loop (Suc n) h i = do {
     x \<leftarrow> h (it_current i);
     let i = i\<lparr>it_current := le_next x, it_pos := it_pos i + 1\<rparr>;
     if it_current i \<noteq> NULL then list_it_fwd_loop n h i else Some (False, i)
   }"

definition list_it_fwd :: "ptr \<Rightarrow> u32 \<Rightarrow> lheap \<Rightarrow> (bool \<times> lheap) option" where
  "list_it_fwd it count s =
     (if it = NULL then Some (False, s)
      else do {
        i \<leftarrow> its s it;
        (ok, i) \<leftarrow> list_it_fwd_loop (unat count) (elems s) i;
        Some (ok, s\<lparr>its := (its s)(it \<mapsto> i)\<rparr>)
      })"

primrec list_it_back_loop ::
  "nat \<Rightarrow> list_t_element pheap \<Rightarrow> list_it_t \<Rightarrow> (bool \<times> list_it_t) option" where
  "list_it_back_loop 0 h i = Some (True, i)"
| "list_it_back_loop (Suc n) h i = do {
     x \<leftarrow> h (it_current i);
     let i = i\<lparr>it_current := le_prev x, it_pos := it_pos i - 1\<rparr>;
     if it_current i \<noteq> NULL then list_it_back_loop n h i else Some (False, i)
   }"

definition list_it_back :: "ptr \<Rightarrow> u32 \<Rightarrow> lheap \<Rightarrow> (bool \<times> lheap) option" where
  "list_it_back it count s =
     (if it = NULL then Some (False, s)
      else do {
        i \<leftarrow> its s it;
        (ok, i) \<leftarrow> list_it_back_loop (unat count) (elems s) i;
        Some (ok, s\<lparr>its := (its s)(it \<mapsto> i)\<rparr>)
      })"

text \<open>
  \<open>list_it_next\<close> and \<open>list_it_prev\<close> clear the out parameter first, so the value written is the
  item or null; a null iterator leaves it unwritten.
\<close>

definition list_it_next :: "ptr \<Rightarrow> lheap \<Rightarrow> (bool \<times> ptr option \<times> lheap) option" where
  "list_it_next it s =
     (if it = NULL then Some (False, None, s)
      else do {
        i \<leftarrow> its s it;
        if it_current i = NULL then Some (False, Some NULL, s)
        else do {
          x \<leftarrow> elems s (it_current i);
          if le_next x = NULL then Some (False, Some NULL, s)
          else do {
            y \<leftarrow> elems s (le_next x);
            Some (True, Some (le_item y),
                  s\<lparr>its := (its s)(it \<mapsto> i\<lparr>it_current := le_next x, it_pos := it_pos i + 1\<rparr>)\<rparr>)
          }
        }
      })"

definition list_it_prev :: "ptr \<Rightarrow> lheap \<Rightarrow> (bool \<times> ptr option \<times> lheap) option" where
  "list_it_prev it s =
     (if it = NULL then Some (False, None, s)
      else do {
        i \<leftarrow> its s it;
        if it_current i = NULL then Some (False, Some NULL, s)
        else do {
          x \<leftarrow> elems s (it_current i);
          if le_prev x = NULL then Some (False, Some NULL, s)
          else do {
            y \<leftarrow> elems s (le_prev x);
            Some (True, Some (le_item y),
                  s\<lparr>its := (its s)(it \<mapsto> i\<lparr>it_current := le_prev x, it_pos := it_pos i - 1\<rparr>)\<rparr>)
          }
        }
      })"

definition list_it_reset :: "ptr \<Rightarrow> lheap \<Rightarrow> lheap option" where
  "list_it_reset it s =
     (if it = NULL then Some s
      else do {
        i \<leftarrow> its s it;
        lst \<leftarrow> lists s (it_list i);
        Some (s\<lparr>its := (its s)(it \<mapsto> i\<lparr>it_current := l_head lst, it_pos := 0\<rparr>)\<rparr>)
      })"

definition list_it_where :: "ptr \<Rightarrow> lheap \<Rightarrow> u32 option" where
  "list_it_where it s = do { i \<leftarrow> its s it; Some (it_pos i) }"

end
