(* ===== verification/Queue_Stack.thy ===== *)
theory Queue_Stack
  imports Unbounded_List
begin

section \<open>Queues and stacks (\<open>unbounded_queue.c\<close>, \<open>stack.c\<close>)\<close>

text \<open>
  The queue and the stack of the kernel are a pointer to a list and the pool they come from.
  Their state is the heap of the lists with a heap of queue headers and one of stack headers
  on top.  A null list pointer (the list could not be allocated) is checked by the queue
  operations and passed on by the stack operations, as in the code.
\<close>

record queue_t =
  q_list :: ptr
  q_pool :: ptr

record stack_t =
  s_list :: ptr
  s_pool :: ptr

record cheap =
  clh :: lheap
  queues :: "queue_t pheap"
  stacks :: "stack_t pheap"
  c_answers :: "ptr list"

text \<open>Running a list operation in the state of the collections.\<close>

definition on_lists :: "(lheap \<Rightarrow> ('a \<times> lheap) option) \<Rightarrow> cheap \<Rightarrow> ('a \<times> cheap) option" where
  "on_lists f s = do { (r, h) \<leftarrow> f (clh s); Some (r, s\<lparr>clh := h\<rparr>) }"

definition on_lists_unit :: "(lheap \<Rightarrow> lheap option) \<Rightarrow> cheap \<Rightarrow> cheap option" where
  "on_lists_unit f s = do { h \<leftarrow> f (clh s); Some (s\<lparr>clh := h\<rparr>) }"

subsection \<open>The queue\<close>

definition queue_initialise :: "ptr \<Rightarrow> ptr \<Rightarrow> cheap \<Rightarrow> cheap option" where
  "queue_initialise queue pool s =
     (if queue = NULL then Some s
      else do {
        (l, s) \<leftarrow> on_lists (list_create pool) s;
        Some (s\<lparr>queues := (queues s)(queue \<mapsto> \<lparr>q_list = l, q_pool = pool\<rparr>)\<rparr>)
      })"

definition queue_create :: "ptr \<Rightarrow> cheap \<Rightarrow> (ptr \<times> cheap) option" where
  "queue_create pool s =
     (if pool = NULL then Some (NULL, s)
      else do {
        (queue, as) \<leftarrow> mem_alloc pool (queues s) (c_answers s);
        let s = s\<lparr>c_answers := as\<rparr>;
        if queue \<noteq> NULL then do { s \<leftarrow> queue_initialise queue pool s; Some (queue, s) }
        else Some (queue, s)
      })"

definition queue_delete :: "ptr \<Rightarrow> cheap \<Rightarrow> cheap option" where
  "queue_delete queue s =
     (if queue = NULL then Some s
      else do {
        q \<leftarrow> queues s queue;
        s \<leftarrow> (if q_list q \<noteq> NULL then on_lists_unit (list_delete (q_list q)) s else Some s);
        if q_pool q \<noteq> NULL then do {
          qs \<leftarrow> mem_free (q_pool q) queue (queues s);
          Some (s\<lparr>queues := qs\<rparr>)
        } else Some s
      })"

text \<open>The guard \<open>queue && queue->list\<close> every queue operation starts with.\<close>

definition with_queue :: "ptr \<Rightarrow> cheap \<Rightarrow> 'a \<Rightarrow> (ptr \<Rightarrow> 'a option) \<Rightarrow> 'a option" where
  "with_queue queue s none f =
     (if queue = NULL then Some none
      else do {
        q \<leftarrow> queues s queue;
        if q_list q = NULL then Some none else f (q_list q)
      })"

definition queue_push :: "ptr \<Rightarrow> ptr \<Rightarrow> cheap \<Rightarrow> (bool \<times> cheap) option" where
  "queue_push queue item s = with_queue queue s (False, s) (\<lambda>l. on_lists (list_add l item) s)"

definition queue_pop :: "ptr \<Rightarrow> cheap \<Rightarrow> (bool \<times> cheap) option" where
  "queue_pop queue s = with_queue queue s (False, s) (\<lambda>l. on_lists (list_remove l 0) s)"

definition queue_front :: "ptr \<Rightarrow> cheap \<Rightarrow> ptr option option" where
  "queue_front queue s = with_queue queue s None (\<lambda>l. list_get l 0 (clh s))"

definition queue_reorder_first :: "ptr \<Rightarrow> cheap \<Rightarrow> (bool \<times> cheap) option" where
  "queue_reorder_first queue s = with_queue queue s (False, s) (\<lambda>l. on_lists (list_head_to_tail l) s)"

definition queue_size :: "ptr \<Rightarrow> cheap \<Rightarrow> u32 option" where
  "queue_size queue s = with_queue queue s 0 (\<lambda>l. list_size l (clh s))"

definition queue_remove :: "ptr \<Rightarrow> ptr \<Rightarrow> cheap \<Rightarrow> (bool \<times> cheap) option" where
  "queue_remove queue item s = with_queue queue s (False, s) (\<lambda>l. on_lists (list_remove_item l item) s)"

definition queue_contains :: "ptr \<Rightarrow> ptr \<Rightarrow> cheap \<Rightarrow> bool option" where
  "queue_contains queue item s = with_queue queue s False (\<lambda>l. list_contains l item (clh s))"

subsection \<open>The stack\<close>

definition stack_list :: "ptr \<Rightarrow> cheap \<Rightarrow> ptr option" where
  "stack_list stack s = do { k \<leftarrow> stacks s stack; Some (s_list k) }"

definition stack_initialise :: "ptr \<Rightarrow> ptr \<Rightarrow> cheap \<Rightarrow> cheap option" where
  "stack_initialise stack pool s =
     (if stack = NULL then Some s
      else do {
        (l, s) \<leftarrow> on_lists (list_create pool) s;
        Some (s\<lparr>stacks := (stacks s)(stack \<mapsto> \<lparr>s_list = l, s_pool = pool\<rparr>)\<rparr>)
      })"

definition stack_create :: "ptr \<Rightarrow> cheap \<Rightarrow> (ptr \<times> cheap) option" where
  "stack_create pool s =
     (if pool = NULL then Some (NULL, s)
      else do {
        (stack, as) \<leftarrow> mem_alloc pool (stacks s) (c_answers s);
        s \<leftarrow> stack_initialise stack pool (s\<lparr>c_answers := as\<rparr>);
        Some (stack, s)
      })"

definition stack_delete :: "ptr \<Rightarrow> cheap \<Rightarrow> cheap option" where
  "stack_delete stack s =
     (if stack = NULL then Some s
      else do {
        k \<leftarrow> stacks s stack;
        s \<leftarrow> (if s_list k \<noteq> NULL then on_lists_unit (list_delete (s_list k)) s else Some s);
        if s_pool k \<noteq> NULL then do {
          ks \<leftarrow> mem_free (s_pool k) stack (stacks s);
          Some (s\<lparr>stacks := ks\<rparr>)
        } else Some s
      })"

definition stack_push :: "ptr \<Rightarrow> ptr \<Rightarrow> cheap \<Rightarrow> (bool \<times> cheap) option" where
  "stack_push stack item s =
     (if stack = NULL then Some (False, s)
      else do { k \<leftarrow> stacks s stack; on_lists (list_add (s_list k) item) s })"

definition stack_insert :: "ptr \<Rightarrow> u32 \<Rightarrow> ptr \<Rightarrow> cheap \<Rightarrow> (bool \<times> cheap) option" where
  "stack_insert stack index item s =
     (if stack = NULL then Some (False, s)
      else do { k \<leftarrow> stacks s stack; on_lists (list_insert (s_list k) index item) s })"

text \<open>\<open>stack_pop\<close> reads the tail into the out parameter and only then removes it.\<close>

definition stack_pop :: "ptr \<Rightarrow> cheap \<Rightarrow> (ptr option \<times> cheap) option" where
  "stack_pop stack s =
     (if stack = NULL then Some (None, s)
      else do {
        k \<leftarrow> stacks s stack;
        item \<leftarrow> list_get_tail (s_list k) (clh s);
        (case item of
           None \<Rightarrow> Some (None, s)
         | Some x \<Rightarrow> do { (_, s) \<leftarrow> on_lists (list_remove_tail (s_list k)) s; Some (Some x, s) })
      })"

definition stack_front :: "ptr \<Rightarrow> cheap \<Rightarrow> ptr option option" where
  "stack_front stack s =
     (if stack = NULL then Some None
      else do { k \<leftarrow> stacks s stack; list_get_tail (s_list k) (clh s) })"

definition stack_get :: "ptr \<Rightarrow> u32 \<Rightarrow> cheap \<Rightarrow> ptr option option" where
  "stack_get stack index s =
     (if stack = NULL then Some None
      else do { k \<leftarrow> stacks s stack; list_get (s_list k) index (clh s) })"

definition stack_size :: "ptr \<Rightarrow> cheap \<Rightarrow> u32 option" where
  "stack_size stack s =
     (if stack = NULL then Some 0
      else do {
        k \<leftarrow> stacks s stack;
        if s_list k = NULL then Some 0 else list_size (s_list k) (clh s)
      })"

end
