(* ===== verification/List_Chain.thy ===== *)
theory List_Chain
  imports Unbounded_List
begin

section \<open>Chains of list elements\<close>

text \<open>
  The shape of a well formed list in the heap, and what the search loops of the list
  operations compute on it.  \<open>chain h p as q\<close> says that following \<open>next\<close> from \<open>p\<close> visits the
  elements \<open>as\<close> and ends at \<open>q\<close>; \<open>back_linked h as\<close> that every \<open>prev\<close> pointer but the first
  one's points to the element before; \<open>wf_list h lst as\<close> that the header \<open>lst\<close> describes the
  chain \<open>as\<close>.
\<close>

abbreviation nxt :: "list_t_element pheap \<Rightarrow> ptr \<Rightarrow> ptr" where
  "nxt h a \<equiv> le_next (the (h a))"

abbreviation prv :: "list_t_element pheap \<Rightarrow> ptr \<Rightarrow> ptr" where
  "prv h a \<equiv> le_prev (the (h a))"

abbreviation itm :: "list_t_element pheap \<Rightarrow> ptr \<Rightarrow> ptr" where
  "itm h a \<equiv> le_item (the (h a))"

primrec chain :: "list_t_element pheap \<Rightarrow> ptr \<Rightarrow> ptr list \<Rightarrow> ptr \<Rightarrow> bool" where
  "chain h p [] q \<longleftrightarrow> p = q"
| "chain h p (a # as) q \<longleftrightarrow> p = a \<and> a \<noteq> NULL \<and> h a \<noteq> None \<and> chain h (nxt h a) as q"

primrec backs :: "list_t_element pheap \<Rightarrow> ptr \<Rightarrow> ptr list \<Rightarrow> bool" where
  "backs h p [] \<longleftrightarrow> True"
| "backs h p (a # as) \<longleftrightarrow> prv h a = p \<and> backs h a as"

definition back_linked :: "list_t_element pheap \<Rightarrow> ptr list \<Rightarrow> bool" where
  "back_linked h as \<longleftrightarrow> (case as of [] \<Rightarrow> True | a # bs \<Rightarrow> backs h a bs)"

definition wf_list :: "list_t_element pheap \<Rightarrow> list_t \<Rightarrow> ptr list \<Rightarrow> bool" where
  "wf_list h lst as \<longleftrightarrow>
     chain h (l_head lst) as NULL \<and> distinct as \<and>
     l_tail lst = (if as = [] then NULL else last as) \<and>
     l_size lst = of_nat (length as) \<and> l_pool lst \<noteq> NULL"

subsection \<open>Chains\<close>

lemma chain_append [simp]:
  "chain h p (as @ bs) q \<longleftrightarrow> (\<exists>r. chain h p as r \<and> chain h r bs q)"
  by (induction as arbitrary: p) auto

lemma chain_in: "chain h p as q \<Longrightarrow> a \<in> set as \<Longrightarrow> h a \<noteq> None \<and> a \<noteq> NULL"
  by (induction as arbitrary: p) auto

lemma chain_not_NULL: "chain h p as q \<Longrightarrow> NULL \<notin> set as"
  using chain_in by blast

lemma chain_fresh: "chain h p as q \<Longrightarrow> h a = None \<Longrightarrow> a \<notin> set as"
  using chain_in by blast

lemma chain_cong:
  "chain h p as q \<Longrightarrow> (\<And>a. a \<in> set as \<Longrightarrow> h' a \<noteq> None \<and> nxt h' a = nxt h a) \<Longrightarrow> chain h' p as q"
  by (induction as arbitrary: p) auto

lemma chain_same: "\<forall>a\<in>set as. h' a = h a \<Longrightarrow> chain h' p as q = chain h p as q"
  by (induction as arbitrary: p) auto

lemma chain_upd_other [simp]: "a \<notin> set as \<Longrightarrow> chain (h(a := v)) p as q = chain h p as q"
  by (induction as arbitrary: p) auto

lemma chain_upd_back [simp]:
  "nxt h a = le_next x \<Longrightarrow> h a \<noteq> None \<Longrightarrow> chain (h(a \<mapsto> x)) p as q = chain h p as q"
  by (induction as arbitrary: p) auto

lemma chain_head: "chain h p as q \<Longrightarrow> p = (if as = [] then q else hd as)"
  by (cases as) auto

lemma chain_next:
  "chain h p as q \<Longrightarrow> Suc i < length as \<Longrightarrow> nxt h (as ! i) = as ! Suc i"
  by (induction as arbitrary: p i) (auto simp: nth_Cons hd_conv_nth split: nat.splits dest: chain_head)

lemma chain_last: "chain h p as q \<Longrightarrow> as \<noteq> [] \<Longrightarrow> nxt h (last as) = q"
  by (induction as arbitrary: p) auto

lemma backs_append [simp]:
  "backs h p (as @ bs) \<longleftrightarrow> backs h p as \<and> backs h (if as = [] then p else last as) bs"
  by (induction as arbitrary: p) auto

lemma backs_cong: "backs h p as \<Longrightarrow> (\<And>a. a \<in> set as \<Longrightarrow> prv h' a = prv h a) \<Longrightarrow> backs h' p as"
  by (induction as arbitrary: p) auto

lemma backs_upd_other [simp]: "a \<notin> set as \<Longrightarrow> backs (h(a := v)) p as = backs h p as"
  by (induction as arbitrary: p) auto

lemma back_linked_simps [simp]:
  "back_linked h []" "back_linked h (a # as) \<longleftrightarrow> backs h a as"
  by (simp_all add: back_linked_def)

lemma back_linked_append_one:
  "back_linked h (as @ [a]) \<longleftrightarrow> back_linked h as \<and> (as \<noteq> [] \<longrightarrow> prv h a = last as)"
  by (cases as) auto

lemma back_linked_last:
  "back_linked h as \<Longrightarrow> 2 \<le> length as \<Longrightarrow> prv h (last as) = last (butlast as)"
  by (cases as rule: rev_cases) (auto simp: back_linked_append_one)

lemma wf_list_NULL: "wf_list h lst as \<Longrightarrow> NULL \<notin> set as"
  by (auto simp: wf_list_def dest: chain_not_NULL)

lemma wf_list_size: "wf_list h lst as \<Longrightarrow> unat (l_size lst) = length as"
  using wf_list_NULL [of h lst as] by (simp add: wf_list_def)

lemma wf_list_length: "wf_list h lst as \<Longrightarrow> length as < 2 ^ 32"
  using wf_list_NULL [of h lst as] length_distinct_ptr [of as] by (simp add: wf_list_def)

lemma wf_list_size_zero: "wf_list h lst as \<Longrightarrow> l_size lst = 0 \<longleftrightarrow> as = []"
  using wf_list_size [of h lst as] by (auto simp: wf_list_def unat_eq_zero)

lemma wf_list_less_size: "wf_list h lst as \<Longrightarrow> n < l_size lst \<longleftrightarrow> unat n < length as"
  by (simp add: word_less_nat_alt wf_list_size)

lemma wf_list_cong:
  "wf_list h lst as \<Longrightarrow> (\<And>a. a \<in> set as \<Longrightarrow> h' a \<noteq> None \<and> nxt h' a = nxt h a) \<Longrightarrow> wf_list h' lst as"
  unfolding wf_list_def using chain_cong [of h "l_head lst" as NULL h'] by simp

lemma wf_list_same: "\<forall>a\<in>set as. h' a = h a \<Longrightarrow> wf_list h' lst as = wf_list h lst as"
  unfolding wf_list_def using chain_same [of as h' h] by simp

subsection \<open>The search loops on a chain\<close>

lemma list_walk_chain:
  "chain h p as NULL \<Longrightarrow> n < length as \<Longrightarrow> list_walk n h p = Some (as ! n)"
proof (induction n arbitrary: p as)
  case 0
  then show ?case by (cases as) auto
next
  case (Suc n)
  then obtain a b bs where as: "as = a # b # bs"
    by (cases as; cases "tl as") auto
  with Suc.prems obtain x where x: "h a = Some x" "le_next x = b" "p = a" "b \<noteq> NULL"
    by auto
  with Suc.prems as have "list_walk n h b = Some ((b # bs) ! n)"
    by (intro Suc.IH) auto
  with x as show ?case by simp
qed

lemma list_walk2_chain:
  "chain h p as NULL \<Longrightarrow> n < length as \<Longrightarrow>
   list_walk2 n h q p = Some (if n = 0 then q else as ! (n - 1), as ! n)"
proof (induction n arbitrary: p q as)
  case 0
  then show ?case by (cases as) auto
next
  case (Suc n)
  then obtain a b bs where as: "as = a # b # bs"
    by (cases as; cases "tl as") auto
  with Suc.prems obtain x where x: "h a = Some x" "le_next x = b" "p = a" "b \<noteq> NULL" "a \<noteq> NULL"
    by auto
  have "list_walk2 n h a b = Some (if n = 0 then a else (b # bs) ! (n - 1), (b # bs) ! n)"
    using Suc.prems x as by (intro Suc.IH) auto
  with x as show ?case by (cases n) auto
qed

definition index_of :: "'a \<Rightarrow> 'a list \<Rightarrow> nat" where
  "index_of x xs = length (takeWhile (\<lambda>y. y \<noteq> x) xs)"

lemma index_of_simps [simp]:
  "index_of x [] = 0" "index_of x (y # ys) = (if y = x then 0 else Suc (index_of x ys))"
  by (auto simp: index_of_def)

lemma index_of_less: "x \<in> set xs \<Longrightarrow> index_of x xs < length xs"
  by (induction xs) auto

lemma nth_index_of: "x \<in> set xs \<Longrightarrow> xs ! index_of x xs = x"
  by (induction xs) auto

lemma remove_at_index_of:
  "x \<in> set xs \<Longrightarrow> take (index_of x xs) xs @ drop (Suc (index_of x xs)) xs = remove1 x xs"
  by (induction xs) auto

lemma list_find_chain:
  "chain h p as NULL \<Longrightarrow>
   list_find (length as) k h p x =
     Some (if x \<in> set (map (itm h) as) then Some (k + of_nat (index_of x (map (itm h) as))) else None)"
proof (induction as arbitrary: p k)
  case Nil
  then show ?case by simp
next
  case (Cons a as)
  then obtain y where y: "h a = Some y" "p = a" and c: "chain h (le_next y) as NULL" by auto
  show ?case using y Cons.IH [OF c, of "k + 1"] by (simp add: add.assoc)
qed

lemma list_next_loop_chain:
  "chain h p as NULL \<Longrightarrow> x \<in> set (map (itm h) as) \<Longrightarrow>
   list_next_loop (length as) h p x = Some (as ! index_of x (map (itm h) as))"
proof (induction as arbitrary: p)
  case Nil
  then show ?case by simp
next
  case (Cons a as)
  then obtain y where y: "h a = Some y" "p = a" and c: "chain h (le_next y) as NULL" by auto
  show ?case using y Cons.prems(2) Cons.IH [OF c] by auto
qed

lemma list_delete_loop_chain:
  "chain h p as q \<Longrightarrow> distinct as \<Longrightarrow> pool \<noteq> NULL \<Longrightarrow>
   list_delete_loop (length as) pool p h = Some (\<lambda>a. if a \<in> set as then None else h a)"
proof (induction as arbitrary: p h)
  case Nil
  then show ?case by simp
next
  case (Cons a as)
  then obtain y where y: "h a = Some y" "p = a" "a \<noteq> NULL" by auto
  let ?h = "h(a := None)"
  have "chain ?h (le_next y) as q" using Cons.prems y by simp
  then have "list_delete_loop (length as) pool (le_next y) ?h = Some (\<lambda>b. if b \<in> set as then None else ?h b)"
    by (rule Cons.IH) (use Cons.prems in simp_all)
  moreover have "(\<lambda>b. if b \<in> set as then None else ?h b) = (\<lambda>b. if b \<in> set (a # as) then None else h b)"
    by auto
  ultimately show ?case using y Cons.prems(3) by (simp add: mem_free_def)
qed

end
