(* ===== verification/List_Correct.thy ===== *)
theory List_Correct
  imports List_Chain
begin

section \<open>What the list operations do\<close>

text \<open>
  The abstract view of a list in the heap and the effect of every operation on it.
  \<open>list_items s l\<close> is the sequence of items of the list \<open>l\<close>, \<open>list_ok s l\<close> says that \<open>l\<close> is a
  well formed list, and \<open>list_becomes l s s' xs\<close> that the heap \<open>s'\<close> differs from \<open>s\<close> in the list
  \<open>l\<close> only, whose items are now \<open>xs\<close>.  \<open>lheap_ok\<close> is the invariant of the whole heap: every
  list is well formed and no two lists share an element.
\<close>

subsection \<open>The abstract view\<close>

primrec chain_addrs :: "nat \<Rightarrow> list_t_element pheap \<Rightarrow> ptr \<Rightarrow> ptr list" where
  "chain_addrs 0 h p = []"
| "chain_addrs (Suc n) h p = p # chain_addrs n h (nxt h p)"

definition list_addrs :: "lheap \<Rightarrow> ptr \<Rightarrow> ptr list" where
  "list_addrs s l = (case lists s l of None \<Rightarrow> []
     | Some lst \<Rightarrow> chain_addrs (unat (l_size lst)) (elems s) (l_head lst))"

definition list_items :: "lheap \<Rightarrow> ptr \<Rightarrow> ptr list" where
  "list_items s l = map (itm (elems s)) (list_addrs s l)"

definition list_ok :: "lheap \<Rightarrow> ptr \<Rightarrow> bool" where
  "list_ok s l \<longleftrightarrow> l \<noteq> NULL \<and>
     (case lists s l of None \<Rightarrow> False | Some lst \<Rightarrow> wf_list (elems s) lst (list_addrs s l))"

definition list_back :: "lheap \<Rightarrow> ptr \<Rightarrow> bool" where
  "list_back s l \<longleftrightarrow> back_linked (elems s) (list_addrs s l)"

definition lheap_ok :: "lheap \<Rightarrow> bool" where
  "lheap_ok s \<longleftrightarrow> (\<forall>l. lists s l \<noteq> None \<longrightarrow> list_ok s l) \<and>
     (\<forall>l l'. l \<noteq> l' \<longrightarrow> set (list_addrs s l) \<inter> set (list_addrs s l') = {})"

definition list_step :: "ptr \<Rightarrow> lheap \<Rightarrow> lheap \<Rightarrow> bool" where
  "list_step l s s' \<longleftrightarrow>
     (\<forall>l'. l' \<noteq> l \<longrightarrow> lists s' l' = lists s l') \<and>
     (\<forall>a. elems s a \<noteq> None \<longrightarrow> a \<notin> set (list_addrs s l) \<longrightarrow> elems s' a = elems s a) \<and>
     set (list_addrs s' l) \<subseteq> set (list_addrs s l) \<union> {a. elems s a = None} \<and>
     its s' = its s"

definition list_becomes :: "ptr \<Rightarrow> lheap \<Rightarrow> lheap \<Rightarrow> ptr list \<Rightarrow> bool" where
  "list_becomes l s s' xs \<longleftrightarrow> list_step l s s' \<and> list_ok s' l \<and> list_items s' l = xs"

lemma chain_addrs_chain: "chain h p as q \<Longrightarrow> chain_addrs (length as) h p = as"
  by (induction as arbitrary: p) auto

lemma list_addrs_wf:
  assumes "lists s l = Some lst" "wf_list (elems s) lst as"
  shows "list_addrs s l = as"
proof -
  have "chain (elems s) (l_head lst) as NULL" using assms(2) by (simp add: wf_list_def)
  then show ?thesis
    using assms by (simp add: list_addrs_def wf_list_size chain_addrs_chain)
qed

lemma list_okE:
  assumes "list_ok s l"
  obtains lst where "l \<noteq> NULL" "lists s l = Some lst" "wf_list (elems s) lst (list_addrs s l)"
  using assms by (auto simp: list_ok_def split: option.splits)

lemma list_ok_alive: "list_ok s l \<Longrightarrow> elems s a = None \<Longrightarrow> a \<notin> set (list_addrs s l)"
  by (elim list_okE) (auto simp: wf_list_def dest: chain_fresh)

lemma list_becomesI:
  assumes "list_ok s l" "lists s' l = Some lst" "wf_list (elems s') lst as"
    and "map (itm (elems s')) as = xs"
    and "\<And>l'. l' \<noteq> l \<Longrightarrow> lists s' l' = lists s l'"
    and "\<And>a. elems s a \<noteq> None \<Longrightarrow> a \<notin> set (list_addrs s l) \<Longrightarrow> elems s' a = elems s a"
    and "\<And>a. a \<in> set as \<Longrightarrow> a \<notin> set (list_addrs s l) \<Longrightarrow> elems s a = None"
    and "its s' = its s"
  shows "list_becomes l s s' xs"
  using assms list_addrs_wf [OF assms(2,3)]
  by (auto simp: list_becomes_def list_step_def list_ok_def list_items_def)

lemma list_becomes_refl: "list_ok s l \<Longrightarrow> list_becomes l s s (list_items s l)"
  by (simp add: list_becomes_def list_step_def)

lemma list_views_answers [simp]:
  "list_addrs (s\<lparr>answers := as\<rparr>) l = list_addrs s l"
  "list_items (s\<lparr>answers := as\<rparr>) l = list_items s l"
  "list_ok (s\<lparr>answers := as\<rparr>) l = list_ok s l"
  "list_back (s\<lparr>answers := as\<rparr>) l = list_back s l"
  by (simp_all add: list_addrs_def list_items_def list_ok_def list_back_def cong: option.case_cong)

lemma list_becomes_answers: "list_ok s l \<Longrightarrow> list_becomes l s (s\<lparr>answers := as\<rparr>) (list_items s l)"
  by (simp add: list_becomes_def list_step_def)

subsection \<open>Framing\<close>

lemma chain_addrs_cong:
  "(\<And>a. a \<in> set (chain_addrs n h p) \<Longrightarrow> h' a = h a) \<Longrightarrow> chain_addrs n h' p = chain_addrs n h p"
  by (induction n arbitrary: p) auto

lemma lheap_ok_list: "lheap_ok s \<Longrightarrow> lists s l \<noteq> None \<Longrightarrow> list_ok s l"
  by (simp add: lheap_ok_def)

lemma lheap_ok_disjoint:
  "lheap_ok s \<Longrightarrow> l \<noteq> l' \<Longrightarrow> a \<in> set (list_addrs s l) \<Longrightarrow> a \<notin> set (list_addrs s l')"
  unfolding lheap_ok_def by (metis IntI empty_iff)

lemma lheap_ok_alive: "lheap_ok s \<Longrightarrow> a \<in> set (list_addrs s l) \<Longrightarrow> elems s a \<noteq> None"
  using lheap_ok_list [of s l] list_ok_alive [of s l a]
  by (cases "lists s l") (auto simp: list_addrs_def)

lemma list_step_other:
  assumes s: "lheap_ok s" and step: "list_step l s s'" and l': "l' \<noteq> l"
  shows "list_addrs s' l' = list_addrs s l'" "list_items s' l' = list_items s l'"
    "list_ok s' l' = list_ok s l'" "list_back s' l' = list_back s l'"
proof -
  have same: "elems s' a = elems s a" if "a \<in> set (list_addrs s l')" for a
    using that step lheap_ok_alive [OF s that] lheap_ok_disjoint [OF s l' that]
    by (simp add: list_step_def)
  have lst: "lists s' l' = lists s l'" using step l' by (simp add: list_step_def)
  show addrs: "list_addrs s' l' = list_addrs s l'"
    unfolding list_addrs_def lst
    by (cases "lists s l'") (auto intro!: chain_addrs_cong same simp: list_addrs_def)
  show "list_items s' l' = list_items s l'"
    unfolding list_items_def addrs using same by simp
  show "list_ok s' l' = list_ok s l'"
    unfolding list_ok_def addrs lst using wf_list_same [of "list_addrs s l'" "elems s'" "elems s"] same
    by (simp cong: option.case_cong)
  show "list_back s' l' = list_back s l'"
    unfolding list_back_def addrs using same
    by (cases "list_addrs s l'") (auto intro: backs_cong)
qed

lemma list_becomes_lheap_ok:
  assumes s: "lheap_ok s" and b: "list_becomes l s s' xs"
  shows "lheap_ok s'"
proof -
  have step: "list_step l s s'" and ok: "list_ok s' l" using b by (auto simp: list_becomes_def)
  note other = list_step_other [OF s step]
  have "list_ok s' l'" if "lists s' l' \<noteq> None" for l'
    using that ok other(3) [of l'] s step
    by (cases "l' = l") (auto simp: lheap_ok_def list_step_def)
  moreover have disj: "set (list_addrs s' l) \<inter> set (list_addrs s l') = {}" if "l' \<noteq> l" for l'
  proof -
    have "a \<notin> set (list_addrs s l')" if "a \<in> set (list_addrs s' l)" for a
    proof -
      have "a \<in> set (list_addrs s l) \<or> elems s a = None"
        using step that by (auto simp: list_step_def)
      then show ?thesis
        using lheap_ok_alive [OF s, of a l'] lheap_ok_disjoint [OF s, of l l' a] \<open>l' \<noteq> l\<close> by auto
    qed
    then show ?thesis by auto
  qed
  have "set (list_addrs s' l1) \<inter> set (list_addrs s' l2) = {}" if "l1 \<noteq> l2" for l1 l2
  proof (cases "l1 = l \<or> l2 = l")
    case True
    then show ?thesis using that disj [of l1] disj [of l2] other(1) by (metis Int_commute)
  next
    case False
    then show ?thesis using that s other(1) by (simp add: lheap_ok_def)
  qed
  ultimately show ?thesis by (simp add: lheap_ok_def)
qed

end
