(* ===== verification/List_Ops.thy ===== *)
theory List_Ops
  imports List_Correct
begin

section \<open>The list operations on a well formed list\<close>

text \<open>
  For every operation of the list, that it returns on a well formed list, its result, the
  items of the list afterwards and that nothing else changes.  The operations that follow
  \<open>prev\<close> pointers need them intact (\<open>list_back\<close>); it is stated which operations keep them so.
\<close>

definition alloc_ok :: "lheap \<Rightarrow> bool" where
  "alloc_ok s \<longleftrightarrow> (case answers s of [] \<Rightarrow> False | a # _ \<Rightarrow> a \<noteq> NULL \<and> elems s a = None)"

lemma mem_alloc_elems:
  assumes "pool \<noteq> NULL"
  shows "mem_alloc pool (elems s) (answers s) =
           Some (if alloc_ok s then hd (answers s) else NULL, tl (answers s))"
  using assms by (auto simp: mem_alloc_def alloc_ok_def split: list.splits)

lemma alloc_ok_fresh: "alloc_ok s \<Longrightarrow> hd (answers s) \<noteq> NULL \<and> elems s (hd (answers s)) = None"
  by (auto simp: alloc_ok_def split: list.splits)

lemma list_ok_pool: "list_ok s l \<Longrightarrow> lists s l = Some lst \<Longrightarrow> l_pool lst \<noteq> NULL"
  by (auto simp: list_ok_def wf_list_def)

lemma wf_list_alive: "wf_list h lst as \<Longrightarrow> b \<in> set as \<Longrightarrow> h b \<noteq> None \<and> b \<noteq> NULL"
  using chain_in [of h "l_head lst" as NULL b] by (simp add: wf_list_def)

lemma back_linked_cong:
  "back_linked h as \<Longrightarrow> (\<And>a. a \<in> set as \<Longrightarrow> prv h' a = prv h a) \<Longrightarrow> back_linked h' as"
  by (cases as) (auto elim!: backs_cong)

subsection \<open>Adding\<close>

text \<open>The heap after linking a new element \<open>a\<close> behind the chain \<open>as\<close>.\<close>

lemma wf_list_snoc:
  assumes wf: "wf_list h lst as" and a: "h a = None" "a \<noteq> NULL"
    and h': "h' a \<noteq> None" "nxt h' a = NULL"
    and same: "\<And>b. b \<in> set as \<Longrightarrow> h' b \<noteq> None \<and> nxt h' b = (if b = last as then a else nxt h b)"
  shows "wf_list h' \<lparr>l_size = l_size lst + 1, l_head = (if as = [] then a else l_head lst),
                     l_tail = a, l_pool = l_pool lst\<rparr> (as @ [a])"
proof -
  have c: "chain h (l_head lst) as NULL" and d: "distinct as" using wf by (auto simp: wf_list_def)
  have na: "a \<notin> set as" using chain_fresh [OF c a(1)] .
  have "chain h' (if as = [] then a else l_head lst) as a"
  proof (cases as rule: rev_cases)
    case (snoc bs t)
    then have "chain h (l_head lst) bs t" using c by auto
    then have "chain h' (l_head lst) bs t"
      by (rule chain_cong) (use snoc d same in auto)
    then show ?thesis using snoc same c by auto
  qed simp
  then show ?thesis using wf na d a h' by (auto simp: wf_list_def)
qed

lemma list_add_spec:
  assumes ok: "list_ok s l"
  shows "\<exists>s'. list_add l x s = Some (alloc_ok s, s') \<and>
           list_becomes l s s' (if alloc_ok s then list_items s l @ [x] else list_items s l) \<and>
           (list_back s l \<longrightarrow> list_back s' l)"
proof (cases "alloc_ok s")
  case False
  then show ?thesis using ok list_becomes_answers [OF ok]
    by (elim list_okE) (auto simp: list_add_def mem_alloc_elems wf_list_def)
next
  case True
  obtain lst where l: "l \<noteq> NULL" "lists s l = Some lst" and wf: "wf_list (elems s) lst (list_addrs s l)"
    using ok by (rule list_okE)
  define as where "as = list_addrs s l"
  define a where "a = hd (answers s)"
  have a: "elems s a = None" "a \<noteq> NULL" using alloc_ok_fresh [OF True] by (auto simp: a_def)
  have na: "a \<notin> set as" using list_ok_alive [OF ok a(1)] by (simp add: as_def)
  note wf = wf [folded as_def]
  have pool: "l_pool lst \<noteq> NULL" using wf by (simp add: wf_list_def)
  define h where "h = (if as = [] then (elems s)(a \<mapsto> \<lparr>le_item = x, le_next = NULL, le_prev = NULL\<rparr>)
     else (elems s)(last as \<mapsto> (the (elems s (last as)))\<lparr>le_next := a\<rparr>,
                    a \<mapsto> \<lparr>le_item = x, le_next = NULL, le_prev = last as\<rparr>))"
  define lst' where "lst' = \<lparr>l_size = l_size lst + 1, l_head = (if as = [] then a else l_head lst),
                     l_tail = a, l_pool = l_pool lst\<rparr>"
  define s' where "s' = s\<lparr>answers := tl (answers s), elems := h, lists := (lists s)(l \<mapsto> lst')\<rparr>"
  have alive: "b \<in> set as \<Longrightarrow> elems s b \<noteq> None \<and> b \<noteq> NULL" for b
    using wf by (rule wf_list_alive)
  have wf': "wf_list h lst' (as @ [a])"
    unfolding lst'_def using alive na by (intro wf_list_snoc [OF wf a]) (auto simp: h_def)
  have "list_add l x s = Some (True, s')"
  proof (cases "as = []")
    case e: True
    then show ?thesis using l pool wf True a
      by (cases lst) (simp add: list_add_def mem_alloc_elems wf_list_def s'_def h_def lst'_def a_def [symmetric])
  next
    case ne: False
    then obtain y where "elems s (last as) = Some y" "last as \<noteq> NULL" "last as \<noteq> a"
      using alive [of "last as"] na by (auto dest: last_in_set)
    then show ?thesis using l pool wf True a ne
      by (cases lst) (simp add: list_add_def mem_alloc_elems wf_list_def s'_def h_def lst'_def a_def [symmetric]
          store_def fun_upd_twist Let_def)
  qed
  moreover have "list_becomes l s s' (list_items s l @ [x])"
    by (rule list_becomesI [OF ok, of _ lst' "as @ [a]"])
       (use wf' na a in \<open>auto simp: s'_def h_def list_items_def as_def [symmetric]\<close>)
  moreover have "list_back s' l" if "list_back s l"
  proof -
    have "list_addrs s' l = as @ [a]" 
      by (rule list_addrs_wf [of _ _ lst']) (simp_all add: s'_def wf')
    moreover have "back_linked h as"
      by (rule back_linked_cong [of "elems s"]) (use that na in \<open>auto simp: list_back_def as_def h_def\<close>)
    moreover have "as \<noteq> [] \<Longrightarrow> prv h a = last as" by (simp add: h_def)
    ultimately show ?thesis
      by (simp add: list_back_def back_linked_append_one) (simp add: s'_def)
  qed
  ultimately show ?thesis using True by simp
qed

subsection \<open>Reading\<close>

lemma list_size_spec: "list_ok s l \<Longrightarrow> list_size l s = Some (of_nat (length (list_items s l)))"
  by (elim list_okE) (simp add: list_size_def list_items_def wf_list_def)

lemma list_items_length: "list_ok s l \<Longrightarrow> length (list_items s l) < 2 ^ 32"
  using wf_list_length by (auto elim!: list_okE simp: list_items_def)

lemma list_get_spec:
  assumes "list_ok s l"
  shows "list_get l i s = Some (if unat i < length (list_items s l)
                                then Some (list_items s l ! unat i) else None)"
  using assms
proof (rule list_okE)
  fix lst assume l: "l \<noteq> NULL" "lists s l = Some lst" and wf: "wf_list (elems s) lst (list_addrs s l)"
  show ?thesis
  proof (cases "unat i < length (list_addrs s l)")
    case True
    let ?e = "list_addrs s l ! unat i"
    have "list_walk (unat i) (elems s) (l_head lst) = Some ?e"
      using wf True by (intro list_walk_chain) (auto simp: wf_list_def)
    moreover obtain y where "elems s ?e = Some y" "?e \<noteq> NULL"
      using wf_list_alive [OF wf, of ?e] True by auto
    ultimately show ?thesis
      using l True wf_list_less_size [OF wf, of i] by (simp add: list_get_def list_items_def)
  next
    case False
    then show ?thesis
      using l wf_list_less_size [OF wf, of i] by (simp add: list_get_def list_items_def)
  qed
qed

lemma list_get_tail_spec:
  assumes "list_ok s l"
  shows "list_get_tail l s = Some (if list_items s l = [] then None else Some (last (list_items s l)))"
  using assms
proof (rule list_okE)
  fix lst assume l: "l \<noteq> NULL" "lists s l = Some lst" and wf: "wf_list (elems s) lst (list_addrs s l)"
  show ?thesis
  proof (cases "list_addrs s l = []")
    case False
    then obtain y where "elems s (last (list_addrs s l)) = Some y" "last (list_addrs s l) \<noteq> NULL"
      using wf_list_alive [OF wf, of "last (list_addrs s l)"] by auto
    then show ?thesis
      using l wf False by (simp add: list_get_tail_def list_items_def wf_list_def last_map)
  qed (use l wf in \<open>simp add: list_get_tail_def list_items_def wf_list_def\<close>)
qed

lemma list_find_spec:
  assumes "list_ok s l" "lists s l = Some lst"
  shows "list_find (unat (l_size lst)) 0 (elems s) (l_head lst) x =
           Some (if x \<in> set (list_items s l) then Some (of_nat (index_of x (list_items s l))) else None)"
proof -
  have "wf_list (elems s) lst (list_addrs s l)" using assms by (simp add: list_ok_def)
  moreover then have "chain (elems s) (l_head lst) (list_addrs s l) NULL" by (simp add: wf_list_def)
  ultimately show ?thesis
    using list_find_chain [of "elems s" "l_head lst" "list_addrs s l" 0 x]
    by (simp add: wf_list_size list_items_def)
qed

lemma list_contains_spec: "list_ok s l \<Longrightarrow> list_contains l x s = Some (x \<in> set (list_items s l))"
  by (frule list_okE)
     (auto simp: list_contains_def list_find_spec wf_list_size_zero list_items_def elim: list_okE)

lemma list_next_spec:
  assumes ok: "list_ok s l" and x: "x \<in> set (list_items s l)"
  shows "list_next l x s =
    Some (let i = Suc (index_of x (list_items s l))
          in if i < length (list_items s l) then Some (list_items s l ! i) else None)"
  using ok
proof (rule list_okE)
  fix lst assume l: "l \<noteq> NULL" "lists s l = Some lst" and wf: "wf_list (elems s) lst (list_addrs s l)"
  define i where "i = index_of x (list_items s l)"
  define as where "as = list_addrs s l"
  have c: "chain (elems s) (l_head lst) as NULL" using wf by (simp add: wf_list_def as_def)
  have i: "i < length as" using index_of_less [OF x] by (simp add: i_def as_def list_items_def)
  have loop: "list_next_loop (unat (l_size lst)) (elems s) (l_head lst) x = Some (as ! i)"
    using list_next_loop_chain [OF c, of x] x wf_list_size [OF wf]
    by (simp add: i_def as_def list_items_def)
  obtain y where y: "elems s (as ! i) = Some y"
    using wf_list_alive [OF wf, of "as ! i"] i by (auto simp: as_def)
  show ?thesis
  proof (cases "Suc i < length as")
    case True
    then have "le_next y = as ! Suc i" using chain_next [OF c True] y by simp
    moreover obtain z where "elems s (as ! Suc i) = Some z" "as ! Suc i \<noteq> NULL"
      using wf_list_alive [OF wf, of "as ! Suc i"] True by (auto simp: as_def)
    ultimately show ?thesis using l loop y True
      by (simp add: list_next_def list_items_def as_def i_def Let_def)
  next
    case False
    then have "i = length as - 1" "as \<noteq> []" using i by auto
    then have "as ! i = last as" "as \<noteq> []" by (auto simp: last_conv_nth)
    then have "le_next y = NULL" using chain_last [OF c] y by simp
    then show ?thesis using l loop y False
      by (simp add: list_next_def list_items_def as_def i_def Let_def)
  qed
qed

subsection \<open>Removing\<close>

lemma wf_list_delete:
  assumes wf: "wf_list h lst (bs @ e # cs)"
    and hb: "\<And>b. b \<in> set bs \<Longrightarrow> h' b \<noteq> None \<and> nxt h' b = (if b = last bs then nxt h e else nxt h b)"
    and hc: "\<And>b. b \<in> set cs \<Longrightarrow> h' b \<noteq> None \<and> nxt h' b = nxt h b"
  shows "wf_list h' (lst\<lparr>l_size := l_size lst - 1, l_head := (if bs = [] then nxt h e else l_head lst),
                     l_tail := (if cs = [] then if bs = [] then NULL else last bs else l_tail lst)\<rparr>)
           (bs @ cs)"
proof -
  have c: "chain h (l_head lst) bs e" "chain h (nxt h e) cs NULL" and d: "distinct (bs @ e # cs)"
    using wf by (auto simp: wf_list_def)
  have "chain h' (nxt h e) cs NULL"
    by (rule chain_cong [OF c(2)]) (rule hc)
  moreover have "chain h' (if bs = [] then nxt h e else l_head lst) bs (nxt h e)"
  proof (cases bs rule: rev_cases)
    case (snoc ds t)
    then have "chain h (l_head lst) ds t" using c(1) by auto
    then have "chain h' (l_head lst) ds t"
      by (rule chain_cong) (use snoc d hb in auto)
    then show ?thesis using snoc hb c(1) by auto
  qed simp
  ultimately show ?thesis using wf d by (auto simp: wf_list_def)
qed

lemma list_remove_spec:
  assumes ok: "list_ok s l" and i: "unat i < length (list_items s l)"
  shows "\<exists>s'. list_remove l i s = Some (True, s') \<and>
           list_becomes l s s' (take (unat i) (list_items s l) @ drop (Suc (unat i)) (list_items s l)) \<and>
           (list_back s l \<and> (i = 0 \<or> Suc (unat i) = length (list_items s l)) \<longrightarrow> list_back s' l)"
proof -
  obtain lst where l: "l \<noteq> NULL" "lists s l = Some lst" and wf0: "wf_list (elems s) lst (list_addrs s l)"
    using ok by (rule list_okE)
  define as where "as = list_addrs s l"
  define n where "n = unat i"
  define e where "e = as ! n"
  define bs where "bs = take n as"
  define cs where "cs = drop (Suc n) as"
  have n: "n < length as" using i by (simp add: n_def as_def list_items_def)
  have as: "as = bs @ e # cs" using n by (simp add: bs_def cs_def e_def id_take_nth_drop)
  have bs0: "bs = [] \<longleftrightarrow> n = 0" using n by (auto simp: bs_def)
  have wf: "wf_list (elems s) lst (bs @ e # cs)" using wf0 as by (simp add: as_def)
  have c: "chain (elems s) (l_head lst) as NULL" and d: "distinct as" and pool: "l_pool lst \<noteq> NULL"
    using wf as by (auto simp: wf_list_def)
  note alive = wf_list_alive [OF wf]
  obtain y where y: "elems s e = Some y" "e \<noteq> NULL" using alive [of e] by auto
  define h where "h = (if bs = [] then (elems s)(e := None)
     else (elems s)(last bs \<mapsto> (the (elems s (last bs)))\<lparr>le_next := le_next y\<rparr>, e := None))"
  define lst' where "lst' = lst\<lparr>l_size := l_size lst - 1, l_head := (if bs = [] then nxt (elems s) e else l_head lst),
                     l_tail := (if cs = [] then if bs = [] then NULL else last bs else l_tail lst)\<rparr>"
  define s' where "s' = s\<lparr>elems := h, lists := (lists s)(l \<mapsto> lst')\<rparr>"
  have nl: "last bs \<noteq> e \<and> last bs \<notin> set cs \<and> last bs \<noteq> NULL \<and> elems s (last bs) \<noteq> None" if "bs \<noteq> []"
    using alive [of "last bs"] d last_in_set [OF that] by (auto simp: as)
  have wf': "wf_list h lst' (bs @ cs)"
    unfolding lst'_def
  proof (rule wf_list_delete [OF wf])
    fix b
    show "h b \<noteq> None \<and> nxt h b = (if b = last bs then nxt (elems s) e else nxt (elems s) b)"
      if "b \<in> set bs"
      using that alive [of b] d y by (auto simp: h_def as)
    show "h b \<noteq> None \<and> nxt h b = nxt (elems s) b" if "b \<in> set cs"
      using that alive [of b] d nl by (auto simp: h_def as)
  qed
  have "l_tail lst = (if cs = [] then e else last cs)" "l_head lst = hd (bs @ [e])"
    using wf chain_head [OF c] by (auto simp: wf_list_def as hd_append)
  then have ends: "l_tail lst = e \<longleftrightarrow> cs = []" "l_head lst = e \<longleftrightarrow> bs = []"
    using d by (auto simp: as hd_append)
  have walk: "list_walk2 n (elems s) (l_head lst) (l_head lst) =
                Some (if bs = [] then e else last bs, e)"
  proof (cases "n = 0")
    case True
    then show ?thesis using bs0 ends(2) by simp
  next
    case False
    then have "last bs = as ! (n - 1)" using n bs0 by (simp add: bs_def last_conv_nth)
    then show ?thesis using list_walk2_chain [OF c n, of "l_head lst"] False bs0 by (simp add: e_def)
  qed
  have size: "l_size lst = 1 \<longleftrightarrow> bs = [] \<and> cs = []"
    using wf_list_size [OF wf] by (auto simp: word_unat_eq_iff)
  have nx: "cs = [] \<Longrightarrow> le_next y = NULL" using c y by (auto simp: as)
  have lt: "i < l_size lst" using wf_list_less_size [OF wf, of i] n by (simp add: as n_def)
  have "list_remove l i s = Some (True, s')"
  proof (cases "bs = []")
    case True
    then show ?thesis
      using l walk pool y ends size lt nx
      by (cases lst) (auto simp: list_remove_def n_def [symmetric] mem_free_def s'_def lst'_def h_def)
  next
    case False
    with nl obtain z where "last bs \<noteq> e" "last bs \<noteq> NULL" "elems s (last bs) = Some z" by auto
    then show ?thesis using False
      using l walk pool y ends size lt nx
      by (cases lst) (auto simp: list_remove_def n_def [symmetric] mem_free_def store_def
          s'_def lst'_def h_def)
  qed
  moreover have "map (itm h) (bs @ cs) = take n (list_items s l) @ drop (Suc n) (list_items s l)"
  proof -
    have "map (itm h) (bs @ cs) = map (itm (elems s)) (bs @ cs)"
      by (rule map_cong) (use d in \<open>auto simp: h_def as\<close>)
    then show ?thesis by (simp add: list_items_def as_def [symmetric] bs_def cs_def take_map drop_map)
  qed
  then have "list_becomes l s s' (take n (list_items s l) @ drop (Suc n) (list_items s l))"
    by (intro list_becomesI [OF ok, of _ lst' "bs @ cs"])
       (use wf' in \<open>auto simp: s'_def h_def as_def [symmetric] as\<close>)
  moreover have "list_back s' l" if "list_back s l" "n = 0 \<or> Suc n = length as"
  proof -
    have "list_addrs s' l = bs @ cs"
      by (rule list_addrs_wf [of _ _ lst']) (simp_all add: s'_def wf')
    moreover have "back_linked (elems s) (bs @ cs)"
    proof (cases "bs = []")
      case True
      then show ?thesis using that(1) as by (cases cs) (auto simp: list_back_def as_def [symmetric])
    next
      case False
      then have "cs = []" using that(2) bs0 by (simp add: cs_def)
      then show ?thesis using that(1) as
        by (simp add: list_back_def as_def [symmetric] back_linked_append_one)
    qed
    then have "back_linked h (bs @ cs)"
      by (rule back_linked_cong) (use d nl in \<open>auto simp: h_def as\<close>)
    ultimately show ?thesis by (simp add: list_back_def) (simp add: s'_def)
  qed
  ultimately show ?thesis by (auto simp: n_def as_def list_items_def)
qed

lemma list_remove_range:
  assumes "list_ok s l" "length (list_items s l) \<le> unat i"
  shows "list_remove l i s = Some (False, s)"
  using assms wf_list_less_size [of "elems s" _ "list_addrs s l" i]
  by (elim list_okE) (auto simp: list_remove_def list_items_def)

lemma unat_index_of:
  assumes "list_ok s l" "x \<in> set (list_items s l)"
  shows "unat (of_nat (index_of x (list_items s l)) :: u32) = index_of x (list_items s l)"
proof -
  have "index_of x (list_items s l) < length (list_addrs s l)"
    using index_of_less [OF assms(2)] by (simp add: list_items_def)
  also have "\<dots> < 2 ^ 32" using assms(1) by (elim list_okE) (rule wf_list_length)
  finally show ?thesis by (simp add: unat_of_nat take_bit_nat_eq_self)
qed

lemma list_remove_item_spec:
  assumes ok: "list_ok s l"
  shows "\<exists>s'. list_remove_item l x s = Some (x \<in> set (list_items s l), s') \<and>
           list_becomes l s s' (remove1 x (list_items s l)) \<and>
           (list_back s l \<and> list_items s l \<noteq> [] \<and>
              (x \<in> set (list_items s l) \<longrightarrow> x = hd (list_items s l) \<or>
                 Suc (index_of x (list_items s l)) = length (list_items s l)) \<longrightarrow> list_back s' l)"
proof (cases "x \<in> set (list_items s l)")
  case True
  let ?i = "of_nat (index_of x (list_items s l)) :: u32"
  have ui: "unat ?i = index_of x (list_items s l)" using ok True by (rule unat_index_of)
  have "list_remove_item l x s = list_remove l ?i s"
    using ok True
    by (elim list_okE) (auto simp: list_remove_item_def list_find_spec [OF ok] wf_list_size_zero list_items_def)
  moreover have "?i = 0" if "x = hd (list_items s l)"
    using that True by (cases "list_items s l") auto
  ultimately show ?thesis
    using list_remove_spec [OF ok, of ?i] True index_of_less [OF True] ui
    by (auto simp: remove_at_index_of)
next
  case False
  then have "list_remove_item l x s = Some (False, s)"
    using ok by (elim list_okE) (auto simp: list_remove_item_def list_find_spec [OF ok])
  then show ?thesis using False list_becomes_refl [OF ok] by (auto simp: remove1_idem)
qed

lemma list_remove_tail_spec:
  assumes ok: "list_ok s l" and bk: "list_back s l" and ne: "list_items s l \<noteq> []"
  shows "\<exists>s'. list_remove_tail l s = Some (True, s') \<and>
           list_becomes l s s' (butlast (list_items s l)) \<and> list_back s' l"
proof -
  obtain lst where l: "l \<noteq> NULL" "lists s l = Some lst" and wf0: "wf_list (elems s) lst (list_addrs s l)"
    using ok by (rule list_okE)
  define bs where "bs = butlast (list_addrs s l)"
  define e where "e = last (list_addrs s l)"
  have as: "list_addrs s l = bs @ [e]" using ne by (simp add: list_items_def bs_def e_def)
  have wf: "wf_list (elems s) lst (bs @ e # [])" using wf0 as by simp
  have c: "chain (elems s) (l_head lst) (bs @ [e]) NULL" and d: "distinct (bs @ [e])"
    and pool: "l_pool lst \<noteq> NULL" and tail: "l_tail lst = e"
    using wf by (auto simp: wf_list_def)
  note alive = wf_list_alive [OF wf]
  obtain y where y: "elems s e = Some y" "e \<noteq> NULL" "le_next y = NULL" using alive [of e] c by auto
  have prev: "bs \<noteq> [] \<Longrightarrow> le_prev y = last bs"
    using bk y by (simp add: list_back_def as back_linked_append_one)
  have head: "l_head lst = e \<longleftrightarrow> bs = []" using chain_head [OF c] d by (cases bs) auto
  have nl: "last bs \<noteq> e \<and> last bs \<noteq> NULL \<and> elems s (last bs) \<noteq> None" if "bs \<noteq> []"
    using alive [of "last bs"] d last_in_set [OF that] by auto
  define h where "h = (if bs = [] then (elems s)(e := None)
     else (elems s)(last bs \<mapsto> (the (elems s (last bs)))\<lparr>le_next := NULL\<rparr>, e := None))"
  define lst' where "lst' = lst\<lparr>l_size := l_size lst - 1, l_head := (if bs = [] then nxt (elems s) e else l_head lst),
                     l_tail := (if [] = ([] :: ptr list) then if bs = [] then NULL else last bs else l_tail lst)\<rparr>"
  define s' where "s' = s\<lparr>elems := h, lists := (lists s)(l \<mapsto> lst')\<rparr>"
  have wf': "wf_list h lst' (bs @ [])"
    unfolding lst'_def
  proof (rule wf_list_delete [OF wf])
    show "h b \<noteq> None \<and> nxt h b = (if b = last bs then nxt (elems s) e else nxt (elems s) b)"
      if "b \<in> set bs" for b
      using that alive [of b] d y by (auto simp: h_def)
  qed simp
  have "list_remove_tail l s = Some (True, s')"
  proof (cases "bs = []")
    case True
    then show ?thesis using l pool y tail head
      by (cases lst) (auto simp: list_remove_tail_def mem_free_def s'_def lst'_def h_def)
  next
    case False
    with nl obtain z where "last bs \<noteq> e" "last bs \<noteq> NULL" "elems s (last bs) = Some z" by auto
    then show ?thesis using False l pool y tail head prev
      by (cases lst) (auto simp: list_remove_tail_def mem_free_def store_def s'_def lst'_def h_def)
  qed
  moreover have "map (itm h) bs = butlast (list_items s l)"
    using d by (auto simp: list_items_def as h_def butlast_append)
  then have "list_becomes l s s' (butlast (list_items s l))"
    by (intro list_becomesI [OF ok, of _ lst' bs]) (use wf' in \<open>auto simp: s'_def h_def as\<close>)
  moreover have "list_back s' l"
  proof -
    have "list_addrs s' l = bs" using list_addrs_wf [of s' l lst' bs] wf' by (simp add: s'_def)
    moreover have "back_linked h bs"
      by (rule back_linked_cong [of "elems s"])
         (use d bk in \<open>auto simp: h_def list_back_def as back_linked_append_one\<close>)
    ultimately show ?thesis by (simp add: list_back_def) (simp add: s'_def)
  qed
  ultimately show ?thesis by auto
qed

lemma list_remove_tail_empty:
  "list_ok s l \<Longrightarrow> list_items s l = [] \<Longrightarrow> list_remove_tail l s = Some (False, s)"
  by (elim list_okE) (simp add: list_remove_tail_def wf_list_def list_items_def)

subsection \<open>Head to tail\<close>

lemma list_head_to_tail_short:
  assumes ok: "list_ok s l" and "length (list_items s l) \<le> 1"
  shows "list_head_to_tail l s = Some (True, s)"
proof -
  obtain lst where l: "l \<noteq> NULL" "lists s l = Some lst" and wf: "wf_list (elems s) lst (list_addrs s l)"
    using ok by (rule list_okE)
  have "l_size lst \<le> 1" using assms(2) wf_list_size [OF wf] by (simp add: word_le_nat_alt list_items_def)
  then show ?thesis using l by (simp add: list_head_to_tail_def)
qed

text \<open>The six writes of \<open>list_head_to_tail\<close> on a list of at least three elements.\<close>

lemma list_head_to_tail_writes:
  assumes l: "l \<noteq> NULL" "lists s l = Some lst" and size: "\<not> l_size lst \<le> 1"
    and ends: "l_head lst = a" "l_tail lst = b"
    and mem: "elems s a = Some x" "elems s b = Some y" "le_next x = m" "le_prev y = k"
      "elems s m \<noteq> None" "elems s k \<noteq> None"
    and ne: "a \<noteq> b" "m \<noteq> a" "m \<noteq> b" "k \<noteq> a" "k \<noteq> b"
  shows "\<exists>h. list_head_to_tail l s =
               Some (True, s\<lparr>elems := h, lists := (lists s)(l \<mapsto> lst\<lparr>l_head := b, l_tail := a\<rparr>)\<rparr>) \<and>
             (\<forall>c. (h c = None \<longleftrightarrow> elems s c = None) \<and> itm h c = itm (elems s) c \<and>
                  nxt h c = (if c = b then m else if c = a then NULL
                             else if c = k then a else nxt (elems s) c) \<and>
                  prv h c = (if c = b then NULL else if c = a then k
                             else if c = m then b else prv (elems s) c) \<and>
                  (c \<noteq> a \<and> c \<noteq> b \<and> c \<noteq> m \<and> c \<noteq> k \<longrightarrow> h c = elems s c))"
proof -
  obtain z where z: "elems s m = Some z" using mem by auto
  obtain w where w: "elems s k = Some w" using mem by auto
  show ?thesis
    using assms z w
    by (cases "m = k") (auto simp: list_head_to_tail_def store_def Let_def)
qed

lemma list_head_to_tail_spec:
  assumes ok: "list_ok s l" and bk: "list_back s l" and items: "3 \<le> length (list_items s l)"
  shows "\<exists>s'. list_head_to_tail l s = Some (True, s') \<and>
           list_becomes l s s' (last (list_items s l) # butlast (tl (list_items s l)) @ [hd (list_items s l)]) \<and>
           list_back s' l"
proof -
  obtain lst where l: "l \<noteq> NULL" "lists s l = Some lst" and wf0: "wf_list (elems s) lst (list_addrs s l)"
    using ok by (rule list_okE)
  have "3 \<le> length (list_addrs s l)" using items by (simp add: list_items_def)
  then obtain a m r where as1: "list_addrs s l = a # m # r" "r \<noteq> []"
    by (auto simp: numeral_3_eq_3 Suc_le_length_iff)
  define b where "b = last r"
  define ms where "ms = m # butlast r"
  have as: "list_addrs s l = a # ms @ [b]" and m: "hd ms = m" "ms \<noteq> []"
    using as1 by (auto simp: b_def ms_def)
  have wf: "wf_list (elems s) lst (a # ms @ [b])" using wf0 as by simp
  have c: "chain (elems s) m ms b" "nxt (elems s) a = m" "nxt (elems s) b = NULL"
    and d: "distinct (a # ms @ [b])" and ends: "l_head lst = a" "l_tail lst = b"
    using wf m by (auto simp: wf_list_def ms_def)
  have bks: "backs (elems s) a ms" "prv (elems s) b = last ms"
    using bk m(2) by (auto simp: list_back_def as)
  note alive = wf_list_alive [OF wf]
  have size: "\<not> l_size lst \<le> 1"
    using wf_list_size [OF wf] m(2) by (simp add: word_le_nat_alt ms_def)
  obtain h where h: "list_head_to_tail l s =
      Some (True, s\<lparr>elems := h, lists := (lists s)(l \<mapsto> lst\<lparr>l_head := b, l_tail := a\<rparr>)\<rparr>)"
    and hd: "\<And>c. h c = None \<longleftrightarrow> elems s c = None" and hi: "\<And>c. itm h c = itm (elems s) c"
    and hn: "\<And>c. nxt h c = (if c = b then m else if c = a then NULL
                             else if c = last ms then a else nxt (elems s) c)"
    and hp: "\<And>c. prv h c = (if c = b then NULL else if c = a then last ms
                             else if c = m then b else prv (elems s) c)"
    and hs: "\<And>c. c \<noteq> a \<Longrightarrow> c \<noteq> b \<Longrightarrow> c \<notin> set ms \<Longrightarrow> h c = elems s c"
  proof -
    have "a \<noteq> b" "m \<noteq> a" "m \<noteq> b" "last ms \<noteq> a" "last ms \<noteq> b"
      using d m last_in_set [OF m(2)] by (auto simp: ms_def)
    moreover have "elems s m \<noteq> None" "elems s (last ms) \<noteq> None"
      using alive [of m] alive [of "last ms"] m(2) by (auto simp: ms_def)
    moreover obtain x y where "elems s a = Some x" "elems s b = Some y"
      using alive [of a] alive [of b] by auto
    ultimately show ?thesis
      using list_head_to_tail_writes [OF l size ends, of x y m "last ms"] c bks that last_in_set [OF m(2)]
      by (auto simp: ms_def)
  qed
  define lst' where "lst' = lst\<lparr>l_head := b, l_tail := a\<rparr>"
  define s' where "s' = s\<lparr>elems := h, lists := (lists s)(l \<mapsto> lst')\<rparr>"
  have "chain h m ms a"
  proof (cases ms rule: rev_cases)
    case (snoc ns k)
    then have "chain (elems s) m ns k" using c(1) by auto
    then have "chain h m ns k"
      by (rule chain_cong) (use snoc d hn hd alive in auto)
    then show ?thesis using snoc hn hd d alive [of k] by auto
  qed (use m in simp)
  then have wf': "wf_list h lst' (b # ms @ [a])"
    using wf d hn hd alive [of a] alive [of b] by (auto simp: wf_list_def lst'_def)
  have "list_becomes l s s' (last (list_items s l) # butlast (tl (list_items s l)) @ [hd (list_items s l)])"
    by (rule list_becomesI [OF ok, of _ lst' "b # ms @ [a]"])
       (use wf' hi hs in \<open>auto simp: s'_def list_items_def as butlast_append last_append\<close>)
  moreover have "list_back s' l"
  proof -
    have "list_addrs s' l = b # ms @ [a]"
      by (rule list_addrs_wf [of _ _ lst']) (simp_all add: s'_def wf')
    moreover have "backs (elems s) m (butlast r)" using bks(1) by (simp add: ms_def)
    then have "backs h m (butlast r)"
      by (rule backs_cong) (use d hp in \<open>auto simp: ms_def\<close>)
    then have "backs h b (ms @ [a])" using hp d m by (auto simp: ms_def)
    ultimately show ?thesis by (simp add: list_back_def) (simp add: s'_def)
  qed
  ultimately show ?thesis using h by (auto simp: s'_def lst'_def)
qed

text \<open>
  With exactly two elements the first and the last are also each other's neighbours and the
  writes overlap: each element is linked to itself.
\<close>

lemma list_head_to_tail_two:
  assumes ok: "list_ok s l" and bk: "list_back s l" and as: "list_addrs s l = [a, b]"
  shows "\<exists>s' lst. list_head_to_tail l s = Some (True, s') \<and> lists s l = Some lst \<and>
           s' = s\<lparr>elems := (elems s)(a \<mapsto> \<lparr>le_item = itm (elems s) a, le_next = a, le_prev = a\<rparr>,
                                      b \<mapsto> \<lparr>le_item = itm (elems s) b, le_next = b, le_prev = b\<rparr>),
                   lists := (lists s)(l \<mapsto> lst\<lparr>l_head := b, l_tail := a\<rparr>)\<rparr>"
proof -
  obtain lst where l: "l \<noteq> NULL" "lists s l = Some lst" and wf: "wf_list (elems s) lst [a, b]"
    using ok as by (auto elim: list_okE)
  have size: "\<not> l_size lst \<le> 1" using wf_list_size [OF wf] by (simp add: word_le_nat_alt)
  have "a \<noteq> b" "l_head lst = a" "l_tail lst = b" using wf by (auto simp: wf_list_def)
  moreover obtain x where x: "elems s a = Some x" using wf_list_alive [OF wf, of a] by auto
  moreover obtain y where y: "elems s b = Some y" using wf_list_alive [OF wf, of b] by auto
  moreover have "le_next x = b" "le_next y = NULL" using wf x y by (auto simp: wf_list_def)
  moreover have "prv (elems s) b = a" using bk as by (simp add: list_back_def)
  ultimately show ?thesis
    using l size by (cases x; cases y) (auto simp: list_head_to_tail_def store_def Let_def fun_upd_twist)
qed

text \<open>After it a walk finds the second item only.\<close>

lemma list_two_broken:
  assumes "list_ok s l" "list_back s l" "list_items s l = [x, y]" "x \<noteq> y"
  shows "\<exists>s'. list_head_to_tail l s = Some (True, s') \<and> \<not> list_ok s' l \<and> list_items s' l = [y, y] \<and>
           list_size l s' = Some 2 \<and> list_contains l x s' = Some False \<and>
           list_remove_item l x s' = Some (False, s')"
proof -
  obtain a b where as: "list_addrs s l = [a, b]" using assms(3) by (auto simp: list_items_def)
  from list_head_to_tail_two [OF assms(1,2) as] obtain s' lst where
    s': "list_head_to_tail l s = Some (True, s')" and lst: "lists s l = Some lst" and
    def: "s' = s\<lparr>elems := (elems s)(a \<mapsto> \<lparr>le_item = itm (elems s) a, le_next = a, le_prev = a\<rparr>,
                                  b \<mapsto> \<lparr>le_item = itm (elems s) b, le_next = b, le_prev = b\<rparr>),
               lists := (lists s)(l \<mapsto> lst\<lparr>l_head := b, l_tail := a\<rparr>)\<rparr>"
    by blast
  have l: "l \<noteq> NULL" and wf: "wf_list (elems s) lst [a, b]"
    using assms(1) as lst by (auto simp: list_ok_def)
  have size: "l_size lst = 2" and usize: "unat (l_size lst) = Suc (Suc 0)" "l_size lst \<noteq> 0"
    using wf by (simp_all add: wf_list_def)
  have xy: "itm (elems s) a = x" "itm (elems s) b = y" using assms(3) as by (auto simp: list_items_def)
  have addrs: "list_addrs s' l = [b, b]" by (simp add: list_addrs_def def usize)
  have "\<not> list_ok s' l" unfolding list_ok_def addrs by (simp add: def wf_list_def)
  moreover have "list_items s' l = [y, y]" by (simp add: list_items_def addrs) (simp add: def xy)
  moreover have "list_size l s' = Some 2" by (simp add: list_size_def def size)
  moreover have "list_contains l x s' = Some False" "list_remove_item l x s' = Some (False, s')"
    using l usize xy assms(4) by (simp_all add: list_contains_def list_remove_item_def def)
  ultimately show ?thesis using s' by blast
qed

subsection \<open>Inserting\<close>

lemma wf_list_insert:
  assumes wf: "wf_list h lst (bs @ e # cs)" and a: "h a = None" "a \<noteq> NULL"
    and h': "h' a \<noteq> None" "nxt h' a = nxt h e" "h' e \<noteq> None" "nxt h' e = a"
    and same: "\<And>b. b \<in> set (bs @ cs) \<Longrightarrow> h' b \<noteq> None \<and> nxt h' b = nxt h b"
  shows "wf_list h' (lst\<lparr>l_size := l_size lst + 1, l_tail := (if cs = [] then a else l_tail lst)\<rparr>)
           (bs @ e # a # cs)"
proof -
  have c: "chain h (l_head lst) bs e" "chain h (nxt h e) cs NULL" "e \<noteq> NULL"
    and d: "distinct (bs @ e # cs)"
    using wf by (auto simp: wf_list_def)
  have na: "a \<notin> set (bs @ e # cs)"
    using wf a(1) chain_fresh unfolding wf_list_def by blast
  have "chain h' (l_head lst) bs e" by (rule chain_cong [OF c(1)]) (use same in auto)
  moreover have "chain h' (nxt h e) cs NULL" by (rule chain_cong [OF c(2)]) (use same in auto)
  ultimately show ?thesis using wf d na a h' c(3) by (auto simp: wf_list_def)
qed

definition insert_pos :: "u32 \<Rightarrow> 'a list \<Rightarrow> nat" where
  "insert_pos i xs = (if xs = [] then 0 else if i = 0 then 1 else unat i)"

end
