(* ===== verification/List_Life.thy ===== *)
theory List_Life
  imports List_Ops
begin

section \<open>Insertion, creation and deletion of lists\<close>

text \<open>
  \<open>list_insert\<close> at an index, and the operations that bring a list into being and take it away.
  Creation and deletion change the set of lists, so their effect is stated over the whole
  heap invariant \<open>lheap_ok\<close>.
\<close>

subsection \<open>Inserting at an index\<close>

lemma insert_pos_le: "unat i \<le> length xs \<Longrightarrow> insert_pos i xs \<le> length xs"
  by (cases xs) (auto simp: insert_pos_def)

lemma list_insert_empty:
  assumes ok: "list_ok s l" and items: "list_items s l = []" and alloc: "alloc_ok s"
  shows "\<exists>s'. list_insert l 0 x s = Some (True, s') \<and> list_becomes l s s' [x] \<and> list_back s' l"
proof -
  obtain lst where l: "l \<noteq> NULL" "lists s l = Some lst" and wf: "wf_list (elems s) lst []"
    using ok items by (auto elim!: list_okE simp: list_items_def)
  define a where "a = hd (answers s)"
  have a: "elems s a = None" "a \<noteq> NULL" using alloc_ok_fresh [OF alloc] by (auto simp: a_def)
  define lst' where "lst' = lst\<lparr>l_size := 1, l_head := a, l_tail := a\<rparr>"
  define h where "h = (elems s)(a \<mapsto> \<lparr>le_item = x, le_next = NULL, le_prev = NULL\<rparr>)"
  define s' where "s' = s\<lparr>answers := tl (answers s), elems := h, lists := (lists s)(l \<mapsto> lst')\<rparr>"
  have "list_insert l 0 x s = Some (True, s')"
    using l wf alloc a
    by (cases lst) (simp add: list_insert_def mem_alloc_elems wf_list_def s'_def h_def lst'_def
        a_def [symmetric])
  moreover have wf': "wf_list h lst' [a]" using wf a by (simp add: wf_list_def lst'_def h_def)
  then have "list_becomes l s s' [x]"
    by (intro list_becomesI [OF ok, of _ lst' "[a]"]) (use a in \<open>auto simp: s'_def h_def\<close>)
  moreover have "list_addrs s' l = [a]"
    by (rule list_addrs_wf [of _ _ lst']) (simp_all add: s'_def wf')
  ultimately show ?thesis by (simp add: list_back_def)
qed

text \<open>The heap after the new element \<open>a\<close> is linked behind \<open>e\<close>.\<close>

definition insert_heap ::
  "list_t_element pheap \<Rightarrow> ptr \<Rightarrow> ptr \<Rightarrow> ptr \<Rightarrow> list_t_element pheap" where
  "insert_heap h e a x =
     (if nxt h e = NULL then h else h(nxt h e \<mapsto> (the (h (nxt h e)))\<lparr>le_prev := a\<rparr>))
       (a \<mapsto> \<lparr>le_item = x, le_next = nxt h e, le_prev = e\<rparr>, e \<mapsto> (the (h e))\<lparr>le_next := a\<rparr>)"

lemma list_insert_link:
  assumes ok: "list_ok s l" and l: "lists s l = Some lst" and alloc: "alloc_ok s"
    and as: "list_addrs s l = bs @ e # cs" and i: "length bs = (if i = 0 then 0 else unat i - 1)"
  shows "list_insert l i x s = Some (True,
    s\<lparr>answers := tl (answers s), elems := insert_heap (elems s) e (hd (answers s)) x,
      lists := (lists s)(l \<mapsto> lst\<lparr>l_size := l_size lst + 1,
                 l_tail := (if cs = [] then hd (answers s) else l_tail lst)\<rparr>)\<rparr>)"
proof -
  define a where "a = hd (answers s)"
  let ?h = "(elems s)(a \<mapsto> \<lparr>le_item = x, le_next = NULL, le_prev = NULL\<rparr>)"
  have a: "elems s a = None" "a \<noteq> NULL" using alloc_ok_fresh [OF alloc] by (auto simp: a_def)
  have wf: "wf_list (elems s) lst (bs @ e # cs)" "l \<noteq> NULL"
    using ok l as by (auto simp: list_ok_def)
  have c: "chain (elems s) (l_head lst) (bs @ e # cs) NULL" and d: "distinct (bs @ e # cs)"
    and pool: "l_pool lst \<noteq> NULL"
    using wf by (auto simp: wf_list_def)
  have na: "a \<notin> set (bs @ e # cs)" using chain_fresh [OF c a(1)] .
  obtain y where y: "elems s e = Some y" "e \<noteq> NULL" using wf_list_alive [OF wf(1), of e] by auto
  have tail: "l_tail lst = e \<longleftrightarrow> cs = []" using wf(1) d by (auto simp: wf_list_def)
  have nx: "le_next y = (if cs = [] then NULL else hd cs)" using c y by (cases cs) auto
  have hc: "elems s (hd cs) \<noteq> None \<and> hd cs \<noteq> NULL \<and> hd cs \<noteq> a \<and> hd cs \<noteq> e" if "cs \<noteq> []"
    using that wf_list_alive [OF wf(1), of "hd cs"] na d by (cases cs) auto
  have c': "chain ?h (l_head lst) (bs @ e # cs) NULL" 
    using chain_upd_other [OF na] c by blast
  have le: "i \<le> l_size lst"
    using wf_list_size [OF wf(1)] i by (auto simp: word_le_nat_alt split: if_splits)
  have bf: "(if i \<noteq> 0 then list_walk (unat (i - 1)) ?h (l_head lst) else Some (l_head lst)) = Some e"
  proof (cases "i = 0")
    case True
    then show ?thesis using i c by simp
  next
    case False
    then have "unat (i - 1) = length bs" using i by (simp add: unat_minus_one)
    then show ?thesis using list_walk_chain [OF c', of "length bs"] False by simp
  qed
  show ?thesis
    using l wf(2) alloc a y pool le bf tail nx hc na
    by (cases lst; cases "cs = []")
       (auto simp: list_insert_def mem_alloc_elems store_def insert_heap_def a_def [symmetric] Let_def)
qed

lemma list_insert_nonempty:
  assumes ok: "list_ok s l" and ne: "list_items s l \<noteq> []" and alloc: "alloc_ok s"
    and i: "unat i \<le> length (list_items s l)"
  shows "\<exists>s'. list_insert l i x s = Some (True, s') \<and>
           list_becomes l s s' (take (insert_pos i (list_items s l)) (list_items s l) @
                                x # drop (insert_pos i (list_items s l)) (list_items s l)) \<and>
           (list_back s l \<longrightarrow> list_back s' l)"
proof -
  define a where "a = hd (answers s)"
  define k where "k = (if i = 0 then 0 else unat i - 1)"
  define as where "as = list_addrs s l"
  define e where "e = as ! k"
  define bs where "bs = take k as"
  define cs where "cs = drop (Suc k) as"
  have k: "k < length as" "insert_pos i (list_items s l) = Suc k"
    using i ne by (auto simp: k_def as_def list_items_def insert_pos_def unat_eq_zero [symmetric])
  have as: "as = bs @ e # cs" "length bs = k"
    using k by (simp_all add: bs_def cs_def e_def id_take_nth_drop)
  obtain lst where l: "lists s l = Some lst" and wf: "wf_list (elems s) lst (bs @ e # cs)"
    using ok as(1) by (auto elim!: list_okE simp: as_def)
  have c: "chain (elems s) (l_head lst) (bs @ e # cs) NULL" and d: "distinct (bs @ e # cs)"
    using wf by (auto simp: wf_list_def)
  have a: "elems s a = None" "a \<noteq> NULL" using alloc_ok_fresh [OF alloc] by (auto simp: a_def)
  have na: "a \<notin> set (bs @ e # cs)" using chain_fresh [OF c a(1)] .
  have nx: "nxt (elems s) e = (if cs = [] then NULL else hd cs)" using c by (cases cs) auto
  note alive = wf_list_alive [OF wf]
  define h where "h = insert_heap (elems s) e a x"
  define lst' where "lst' = lst\<lparr>l_size := l_size lst + 1, l_tail := (if cs = [] then a else l_tail lst)\<rparr>"
  define s' where "s' = s\<lparr>answers := tl (answers s), elems := h, lists := (lists s)(l \<mapsto> lst')\<rparr>"
  have ins: "list_insert l i x s = Some (True, s')"
    using list_insert_link [OF ok l alloc, of bs e cs i x] as
    by (simp add: s'_def h_def lst'_def a_def k_def as_def)
  have he: "h a = Some \<lparr>le_item = x, le_next = nxt (elems s) e, le_prev = e\<rparr>"
    "h e = Some ((the (elems s e))\<lparr>le_next := a\<rparr>)"
    using na by (auto simp: h_def insert_heap_def)
  have hb: "h b = (if cs \<noteq> [] \<and> b = hd cs then Some ((the (elems s b))\<lparr>le_prev := a\<rparr>) else elems s b)"
    if "b \<noteq> a" "b \<noteq> e" for b
    using that nx alive [of "hd cs"] by (auto simp: h_def insert_heap_def)
  have hbc: "h b \<noteq> None \<and> nxt h b = nxt (elems s) b \<and> itm h b = itm (elems s) b \<and>
             prv h b = (if cs \<noteq> [] \<and> b = hd cs then a else prv (elems s) b)" if "b \<in> set (bs @ cs)" for b
  proof -
    have "b \<noteq> a" "b \<noteq> e" using that na d by auto
    then show ?thesis using hb [of b] alive [of b] that by auto
  qed
  have wf': "wf_list h lst' (bs @ e # a # cs)"
    unfolding lst'_def using he hbc by (intro wf_list_insert [OF wf a]) auto
  have items: "map (itm h) (bs @ e # a # cs) = map (itm (elems s)) (bs @ [e]) @ x # map (itm (elems s)) cs"
    using he hbc by auto
  have frame: "h b = elems s b" if "elems s b \<noteq> None" "b \<notin> set as" for b
    using hb [of b] that a(1) as(1) by (cases "b = a"; cases cs) auto
  have "list_becomes l s s' (take (Suc k) (list_items s l) @ x # drop (Suc k) (list_items s l))"
    by (rule list_becomesI [OF ok, of _ lst' "bs @ e # a # cs"])
       (use wf' items frame as in \<open>auto simp: s'_def as_def [symmetric] list_items_def a(1)\<close>)
  moreover have "list_back s' l" if bk: "list_back s l"
  proof -
    have "back_linked (elems s) (bs @ e # cs)" using bk as(1) by (simp add: list_back_def as_def)
    then have "back_linked (elems s) (bs @ [e])" "backs (elems s) e cs"
      by (cases bs; simp)+
    moreover from this(1) have "back_linked h (bs @ [e])"
      by (rule back_linked_cong) (use he hbc d in \<open>auto split: if_splits dest: hd_in_set\<close>)
    moreover have "backs h a cs"
      using calculation(2) hbc d by (cases cs) (auto elim!: backs_cong)
    ultimately have "back_linked h (bs @ e # a # cs)" using he by (cases bs) auto
    moreover have "list_addrs s' l = bs @ e # a # cs"
      by (rule list_addrs_wf [of _ _ lst']) (simp_all add: s'_def wf')
    ultimately show ?thesis by (simp add: list_back_def) (simp add: s'_def)
  qed
  ultimately show ?thesis using ins k(2) by auto
qed

lemma list_insert_spec:
  assumes ok: "list_ok s l" and i: "unat i \<le> length (list_items s l)"
  shows "\<exists>s'. list_insert l i x s = Some (alloc_ok s, s') \<and>
           list_becomes l s s'
             (if alloc_ok s
              then take (insert_pos i (list_items s l)) (list_items s l) @
                   x # drop (insert_pos i (list_items s l)) (list_items s l)
              else list_items s l) \<and>
           (list_back s l \<longrightarrow> list_back s' l)"
proof (cases "alloc_ok s")
  case False
  obtain lst where lst: "l \<noteq> NULL" "lists s l = Some lst" and wf: "wf_list (elems s) lst (list_addrs s l)"
    using ok by (rule list_okE)
  have "i \<le> l_size lst" using i wf_list_size [OF wf] by (simp add: word_le_nat_alt list_items_def)
  then show ?thesis using False lst wf list_becomes_answers [OF ok]
    by (auto simp: list_insert_def mem_alloc_elems wf_list_def)
next
  case True
  show ?thesis
  proof (cases "list_items s l = []")
    case e: True
    then have "i = 0" using i by (simp add: unat_eq_zero)
    then show ?thesis using list_insert_empty [OF ok e True, of x] e True by auto
  next
    case False
    then show ?thesis using list_insert_nonempty [OF ok False True i, of x] True by auto
  qed
qed

lemma list_insert_range:
  assumes "list_ok s l" "length (list_items s l) < unat i"
  shows "list_insert l i x s = Some (False, s)"
  using assms wf_list_size [of "elems s" _ "list_addrs s l"]
  by (elim list_okE) (auto simp: list_insert_def word_le_nat_alt list_items_def)

subsection \<open>Creation and deletion\<close>

lemma list_initialise_ok:
  assumes s: "lheap_ok s" and l: "l \<noteq> NULL" "lists s l = None" and pool: "pool \<noteq> NULL"
  shows "list_becomes l s (list_initialise l pool s) [] \<and> list_back (list_initialise l pool s) l \<and>
         lheap_ok (list_initialise l pool s)"
proof -
  let ?s = "list_initialise l pool s"
  have addrs: "list_addrs ?s l = []" using l by (simp add: list_initialise_def list_addrs_def)
  then have "list_becomes l s ?s [] \<and> list_back ?s l"
    using l pool
    by (auto simp: list_becomes_def list_step_def list_items_def list_ok_def list_back_def
        list_initialise_def wf_list_def)
  then show ?thesis using list_becomes_lheap_ok [OF s] by blast
qed

lemma list_becomes_from_answers [simp]:
  "list_becomes l (s\<lparr>answers := as\<rparr>) s' xs = list_becomes l s s' xs"
  by (simp add: list_becomes_def list_step_def)

lemma list_create_spec:
  assumes s: "lheap_ok s" and pool: "pool \<noteq> NULL"
  shows "\<exists>l s'. list_create pool s = Some (l, s') \<and> lheap_ok s' \<and>
           (if l = NULL then s' = s\<lparr>answers := tl (answers s)\<rparr>
            else lists s l = None \<and> list_becomes l s s' [] \<and> list_back s' l)"
proof -
  have s0: "lheap_ok (s\<lparr>answers := as\<rparr>)" for as using s by (simp add: lheap_ok_def)
  obtain l where l: "mem_alloc pool (lists s) (answers s) = Some (l, tl (answers s))"
    using pool by (cases "answers s") (auto simp: mem_alloc_def)
  moreover from mem_alloc_fresh [OF this] have "l \<noteq> NULL \<Longrightarrow> lists s l = None" .
  ultimately show ?thesis
    using list_initialise_ok [OF s0, of l "tl (answers s)" pool] pool s0
    by (cases "l = NULL") (auto simp: list_create_def Let_def)
qed

lemma list_delete_spec:
  assumes s: "lheap_ok s" and l: "lists s l \<noteq> None"
  shows "\<exists>s'. list_delete l s = Some s' \<and> lheap_ok s' \<and> lists s' = (lists s)(l := None) \<and>
           elems s' = (\<lambda>a. if a \<in> set (list_addrs s l) then None else elems s a) \<and>
           (\<forall>l'. l' \<noteq> l \<longrightarrow> list_items s' l' = list_items s l')"
proof -
  have ok: "list_ok s l" using s l by (rule lheap_ok_list)
  obtain lst where lst: "l \<noteq> NULL" "lists s l = Some lst" and wf: "wf_list (elems s) lst (list_addrs s l)"
    using ok by (rule list_okE)
  define h where "h = (\<lambda>a. if a \<in> set (list_addrs s l) then None else elems s a)"
  define s' where "s' = s\<lparr>elems := h, lists := (lists s)(l := None)\<rparr>"
  have c: "chain (elems s) (l_head lst) (list_addrs s l) NULL" "distinct (list_addrs s l)" "l_pool lst \<noteq> NULL"
    using wf by (auto simp: wf_list_def)
  have "list_delete l s = Some s'"
    using list_delete_loop_chain [OF c] lst c(3) wf_list_size [OF wf]
    by (simp add: list_delete_def mem_free_def s'_def h_def)
  moreover have step: "list_step l s s'"
    by (auto simp: list_step_def s'_def h_def list_addrs_def)
  note other = list_step_other [OF s step]
  have gone: "list_addrs s' l = []" by (simp add: list_addrs_def s'_def)
  have "lheap_ok s'"
    unfolding lheap_ok_def
  proof (intro conjI allI impI)
    fix l' assume "lists s' l' \<noteq> None"
    then show "list_ok s' l'"
      using other(3) [of l'] lheap_ok_list [OF s, of l'] by (cases "l' = l") (auto simp: s'_def)
  next
    fix l1 l2 :: ptr assume "l1 \<noteq> l2"
    then show "set (list_addrs s' l1) \<inter> set (list_addrs s' l2) = {}"
      using other(1) gone s by (cases "l1 = l"; cases "l2 = l") (auto simp: lheap_ok_def)
  qed
  ultimately show ?thesis using other(2) by (auto simp: s'_def h_def)
qed

end
