(* ===== verification/List_Iter.thy ===== *)
theory List_Iter
  imports List_Life
begin

section \<open>Iterators\<close>

text \<open>
  An iterator stands at an index of its list.  The idiom of the kernel's loops, get the
  current item and then advance until the item is null, visits the items of the list in
  order and every one of them once.
\<close>

definition it_at :: "lheap \<Rightarrow> ptr \<Rightarrow> ptr \<Rightarrow> nat \<Rightarrow> bool" where
  "it_at s it l k \<longleftrightarrow> it \<noteq> NULL \<and> k < length (list_addrs s l) \<and>
     its s it = Some \<lparr>it_list = l, it_current = list_addrs s l ! k, it_pos = of_nat k\<rparr>"

lemma list_views_its [simp]:
  "list_addrs (s\<lparr>its := i\<rparr>) l = list_addrs s l"
  "list_items (s\<lparr>its := i\<rparr>) l = list_items s l"
  "list_ok (s\<lparr>its := i\<rparr>) l = list_ok s l"
  "list_back (s\<lparr>its := i\<rparr>) l = list_back s l"
  by (simp_all add: list_addrs_def list_items_def list_ok_def list_back_def cong: option.case_cong)

lemma list_elem_at:
  assumes ok: "list_ok s l" and k: "k < length (list_addrs s l)"
  obtains x where "elems s (list_addrs s l ! k) = Some x" "list_addrs s l ! k \<noteq> NULL"
    "le_item x = list_items s l ! k"
    "le_next x = (if Suc k < length (list_addrs s l) then list_addrs s l ! Suc k else NULL)"
proof -
  obtain lst where wf: "wf_list (elems s) lst (list_addrs s l)" using ok by (rule list_okE)
  then have c: "chain (elems s) (l_head lst) (list_addrs s l) NULL" by (simp add: wf_list_def)
  obtain x where x: "elems s (list_addrs s l ! k) = Some x" "list_addrs s l ! k \<noteq> NULL"
    using wf_list_alive [OF wf, of "list_addrs s l ! k"] k by auto
  have "le_next x = (if Suc k < length (list_addrs s l) then list_addrs s l ! Suc k else NULL)"
  proof (cases "Suc k < length (list_addrs s l)")
    case True
    then show ?thesis using chain_next [OF c True] x by simp
  next
    case False
    then have "k = length (list_addrs s l) - 1" "list_addrs s l \<noteq> []" using k by auto
    then show ?thesis using chain_last [OF c] x k by (simp add: last_conv_nth)
  qed
  then show ?thesis using that x k by (simp add: list_items_def)
qed

lemma list_it_get_spec:
  assumes ok: "list_ok s l" and it: "it_at s it l k"
  shows "list_it_get it s = Some (Some (list_items s l ! k), s)"
proof -
  obtain x where x: "elems s (list_addrs s l ! k) = Some x" "list_addrs s l ! k \<noteq> NULL"
    "le_item x = list_items s l ! k"
    using list_elem_at [OF ok, of k] it by (auto simp: it_at_def)
  have "(its s)(it \<mapsto> \<lparr>it_list = l, it_current = list_addrs s l ! k, it_pos = of_nat k\<rparr>) = its s"
    using it by (auto simp: it_at_def)
  then show ?thesis using x it by (simp add: list_it_get_def it_at_def)
qed

lemma list_it_next_spec:
  assumes ok: "list_ok s l" and it: "it_at s it l k"
  shows "if Suc k < length (list_items s l)
         then \<exists>i. list_it_next it s = Some (True, Some (list_items s l ! Suc k), s\<lparr>its := (its s)(it \<mapsto> i)\<rparr>) \<and>
                it_at (s\<lparr>its := (its s)(it \<mapsto> i)\<rparr>) it l (Suc k)
         else list_it_next it s = Some (False, Some NULL, s)"
proof -
  have k: "k < length (list_addrs s l)" using it by (simp add: it_at_def)
  obtain x where x: "elems s (list_addrs s l ! k) = Some x" "list_addrs s l ! k \<noteq> NULL"
    "le_next x = (if Suc k < length (list_addrs s l) then list_addrs s l ! Suc k else NULL)"
    using list_elem_at [OF ok k] by metis
  show ?thesis
  proof (cases "Suc k < length (list_addrs s l)")
    case True
    obtain y where y: "elems s (list_addrs s l ! Suc k) = Some y" "list_addrs s l ! Suc k \<noteq> NULL"
      "le_item y = list_items s l ! Suc k"
      using list_elem_at [OF ok True] by metis
    show ?thesis using it x y True by (simp add: it_at_def list_it_next_def list_items_def add.commute)
  next
    case False
    then show ?thesis using it x by (simp add: it_at_def list_it_next_def list_items_def)
  qed
qed

lemma backs_nth: "backs h p as \<Longrightarrow> i < length as \<Longrightarrow> prv h (as ! i) = (if i = 0 then p else as ! (i - 1))"
  by (induction as arbitrary: p i) (auto simp: nth_Cons split: nat.splits)

lemma back_linked_nth: "back_linked h as \<Longrightarrow> Suc k < length as \<Longrightarrow> prv h (as ! Suc k) = as ! k"
  by (cases as; cases k) (auto simp: backs_nth)

lemma list_it_prev_spec:
  assumes ok: "list_ok s l" and bk: "list_back s l" and it: "it_at s it l (Suc k)"
  shows "\<exists>i. list_it_prev it s = Some (True, Some (list_items s l ! k), s\<lparr>its := (its s)(it \<mapsto> i)\<rparr>) \<and>
             it_at (s\<lparr>its := (its s)(it \<mapsto> i)\<rparr>) it l k"
proof -
  have k: "Suc k < length (list_addrs s l)" using it by (simp add: it_at_def)
  obtain x where x: "elems s (list_addrs s l ! Suc k) = Some x" "list_addrs s l ! Suc k \<noteq> NULL"
    using list_elem_at [OF ok k] by metis
  obtain y where y: "elems s (list_addrs s l ! k) = Some y" "list_addrs s l ! k \<noteq> NULL"
      "le_item y = list_items s l ! k"
    using list_elem_at [OF ok, of k] k by (metis Suc_lessD)
  have "le_prev x = list_addrs s l ! k"
    using back_linked_nth [OF bk [unfolded list_back_def] k] x by simp
  then show ?thesis using it x y k by (simp add: it_at_def list_it_prev_def)
qed

lemma list_it_create_spec:
  assumes ok: "list_ok s l"
  shows "if its s (hd (answers s)) = None \<and> answers s \<noteq> [] \<and> hd (answers s) \<noteq> NULL
         then list_it_create l s =
                Some (hd (answers s),
                  s\<lparr>its := (its s)(hd (answers s) \<mapsto>
                      \<lparr>it_list = l, it_current = (if list_addrs s l = [] then NULL else hd (list_addrs s l)),
                       it_pos = 0\<rparr>), answers := tl (answers s)\<rparr>)
         else list_items s l \<noteq> [] \<and> its s NULL = None \<longrightarrow> list_it_create l s = None"
proof -
  obtain lst where lst: "l \<noteq> NULL" "lists s l = Some lst" and wf: "wf_list (elems s) lst (list_addrs s l)"
    using ok by (rule list_okE)
  have pool: "l_pool lst \<noteq> NULL" and head: "l_head lst = (if list_addrs s l = [] then NULL else hd (list_addrs s l))"
    using wf chain_head [of "elems s" "l_head lst" "list_addrs s l" NULL] by (auto simp: wf_list_def)
  have size: "l_size lst > 0 \<longleftrightarrow> list_addrs s l \<noteq> []"
    using wf_list_size_zero [OF wf] by (simp add: word_gt_0)
  show ?thesis
    using lst pool head size
    by (cases "answers s")
       (auto simp: list_it_create_def list_it_initialise_def mem_alloc_def store_def list_items_def Let_def)
qed

subsection \<open>The traversal idiom\<close>

text \<open>
  \<open>it_rest n it s\<close> advances the iterator until \<open>list_it_next\<close> fails, at most \<open>n\<close> times, and collects
  the items; \<open>list_traverse\<close> is a whole loop: create, get, advance to the end, delete.
\<close>

primrec it_rest :: "nat \<Rightarrow> ptr \<Rightarrow> lheap \<Rightarrow> (ptr list \<times> lheap) option" where
  "it_rest 0 it s = Some ([], s)"
| "it_rest (Suc n) it s = do {
     (ok, x, s) \<leftarrow> list_it_next it s;
     if ok then do { (xs, s) \<leftarrow> it_rest n it s; Some (the x # xs, s) } else Some ([], s)
   }"

definition list_traverse :: "ptr \<Rightarrow> lheap \<Rightarrow> (ptr list \<times> lheap) option" where
  "list_traverse l s = do {
     (it, s) \<leftarrow> list_it_create l s;
     (x, s) \<leftarrow> list_it_get it s;
     (xs, s) \<leftarrow> (case x of None \<Rightarrow> Some ([], s)
                  | Some y \<Rightarrow> do { n \<leftarrow> list_size l s; (ys, s) \<leftarrow> it_rest (unat n) it s; Some (y # ys, s) });
     s \<leftarrow> list_it_delete it s;
     Some (xs, s)
   }"

lemma it_rest_spec:
  assumes "list_ok s l" "it_at s it l k" "length (list_items s l) \<le> k + n"
  shows "\<exists>i. it_rest n it s = Some (drop (Suc k) (list_items s l), s\<lparr>its := (its s)(it \<mapsto> i)\<rparr>) \<and> it_list i = l"
  using assms
proof (induction n arbitrary: s k)
  case 0
  then show ?case by (simp add: it_at_def list_items_def)
next
  case (Suc n)
  show ?case
  proof (cases "Suc k < length (list_items s l)")
    case True
    with list_it_next_spec [OF Suc.prems(1,2)] obtain i where
      i: "list_it_next it s = Some (True, Some (list_items s l ! Suc k), s\<lparr>its := (its s)(it \<mapsto> i)\<rparr>)"
        "it_at (s\<lparr>its := (its s)(it \<mapsto> i)\<rparr>) it l (Suc k)" by auto
    define s1 where "s1 = s\<lparr>its := (its s)(it \<mapsto> i)\<rparr>"
    have s1: "list_ok s1 l" "list_items s1 l = list_items s l" "it_at s1 it l (Suc k)"
      using Suc.prems i by (simp_all add: s1_def)
    from Suc.IH [OF s1(1,3)] Suc.prems obtain j where
      j: "it_rest n it s1 = Some (drop (Suc (Suc k)) (list_items s l), s1\<lparr>its := (its s1)(it \<mapsto> j)\<rparr>)" "it_list j = l"
      unfolding s1(2) by (metis add_Suc_shift)
    have "s1\<lparr>its := (its s1)(it \<mapsto> j)\<rparr> = s\<lparr>its := (its s)(it \<mapsto> j)\<rparr>" by (simp add: s1_def)
    with j have "it_rest (Suc n) it s = Some (drop (Suc k) (list_items s l), s\<lparr>its := (its s)(it \<mapsto> j)\<rparr>)"
      using i True by (simp add: s1_def Cons_nth_drop_Suc)
    then show ?thesis using j(2) by blast
  next
    case False
    with list_it_next_spec [OF Suc.prems(1,2)] have "list_it_next it s = Some (False, Some NULL, s)" by simp
    then show ?thesis using False Suc.prems(2)
      by (intro exI [of _ "the (its s it)"]) (auto simp: it_at_def fun_upd_idem)
  qed
qed

text \<open>Opening an iterator: where it stands, what it reads, and that deleting it restores the heap.\<close>

lemma list_it_open:
  assumes ok: "list_ok s l"
    and alloc: "answers s \<noteq> []" "its s (hd (answers s)) = None" "hd (answers s) \<noteq> NULL"
  obtains it s1 where "list_it_create l s = Some (it, s1)" "list_ok s1 l" "list_items s1 l = list_items s l"
    "list_items s l = [] \<Longrightarrow> \<exists>i. it_list i = l \<and> list_it_get it s1 = Some (None, s1\<lparr>its := (its s1)(it \<mapsto> i)\<rparr>)"
    "list_items s l \<noteq> [] \<Longrightarrow> it_at s1 it l 0 \<and> list_it_get it s1 = Some (Some (list_items s l ! 0), s1)"
    "\<And>i. it_list i = l \<Longrightarrow> list_it_delete it (s1\<lparr>its := (its s1)(it \<mapsto> i)\<rparr>) = Some (s\<lparr>answers := tl (answers s)\<rparr>)"
proof -
  define it where "it = hd (answers s)"
  define s1 where "s1 = s\<lparr>its := (its s)(it \<mapsto>
     \<lparr>it_list = l, it_current = (if list_addrs s l = [] then NULL else hd (list_addrs s l)), it_pos = 0\<rparr>),
     answers := tl (answers s)\<rparr>"
  have create: "list_it_create l s = Some (it, s1)"
    using list_it_create_spec [OF ok] alloc by (simp add: it_def s1_def)
  have ok1: "list_ok s1 l" and items1: "list_items s1 l = list_items s l"
    using ok by (simp_all add: s1_def)
  obtain lst where lst: "lists s l = Some lst" "wf_list (elems s) lst (list_addrs s l)"
    using ok by (rule list_okE)
  have del: "list_it_delete it (s1\<lparr>its := (its s1)(it \<mapsto> i)\<rparr>) = Some (s\<lparr>answers := tl (answers s)\<rparr>)"
    if "it_list i = l" for i
    using that lst alloc by (simp add: list_it_delete_def s1_def it_def mem_free_def wf_list_def fun_upd_idem)
  have none: "\<exists>i. it_list i = l \<and> list_it_get it s1 = Some (None, s1\<lparr>its := (its s1)(it \<mapsto> i)\<rparr>)"
    if "list_items s l = []"
  proof -
    have "lists s1 l = Some lst" "its s1 it = Some \<lparr>it_list = l, it_current = NULL, it_pos = 0\<rparr>" "l_head lst = NULL"
      using that lst by (auto simp: s1_def wf_list_def list_items_def)
    then show ?thesis
      using alloc by (intro exI [of _ "\<lparr>it_list = l, it_current = NULL, it_pos = 0\<rparr>"]) (simp add: list_it_get_def it_def)
  qed
  have some: "it_at s1 it l 0 \<and> list_it_get it s1 = Some (Some (list_items s l ! 0), s1)" if "list_items s l \<noteq> []"
  proof -
    have at: "it_at s1 it l 0"
      using that alloc by (simp add: it_at_def s1_def it_def hd_conv_nth list_items_def)
    then show ?thesis using list_it_get_spec [OF ok1 at] items1 by simp
  qed
  show ?thesis using that [OF create ok1 items1 none some del] .
qed

lemma list_traverse_spec:
  assumes ok: "list_ok s l"
    and alloc: "answers s \<noteq> []" "its s (hd (answers s)) = None" "hd (answers s) \<noteq> NULL"
  shows "list_traverse l s = Some (list_items s l, s\<lparr>answers := tl (answers s)\<rparr>)"
proof -
  obtain it s1 where create: "list_it_create l s = Some (it, s1)" and ok1: "list_ok s1 l"
    and items1: "list_items s1 l = list_items s l"
    and none: "list_items s l = [] \<Longrightarrow> \<exists>i. it_list i = l \<and> list_it_get it s1 = Some (None, s1\<lparr>its := (its s1)(it \<mapsto> i)\<rparr>)"
    and some: "list_items s l \<noteq> [] \<Longrightarrow> it_at s1 it l 0 \<and> list_it_get it s1 = Some (Some (list_items s l ! 0), s1)"
    and del: "\<And>i. it_list i = l \<Longrightarrow>
      list_it_delete it (s1\<lparr>its := (its s1)(it \<mapsto> i)\<rparr>) = Some (s\<lparr>answers := tl (answers s)\<rparr>)"
    using list_it_open [OF ok alloc] by blast
  show ?thesis
  proof (cases "list_items s l")
    case Nil
    then show ?thesis using create none del by (auto simp: list_traverse_def)
  next
    case (Cons y ys)
    then have at: "it_at s1 it l 0" "list_it_get it s1 = Some (Some y, s1)" using some by auto
    obtain i where "it_rest (length (y # ys)) it s1 = Some (ys, s1\<lparr>its := (its s1)(it \<mapsto> i)\<rparr>)" "it_list i = l"
      using it_rest_spec [OF ok1 at(1), of "length (y # ys)"] items1 Cons by auto
    moreover have "list_size l s1 = Some (of_nat (length (y # ys)))"
      using list_size_spec [OF ok1] items1 Cons by simp
    moreover have "unat (of_nat (length (y # ys)) :: u32) = length (y # ys)"
      using list_items_length [OF ok] Cons by (simp add: unsigned_of_nat take_bit_nat_eq_self del: of_nat_Suc)
    ultimately show ?thesis using del create at(2) Cons by (simp add: list_traverse_def)
  qed
qed

end
