(* ===== verification/Collection_Spec.thy ===== *)
theory Collection_Spec
  imports Prelude
begin

section \<open>Contracts of the collections\<close>

text \<open>
  What the clients of the kernel's collections rely on, as locales over an arbitrary state.
  \<open>seq_store\<close> is a store of sequences with removal by value, \<open>fifo_store\<close> adds the access to the
  front and \<open>lifo_store\<close> is a stack.  \<open>seq_upd\<close> says that one sequence of the store has changed
  and nothing else.
\<close>

definition seq_upd ::
  "('s \<Rightarrow> bool) \<Rightarrow> ('s \<Rightarrow> ptr \<Rightarrow> bool) \<Rightarrow> ('s \<Rightarrow> ptr \<Rightarrow> ptr list) \<Rightarrow> ptr \<Rightarrow> 's \<Rightarrow> 's \<Rightarrow> ptr list \<Rightarrow> bool" where
  "seq_upd ok live items c s s' xs \<longleftrightarrow>
     ok s' \<and> live s' = live s \<and> items s' = (items s)(c := xs)"

locale seq_store =
  fixes ok :: "'s \<Rightarrow> bool" and live :: "'s \<Rightarrow> ptr \<Rightarrow> bool" and items :: "'s \<Rightarrow> ptr \<Rightarrow> ptr list"
    and add :: "ptr \<Rightarrow> ptr \<Rightarrow> 's \<Rightarrow> (bool \<times> 's) option"
    and remove :: "ptr \<Rightarrow> ptr \<Rightarrow> 's \<Rightarrow> (bool \<times> 's) option"
    and contains :: "ptr \<Rightarrow> ptr \<Rightarrow> 's \<Rightarrow> bool option"
    and size_of :: "ptr \<Rightarrow> 's \<Rightarrow> u32 option"
  assumes add_law: "ok s \<Longrightarrow> live s c \<Longrightarrow>
      \<exists>b s'. add c x s = Some (b, s') \<and>
        seq_upd ok live items c s s' (if b then items s c @ [x] else items s c)"
    and remove_law: "ok s \<Longrightarrow> live s c \<Longrightarrow>
      \<exists>s'. remove c x s = Some (x \<in> set (items s c), s') \<and>
        seq_upd ok live items c s s' (remove1 x (items s c))"
    and contains_law: "ok s \<Longrightarrow> live s c \<Longrightarrow> contains c x s = Some (x \<in> set (items s c))"
    and size_law: "ok s \<Longrightarrow> live s c \<Longrightarrow> size_of c s = Some (of_nat (length (items s c)))"
    and length_law: "ok s \<Longrightarrow> live s c \<Longrightarrow> length (items s c) < 2 ^ 32"
begin

lemma add_cases:
  assumes "ok s" "live s c"
  obtains s' where "add c x s = Some (False, s')" "ok s'" "live s' = live s" "items s' = items s"
  | s' where "add c x s = Some (True, s')" "ok s'" "live s' = live s"
      "items s' = (items s)(c := items s c @ [x])"
proof -
  obtain b s' where "add c x s = Some (b, s')"
    "seq_upd ok live items c s s' (if b then items s c @ [x] else items s c)"
    using add_law [OF assms, of x] by blast
  then show thesis using that by (cases b) (auto simp: seq_upd_def)
qed

lemma remove_cases:
  assumes "ok s" "live s c"
  obtains s' where "x \<notin> set (items s c)" "remove c x s = Some (False, s')" "ok s'" "live s' = live s"
      "items s' = items s"
  | s' where "x \<in> set (items s c)" "remove c x s = Some (True, s')" "ok s'" "live s' = live s"
      "items s' = (items s)(c := remove1 x (items s c))"
  using remove_law [OF assms, of x] that
  by (cases "x \<in> set (items s c)") (auto simp: seq_upd_def remove1_idem)

lemma size_zero:
  assumes "ok s" "live s c" "size_of c s = Some n"
  shows "n = 0 \<longleftrightarrow> items s c = []"
proof -
  have "n = of_nat (length (items s c))" using assms size_law by auto
  then have "unat n = length (items s c)"
    using length_law [OF assms(1,2)] by (simp add: unat_of_nat take_bit_nat_eq_self)
  then show ?thesis by (auto simp: unat_eq_zero)
qed

text \<open>Adding and then removing an item that was not there gives the old sequence back.\<close>

lemma add_remove:
  assumes "ok s" "live s c" "x \<notin> set (items s c)" "add c x s = Some (True, s1)"
  obtains s2 where "remove c x s1 = Some (True, s2)" "ok s2" "items s2 = items s"
proof -
  have s1: "ok s1" "live s1 c" "items s1 = (items s)(c := items s c @ [x])"
    using add_law [OF assms(1,2), of x] assms(2,4) by (auto simp: seq_upd_def)
  then show thesis
    using that assms(3) remove_law [OF s1(1,2), of x] by (auto simp: seq_upd_def remove1_append)
qed

end

locale fifo_store = seq_store +
  fixes front :: "ptr \<Rightarrow> 'a \<Rightarrow> ptr option option"
    and pop :: "ptr \<Rightarrow> 'a \<Rightarrow> (bool \<times> 'a) option"
  assumes front_law: "ok s \<Longrightarrow> live s c \<Longrightarrow>
      front c s = Some (case items s c of [] \<Rightarrow> None | x # _ \<Rightarrow> Some x)"
    and pop_law: "ok s \<Longrightarrow> live s c \<Longrightarrow>
      \<exists>s'. pop c s = Some (items s c \<noteq> [], s') \<and> seq_upd ok live items c s s' (tl (items s c))"

text \<open>\<open>drain n\<close> takes up to \<open>n\<close> items off the front.\<close>

primrec drain ::
  "(ptr \<Rightarrow> 's \<Rightarrow> ptr option option) \<Rightarrow> (ptr \<Rightarrow> 's \<Rightarrow> (bool \<times> 's) option) \<Rightarrow> nat \<Rightarrow> ptr \<Rightarrow> 's \<Rightarrow>
     (ptr list \<times> 's) option" where
  "drain front pop 0 c s = Some ([], s)"
| "drain front pop (Suc n) c s = do {
     x \<leftarrow> front c s;
     case x of None \<Rightarrow> Some ([], s)
     | Some y \<Rightarrow> do { (b, s) \<leftarrow> pop c s; (ys, s) \<leftarrow> drain front pop n c s; Some (y # ys, s) }
   }"

context fifo_store
begin

lemma drain_items:
  assumes "ok s" "live s c"
  shows "\<exists>s'. drain front pop n c s = Some (take n (items s c), s') \<and>
           seq_upd ok live items c s s' (drop n (items s c))"
  using assms
proof (induction n arbitrary: s)
  case 0
  then show ?case by (simp add: seq_upd_def)
next
  case (Suc n)
  note front = front_law [OF Suc.prems]
  obtain s1 where pop: "pop c s = Some (items s c \<noteq> [], s1)"
    and s1: "seq_upd ok live items c s s1 (tl (items s c))"
    using pop_law [OF Suc.prems] by blast
  then obtain s2 where "drain front pop n c s1 = Some (take n (tl (items s c)), s2)"
    "seq_upd ok live items c s1 s2 (drop n (tl (items s c)))"
    using Suc.IH [of s1] Suc.prems by (auto simp: seq_upd_def)
  then show ?case using front pop s1 Suc.prems
    by (cases "items s c") (auto simp: seq_upd_def)
qed

end

locale lifo_store =
  fixes ok :: "'s \<Rightarrow> bool" and live :: "'s \<Rightarrow> ptr \<Rightarrow> bool" and items :: "'s \<Rightarrow> ptr \<Rightarrow> ptr list"
    and push :: "ptr \<Rightarrow> ptr \<Rightarrow> 's \<Rightarrow> (bool \<times> 's) option"
    and pop :: "ptr \<Rightarrow> 's \<Rightarrow> (ptr option \<times> 's) option"
    and front :: "ptr \<Rightarrow> 's \<Rightarrow> ptr option option"
  assumes push_law: "ok s \<Longrightarrow> live s c \<Longrightarrow>
      \<exists>b s'. push c x s = Some (b, s') \<and>
        seq_upd ok live items c s s' (if b then items s c @ [x] else items s c)"
    and pop_law: "ok s \<Longrightarrow> live s c \<Longrightarrow>
      \<exists>s'. pop c s = Some (if items s c = [] then None else Some (last (items s c)), s') \<and>
        seq_upd ok live items c s s' (butlast (items s c))"
    and front_law: "ok s \<Longrightarrow> live s c \<Longrightarrow>
      front c s = Some (if items s c = [] then None else Some (last (items s c)))"
begin

lemma push_pop:
  assumes s: "ok s" "live s c" and "push c x s = Some (True, s1)"
  obtains s2 where "front c s1 = Some (Some x)" "pop c s1 = Some (Some x, s2)" "ok s2" "live s2 = live s"
    "items s2 = items s"
proof -
  have s1: "ok s1" "live s1 = live s" "items s1 = (items s)(c := items s c @ [x])"
    using push_law [OF s, of x] assms(3) by (auto simp: seq_upd_def)
  then have "live s1 c" using s by simp
  with s1 show thesis
    using that pop_law [of s1 c] front_law [of s1 c] by (auto simp: seq_upd_def)
qed

end

end
