(* ===== verification/List_Contract.thy ===== *)
theory List_Contract
  imports List_Iter Collection_Spec
begin

section \<open>The list implements the contracts of the collections\<close>

text \<open>
  The laws of \<open>fifo_store\<close>, discharged for the pointer level operations of the list on every
  heap that satisfies \<open>lheap_ok\<close>.
\<close>

definition list_live :: "lheap \<Rightarrow> ptr \<Rightarrow> bool" where
  "list_live s l \<longleftrightarrow> lists s l \<noteq> None"

lemma list_live_ok: "lheap_ok s \<Longrightarrow> list_live s l \<Longrightarrow> list_ok s l"
  by (simp add: list_live_def lheap_ok_list)

lemma list_becomes_upd:
  assumes s: "lheap_ok s" and l: "list_live s l" and b: "list_becomes l s s' xs"
  shows "seq_upd lheap_ok list_live list_items l s s' xs"
proof -
  have step: "list_step l s s'" and ok: "list_ok s' l" "list_items s' l = xs"
    using b by (auto simp: list_becomes_def)
  have "list_live s' = list_live s"
  proof
    fix l'
    show "list_live s' l' = list_live s l'"
      using step ok l by (cases "l' = l") (auto simp: list_live_def list_step_def elim: list_okE)
  qed
  moreover have "list_items s' = (list_items s)(l := xs)"
    using list_step_other(2) [OF s step] ok by auto
  ultimately show ?thesis
    using list_becomes_lheap_ok [OF s b] by (simp add: seq_upd_def)
qed

interpretation ls: seq_store lheap_ok list_live list_items list_add list_remove_item list_contains list_size
proof
  fix s c x assume s: "lheap_ok s" and c: "list_live s c"
  note ok = list_live_ok [OF s c]
  show "\<exists>b s'. list_add c x s = Some (b, s') \<and>
      seq_upd lheap_ok list_live list_items c s s' (if b then list_items s c @ [x] else list_items s c)"
    using list_add_spec [OF ok, of x] list_becomes_upd [OF s c] by blast
  show "\<exists>s'. list_remove_item c x s = Some (x \<in> set (list_items s c), s') \<and>
      seq_upd lheap_ok list_live list_items c s s' (remove1 x (list_items s c))"
    using list_remove_item_spec [OF ok, of x] list_becomes_upd [OF s c] by blast
  show "list_contains c x s = Some (x \<in> set (list_items s c))"
    using ok by (rule list_contains_spec)
next
  fix s c assume s: "lheap_ok s" and c: "list_live s c"
  note ok = list_live_ok [OF s c]
  show "list_size c s = Some (of_nat (length (list_items s c)))" using ok by (rule list_size_spec)
  show "length (list_items s c) < 2 ^ 32" using ok by (rule list_items_length)
qed

lemma list_pop_law:
  assumes s: "lheap_ok s" and c: "list_live s c"
  shows "\<exists>s'. list_remove c 0 s = Some (list_items s c \<noteq> [], s') \<and>
           seq_upd lheap_ok list_live list_items c s s' (tl (list_items s c))"
proof (cases "list_items s c")
  case Nil
  then show ?thesis using list_remove_range [OF list_live_ok [OF s c], of 0] s
    by (simp add: seq_upd_def fun_upd_idem)
next
  case (Cons y ys)
  then show ?thesis
    using list_remove_spec [OF list_live_ok [OF s c], of 0] list_becomes_upd [OF s c] by force
qed

interpretation lf: fifo_store lheap_ok list_live list_items list_add list_remove_item list_contains list_size
  "\<lambda>l. list_get l 0" "\<lambda>l. list_remove l 0"
proof
  fix s c assume s: "lheap_ok s" and c: "list_live s c"
  show "list_get c 0 s = Some (case list_items s c of [] \<Rightarrow> None | x # _ \<Rightarrow> Some x)"
    using list_get_spec [OF list_live_ok [OF s c], of 0] by (auto split: list.splits)
  show "\<exists>s'. list_remove c 0 s = Some (list_items s c \<noteq> [], s') \<and>
      seq_upd lheap_ok list_live list_items c s s' (tl (list_items s c))"
    using s c by (rule list_pop_law)
qed

end
