(* ===== verification/Queue_Correct.thy ===== *)
theory Queue_Correct
  imports Queue_Stack List_Contract
begin

section \<open>Queues and stacks implement their contracts\<close>

text \<open>
  \<open>cheap_ok\<close> is the invariant of the collections: the lists are well formed, every header
  points to a live list of its own, and the lists of the stacks have intact \<open>prev\<close> pointers.
  Under it the queue is a \<open>fifo_store\<close> and the stack a \<open>lifo_store\<close>.  \<open>own\<close> names the owner of a
  list, a queue (\<open>Inl\<close>) or a stack (\<open>Inr\<close>).
\<close>

definition own :: "cheap \<Rightarrow> ptr + ptr \<Rightarrow> ptr" where
  "own s o' = (case o' of
     Inl q \<Rightarrow> (case queues s q of None \<Rightarrow> NULL | Some r \<Rightarrow> q_list r)
   | Inr k \<Rightarrow> (case stacks s k of None \<Rightarrow> NULL | Some r \<Rightarrow> s_list r))"

definition queue_live :: "cheap \<Rightarrow> ptr \<Rightarrow> bool" where
  "queue_live s q \<longleftrightarrow> own s (Inl q) \<noteq> NULL"

definition stack_live :: "cheap \<Rightarrow> ptr \<Rightarrow> bool" where
  "stack_live s k \<longleftrightarrow> own s (Inr k) \<noteq> NULL"

definition queue_items :: "cheap \<Rightarrow> ptr \<Rightarrow> ptr list" where
  "queue_items s q = list_items (clh s) (own s (Inl q))"

definition stack_items :: "cheap \<Rightarrow> ptr \<Rightarrow> ptr list" where
  "stack_items s k = list_items (clh s) (own s (Inr k))"

definition cheap_ok :: "cheap \<Rightarrow> bool" where
  "cheap_ok s \<longleftrightarrow> lheap_ok (clh s) \<and> queues s NULL = None \<and> stacks s NULL = None \<and>
     (\<forall>w. own s w \<noteq> NULL \<longrightarrow> list_live (clh s) (own s w)) \<and>
     (\<forall>w w'. own s w \<noteq> NULL \<longrightarrow> own s w = own s w' \<longrightarrow> w = w') \<and>
     (\<forall>k. stack_live s k \<longrightarrow> list_back (clh s) (own s (Inr k)))"

lemma own_clh [simp]: "own (s\<lparr>clh := h\<rparr>) w = own s w"
  by (cases w) (simp_all add: own_def)

lemma live_clh [simp]: "queue_live (s\<lparr>clh := h\<rparr>) = queue_live s" "stack_live (s\<lparr>clh := h\<rparr>) = stack_live s"
  by (simp_all add: queue_live_def stack_live_def fun_eq_iff)

lemma not_NULL_items: "lheap_ok h \<Longrightarrow> list_items h NULL = []"
  using lheap_ok_list [of h NULL] by (cases "lists h NULL") (auto simp: list_items_def list_addrs_def list_ok_def)

text \<open>An operation on the list of one owner leaves the items of every other owner alone.\<close>

lemma own_becomes:
  assumes s: "cheap_ok s" and w: "own s w \<noteq> NULL"
    and b: "list_becomes (own s w) (clh s) h xs"
    and bk: "\<And>k. w = Inr k \<Longrightarrow> list_back h (own s w)"
  shows "cheap_ok (s\<lparr>clh := h\<rparr>)"
    and "list_items h (own s w') = (if w' = w then xs else list_items (clh s) (own s w'))"
proof -
  have h: "lheap_ok (clh s)" and live: "list_live (clh s) (own s w)" using s w by (auto simp: cheap_ok_def)
  have upd: "lheap_ok h" "list_live h = list_live (clh s)" "list_items h = (list_items (clh s))(own s w := xs)"
    using list_becomes_upd [OF h live b] by (auto simp: seq_upd_def)
  have step: "list_step (own s w) (clh s) h" using b by (simp add: list_becomes_def)
  have inj: "own s w = own s w' \<longleftrightarrow> w' = w" for w'
    using s w by (auto simp: cheap_ok_def)
  show "list_items h (own s w') = (if w' = w then xs else list_items (clh s) (own s w'))"
    using upd(3) inj [of w'] by auto
  have "list_back h (own s (Inr k))" if "stack_live s k" for k
    using that bk [of k] inj [of "Inr k"] s list_step_other(4) [OF h step, of "own s (Inr k)"]
    by (cases "w = Inr k") (auto simp: cheap_ok_def)
  then show "cheap_ok (s\<lparr>clh := h\<rparr>)"
    using s upd by (auto simp: cheap_ok_def)
qed

text \<open>Only the heap of the lists changes, and no iterator.\<close>

definition lists_only :: "cheap \<Rightarrow> cheap \<Rightarrow> bool" where
  "lists_only s s' \<longleftrightarrow> (\<exists>h. s' = s\<lparr>clh := h\<rparr> \<and> its h = its (clh s))"

lemma lists_only_refl: "lists_only s s"
  unfolding lists_only_def by (intro exI [of _ "clh s"]) simp

lemma lists_only_own: "lists_only s s' \<Longrightarrow> own s' = own s"
  by (auto simp: lists_only_def)

lemma lists_onlyI: "list_becomes l (clh s) h xs \<Longrightarrow> lists_only s (s\<lparr>clh := h\<rparr>)"
  by (auto simp: lists_only_def list_becomes_def list_step_def)

lemma queue_upd:
  assumes "cheap_ok s" "queue_live s q" "list_becomes (own s (Inl q)) (clh s) h xs"
  shows "seq_upd cheap_ok queue_live queue_items q s (s\<lparr>clh := h\<rparr>) xs"
    and "stack_items (s\<lparr>clh := h\<rparr>) = stack_items s"
  using own_becomes [of s "Inl q" h xs] assms
  by (auto simp: seq_upd_def queue_live_def queue_items_def stack_items_def fun_eq_iff)

lemma stack_upd:
  assumes "cheap_ok s" "stack_live s k" "list_becomes (own s (Inr k)) (clh s) h xs"
    "list_back h (own s (Inr k))"
  shows "seq_upd cheap_ok stack_live stack_items k s (s\<lparr>clh := h\<rparr>) xs"
    and "queue_items (s\<lparr>clh := h\<rparr>) = queue_items s"
  using own_becomes [of s "Inr k" h xs] assms
  by (auto simp: seq_upd_def stack_live_def queue_items_def stack_items_def fun_eq_iff)

lemma with_queue_live:
  "cheap_ok s \<Longrightarrow> queue_live s q \<Longrightarrow> with_queue q s none f = f (own s (Inl q))"
  by (auto simp: with_queue_def queue_live_def own_def cheap_ok_def split: option.splits)

lemma stack_live_header:
  assumes "cheap_ok s" "stack_live s k"
  shows "k \<noteq> NULL" "\<exists>r. stacks s k = Some r \<and> s_list r = own s (Inr k)"
  using assms by (auto simp: stack_live_def own_def cheap_ok_def split: option.splits)

lemma owned_list_ok: "cheap_ok s \<Longrightarrow> own s w \<noteq> NULL \<Longrightarrow> list_ok (clh s) (own s w)"
  using list_live_ok [of "clh s" "own s w"] by (auto simp: cheap_ok_def)

subsection \<open>The queue\<close>

text \<open>
  A queue operation that runs the list operation \<open>f\<close> on the list of the queue has the effect of
  \<open>f\<close> on the items of the queue and none on any other queue or stack.
\<close>

lemma queue_lift:
  assumes s: "cheap_ok s" and q: "queue_live s q"
    and f: "f (own s (Inl q)) (clh s) = Some (r, h)" "list_becomes (own s (Inl q)) (clh s) h xs"
  shows "\<exists>s'. with_queue q s none (\<lambda>l. on_lists (f l) s) = Some (r, s') \<and>
           seq_upd cheap_ok queue_live queue_items q s s' xs \<and> stack_items s' = stack_items s \<and>
           stack_live s' = stack_live s \<and> lists_only s s'"
  using queue_upd [OF s q f(2)] f(1) lists_onlyI [OF f(2)] by (auto simp: with_queue_live [OF s q] on_lists_def)

lemma queue_list_ok: "cheap_ok s \<Longrightarrow> queue_live s q \<Longrightarrow> list_ok (clh s) (own s (Inl q))"
  by (simp add: queue_live_def owned_list_ok)

lemma queue_push_effect:
  assumes s: "cheap_ok s" and q: "queue_live s q"
  shows "\<exists>s'. queue_push q x s = Some (alloc_ok (clh s), s') \<and>
           seq_upd cheap_ok queue_live queue_items q s s'
             (if alloc_ok (clh s) then queue_items s q @ [x] else queue_items s q) \<and>
           stack_items s' = stack_items s \<and> stack_live s' = stack_live s \<and> lists_only s s'"
proof -
  obtain h where h: "list_add (own s (Inl q)) x (clh s) = Some (alloc_ok (clh s), h)"
    "list_becomes (own s (Inl q)) (clh s) h
       (if alloc_ok (clh s) then queue_items s q @ [x] else queue_items s q)"
    using list_add_spec [OF queue_list_ok [OF s q], of x] unfolding queue_items_def by blast
  from queue_lift [OF s q, where f = "\<lambda>l. list_add l x", OF h] show ?thesis
    unfolding queue_push_def by blast
qed

lemma queue_remove_effect:
  assumes s: "cheap_ok s" and q: "queue_live s q"
  shows "\<exists>s'. queue_remove q x s = Some (x \<in> set (queue_items s q), s') \<and>
           seq_upd cheap_ok queue_live queue_items q s s' (remove1 x (queue_items s q)) \<and>
           stack_items s' = stack_items s \<and> stack_live s' = stack_live s \<and> lists_only s s'"
proof -
  obtain h where h: "list_remove_item (own s (Inl q)) x (clh s) = Some (x \<in> set (queue_items s q), h)"
    "list_becomes (own s (Inl q)) (clh s) h (remove1 x (queue_items s q))"
    using list_remove_item_spec [OF queue_list_ok [OF s q], of x] unfolding queue_items_def by blast
  from queue_lift [OF s q, where f = "\<lambda>l. list_remove_item l x", OF h] show ?thesis
    unfolding queue_remove_def by blast
qed

lemma queue_pop_effect:
  assumes s: "cheap_ok s" and q: "queue_live s q"
  shows "\<exists>s'. queue_pop q s = Some (queue_items s q \<noteq> [], s') \<and>
           seq_upd cheap_ok queue_live queue_items q s s' (tl (queue_items s q)) \<and>
           stack_items s' = stack_items s \<and> stack_live s' = stack_live s \<and> lists_only s s'"
proof -
  have "\<exists>h. list_remove (own s (Inl q)) 0 (clh s) = Some (queue_items s q \<noteq> [], h) \<and>
    list_becomes (own s (Inl q)) (clh s) h (tl (queue_items s q))"
    using list_remove_spec [OF queue_list_ok [OF s q], of 0]
      list_remove_range [OF queue_list_ok [OF s q], of 0] list_becomes_refl [OF queue_list_ok [OF s q]]
    unfolding queue_items_def by (cases "list_items (clh s) (own s (Inl q))") auto
  then obtain h where h: "list_remove (own s (Inl q)) 0 (clh s) = Some (queue_items s q \<noteq> [], h)"
    "list_becomes (own s (Inl q)) (clh s) h (tl (queue_items s q))" by blast
  from queue_lift [OF s q, where f = "\<lambda>l. list_remove l 0", OF h] show ?thesis
    unfolding queue_pop_def by blast
qed

interpretation qs: fifo_store cheap_ok queue_live queue_items queue_push queue_remove queue_contains queue_size
  queue_front queue_pop
proof
  fix s q x assume s: "cheap_ok s" and q: "queue_live s q"
  show "\<exists>b s'. queue_push q x s = Some (b, s') \<and>
      seq_upd cheap_ok queue_live queue_items q s s' (if b then queue_items s q @ [x] else queue_items s q)"
    using queue_push_effect [OF s q, of x] by blast
  show "\<exists>s'. queue_remove q x s = Some (x \<in> set (queue_items s q), s') \<and>
      seq_upd cheap_ok queue_live queue_items q s s' (remove1 x (queue_items s q))"
    using queue_remove_effect [OF s q, of x] by blast
  show "queue_contains q x s = Some (x \<in> set (queue_items s q))"
    unfolding queue_contains_def with_queue_live [OF s q] queue_items_def
    using queue_list_ok [OF s q] by (rule list_contains_spec)
next
  fix s q assume s: "cheap_ok s" and q: "queue_live s q"
  note ok = queue_list_ok [OF s q]
  show "queue_size q s = Some (of_nat (length (queue_items s q)))"
    unfolding queue_size_def with_queue_live [OF s q] queue_items_def using ok by (rule list_size_spec)
  show "length (queue_items s q) < 2 ^ 32"
    unfolding queue_items_def using ok by (rule list_items_length)
  show "queue_front q s = Some (case queue_items s q of [] \<Rightarrow> None | x # _ \<Rightarrow> Some x)"
    unfolding queue_front_def with_queue_live [OF s q] queue_items_def
    using list_get_spec [OF ok, of 0] by (auto split: list.splits)
  show "\<exists>s'. queue_pop q s = Some (queue_items s q \<noteq> [], s') \<and>
      seq_upd cheap_ok queue_live queue_items q s s' (tl (queue_items s q))"
    using queue_pop_effect [OF s q] by blast
qed

subsection \<open>The stack\<close>

lemma stack_list_ok: "cheap_ok s \<Longrightarrow> stack_live s k \<Longrightarrow> list_ok (clh s) (own s (Inr k))"
  by (simp add: stack_live_def owned_list_ok)

lemma stack_list_back: "cheap_ok s \<Longrightarrow> stack_live s k \<Longrightarrow> list_back (clh s) (own s (Inr k))"
  by (simp add: cheap_ok_def)

lemma stack_lift:
  assumes s: "cheap_ok s" and k: "stack_live s k"
    and f: "f (own s (Inr k)) (clh s) = Some (r, h)" "list_becomes (own s (Inr k)) (clh s) h xs"
      "list_back h (own s (Inr k))"
  shows "\<exists>s'. (if k = NULL then none else do { k \<leftarrow> stacks s k; on_lists (f (s_list k)) s }) = Some (r, s') \<and>
           seq_upd cheap_ok stack_live stack_items k s s' xs \<and> queue_items s' = queue_items s \<and>
           queue_live s' = queue_live s \<and> lists_only s s'"
  using stack_upd [OF s k f(2,3)] f(1) lists_onlyI [OF f(2)] stack_live_header [OF s k] by (auto simp: on_lists_def)

lemma stack_push_effect:
  assumes s: "cheap_ok s" and k: "stack_live s k"
  shows "\<exists>s'. stack_push k x s = Some (alloc_ok (clh s), s') \<and>
           seq_upd cheap_ok stack_live stack_items k s s'
             (if alloc_ok (clh s) then stack_items s k @ [x] else stack_items s k) \<and>
           queue_items s' = queue_items s \<and> queue_live s' = queue_live s \<and> lists_only s s'"
proof -
  obtain h where h: "list_add (own s (Inr k)) x (clh s) = Some (alloc_ok (clh s), h)"
    "list_becomes (own s (Inr k)) (clh s) h
       (if alloc_ok (clh s) then stack_items s k @ [x] else stack_items s k)"
    "list_back h (own s (Inr k))"
    using list_add_spec [OF stack_list_ok [OF s k], of x] stack_list_back [OF s k]
    unfolding stack_items_def by auto
  from stack_lift [OF s k, where f = "\<lambda>l. list_add l x", OF h] show ?thesis
    unfolding stack_push_def by blast
qed

lemma stack_insert_effect:
  assumes s: "cheap_ok s" and k: "stack_live s k" and i: "unat i \<le> length (stack_items s k)"
  shows "\<exists>s'. stack_insert k i x s = Some (alloc_ok (clh s), s') \<and>
           seq_upd cheap_ok stack_live stack_items k s s'
             (if alloc_ok (clh s) then take (insert_pos i (stack_items s k)) (stack_items s k) @
                        x # drop (insert_pos i (stack_items s k)) (stack_items s k)
              else stack_items s k) \<and>
           queue_items s' = queue_items s \<and> queue_live s' = queue_live s \<and> lists_only s s'"
proof -
  obtain h where h: "list_insert (own s (Inr k)) i x (clh s) = Some (alloc_ok (clh s), h)"
    "list_becomes (own s (Inr k)) (clh s) h
       (if alloc_ok (clh s) then take (insert_pos i (stack_items s k)) (stack_items s k) @
                        x # drop (insert_pos i (stack_items s k)) (stack_items s k)
        else stack_items s k)"
    "list_back h (own s (Inr k))"
    using list_insert_spec [OF stack_list_ok [OF s k], of i x] stack_list_back [OF s k] i
    unfolding stack_items_def by auto
  from stack_lift [OF s k, where f = "\<lambda>l. list_insert l i x", OF h] show ?thesis
    unfolding stack_insert_def by blast
qed

lemma stack_pop_effect:
  assumes s: "cheap_ok s" and k: "stack_live s k"
  shows "\<exists>s'. stack_pop k s = Some (if stack_items s k = [] then None else Some (last (stack_items s k)), s') \<and>
           seq_upd cheap_ok stack_live stack_items k s s' (butlast (stack_items s k)) \<and>
           queue_items s' = queue_items s \<and> queue_live s' = queue_live s \<and> lists_only s s'"
proof (cases "stack_items s k = []")
  case True
  then show ?thesis
    using stack_live_header [OF s k] list_get_tail_spec [OF stack_list_ok [OF s k]] s
    by (auto simp: stack_pop_def stack_items_def seq_upd_def fun_eq_iff lists_only_refl)
next
  case False
  then obtain h where h: "list_remove_tail (own s (Inr k)) (clh s) = Some (True, h)"
    "list_becomes (own s (Inr k)) (clh s) h (butlast (stack_items s k))" "list_back h (own s (Inr k))"
    using list_remove_tail_spec [OF stack_list_ok [OF s k] stack_list_back [OF s k]]
    unfolding stack_items_def by auto
  then show ?thesis
    using stack_live_header [OF s k] stack_upd [OF s k h(2,3)] False lists_onlyI [OF h(2)]
      list_get_tail_spec [OF stack_list_ok [OF s k]]
    by (auto simp: stack_pop_def on_lists_def stack_items_def)
qed

interpretation st: lifo_store cheap_ok stack_live stack_items stack_push stack_pop stack_front
proof
  fix s k assume s: "cheap_ok s" and k: "stack_live s k"
  show "\<exists>b s'. stack_push k x s = Some (b, s') \<and>
      seq_upd cheap_ok stack_live stack_items k s s' (if b then stack_items s k @ [x] else stack_items s k)" for x
    using stack_push_effect [OF s k, of x] by blast
  show "\<exists>s'. stack_pop k s = Some (if stack_items s k = [] then None else Some (last (stack_items s k)), s') \<and>
      seq_upd cheap_ok stack_live stack_items k s s' (butlast (stack_items s k))"
    using stack_pop_effect [OF s k] by blast
  show "stack_front k s = Some (if stack_items s k = [] then None else Some (last (stack_items s k)))"
    using stack_live_header [OF s k] list_get_tail_spec [OF stack_list_ok [OF s k]]
    by (auto simp: stack_front_def stack_items_def)
qed

end
