(* ===== verification/List_Props.thy ===== *)
theory List_Props
  imports Queue_Correct
begin

section \<open>Properties of the list, the queue and the stack\<close>

text \<open>
  The statements about \<open>unbounded_list.c\<close>, \<open>unbounded_queue.c\<close> and \<open>stack.c\<close> that the rest of the
  kernel depends on, and the two ways in which the list breaks its own invariants.
\<close>

subsection \<open>A heap with one list of three items\<close>

definition lheap3 :: lheap where
  "lheap3 = \<lparr>elems = [10 \<mapsto> \<lparr>le_item = 100, le_next = 11, le_prev = 0\<rparr>,
                    11 \<mapsto> \<lparr>le_item = 101, le_next = 12, le_prev = 10\<rparr>,
                    12 \<mapsto> \<lparr>le_item = 102, le_next = 0, le_prev = 11\<rparr>],
           lists = [1 \<mapsto> \<lparr>l_size = 3, l_head = 10, l_tail = 12, l_pool = 9\<rparr>],
           its = Map.empty, answers = [20, 21, 22]\<rparr>"

definition lheap2 :: lheap where
  "lheap2 = \<lparr>elems = [10 \<mapsto> \<lparr>le_item = 100, le_next = 11, le_prev = 0\<rparr>,
                    11 \<mapsto> \<lparr>le_item = 101, le_next = 0, le_prev = 10\<rparr>],
           lists = [1 \<mapsto> \<lparr>l_size = 2, l_head = 10, l_tail = 11, l_pool = 9\<rparr>],
           its = Map.empty, answers = [20, 21, 22]\<rparr>"

lemma lheap_ok_single:
  assumes "lists s = [l \<mapsto> lst]" "list_ok s l"
  shows "lheap_ok s"
  using assms by (auto simp: lheap_ok_def list_addrs_def split: if_splits)

lemma lheap3_view:
  "list_addrs lheap3 1 = [10, 11, 12]" "list_items lheap3 1 = [100, 101, 102]" "list_ok lheap3 1"
  "list_back lheap3 1" "lists lheap3 1 \<noteq> None" "lheap_ok lheap3"
proof -
  show a: "list_addrs lheap3 1 = [10, 11, 12]"
    by code_simp
  show "list_items lheap3 1 = [100, 101, 102]" by (simp add: list_items_def a) (simp add: lheap3_def)
  show ok: "list_ok lheap3 1"
    unfolding list_ok_def a by (simp add: lheap3_def wf_list_def)
  show "list_back lheap3 1" unfolding list_back_def a by (simp add: lheap3_def)
  show "lists lheap3 1 \<noteq> None" by (simp add: lheap3_def)
  show "lheap_ok lheap3" by (rule lheap_ok_single [OF _ ok]) (simp add: lheap3_def)
qed

lemma lheap2_view:
  "list_addrs lheap2 1 = [10, 11]" "list_items lheap2 1 = [100, 101]" "list_ok lheap2 1"
  "list_back lheap2 1" "lists lheap2 1 \<noteq> None" "lheap_ok lheap2"
proof -
  show a: "list_addrs lheap2 1 = [10, 11]"
    by code_simp
  show "list_items lheap2 1 = [100, 101]" by (simp add: list_items_def a) (simp add: lheap2_def)
  show ok: "list_ok lheap2 1"
    unfolding list_ok_def a by (simp add: lheap2_def wf_list_def)
  show "list_back lheap2 1" unfolding list_back_def a by (simp add: lheap2_def)
  show "lists lheap2 1 \<noteq> None" by (simp add: lheap2_def)
  show "lheap_ok lheap2" by (rule lheap_ok_single [OF _ ok]) (simp add: lheap2_def)
qed

subsection \<open>The list\<close>

text \<open>
  C21: \<open>list_add\<close> on a heap of well formed lists always returns.  It fails exactly when the
  allocator does, and then no list has changed; otherwise the item is appended to this list
  and to no other.  The heap of the lists stays well formed.
\<close>

theorem list_add_appends:
  assumes "lheap_ok s" "lists s l \<noteq> None"
  shows "\<exists>s'. list_add l x s = Some (alloc_ok s, s') \<and> lheap_ok s' \<and>
           list_items s' = (list_items s)(l := (if alloc_ok s then list_items s l @ [x] else list_items s l))"
proof -
  have l: "list_live s l" using assms(2) by (simp add: list_live_def)
  from list_add_spec [OF list_live_ok [OF assms(1) l], of x] obtain s' where
    "list_add l x s = Some (alloc_ok s, s')"
    "list_becomes l s s' (if alloc_ok s then list_items s l @ [x] else list_items s l)" by blast
  then show ?thesis using list_becomes_upd [OF assms(1) l] by (auto simp: seq_upd_def)
qed

theorem list_add_appends_witness:
  "lheap_ok lheap3 \<and> lists lheap3 1 \<noteq> None \<and>
   (\<exists>s'. list_add 1 103 lheap3 = Some (True, s') \<and> list_items s' 1 = [100, 101, 102, 103])"
proof -
  have "alloc_ok lheap3" by (simp add: alloc_ok_def lheap3_def)
  then show ?thesis using list_add_appends [of lheap3 1 103] lheap3_view by auto
qed

text \<open>
  C22: \<open>list_remove_item\<close> on a heap of well formed lists always returns.  It says whether the
  item was in the list and takes its first occurrence out; the order of the others, every
  other list and the well-formedness of the heap are kept.
\<close>

theorem list_remove_item_removes:
  assumes "lheap_ok s" "lists s l \<noteq> None"
  shows "\<exists>s'. list_remove_item l x s = Some (x \<in> set (list_items s l), s') \<and> lheap_ok s' \<and>
           list_items s' = (list_items s)(l := remove1 x (list_items s l))"
  using ls.remove_law [OF assms(1), of l x] assms(2) by (auto simp: list_live_def seq_upd_def)

theorem list_remove_item_removes_witness:
  "lheap_ok lheap3 \<and> lists lheap3 1 \<noteq> None \<and>
   (\<exists>s'. list_remove_item 1 101 lheap3 = Some (True, s') \<and> list_items s' 1 = [100, 102])"
  using list_remove_item_removes [of lheap3 1 101] lheap3_view by auto

text \<open>
  \<open>list_insert\<close> at an index up to the size of the list, when there is memory, puts the item
  at that index, except that index 0 of a list that is not empty gives position 1: the new
  element is linked behind the head, never before it.  Larger indices are refused.
\<close>

lemma list_insert_inserts:
  assumes "lheap_ok s" "lists s l \<noteq> None" "alloc_ok s"
  shows "if unat i \<le> length (list_items s l)
         then \<exists>s'. list_insert l i x s = Some (True, s') \<and> lheap_ok s' \<and>
                list_items s' = (list_items s)(l :=
                  (let k = (if list_items s l \<noteq> [] \<and> i = 0 then 1 else unat i)
                   in take k (list_items s l) @ x # drop k (list_items s l)))
         else list_insert l i x s = Some (False, s)"
proof (cases "unat i \<le> length (list_items s l)")
  case True
  have l: "list_live s l" using assms(2) by (simp add: list_live_def)
  let ?p = "insert_pos i (list_items s l)"
  have p: "?p = (if list_items s l \<noteq> [] \<and> i = 0 then 1 else unat i)"
    using True by (auto simp: insert_pos_def)
  obtain s' where s': "list_insert l i x s = Some (True, s')"
    "list_becomes l s s' (take ?p (list_items s l) @ x # drop ?p (list_items s l))"
    using list_insert_spec [OF list_live_ok [OF assms(1) l] True, of x] assms(3) by auto
  then show ?thesis
    using list_becomes_upd [OF assms(1) l s'(2)] True by (simp add: seq_upd_def p [symmetric] Let_def)
next
  case False
  then show ?thesis
    using list_insert_range [of s l i x] assms lheap_ok_list by auto
qed

text \<open>
  Deleting a list frees its header and exactly its own elements: afterwards none of them
  is allocated, every other element and every other list is untouched, and the heap is well
  formed.
\<close>

lemma list_delete_frees:
  assumes "lheap_ok s" "lists s l \<noteq> None"
  shows "\<exists>s'. list_delete l s = Some s' \<and> lheap_ok s' \<and> lists s' = (lists s)(l := None) \<and>
           elems s' = (\<lambda>a. if a \<in> set (list_addrs s l) then None else elems s a) \<and>
           (\<forall>l'. l' \<noteq> l \<longrightarrow> list_items s' l' = list_items s l')"
  using assms by (rule list_delete_spec)

text \<open>
  The traversal idiom of the kernel (create an iterator, get its item, advance until there
  is no next item, delete the iterator) visits exactly the items of the list, in order, and
  leaves the heap as it was.
\<close>

lemma list_traverse_visits:
  assumes "lheap_ok s" "lists s l \<noteq> None"
    and "answers s \<noteq> []" "its s (hd (answers s)) = None" "hd (answers s) \<noteq> NULL"
  shows "list_traverse l s = Some (list_items s l, s\<lparr>answers := tl (answers s)\<rparr>)"
  using list_traverse_spec [of s l] assms lheap_ok_list by blast

subsection \<open>Head to tail\<close>

text \<open>
  On a list of at least three items whose \<open>prev\<close> pointers are intact, \<open>list_head_to_tail\<close>
  exchanges the first and the last item.  It does not rotate the list: the items between them
  keep their places.  The \<open>prev\<close> pointers stay intact.
\<close>

lemma list_head_to_tail_exchanges:
  assumes "lheap_ok s" "lists s l \<noteq> None" "list_back s l" "list_items s l = x # ys @ [z]" "ys \<noteq> []"
  shows "\<exists>s'. list_head_to_tail l s = Some (True, s') \<and> lheap_ok s' \<and> list_back s' l \<and>
           list_items s' = (list_items s)(l := z # ys @ [x])"
proof -
  have l: "list_live s l" using assms(2) by (simp add: list_live_def)
  have "3 \<le> length (list_items s l)" using assms(4,5) by (cases ys) auto
  from list_head_to_tail_spec [OF list_live_ok [OF assms(1) l] assms(3) this] obtain s' where
    "list_head_to_tail l s = Some (True, s')" "list_becomes l s s' (z # ys @ [x])" "list_back s' l"
    using assms(4) by (auto simp: butlast_append)
  then show ?thesis using list_becomes_upd [OF assms(1) l] by (auto simp: seq_upd_def)
qed

text \<open>
  On a list of exactly two items \<open>list_head_to_tail\<close> breaks the list.  Each element is
  linked to itself: a walk over the list finds the second item for ever and never the first
  one, so \<open>list_contains\<close> denies it and \<open>list_remove_item\<close> does not remove it, although the
  recorded size is still two.
\<close>

lemma list_head_to_tail_breaks_two:
  assumes "list_ok s l" "list_back s l" "list_items s l = [x, y]" "x \<noteq> y"
  shows "\<exists>s'. list_head_to_tail l s = Some (True, s') \<and> \<not> list_ok s' l \<and> list_items s' l = [y, y] \<and>
           list_size l s' = Some 2 \<and> list_contains l x s' = Some False \<and>
           list_remove_item l x s' = Some (False, s')"
  using assms by (rule list_two_broken)

text \<open>
  C37: \<open>list_remove_item\<close> on the item between two others repairs no \<open>prev\<close> pointer: the \<open>prev\<close> of
  the element behind still names the freed element.  With three items, taking out the middle
  one therefore makes the next \<open>list_remove_tail\<close> and the next \<open>list_head_to_tail\<close> write to freed
  memory.
\<close>

theorem list_remove_item_dangles:
  assumes "list_ok s l" "list_back s l" "list_items s l = [x, y, z]" "x \<noteq> y"
  shows "\<exists>s'. list_remove_item l y s = Some (True, s') \<and> list_items s' l = [x, z] \<and>
           list_remove_tail l s' = None \<and> list_head_to_tail l s' = None"
proof -
  obtain a b c where as: "list_addrs s l = [a, b, c]" using assms(3) by (auto simp: list_items_def)
  obtain lst where l: "l \<noteq> NULL" "lists s l = Some lst" and wf: "wf_list (elems s) lst [a, b, c]"
    using assms(1) as by (auto simp: list_ok_def split: option.splits)
  obtain xa xb xc where e: "elems s a = Some xa" "elems s b = Some xb" "elems s c = Some xc"
    using wf_list_alive [OF wf] by fastforce
  have n: "le_next xa = b" "le_next xb = c" "le_next xc = NULL" "l_head lst = a" "l_tail lst = c"
    and d: "a \<noteq> b" "a \<noteq> c" "b \<noteq> c" "a \<noteq> NULL" "b \<noteq> NULL" "c \<noteq> NULL" "l_pool lst \<noteq> NULL"
    using wf e by (auto simp: wf_list_def)
  have pv: "le_prev xc = b" using assms(2) as e by (simp add: list_back_def)
  have it: "le_item xa = x" "le_item xb = y" using assms(3) as e by (auto simp: list_items_def)
  have sz: "l_size lst = 3" "unat (l_size lst) = Suc (Suc (Suc 0))" using wf by (simp_all add: wf_list_def)
  let ?h = "(elems s)(a \<mapsto> xa\<lparr>le_next := c\<rparr>, b := None)"
  let ?s = "s\<lparr>elems := ?h, lists := (lists s)(l \<mapsto> lst\<lparr>l_size := 2\<rparr>)\<rparr>"
  have "list_remove l 1 s = Some (True, ?s)"
    using l e n d sz by (simp add: list_remove_def store_def mem_free_def fun_upd_twist)
  moreover have "list_remove_item l y s = list_remove l 1 s"
    using l e n it assms(4) sz(2) sz(1) [THEN arg_cong, of "\<lambda>n. n = 0"]
    by (simp add: list_remove_item_def)
  moreover obtain s' where "list_remove_item l y s = Some (True, s')" "list_items s' l = [x, z]"
    using list_remove_item_spec [OF assms(1), of y] assms(3,4) by (auto simp: list_becomes_def)
  moreover have "list_remove_tail l ?s = None" "list_head_to_tail l ?s = None"
    using l e n d pv by (simp_all add: list_remove_tail_def list_head_to_tail_def store_def word_le_nat_alt)
  ultimately show ?thesis by simp
qed

theorem list_remove_item_dangles_witness:
  "list_ok lheap3 1 \<and> list_back lheap3 1 \<and>
   (\<exists>s'. list_remove_item 1 101 lheap3 = Some (True, s') \<and> list_remove_tail 1 s' = None)"
  using list_remove_item_dangles [of lheap3 1 100 101 102] lheap3_view by auto

subsection \<open>Queue and stack\<close>

definition cheap3 :: cheap where
  "cheap3 = \<lparr>clh = lheap3, queues = [2 \<mapsto> \<lparr>q_list = 1, q_pool = 9\<rparr>], stacks = Map.empty, c_answers = []\<rparr>"

definition kheap3 :: cheap where
  "kheap3 = \<lparr>clh = lheap3, queues = Map.empty, stacks = [2 \<mapsto> \<lparr>s_list = 1, s_pool = 9\<rparr>], c_answers = []\<rparr>"

lemma cheap3_view: "cheap_ok cheap3" "queue_live cheap3 2" "queue_items cheap3 2 = [100, 101, 102]"
  using lheap3_view
  by (auto simp: cheap_ok_def cheap3_def own_def list_live_def queue_live_def queue_items_def stack_live_def
      split: sum.splits if_splits)

lemma kheap3_view: "cheap_ok kheap3" "stack_live kheap3 2" "stack_items kheap3 2 = [100, 101, 102]"
  using lheap3_view
  by (auto simp: cheap_ok_def kheap3_def own_def list_live_def stack_live_def stack_items_def
      split: sum.splits if_splits)

text \<open>
  C23: the queue is first in, first out.  A push that succeeds puts its item behind the others,
  and taking \<open>n\<close> items off the front (\<open>queue_front\<close> and \<open>queue_pop\<close>) after it returns the first
  \<open>n\<close> of them in the order of their insertion and leaves the rest, in every queue of the heap.
\<close>

theorem queue_is_fifo:
  assumes "cheap_ok s" "queue_live s q" "queue_push q x s = Some (True, s1)"
  shows "\<exists>s2. drain queue_front queue_pop n q s1 = Some (take n (queue_items s q @ [x]), s2) \<and>
           cheap_ok s2 \<and> queue_items s2 = (queue_items s)(q := drop n (queue_items s q @ [x]))"
proof -
  have s1: "cheap_ok s1" "queue_live s1 q" "queue_items s1 = (queue_items s)(q := queue_items s q @ [x])"
    using qs.add_law [OF assms(1,2), of x] assms(2,3) by (auto simp: seq_upd_def)
  then show ?thesis using qs.drain_items [OF s1(1,2), of n] by (auto simp: seq_upd_def)
qed

theorem queue_is_fifo_witness:
  "\<exists>s1. queue_push 2 103 cheap3 = Some (True, s1) \<and>
     (\<exists>s2. drain queue_front queue_pop 4 2 s1 = Some ([100, 101, 102, 103], s2))"
proof -
  have a: "alloc_ok (clh cheap3)" by (simp add: alloc_ok_def cheap3_def lheap3_def)
  obtain s1 where "queue_push 2 103 cheap3 = Some (True, s1)"
    using cheap3_view list_add_spec [OF queue_list_ok, of cheap3 2 103] a
    by (auto simp: queue_push_def with_queue_live on_lists_def)
  then show ?thesis using queue_is_fifo [of cheap3 2 103 s1 4] cheap3_view by auto
qed

text \<open>
  The stack is last in, first out.  After a push that succeeds \<open>stack_front\<close> reads the item
  pushed, \<open>stack_pop\<close> returns it, and after the pop every stack and every queue holds what it
  held before the push.
\<close>

lemma stack_is_lifo:
  assumes "cheap_ok s" "stack_live s k" "stack_push k x s = Some (True, s1)"
  shows "stack_front k s1 = Some (Some x) \<and>
         (\<exists>s2. stack_pop k s1 = Some (Some x, s2) \<and> cheap_ok s2 \<and>
               stack_items s2 = stack_items s \<and> queue_items s2 = queue_items s)"
proof -
  obtain s2 where s2: "stack_front k s1 = Some (Some x)" "stack_pop k s1 = Some (Some x, s2)" "cheap_ok s2"
    "stack_items s2 = stack_items s"
    using st.push_pop [OF assms] by metis
  have s1: "cheap_ok s1" "stack_live s1 k" "queue_items s1 = queue_items s"
    using stack_push_effect [OF assms(1,2), of x] assms(2,3) by (auto simp: seq_upd_def)
  have "queue_items s2 = queue_items s1"
    using stack_pop_effect [OF s1(1,2)] s2(2) by auto
  then show ?thesis using s1 s2 by simp
qed

end
