(* ===== verification/Thread.thy ===== *)
theory Thread
  imports Queue_Stack
begin

section \<open>Threads and machine contexts (\<open>process/thread.c\<close>, \<open>arm.c\<close>)\<close>

text \<open>
  The state the scheduler works on: the collections, the threads, the saved machine contexts,
  the process descriptors, the schedulers, and the calls made to the hardware in the order
  they were made.  The context an interrupt hands to the kernel lives in the same heap as the
  contexts saved in the threads.  The architecture's \<open>mem_info\<close> of a process, which nothing in
  the modelled code reads, is left out of \<open>process_t\<close>.
\<close>

subsection \<open>State\<close>

record tgt_context_t =
  c_sp :: u32
  c_lr :: u32
  c_cpsr :: u32
  c_gpr :: "u32 list"
  c_pc :: u32

record thread_t =
  thread_id :: u32
  t_stack :: ptr
  r_stack_base :: u32
  v_stack_base :: u32
  t_stack_size :: u32
  priority :: u8
  t_flags :: u32
  t_parent :: ptr
  t_state :: thread_state_t
  waiting_on :: ptr
  entry_point :: ptr
  t_object_number :: u16
  t_context :: ptr
  t_name :: "u8 list"

record process_t =
  p_scheduler :: ptr
  p_alarm_manager :: ptr
  process_id :: u32
  p_threads :: "ptr list"
  private_pool :: ptr
  memory_pool :: ptr
  p_object_table :: ptr
  p_object_number :: u16
  kernel_process :: bool
  first_section :: ptr
  p_image :: "u8 list"
  initial_thread :: ptr
  parent_pool :: ptr
  page_table :: ptr

text \<open>The array of priority queues has one entry for every value of \<open>priority_t\<close>.\<close>

record scheduler_t =
  curr_thread :: ptr
  curr_queue :: ptr
  priority_queues :: "u8 \<Rightarrow> ptr"
  curr_priority :: u8
  queue_stack :: ptr
  idle_thread :: ptr
  eval_new_thread :: bool

text \<open>Calls that leave the kernel's own data and reach the hardware.\<close>

datatype hw_call = Set_Translation_Table ptr | Invalidate_TLBs | Enable_Schedule_Timer

record kst =
  cols :: cheap
  threads :: "thread_t pheap"
  contexts :: "tgt_context_t pheap"
  processes :: "process_t pheap"
  scheds :: "scheduler_t pheap"
  hw :: "hw_call list"
  k_answers :: "ptr list"

text \<open>Running an operation of the collections in this state.\<close>

definition on_cols :: "(cheap \<Rightarrow> ('a \<times> cheap) option) \<Rightarrow> kst \<Rightarrow> ('a \<times> kst) option" where
  "on_cols f s = do { (r, c) \<leftarrow> f (cols s); Some (r, s\<lparr>cols := c\<rparr>) }"

subsection \<open>Fields of a thread\<close>

text \<open>
  The getters return a default for the null thread; the setters assert that the thread is not
  null.
\<close>

definition thread_field :: "ptr \<Rightarrow> 'a \<Rightarrow> (thread_t \<Rightarrow> 'a) \<Rightarrow> kst \<Rightarrow> 'a option" where
  "thread_field t none f s = (if t = NULL then Some none else do { x \<leftarrow> threads s t; Some (f x) })"

definition thread_update :: "ptr \<Rightarrow> (thread_t \<Rightarrow> thread_t) \<Rightarrow> kst \<Rightarrow> kst option" where
  "thread_update t f s = do {
     _ \<leftarrow> kernel_assert (t \<noteq> NULL);
     h \<leftarrow> store t f (threads s);
     Some (s\<lparr>threads := h\<rparr>)
   }"

definition thread_get_tid :: "ptr \<Rightarrow> kst \<Rightarrow> u32 option" where
  "thread_get_tid t = thread_field t 0 thread_id"

definition thread_set_tid :: "ptr \<Rightarrow> u32 \<Rightarrow> kst \<Rightarrow> kst option" where
  "thread_set_tid t tid = thread_update t (\<lambda>x. x\<lparr>thread_id := tid\<rparr>)"

definition thread_set_oid :: "ptr \<Rightarrow> u16 \<Rightarrow> kst \<Rightarrow> kst option" where
  "thread_set_oid t oid = thread_update t (\<lambda>x. x\<lparr>t_object_number := oid\<rparr>)"

definition thread_get_priority :: "ptr \<Rightarrow> kst \<Rightarrow> u8 option" where
  "thread_get_priority t = thread_field t 0 priority"

definition thread_set_priority :: "ptr \<Rightarrow> u8 \<Rightarrow> kst \<Rightarrow> kst option" where
  "thread_set_priority t p = thread_update t (\<lambda>x. x\<lparr>priority := p\<rparr>)"

definition thread_get_parent :: "ptr \<Rightarrow> kst \<Rightarrow> ptr option" where
  "thread_get_parent t = thread_field t NULL t_parent"

definition thread_get_state :: "ptr \<Rightarrow> kst \<Rightarrow> thread_state_t option" where
  "thread_get_state t = thread_field t THREAD_NOT_CREATED t_state"

definition thread_set_state :: "ptr \<Rightarrow> thread_state_t \<Rightarrow> kst \<Rightarrow> kst option" where
  "thread_set_state t st = thread_update t (\<lambda>x. x\<lparr>t_state := st\<rparr>)"

definition thread_get_object_no :: "ptr \<Rightarrow> kst \<Rightarrow> u16 option" where
  "thread_get_object_no t = thread_field t (- 1) t_object_number"

definition thread_get_virt_stack_base :: "ptr \<Rightarrow> kst \<Rightarrow> u32 option" where
  "thread_get_virt_stack_base t = thread_field t 0 v_stack_base"

definition thread_get_context :: "ptr \<Rightarrow> kst \<Rightarrow> ptr option" where
  "thread_get_context t = thread_field t NULL t_context"

definition thread_get_entry_point :: "ptr \<Rightarrow> kst \<Rightarrow> ptr option" where
  "thread_get_entry_point t = thread_field t NULL entry_point"

definition thread_get_flags :: "ptr \<Rightarrow> kst \<Rightarrow> u32 option" where
  "thread_get_flags t = thread_field t 0 t_flags"

definition thread_get_waiting_on :: "ptr \<Rightarrow> kst \<Rightarrow> ptr option" where
  "thread_get_waiting_on t = thread_field t NULL waiting_on"

definition thread_set_waiting_on :: "ptr \<Rightarrow> ptr \<Rightarrow> kst \<Rightarrow> kst option" where
  "thread_set_waiting_on t obj = thread_update t (\<lambda>x. x\<lparr>waiting_on := obj\<rparr>)"

definition thread_get_stack_size :: "ptr \<Rightarrow> kst \<Rightarrow> u32 option" where
  "thread_get_stack_size t = thread_field t 0 t_stack_size"

subsection \<open>Contexts\<close>

definition tgt_load_context :: "ptr \<Rightarrow> ptr \<Rightarrow> kst \<Rightarrow> kst option" where
  "tgt_load_context thread context s = do {
     c \<leftarrow> contexts s thread;
     h \<leftarrow> store context (\<lambda>_. c) (contexts s);
     Some (s\<lparr>contexts := h\<rparr>)
   }"

definition tgt_save_context :: "ptr \<Rightarrow> ptr \<Rightarrow> kst \<Rightarrow> kst option" where
  "tgt_save_context thread context s =
     (if thread = NULL then Some s
      else do {
        c \<leftarrow> contexts s context;
        h \<leftarrow> store thread (\<lambda>_. c) (contexts s);
        Some (s\<lparr>contexts := h\<rparr>)
      })"

definition tgt_get_syscall_param :: "ptr \<Rightarrow> u8 \<Rightarrow> kst \<Rightarrow> u32 option" where
  "tgt_get_syscall_param context param s = do {
     c \<leftarrow> contexts s context;
     if unat param < length (c_gpr c) then Some (c_gpr c ! unat param) else None
   }"

definition tgt_set_syscall_return :: "ptr \<Rightarrow> u32 \<Rightarrow> kst \<Rightarrow> kst option" where
  "tgt_set_syscall_return context value s = do {
     h \<leftarrow> store context (\<lambda>c. c\<lparr>c_gpr := (c_gpr c)[0 := value]\<rparr>) (contexts s);
     Some (s\<lparr>contexts := h\<rparr>)
   }"

definition tgt_set_context_param :: "ptr \<Rightarrow> u8 \<Rightarrow> u32 \<Rightarrow> kst \<Rightarrow> kst option" where
  "tgt_set_context_param context index parameter s =
     (if index = 0 \<or> index = 1 then do {
        h \<leftarrow> store context (\<lambda>c. c\<lparr>c_gpr := (c_gpr c)[(if index = 0 then 5 else 6) := parameter]\<rparr>)
               (contexts s);
        Some (s\<lparr>contexts := h\<rparr>)
      } else Some s)"

definition thread_load_context :: "ptr \<Rightarrow> ptr \<Rightarrow> kst \<Rightarrow> kst option" where
  "thread_load_context t context s = do {
     _ \<leftarrow> kernel_assert (t \<noteq> NULL);
     x \<leftarrow> threads s t;
     tgt_load_context (t_context x) context s
   }"

definition thread_save_context :: "ptr \<Rightarrow> ptr \<Rightarrow> kst \<Rightarrow> kst option" where
  "thread_save_context t context s =
     (if t = NULL \<or> context = NULL then Some s
      else do { x \<leftarrow> threads s t; tgt_save_context (t_context x) context s })"

definition thread_set_context_param :: "ptr \<Rightarrow> u8 \<Rightarrow> u32 \<Rightarrow> kst \<Rightarrow> kst option" where
  "thread_set_context_param t index parameter s = do {
     _ \<leftarrow> kernel_assert (t \<noteq> NULL);
     x \<leftarrow> threads s t;
     tgt_set_context_param (t_context x) index parameter s
   }"

text \<open>
  \<open>tgt_prepare_context\<close> loads the context of the thread to run and, when its process is not
  the current one, switches the translation table of the MMU.
\<close>

definition process_get_page_table :: "ptr \<Rightarrow> kst \<Rightarrow> ptr option" where
  "process_get_page_table proc s =
     (if proc = NULL then Some NULL else do { p \<leftarrow> processes s proc; Some (page_table p) })"

definition tgt_prepare_context :: "ptr \<Rightarrow> ptr \<Rightarrow> ptr \<Rightarrow> kst \<Rightarrow> kst option" where
  "tgt_prepare_context context t current_process s =
     (if context = NULL \<or> t = NULL then Some s
      else do {
        proc \<leftarrow> thread_get_parent t s;
        s \<leftarrow> thread_load_context t context s;
        if current_process \<noteq> proc then do {
          pg \<leftarrow> process_get_page_table proc s;
          Some (s\<lparr>hw := hw s @ [Set_Translation_Table pg, Invalidate_TLBs]\<rparr>)
        } else Some s
      })"

end
