(* ===== verification/Scheduler.thy ===== *)
theory Scheduler
  imports Thread
begin

section \<open>The scheduler (\<open>scheduler/scheduler.c\<close>)\<close>

text \<open>
  A scheduler has a queue of threads for every priority and a stack of the queues in use; the
  top of the stack is the queue being served.  The functions take the scheduler by pointer, as
  in the code.
\<close>

subsection \<open>Access to the scheduler\<close>

definition sch_upd :: "ptr \<Rightarrow> (scheduler_t \<Rightarrow> scheduler_t) \<Rightarrow> kst \<Rightarrow> kst option" where
  "sch_upd sch f s = do { h \<leftarrow> store sch f (scheds s); Some (s\<lparr>scheds := h\<rparr>) }"

definition on_clists :: "(lheap \<Rightarrow> ('a \<times> lheap) option) \<Rightarrow> kst \<Rightarrow> ('a \<times> kst) option" where
  "on_clists f = on_cols (on_lists f)"

subsection \<open>Creation\<close>

text \<open>\<open>default_pool\<close> is the pool \<open>mem_get_default_pool\<close> returns.\<close>

primrec sch_create_queues :: "nat \<Rightarrow> u16 \<Rightarrow> ptr \<Rightarrow> ptr \<Rightarrow> kst \<Rightarrow> kst option" where
  "sch_create_queues 0 i default_pool sch s = Some s"
| "sch_create_queues (Suc n) i default_pool sch s = do {
     (q, s) \<leftarrow> on_cols (queue_create default_pool) s;
     s \<leftarrow> sch_upd sch (\<lambda>x. x\<lparr>priority_queues := (priority_queues x)(ucast i := q)\<rparr>) s;
     sch_create_queues n (i + 1) default_pool sch s
   }"

definition sch_create_scheduler :: "ptr \<Rightarrow> ptr \<Rightarrow> kst \<Rightarrow> (ptr \<times> kst) option" where
  "sch_create_scheduler pool default_pool s = do {
     (sch, as) \<leftarrow> mem_alloc pool (scheds s) (k_answers s);
     let s = s\<lparr>k_answers := as\<rparr>;
     if sch = NULL then Some (NULL, s)
     else do {
       let s = s\<lparr>scheds := (scheds s)(sch \<mapsto>
         \<lparr>curr_thread = NULL, curr_queue = NULL, priority_queues = (\<lambda>_. NULL), curr_priority = 0,
          queue_stack = NULL, idle_thread = NULL, eval_new_thread = False\<rparr>)\<rparr>;
       s \<leftarrow> sch_create_queues 256 0 default_pool sch s;
       s \<leftarrow> sch_upd sch (\<lambda>x. x\<lparr>curr_queue := priority_queues x 0\<rparr>) s;
       (k, s) \<leftarrow> on_cols (stack_create default_pool) s;
       s \<leftarrow> sch_upd sch (\<lambda>x. x\<lparr>queue_stack := k\<rparr>) s;
       sc \<leftarrow> scheds s sch;
       (_, s) \<leftarrow> on_cols (stack_push (queue_stack sc) (curr_queue sc)) s;
       s \<leftarrow> sch_upd sch (\<lambda>x. x\<lparr>eval_new_thread := False\<rparr>) s;
       Some (sch, s)
     }
   }"

definition sch_set_kernel_idle_thread :: "ptr \<Rightarrow> ptr \<Rightarrow> kst \<Rightarrow> kst option" where
  "sch_set_kernel_idle_thread sch idle s =
     (if sch = NULL then Some s else sch_upd sch (\<lambda>x. x\<lparr>idle_thread := idle\<rparr>) s)"

subsection \<open>Putting a queue below the one in use\<close>

text \<open>
  One round of the loop of \<open>insert_lower_priority_queue_to_stack\<close>: look at the thread at the
  front of the queue the iterator stands at.  The flag says that the loop breaks.
\<close>

definition insert_lower_visit ::
  "ptr \<Rightarrow> ptr \<Rightarrow> u8 \<Rightarrow> ptr \<Rightarrow> ptr \<Rightarrow> kst \<Rightarrow> (bool \<times> kst) option" where
  "insert_lower_visit it stack thread_priority queue stack_queue s = do {
     sz \<leftarrow> queue_size stack_queue (cols s);
     if sz = 0 then Some (False, s)
     else do {
       first \<leftarrow> queue_front stack_queue (cols s);
       (case first of
          None \<Rightarrow> Some (False, s)
        | Some t \<Rightarrow> do {
            p \<leftarrow> thread_get_priority t s;
            if p = thread_priority then Some (True, s)
            else if p < thread_priority then do {
              pos \<leftarrow> list_it_where it (clh (cols s));
              (ok, s) \<leftarrow> on_cols (stack_insert stack pos queue) s;
              _ \<leftarrow> kernel_assert ok;
              Some (True, s)
            } else Some (False, s)
          })
     }
   }"

partial_function (option) insert_lower_loop ::
  "ptr \<Rightarrow> ptr \<Rightarrow> u8 \<Rightarrow> ptr \<Rightarrow> ptr \<Rightarrow> kst \<Rightarrow> kst option" where
  "insert_lower_loop it stack thread_priority queue stack_queue s =
     (if stack_queue = NULL then Some s
      else do {
        (stop, s) \<leftarrow> insert_lower_visit it stack thread_priority queue stack_queue s;
        if stop then Some s
        else do {
          (ok, nx, s) \<leftarrow> do { (ok, nx, h) \<leftarrow> list_it_next it (clh (cols s));
                              Some (ok, nx, s\<lparr>cols := (cols s)\<lparr>clh := h\<rparr>\<rparr>) };
          insert_lower_loop it stack thread_priority queue
            (case nx of None \<Rightarrow> stack_queue | Some q \<Rightarrow> q) s
        }
      })"

definition insert_lower_priority_queue_to_stack :: "ptr \<Rightarrow> u8 \<Rightarrow> ptr \<Rightarrow> kst \<Rightarrow> kst option" where
  "insert_lower_priority_queue_to_stack sch thread_priority queue s = do {
     sc \<leftarrow> scheds s sch;
     l \<leftarrow> stack_list (queue_stack sc) (cols s);
     (it, s) \<leftarrow> on_clists (list_it_create l) s;
     (x, s) \<leftarrow> on_clists (list_it_get it) s;
     s \<leftarrow> insert_lower_loop it (queue_stack sc) thread_priority queue
            (case x of None \<Rightarrow> NULL | Some q \<Rightarrow> q) s;
     (_, s) \<leftarrow> on_clists (\<lambda>h. do { h \<leftarrow> list_it_delete it h; Some ((), h) }) s;
     Some s
   }"

subsection \<open>Notifications\<close>

definition sch_notify_new_thread :: "ptr \<Rightarrow> ptr \<Rightarrow> kst \<Rightarrow> kst option" where
  "sch_notify_new_thread sch t s =
     (if sch = NULL \<or> t = NULL then Some s
      else do {
        thread_priority \<leftarrow> thread_get_priority t s;
        sc \<leftarrow> scheds s sch;
        let queue = priority_queues sc thread_priority;
        present \<leftarrow> queue_contains queue t (cols s);
        (_, s) \<leftarrow> (if \<not> present then on_cols (queue_push queue t) s else Some (True, s));
        if thread_priority > curr_priority sc then do {
          s \<leftarrow> sch_upd sch (\<lambda>x. x\<lparr>eval_new_thread := True, curr_priority := thread_priority,
                                  curr_queue := priority_queues x thread_priority\<rparr>) s;
          (_, s) \<leftarrow> on_cols (stack_push (queue_stack sc) queue) s;
          Some s
        }
        else if thread_priority < curr_priority sc then
          insert_lower_priority_queue_to_stack sch thread_priority queue s
        else Some s
      })"

text \<open>
  The slow search for a queue with a thread in it, from the priority below \<open>p\<close> downwards; the
  predecrement wraps around at 0.
\<close>

function sch_find_queue :: "(u8 \<Rightarrow> ptr) \<Rightarrow> u8 \<Rightarrow> cheap \<Rightarrow> (u8 \<times> ptr) option" where
  "sch_find_queue qs p c =
     Option.bind (queue_size (qs (p - 1)) c)
       (\<lambda>size. if size \<noteq> 0 \<or> p - 1 = 0 then Some (p - 1, qs (p - 1)) else sch_find_queue qs (p - 1) c)"
  by pat_completeness auto
termination
proof (relation "measure (\<lambda>(qs, p, c). unat (p - 1))")
  fix qs :: "u8 \<Rightarrow> ptr" and p :: u8 and c :: cheap and size :: u32
  assume "\<not> (size \<noteq> 0 \<or> p - 1 = 0)"
  then have "unat (p - 1 - 1) < unat (p - 1)" by (intro measure_unat) simp
  then show "((qs, p - 1, c), qs, p, c) \<in> measure (\<lambda>(qs, p, c). unat (p - 1))" by simp
qed simp

definition sch_priority_find_next_queue :: "ptr \<Rightarrow> ptr \<Rightarrow> kst \<Rightarrow> kst option" where
  "sch_priority_find_next_queue sch t s = do {
     p \<leftarrow> thread_get_priority t s;
     sc \<leftarrow> scheds s sch;
     (p, queue) \<leftarrow> sch_find_queue (priority_queues sc) p (cols s);
     s \<leftarrow> sch_upd sch (\<lambda>x. x\<lparr>curr_priority := p, curr_queue := queue\<rparr>) s;
     (_, s) \<leftarrow> on_cols (stack_push (queue_stack sc) queue) s;
     Some s
   }"

text \<open>\<open>stack_pop\<close> and \<open>stack_front\<close> with the field \<open>curr_queue\<close> of the scheduler as out parameter.\<close>

definition sch_stack_pop :: "ptr \<Rightarrow> kst \<Rightarrow> (bool \<times> kst) option" where
  "sch_stack_pop sch s = do {
     sc \<leftarrow> scheds s sch;
     (x, s) \<leftarrow> on_cols (stack_pop (queue_stack sc)) s;
     (case x of None \<Rightarrow> Some (False, s)
      | Some q \<Rightarrow> do { s \<leftarrow> sch_upd sch (\<lambda>x. x\<lparr>curr_queue := q\<rparr>) s; Some (True, s) })
   }"

definition sch_stack_front :: "ptr \<Rightarrow> kst \<Rightarrow> (bool \<times> kst) option" where
  "sch_stack_front sch s = do {
     sc \<leftarrow> scheds s sch;
     x \<leftarrow> stack_front (queue_stack sc) (cols s);
     (case x of None \<Rightarrow> Some (False, s)
      | Some q \<Rightarrow> do { s \<leftarrow> sch_upd sch (\<lambda>x. x\<lparr>curr_queue := q\<rparr>) s; Some (True, s) })
   }"

definition sch_notify_exit_thread :: "ptr \<Rightarrow> ptr \<Rightarrow> kst \<Rightarrow> kst option" where
  "sch_notify_exit_thread sch t s =
     (if t = NULL then Some s
      else do {
        thread_priority \<leftarrow> thread_get_priority t s;
        sc \<leftarrow> scheds s sch;
        (removed, s) \<leftarrow> on_cols (queue_remove (priority_queues sc thread_priority) t) s;
        if \<not> removed then Some s
        else do {
          s \<leftarrow> sch_upd sch (\<lambda>x. x\<lparr>eval_new_thread := True\<rparr>) s;
          sz \<leftarrow> queue_size (curr_queue sc) (cols s);
          if sz \<noteq> 0 then Some s
          else do {
            (_, s) \<leftarrow> sch_stack_pop sch s;
            (ok, s) \<leftarrow> sch_stack_front sch s;
            if ok then do {
              sc \<leftarrow> scheds s sch;
              first \<leftarrow> queue_front (curr_queue sc) (cols s);
              p \<leftarrow> (case first of Some f \<Rightarrow> thread_get_priority f s | None \<Rightarrow> Some 0);
              sch_upd sch (\<lambda>x. x\<lparr>curr_priority := p\<rparr>) s
            }
            else sch_priority_find_next_queue sch t s
          }
        }
      })"

definition sch_notify_terminated :: "ptr \<Rightarrow> ptr \<Rightarrow> kst \<Rightarrow> kst option" where
  "sch_notify_terminated sch t s = do {
     sc \<leftarrow> scheds s sch;
     if curr_thread sc = t then sch_upd sch (\<lambda>x. x\<lparr>curr_thread := NULL\<rparr>) s else Some s
   }"

definition sch_notify_pause_thread :: "ptr \<Rightarrow> ptr \<Rightarrow> kst \<Rightarrow> kst option" where
  "sch_notify_pause_thread = sch_notify_exit_thread"

definition sch_notify_resume_thread :: "ptr \<Rightarrow> ptr \<Rightarrow> kst \<Rightarrow> kst option" where
  "sch_notify_resume_thread = sch_notify_new_thread"

definition sch_notify_change_priority :: "ptr \<Rightarrow> ptr \<Rightarrow> u8 \<Rightarrow> kst \<Rightarrow> kst option" where
  "sch_notify_change_priority sch t original_priority s =
     (if t = NULL then Some s
      else do {
        thread_priority \<leftarrow> thread_get_priority t s;
        sc \<leftarrow> scheds s sch;
        (_, s) \<leftarrow> on_cols (queue_remove (priority_queues sc original_priority) t) s;
        let queue = priority_queues sc thread_priority;
        (_, s) \<leftarrow> on_cols (queue_push queue t) s;
        sz \<leftarrow> queue_size (curr_queue sc) (cols s);
        let is_curr_queue_empty = (sz = 0);
        (_, s) \<leftarrow> (if is_curr_queue_empty then sch_stack_pop sch s else Some (False, s));
        s \<leftarrow> (if thread_priority > original_priority then do {
                s \<leftarrow> sch_upd sch (\<lambda>x. x\<lparr>eval_new_thread := True, curr_priority := thread_priority,
                                       curr_queue := queue\<rparr>) s;
                (_, s) \<leftarrow> on_cols (stack_push (queue_stack sc) queue) s;
                Some s
              } else insert_lower_priority_queue_to_stack sch thread_priority queue s);
        if \<not> is_curr_queue_empty then Some s
        else do {
          (ok, s) \<leftarrow> sch_stack_front sch s;
          if ok then do {
            sc \<leftarrow> scheds s sch;
            first \<leftarrow> queue_front (curr_queue sc) (cols s);
            (case first of
               None \<Rightarrow> None
             | Some f \<Rightarrow> do {
                 p \<leftarrow> thread_get_priority f s;
                 sch_upd sch (\<lambda>x. x\<lparr>eval_new_thread := True, curr_priority := p\<rparr>) s
               })
          }
          else sch_priority_find_next_queue sch t s
        }
      })"

subsection \<open>The current thread\<close>

definition sch_get_current_thread :: "ptr \<Rightarrow> kst \<Rightarrow> ptr option" where
  "sch_get_current_thread sch s = do { sc \<leftarrow> scheds s sch; Some (curr_thread sc) }"

definition sch_set_current_thread :: "ptr \<Rightarrow> ptr \<Rightarrow> kst \<Rightarrow> kst option" where
  "sch_set_current_thread sch t s =
     (if t = NULL then Some s else sch_upd sch (\<lambda>x. x\<lparr>curr_thread := t\<rparr>) s)"

definition sch_terminate_current_thread :: "ptr \<Rightarrow> ptr \<Rightarrow> kst \<Rightarrow> kst option" where
  "sch_terminate_current_thread sch context s = do {
     t \<leftarrow> sch_get_current_thread sch s;
     sc \<leftarrow> scheds s sch;
     _ \<leftarrow> kernel_assert (t \<noteq> idle_thread sc);
     if t = NULL then Some s
     else do {
       s \<leftarrow> thread_set_state t THREAD_TERMINATED s;
       s \<leftarrow> thread_save_context t context s;
       sch_notify_exit_thread sch t s
     }
   }"

subsection \<open>Switching\<close>

text \<open>
  The first half of \<open>sch_set_context_for_next_thread\<close> chooses the thread to run: the front of
  the current queue when its state allows it to run, the idle thread otherwise.
\<close>

definition sch_choose_thread :: "ptr \<Rightarrow> kst \<Rightarrow> kst option" where
  "sch_choose_thread sch s = do {
     sc \<leftarrow> scheds s sch;
     s \<leftarrow> (if curr_queue sc \<noteq> NULL then do {
             first \<leftarrow> queue_front (curr_queue sc) (cols s);
             (case first of None \<Rightarrow> Some s | Some t \<Rightarrow> sch_upd sch (\<lambda>x. x\<lparr>curr_thread := t\<rparr>) s)
           } else Some s);
     sc \<leftarrow> scheds s sch;
     s \<leftarrow> (if curr_thread sc \<noteq> NULL then do {
             (reorder_ok, s) \<leftarrow> on_cols (queue_reorder_first (curr_queue sc)) s;
             _ \<leftarrow> kernel_assert reorder_ok;
             state \<leftarrow> thread_get_state (curr_thread sc) s;
             if state = THREAD_READY \<or> state = THREAD_SYSTEM \<or> state = THREAD_RUNNING
             then thread_set_state (curr_thread sc) THREAD_RUNNING s
             else sch_upd sch (\<lambda>x. x\<lparr>curr_thread := NULL\<rparr>) s
           } else Some s);
     sc \<leftarrow> scheds s sch;
     if curr_thread sc = NULL then sch_upd sch (\<lambda>x. x\<lparr>curr_thread := idle_thread x\<rparr>) s else Some s
   }"

text \<open>
  The second half saves the context of the thread that was running and loads the one of the
  thread chosen, when they differ or an event asked for it.
\<close>

definition sch_set_context_for_next_thread ::
  "ptr \<Rightarrow> ptr \<Rightarrow> thread_state_t \<Rightarrow> kst \<Rightarrow> kst option" where
  "sch_set_context_for_next_thread sch context thread_state s = do {
     sc \<leftarrow> scheds s sch;
     let current_thread = curr_thread sc;
     s \<leftarrow> sch_choose_thread sch s;
     sc \<leftarrow> scheds s sch;
     s \<leftarrow> (if current_thread \<noteq> curr_thread sc \<or> eval_new_thread sc then do {
             s \<leftarrow> sch_upd sch (\<lambda>x. x\<lparr>eval_new_thread := False\<rparr>) s;
             s \<leftarrow> (if thread_state = THREAD_RUNNING
                   then thread_set_state current_thread THREAD_READY s else Some s);
             s \<leftarrow> (if thread_state \<noteq> THREAD_DEAD
                   then thread_save_context current_thread context s else Some s);
             parent \<leftarrow> thread_get_parent current_thread s;
             tgt_prepare_context context (curr_thread sc) parent s
           } else Some s);
     sz \<leftarrow> queue_size (curr_queue sc) (cols s);
     let s = (if sz > 1 then s\<lparr>hw := hw s @ [Enable_Schedule_Timer]\<rparr> else s);
     _ \<leftarrow> kernel_assert (curr_thread sc \<noteq> NULL);
     Some s
   }"

end
