(* ===== verification/Sched_Stack.thy ===== *)
theory Sched_Stack
  imports Scheduler Queue_Correct
begin

section \<open>Inserting a queue into the scheduler's stack\<close>

text \<open>
  What \<open>insert_lower_priority_queue_to_stack\<close> computes.  \<open>front_prio\<close> is the priority of the
  thread at the front of a queue; \<open>lower_index\<close> is the index the loop stops at to insert.
\<close>

definition front_prio :: "kst \<Rightarrow> ptr \<Rightarrow> u8 option" where
  "front_prio s q = (case queue_items (cols s) q of [] \<Rightarrow> None | t # _ \<Rightarrow> Some (priority (the (threads s t))))"

primrec lower_index :: "(ptr \<Rightarrow> u8 option) \<Rightarrow> u8 \<Rightarrow> nat \<Rightarrow> ptr list \<Rightarrow> nat option" where
  "lower_index fp p k [] = None"
| "lower_index fp p k (q # qs) =
     (case fp q of
        None \<Rightarrow> lower_index fp p (Suc k) qs
      | Some r \<Rightarrow> if r = p then None else if r < p then Some k else lower_index fp p (Suc k) qs)"

definition stack_inserted :: "nat option \<Rightarrow> ptr \<Rightarrow> ptr list \<Rightarrow> ptr list" where
  "stack_inserted i q xs =
     (case i of None \<Rightarrow> xs
      | Some k \<Rightarrow> (let j = (if k = 0 then 1 else k) in take j xs @ q # drop j xs))"

text \<open>Every queue in the list can be asked for the priority of its front.\<close>

definition fronts_ok :: "kst \<Rightarrow> ptr list \<Rightarrow> bool" where
  "fronts_ok s qs \<longleftrightarrow> (\<forall>q\<in>set qs. q \<noteq> NULL \<and> queue_live (cols s) q \<and>
     (\<forall>t\<in>set (queue_items (cols s) q). t \<noteq> NULL \<and> threads s t \<noteq> None))"

text \<open>The views of the collections do not depend on the iterators.\<close>

abbreviation with_its :: "kst \<Rightarrow> list_it_t pheap \<Rightarrow> kst" where
  "with_its s i \<equiv> s\<lparr>cols := (cols s)\<lparr>clh := (clh (cols s))\<lparr>its := i\<rparr>\<rparr>\<rparr>"

lemma views_its [simp]:
  "own (c\<lparr>clh := h\<rparr>) w = own c w"
  "queue_items (c\<lparr>clh := (clh c)\<lparr>its := i\<rparr>\<rparr>) = queue_items c"
  "stack_items (c\<lparr>clh := (clh c)\<lparr>its := i\<rparr>\<rparr>) = stack_items c"
  "cheap_ok (c\<lparr>clh := (clh c)\<lparr>its := i\<rparr>\<rparr>) = cheap_ok c"
  by (simp_all add: queue_items_def stack_items_def fun_eq_iff cheap_ok_def lheap_ok_def list_live_def)

lemma views_answers [simp]:
  "queue_items (c\<lparr>clh := (clh c)\<lparr>answers := i\<rparr>\<rparr>) = queue_items c"
  "stack_items (c\<lparr>clh := (clh c)\<lparr>answers := i\<rparr>\<rparr>) = stack_items c"
  "cheap_ok (c\<lparr>clh := (clh c)\<lparr>answers := i\<rparr>\<rparr>) = cheap_ok c"
  by (simp_all add: queue_items_def stack_items_def fun_eq_iff cheap_ok_def lheap_ok_def list_live_def)

lemma views_its_answers [simp]:
  "queue_items (c\<lparr>clh := (clh c)\<lparr>its := i, answers := a\<rparr>\<rparr>) = queue_items c"
  "stack_items (c\<lparr>clh := (clh c)\<lparr>its := i, answers := a\<rparr>\<rparr>) = stack_items c"
  "cheap_ok (c\<lparr>clh := (clh c)\<lparr>its := i, answers := a\<rparr>\<rparr>) = cheap_ok c"
  by (simp_all add: queue_items_def stack_items_def fun_eq_iff cheap_ok_def lheap_ok_def list_live_def)

lemma alloc_ok_its [simp]: "alloc_ok (h\<lparr>its := i\<rparr>) = alloc_ok h"
  by (simp add: alloc_ok_def cong: list.case_cong)

lemma front_prio_its [simp]: "front_prio (with_its s i) = front_prio s"
  by (simp add: front_prio_def fun_eq_iff cong: list.case_cong)

lemma fronts_ok_its [simp]: "fronts_ok (with_its s i) = fronts_ok s"
  by (simp add: fronts_ok_def fun_eq_iff)

lemma insert_lower_visit_skip:
  assumes c: "cheap_ok (cols s)" and q: "queue_live (cols s) q"
    and t: "\<forall>t\<in>set (queue_items (cols s) q). t \<noteq> NULL \<and> threads s t \<noteq> None"
    and fp: "\<forall>r. front_prio s q = Some r \<longrightarrow> p < r"
  shows "insert_lower_visit it k p queue q s = Some (False, s)"
proof -
  note size = qs.size_law [OF c q] and zero = qs.size_zero [OF c q size] and front = qs.front_law [OF c q]
  show ?thesis
  proof (cases "queue_items (cols s) q")
    case Nil
    then show ?thesis using size by (simp add: insert_lower_visit_def)
  next
    case (Cons t ts)
    then obtain x where "threads s t = Some x" "t \<noteq> NULL" using t by auto
    then show ?thesis using size zero front Cons fp
      by (auto simp: insert_lower_visit_def thread_get_priority_def thread_field_def front_prio_def)
  qed
qed

lemma insert_lower_visit_same:
  assumes c: "cheap_ok (cols s)" and q: "queue_live (cols s) q"
    and t: "\<forall>t\<in>set (queue_items (cols s) q). t \<noteq> NULL \<and> threads s t \<noteq> None"
    and fp: "front_prio s q = Some p"
  shows "insert_lower_visit it k p queue q s = Some (True, s)"
proof -
  note size = qs.size_law [OF c q] and zero = qs.size_zero [OF c q size] and front = qs.front_law [OF c q]
  obtain t' ts where Cons: "queue_items (cols s) q = t' # ts" using fp by (auto simp: front_prio_def split: list.splits)
  then obtain x where "threads s t' = Some x" "t' \<noteq> NULL" using t by auto
  then show ?thesis using size zero front Cons fp
    by (auto simp: insert_lower_visit_def thread_get_priority_def thread_field_def front_prio_def)
qed

lemma insert_lower_visit_insert:
  assumes c: "cheap_ok (cols s)" and q: "queue_live (cols s) q"
    and t: "\<forall>t\<in>set (queue_items (cols s) q). t \<noteq> NULL \<and> threads s t \<noteq> None"
    and fp: "front_prio s q = Some r" "r < p"
    and pos: "list_it_where it (clh (cols s)) = Some pos"
    and ins: "stack_insert k pos queue (cols s) = Some (True, c')"
  shows "insert_lower_visit it k p queue q s = Some (True, s\<lparr>cols := c'\<rparr>)"
proof -
  note size = qs.size_law [OF c q] and zero = qs.size_zero [OF c q size] and front = qs.front_law [OF c q]
  obtain t' ts where Cons: "queue_items (cols s) q = t' # ts" using fp by (auto simp: front_prio_def split: list.splits)
  then obtain x where "threads s t' = Some x" "t' \<noteq> NULL" using t by auto
  then show ?thesis using size zero front Cons fp pos ins
    by (auto simp: insert_lower_visit_def thread_get_priority_def thread_field_def front_prio_def on_cols_def)
qed

text \<open>The loop, started with the iterator at index \<open>j\<close> of the stack.\<close>

lemma insert_lower_loop_spec:
  assumes "cheap_ok (cols s)" "stack_live (cols s) k"
    and "it_at (clh (cols s)) it (own (cols s) (Inr k)) j"
    and "fronts_ok s (stack_items (cols s) k)" and "alloc_ok (clh (cols s))"
  shows "\<exists>c i. insert_lower_loop it k p queue (stack_items (cols s) k ! j) s = Some (s\<lparr>cols := c\<rparr>) \<and>
           cheap_ok c \<and> own c = own (cols s) \<and> queue_items c = queue_items (cols s) \<and>
           stack_items c = (stack_items (cols s))(k := stack_inserted
             (lower_index (front_prio s) p j (drop j (stack_items (cols s) k))) queue (stack_items (cols s) k)) \<and>
           its (clh c) = (its (clh (cols s)))(it \<mapsto> i) \<and> it_list i = own (cols s) (Inr k)"
  using assms
proof (induction "length (stack_items (cols s) k) - j" arbitrary: s j)
  case 0
  then show ?case by (simp add: it_at_def stack_items_def list_items_def)
next
  case (Suc n)
  note c = Suc.prems(1) and k = Suc.prems(2) and it = Suc.prems(3)
  let ?xs = "stack_items (cols s) k"
  let ?q = "?xs ! j"
  have j: "j < length ?xs" using it by (simp add: it_at_def stack_items_def list_items_def)
  then have dj: "drop j ?xs = ?q # drop (Suc j) ?xs" by (simp add: Cons_nth_drop_Suc)
  have q: "?q \<noteq> NULL" "queue_live (cols s) ?q" and
    t: "\<forall>t\<in>set (queue_items (cols s) ?q). t \<noteq> NULL \<and> threads s t \<noteq> None"
    using Suc.prems(4) j by (auto simp: fronts_ok_def)
  have i0: "its (clh (cols s)) = (its (clh (cols s)))(it \<mapsto> \<lparr>it_list = own (cols s) (Inr k),
      it_current = list_addrs (clh (cols s)) (own (cols s) (Inr k)) ! j, it_pos = of_nat j\<rparr>)"
    using it by (auto simp: it_at_def)
  consider (skip) "\<forall>r. front_prio s ?q = Some r \<longrightarrow> p < r" | (same) "front_prio s ?q = Some p"
    | (ins) r where "front_prio s ?q = Some r" "r < p"
    using that less_linear [of p] by (cases "front_prio s ?q") auto
  then show ?case
  proof cases
    case same
    then show ?thesis
      using insert_lower_visit_same [OF c q(2) t same] q(1) c i0 dj
      by (subst insert_lower_loop.simps) (force simp: stack_inserted_def)
  next
    case skip
    note visit = insert_lower_visit_skip [OF c q(2) t skip, of it k queue]
    have lok: "list_ok (clh (cols s)) (own (cols s) (Inr k))" using stack_list_ok [OF c k] .
    have idx: "lower_index (front_prio s) p j (drop j ?xs) = lower_index (front_prio s) p (Suc j) (drop (Suc j) ?xs)"
      using skip dj by (auto split: option.splits)
    show ?thesis
    proof (cases "Suc j < length ?xs")
      case True
      with list_it_next_spec [OF lok it] obtain i where
        nx: "list_it_next it (clh (cols s)) = Some (True, Some (?xs ! Suc j),
               (clh (cols s))\<lparr>its := (its (clh (cols s)))(it \<mapsto> i)\<rparr>)"
        and at: "it_at ((clh (cols s))\<lparr>its := (its (clh (cols s)))(it \<mapsto> i)\<rparr>) it (own (cols s) (Inr k)) (Suc j)"
        by (auto simp: stack_items_def)
      define s1 where "s1 = with_its s ((its (clh (cols s)))(it \<mapsto> i))"
      have s1: "cheap_ok (cols s1)" "stack_live (cols s1) k" "it_at (clh (cols s1)) it (own (cols s1) (Inr k)) (Suc j)"
        "fronts_ok s1 (stack_items (cols s1) k)" "alloc_ok (clh (cols s1))"
        "n = length (stack_items (cols s1) k) - Suc j"
        using Suc.prems Suc.hyps(2) at by (simp_all add: s1_def)
      have same: "stack_items (cols s1) = stack_items (cols s)" "own (cols s1) = own (cols s)"
        "queue_items (cols s1) = queue_items (cols s)" "front_prio s1 = front_prio s"
        "\<And>c. s1\<lparr>cols := c\<rparr> = s\<lparr>cols := c\<rparr>"
        "\<And>i'. (its (clh (cols s1)))(it \<mapsto> i') = (its (clh (cols s)))(it \<mapsto> i')"
        by (simp_all add: s1_def fun_eq_iff)
      have "insert_lower_loop it k p queue ?q s = insert_lower_loop it k p queue (?xs ! Suc j) s1"
        using q(1) visit nx by (subst insert_lower_loop.simps) (simp add: s1_def)
      then show ?thesis using Suc.hyps(1) [OF s1(6,1-5)] unfolding same idx by simp
    next
      case False
      with list_it_next_spec [OF lok it] have
        nx: "list_it_next it (clh (cols s)) = Some (False, Some NULL, clh (cols s))"
        by (auto simp: stack_items_def)
      have "insert_lower_loop it k p queue ?q s = insert_lower_loop it k p queue NULL s"
        using q(1) visit nx by (subst insert_lower_loop.simps) simp
      also have "\<dots> = Some (s\<lparr>cols := cols s\<rparr>)" by (subst insert_lower_loop.simps) simp
      finally have "insert_lower_loop it k p queue ?q s = Some (s\<lparr>cols := cols s\<rparr>)" .
      moreover have "lower_index (front_prio s) p j (drop j ?xs) = None" using idx False by simp
      ultimately show ?thesis using c i0 by (force simp: stack_inserted_def)
    qed
  next
    case ins
    have len: "length ?xs < 2 ^ 32"
      using list_items_length [OF stack_list_ok [OF c k]] by (simp add: stack_items_def)
    then have uj: "unat (of_nat j :: u32) = j" using j by (simp add: unat_of_nat take_bit_nat_eq_self)
    then have z: "(of_nat j :: u32) = 0 \<longleftrightarrow> j = 0" by (auto simp: unat_eq_zero [symmetric])
    have pos: "insert_pos (of_nat j) ?xs = (if j = 0 then 1 else j)"
      using j uj z by (auto simp: insert_pos_def)
    from stack_insert_effect [OF c k, of "of_nat j" queue] uj j Suc.prems(5) obtain c' where
      c': "stack_insert k (of_nat j) queue (cols s) = Some (True, c')"
        "seq_upd cheap_ok stack_live stack_items k (cols s) c'
           (stack_inserted (Some j) queue ?xs)"
        "queue_items c' = queue_items (cols s)" "lists_only (cols s) c'"
      unfolding pos by (auto simp: stack_inserted_def Let_def)
    have w: "list_it_where it (clh (cols s)) = Some (of_nat j)"
      using it by (simp add: list_it_where_def it_at_def)
    have its: "its (clh c') = its (clh (cols s))" using c'(4) by (auto simp: lists_only_def)
    have "lower_index (front_prio s) p j (drop j ?xs) = Some j" using ins dj by auto
    moreover have "insert_lower_loop it k p queue ?q s = Some (s\<lparr>cols := c'\<rparr>)"
      using insert_lower_visit_insert [OF c q(2) t ins w c'(1)] q(1)
      by (subst insert_lower_loop.simps) simp
    ultimately show ?thesis
      using c' lists_only_own [OF c'(4)] its i0 by (force simp: seq_upd_def)
  qed
qed

text \<open>There is memory for an iterator and then for a list element.\<close>

definition insert_mem :: "lheap \<Rightarrow> bool" where
  "insert_mem h \<longleftrightarrow> (case answers h of a # b # _ \<Rightarrow>
     a \<noteq> NULL \<and> its h a = None \<and> b \<noteq> NULL \<and> elems h b = None | _ \<Rightarrow> False)"

lemma insert_memE:
  assumes "insert_mem h"
  obtains a b r where "answers h = a # b # r" "a \<noteq> NULL" "its h a = None" "b \<noteq> NULL" "elems h b = None"
  using assms by (auto simp: insert_mem_def split: list.splits)

lemma insert_lower_spec:
  assumes c: "cheap_ok (cols s)" and sc: "scheds s sch = Some sc"
    and k: "stack_live (cols s) (queue_stack sc)"
    and f: "fronts_ok s (stack_items (cols s) (queue_stack sc))" and mem: "insert_mem (clh (cols s))"
  shows "\<exists>c. insert_lower_priority_queue_to_stack sch p queue s = Some (s\<lparr>cols := c\<rparr>) \<and>
           cheap_ok c \<and> own c = own (cols s) \<and> queue_items c = queue_items (cols s) \<and>
           stack_items c = (stack_items (cols s))(queue_stack sc := stack_inserted
             (lower_index (front_prio s) p 0 (stack_items (cols s) (queue_stack sc))) queue
             (stack_items (cols s) (queue_stack sc)))"
proof -
  define k where "k = queue_stack sc"
  define l where "l = own (cols s) (Inr k)"
  obtain a b r where ans: "answers (clh (cols s)) = a # b # r" "a \<noteq> NULL" "its (clh (cols s)) a = None"
    "b \<noteq> NULL" "elems (clh (cols s)) b = None" using mem by (rule insert_memE)
  have k: "stack_live (cols s) k" using assms(3) by (simp add: k_def)
  have lok: "list_ok (clh (cols s)) l" using stack_list_ok [OF c k] by (simp add: l_def)
  obtain lst where lst: "l \<noteq> NULL" "lists (clh (cols s)) l = Some lst"
    "wf_list (elems (clh (cols s))) lst (list_addrs (clh (cols s)) l)" using lok by (rule list_okE)
  have sl: "stack_list k (cols s) = Some l"
    using stack_live_header [OF c k] by (auto simp: stack_list_def l_def)
  let ?as = "list_addrs (clh (cols s)) l"
  define i0 where "i0 = \<lparr>it_list = l, it_current = (if ?as = [] then NULL else hd ?as), it_pos = 0\<rparr>"
  define s1 where "s1 = s\<lparr>cols := (cols s)\<lparr>clh := (clh (cols s))\<lparr>its := (its (clh (cols s)))(a \<mapsto> i0), answers := b # r\<rparr>\<rparr>\<rparr>"
  have create: "on_clists (list_it_create l) s = Some (a, s1)"
    using list_it_create_spec [OF lok] ans by (simp add: on_clists_def on_cols_def on_lists_def s1_def i0_def)
  have s1: "cheap_ok (cols s1)" "own (cols s1) = own (cols s)" "stack_items (cols s1) = stack_items (cols s)"
    "queue_items (cols s1) = queue_items (cols s)" "front_prio s1 = front_prio s" "\<And>c. s1\<lparr>cols := c\<rparr> = s\<lparr>cols := c\<rparr>"
    "list_addrs (clh (cols s1)) l = ?as" "list_ok (clh (cols s1)) l" "alloc_ok (clh (cols s1))"
    "its (clh (cols s1)) a = Some i0" "lists (clh (cols s1)) l = Some lst"
    using c lok lst ans by (simp_all add: s1_def front_prio_def fun_eq_iff alloc_ok_def cong: list.case_cong)
  have k1: "stack_live (cols s1) k" and f1: "fronts_ok s1 (stack_items (cols s1) k)"
    using k f s1(2-4) unfolding stack_live_def fronts_ok_def queue_live_def k_def by (simp_all add: s1_def)
  define x where "x = (if stack_items (cols s) k = [] then None else Some (stack_items (cols s) k ! 0))"
  have empty: "?as = [] \<longleftrightarrow> stack_items (cols s) k = []" by (simp add: stack_items_def list_items_def l_def)
  have at: "it_at (clh (cols s1)) a (own (cols s1) (Inr k)) 0" if "?as \<noteq> []"
    using that s1 ans(2) by (simp add: it_at_def i0_def l_def [symmetric] hd_conv_nth)
  have "list_it_get a (clh (cols s1)) = Some (x, clh (cols s1))"
  proof (cases "?as = []")
    case True
    then have "l_head lst = NULL" using lst(3) by (simp add: wf_list_def)
    then show ?thesis using True empty s1(10,11) ans(2)
      by (simp add: list_it_get_def i0_def x_def) (metis fun_upd_triv lheap.surjective lheap.update_convs(3))
  next
    case False
    then show ?thesis using list_it_get_spec [OF _ at [OF False]] s1 empty
      by (simp add: x_def l_def [symmetric]) (simp add: stack_items_def l_def s1_def)
  qed
  then have get: "on_clists (list_it_get a) s1 = Some (x, s1)"
    by (simp add: on_clists_def on_cols_def on_lists_def)
  have "\<exists>c i. insert_lower_loop a k p queue (case x of None \<Rightarrow> NULL | Some q \<Rightarrow> q) s1 = Some (s1\<lparr>cols := c\<rparr>) \<and>
      cheap_ok c \<and> own c = own (cols s1) \<and> queue_items c = queue_items (cols s1) \<and>
      stack_items c = (stack_items (cols s1))(k := stack_inserted
        (lower_index (front_prio s1) p 0 (stack_items (cols s1) k)) queue (stack_items (cols s1) k)) \<and>
      its (clh c) a = Some i \<and> it_list i = own (cols s1) (Inr k)"
  proof (cases "?as = []")
    case True
    have "insert_lower_loop a k p queue NULL s1 = Some (s1\<lparr>cols := cols s1\<rparr>)"
      by (subst insert_lower_loop.simps) simp
    moreover have nil: "stack_items (cols s1) k = []" "x = None" using True empty s1(3) by (simp_all add: x_def)
    ultimately show ?thesis using s1(1,10)
      by (intro exI [of _ "cols s1"] exI [of _ i0] conjI)
         (simp_all add: stack_inserted_def i0_def l_def s1(2) fun_upd_idem)
  next
    case False
    from insert_lower_loop_spec [OF s1(1) k1 at [OF False] f1 s1(9), of p queue] False empty show ?thesis
      by (simp add: x_def s1(3)) force
  qed
  then obtain c' i where c': "insert_lower_loop a k p queue (case x of None \<Rightarrow> NULL | Some q \<Rightarrow> q) s1 = Some (s\<lparr>cols := c'\<rparr>)"
      "cheap_ok c'" "own c' = own (cols s)" "queue_items c' = queue_items (cols s)"
      "stack_items c' = (stack_items (cols s))(k := stack_inserted
        (lower_index (front_prio s) p 0 (stack_items (cols s) k)) queue (stack_items (cols s) k))"
      "its (clh c') a = Some i" "it_list i = l"
    unfolding s1 l_def by blast
  have "list_ok (clh c') l" using owned_list_ok [OF c'(2), of "Inr k"] c'(3) lst(1) by (simp add: l_def)
  then obtain lst' where "lists (clh c') l = Some lst'" "l_pool lst' \<noteq> NULL"
    by (auto elim!: list_okE simp: wf_list_def)
  then have "list_it_delete a (clh c') = Some ((clh c')\<lparr>its := (its (clh c'))(a := None)\<rparr>)"
    using c' ans(2) by (simp add: list_it_delete_def mem_free_def)
  then have "on_clists (\<lambda>h. do { h \<leftarrow> list_it_delete a h; Some ((), h) }) (s\<lparr>cols := c'\<rparr>) =
      Some ((), s\<lparr>cols := c'\<lparr>clh := (clh c')\<lparr>its := (its (clh c'))(a := None)\<rparr>\<rparr>\<rparr>)"
    by (simp add: on_clists_def on_cols_def on_lists_def)
  then have "insert_lower_priority_queue_to_stack sch p queue s =
      Some (s\<lparr>cols := c'\<lparr>clh := (clh c')\<lparr>its := (its (clh c'))(a := None)\<rparr>\<rparr>\<rparr>)"
    using sc sl create get c'(1)
    by (simp add: insert_lower_priority_queue_to_stack_def k_def [symmetric])
  then show ?thesis using c'(2-5)
    by (intro exI [of _ "c'\<lparr>clh := (clh c')\<lparr>its := (its (clh c'))(a := None)\<rparr>\<rparr>"])
       (auto simp: k_def fun_eq_iff)
qed

end
