(* ===== verification/Sched_Correct.thy ===== *)
theory Sched_Correct
  imports Sched_Stack
begin

section \<open>Correctness of the scheduler\<close>

text \<open>
  \<open>sched_wf\<close> is the invariant of a scheduler: every priority has a live queue of its own, a
  queue holds each thread at most once and only threads of its priority, the stack holds
  queues of this scheduler, and the current queue is one of them.  \<open>ready\<close> is the sequence of
  the threads queued at a priority.
\<close>

definition ready :: "kst \<Rightarrow> scheduler_t \<Rightarrow> u8 \<Rightarrow> ptr list" where
  "ready s sc p = queue_items (cols s) (priority_queues sc p)"

definition sched_stack :: "kst \<Rightarrow> scheduler_t \<Rightarrow> ptr list" where
  "sched_stack s sc = stack_items (cols s) (queue_stack sc)"

definition sched_wf :: "kst \<Rightarrow> scheduler_t \<Rightarrow> bool" where
  "sched_wf s sc \<longleftrightarrow> cheap_ok (cols s) \<and> inj (priority_queues sc) \<and>
     (\<forall>p. queue_live (cols s) (priority_queues sc p) \<and> distinct (ready s sc p) \<and>
        (\<forall>t\<in>set (ready s sc p). t \<noteq> NULL \<and> (\<exists>x. threads s t = Some x \<and> priority x = p))) \<and>
     stack_live (cols s) (queue_stack sc) \<and>
     set (sched_stack s sc) \<subseteq> range (priority_queues sc) \<and>
     curr_queue sc \<in> range (priority_queues sc)"

definition sch_ok :: "ptr \<Rightarrow> kst \<Rightarrow> bool" where
  "sch_ok sch s \<longleftrightarrow> sch \<noteq> NULL \<and> (case scheds s sch of None \<Rightarrow> False | Some sc \<Rightarrow> sched_wf s sc)"

lemma sch_okE:
  assumes "sch_ok sch s"
  obtains sc where "sch \<noteq> NULL" "scheds s sch = Some sc" "sched_wf s sc"
  using assms by (auto simp: sch_ok_def split: option.splits)

lemma live_not_NULL: "cheap_ok c \<Longrightarrow> queue_live c q \<Longrightarrow> q \<noteq> NULL"
  by (auto simp: queue_live_def own_def cheap_ok_def split: option.splits)

lemma sched_wf_fronts:
  assumes "sched_wf s sc" shows "fronts_ok s (sched_stack s sc)"
  unfolding fronts_ok_def
proof
  fix q assume "q \<in> set (sched_stack s sc)"
  then obtain p where q: "q = priority_queues sc p" using assms by (auto simp: sched_wf_def)
  have c: "cheap_ok (cols s)" and l: "queue_live (cols s) q" using assms q by (auto simp: sched_wf_def)
  show "q \<noteq> NULL \<and> queue_live (cols s) q \<and> (\<forall>t\<in>set (queue_items (cols s) q). t \<noteq> NULL \<and> threads s t \<noteq> None)"
    using live_not_NULL [OF c l] l assms q by (fastforce simp: sched_wf_def ready_def)
qed

lemma sched_wf_front_prio:
  assumes "sched_wf s sc"
  shows "front_prio s (priority_queues sc p) = (if ready s sc p = [] then None else Some p)"
proof (cases "ready s sc p")
  case (Cons t ts)
  then have "\<exists>x. threads s t = Some x \<and> priority x = p" using assms by (auto simp: sched_wf_def)
  then show ?thesis using Cons by (auto simp: front_prio_def ready_def)
qed (simp add: front_prio_def ready_def)

text \<open>
  The invariant after an update of the collections that leaves the queues of all priorities
  but one alone.
\<close>

lemma sched_wf_update:
  assumes wf: "sched_wf s sc"
    and c': "cheap_ok c'" "own c' = own (cols s)" "queue_items c' = (queue_items (cols s))(priority_queues sc p := xs)"
    and xs: "distinct xs" "\<forall>t\<in>set xs. t \<noteq> NULL \<and> (\<exists>x. threads s t = Some x \<and> priority x = p)"
    and st: "set (stack_items c' (queue_stack sc)) \<subseteq> range (priority_queues sc)"
    and sc': "priority_queues sc' = priority_queues sc" "queue_stack sc' = queue_stack sc"
      "curr_queue sc' \<in> range (priority_queues sc)"
    and s': "cols s' = c'" "threads s' = threads s"
  shows "sched_wf s' sc'"
proof -
  have inj: "inj (priority_queues sc)" using wf by (simp add: sched_wf_def)
  have r: "ready s' sc' p' = (if p' = p then xs else ready s sc p')" for p'
    using c'(3) s' sc' inj by (auto simp: ready_def inj_eq)
  have live: "queue_live c' = queue_live (cols s)" "stack_live c' = stack_live (cols s)"
    using c'(2) by (simp_all add: fun_eq_iff queue_live_def stack_live_def)
  show ?thesis
    unfolding sched_wf_def r using wf xs st sc' s' c' live
    by (auto simp: sched_wf_def sched_stack_def)
qed

lemma sched_wf_same_queues:
  assumes wf: "sched_wf s sc"
    and c': "cheap_ok c'" "own c' = own (cols s)" "queue_items c' = queue_items (cols s)"
    and st: "set (stack_items c' (queue_stack sc)) \<subseteq> range (priority_queues sc)"
    and sc': "priority_queues sc' = priority_queues sc" "queue_stack sc' = queue_stack sc"
      "curr_queue sc' \<in> range (priority_queues sc)"
    and s': "cols s' = c'" "threads s' = threads s"
  shows "sched_wf s' sc'"
  by (rule sched_wf_update [OF wf c'(1,2), of 0 "ready s sc 0"])
     (use assms in \<open>auto simp: ready_def sched_wf_def\<close>)

lemma sch_upd_Some: "scheds s sch = Some sc \<Longrightarrow> sch_upd sch f s = Some (s\<lparr>scheds := (scheds s)(sch \<mapsto> f sc)\<rparr>)"
  by (simp add: sch_upd_def store_def)

lemma seq_upd_own:
  "seq_upd cheap_ok live items q c c' xs \<Longrightarrow> lists_only c c' \<Longrightarrow> cheap_ok c' \<and> own c' = own c"
  by (simp add: seq_upd_def lists_only_own)

subsection \<open>Memory for the next allocations\<close>

definition plenty :: "nat \<Rightarrow> lheap \<Rightarrow> bool" where
  "plenty n h \<longleftrightarrow> n \<le> length (answers h) \<and> distinct (take n (answers h)) \<and>
     (\<forall>a\<in>set (take n (answers h)). a \<noteq> NULL \<and> elems h a = None \<and> its h a = None)"

lemma plenty_alloc: "plenty (Suc n) h \<Longrightarrow> alloc_ok h"
  by (cases "answers h") (auto simp: plenty_def alloc_ok_def)

lemma plenty_mono: "plenty n h \<Longrightarrow> m \<le> n \<Longrightarrow> plenty m h"
  using set_take_subset_set_take [of m n "answers h"] distinct_take [of "take n (answers h)" m]
  by (auto simp: plenty_def min_absorb1)

lemma plenty_insert_mem: "plenty 2 h \<Longrightarrow> insert_mem h"
  by (cases "answers h"; cases "tl (answers h)") (auto simp: plenty_def insert_mem_def numeral_2_eq_2)

lemma list_add_frame:
  assumes "list_add l x h = Some (b, h')" "l \<noteq> NULL"
  shows "answers h' = tl (answers h) \<and> its h' = its h \<and>
         (\<forall>a. a \<noteq> hd (answers h) \<longrightarrow> elems h a = None \<longrightarrow> elems h' a = None)"
  using assms
  by (cases "answers h")
     (auto simp: list_add_def mem_alloc_def Let_def bind_eq_Some_conv elim!: storeE split: if_splits)

lemma plenty_add:
  assumes "plenty (Suc n) h" "list_add l x h = Some (b, h')" "l \<noteq> NULL"
  shows "plenty n h'"
proof -
  obtain a r where a: "answers h = a # r" using assms(1) by (cases "answers h") (auto simp: plenty_def)
  with list_add_frame [OF assms(2,3)] assms(1) show ?thesis
    by (auto simp: plenty_def)
qed

lemma plenty_queue_push:
  assumes "plenty (Suc n) (clh c)" "cheap_ok c" "queue_live c q" "queue_push q x c = Some (b, c')"
  shows "plenty n (clh c')"
  using assms plenty_add [OF assms(1), of "own c (Inl q)" x b "clh c'"]
  by (auto simp: queue_push_def with_queue_live on_lists_def queue_live_def bind_eq_Some_conv)

subsection \<open>A new thread\<close>

text \<open>The first step of \<open>sch_notify_new_thread\<close>: the thread joins the queue of its priority.\<close>

definition enqueued :: "ptr \<Rightarrow> ptr list \<Rightarrow> ptr list" where
  "enqueued t ts = (if t \<in> set ts then ts else ts @ [t])"

lemma enqueue_step:
  assumes wf: "sched_wf s sc" and t: "t \<noteq> NULL" "threads s t = Some x" "priority x = p"
    and mem: "plenty (Suc n) (clh (cols s))"
  shows "\<exists>b c. (do { present \<leftarrow> queue_contains (priority_queues sc p) t (cols s);
              if \<not> present then on_cols (queue_push (priority_queues sc p) t) s else Some (True, s) }) =
           Some (b, s\<lparr>cols := c\<rparr>) \<and> plenty n (clh c) \<and> own c = own (cols s) \<and>
           stack_items c = stack_items (cols s) \<and>
           queue_items c = (queue_items (cols s))(priority_queues sc p := enqueued t (ready s sc p)) \<and>
           sched_wf (s\<lparr>cols := c\<rparr>) sc"
proof -
  let ?q = "priority_queues sc p"
  have c: "cheap_ok (cols s)" and q: "queue_live (cols s) ?q" and
    ts: "distinct (ready s sc p)" "\<forall>t\<in>set (ready s sc p). t \<noteq> NULL \<and> (\<exists>x. threads s t = Some x \<and> priority x = p)"
    using wf by (auto simp: sched_wf_def)
  have present: "queue_contains ?q t (cols s) = Some (t \<in> set (ready s sc p))"
    using qs.contains_law [OF c q] by (simp add: ready_def)
  show ?thesis
  proof (cases "t \<in> set (ready s sc p)")
    case True
    then show ?thesis using present wf plenty_mono [OF mem, of n]
      by (intro exI [of _ True] exI [of _ "cols s"]) (auto simp: enqueued_def ready_def)
  next
    case False
    obtain c' where c': "queue_push ?q t (cols s) = Some (True, c')"
      "seq_upd cheap_ok queue_live queue_items ?q (cols s) c' (ready s sc p @ [t])"
      "stack_items c' = stack_items (cols s)" "lists_only (cols s) c'"
      using queue_push_effect [OF c q, of t] plenty_alloc [OF mem] by (auto simp: ready_def)
    have "sched_wf (s\<lparr>cols := c'\<rparr>) sc"
      by (rule sched_wf_update [OF wf, of c' p "ready s sc p @ [t]"])
         (use c' wf ts t False lists_only_own [OF c'(4)] in \<open>auto simp: seq_upd_def sched_wf_def sched_stack_def\<close>)
    then show ?thesis
      using present False c' lists_only_own [OF c'(4)] plenty_queue_push [OF mem c q c'(1)]
      by (intro exI [of _ True] exI [of _ c'])
         (auto simp: on_cols_def seq_upd_def enqueued_def)
  qed
qed

lemma notify_new_thread_unfold:
  assumes "sch \<noteq> NULL" "t \<noteq> NULL" "threads s t = Some x" "scheds s sch = Some sc"
    and "(do { present \<leftarrow> queue_contains (priority_queues sc (priority x)) t (cols s);
             if \<not> present then on_cols (queue_push (priority_queues sc (priority x)) t) s else Some (True, s) }) =
           Some (b, s1)"
  shows "sch_notify_new_thread sch t s =
    (if priority x > curr_priority sc then do {
       s2 \<leftarrow> sch_upd sch (\<lambda>y. y\<lparr>eval_new_thread := True, curr_priority := priority x,
                               curr_queue := priority_queues y (priority x)\<rparr>) s1;
       (_, s3) \<leftarrow> on_cols (stack_push (queue_stack sc) (priority_queues sc (priority x))) s2;
       Some s3
     }
     else if priority x < curr_priority sc then
       insert_lower_priority_queue_to_stack sch (priority x) (priority_queues sc (priority x)) s1
     else Some s1)"
proof -
  obtain pr where pr: "queue_contains (priority_queues sc (priority x)) t (cols s) = Some pr"
    and step: "(if \<not> pr then on_cols (queue_push (priority_queues sc (priority x)) t) s else Some (True, s)) = Some (b, s1)"
    using assms(5) by (cases "queue_contains (priority_queues sc (priority x)) t (cols s)") auto
  show ?thesis using assms(1-4)
    by (simp add: sch_notify_new_thread_def thread_get_priority_def thread_field_def Let_def pr step)
qed

lemma set_stack_inserted: "set (stack_inserted i q xs) \<subseteq> insert q (set xs)"
  by (auto simp: stack_inserted_def Let_def split: option.splits dest: in_set_takeD in_set_dropD)

text \<open>The state of the scheduler and its stack after a thread of priority \<open>p\<close> has become ready.\<close>

definition raised :: "scheduler_t \<Rightarrow> u8 \<Rightarrow> scheduler_t" where
  "raised sc p = (if p > curr_priority sc
     then sc\<lparr>eval_new_thread := True, curr_priority := p, curr_queue := priority_queues sc p\<rparr> else sc)"

definition raised_stack :: "(ptr \<Rightarrow> u8 option) \<Rightarrow> scheduler_t \<Rightarrow> u8 \<Rightarrow> ptr list \<Rightarrow> ptr list" where
  "raised_stack fp sc p st =
     (if p > curr_priority sc then st @ [priority_queues sc p]
      else if p < curr_priority sc
      then stack_inserted (lower_index fp p 0 st) (priority_queues sc p) st
      else st)"

lemma raised_fields [simp]:
  "priority_queues (raised sc p) = priority_queues sc" "queue_stack (raised sc p) = queue_stack sc"
  "curr_thread (raised sc p) = curr_thread sc" "idle_thread (raised sc p) = idle_thread sc"
  by (simp_all add: raised_def)

lemma sch_notify_new_thread_spec:
  assumes wf: "sched_wf s sc" and sc: "scheds s sch = Some sc" "sch \<noteq> NULL"
    and t: "t \<noteq> NULL" "threads s t = Some x" and mem: "plenty 3 (clh (cols s))"
  shows "\<exists>s'. sch_notify_new_thread sch t s = Some s' \<and>
           scheds s' = (scheds s)(sch \<mapsto> raised sc (priority x)) \<and> threads s' = threads s \<and>
           sched_wf s' (raised sc (priority x)) \<and>
           ready s' (raised sc (priority x)) =
             (ready s sc)(priority x := enqueued t (ready s sc (priority x))) \<and>
           sched_stack s' (raised sc (priority x)) =
             raised_stack (front_prio s') sc (priority x) (sched_stack s sc)"
proof -
  define p where "p = priority x"
  let ?q = "priority_queues sc p"
  have inj: "inj (priority_queues sc)" using wf by (simp add: sched_wf_def)
  have mem': "plenty (Suc 2) (clh (cols s))" using mem by (simp add: eval_nat_numeral)
  from enqueue_step [OF wf t p_def [symmetric] mem'] obtain b c1 where
    step: "(do { present \<leftarrow> queue_contains ?q t (cols s);
              if \<not> present then on_cols (queue_push ?q t) s else Some (True, s) }) = Some (b, s\<lparr>cols := c1\<rparr>)"
    and c1: "plenty 2 (clh c1)" "own c1 = own (cols s)" "stack_items c1 = stack_items (cols s)"
      "queue_items c1 = (queue_items (cols s))(?q := enqueued t (ready s sc p))"
    and wf1: "sched_wf (s\<lparr>cols := c1\<rparr>) sc"
    by blast
  define s1 where "s1 = s\<lparr>cols := c1\<rparr>"
  have s1: "scheds s1 sch = Some sc" "threads s1 = threads s" "cols s1 = c1" "scheds s1 = scheds s"
    using sc by (simp_all add: s1_def)
  note wf1 = wf1 [folded s1_def]
  note unfold = notify_new_thread_unfold [OF sc(2) t sc(1) step [unfolded p_def], folded s1_def p_def]
  have stk1: "sched_stack s1 sc = sched_stack s sc" by (simp add: sched_stack_def s1_def c1)
  have rdy1: "ready s1 sc = (ready s sc)(p := enqueued t (ready s sc p))"
    using inj by (auto simp: ready_def s1_def c1 fun_eq_iff inj_eq)
  have c1ok: "cheap_ok c1" and kl: "stack_live c1 (queue_stack sc)"
    and stkr: "set (sched_stack s1 sc) \<subseteq> range (priority_queues sc)"
    using wf1 s1(3) by (auto simp: sched_wf_def)
  consider "p > curr_priority sc" | "p < curr_priority sc" | "p = curr_priority sc" by (meson linorder_less_linear)
  then show ?thesis
  proof cases
    case 1
    have "alloc_ok (clh c1)" using c1(1) plenty_alloc [of 1] by (simp add: numeral_2_eq_2)
    then obtain c2 where c2: "stack_push (queue_stack sc) ?q c1 = Some (True, c2)"
      "seq_upd cheap_ok stack_live stack_items (queue_stack sc) c1 c2 (stack_items c1 (queue_stack sc) @ [?q])"
      "queue_items c2 = queue_items c1" "lists_only c1 c2"
      using stack_push_effect [OF c1ok kl, of ?q] by auto
    define s' where "s' = s1\<lparr>scheds := (scheds s1)(sch \<mapsto> raised sc p), cols := c2\<rparr>"
    have "sch_notify_new_thread sch t s = Some s'"
      using unfold 1 s1 c2(1) by (simp add: sch_upd_Some on_cols_def s'_def raised_def)
    moreover have "sched_wf s' (raised sc p)"
      by (rule sched_wf_same_queues [OF wf1, of c2])
         (use c2 stkr 1 s1 lists_only_own [OF c2(4)] in \<open>auto simp: seq_upd_def s'_def raised_def sched_stack_def\<close>)
    moreover have "ready s' (raised sc p) = ready s1 sc" by (simp add: ready_def s'_def c2 s1 fun_eq_iff)
    moreover have "sched_stack s' (raised sc p) = sched_stack s sc @ [?q]"
      using c2(2) by (simp add: sched_stack_def s'_def seq_upd_def c1)
    ultimately show ?thesis using 1 rdy1
      by (intro exI [of _ s']) (simp add: s'_def s1 raised_stack_def p_def)
  next
    case 2
    from insert_lower_spec [OF _ s1(1), of p ?q] wf1 sched_wf_fronts [OF wf1] plenty_insert_mem [OF c1(1)]
    obtain c2 where c2: "insert_lower_priority_queue_to_stack sch p ?q s1 = Some (s1\<lparr>cols := c2\<rparr>)"
      "cheap_ok c2" "own c2 = own c1" "queue_items c2 = queue_items c1"
      "stack_items c2 = (stack_items c1)(queue_stack sc := stack_inserted
        (lower_index (front_prio s1) p 0 (sched_stack s1 sc)) ?q (sched_stack s1 sc))"
      by (auto simp: sched_wf_def sched_stack_def s1)
    define s' where "s' = s1\<lparr>cols := c2\<rparr>"
    have n2: "\<not> curr_priority sc < p" using 2 by (rule less_not_sym)
    then have r: "raised sc p = sc" by (simp add: raised_def)
    have fp: "front_prio s' = front_prio s1" 
      by (simp add: front_prio_def s'_def c2 s1 fun_eq_iff cong: list.case_cong)
    have "sch_notify_new_thread sch t s = Some s'" using unfold 2 n2 c2(1) by (simp add: s'_def)
    moreover have "sched_wf s' sc"
    proof (rule sched_wf_same_queues [OF wf1, of c2])
      show "set (stack_items c2 (queue_stack sc)) \<subseteq> range (priority_queues sc)"
        using set_stack_inserted [of _ ?q "sched_stack s1 sc"] stkr by (fastforce simp: c2)
    qed (use c2 s1 wf1 in \<open>auto simp: s'_def sched_wf_def\<close>)
    moreover have "ready s' sc = ready s1 sc" by (simp add: ready_def s'_def c2 s1 fun_eq_iff)
    moreover have "sched_stack s' sc = raised_stack (front_prio s') sc p (sched_stack s sc)"
      using 2 n2 unfolding fp by (simp add: raised_stack_def) (simp add: sched_stack_def s'_def c2 s1 c1)
    ultimately show ?thesis using rdy1 sc(1)
      by (intro exI [of _ s']) (simp add: r p_def [symmetric], simp add: s'_def s1 fun_upd_idem)
  next
    case 3
    then show ?thesis using unfold wf1 rdy1 stk1 sc(1)
      by (intro exI [of _ s1]) (simp add: raised_def raised_stack_def p_def [symmetric] s1 fun_upd_idem)
  qed
qed

end
