(* ===== verification/Sched_Exit.thy ===== *)
theory Sched_Exit
  imports Sched_Correct
begin

section \<open>Threads that leave the scheduler\<close>

text \<open>
  \<open>sch_notify_exit_thread\<close> (also used when a thread blocks) and the search for the next queue.
  \<open>sched_step\<close> says that a function has changed the collections and the scheduling data of one
  scheduler only, and kept its invariant.
\<close>

definition sched_step :: "ptr \<Rightarrow> kst \<Rightarrow> scheduler_t \<Rightarrow> kst \<Rightarrow> scheduler_t \<Rightarrow> bool" where
  "sched_step sch s sc s' sc' \<longleftrightarrow>
     scheds s' = (scheds s)(sch \<mapsto> sc') \<and> threads s' = threads s \<and> contexts s' = contexts s \<and>
     processes s' = processes s \<and> hw s' = hw s \<and> k_answers s' = k_answers s \<and>
     priority_queues sc' = priority_queues sc \<and> queue_stack sc' = queue_stack sc \<and>
     curr_thread sc' = curr_thread sc \<and> idle_thread sc' = idle_thread sc \<and> sched_wf s' sc'"

lemma sched_step_trans:
  assumes "sched_step sch s sc s1 sc1" "sched_step sch s1 sc1 s2 sc2"
  shows "sched_step sch s sc s2 sc2"
  using assms by (auto simp: sched_step_def)

lemma sched_step_sched: "sched_step sch s sc s' sc' \<Longrightarrow> scheds s' sch = Some sc' \<and> sched_wf s' sc'"
  by (simp add: sched_step_def)

lemma sched_step_threads: "sched_step sch s sc s' sc' \<Longrightarrow> threads s' = threads s"
  by (simp add: sched_step_def)

lemma sched_step_refl: "sched_wf s sc \<Longrightarrow> scheds s sch = Some sc \<Longrightarrow> sched_step sch s sc s sc"
  by (simp add: sched_step_def fun_upd_idem)

text \<open>An update of fields of the scheduler that keeps the current queue a queue of its own.\<close>

lemma sched_step_fields:
  assumes wf: "sched_wf s sc" and sc: "scheds s sch = Some sc"
    and f: "priority_queues (f sc) = priority_queues sc" "queue_stack (f sc) = queue_stack sc"
      "curr_thread (f sc) = curr_thread sc" "idle_thread (f sc) = idle_thread sc"
      "curr_queue (f sc) \<in> range (priority_queues sc)"
  shows "\<exists>s'. sch_upd sch f s = Some s' \<and> sched_step sch s sc s' (f sc) \<and> cols s' = cols s"
proof -
  have "sched_wf (s\<lparr>scheds := (scheds s)(sch \<mapsto> f sc)\<rparr>) (f sc)"
    by (rule sched_wf_same_queues [OF wf, of "cols s"]) (use wf f in \<open>auto simp: sched_wf_def sched_stack_def\<close>)
  then show ?thesis using f by (simp add: sch_upd_Some [OF sc] sched_step_def)
qed

subsection \<open>The stack of the scheduler\<close>

lemma sch_stack_pop_spec:
  assumes wf: "sched_wf s sc" and sc: "scheds s sch = Some sc"
  shows "\<exists>s' sc'. sch_stack_pop sch s = Some (sched_stack s sc \<noteq> [], s') \<and> sched_step sch s sc s' sc' \<and>
           sc' = sc\<lparr>curr_queue := (if sched_stack s sc = [] then curr_queue sc else last (sched_stack s sc))\<rparr> \<and>
           queue_items (cols s') = queue_items (cols s) \<and> sched_stack s' sc' = butlast (sched_stack s sc)"
proof -
  have c: "cheap_ok (cols s)" and k: "stack_live (cols s) (queue_stack sc)"
    and r: "set (sched_stack s sc) \<subseteq> range (priority_queues sc)" "curr_queue sc \<in> range (priority_queues sc)"
    using wf by (auto simp: sched_wf_def)
  obtain c' where c': "stack_pop (queue_stack sc) (cols s) =
      Some (if sched_stack s sc = [] then None else Some (last (sched_stack s sc)), c')"
    "seq_upd cheap_ok stack_live stack_items (queue_stack sc) (cols s) c' (butlast (sched_stack s sc))"
    "queue_items c' = queue_items (cols s)" "lists_only (cols s) c'"
    using stack_pop_effect [OF c k] unfolding sched_stack_def by blast
  define sc' where "sc' = sc\<lparr>curr_queue := (if sched_stack s sc = [] then curr_queue sc else last (sched_stack s sc))\<rparr>"
  define s' where "s' = s\<lparr>cols := c', scheds := (scheds s)(sch \<mapsto> sc')\<rparr>"
  have range: "curr_queue sc' \<in> range (priority_queues sc)"
    using r last_in_set [of "sched_stack s sc"] by (auto simp: sc'_def)
  have "sched_wf s' sc'"
    by (rule sched_wf_same_queues [OF wf, of c'])
       (use c' r range lists_only_own [OF c'(4)] in_set_butlastD in
         \<open>fastforce simp: s'_def sc'_def seq_upd_def\<close>)+
  then have step: "sched_step sch s sc s' sc'" by (simp add: sched_step_def s'_def sc'_def)
  have "sch_stack_pop sch s = Some (sched_stack s sc \<noteq> [], s')"
  proof (cases "sched_stack s sc = []")
    case True
    then have "sc' = sc" by (simp add: sc'_def)
    then show ?thesis using True sc c'(1) by (simp add: sch_stack_pop_def on_cols_def s'_def fun_upd_idem)
  next
    case False
    then show ?thesis using sc c'(1)
      by (simp add: sch_stack_pop_def on_cols_def s'_def sc'_def sch_upd_def store_def)
  qed
  then show ?thesis
    using step c' by (intro exI [of _ s'] exI [of _ sc']) (auto simp: s'_def sc'_def sched_stack_def seq_upd_def)
qed

lemma sch_stack_front_spec:
  assumes wf: "sched_wf s sc" and sc: "scheds s sch = Some sc"
  shows "\<exists>s' sc'. sch_stack_front sch s = Some (sched_stack s sc \<noteq> [], s') \<and> sched_step sch s sc s' sc' \<and>
           sc' = sc\<lparr>curr_queue := (if sched_stack s sc = [] then curr_queue sc else last (sched_stack s sc))\<rparr> \<and>
           cols s' = cols s"
proof -
  have c: "cheap_ok (cols s)" and k: "stack_live (cols s) (queue_stack sc)"
    and r: "set (sched_stack s sc) \<subseteq> range (priority_queues sc)"
    using wf by (auto simp: sched_wf_def)
  note front = st.front_law [OF c k]
  show ?thesis
  proof (cases "sched_stack s sc = []")
    case True
    then show ?thesis using sc front sched_step_refl [OF wf sc]
      by (simp add: sch_stack_front_def sched_stack_def)
  next
    case False
    let ?f = "\<lambda>x. x\<lparr>curr_queue := last (sched_stack s sc)\<rparr>"
    have "last (sched_stack s sc) \<in> range (priority_queues sc)" using r False last_in_set by blast
    then obtain s' where "sch_upd sch ?f s = Some s'" "sched_step sch s sc s' (?f sc)" "cols s' = cols s"
      using sched_step_fields [OF wf sc, of ?f] by auto
    then show ?thesis using False sc front by (auto simp: sch_stack_front_def sched_stack_def)
  qed
qed

subsection \<open>The search for the next queue\<close>

declare sch_find_queue.simps [simp del]

lemma word_less_pred: "(q :: u8) \<noteq> 0 \<Longrightarrow> r < q \<longleftrightarrow> r \<le> q - 1"
  by (simp add: word_less_nat_alt word_le_nat_alt unat_minus_one) (metis Suc_pred less_Suc_eq_le unat_gt_0)

lemma sch_find_queue_spec:
  assumes "cheap_ok c" "\<forall>p. queue_live c (qs p)"
  shows "\<exists>p'. sch_find_queue qs p c = Some (p', qs p') \<and> p' \<le> p - 1 \<and>
           (p' = 0 \<or> queue_items c (qs p') \<noteq> []) \<and>
           (\<forall>r. p' < r \<and> r \<le> p - 1 \<longrightarrow> queue_items c (qs r) = [])"
  using assms
proof (induction qs p c rule: sch_find_queue.induct)
  case (1 qs p c)
  let ?n = "of_nat (length (queue_items c (qs (p - 1)))) :: u32"
  have size: "queue_size (qs (p - 1)) c = Some ?n"
    using qs.size_law 1(2,3) by blast
  have zero: "?n = 0 \<longleftrightarrow> queue_items c (qs (p - 1)) = []"
    using qs.size_zero [OF 1(2) _ size] 1(3) by blast
  show ?case
  proof (cases "?n \<noteq> 0 \<or> p - 1 = 0")
    case True
    then have "sch_find_queue qs p c = Some (p - 1, qs (p - 1))"
      using size by (subst sch_find_queue.simps) auto
    then show ?thesis using True zero by auto
  next
    case False
    then obtain p' where p': "sch_find_queue qs (p - 1) c = Some (p', qs p')" "p' \<le> p - 1 - 1"
      "p' = 0 \<or> queue_items c (qs p') \<noteq> []" "\<forall>r. p' < r \<and> r \<le> p - 1 - 1 \<longrightarrow> queue_items c (qs r) = []"
      using 1(1) [OF size False 1(2,3)] by blast
    have ne: "p - 1 \<noteq> 0" using False by blast
    have "sch_find_queue qs p c = Some (p', qs p')"
      using size False p'(1) by (subst sch_find_queue.simps) simp
    moreover have "p' \<le> p - 1" using word_less_pred [OF ne, of p'] p'(2) by simp
    moreover have "queue_items c (qs r) = []" if "p' < r" "r \<le> p - 1" for r
      using that p'(4) word_less_pred [OF ne, of r] False zero by (cases "r = p - 1") auto
    ultimately show ?thesis using p'(3) by blast
  qed
qed

lemma sch_priority_find_next_queue_spec:
  assumes wf: "sched_wf s sc" and sc: "scheds s sch = Some sc"
    and t: "t \<noteq> NULL" "threads s t = Some x"
  shows "\<exists>s' p'. sch_priority_find_next_queue sch t s = Some s' \<and>
           sched_step sch s sc s' (sc\<lparr>curr_priority := p', curr_queue := priority_queues sc p'\<rparr>) \<and>
           queue_items (cols s') = queue_items (cols s) \<and>
           (p' = 0 \<or> ready s sc p' \<noteq> []) \<and> (\<forall>r. p' < r \<and> r \<le> priority x - 1 \<longrightarrow> ready s sc r = [])"
proof -
  have c: "cheap_ok (cols s)" and k: "stack_live (cols s) (queue_stack sc)"
    and live: "\<forall>p. queue_live (cols s) (priority_queues sc p)"
    and r: "set (sched_stack s sc) \<subseteq> range (priority_queues sc)"
    using wf by (auto simp: sched_wf_def)
  obtain p' where p': "sch_find_queue (priority_queues sc) (priority x) (cols s) = Some (p', priority_queues sc p')"
    "p' = 0 \<or> ready s sc p' \<noteq> []" "\<forall>r. p' < r \<and> r \<le> priority x - 1 \<longrightarrow> ready s sc r = []"
    using sch_find_queue_spec [OF c live, of "priority x"] unfolding ready_def by blast
  let ?f = "\<lambda>x. x\<lparr>curr_priority := p', curr_queue := priority_queues sc p'\<rparr>"
  obtain s1 where s1: "sch_upd sch ?f s = Some s1" "sched_step sch s sc s1 (?f sc)" "cols s1 = cols s"
    using sched_step_fields [OF wf sc, of ?f] by auto
  obtain c' b where c': "stack_push (queue_stack sc) (priority_queues sc p') (cols s1) = Some (b, c')"
    "seq_upd cheap_ok stack_live stack_items (queue_stack sc) (cols s) c'
       (if b then sched_stack s sc @ [priority_queues sc p'] else sched_stack s sc)"
    "queue_items c' = queue_items (cols s)" "lists_only (cols s) c'"
    using stack_push_effect [OF c k, of "priority_queues sc p'"] s1(3) unfolding sched_stack_def by auto
  define s' where "s' = s1\<lparr>cols := c'\<rparr>"
  have wf1: "sched_wf s1 (?f sc)" using s1(2) by (simp add: sched_step_def)
  have "sched_wf s' (?f sc)"
    by (rule sched_wf_same_queues [OF wf1, of c'])
       (use c' s1(3) lists_only_own [OF c'(4)] r in \<open>auto simp: s'_def seq_upd_def\<close>)
  then have "sched_step sch s sc s' (?f sc)" using s1(2) by (simp add: sched_step_def s'_def)
  moreover have "sch_priority_find_next_queue sch t s = Some s'"
    using t sc p'(1) s1(1) c'(1)
    by (simp add: sch_priority_find_next_queue_def thread_get_priority_def thread_field_def on_cols_def s'_def)
  ultimately show ?thesis using p'(2,3) c'(3) by (intro exI [of _ s'] exI [of _ p']) (simp add: s'_def)
qed

subsection \<open>A thread exits or blocks\<close>

lemma front_prio_cong:
  "queue_items (cols s') = queue_items (cols s) \<Longrightarrow> threads s' = threads s \<Longrightarrow> front_prio s' = front_prio s"
  by (simp add: fun_eq_iff front_prio_def cong: list.case_cong)

lemma sched_wf_thread:
  "sched_wf s sc \<Longrightarrow> t \<in> set (ready s sc p) \<Longrightarrow> t \<noteq> NULL \<and> (\<exists>x. threads s t = Some x \<and> priority x = p)"
  by (simp add: sched_wf_def)

lemma front_thread_priority:
  assumes "sched_wf s sc" "q \<in> range (priority_queues sc)"
  shows "\<exists>first. queue_front q (cols s) = Some first \<and>
           (case first of Some f \<Rightarrow> thread_get_priority f s | None \<Rightarrow> Some 0) =
             Some (case front_prio s q of None \<Rightarrow> 0 | Some p \<Rightarrow> p)"
proof -
  obtain p where q: "q = priority_queues sc p" using assms(2) by auto
  have front: "queue_front q (cols s) = Some (case ready s sc p of [] \<Rightarrow> None | x # _ \<Rightarrow> Some x)"
    using qs.front_law [of "cols s" q] assms(1) q by (auto simp: sched_wf_def ready_def)
  show ?thesis
  proof (cases "ready s sc p")
    case Nil
    then show ?thesis using front q by (simp add: front_prio_def ready_def)
  next
    case (Cons f fs)
    then obtain x where "f \<noteq> NULL" "threads s f = Some x" "priority x = p"
      using sched_wf_thread [OF assms(1), of f p] by auto
    then show ?thesis using front q Cons
      by (simp add: front_prio_def ready_def thread_get_priority_def thread_field_def)
  qed
qed

text \<open>The scheduler and its stack after the last thread of the current queue has left.\<close>

lemma next_queue_spec:
  assumes wf: "sched_wf s sc" and sc: "scheds s sch = Some sc"
    and t: "t \<noteq> NULL" "threads s t = Some x"
  shows "\<exists>s' sc'. (do {
            (_, s) \<leftarrow> sch_stack_pop sch s;
            (ok, s) \<leftarrow> sch_stack_front sch s;
            if ok then do {
              sc \<leftarrow> scheds s sch;
              first \<leftarrow> queue_front (curr_queue sc) (cols s);
              p \<leftarrow> (case first of Some f \<Rightarrow> thread_get_priority f s | None \<Rightarrow> Some 0);
              sch_upd sch (\<lambda>x. x\<lparr>curr_priority := p\<rparr>) s
            }
            else sch_priority_find_next_queue sch t s }) = Some s' \<and>
         sched_step sch s sc s' sc' \<and> queue_items (cols s') = queue_items (cols s) \<and>
         eval_new_thread sc' = eval_new_thread sc \<and>
         (if butlast (sched_stack s sc) \<noteq> []
          then curr_queue sc' = last (butlast (sched_stack s sc)) \<and>
               curr_priority sc' = (case front_prio s (curr_queue sc') of None \<Rightarrow> 0 | Some p \<Rightarrow> p)
          else curr_queue sc' = priority_queues sc (curr_priority sc') \<and>
               (curr_priority sc' = 0 \<or> ready s sc (curr_priority sc') \<noteq> []) \<and>
               (\<forall>r. curr_priority sc' < r \<and> r \<le> priority x - 1 \<longrightarrow> ready s sc r = []))"
proof -
  obtain s1 sc1 where pop: "sch_stack_pop sch s = Some (sched_stack s sc \<noteq> [], s1)"
    and st1: "sched_step sch s sc s1 sc1" "eval_new_thread sc1 = eval_new_thread sc"
      "queue_items (cols s1) = queue_items (cols s)" "sched_stack s1 sc1 = butlast (sched_stack s sc)"
    using sch_stack_pop_spec [OF wf sc] by auto
  have sc1: "scheds s1 sch = Some sc1" and wf1: "sched_wf s1 sc1" using sched_step_sched [OF st1(1)] by auto
  obtain s2 sc2 where front: "sch_stack_front sch s1 = Some (sched_stack s1 sc1 \<noteq> [], s2)"
    and st2: "sched_step sch s1 sc1 s2 sc2" "cols s2 = cols s1"
    and sc2d: "sc2 = sc1\<lparr>curr_queue := (if sched_stack s1 sc1 = [] then curr_queue sc1 else last (sched_stack s1 sc1))\<rparr>"
    using sch_stack_front_spec [OF wf1 sc1] by blast
  have sc2: "scheds s2 sch = Some sc2" and wf2: "sched_wf s2 sc2" using sched_step_sched [OF st2(1)] by auto
  note st12 = sched_step_trans [OF st1(1) st2(1)]
  have th: "threads s2 = threads s" using sched_step_threads [OF st12] .
  have qi: "queue_items (cols s2) = queue_items (cols s)" using st1(3) st2(2) by simp
  have pq: "priority_queues sc2 = priority_queues sc" using st12 by (simp add: sched_step_def)
  have rd: "ready s2 sc2 = ready s sc" by (simp add: fun_eq_iff ready_def qi pq)
  have fp: "front_prio s2 = front_prio s" using qi th by (rule front_prio_cong)
  show ?thesis
  proof (cases "butlast (sched_stack s sc) = []")
    case True
    obtain s3 p' where f: "sch_priority_find_next_queue sch t s2 = Some s3"
      "sched_step sch s2 sc2 s3 (sc2\<lparr>curr_priority := p', curr_queue := priority_queues sc2 p'\<rparr>)"
      "queue_items (cols s3) = queue_items (cols s2)"
      "p' = 0 \<or> ready s sc p' \<noteq> []" "\<forall>r. p' < r \<and> r \<le> priority x - 1 \<longrightarrow> ready s sc r = []"
      using sch_priority_find_next_queue_spec [OF wf2 sc2 t(1)] t(2) th rd by auto
    show ?thesis
      using True pop front st1(4) f qi sched_step_trans [OF st12 f(2)] st1(2) pq
      by (intro exI [of _ s3] exI [of _ "sc2\<lparr>curr_priority := p', curr_queue := priority_queues sc2 p'\<rparr>"])
         (simp add: sc2d)
  next
    case False
    have "curr_queue sc2 \<in> range (priority_queues sc2)" using wf2 pq by (simp add: sched_wf_def)
    from front_thread_priority [OF wf2 this] obtain first p where
      first: "queue_front (curr_queue sc2) (cols s2) = Some first"
        "(case first of Some f \<Rightarrow> thread_get_priority f s2 | None \<Rightarrow> Some 0) = Some p"
        "p = (case front_prio s (curr_queue sc2) of None \<Rightarrow> 0 | Some p \<Rightarrow> p)" by (auto simp: fp)
    let ?f = "\<lambda>x. x\<lparr>curr_priority := p\<rparr>"
    obtain s3 where s3: "sch_upd sch ?f s2 = Some s3" "sched_step sch s2 sc2 s3 (?f sc2)" "cols s3 = cols s2"
      using sched_step_fields [OF wf2 sc2, of ?f] wf2 by (auto simp: sched_wf_def)
    show ?thesis
      using False pop front st1(2,4) sc2 first s3 qi sched_step_trans [OF st12 s3(2)]
      by (intro exI [of _ s3] exI [of _ "?f sc2"]) (simp add: sc2d)
  qed
qed

lemma dequeue_step:
  assumes wf: "sched_wf s sc" and sc: "scheds s sch = Some sc"
  shows "\<exists>s'. on_cols (queue_remove (priority_queues sc p) t) s = Some (t \<in> set (ready s sc p), s') \<and>
           sched_step sch s sc s' sc \<and> sched_stack s' sc = sched_stack s sc \<and>
           queue_items (cols s') = (queue_items (cols s))(priority_queues sc p := remove1 t (ready s sc p)) \<and>
           ready s' sc = (ready s sc)(p := remove1 t (ready s sc p))"
proof -
  let ?q = "priority_queues sc p"
  have c: "cheap_ok (cols s)" and q: "queue_live (cols s) ?q" and inj: "inj (priority_queues sc)" and
    ts: "distinct (ready s sc p)" "\<forall>t\<in>set (ready s sc p). t \<noteq> NULL \<and> (\<exists>x. threads s t = Some x \<and> priority x = p)"
    using wf by (auto simp: sched_wf_def)
  obtain c' where c': "queue_remove ?q t (cols s) = Some (t \<in> set (ready s sc p), c')"
    "seq_upd cheap_ok queue_live queue_items ?q (cols s) c' (remove1 t (ready s sc p))"
    "stack_items c' = stack_items (cols s)" "lists_only (cols s) c'"
    using queue_remove_effect [OF c q, of t] unfolding ready_def by blast
  define s' where "s' = s\<lparr>cols := c'\<rparr>"
  have "sched_wf s' sc"
    by (rule sched_wf_update [OF wf, of c' p "remove1 t (ready s sc p)"])
       (use c' ts wf lists_only_own [OF c'(4)] notin_set_remove1 in
         \<open>auto simp: s'_def seq_upd_def sched_wf_def sched_stack_def dest: in_set_remove1\<close>)
  then have "sched_step sch s sc s' sc" using sc by (simp add: sched_step_def s'_def fun_upd_idem)
  moreover have "queue_items c' = (queue_items (cols s))(?q := remove1 t (ready s sc p))"
    using c'(2) by (simp add: seq_upd_def)
  ultimately show ?thesis using c' inj
    by (intro exI [of _ s']) (auto simp: s'_def on_cols_def sched_stack_def ready_def fun_eq_iff inj_eq)
qed

lemma sch_notify_exit_thread_spec:
  assumes wf: "sched_wf s sc" and sc: "scheds s sch = Some sc"
    and t: "t \<noteq> NULL" "threads s t = Some x"
  shows "\<exists>s' sc'. sch_notify_exit_thread sch t s = Some s' \<and> sched_step sch s sc s' sc' \<and>
           ready s' sc' = (ready s sc)(priority x := remove1 t (ready s sc (priority x))) \<and>
           (t \<in> set (ready s sc (priority x)) \<longrightarrow> eval_new_thread sc') \<and>
           (t \<notin> set (ready s sc (priority x)) \<longrightarrow> sc' = sc)"
proof -
  define p where "p = priority x"
  obtain s1 where rem: "on_cols (queue_remove (priority_queues sc p) t) s = Some (t \<in> set (ready s sc p), s1)"
    and st1: "sched_step sch s sc s1 sc"
    and r1: "ready s1 sc = (ready s sc)(p := remove1 t (ready s sc p))"
    using dequeue_step [OF wf sc, of p t] by blast
  have unfold: "sch_notify_exit_thread sch t s = (if t \<notin> set (ready s sc p) then Some s1 else do {
          s \<leftarrow> sch_upd sch (\<lambda>x. x\<lparr>eval_new_thread := True\<rparr>) s1;
          sz \<leftarrow> queue_size (curr_queue sc) (cols s);
          if sz \<noteq> 0 then Some s
          else do {
            (_, s) \<leftarrow> sch_stack_pop sch s;
            (ok, s) \<leftarrow> sch_stack_front sch s;
            if ok then do {
              sc \<leftarrow> scheds s sch;
              first \<leftarrow> queue_front (curr_queue sc) (cols s);
              p \<leftarrow> (case first of Some f \<Rightarrow> thread_get_priority f s | None \<Rightarrow> Some 0);
              sch_upd sch (\<lambda>x. x\<lparr>curr_priority := p\<rparr>) s
            }
            else sch_priority_find_next_queue sch t s
          }})"
    using t sc rem
    by (simp add: sch_notify_exit_thread_def thread_get_priority_def thread_field_def p_def)
  show ?thesis
  proof (cases "t \<in> set (ready s sc p)")
    case False
    then show ?thesis using unfold st1 r1 by (simp add: p_def [symmetric])
  next
    case True
    let ?f = "\<lambda>x. x\<lparr>eval_new_thread := True\<rparr>"
    have wf1: "sched_wf s1 sc" "scheds s1 sch = Some sc" using sched_step_sched [OF st1] by auto
    obtain s2 where s2: "sch_upd sch ?f s1 = Some s2" "sched_step sch s1 sc s2 (?f sc)" "cols s2 = cols s1"
      using sched_step_fields [OF wf1, of ?f] wf1 by (auto simp: sched_wf_def)
    have wf2: "sched_wf s2 (?f sc)" "scheds s2 sch = Some (?f sc)" using sched_step_sched [OF s2(2)] by auto
    note st12 = sched_step_trans [OF st1 s2(2)]
    have r2: "ready s2 (?f sc) = ready s1 sc" by (simp add: ready_def s2(3) fun_eq_iff)
    have "queue_live (cols s2) (curr_queue sc)" "cheap_ok (cols s2)"
      using wf2(1) by (auto simp: sched_wf_def)
    then obtain sz where sz: "queue_size (curr_queue sc) (cols s2) = Some sz" using qs.size_law by blast
    show ?thesis
    proof (cases "sz = 0")
      case False
      then show ?thesis using True unfold s2(1) sz st12 r1 r2 by (force simp: p_def [symmetric])
    next
      case zero: True
      have "threads s2 t = Some x" using sched_step_threads [OF st12] t(2) by simp
      from next_queue_spec [OF wf2 t(1) this] obtain s3 sc3 where
        s3: "sch_notify_exit_thread sch t s = Some s3" "sched_step sch s2 (?f sc) s3 sc3"
          "queue_items (cols s3) = queue_items (cols s2)" "eval_new_thread sc3"
        using True unfold s2(1) sz zero by auto
      have "ready s3 sc3 = ready s2 (?f sc)"
        using s3(2,3) by (simp add: ready_def sched_step_def fun_eq_iff)
      then show ?thesis using s3 sched_step_trans [OF st12 s3(2)] r1 r2 True by (force simp: p_def [symmetric])
    qed
  qed
qed

end
