(* ===== verification/Sched_Switch.thy ===== *)
theory Sched_Switch
  imports Sched_Exit
begin

section \<open>Switching threads\<close>

text \<open>
  \<open>queue_reorder_first\<close> as the scheduler uses it, the choice of the next thread, and the
  exchange of the machine contexts.
\<close>

definition queue_back :: "cheap \<Rightarrow> ptr \<Rightarrow> bool" where
  "queue_back c q \<longleftrightarrow> list_back (clh c) (own c (Inl q))"

definition swapped :: "'a list \<Rightarrow> 'a list" where
  "swapped xs = (if length xs \<le> 1 then xs else last xs # butlast (tl xs) @ [hd xs])"

lemma swapped_short: "length xs \<le> 1 \<Longrightarrow> swapped xs = xs"
  by (simp add: swapped_def)

lemma swapped_ends [simp]: "swapped (a # ms @ [b]) = b # ms @ [a]"
  by (simp add: swapped_def butlast_append)

lemma two_ends:
  assumes "\<not> length xs \<le> 1"
  obtains a ms b where "xs = a # ms @ [b]"
  using assms that by (cases xs; cases "tl xs" rule: rev_cases) auto

lemma swapped_perm: "set (swapped xs) = set xs \<and> distinct (swapped xs) = distinct xs"
proof (cases "length xs \<le> 1")
  case False
  then obtain a ms b where "xs = a # ms @ [b]" by (rule two_ends)
  then show ?thesis by auto
qed (simp add: swapped_short)

lemma queue_reorder_effect:
  assumes c: "cheap_ok c" and q: "queue_live c q" and len: "length (queue_items c q) \<noteq> 2"
    and bk: "queue_back c q"
  shows "\<exists>c'. queue_reorder_first q c = Some (True, c') \<and>
           seq_upd cheap_ok queue_live queue_items q c c' (swapped (queue_items c q)) \<and>
           stack_items c' = stack_items c \<and> lists_only c c' \<and> queue_back c' q"
proof -
  note ok = queue_list_ok [OF c q]
  have "\<exists>h. list_head_to_tail (own c (Inl q)) (clh c) = Some (True, h) \<and>
          list_becomes (own c (Inl q)) (clh c) h (swapped (queue_items c q)) \<and> list_back h (own c (Inl q))"
  proof (cases "length (queue_items c q) \<le> 1")
    case True
    then show ?thesis
      using list_head_to_tail_short [OF ok] list_becomes_refl [OF ok] bk
      by (auto simp: queue_items_def swapped_def queue_back_def)
  next
    case False
    then have "3 \<le> length (list_items (clh c) (own c (Inl q)))" using len by (auto simp: queue_items_def)
    with list_head_to_tail_spec [OF ok bk [unfolded queue_back_def]] False show ?thesis
      by (auto simp: swapped_def queue_items_def)
  qed
  then obtain h where h: "list_head_to_tail (own c (Inl q)) (clh c) = Some (True, h)"
    "list_becomes (own c (Inl q)) (clh c) h (swapped (queue_items c q))" "list_back h (own c (Inl q))"
    by blast
  then show ?thesis
    using queue_upd [OF c q h(2)] lists_onlyI [OF h(2)]
    by (auto simp: queue_reorder_first_def with_queue_live [OF c q] on_lists_def queue_back_def)
qed

text \<open>
  Serving a queue \<open>n\<close> times the way \<open>sch_set_context_for_next_thread\<close> does: the front is the
  thread to run, then the queue is reordered.
\<close>

primrec serve :: "nat \<Rightarrow> ptr \<Rightarrow> cheap \<Rightarrow> (ptr list \<times> cheap) option" where
  "serve 0 q c = Some ([], c)"
| "serve (Suc n) q c = do {
     first \<leftarrow> queue_front q c;
     (ok, c) \<leftarrow> queue_reorder_first q c;
     (ts, c) \<leftarrow> serve n q c;
     Some ((case first of None \<Rightarrow> ts | Some t \<Rightarrow> t # ts), c)
   }"

primrec alternate :: "nat \<Rightarrow> 'a \<Rightarrow> 'a \<Rightarrow> 'a list" where
  "alternate 0 a b = []"
| "alternate (Suc n) a b = a # alternate n b a"

lemma set_alternate: "set (alternate n a b) \<subseteq> {a, b}"
  by (induction n arbitrary: a b) auto

lemma serve_alternates:
  assumes "cheap_ok c" "queue_live c q" "queue_back c q" "queue_items c q = a # ms @ [b]" "ms \<noteq> []"
  shows "\<exists>c'. serve n q c = Some (alternate n a b, c')"
  using assms
proof (induction n arbitrary: c a b)
  case 0
  then show ?case by simp
next
  case (Suc n)
  have "length (queue_items c q) \<noteq> 2" using Suc.prems(4,5) by (cases ms) auto
  from queue_reorder_effect [OF Suc.prems(1,2) this Suc.prems(3)] obtain c1 where
    c1: "queue_reorder_first q c = Some (True, c1)" "cheap_ok c1" "queue_live c1 q" "queue_back c1 q"
      "queue_items c1 q = b # ms @ [a]"
    using Suc.prems by (auto simp: seq_upd_def swapped_def butlast_append)
  from Suc.IH [OF c1(2-5) Suc.prems(5)] obtain c2 where "serve n q c1 = Some (alternate n b a, c2)" by blast
  then show ?case using c1(1) qs.front_law [OF Suc.prems(1,2)] Suc.prems(4) by simp
qed

subsection \<open>The choice of the thread to run\<close>

lemma reorder_step:
  assumes wf: "sched_wf s sc" and sc: "scheds s sch = Some sc"
    and len: "length (ready s sc p) \<noteq> 2" and bk: "queue_back (cols s) (priority_queues sc p)"
  shows "\<exists>s'. on_cols (queue_reorder_first (priority_queues sc p)) s = Some (True, s') \<and>
           sched_step sch s sc s' sc \<and> sched_stack s' sc = sched_stack s sc \<and>
           ready s' sc = (ready s sc)(p := swapped (ready s sc p)) \<and> queue_back (cols s') (priority_queues sc p)"
proof -
  let ?q = "priority_queues sc p"
  have c: "cheap_ok (cols s)" and q: "queue_live (cols s) ?q" and inj: "inj (priority_queues sc)" and
    ts: "distinct (ready s sc p)" "\<forall>t\<in>set (ready s sc p). t \<noteq> NULL \<and> (\<exists>x. threads s t = Some x \<and> priority x = p)"
    using wf by (auto simp: sched_wf_def)
  obtain c' where c': "queue_reorder_first ?q (cols s) = Some (True, c')"
    "seq_upd cheap_ok queue_live queue_items ?q (cols s) c' (swapped (ready s sc p))"
    "stack_items c' = stack_items (cols s)" "lists_only (cols s) c'" "queue_back c' ?q"
    using queue_reorder_effect [OF c q len [unfolded ready_def] bk] unfolding ready_def by blast
  define s' where "s' = s\<lparr>cols := c'\<rparr>"
  have "sched_wf s' sc"
    by (rule sched_wf_update [OF wf, of c' p "swapped (ready s sc p)"])
       (use c' ts wf lists_only_own [OF c'(4)] swapped_perm [of "ready s sc p"] in
         \<open>auto simp: s'_def seq_upd_def sched_wf_def sched_stack_def\<close>)
  then have "sched_step sch s sc s' sc" using sc by (simp add: sched_step_def s'_def fun_upd_idem)
  then show ?thesis using c' inj
    by (intro exI [of _ s']) (auto simp: s'_def on_cols_def sched_stack_def ready_def fun_eq_iff inj_eq seq_upd_def)
qed

text \<open>Changing the state of a thread, or the current thread, keeps the invariant.\<close>

lemma sched_wf_threads:
  assumes "sched_wf s sc" "cols s' = cols s"
    and "\<And>t x. threads s t = Some x \<Longrightarrow> \<exists>y. threads s' t = Some y \<and> priority y = priority x"
    and "priority_queues sc' = priority_queues sc" "queue_stack sc' = queue_stack sc" "curr_queue sc' = curr_queue sc"
  shows "sched_wf s' sc'"
proof -
  have r: "ready s' sc' p = ready s sc p" for p using assms by (simp add: ready_def)
  have "\<exists>y. threads s' t = Some y \<and> priority y = p" if "t \<in> set (ready s sc p)" for t p
    using sched_wf_thread [OF assms(1) that] assms(3) by fastforce
  then show ?thesis
    using assms unfolding sched_wf_def r by (auto simp: sched_wf_def sched_stack_def)
qed

definition runnable :: "thread_state_t \<Rightarrow> bool" where
  "runnable st \<longleftrightarrow> st = THREAD_READY \<or> st = THREAD_SYSTEM \<or> st = THREAD_RUNNING"

lemma sch_choose_front:
  assumes wf: "sched_wf s sc" and sc: "scheds s sch = Some sc"
    and q: "curr_queue sc = priority_queues sc p" and r: "ready s sc p = t # ts"
    and len: "length (ready s sc p) \<noteq> 2" and bk: "queue_back (cols s) (curr_queue sc)"
    and x: "threads s t = Some x" and idle: "idle_thread sc \<noteq> NULL"
  shows "\<exists>s' sc'. sch_choose_thread sch s = Some s' \<and> scheds s' = (scheds s)(sch \<mapsto> sc') \<and>
           sc' = sc\<lparr>curr_thread := (if runnable (t_state x) then t else idle_thread sc)\<rparr> \<and>
           threads s' = (if runnable (t_state x) then (threads s)(t \<mapsto> x\<lparr>t_state := THREAD_RUNNING\<rparr>) else threads s) \<and>
           contexts s' = contexts s \<and> processes s' = processes s \<and> hw s' = hw s \<and>
           sched_wf s' sc' \<and> ready s' sc' = (ready s sc)(p := swapped (ready s sc p)) \<and>
           sched_stack s' sc' = sched_stack s sc \<and> queue_back (cols s') (curr_queue sc)"
proof -
  have tn: "t \<noteq> NULL" using sched_wf_thread [OF wf, of t p] r by simp
  have live: "cheap_ok (cols s)" "queue_live (cols s) (curr_queue sc)" using wf q by (auto simp: sched_wf_def)
  have front: "queue_front (curr_queue sc) (cols s) = Some (Some t)" "curr_queue sc \<noteq> NULL"
    using qs.front_law [OF live] live_not_NULL [OF live] r q by (simp_all add: ready_def)
  define sc1 where "sc1 = sc\<lparr>curr_thread := t\<rparr>"
  define s1 where "s1 = s\<lparr>scheds := (scheds s)(sch \<mapsto> sc1)\<rparr>"
  have s1: "sch_upd sch (\<lambda>x. x\<lparr>curr_thread := t\<rparr>) s = Some s1" "scheds s1 sch = Some sc1" "cols s1 = cols s"
    "threads s1 = threads s"
    using sc by (simp_all add: sch_upd_Some s1_def sc1_def)
  have rd1: "ready s1 sc1 = ready s sc" "sched_stack s1 sc1 = sched_stack s sc"
    by (simp_all add: ready_def sched_stack_def s1 sc1_def fun_eq_iff)
  have wf1: "sched_wf s1 sc1" by (rule sched_wf_threads [OF wf]) (auto simp: s1 sc1_def)
  have q1: "priority_queues sc1 p = curr_queue sc1" "curr_queue sc1 = curr_queue sc" using q by (simp_all add: sc1_def)
  obtain s2 where s2: "on_cols (queue_reorder_first (curr_queue sc1)) s1 = Some (True, s2)"
    "sched_step sch s1 sc1 s2 sc1" "sched_stack s2 sc1 = sched_stack s sc"
    "ready s2 sc1 = (ready s sc)(p := swapped (ready s sc p))" "queue_back (cols s2) (curr_queue sc)"
    using reorder_step [OF wf1 s1(2), of p] len bk by (auto simp: rd1 q1 s1)
  have sc2: "scheds s2 sch = Some sc1" "threads s2 = threads s" "sched_wf s2 sc1"
    "contexts s2 = contexts s" "processes s2 = processes s" "hw s2 = hw s" "scheds s2 = (scheds s)(sch \<mapsto> sc1)"
    using s2(2) s1 by (simp_all add: sched_step_def s1_def)
  show ?thesis
  proof (cases "runnable (t_state x)")
    case True
    define s' where "s' = s2\<lparr>threads := (threads s)(t \<mapsto> x\<lparr>t_state := THREAD_RUNNING\<rparr>)\<rparr>"
    have "sch_choose_thread sch s = Some s'"
      using sc front s1 s2(1) sc2 x tn True
      by (simp add: sch_choose_thread_def sc1_def thread_get_state_def thread_field_def thread_set_state_def
          thread_update_def store_def s'_def runnable_def)
    moreover have "sched_wf s' sc1" by (rule sched_wf_threads [OF sc2(3)]) (auto simp: s'_def sc2 x)
    ultimately show ?thesis using True s2(3-5) sc2
      by (intro exI [of _ s'] exI [of _ sc1]) (simp add: s'_def sc1_def ready_def sched_stack_def fun_eq_iff)
  next
    case False
    define sc3 where "sc3 = sc\<lparr>curr_thread := idle_thread sc\<rparr>"
    define s' where "s' = s2\<lparr>scheds := (scheds s)(sch \<mapsto> sc3)\<rparr>"
    have "sch_choose_thread sch s = Some s'"
      using sc front s1 s2(1) sc2 x tn False idle
      by (simp add: sch_choose_thread_def sc1_def thread_get_state_def thread_field_def sch_upd_def
          store_def s'_def runnable_def sc3_def)
    moreover have "sched_wf s' sc3" by (rule sched_wf_threads [OF sc2(3)]) (auto simp: s'_def sc2 sc1_def sc3_def)
    ultimately show ?thesis using False s2(3-5) sc2
      by (intro exI [of _ s'] exI [of _ sc3])
         (simp add: s'_def sc1_def sc3_def ready_def sched_stack_def fun_eq_iff)
  qed
qed

subsection \<open>The exchange of the contexts\<close>

definition parent_switch :: "thread_t \<Rightarrow> thread_t \<Rightarrow> kst \<Rightarrow> hw_call list" where
  "parent_switch y x s = (if t_parent y = t_parent x then []
     else [Set_Translation_Table (if t_parent x = NULL then NULL else page_table (the (processes s (t_parent x)))),
           Invalidate_TLBs])"

text \<open>A thread that was running is ready again; one in another state keeps it.\<close>

definition stopped :: "thread_state_t \<Rightarrow> thread_t \<Rightarrow> thread_t" where
  "stopped st y = (if st = THREAD_RUNNING then y\<lparr>t_state := THREAD_READY\<rparr> else y)"

lemma stopped_fields [simp]:
  "t_context (stopped st y) = t_context y" "t_parent (stopped st y) = t_parent y" "priority (stopped st y) = priority y"
  by (simp_all add: stopped_def)

lemma sch_switch_full:
  assumes wf: "sched_wf s sc" and sc: "scheds s sch = Some sc"
    and q: "curr_queue sc = priority_queues sc p" and r: "ready s sc p = t # ts"
    and len: "length (ready s sc p) \<noteq> 2" and bk: "queue_back (cols s) (curr_queue sc)"
    and x: "threads s t = Some x" "runnable (t_state x)" and idle: "idle_thread sc \<noteq> NULL"
    and cur: "curr_thread sc = cur" "cur \<noteq> NULL" "cur \<noteq> t" "threads s cur = Some y"
    and ctx: "context \<noteq> NULL" "contexts s context = Some now"
      "contexts s (t_context y) \<noteq> None" "t_context y \<noteq> NULL" "t_context y \<noteq> context"
      "contexts s (t_context x) = Some saved" "t_context x \<noteq> t_context y"
    and proc: "t_parent x \<noteq> NULL \<Longrightarrow> processes s (t_parent x) \<noteq> None" and st: "st \<noteq> THREAD_DEAD"
  shows "\<exists>s' sc'. sch_set_context_for_next_thread sch context st s = Some s' \<and>
           scheds s' sch = Some sc' \<and> curr_thread sc' = t \<and> sched_wf s' sc' \<and>
           ready s' sc' = (ready s sc)(p := swapped (ready s sc p)) \<and>
           threads s' = (threads s)(t \<mapsto> x\<lparr>t_state := THREAD_RUNNING\<rparr>, cur \<mapsto> stopped st y) \<and>
           contexts s' = (contexts s)(t_context y \<mapsto> now, context \<mapsto> saved) \<and>
           hw s' = hw s @ parent_switch y x s @ (if ts = [] then [] else [Enable_Schedule_Timer]) \<and>
           sc' = sc\<lparr>curr_thread := t, eval_new_thread := False\<rparr> \<and> processes s' = processes s \<and> queue_back (cols s') (curr_queue sc)"
proof -
  define sc1 where "sc1 = sc\<lparr>curr_thread := t\<rparr>"
  obtain s1 where s1: "sch_choose_thread sch s = Some s1" "scheds s1 = (scheds s)(sch \<mapsto> sc1)"
    "threads s1 = (threads s)(t \<mapsto> x\<lparr>t_state := THREAD_RUNNING\<rparr>)"
    "contexts s1 = contexts s" "processes s1 = processes s" "hw s1 = hw s" "sched_wf s1 sc1"
    "ready s1 sc1 = (ready s sc)(p := swapped (ready s sc p))" "queue_back (cols s1) (curr_queue sc)"
    using sch_choose_front [OF wf sc q r len bk x(1) idle] x(2) by (auto simp: sc1_def)
  have tn: "t \<noteq> NULL" using sched_wf_thread [OF wf, of t p] r by simp
  define sc2 where "sc2 = sc1\<lparr>eval_new_thread := False\<rparr>"
  define s2 where "s2 = s1\<lparr>scheds := (scheds s)(sch \<mapsto> sc2),
      threads := (threads s)(t \<mapsto> x\<lparr>t_state := THREAD_RUNNING\<rparr>, cur \<mapsto> stopped st y),
      contexts := (contexts s)(t_context y \<mapsto> now, context \<mapsto> saved), hw := hw s @ parent_switch y x s\<rparr>"
  have q1: "cheap_ok (cols s1)" "queue_live (cols s1) (curr_queue sc)" "curr_queue sc1 = curr_queue sc"
    using s1(7) q by (auto simp: sched_wf_def sc1_def)
  have items: "queue_items (cols s1) (curr_queue sc) = swapped (t # ts)"
    using fun_cong [OF s1(8), of p] q r by (simp add: ready_def sc1_def)
  obtain sz where sz: "queue_size (curr_queue sc) (cols s1) = Some sz" "sz > 1 \<longleftrightarrow> ts \<noteq> []"
  proof -
    have l: "length (queue_items (cols s1) (curr_queue sc)) = Suc (length ts)"
      by (cases "ts = []") (simp_all add: items swapped_def)
    have "unat (of_nat (Suc (length ts)) :: u32) = Suc (length ts)"
      using qs.length_law [OF q1(1,2)] l by (simp only: unat_of_nat) (simp add: take_bit_nat_eq_self)
    then show ?thesis using that [of "of_nat (Suc (length ts))"] qs.size_law [OF q1(1,2)] l
      by (simp add: word_less_nat_alt del: of_nat_Suc)
  qed
  have wf2: "sched_wf s2 sc2"
    by (rule sched_wf_threads [OF s1(7)])
       (use cur x in \<open>auto simp: s2_def sc2_def sc1_def s1(3) stopped_def split: if_splits\<close>)
  let ?a = "s1\<lparr>scheds := (scheds s)(sch \<mapsto> sc2)\<rparr>"
  let ?b = "?a\<lparr>threads := (threads s)(t \<mapsto> x\<lparr>t_state := THREAD_RUNNING\<rparr>, cur \<mapsto> stopped st y)\<rparr>"
  let ?c = "?b\<lparr>contexts := (contexts s)(t_context y \<mapsto> now)\<rparr>"
  have a: "sch_upd sch (\<lambda>x. x\<lparr>eval_new_thread := False\<rparr>) s1 = Some ?a"
    by (simp add: sch_upd_def store_def s1 sc2_def)
  have b: "(if st = THREAD_RUNNING then thread_set_state cur THREAD_READY ?a else Some ?a) = Some ?b"
  proof (cases "st = THREAD_RUNNING")
    case True
    then show ?thesis using cur by (simp add: thread_set_state_def thread_update_def store_def s1 stopped_def)
  next
    case False
    then have "threads s1 = (threads s)(t \<mapsto> x\<lparr>t_state := THREAD_RUNNING\<rparr>, cur \<mapsto> stopped st y)"
      using cur by (simp add: s1 stopped_def fun_upd_idem)
    then have "?a\<lparr>threads := threads ?a\<rparr> = ?b" by simp
    then show ?thesis using False by simp
  qed
  have c: "thread_save_context cur context ?b = Some ?c"
    using cur ctx by (auto simp: thread_save_context_def tgt_save_context_def store_def s1)
  have d: "tgt_prepare_context context t (t_parent y) ?c = Some s2"
    using cur ctx x tn proc
    by (auto simp: tgt_prepare_context_def thread_get_parent_def thread_field_def thread_load_context_def
        tgt_load_context_def store_def process_get_page_table_def parent_switch_def s2_def s1)
  have par: "thread_get_parent cur ?c = Some (t_parent y)"
    using cur by (simp add: thread_get_parent_def thread_field_def)
  have "sch_set_context_for_next_thread sch context st s =
      Some (if ts = [] then s2 else s2\<lparr>hw := hw s2 @ [Enable_Schedule_Timer]\<rparr>)"
    using sc s1(1,2) cur(1,3) a b c d par sz tn st
    by (simp add: sch_set_context_for_next_thread_def sc1_def) (simp add: s2_def Let_def)
  moreover have "sched_wf (s2\<lparr>hw := h\<rparr>) sc2" for h by (rule sched_wf_threads [OF wf2]) auto
  moreover have "ready s2 sc2 = ready s1 sc1" "ready (s2\<lparr>hw := h\<rparr>) sc2 = ready s1 sc1" for h
    by (simp_all add: ready_def s2_def sc2_def fun_eq_iff)
  ultimately show ?thesis using wf2 s1(5,8,9)
    by (intro exI [of _ "if ts = [] then s2 else s2\<lparr>hw := hw s2 @ [Enable_Schedule_Timer]\<rparr>"] exI [of _ sc2])
       (simp add: s2_def sc2_def sc1_def)
qed

lemma sch_switch_spec:
  assumes wf: "sched_wf s sc" and sc: "scheds s sch = Some sc"
    and q: "curr_queue sc = priority_queues sc p" and r: "ready s sc p = t # ts"
    and len: "length (ready s sc p) \<noteq> 2" and bk: "queue_back (cols s) (curr_queue sc)"
    and x: "threads s t = Some x" "runnable (t_state x)" and idle: "idle_thread sc \<noteq> NULL"
    and cur: "curr_thread sc = cur" "cur \<noteq> NULL" "cur \<noteq> t" "threads s cur = Some y"
    and ctx: "context \<noteq> NULL" "contexts s context = Some now"
      "contexts s (t_context y) \<noteq> None" "t_context y \<noteq> NULL" "t_context y \<noteq> context"
      "contexts s (t_context x) = Some saved" "t_context x \<noteq> t_context y"
    and proc: "t_parent x \<noteq> NULL \<Longrightarrow> processes s (t_parent x) \<noteq> None" and st: "st \<noteq> THREAD_DEAD"
  shows "\<exists>s' sc'. sch_set_context_for_next_thread sch context st s = Some s' \<and>
           scheds s' sch = Some sc' \<and> curr_thread sc' = t \<and> sched_wf s' sc' \<and>
           ready s' sc' = (ready s sc)(p := swapped (ready s sc p)) \<and>
           threads s' = (threads s)(t \<mapsto> x\<lparr>t_state := THREAD_RUNNING\<rparr>, cur \<mapsto> stopped st y) \<and>
           contexts s' = (contexts s)(t_context y \<mapsto> now, context \<mapsto> saved) \<and>
           hw s' = hw s @ parent_switch y x s @ (if ts = [] then [] else [Enable_Schedule_Timer])"
  using sch_switch_full [OF assms] by blast

end
