(* ===== verification/Sched_Demo.thy ===== *)
theory Sched_Demo
  imports Sched_Switch
begin

section \<open>A concrete scheduler\<close>

text \<open>
  States with a scheduler at a known address, a queue for every priority and a few threads, on
  which the theorems about the scheduler are applied.  The list of a queue or stack has the
  address of the queue or stack itself; the heaps are typed, so nothing overlaps.
\<close>

definition pq :: "u8 \<Rightarrow> ptr" where
  "pq p = 0x1000 + ucast p"

definition empty_list :: list_t where
  "empty_list = \<lparr>l_size = 0, l_head = NULL, l_tail = NULL, l_pool = 9\<rparr>"

definition demo_lists :: "(ptr \<rightharpoonup> list_t) \<Rightarrow> list_t pheap" where
  "demo_lists ov l = (case ov l of Some x \<Rightarrow> Some x
     | None \<Rightarrow> if l \<in> range pq \<or> l = 0x40 then Some empty_list else None)"

definition demo_cols :: "(ptr \<rightharpoonup> list_t) \<Rightarrow> list_t_element pheap \<Rightarrow> ptr list \<Rightarrow> cheap" where
  "demo_cols ov els ans =
     \<lparr>clh = \<lparr>elems = els, lists = demo_lists ov, its = Map.empty, answers = ans\<rparr>,
      queues = (\<lambda>q. if q \<in> range pq then Some \<lparr>q_list = q, q_pool = 9\<rparr> else None),
      stacks = [0x40 \<mapsto> \<lparr>s_list = 0x40, s_pool = 9\<rparr>], c_answers = []\<rparr>"

lemma unat_ucast_u8: "unat (ucast (p :: u8) :: u32) = unat p"
proof -
  have "unat p < 2 ^ 8" using unsigned_less [of p] by simp
  then show ?thesis by (simp add: unsigned_ucast_eq take_bit_nat_eq_self)
qed

lemma ucast_u8_inj: "(ucast (p :: u8) :: u32) = ucast q \<Longrightarrow> p = q"
  by (metis unat_ucast_u8 word_unat_eq_iff)

lemma pq_inj: "inj pq"
  by (rule injI) (simp add: pq_def ucast_u8_inj)

lemma pq_bounds: "0x1000 \<le> unat (pq p) \<and> unat (pq p) < 0x1100"
proof -
  have u: "unat (ucast p :: u32) < 256" using unat_ucast_u8 [of p] unsigned_less [of p] by simp
  then have "unat (0x1000 + ucast p :: u32) = 0x1000 + unat (ucast p :: u32)"
    by (subst unat_add_lem [THEN iffD1]) simp_all
  then show ?thesis using u by (simp add: pq_def)
qed

lemma pq_not: "pq p \<noteq> NULL" "pq p \<noteq> 0x40"
  using pq_bounds [of p] by auto

lemma demo_own:
  "own (demo_cols ov els ans) w =
     (case w of Inl q \<Rightarrow> if q \<in> range pq then q else NULL | Inr k \<Rightarrow> if k = 0x40 then 0x40 else NULL)"
  by (cases w) (auto simp: own_def demo_cols_def)

lemma demo_views:
  "queue_items (demo_cols ov els ans) (pq p) = list_items (clh (demo_cols ov els ans)) (pq p)"
  "stack_items (demo_cols ov els ans) 0x40 = list_items (clh (demo_cols ov els ans)) 0x40"
  "queue_live (demo_cols ov els ans) (pq p)" "stack_live (demo_cols ov els ans) 0x40"
  by (simp_all add: queue_items_def stack_items_def demo_own queue_live_def stack_live_def pq_not)

text \<open>A list that is not given explicitly is empty.\<close>

lemma demo_empty:
  assumes "ov l = None"
  shows "list_addrs (clh (demo_cols ov els ans)) l = []" "list_items (clh (demo_cols ov els ans)) l = []"
  using assms by (simp_all add: list_addrs_def list_items_def demo_cols_def demo_lists_def empty_list_def)

lemma demo_cheap_ok:
  assumes dom: "dom ov \<subseteq> range pq \<union> {0x40}"
    and ok: "\<And>l. l \<in> dom ov \<Longrightarrow> list_ok (clh (demo_cols ov els ans)) l"
    and disj: "\<And>l l'. l \<in> dom ov \<Longrightarrow> l' \<in> dom ov \<Longrightarrow> l \<noteq> l' \<Longrightarrow>
      set (list_addrs (clh (demo_cols ov els ans)) l) \<inter> set (list_addrs (clh (demo_cols ov els ans)) l') = {}"
    and bk: "list_back (clh (demo_cols ov els ans)) 0x40"
  shows "cheap_ok (demo_cols ov els ans)"
proof -
  let ?c = "demo_cols ov els ans"
  have some: "l \<in> range pq \<or> l = 0x40" if "lists (clh ?c) l \<noteq> None" for l
    using that dom by (auto simp: demo_cols_def demo_lists_def dom_def split: option.splits if_splits)
  have e: "list_ok (clh ?c) l" if "ov l = None" "l \<in> range pq \<or> l = 0x40" for l
    using that demo_empty [of ov l els ans] pq_not
    by (auto simp: list_ok_def demo_cols_def demo_lists_def empty_list_def wf_list_def)
  have "lheap_ok (clh ?c)"
    unfolding lheap_ok_def
  proof (intro conjI allI impI)
    fix l assume "lists (clh ?c) l \<noteq> None"
    then show "list_ok (clh ?c) l" using some e ok by (cases "ov l") auto
  next
    fix l l' :: ptr assume "l \<noteq> l'"
    then show "set (list_addrs (clh ?c) l) \<inter> set (list_addrs (clh ?c) l') = {}"
      using disj demo_empty [of ov] by (cases "ov l"; cases "ov l'") auto
  qed
  moreover have "list_live (clh ?c) l" if "l \<in> range pq \<or> l = 0x40" for l
    using that by (auto simp: list_live_def demo_cols_def demo_lists_def split: option.splits)
  moreover have "queues ?c NULL = None" "stacks ?c NULL = None"
    using pq_not(1) by (auto simp: demo_cols_def)
  ultimately show ?thesis
    using bk pq_not by (auto simp: cheap_ok_def demo_own stack_live_def split: sum.splits if_splits)
qed

subsection \<open>The scheduler\<close>

definition demo_thread :: "u8 \<Rightarrow> ptr \<Rightarrow> thread_t" where
  "demo_thread p c = \<lparr>thread_id = 1, t_stack = NULL, r_stack_base = 0, v_stack_base = 0, t_stack_size = 0,
     priority = p, t_flags = 0, t_parent = NULL, t_state = THREAD_READY, waiting_on = NULL,
     entry_point = NULL, t_object_number = 1, t_context = c, t_name = []\<rparr>"

definition demo_context :: "u32 \<Rightarrow> tgt_context_t" where
  "demo_context n = \<lparr>c_sp = n, c_lr = n, c_cpsr = 0, c_gpr = replicate 13 n, c_pc = n\<rparr>"

text \<open>
  Threads \<open>0x100\<close>, \<open>0x101\<close> and \<open>0x102\<close> of priority 5 are queued, \<open>0x103\<close> of priority 7, \<open>0x104\<close>
  of priority 2 and the idle thread \<open>0x10F\<close> are not; \<open>0x103\<close> is the one that was running.
\<close>

definition demo_ov :: "ptr \<rightharpoonup> list_t" where
  "demo_ov = [0x1005 \<mapsto> \<lparr>l_size = 3, l_head = 0x200, l_tail = 0x202, l_pool = 9\<rparr>,
              0x40 \<mapsto> \<lparr>l_size = 2, l_head = 0x210, l_tail = 0x211, l_pool = 9\<rparr>]"

definition demo_els :: "list_t_element pheap" where
  "demo_els = [0x200 \<mapsto> \<lparr>le_item = 0x100, le_next = 0x201, le_prev = NULL\<rparr>,
               0x201 \<mapsto> \<lparr>le_item = 0x101, le_next = 0x202, le_prev = 0x200\<rparr>,
               0x202 \<mapsto> \<lparr>le_item = 0x102, le_next = NULL, le_prev = 0x201\<rparr>,
               0x210 \<mapsto> \<lparr>le_item = 0x1000, le_next = 0x211, le_prev = NULL\<rparr>,
               0x211 \<mapsto> \<lparr>le_item = 0x1005, le_next = NULL, le_prev = 0x210\<rparr>]"

definition demo_sc :: scheduler_t where
  "demo_sc = \<lparr>curr_thread = 0x103, curr_queue = 0x1005, priority_queues = pq, curr_priority = 5,
              queue_stack = 0x40, idle_thread = 0x10F, eval_new_thread = False\<rparr>"

definition demo :: kst where
  "demo = \<lparr>cols = demo_cols demo_ov demo_els [0x300, 0x301, 0x302, 0x303],
     threads = [0x100 \<mapsto> demo_thread 5 0x600, 0x101 \<mapsto> demo_thread 5 0x601, 0x102 \<mapsto> demo_thread 5 0x602,
                0x103 \<mapsto> demo_thread 7 0x603, 0x104 \<mapsto> demo_thread 2 0x604, 0x10F \<mapsto> demo_thread 0 0x60F],
     contexts = [0x600 \<mapsto> demo_context 1, 0x603 \<mapsto> demo_context 2, 0x700 \<mapsto> demo_context 3],
     processes = Map.empty, scheds = [0x30 \<mapsto> demo_sc], hw = [], k_answers = []\<rparr>"

lemma pq5: "pq 0 = 0x1000" "pq 2 = 0x1002" "pq 5 = 0x1005" "pq 7 = 0x1007"
  by (simp_all add: pq_def)

lemma demo_lists_view:
  "list_addrs (clh (cols demo)) 0x1005 = [0x200, 0x201, 0x202]" "list_ok (clh (cols demo)) 0x1005"
  "list_items (clh (cols demo)) 0x1005 = [0x100, 0x101, 0x102]" "list_back (clh (cols demo)) 0x1005"
  "list_addrs (clh (cols demo)) 0x40 = [0x210, 0x211]" "list_ok (clh (cols demo)) 0x40"
  "list_items (clh (cols demo)) 0x40 = [0x1000, 0x1005]" "list_back (clh (cols demo)) 0x40"
proof -
  have l: "lists (clh (cols demo)) 0x1005 = Some \<lparr>l_size = 3, l_head = 0x200, l_tail = 0x202, l_pool = 9\<rparr>"
    "lists (clh (cols demo)) 0x40 = Some \<lparr>l_size = 2, l_head = 0x210, l_tail = 0x211, l_pool = 9\<rparr>"
    "elems (clh (cols demo)) = demo_els"
    by (simp_all add: demo_def demo_cols_def demo_lists_def demo_ov_def)
  have three: "chain_addrs 3 h x = [x, nxt h x, nxt h (nxt h x)]" "chain_addrs 2 h x = [x, nxt h x]" for h x
    by (simp_all add: eval_nat_numeral)
  show a: "list_addrs (clh (cols demo)) 0x1005 = [0x200, 0x201, 0x202]"
    by (simp add: list_addrs_def l three) (simp add: demo_els_def)
  show b: "list_addrs (clh (cols demo)) 0x40 = [0x210, 0x211]"
    by (simp add: list_addrs_def l three) (simp add: demo_els_def)
  show "list_items (clh (cols demo)) 0x1005 = [0x100, 0x101, 0x102]"
    "list_items (clh (cols demo)) 0x40 = [0x1000, 0x1005]"
    "list_back (clh (cols demo)) 0x1005" "list_back (clh (cols demo)) 0x40"
    by (simp_all add: list_items_def list_back_def a b l demo_els_def)
  show "list_ok (clh (cols demo)) 0x1005" "list_ok (clh (cols demo)) 0x40"
    by (simp_all add: list_ok_def a b l wf_list_def demo_els_def)
qed

lemma demo_dom: "dom demo_ov = {0x1005, 0x40}"
  by (auto simp: demo_ov_def split: if_splits)

lemma demo_ready:
  "ready demo demo_sc p = (if p = 5 then [0x100, 0x101, 0x102] else [])"
  "sched_stack demo demo_sc = [pq 0, pq 5]"
proof -
  have "demo_ov (pq p) = None" if "p \<noteq> 5"
    using that pq5(3) pq_inj pq_not(2) [of p] by (auto simp: demo_ov_def inj_eq simp flip: pq5(3))
  then show "ready demo demo_sc p = (if p = 5 then [0x100, 0x101, 0x102] else [])"
    using demo_lists_view(3) demo_empty(2) [of demo_ov "pq p"]
    by (simp add: ready_def demo_sc_def demo_def demo_views pq5)
  show "sched_stack demo demo_sc = [pq 0, pq 5]"
    using demo_lists_view(7) by (simp add: sched_stack_def demo_sc_def demo_def demo_views pq5)
qed

lemma demo_wf: "sched_wf demo demo_sc" "scheds demo 0x30 = Some demo_sc"
proof -
  have "cheap_ok (cols demo)"
    unfolding demo_def kst.select_convs
  proof (rule demo_cheap_ok)
    show "dom demo_ov \<subseteq> range pq \<union> {0x40}" using pq5(3) by (auto simp: demo_dom)
  qed (use demo_lists_view in \<open>auto simp: demo_dom demo_def\<close>)
  moreover have "set (sched_stack demo demo_sc) \<subseteq> range pq" by (simp add: demo_ready)
  moreover have "0x1005 \<in> range pq" using pq5(3) by (metis range_eqI)
  ultimately show "sched_wf demo demo_sc"
    unfolding sched_wf_def
    by (auto simp: demo_ready) (auto simp: demo_sc_def demo_def demo_views pq_inj demo_thread_def)
  show "scheds demo 0x30 = Some demo_sc" by (simp add: demo_def)
qed

lemma demo_plenty: "plenty 3 (clh (cols demo))"
proof -
  have "take 3 [0x300, 0x301, 0x302, 0x303 :: ptr] = [0x300, 0x301, 0x302]" by (simp add: eval_nat_numeral)
  then show ?thesis by (simp add: plenty_def demo_def demo_cols_def demo_els_def)
qed

subsection \<open>Three queues on the stack\<close>

text \<open>
  The idle thread \<open>0x10F\<close> of priority 0, \<open>0x105\<close> of priority 3, and \<open>0x103\<close> and \<open>0x106\<close> of priority 7
  are queued; \<open>0x107\<close> of priority 5 is not.
\<close>

definition demo2_ov :: "ptr \<rightharpoonup> list_t" where
  "demo2_ov = [0x1000 \<mapsto> \<lparr>l_size = 1, l_head = 0x200, l_tail = 0x200, l_pool = 9\<rparr>,
               0x1003 \<mapsto> \<lparr>l_size = 1, l_head = 0x201, l_tail = 0x201, l_pool = 9\<rparr>,
               0x1007 \<mapsto> \<lparr>l_size = 2, l_head = 0x202, l_tail = 0x203, l_pool = 9\<rparr>,
               0x40 \<mapsto> \<lparr>l_size = 3, l_head = 0x210, l_tail = 0x212, l_pool = 9\<rparr>]"

definition demo2_els :: "list_t_element pheap" where
  "demo2_els = [0x200 \<mapsto> \<lparr>le_item = 0x10F, le_next = NULL, le_prev = NULL\<rparr>,
                0x201 \<mapsto> \<lparr>le_item = 0x105, le_next = NULL, le_prev = NULL\<rparr>,
                0x202 \<mapsto> \<lparr>le_item = 0x103, le_next = 0x203, le_prev = NULL\<rparr>,
                0x203 \<mapsto> \<lparr>le_item = 0x106, le_next = NULL, le_prev = 0x202\<rparr>,
                0x210 \<mapsto> \<lparr>le_item = 0x1000, le_next = 0x211, le_prev = NULL\<rparr>,
                0x211 \<mapsto> \<lparr>le_item = 0x1003, le_next = 0x212, le_prev = 0x210\<rparr>,
                0x212 \<mapsto> \<lparr>le_item = 0x1007, le_next = NULL, le_prev = 0x211\<rparr>]"

definition demo2_sc :: scheduler_t where
  "demo2_sc = \<lparr>curr_thread = 0x106, curr_queue = 0x1007, priority_queues = pq, curr_priority = 7,
               queue_stack = 0x40, idle_thread = 0x10F, eval_new_thread = False\<rparr>"

definition demo2 :: kst where
  "demo2 = \<lparr>cols = demo_cols demo2_ov demo2_els [0x300, 0x301, 0x302, 0x303],
     threads = [0x103 \<mapsto> demo_thread 7 0x603, 0x105 \<mapsto> demo_thread 3 0x605, 0x106 \<mapsto> demo_thread 7 0x606,
                0x107 \<mapsto> demo_thread 5 0x607, 0x10F \<mapsto> demo_thread 0 0x60F],
     contexts = Map.empty, processes = Map.empty, scheds = [0x30 \<mapsto> demo2_sc], hw = [], k_answers = []\<rparr>"

lemma pq3: "pq 3 = 0x1003"
  by (simp add: pq_def)

lemma demo2_lists_view:
  "list_addrs (clh (cols demo2)) 0x1000 = [0x200]" "list_ok (clh (cols demo2)) 0x1000"
  "list_items (clh (cols demo2)) 0x1000 = [0x10F]"
  "list_addrs (clh (cols demo2)) 0x1003 = [0x201]" "list_ok (clh (cols demo2)) 0x1003"
  "list_items (clh (cols demo2)) 0x1003 = [0x105]"
  "list_addrs (clh (cols demo2)) 0x1007 = [0x202, 0x203]" "list_ok (clh (cols demo2)) 0x1007"
  "list_items (clh (cols demo2)) 0x1007 = [0x103, 0x106]" "list_back (clh (cols demo2)) 0x1007"
  "list_addrs (clh (cols demo2)) 0x40 = [0x210, 0x211, 0x212]" "list_ok (clh (cols demo2)) 0x40"
  "list_items (clh (cols demo2)) 0x40 = [0x1000, 0x1003, 0x1007]" "list_back (clh (cols demo2)) 0x40"
proof -
  have l: "lists (clh (cols demo2)) 0x1000 = Some \<lparr>l_size = 1, l_head = 0x200, l_tail = 0x200, l_pool = 9\<rparr>"
    "lists (clh (cols demo2)) 0x1003 = Some \<lparr>l_size = 1, l_head = 0x201, l_tail = 0x201, l_pool = 9\<rparr>"
    "lists (clh (cols demo2)) 0x1007 = Some \<lparr>l_size = 2, l_head = 0x202, l_tail = 0x203, l_pool = 9\<rparr>"
    "lists (clh (cols demo2)) 0x40 = Some \<lparr>l_size = 3, l_head = 0x210, l_tail = 0x212, l_pool = 9\<rparr>"
    "elems (clh (cols demo2)) = demo2_els"
    by (simp_all add: demo2_def demo_cols_def demo_lists_def demo2_ov_def)
  have n: "chain_addrs 3 h x = [x, nxt h x, nxt h (nxt h x)]" "chain_addrs 2 h x = [x, nxt h x]"
    "chain_addrs (Suc 0) h x = [x]" for h x
    by (simp_all add: eval_nat_numeral)
  show a: "list_addrs (clh (cols demo2)) 0x1000 = [0x200]" "list_addrs (clh (cols demo2)) 0x1003 = [0x201]"
    "list_addrs (clh (cols demo2)) 0x1007 = [0x202, 0x203]"
    "list_addrs (clh (cols demo2)) 0x40 = [0x210, 0x211, 0x212]"
    by (simp_all add: list_addrs_def l n) (simp_all add: demo2_els_def)
  show "list_items (clh (cols demo2)) 0x1000 = [0x10F]" "list_items (clh (cols demo2)) 0x1003 = [0x105]"
    "list_items (clh (cols demo2)) 0x1007 = [0x103, 0x106]" "list_back (clh (cols demo2)) 0x1007"
    "list_items (clh (cols demo2)) 0x40 = [0x1000, 0x1003, 0x1007]" "list_back (clh (cols demo2)) 0x40"
    by (simp_all add: list_items_def list_back_def a l demo2_els_def)
  show "list_ok (clh (cols demo2)) 0x1000" "list_ok (clh (cols demo2)) 0x1003"
    "list_ok (clh (cols demo2)) 0x1007" "list_ok (clh (cols demo2)) 0x40"
    by (simp_all add: list_ok_def a l wf_list_def demo2_els_def)
qed

lemma demo2_dom: "dom demo2_ov = {0x1000, 0x1003, 0x1007, 0x40}"
  by (auto simp: demo2_ov_def split: if_splits)

lemma demo2_ready:
  "ready demo2 demo2_sc p = (if p = 0 then [0x10F] else if p = 3 then [0x105] else if p = 7 then [0x103, 0x106] else [])"
  "sched_stack demo2 demo2_sc = [pq 0, pq 3, pq 7]"
proof -
  have "demo2_ov (pq p) = None" if "p \<noteq> 0" "p \<noteq> 3" "p \<noteq> 7"
    using that pq_inj pq_not(2) [of p]
    by (auto simp: demo2_ov_def inj_eq simp flip: pq5 pq3)
  then show "ready demo2 demo2_sc p = (if p = 0 then [0x10F] else if p = 3 then [0x105] else if p = 7 then [0x103, 0x106] else [])"
    using demo2_lists_view(3,6,9) demo_empty(2) [of demo2_ov "pq p"]
    by (simp add: ready_def demo2_sc_def demo2_def demo_views pq5 pq3)
  show "sched_stack demo2 demo2_sc = [pq 0, pq 3, pq 7]"
    using demo2_lists_view(13) by (simp add: sched_stack_def demo2_sc_def demo2_def demo_views pq5 pq3)
qed

lemma demo2_wf: "sched_wf demo2 demo2_sc" "scheds demo2 0x30 = Some demo2_sc"
proof -
  have "cheap_ok (cols demo2)"
    unfolding demo2_def kst.select_convs
  proof (rule demo_cheap_ok)
    show "dom demo2_ov \<subseteq> range pq \<union> {0x40}" by (auto simp: demo2_dom simp flip: pq5 pq3)
  qed (use demo2_lists_view in \<open>auto simp: demo2_dom demo2_def\<close>)
  moreover have "set (sched_stack demo2 demo2_sc) \<subseteq> range pq" by (simp add: demo2_ready)
  moreover have "0x1007 \<in> range pq" using pq5(4) by (metis range_eqI)
  ultimately show "sched_wf demo2 demo2_sc"
    unfolding sched_wf_def
    by (auto simp: demo2_ready) (auto simp: demo2_sc_def demo2_def demo_views pq_inj demo_thread_def)
  show "scheds demo2 0x30 = Some demo2_sc" by (simp add: demo2_def)
qed

lemma demo2_plenty: "plenty 3 (clh (cols demo2))"
proof -
  have "take 3 [0x300, 0x301, 0x302, 0x303 :: ptr] = [0x300, 0x301, 0x302]" by (simp add: eval_nat_numeral)
  then show ?thesis by (simp add: plenty_def demo2_def demo_cols_def demo2_els_def)
qed

end
