(* ===== verification/Sched_Props.thy ===== *)
theory Sched_Props
  imports Sched_Demo
begin

section \<open>Properties of the scheduler\<close>

text \<open>
  The statements about \<open>scheduler/scheduler.c\<close>, each applied to the state \<open>demo\<close>.
\<close>

text \<open>
  C11: a thread that becomes ready.  With memory for the three allocations it may make,
  \<open>sch_notify_new_thread\<close> returns and keeps the invariant of the scheduler: the thread stands in
  the queue of its priority exactly once, every other queue is unchanged, the current priority
  is the maximum of the old one and the thread's, and a thread of higher priority makes its
  queue the current one, puts it on top of the stack and asks for a new choice.
\<close>

theorem sch_notify_new_thread_ready:
  assumes "sched_wf s sc" "scheds s sch = Some sc" "sch \<noteq> NULL" "t \<noteq> NULL" "threads s t = Some x"
    and "plenty 3 (clh (cols s))"
  shows "\<exists>s' sc'. sch_notify_new_thread sch t s = Some s' \<and> scheds s' sch = Some sc' \<and> sched_wf s' sc' \<and>
           threads s' = threads s \<and>
           ready s' sc' = (ready s sc)(priority x :=
             (if t \<in> set (ready s sc (priority x)) then ready s sc (priority x)
              else ready s sc (priority x) @ [t])) \<and>
           curr_priority sc' = max (curr_priority sc) (priority x) \<and>
           (if curr_priority sc < priority x
            then eval_new_thread sc' \<and> curr_queue sc' = priority_queues sc (priority x) \<and>
                 sched_stack s' sc' = sched_stack s sc @ [priority_queues sc (priority x)]
            else curr_queue sc' = curr_queue sc)"
  using sch_notify_new_thread_spec [OF assms]
  by (auto simp: enqueued_def raised_stack_def max_def raised_def split: if_splits)

theorem sch_notify_new_thread_ready_witness:
  "\<exists>s' sc'. sch_notify_new_thread 0x30 0x103 demo = Some s' \<and> scheds s' 0x30 = Some sc' \<and>
     ready s' sc' 7 = [0x103] \<and> curr_priority sc' = 7"
proof -
  have x: "threads demo 0x103 = Some (demo_thread 7 0x603)" by (simp add: demo_def)
  have p: "priority (demo_thread 7 0x603) = 7" "curr_priority demo_sc = 5"
    by (simp_all add: demo_thread_def demo_sc_def)
  show ?thesis
    using sch_notify_new_thread_ready [OF demo_wf _ _ x demo_plenty] p
    by (auto simp: demo_ready max_def)
qed

text \<open>
  C12: a thread that exits or blocks.  \<open>sch_notify_exit_thread\<close> always returns and keeps the
  invariant; the thread is taken out of the queue of its priority, every other queue is
  unchanged, and a new choice is asked for exactly when the thread was queued.
\<close>

theorem sch_notify_exit_thread_leaves:
  assumes "sched_wf s sc" "scheds s sch = Some sc" "t \<noteq> NULL" "threads s t = Some x"
  shows "\<exists>s' sc'. sch_notify_exit_thread sch t s = Some s' \<and> scheds s' sch = Some sc' \<and> sched_wf s' sc' \<and>
           threads s' = threads s \<and> t \<notin> set (ready s' sc' (priority x)) \<and>
           ready s' sc' = (ready s sc)(priority x := remove1 t (ready s sc (priority x))) \<and>
           (t \<in> set (ready s sc (priority x)) \<longrightarrow> eval_new_thread sc')"
proof -
  have "distinct (ready s sc (priority x))" using assms(1) by (simp add: sched_wf_def)
  then show ?thesis
    using sch_notify_exit_thread_spec [OF assms] sched_step_sched sched_step_threads by fastforce
qed

theorem sch_notify_exit_thread_leaves_witness:
  "\<exists>s' sc'. sch_notify_exit_thread 0x30 0x101 demo = Some s' \<and> scheds s' 0x30 = Some sc' \<and>
     ready s' sc' 5 = [0x100, 0x102] \<and> eval_new_thread sc'"
proof -
  have x: "threads demo 0x101 = Some (demo_thread 5 0x601)" by (simp add: demo_def)
  show ?thesis
    using sch_notify_exit_thread_leaves [OF demo_wf _ x] by (auto simp: demo_ready demo_thread_def)
qed

text \<open>
  The slow search takes the highest priority below the one of the leaving thread that has a
  ready thread, or priority 0 when there is none, and makes its queue the current one.  It
  always ends.
\<close>

lemma sch_find_next_queue_highest:
  assumes "sched_wf s sc" "scheds s sch = Some sc" "t \<noteq> NULL" "threads s t = Some x"
  shows "\<exists>s' sc'. sch_priority_find_next_queue sch t s = Some s' \<and> scheds s' sch = Some sc' \<and>
           sched_wf s' sc' \<and> ready s' sc' = ready s sc \<and>
           curr_queue sc' = priority_queues sc (curr_priority sc') \<and>
           (curr_priority sc' = 0 \<or> ready s sc (curr_priority sc') \<noteq> []) \<and>
           (\<forall>r. curr_priority sc' < r \<and> r \<le> priority x - 1 \<longrightarrow> ready s sc r = [])"
proof -
  from sch_priority_find_next_queue_spec [OF assms] obtain s' p' where
    f: "sch_priority_find_next_queue sch t s = Some s'"
      "sched_step sch s sc s' (sc\<lparr>curr_priority := p', curr_queue := priority_queues sc p'\<rparr>)"
      "queue_items (cols s') = queue_items (cols s)"
      "p' = 0 \<or> ready s sc p' \<noteq> []" "\<forall>r. p' < r \<and> r \<le> priority x - 1 \<longrightarrow> ready s sc r = []" by blast
  then show ?thesis using sched_step_sched [OF f(2)] by (force simp: ready_def fun_eq_iff)
qed

text \<open>
  C13: a context switch.  When the thread at the front of the current queue can run and is not
  the one running, \<open>sch_set_context_for_next_thread\<close> makes it the current thread and marks it
  running, marks the other one ready if it was running, saves the registers of the interrupted thread in its own
  context, loads the registers saved for the new one, and leaves every other saved context
  alone.  The translation table is switched exactly when the process changes, and the
  scheduling timer is started exactly when another thread of this priority is waiting.
\<close>

theorem sch_switch_exchanges_contexts:
  assumes "sched_wf s sc" "scheds s sch = Some sc" "curr_queue sc = priority_queues sc p"
    "ready s sc p = t # ts" "length (ready s sc p) \<noteq> 2" "queue_back (cols s) (curr_queue sc)"
    "threads s t = Some x" "runnable (t_state x)" "idle_thread sc \<noteq> NULL"
    "curr_thread sc = cur" "cur \<noteq> NULL" "cur \<noteq> t" "threads s cur = Some y"
    "context \<noteq> NULL" "contexts s context = Some now"
    "contexts s (t_context y) \<noteq> None" "t_context y \<noteq> NULL" "t_context y \<noteq> context"
    "contexts s (t_context x) = Some saved" "t_context x \<noteq> t_context y"
    "t_parent x \<noteq> NULL \<Longrightarrow> processes s (t_parent x) \<noteq> None" "st \<noteq> THREAD_DEAD"
  shows "\<exists>s' sc'. sch_set_context_for_next_thread sch context st s = Some s' \<and>
           scheds s' sch = Some sc' \<and> curr_thread sc' = t \<and> sched_wf s' sc' \<and>
           ready s' sc' = (ready s sc)(p := swapped (ready s sc p)) \<and>
           threads s' = (threads s)(t \<mapsto> x\<lparr>t_state := THREAD_RUNNING\<rparr>, cur \<mapsto> stopped st y) \<and>
           contexts s' = (contexts s)(t_context y \<mapsto> now, context \<mapsto> saved) \<and>
           hw s' = hw s @ parent_switch y x s @ (if ts = [] then [] else [Enable_Schedule_Timer])"
  by (rule sch_switch_spec [OF assms])

theorem sch_switch_exchanges_contexts_witness:
  "\<exists>s' sc'. sch_set_context_for_next_thread 0x30 0x700 THREAD_RUNNING demo = Some s' \<and>
     scheds s' 0x30 = Some sc' \<and> curr_thread sc' = 0x100 \<and>
     contexts s' 0x700 = Some (demo_context 1) \<and> contexts s' 0x603 = Some (demo_context 3)"
proof -
  have x: "threads demo 0x100 = Some (demo_thread 5 0x600)" and y: "threads demo 0x103 = Some (demo_thread 7 0x603)"
    by (simp_all add: demo_def)
  have c: "contexts demo 0x700 = Some (demo_context 3)" "contexts demo 0x600 = Some (demo_context 1)"
    "contexts demo 0x603 = Some (demo_context 2)" by (simp_all add: demo_def)
  have f: "t_context (demo_thread p a) = a" "t_parent (demo_thread p a) = NULL" "runnable (t_state (demo_thread p a))"
    for p a by (simp_all add: demo_thread_def runnable_def)
  have d: "curr_queue demo_sc = 0x1005" "priority_queues demo_sc 5 = 0x1005" "idle_thread demo_sc = 0x10F"
    "curr_thread demo_sc = 0x103" by (simp_all add: demo_sc_def pq5)
  have "queue_back (cols demo) 0x1005"
    using demo_lists_view(4) pq5(3) by (auto simp: queue_back_def demo_def demo_own)
  then show ?thesis
    using sch_switch_exchanges_contexts [OF demo_wf, of 5 "0x100" "[0x101, 0x102]" "demo_thread 5 0x600" "0x103"
        "demo_thread 7 0x603" "0x700" "demo_context 3" "demo_context 1" THREAD_RUNNING]
    by (auto simp: demo_ready d f c x y)
qed



text \<open>
  A thread that is not queued and becomes ready and then blocks again leaves every queue as
  it was.
\<close>

lemma sch_new_exit_roundtrip:
  assumes "sched_wf s sc" "scheds s sch = Some sc" "sch \<noteq> NULL" "t \<noteq> NULL" "threads s t = Some x"
    and "plenty 3 (clh (cols s))" "t \<notin> set (ready s sc (priority x))"
  shows "\<exists>s' s'' sc''. sch_notify_new_thread sch t s = Some s' \<and> sch_notify_exit_thread sch t s' = Some s'' \<and>
           scheds s'' sch = Some sc'' \<and> sched_wf s'' sc'' \<and> ready s'' sc'' = ready s sc"
proof -
  from sch_notify_new_thread_spec [OF assms(1-6)] assms(7) obtain s' where
    s': "sch_notify_new_thread sch t s = Some s'" "scheds s' sch = Some (raised sc (priority x))"
      "sched_wf s' (raised sc (priority x))" "threads s' t = Some x"
      "ready s' (raised sc (priority x)) = (ready s sc)(priority x := ready s sc (priority x) @ [t])"
    using assms(5) by (auto simp: enqueued_def)
  from sch_notify_exit_thread_spec [OF s'(3,2) assms(4) s'(4)] obtain s'' sc'' where
    s'': "sch_notify_exit_thread sch t s' = Some s''" "sched_step sch s' (raised sc (priority x)) s'' sc''"
      "ready s'' sc'' = (ready s sc)(priority x := remove1 t (ready s sc (priority x) @ [t]))"
    using s'(5) by auto
  then have "ready s'' sc'' = ready s sc" using assms(7) by (simp add: remove1_append)
  then show ?thesis using s'(1) s''(1) sched_step_sched [OF s''(2)] by blast
qed

text \<open>
  C38: the stack of queues loses its order.  When a thread of a priority below the current one
  becomes ready and the queue at the bottom of the stack holds threads of a lower priority,
  the queue of the thread is inserted directly above the bottom, below all the others: also
  below a queue of lower priority, which will be served first.
\<close>

theorem sch_new_thread_misplaced:
  assumes "sched_wf s sc" "scheds s sch = Some sc" "sch \<noteq> NULL" "t \<noteq> NULL" "threads s t = Some x"
    and "plenty 3 (clh (cols s))"
    and "sched_stack s sc = priority_queues sc p0 # priority_queues sc p1 # qs"
    and "ready s sc p0 \<noteq> []" "p0 < p1" "p1 < priority x" "priority x < curr_priority sc"
  shows "\<exists>s'. sch_notify_new_thread sch t s = Some s' \<and> scheds s' sch = Some sc \<and>
           sched_stack s' sc = priority_queues sc p0 # priority_queues sc (priority x) # priority_queues sc p1 # qs"
proof -
  have lt: "p0 < priority x" "\<not> curr_priority sc < priority x" using assms(9-11) by auto
  then have r: "raised sc (priority x) = sc" by (simp add: raised_def)
  from sch_notify_new_thread_spec [OF assms(1-6)] obtain s' where
    s': "sch_notify_new_thread sch t s = Some s'" "scheds s' = (scheds s)(sch \<mapsto> sc)" "sched_wf s' sc"
      "ready s' sc = (ready s sc)(priority x := enqueued t (ready s sc (priority x)))"
      "sched_stack s' sc = raised_stack (front_prio s') sc (priority x) (sched_stack s sc)"
    unfolding r by blast
  have "ready s' sc p0 \<noteq> []" using s'(4) lt(1) assms(8) by auto
  then have "front_prio s' (priority_queues sc p0) = Some p0" using sched_wf_front_prio [OF s'(3)] by simp
  then show ?thesis using s' lt assms(7,11) by (auto simp: raised_stack_def stack_inserted_def)
qed

theorem sch_new_thread_misplaced_witness:
  "\<exists>s'. sch_notify_new_thread 0x30 0x107 demo2 = Some s' \<and>
     sched_stack s' demo2_sc = [pq 0, pq 5, pq 3, pq 7]"
proof -
  have x: "threads demo2 0x107 = Some (demo_thread 5 0x607)" by (simp add: demo2_def)
  have d: "priority_queues demo2_sc = pq" "curr_priority demo2_sc = 7" "priority (demo_thread 5 0x607) = 5"
    by (simp_all add: demo2_sc_def demo_thread_def)
  show ?thesis
    using sch_new_thread_misplaced [OF demo2_wf _ _ x demo2_plenty, of 0 3 "[pq 7]"]
    by (auto simp: demo2_ready d)
qed

text \<open>
  Two threads of the same priority.  After the scheduler has chosen the first of exactly two
  ready threads, the queue is broken: a notification that this thread exits or blocks changes
  nothing at all, the thread stays queued and no new choice is asked for.
\<close>

lemma sch_exit_lost_with_two_threads:
  assumes "sched_wf s sc" "scheds s sch = Some sc" "curr_queue sc = priority_queues sc p"
    and "ready s sc p = [t, u]" "queue_back (cols s) (curr_queue sc)"
    and "threads s t = Some x" "runnable (t_state x)"
  shows "\<exists>s' sc'. sch_choose_thread sch s = Some s' \<and> scheds s' sch = Some sc' \<and> curr_thread sc' = t \<and>
           sch_notify_exit_thread sch t s' = Some s'"
proof -
  let ?q = "priority_queues sc p"
  let ?l = "own (cols s) (Inl ?q)"
  have c: "cheap_ok (cols s)" and q: "queue_live (cols s) ?q" and d: "t \<noteq> u"
    using assms(1,4) by (auto simp: sched_wf_def dest: spec [of _ p])
  have t: "t \<noteq> NULL" "priority x = p" using sched_wf_thread [OF assms(1), of t p] assms(4,6) by auto
  have "list_items (clh (cols s)) ?l = [t, u]" using assms(4) by (simp add: ready_def queue_items_def)
  from list_two_broken [OF queue_list_ok [OF c q] _ this d] assms(3,5) obtain h where
    h: "list_head_to_tail ?l (clh (cols s)) = Some (True, h)" "list_remove_item ?l t h = Some (False, h)"
    by (auto simp: queue_back_def)
  have front: "queue_front ?q (cols s) = Some (Some t)" "?q \<noteq> NULL"
    using qs.front_law [OF c q] assms(4) live_not_NULL [OF c q] by (simp_all add: ready_def)
  have reorder: "queue_reorder_first ?q (cols s) = Some (True, (cols s)\<lparr>clh := h\<rparr>)"
    using h(1) by (simp add: queue_reorder_first_def with_queue_live [OF c q] on_lists_def)
  have remove: "queue_remove ?q t ((cols s)\<lparr>clh := h\<rparr>) = Some (False, (cols s)\<lparr>clh := h\<rparr>)"
    using h(2) q front(2) by (auto simp: queue_remove_def with_queue_def on_lists_def queue_live_def own_def split: option.splits)
  define sc' where "sc' = sc\<lparr>curr_thread := t\<rparr>"
  define s' where "s' = s\<lparr>scheds := (scheds s)(sch \<mapsto> sc'), cols := (cols s)\<lparr>clh := h\<rparr>,
     threads := (threads s)(t \<mapsto> x\<lparr>t_state := THREAD_RUNNING\<rparr>)\<rparr>"
  have "sch_choose_thread sch s = Some s'"
    using assms(2,3,6,7) front reorder t
    by (simp add: sch_choose_thread_def sch_upd_def store_def on_cols_def thread_get_state_def thread_field_def
        runnable_def thread_set_state_def thread_update_def s'_def sc'_def)
  moreover have "sch_notify_exit_thread sch t s' = Some s'"
    using t remove
    by (simp add: sch_notify_exit_thread_def thread_get_priority_def thread_field_def on_cols_def s'_def sc'_def)
  ultimately show ?thesis by (intro exI [of _ s'] exI [of _ sc']) (simp add: s'_def sc'_def)
qed

end
