(* ===== verification/Hashed_Map.thy ===== *)
theory Hashed_Map
  imports Prelude
begin

section \<open>The hash map (\<open>utils/collections/hashed_map.c\<close>, \<open>utils/hash/basic_hashes.c\<close>)\<close>

text \<open>
  A map has 2047 bucket pointers, a bucket 32 entry pointers, an entry a key of 64 bytes and a
  value.  Keys are passed as the bytes the key pointer points to; reading behind their end is
  an illegal access.  The array of the buckets is a function on indices; every index the code
  computes is below 2047.  A signed 32-bit hash is its bit pattern.
\<close>

unbundle bit_operations_syntax

subsection \<open>State\<close>

record map_entry_t =
  me_key :: "u8 list"
  me_value :: ptr

record map_bucket_t =
  mb_entries :: "ptr list"

record map_t =
  m_size :: u32
  m_key_size :: u32
  m_buckets :: "nat \<Rightarrow> ptr"
  m_hash :: "u8 list \<Rightarrow> u32 \<Rightarrow> u32 option"
  m_pool :: ptr

record map_it_t =
  mi_map :: ptr
  mi_map_entry :: ptr
  mi_map_bucket :: ptr
  mi_bucket :: u32
  mi_entry :: u32

record mheap =
  entries :: "map_entry_t pheap"
  buckets :: "map_bucket_t pheap"
  maps :: "map_t pheap"
  map_its :: "map_it_t pheap"
  m_answers :: "ptr list"

definition MAP_BUCKET_SIZE :: nat where "MAP_BUCKET_SIZE = 32"
definition MAP_CAPACITY :: u32 where "MAP_CAPACITY = 65535"
definition MAP_BUCKET_COUNT :: nat where "MAP_BUCKET_COUNT = 2047"
definition MAP_MAX_KEY_LENGTH :: nat where "MAP_MAX_KEY_LENGTH = 64"

subsection \<open>Hashes\<close>

text \<open>The target is little endian; an integer narrower than 32 bits is sign extended.\<close>

definition hash_basic_integer :: "u8 list \<Rightarrow> u32 \<Rightarrow> u32 option" where
  "hash_basic_integer p sz =
     (if sz = 4 then
        (case p of a # b # c # d # _ \<Rightarrow>
           Some (ucast a OR push_bit 8 (ucast b) OR push_bit 16 (ucast c) OR push_bit 24 (ucast d))
         | _ \<Rightarrow> None)
      else if sz = 2 then
        (case p of a # b # _ \<Rightarrow> Some (scast (ucast a OR push_bit 8 (ucast b) :: u16)) | _ \<Rightarrow> None)
      else if sz = 1 then (case p of a # _ \<Rightarrow> Some (scast a) | _ \<Rightarrow> None)
      else Some 0)"

text \<open>The characters of the target are unsigned.\<close>

primrec hash_basic_string_loop :: "nat \<Rightarrow> u8 list \<Rightarrow> u32 \<Rightarrow> u32 option" where
  "hash_basic_string_loop 0 p h = Some h"
| "hash_basic_string_loop (Suc n) p h =
     (case p of [] \<Rightarrow> None | c # cs \<Rightarrow> hash_basic_string_loop n cs (31 * h + ucast c))"

definition hash_basic_string :: "u8 list \<Rightarrow> u32 \<Rightarrow> u32 option" where
  "hash_basic_string p sz = hash_basic_string_loop (unat sz) p 0"

definition map_hash :: "map_t \<Rightarrow> u8 list \<Rightarrow> u32 option" where
  "map_hash mp key = do {
     h \<leftarrow> m_hash mp key (m_key_size mp);
     let h = h XOR (signed_drop_bit 20 h XOR signed_drop_bit 12 h);
     Some (h XOR (signed_drop_bit 7 h XOR signed_drop_bit 4 h))
   }"

definition map_index_of :: "map_t \<Rightarrow> u8 list \<Rightarrow> nat option" where
  "map_index_of mp key = do {
     h \<leftarrow> map_hash mp key;
     Some (unat (h AND (of_nat MAP_BUCKET_COUNT - 1)))
   }"

subsection \<open>Keys\<close>

primrec map_copy_key :: "nat \<Rightarrow> u8 list \<Rightarrow> u8 list \<Rightarrow> u8 list option" where
  "map_copy_key 0 dst src = Some dst"
| "map_copy_key (Suc n) dst src =
     (case (dst, src) of
        (a # as, b # bs) \<Rightarrow> do { r \<leftarrow> map_copy_key n as bs; Some (b # r) }
      | _ \<Rightarrow> None)"

primrec map_key_equals :: "nat \<Rightarrow> u8 list \<Rightarrow> u8 list \<Rightarrow> bool option" where
  "map_key_equals 0 key1 key2 = Some True"
| "map_key_equals (Suc n) key1 key2 =
     (case (key1, key2) of
        (a # as, b # bs) \<Rightarrow> if a \<noteq> b then Some False else map_key_equals n as bs
      | _ \<Rightarrow> None)"

subsection \<open>Creation and deletion\<close>

definition map_initialise ::
  "ptr \<Rightarrow> (u8 list \<Rightarrow> u32 \<Rightarrow> u32 option) \<Rightarrow> ptr \<Rightarrow> u32 \<Rightarrow> mheap \<Rightarrow> mheap option" where
  "map_initialise m hash pool key_size s =
     (if m = NULL then None
      else do {
        _ \<leftarrow> kernel_assert (unat key_size \<le> MAP_MAX_KEY_LENGTH);
        Some (s\<lparr>maps := (maps s)(m \<mapsto>
          \<lparr>m_size = 0, m_key_size = key_size, m_buckets = (\<lambda>_. NULL), m_hash = hash, m_pool = pool\<rparr>)\<rparr>)
      })"

definition map_create ::
  "(u8 list \<Rightarrow> u32 \<Rightarrow> u32 option) \<Rightarrow> ptr \<Rightarrow> u32 \<Rightarrow> mheap \<Rightarrow> (ptr \<times> mheap) option" where
  "map_create hash pool key_size s = do {
     (m, as) \<leftarrow> mem_alloc pool (maps s) (m_answers s);
     let s = s\<lparr>m_answers := as\<rparr>;
     if m = NULL then Some (NULL, s)
     else do { s \<leftarrow> map_initialise m hash pool key_size s; Some (m, s) }
   }"

definition map_delete :: "ptr \<Rightarrow> mheap \<Rightarrow> mheap option" where
  "map_delete m s =
     (if m = NULL then Some s
      else do {
        mp \<leftarrow> maps s m;
        _ \<leftarrow> kernel_assert (\<forall>i\<in>set [0..<MAP_BUCKET_COUNT]. m_buckets mp i = NULL);
        if m_pool mp \<noteq> NULL then do {
          h \<leftarrow> mem_free (m_pool mp) m (maps s);
          Some (s\<lparr>maps := h\<rparr>)
        } else Some s
      })"

subsection \<open>Lookup\<close>

text \<open>The loop of \<open>map_get\<close> and \<open>map_contains_key\<close> over the entries of a bucket.\<close>

primrec map_search :: "map_entry_t pheap \<Rightarrow> nat \<Rightarrow> u8 list \<Rightarrow> ptr list \<Rightarrow> ptr option option" where
  "map_search h n key [] = Some None"
| "map_search h n key (e # es) =
     (if e = NULL then map_search h n key es
      else do {
        x \<leftarrow> h e;
        eq \<leftarrow> map_key_equals n (me_key x) key;
        if eq then Some (Some (me_value x)) else map_search h n key es
      })"

text \<open>The place for the value is the address of a variable of the caller, never null.\<close>

definition map_get :: "ptr \<Rightarrow> u8 list \<Rightarrow> mheap \<Rightarrow> ptr option option" where
  "map_get m key s = do {
     mp \<leftarrow> maps s m;
     index \<leftarrow> map_index_of mp key;
     if m_buckets mp index = NULL then Some None
     else do {
       bk \<leftarrow> buckets s (m_buckets mp index);
       map_search (entries s) (unat (m_key_size mp)) key (mb_entries bk)
     }
   }"

definition map_contains_key :: "ptr \<Rightarrow> u8 list \<Rightarrow> mheap \<Rightarrow> bool option" where
  "map_contains_key m key s =
     (if m = NULL then Some False
      else do {
        mp \<leftarrow> maps s m;
        index \<leftarrow> map_index_of mp key;
        if m_buckets mp index = NULL then Some False
        else do {
          bk \<leftarrow> buckets s (m_buckets mp index);
          r \<leftarrow> map_search (entries s) (unat (m_key_size mp)) key (mb_entries bk);
          Some (r \<noteq> None)
        }
      })"

subsection \<open>Update\<close>

text \<open>
  The loop of \<open>map_put\<close>: the first entry with the key, or else the first free place.  The
  integers that are -1 in the code are \<open>None\<close>.
\<close>

primrec map_put_search ::
  "map_entry_t pheap \<Rightarrow> nat \<Rightarrow> u8 list \<Rightarrow> ptr list \<Rightarrow> nat \<Rightarrow> nat option \<Rightarrow> nat option option" where
  "map_put_search h n key [] i unused = Some unused"
| "map_put_search h n key (e # es) i unused =
     (if e = NULL then
        map_put_search h n key es (Suc i) (case unused of None \<Rightarrow> Some i | Some u \<Rightarrow> Some u)
      else do {
        x \<leftarrow> h e;
        eq \<leftarrow> map_key_equals n (me_key x) key;
        if eq then Some (Some i) else map_put_search h n key es (Suc i) unused
      })"

text \<open>The bucket of an index, allocated when there is none yet; null when that fails.\<close>

definition map_put_bucket :: "ptr \<Rightarrow> nat \<Rightarrow> mheap \<Rightarrow> (ptr \<times> mheap) option" where
  "map_put_bucket m index s = do {
     mp \<leftarrow> maps s m;
     if m_buckets mp index = NULL then do {
       (b, as) \<leftarrow> mem_alloc (m_pool mp) (buckets s) (m_answers s);
       let s = s\<lparr>m_answers := as, maps := (maps s)(m \<mapsto> mp\<lparr>m_buckets := (m_buckets mp)(index := b)\<rparr>)\<rparr>;
       if b \<noteq> NULL
       then Some (b, s\<lparr>buckets := (buckets s)(b \<mapsto> \<lparr>mb_entries = replicate MAP_BUCKET_SIZE NULL\<rparr>)\<rparr>)
       else Some (NULL, s)
     } else Some (m_buckets mp index, s)
   }"

text \<open>
  The entry of the key is written into bucket \<open>b\<close>.  The code does not test the result of the
  allocation before it writes the entry, so a failure is an illegal access.
\<close>

definition map_put_entry :: "ptr \<Rightarrow> ptr \<Rightarrow> u8 list \<Rightarrow> ptr \<Rightarrow> mheap \<Rightarrow> (bool \<times> mheap) option" where
  "map_put_entry m b key value s = do {
     mp \<leftarrow> maps s m;
     bk \<leftarrow> buckets s b;
     slot \<leftarrow> map_put_search (entries s) (unat (m_key_size mp)) key (mb_entries bk) 0 None;
     (case slot of
        None \<Rightarrow> Some (False, s)
      | Some i \<Rightarrow> do {
          (e, as) \<leftarrow> mem_alloc (m_pool mp) (entries s) (m_answers s);
          if e = NULL then None
          else do {
            k \<leftarrow> map_copy_key (unat (m_key_size mp)) (replicate MAP_MAX_KEY_LENGTH 0) key;
            Some (True, s\<lparr>m_answers := as,
              entries := (entries s)(e \<mapsto> \<lparr>me_key = k, me_value = value\<rparr>),
              buckets := (buckets s)(b \<mapsto> \<lparr>mb_entries = (mb_entries bk)[i := e]\<rparr>),
              maps := (maps s)(m \<mapsto> mp\<lparr>m_size := m_size mp + 1\<rparr>)\<rparr>)
          }
        })
   }"

definition map_put :: "ptr \<Rightarrow> u8 list \<Rightarrow> ptr \<Rightarrow> mheap \<Rightarrow> (bool \<times> mheap) option" where
  "map_put m key value s = do {
     mp \<leftarrow> maps s m;
     if m_size mp < MAP_CAPACITY then do {
       index \<leftarrow> map_index_of mp key;
       (b, s) \<leftarrow> map_put_bucket m index s;
       if b \<noteq> NULL then map_put_entry m b key value s else Some (False, s)
     }
     else Some (False, s)
   }"

text \<open>
  The loop of \<open>map_remove\<close>: \<open>c\<close> counts the entries left, \<open>ok\<close> says that the key has been
  found; the list returned is the array of entries after the loop.
\<close>

primrec map_remove_loop ::
  "ptr \<Rightarrow> nat \<Rightarrow> u8 list \<Rightarrow> ptr list \<Rightarrow> bool \<Rightarrow> u8 \<Rightarrow> map_entry_t pheap \<Rightarrow>
     (bool \<times> u8 \<times> ptr list \<times> map_entry_t pheap) option" where
  "map_remove_loop pool n key [] ok c h = Some (ok, c, [], h)"
| "map_remove_loop pool n key (e # es) ok c h =
     (if e = NULL then do {
        (ok, c, es, h) \<leftarrow> map_remove_loop pool n key es ok c h;
        Some (ok, c, NULL # es, h)
      }
      else do {
        eq \<leftarrow> (if ok then Some False
               else do { x \<leftarrow> h e; map_key_equals n (me_key x) key });
        if eq then do {
          h \<leftarrow> mem_free pool e h;
          (ok, c, es, h) \<leftarrow> map_remove_loop pool n key es True c h;
          Some (ok, c, NULL # es, h)
        }
        else do {
          (ok, c, es, h) \<leftarrow> map_remove_loop pool n key es ok (c + 1) h;
          Some (ok, c, e # es, h)
        }
      })"

definition map_remove :: "ptr \<Rightarrow> u8 list \<Rightarrow> mheap \<Rightarrow> (bool \<times> mheap) option" where
  "map_remove m key s = do {
     mp \<leftarrow> maps s m;
     index \<leftarrow> map_index_of mp key;
     let b = m_buckets mp index;
     if b = NULL then Some (False, s)
     else do {
       bk \<leftarrow> buckets s b;
       (ok, c, es, h) \<leftarrow> map_remove_loop (m_pool mp) (unat (m_key_size mp)) key (mb_entries bk) False 0 (entries s);
       let mp = (if ok then mp\<lparr>m_size := m_size mp - 1\<rparr> else mp);
       let s = s\<lparr>entries := h\<rparr>;
       if c = 0 then do {
         bs \<leftarrow> mem_free (m_pool mp) b (buckets s);
         Some (ok, s\<lparr>buckets := bs,
                     maps := (maps s)(m \<mapsto> mp\<lparr>m_buckets := (m_buckets mp)(index := NULL)\<rparr>)\<rparr>)
       }
       else Some (ok, s\<lparr>buckets := (buckets s)(b \<mapsto> \<lparr>mb_entries = es\<rparr>), maps := (maps s)(m \<mapsto> mp)\<rparr>)
     }
   }"

definition map_size :: "ptr \<Rightarrow> mheap \<Rightarrow> u32 option" where
  "map_size m s = do { mp \<leftarrow> maps s m; Some (m_size mp) }"

definition map_capacity :: "ptr \<Rightarrow> mheap \<Rightarrow> u32 option" where
  "map_capacity m s = Some MAP_CAPACITY"

subsection \<open>Iterators\<close>

text \<open>The first entry of an array of entries, with its index.\<close>

primrec map_first_entry :: "nat \<Rightarrow> ptr list \<Rightarrow> (nat \<times> ptr) option" where
  "map_first_entry i [] = None"
| "map_first_entry i (e # es) = (if e \<noteq> NULL then Some (i, e) else map_first_entry (Suc i) es)"

text \<open>The first entry of the buckets with the given indices.\<close>

primrec map_it_scan ::
  "map_t \<Rightarrow> map_bucket_t pheap \<Rightarrow> nat list \<Rightarrow> (nat \<times> nat \<times> ptr) option option" where
  "map_it_scan mp bs [] = Some None"
| "map_it_scan mp bs (b # ix) =
     (if m_buckets mp b = NULL then map_it_scan mp bs ix
      else do {
        bk \<leftarrow> bs (m_buckets mp b);
        (case map_first_entry 0 (mb_entries bk) of
           None \<Rightarrow> map_it_scan mp bs ix
         | Some (i, e) \<Rightarrow> Some (Some (b, i, e)))
      })"

definition map_it_reset :: "ptr \<Rightarrow> mheap \<Rightarrow> mheap option" where
  "map_it_reset it s =
     (if it = NULL then Some s
      else do {
        i \<leftarrow> map_its s it;
        mp \<leftarrow> maps s (mi_map i);
        r \<leftarrow> map_it_scan mp (buckets s) [0..<MAP_BUCKET_COUNT];
        let i = (case r of
            None \<Rightarrow> i\<lparr>mi_map_entry := NULL, mi_map_bucket := NULL, mi_bucket := 0, mi_entry := 0\<rparr>
          | Some (b, j, e) \<Rightarrow> i\<lparr>mi_map_entry := e, mi_map_bucket := m_buckets mp b,
                                mi_bucket := of_nat b, mi_entry := of_nat j\<rparr>);
        Some (s\<lparr>map_its := (map_its s)(it \<mapsto> i)\<rparr>)
      })"

definition map_it_initialise :: "ptr \<Rightarrow> ptr \<Rightarrow> mheap \<Rightarrow> mheap option" where
  "map_it_initialise it m s =
     (if it = NULL \<or> m = NULL then Some s
      else do {
        h \<leftarrow> store it (\<lambda>i. i\<lparr>mi_map := m\<rparr>) (map_its s);
        map_it_reset it (s\<lparr>map_its := h\<rparr>)
      })"

text \<open>The fields of a new iterator are all written before they are read.\<close>

definition map_it_create :: "ptr \<Rightarrow> mheap \<Rightarrow> (ptr \<times> mheap) option" where
  "map_it_create m s =
     (if m = NULL then Some (NULL, s)
      else do {
        mp \<leftarrow> maps s m;
        if m_pool mp = NULL then Some (NULL, s)
        else do {
          (it, as) \<leftarrow> mem_alloc (m_pool mp) (map_its s) (m_answers s);
          let s = s\<lparr>m_answers := as\<rparr>;
          if it = NULL then Some (NULL, s)
          else do {
            s \<leftarrow> map_it_initialise it m (s\<lparr>map_its := (map_its s)(it \<mapsto>
              \<lparr>mi_map = NULL, mi_map_entry = NULL, mi_map_bucket = NULL, mi_bucket = 0, mi_entry = 0\<rparr>)\<rparr>);
            Some (it, s)
          }
        }
      })"

definition map_it_delete :: "ptr \<Rightarrow> mheap \<Rightarrow> mheap option" where
  "map_it_delete it s =
     (if it = NULL then Some s
      else do {
        i \<leftarrow> map_its s it;
        if mi_map i = NULL then Some s
        else do {
          mp \<leftarrow> maps s (mi_map i);
          if m_pool mp = NULL then Some s
          else do {
            h \<leftarrow> mem_free (m_pool mp) it (map_its s);
            Some (s\<lparr>map_its := h\<rparr>)
          }
        }
      })"

definition map_it_get :: "ptr \<Rightarrow> mheap \<Rightarrow> ptr option option" where
  "map_it_get it s =
     (if it = NULL then Some None
      else do {
        i \<leftarrow> map_its s it;
        if mi_map_entry i = NULL then Some None
        else do { x \<leftarrow> entries s (mi_map_entry i); Some (Some (me_value x)) }
      })"

definition map_it_next :: "ptr \<Rightarrow> mheap \<Rightarrow> (ptr option \<times> mheap) option" where
  "map_it_next it s =
     (if it = NULL then Some (None, s)
      else do {
        i \<leftarrow> map_its s it;
        let from = unat (mi_entry i + 1);
        here \<leftarrow> (if from < MAP_BUCKET_SIZE then do {
                   bk \<leftarrow> buckets s (mi_map_bucket i);
                   Some (map_first_entry from (drop from (mb_entries bk)))
                 } else Some None);
        (case here of
           Some (j, e) \<Rightarrow> do {
             x \<leftarrow> entries s e;
             Some (Some (me_value x),
                   s\<lparr>map_its := (map_its s)(it \<mapsto> i\<lparr>mi_map_entry := e, mi_entry := of_nat j\<rparr>)\<rparr>)
           }
         | None \<Rightarrow> do {
             mp \<leftarrow> maps s (mi_map i);
             r \<leftarrow> map_it_scan mp (buckets s) [unat (mi_bucket i + 1)..<MAP_BUCKET_COUNT];
             (case r of
                None \<Rightarrow> Some (None, s)
              | Some (b, j, e) \<Rightarrow> do {
                  x \<leftarrow> entries s e;
                  Some (Some (me_value x),
                        s\<lparr>map_its := (map_its s)(it \<mapsto> i\<lparr>mi_map_entry := e,
                            mi_map_bucket := m_buckets mp b, mi_bucket := of_nat b, mi_entry := of_nat j\<rparr>)\<rparr>)
                })
           })
      })"

end
