(* ===== verification/Map_Correct.thy ===== *)
theory Map_Correct
  imports Hashed_Map
begin

section \<open>The hash map: what its operations do\<close>

text \<open>
  The invariant \<open>mheap_ok\<close> of the heaps of all maps together, the contents \<open>map_view\<close> of a map
  as a function from keys to values, and what lookup, insertion and removal do to them.
\<close>

subsection \<open>Keys and entries\<close>

lemma map_key_equals_eq:
  "n \<le> length k1 \<Longrightarrow> n \<le> length k2 \<Longrightarrow> map_key_equals n k1 k2 = Some (take n k1 = take n k2)"
proof (induction n arbitrary: k1 k2)
  case (Suc n)
  then obtain a as b bs where "k1 = a # as" "k2 = b # bs"
    by (metis Suc_le_length_iff)
  with Suc show ?case by simp
qed simp

lemma map_copy_key_eq:
  "n \<le> length dst \<Longrightarrow> n \<le> length src \<Longrightarrow> map_copy_key n dst src = Some (take n src @ drop n dst)"
proof (induction n arbitrary: dst src)
  case (Suc n)
  then obtain a as b bs where "dst = a # as" "src = b # bs"
    by (metis Suc_le_length_iff)
  with Suc show ?case by simp
qed simp

text \<open>The pairs of keys and values of an array of entries, in their order.\<close>

primrec assoc_of :: "map_entry_t pheap \<Rightarrow> nat \<Rightarrow> ptr list \<Rightarrow> (u8 list \<times> ptr) list" where
  "assoc_of h n [] = []"
| "assoc_of h n (e # es) =
     (if e = NULL then assoc_of h n es
      else (take n (me_key (the (h e))), me_value (the (h e))) # assoc_of h n es)"

definition entries_ok :: "map_entry_t pheap \<Rightarrow> ptr list \<Rightarrow> bool" where
  "entries_ok h es \<longleftrightarrow> (\<forall>e\<in>set es. e \<noteq> NULL \<longrightarrow> (\<exists>x. h e = Some x \<and> length (me_key x) = MAP_MAX_KEY_LENGTH))"

lemma entries_ok_simps [simp]:
  "entries_ok h []"
  "entries_ok h (e # es) \<longleftrightarrow>
     (e \<noteq> NULL \<longrightarrow> (\<exists>x. h e = Some x \<and> length (me_key x) = MAP_MAX_KEY_LENGTH)) \<and> entries_ok h es"
  "entries_ok h (xs @ ys) \<longleftrightarrow> entries_ok h xs \<and> entries_ok h ys"
  by (auto simp: entries_ok_def)

lemma assoc_of_append [simp]: "assoc_of h n (xs @ ys) = assoc_of h n xs @ assoc_of h n ys"
  by (induction xs) auto

lemma assoc_of_fresh: "e \<notin> set es \<Longrightarrow> assoc_of (h(e := y)) n es = assoc_of h n es"
  by (induction es) auto

lemma entries_ok_fresh: "e \<notin> set es \<Longrightarrow> entries_ok (h(e := y)) es = entries_ok h es"
  by (auto simp: entries_ok_def)

lemma fresh_entry: "entries_ok h es \<Longrightarrow> h e = None \<Longrightarrow> e \<noteq> NULL \<Longrightarrow> e \<notin> set es"
  by (auto simp: entries_ok_def)

lemma assoc_of_empty [simp]: "assoc_of h n (replicate k NULL) = []"
  by (induction k) auto

lemma entries_ok_empty [simp]: "entries_ok h (replicate k NULL)"
  by (induction k) auto

lemma length_assoc_of: "length (assoc_of h n es) = length (filter (\<lambda>e. e \<noteq> NULL) es)"
  by (induction es) auto

subsection \<open>The loops over the entries of a bucket\<close>

lemma map_search_eq:
  assumes "entries_ok h es" "length key = n" "n \<le> MAP_MAX_KEY_LENGTH"
  shows "map_search h n key es = Some (map_of (assoc_of h n es) key)"
  using assms by (induction es) (auto simp: map_key_equals_eq)

text \<open>The place \<open>map_put\<close> writes to: that of the entry with the key, or else a free one.\<close>

definition put_place :: "map_entry_t pheap \<Rightarrow> nat \<Rightarrow> u8 list \<Rightarrow> ptr list \<Rightarrow> ptr \<Rightarrow> ptr list \<Rightarrow> bool" where
  "put_place h n key xs e ys \<longleftrightarrow>
     (if e = NULL then key \<notin> fst ` set (assoc_of h n (xs @ e # ys))
      else take n (me_key (the (h e))) = key)"

lemma map_put_search_present:
  assumes "entries_ok h es" "length key = n" "n \<le> MAP_MAX_KEY_LENGTH"
    "key \<in> fst ` set (assoc_of h n es)"
  shows "\<exists>xs e ys. es = xs @ e # ys \<and> e \<noteq> NULL \<and> take n (me_key (the (h e))) = key \<and>
           map_put_search h n key es i u = Some (Some (i + length xs))"
  using assms
proof (induction es arbitrary: i u)
  case (Cons e es)
  show ?case
  proof (cases "e \<noteq> NULL \<and> take n (me_key (the (h e))) = key")
    case True
    with Cons.prems show ?thesis
      by (intro exI [of _ "[]"] exI [of _ e] exI [of _ es]) (auto simp: map_key_equals_eq)
  next
    case False
    define u' where "u' = (if e = NULL then (case u of None \<Rightarrow> Some i | Some v \<Rightarrow> Some v) else u)"
    from False Cons.prems have "key \<in> fst ` set (assoc_of h n es)"
      by (auto split: if_splits)
    with Cons.prems obtain xs d ys where *: "es = xs @ d # ys" "d \<noteq> NULL" "take n (me_key (the (h d))) = key"
      "map_put_search h n key es (Suc i) u' = Some (Some (Suc i + length xs))"
      using Cons.IH [of "Suc i" u'] by auto
    moreover have "map_put_search h n key (e # es) i u = map_put_search h n key es (Suc i) u'"
      using False Cons.prems by (auto simp: u'_def map_key_equals_eq)
    ultimately show ?thesis
      by (intro exI [of _ "e # xs"] exI [of _ d] exI [of _ ys]) simp
  qed
qed simp

lemma map_put_search_some:
  assumes "entries_ok h es" "length key = n" "n \<le> MAP_MAX_KEY_LENGTH"
    "key \<notin> fst ` set (assoc_of h n es)"
  shows "map_put_search h n key es i (Some u) = Some (Some u)"
  using assms by (induction es arbitrary: i) (auto simp: map_key_equals_eq)

lemma map_put_search_absent:
  assumes "entries_ok h es" "length key = n" "n \<le> MAP_MAX_KEY_LENGTH"
    "key \<notin> fst ` set (assoc_of h n es)"
  shows "if NULL \<in> set es
         then \<exists>xs ys. es = xs @ NULL # ys \<and> map_put_search h n key es i None = Some (Some (i + length xs))
         else map_put_search h n key es i None = Some None"
  using assms
proof (induction es arbitrary: i)
  case (Cons e es)
  show ?case
  proof (cases "e = NULL")
    case True
    then have "map_put_search h n key (e # es) i None = Some (Some i)"
      using Cons.prems map_put_search_some [of h es key n] by simp
    with True show ?thesis by (auto intro!: exI [of _ "[]"])
  next
    case False
    with Cons.prems have step: "map_put_search h n key (e # es) i None = map_put_search h n key es (Suc i) None"
      by (auto simp: map_key_equals_eq)
    have ih: "if NULL \<in> set es
         then \<exists>xs ys. es = xs @ NULL # ys \<and> map_put_search h n key es (Suc i) None = Some (Some (Suc i + length xs))
         else map_put_search h n key es (Suc i) None = Some None"
      using Cons.prems False by (intro Cons.IH) auto
    show ?thesis
    proof (cases "NULL \<in> set es")
      case True
      with ih obtain xs ys where "es = xs @ NULL # ys"
        "map_put_search h n key es (Suc i) None = Some (Some (Suc i + length xs))" by auto
      with step True have "e # es = (e # xs) @ NULL # ys \<and>
        map_put_search h n key (e # es) i None = Some (Some (i + length (e # xs)))" by simp
      with True show ?thesis by (metis list.set_intros(2))
    next
      case False
      with ih step \<open>e \<noteq> NULL\<close> show ?thesis by auto
    qed
  qed
qed simp

lemma map_put_search_result:
  assumes "entries_ok h es" "length key = n" "n \<le> MAP_MAX_KEY_LENGTH"
  obtains (full) "map_put_search h n key es 0 None = Some None" "NULL \<notin> set es"
      "key \<notin> fst ` set (assoc_of h n es)"
    | (place) xs e ys where "map_put_search h n key es 0 None = Some (Some (length xs))"
      "es = xs @ e # ys" "put_place h n key xs e ys"
proof (cases "key \<in> fst ` set (assoc_of h n es)")
  case True
  with map_put_search_present [OF assms, of 0 None] obtain xs e ys where
    "es = xs @ e # ys" "e \<noteq> NULL" "take n (me_key (the (h e))) = key"
    "map_put_search h n key es 0 None = Some (Some (length xs))" by auto
  then show thesis by (intro place [of xs e ys]) (auto simp: put_place_def)
next
  case False
  note absent = map_put_search_absent [OF assms False, of 0]
  show thesis
  proof (cases "NULL \<in> set es")
    case True
    with absent obtain xs ys where
      "es = xs @ NULL # ys" "map_put_search h n key es 0 None = Some (Some (length xs))" by auto
    with False show thesis by (intro place [of xs NULL ys]) (auto simp: put_place_def)
  next
    case n: False
    with absent False show thesis by (intro full) auto
  qed
qed

lemma map_remove_loop_done:
  "map_remove_loop pool n key es True c h = Some (True, c + of_nat (length (assoc_of h n es)), es, h)"
  by (induction es arbitrary: c) (auto simp: algebra_simps)

lemma map_remove_loop_absent:
  assumes "entries_ok h es" "length key = n" "n \<le> MAP_MAX_KEY_LENGTH"
    "key \<notin> fst ` set (assoc_of h n es)"
  shows "map_remove_loop pool n key es False c h =
           Some (False, c + of_nat (length (assoc_of h n es)), es, h)"
  using assms by (induction es arbitrary: c) (auto simp: map_key_equals_eq algebra_simps)

lemma map_remove_loop_present:
  assumes "entries_ok h es" "length key = n" "n \<le> MAP_MAX_KEY_LENGTH" "pool \<noteq> NULL"
    "key \<in> fst ` set (assoc_of h n es)"
    "distinct (filter (\<lambda>e. e \<noteq> NULL) es)"
  shows "\<exists>xs e ys. es = xs @ e # ys \<and> e \<noteq> NULL \<and> take n (me_key (the (h e))) = key \<and>
    map_remove_loop pool n key es False c h =
      Some (True, c + of_nat (length (assoc_of h n (xs @ ys))), xs @ NULL # ys, h(e := None))"
  using assms
proof (induction es arbitrary: c)
  case (Cons e es)
  show ?case
  proof (cases "e \<noteq> NULL \<and> take n (me_key (the (h e))) = key")
    case True
    with Cons.prems have "e \<notin> set es" by auto
    with True Cons.prems have "map_remove_loop pool n key (e # es) False c h =
        Some (True, c + of_nat (length (assoc_of h n ([] @ es))), [] @ NULL # es, h(e := None))"
      by (auto simp: map_key_equals_eq mem_free_def map_remove_loop_done assoc_of_fresh)
    with True show ?thesis by (metis append_Nil)
  next
    case False
    define c' where "c' = (if e = NULL then c else c + 1)"
    from False Cons.prems have "key \<in> fst ` set (assoc_of h n es)" "distinct (filter (\<lambda>e. e \<noteq> NULL) es)"
      "entries_ok h es"
      by (auto split: if_splits)
    from Cons.IH [OF this(3) Cons.prems(2-4) this(1) this(2), of c'] obtain xs d ys where *: "es = xs @ d # ys" "d \<noteq> NULL" "take n (me_key (the (h d))) = key"
      "map_remove_loop pool n key es False c' h =
        Some (True, c' + of_nat (length (assoc_of h n (xs @ ys))), xs @ NULL # ys, h(d := None))"
      by blast
    have "map_remove_loop pool n key (e # es) False c h =
        Some (True, c' + of_nat (length (assoc_of h n (xs @ ys))), e # xs @ NULL # ys, h(d := None))"
      using False Cons.prems * by (auto simp: c'_def map_key_equals_eq)
    then show ?thesis
      using * False
      by (intro exI [of _ "e # xs"] exI [of _ d] exI [of _ ys]) (auto simp: c'_def algebra_simps)
  qed
qed simp

subsection \<open>Invariant and contents\<close>

definition bucket_ok :: "mheap \<Rightarrow> map_bucket_t \<Rightarrow> bool" where
  "bucket_ok s bk \<longleftrightarrow> length (mb_entries bk) = MAP_BUCKET_SIZE \<and>
     distinct (filter (\<lambda>e. e \<noteq> NULL) (mb_entries bk)) \<and> entries_ok (entries s) (mb_entries bk)"

text \<open>The pairs stored in bucket \<open>i\<close> of a map.\<close>

definition assoc_at :: "mheap \<Rightarrow> map_t \<Rightarrow> nat \<Rightarrow> (u8 list \<times> ptr) list" where
  "assoc_at s mp i =
     (case buckets s (m_buckets mp i) of
        None \<Rightarrow> []
      | Some bk \<Rightarrow> assoc_of (entries s) (unat (m_key_size mp)) (mb_entries bk))"

text \<open>
  A map is well formed when its keys fit into an entry, its hash is defined on every key, and
  every bucket holds keys of its own index, each at most once.
\<close>

definition map_good :: "mheap \<Rightarrow> map_t \<Rightarrow> bool" where
  "map_good s mp \<longleftrightarrow> m_pool mp \<noteq> NULL \<and> unat (m_key_size mp) \<le> MAP_MAX_KEY_LENGTH \<and>
     (\<forall>k. length k = unat (m_key_size mp) \<longrightarrow> m_hash mp k (m_key_size mp) \<noteq> None) \<and>
     (\<forall>i<MAP_BUCKET_COUNT. (m_buckets mp i \<noteq> NULL \<longrightarrow> buckets s (m_buckets mp i) \<noteq> None) \<and>
        distinct (map fst (assoc_at s mp i)) \<and>
        (\<forall>k\<in>fst ` set (assoc_at s mp i). map_index_of mp k = Some i))"

definition mheap_ok :: "mheap \<Rightarrow> bool" where
  "mheap_ok s \<longleftrightarrow>
     (\<forall>b bk. buckets s b = Some bk \<longrightarrow> b \<noteq> NULL \<and> bucket_ok s bk) \<and>
     (\<forall>b b' bk bk'. buckets s b = Some bk \<and> buckets s b' = Some bk' \<and> b \<noteq> b' \<longrightarrow>
        set (mb_entries bk) \<inter> set (mb_entries bk') \<subseteq> {NULL}) \<and>
     (\<forall>m mp. maps s m = Some mp \<longrightarrow> m \<noteq> NULL \<and> map_good s mp) \<and>
     (\<forall>m mp m' mp' i i'. maps s m = Some mp \<and> maps s m' = Some mp' \<and> i < MAP_BUCKET_COUNT \<and>
        i' < MAP_BUCKET_COUNT \<and> m_buckets mp i = m_buckets mp' i' \<and> m_buckets mp i \<noteq> NULL \<longrightarrow>
        m = m' \<and> i = i')"

definition map_live :: "ptr \<Rightarrow> mheap \<Rightarrow> bool" where
  "map_live m s \<longleftrightarrow> maps s m \<noteq> None"

definition map_key_ok :: "ptr \<Rightarrow> mheap \<Rightarrow> u8 list \<Rightarrow> bool" where
  "map_key_ok m s k \<longleftrightarrow> (\<exists>mp. maps s m = Some mp \<and> length k = unat (m_key_size mp))"

text \<open>The contents of a map: the value of each key.\<close>

definition map_view :: "ptr \<Rightarrow> mheap \<Rightarrow> u8 list \<Rightarrow> ptr option" where
  "map_view m s k =
     (case maps s m of
        None \<Rightarrow> None
      | Some mp \<Rightarrow>
          (if length k = unat (m_key_size mp)
           then (case map_index_of mp k of None \<Rightarrow> None | Some i \<Rightarrow> map_of (assoc_at s mp i) k)
           else None))"

lemma map_index_of_bound:
  assumes "map_index_of mp key = Some i"
  shows "i < MAP_BUCKET_COUNT"
proof -
  from assms obtain h :: u32 where i: "i = unat (h AND 2046)"
    by (auto simp: map_index_of_def MAP_BUCKET_COUNT_def bind_eq_Some_conv)
  have "h AND 2046 \<le> 2046" by (rule word_and_le1)
  then have "unat (h AND 2046) \<le> 2046" by (simp add: word_le_nat_alt)
  with i show ?thesis by (simp add: MAP_BUCKET_COUNT_def)
qed

text \<open>The mask 2046 has its lowest bit clear: a bucket with an odd index is never used.\<close>

lemma map_index_of_even:
  assumes "map_index_of mp key = Some i"
  shows "even i"
proof -
  from assms obtain h :: u32 where i: "i = unat (h AND 2046)"
    by (auto simp: map_index_of_def MAP_BUCKET_COUNT_def bind_eq_Some_conv)
  have "even (unat (h AND 2046))" by transfer (simp add: even_nat_iff even_and_iff)
  with i show ?thesis by simp
qed

lemma map_index_of_upd [simp]:
  "map_index_of (mp\<lparr>m_size := n\<rparr>) k = map_index_of mp k"
  "map_index_of (mp\<lparr>m_buckets := bs\<rparr>) k = map_index_of mp k"
  by (simp_all add: map_index_of_def map_hash_def)

lemma map_index_total:
  assumes "map_good s mp" "length k = unat (m_key_size mp)"
  obtains i where "map_index_of mp k = Some i" "i < MAP_BUCKET_COUNT"
proof -
  from assms obtain h where "m_hash mp k (m_key_size mp) = Some h"
    unfolding map_good_def by blast
  then have "map_index_of mp k \<noteq> None"
    by (simp add: map_index_of_def map_hash_def Let_def)
  then show thesis using that map_index_of_bound by blast
qed

lemma mheap_ok_bucket:
  "mheap_ok s \<Longrightarrow> buckets s b = Some bk \<Longrightarrow> b \<noteq> NULL \<and> bucket_ok s bk"
  unfolding mheap_ok_def by blast

lemma mheap_ok_null [simp]: "mheap_ok s \<Longrightarrow> buckets s NULL = None" "mheap_ok s \<Longrightarrow> maps s NULL = None"
  unfolding mheap_ok_def by (metis not_None_eq)+

lemma mheap_ok_map: "mheap_ok s \<Longrightarrow> maps s m = Some mp \<Longrightarrow> map_good s mp"
  unfolding mheap_ok_def by blast

lemma mheap_ok_owner:
  "mheap_ok s \<Longrightarrow> maps s m = Some mp \<Longrightarrow> maps s m' = Some mp' \<Longrightarrow> i < MAP_BUCKET_COUNT \<Longrightarrow>
   i' < MAP_BUCKET_COUNT \<Longrightarrow> m_buckets mp i = m_buckets mp' i' \<Longrightarrow> m_buckets mp i \<noteq> NULL \<Longrightarrow>
   m = m' \<and> i = i'"
  unfolding mheap_ok_def by blast

lemma mheap_ok_disjoint:
  "mheap_ok s \<Longrightarrow> buckets s b = Some bk \<Longrightarrow> buckets s b' = Some bk' \<Longrightarrow> b \<noteq> b' \<Longrightarrow>
   set (mb_entries bk) \<inter> set (mb_entries bk') \<subseteq> {NULL}"
  unfolding mheap_ok_def by blast

lemma map_good_bucket:
  "map_good s mp \<Longrightarrow> i < MAP_BUCKET_COUNT \<Longrightarrow> m_buckets mp i \<noteq> NULL \<Longrightarrow>
   \<exists>bk. buckets s (m_buckets mp i) = Some bk"
  unfolding map_good_def by blast

lemma map_good_distinct:
  "map_good s mp \<Longrightarrow> i < MAP_BUCKET_COUNT \<Longrightarrow> distinct (map fst (assoc_at s mp i))"
  unfolding map_good_def by blast

subsection \<open>Lookup\<close>

lemma map_get_view:
  assumes "mheap_ok s" "map_key_ok m s k"
  shows "map_get m k s = Some (map_view m s k)"
proof -
  from assms obtain mp where mp: "maps s m = Some mp" and k: "length k = unat (m_key_size mp)"
    by (auto simp: map_key_ok_def)
  note good = mheap_ok_map [OF assms(1) mp]
  obtain i where i: "map_index_of mp k = Some i" "i < MAP_BUCKET_COUNT"
    using map_index_total [OF good k] .
  have n: "unat (m_key_size mp) \<le> MAP_MAX_KEY_LENGTH" using good by (simp add: map_good_def)
  show ?thesis
  proof (cases "m_buckets mp i = NULL")
    case True
    then show ?thesis
      using mp k i assms(1) by (simp add: map_get_def map_view_def assoc_at_def)
  next
    case False
    then obtain bk where bk: "buckets s (m_buckets mp i) = Some bk"
      using map_good_bucket [OF good i(2)] by blast
    then have "entries_ok (entries s) (mb_entries bk)"
      using mheap_ok_bucket [OF assms(1) bk] by (simp add: bucket_ok_def)
    then show ?thesis
      using mp k i bk False n
      by (simp add: map_get_def map_view_def assoc_at_def map_search_eq)
  qed
qed

lemma map_contains_key_get:
  assumes "m \<noteq> NULL"
  shows "map_contains_key m k s = do { r \<leftarrow> map_get m k s; Some (r \<noteq> None) }"
  using assms
  by (auto simp: map_contains_key_def map_get_def split: option.split if_split bind_split)

end
