(* ===== verification/Map_Update.thy ===== *)
theory Map_Update
  imports Map_Correct
begin

section \<open>The hash map: insertion and removal\<close>

text \<open>
  Every update of a map replaces the contents of one bucket.  \<open>bucket_change\<close> states what such
  a replacement does to the invariant and to the contents of all maps; the lemmas about
  \<open>map_put\<close> and \<open>map_remove\<close> are instances of it.
\<close>

lemma assoc_of_cong:
  "(\<And>e. e \<in> set es \<Longrightarrow> e \<noteq> NULL \<Longrightarrow> h' e = h e) \<Longrightarrow> assoc_of h' n es = assoc_of h n es"
  by (induction es) auto

lemma entries_ok_cong:
  "(\<And>e. e \<in> set es \<Longrightarrow> e \<noteq> NULL \<Longrightarrow> h' e = h e) \<Longrightarrow> entries_ok h' es = entries_ok h es"
  by (auto simp: entries_ok_def)

lemma map_index_of_cong:
  "m_hash mp' = m_hash mp \<Longrightarrow> m_key_size mp' = m_key_size mp \<Longrightarrow> map_index_of mp' = map_index_of mp"
  by (rule ext) (simp add: map_index_of_def map_hash_def)

subsection \<open>Replacing one bucket\<close>

text \<open>Bucket \<open>i\<close> of map \<open>m\<close> becomes \<open>b'\<close> with the contents \<open>nb\<close>; the old one is gone unless it is \<open>b'\<close>.\<close>

definition bucket_swap ::
  "ptr \<Rightarrow> map_t \<Rightarrow> nat \<Rightarrow> ptr \<Rightarrow> map_bucket_t option \<Rightarrow> map_t \<Rightarrow> mheap \<Rightarrow> mheap \<Rightarrow> bool" where
  "bucket_swap m mp i b' nb mp' s s' \<longleftrightarrow>
     maps s m = Some mp \<and> i < MAP_BUCKET_COUNT \<and> maps s' = (maps s)(m \<mapsto> mp') \<and>
     m_hash mp' = m_hash mp \<and> m_key_size mp' = m_key_size mp \<and> m_pool mp' = m_pool mp \<and>
     m_buckets mp' = (m_buckets mp)(i := b') \<and>
     buckets s' = (buckets s)(m_buckets mp i := None, b' := nb) \<and>
     (b' = NULL) = (nb = None) \<and>
     (b' \<noteq> NULL \<longrightarrow> b' \<noteq> m_buckets mp i \<longrightarrow> buckets s b' = None) \<and>
     (\<forall>b bk e. buckets s b = Some bk \<longrightarrow> b \<noteq> m_buckets mp i \<longrightarrow> e \<in> set (mb_entries bk) \<longrightarrow>
        e \<noteq> NULL \<longrightarrow> entries s' e = entries s e)"

lemma bucket_swap_other:
  assumes "bucket_swap m mp i b' nb mp' s s'" "b \<noteq> m_buckets mp i" "b \<noteq> b'"
  shows "buckets s' b = buckets s b"
    and "buckets s b = Some bk \<Longrightarrow> assoc_of (entries s') n (mb_entries bk) = assoc_of (entries s) n (mb_entries bk)"
    and "buckets s b = Some bk \<Longrightarrow> entries_ok (entries s') (mb_entries bk) = entries_ok (entries s) (mb_entries bk)"
  using assms unfolding bucket_swap_def
  by (auto intro!: assoc_of_cong entries_ok_cong)

lemma bucket_swap_owned:
  assumes "mheap_ok s" "bucket_swap m mp i b' nb mp' s s'" "maps s m2 = Some mp2" "j < MAP_BUCKET_COUNT"
    "m2 \<noteq> m \<or> j \<noteq> i"
  shows "m_buckets mp2 j = NULL \<or> m_buckets mp2 j \<noteq> m_buckets mp i \<and> m_buckets mp2 j \<noteq> b'"
proof (rule ccontr)
  assume "\<not> ?thesis"
  then have nn: "m_buckets mp2 j \<noteq> NULL" and c: "m_buckets mp2 j = m_buckets mp i \<or> m_buckets mp2 j = b'" by auto
  note sw = assms(2) [unfolded bucket_swap_def]
  have ne: "m_buckets mp2 j \<noteq> m_buckets mp i"
    using mheap_ok_owner [OF assms(1,3), of m mp j i] sw assms(4,5) nn by auto
  with c nn sw have "buckets s (m_buckets mp2 j) = None" by auto
  with map_good_bucket [OF mheap_ok_map [OF assms(1,3)] assms(4) nn] show False by simp
qed

lemma bucket_swap_assoc:
  assumes "mheap_ok s" "bucket_swap m mp i b' nb mp' s s'" "maps s m2 = Some mp2" "j < MAP_BUCKET_COUNT"
    "m2 \<noteq> m \<or> j \<noteq> i"
  shows "assoc_at s' mp2 j = assoc_at s mp2 j"
proof (cases "m_buckets mp2 j = NULL")
  case True
  note sw = assms(2) [unfolded bucket_swap_def]
  have "buckets s' NULL = None" using sw assms(1) by auto
  with True assms(1) show ?thesis by (simp add: assoc_at_def)
next
  case False
  with bucket_swap_owned [OF assms] have ne: "m_buckets mp2 j \<noteq> m_buckets mp i" "m_buckets mp2 j \<noteq> b'" by auto
  show ?thesis
    using bucket_swap_other [OF assms(2) ne] by (auto simp: assoc_at_def split: option.splits)
qed

lemma bucket_swap_assoc_self:
  assumes "mheap_ok s" "bucket_swap m mp i b' nb mp' s s'" "j < MAP_BUCKET_COUNT" "j \<noteq> i"
  shows "assoc_at s' mp' j = assoc_at s mp j"
proof -
  note sw = assms(2) [unfolded bucket_swap_def]
  have "m_buckets mp' j = m_buckets mp j" "m_key_size mp' = m_key_size mp"
    using sw assms(4) by auto
  then have "assoc_at s' mp' j = assoc_at s' mp j"
    by (simp add: assoc_at_def cong: option.case_cong)
  also have "\<dots> = assoc_at s mp j"
    using bucket_swap_assoc [OF assms(1,2) _ assms(3), of m mp] sw assms(4) by simp
  finally show ?thesis .
qed

text \<open>The new contents of the bucket: well formed, with entries and keys of its own.\<close>

definition bucket_fits :: "ptr \<Rightarrow> map_t \<Rightarrow> nat \<Rightarrow> map_bucket_t option \<Rightarrow> mheap \<Rightarrow> mheap \<Rightarrow> bool" where
  "bucket_fits b0 mp' i nb s s' \<longleftrightarrow>
     (\<forall>bk'. nb = Some bk' \<longrightarrow> bucket_ok s' bk' \<and>
        (\<forall>b bk. buckets s b = Some bk \<longrightarrow> b \<noteq> b0 \<longrightarrow> set (mb_entries bk) \<inter> set (mb_entries bk') \<subseteq> {NULL})) \<and>
     distinct (map fst (assoc_at s' mp' i)) \<and>
     (\<forall>k\<in>fst ` set (assoc_at s' mp' i). map_index_of mp' k = Some i)"

lemma bucket_change_buckets:
  assumes "mheap_ok s" "bucket_swap m mp i b' nb mp' s s'" "bucket_fits (m_buckets mp i) mp' i nb s s'"
    "buckets s' b = Some bk"
  shows "b \<noteq> NULL \<and> bucket_ok s' bk"
proof (cases "b = b'")
  case True
  with assms show ?thesis by (auto simp: bucket_swap_def bucket_fits_def)
next
  case False
  with assms(2,4) have "b \<noteq> m_buckets mp i" "buckets s b = Some bk"
    by (auto simp: bucket_swap_def split: if_splits)
  with mheap_ok_bucket [OF assms(1)] bucket_swap_other(3) [OF assms(2) _ False] show ?thesis
    by (simp add: bucket_ok_def)
qed

lemma bucket_change_disjoint:
  assumes "mheap_ok s" "bucket_swap m mp i b' nb mp' s s'" "bucket_fits (m_buckets mp i) mp' i nb s s'"
    "buckets s' b = Some bk" "buckets s' c = Some ck" "b \<noteq> c"
  shows "set (mb_entries bk) \<inter> set (mb_entries ck) \<subseteq> {NULL}"
proof -
  have old: "b \<noteq> m_buckets mp i \<and> buckets s b = Some bk" if "b \<noteq> b'" "buckets s' b = Some bk" for b bk
    using that assms(2) by (auto simp: bucket_swap_def split: if_splits)
  have new: "nb = Some bk" if "buckets s' b' = Some bk" for bk
    using that assms(2) by (auto simp: bucket_swap_def)
  have fit: "set (mb_entries bk) \<inter> set (mb_entries bk') \<subseteq> {NULL}"
    if "nb = Some bk'" "buckets s b = Some bk" "b \<noteq> m_buckets mp i" for b bk bk'
    using that assms(3) unfolding bucket_fits_def by blast
  consider "b = b'" | "c = b'" | "b \<noteq> b'" "c \<noteq> b'" by blast
  then show ?thesis
  proof cases
    case 1
    then have "nb = Some bk" using new assms(4) by simp
    then show ?thesis using old [of c ck] fit [of bk c ck] assms(5,6) 1 by auto
  next
    case 2
    then have "nb = Some ck" using new assms(5) by simp
    then show ?thesis using old [of b bk] fit [of ck b bk] assms(4,6) 2 by auto
  next
    case 3
    with old assms(4,5) have "buckets s b = Some bk" "buckets s c = Some ck" by auto
    then show ?thesis using mheap_ok_disjoint [OF assms(1)] assms(6) by blast
  qed
qed

lemma bucket_change_other_map:
  assumes "mheap_ok s" "bucket_swap m mp i b' nb mp' s s'" "maps s m2 = Some mp2" "m2 \<noteq> m"
  shows "map_good s' mp2"
proof -
  have good: "map_good s mp2" by (rule mheap_ok_map [OF assms(1,3)])
  have assoc: "assoc_at s' mp2 j = assoc_at s mp2 j" if "j < MAP_BUCKET_COUNT" for j
    using bucket_swap_assoc [OF assms(1-3) that] assms(4) by blast
  have live: "buckets s' (m_buckets mp2 j) \<noteq> None" if "j < MAP_BUCKET_COUNT" "m_buckets mp2 j \<noteq> NULL" for j
    using bucket_swap_owned [OF assms(1-3) that(1)] bucket_swap_other(1) [OF assms(2)]
      map_good_bucket [OF good that] assms(4) that(2) by auto
  show ?thesis
    using good assoc live unfolding map_good_def by simp
qed

lemma bucket_change_self:
  assumes "mheap_ok s" "bucket_swap m mp i b' nb mp' s s'" "bucket_fits (m_buckets mp i) mp' i nb s s'"
  shows "map_good s' mp'"
proof -
  note sw = assms(2) [unfolded bucket_swap_def]
  have good: "map_good s mp" using mheap_ok_map [OF assms(1)] sw by blast
  have ix: "map_index_of mp' = map_index_of mp" using sw by (intro map_index_of_cong) auto
  have "(m_buckets mp' j \<noteq> NULL \<longrightarrow> buckets s' (m_buckets mp' j) \<noteq> None) \<and>
        distinct (map fst (assoc_at s' mp' j)) \<and>
        (\<forall>k\<in>fst ` set (assoc_at s' mp' j). map_index_of mp' k = Some j)" if j: "j < MAP_BUCKET_COUNT" for j
  proof (cases "j = i")
    case True
    have "m_buckets mp' i \<noteq> NULL \<longrightarrow> buckets s' (m_buckets mp' i) \<noteq> None" using sw by auto
    with True assms(3) show ?thesis by (auto simp: bucket_fits_def)
  next
    case False
    have assoc: "assoc_at s' mp' j = assoc_at s mp j"
      by (rule bucket_swap_assoc_self [OF assms(1,2) j False])
    have bk: "m_buckets mp' j = m_buckets mp j" using sw False by simp
    have "m_buckets mp j \<noteq> NULL \<longrightarrow> buckets s' (m_buckets mp j) \<noteq> None"
      using bucket_swap_owned [OF assms(1,2) _ j, of m mp] bucket_swap_other(1) [OF assms(2)]
        map_good_bucket [OF good j] sw False by auto
    with good j assoc bk ix show ?thesis unfolding map_good_def by simp
  qed
  then show ?thesis using good sw unfolding map_good_def by simp
qed

lemma bucket_change_owner:
  assumes "mheap_ok s" "bucket_swap m mp i b' nb mp' s s'"
    "maps s' m1 = Some mp1" "maps s' m2 = Some mp2" "j1 < MAP_BUCKET_COUNT" "j2 < MAP_BUCKET_COUNT"
    "m_buckets mp1 j1 = m_buckets mp2 j2" "m_buckets mp1 j1 \<noteq> NULL"
  shows "m1 = m2 \<and> j1 = j2"
proof -
  note sw = assms(2) [unfolded bucket_swap_def]
  have cases: "m' = m \<and> j = i \<and> m_buckets q j = b' \<or>
      (m' \<noteq> m \<or> j \<noteq> i) \<and> (\<exists>q0. maps s m' = Some q0 \<and> m_buckets q j = m_buckets q0 j)"
    if "maps s' m' = Some q" for m' q j
    using that sw by (auto split: if_splits)
  have off: "m_buckets q j \<noteq> b'" if "maps s m' = Some q" "m' \<noteq> m \<or> j \<noteq> i" "j < MAP_BUCKET_COUNT"
    "m_buckets q j \<noteq> NULL" for m' q j
    using bucket_swap_owned [OF assms(1,2) that(1,3,2)] that(4) by blast
  show ?thesis
    using cases [OF assms(3), of j1] cases [OF assms(4), of j2] off assms(5-8)
      mheap_ok_owner [OF assms(1)] by metis
qed

lemma bucket_change_ok:
  assumes "mheap_ok s" "bucket_swap m mp i b' nb mp' s s'" "bucket_fits (m_buckets mp i) mp' i nb s s'"
  shows "mheap_ok s'"
proof -
  note sw = assms(2) [unfolded bucket_swap_def]
  have "m' \<noteq> NULL \<and> map_good s' q" if "maps s' m' = Some q" for m' q
  proof (cases "m' = m")
    case True
    with that sw have "q = mp'" by simp
    moreover have "m \<noteq> NULL" using sw mheap_ok_null(2) [OF assms(1)] by auto
    ultimately show ?thesis using True bucket_change_self [OF assms] by simp
  next
    case False
    with that sw have q: "maps s m' = Some q" by simp
    then have "m' \<noteq> NULL" using mheap_ok_null(2) [OF assms(1)] by auto
    then show ?thesis using bucket_change_other_map [OF assms(1,2) q False] by simp
  qed
  moreover note bucket_change_buckets [OF assms] bucket_change_disjoint [OF assms]
    bucket_change_owner [OF assms(1,2)]
  ultimately show ?thesis unfolding mheap_ok_def by blast
qed

lemma bucket_change_view:
  assumes "mheap_ok s" "bucket_swap m mp i b' nb mp' s s'"
  shows "m2 \<noteq> m \<Longrightarrow> map_view m2 s' = map_view m2 s"
    and "map_view m s' k =
      (if length k = unat (m_key_size mp) \<and> map_index_of mp k = Some i
       then map_of (assoc_at s' mp' i) k else map_view m s k)"
    and "map_live m2 s' = map_live m2 s"
    and "map_key_ok m2 s' = map_key_ok m2 s"
proof -
  note sw = assms(2) [unfolded bucket_swap_def]
  have ix: "map_index_of mp' = map_index_of mp" using sw by (intro map_index_of_cong) auto
  show "map_view m2 s' = map_view m2 s" if "m2 \<noteq> m"
  proof (rule ext)
    fix k
    show "map_view m2 s' k = map_view m2 s k"
      using that sw bucket_swap_assoc [OF assms, of m2]
      by (auto simp: map_view_def map_index_of_bound split: option.splits)
  qed
  show "map_view m s' k =
      (if length k = unat (m_key_size mp) \<and> map_index_of mp k = Some i
       then map_of (assoc_at s' mp' i) k else map_view m s k)"
    using sw ix bucket_swap_assoc_self [OF assms]
    by (auto simp: map_view_def map_index_of_bound split: option.splits)
  show "map_live m2 s' = map_live m2 s" using sw by (auto simp: map_live_def)
  show "map_key_ok m2 s' = map_key_ok m2 s" using sw by (auto simp: map_key_ok_def fun_eq_iff)
qed

subsection \<open>Insertion\<close>

text \<open>Nothing of a map depends on the answers of the allocator still to come.\<close>

lemma assoc_at_answers [simp]: "assoc_at (s\<lparr>m_answers := as\<rparr>) = assoc_at s"
  by (intro ext) (simp add: assoc_at_def cong: option.case_cong)

lemma answers_irrelevant [simp]:
  "mheap_ok (s\<lparr>m_answers := as\<rparr>) = mheap_ok s"
  "map_view m (s\<lparr>m_answers := as\<rparr>) = map_view m s"
  "map_live m (s\<lparr>m_answers := as\<rparr>) = map_live m s"
  "map_key_ok m (s\<lparr>m_answers := as\<rparr>) = map_key_ok m s"
  by (simp_all add: mheap_ok_def map_good_def bucket_ok_def map_view_def [abs_def] map_live_def
      map_key_ok_def [abs_def] cong: option.case_cong if_cong)

text \<open>\<open>map_becomes\<close>: map \<open>m\<close> has the contents \<open>f\<close> now, every other map is as it was.\<close>

definition map_becomes :: "ptr \<Rightarrow> mheap \<Rightarrow> mheap \<Rightarrow> (u8 list \<Rightarrow> ptr option) \<Rightarrow> bool" where
  "map_becomes m s s' f \<longleftrightarrow> mheap_ok s' \<and> map_view m s' = f \<and>
     (\<forall>m2. map_live m2 s' = map_live m2 s \<and> map_key_ok m2 s' = map_key_ok m2 s \<and>
       (m2 \<noteq> m \<longrightarrow> map_view m2 s' = map_view m2 s))"

lemma map_becomes_trans:
  "map_becomes m s s1 (map_view m s) \<Longrightarrow> map_becomes m s1 s2 f \<Longrightarrow> map_becomes m s s2 f"
  unfolding map_becomes_def by simp

lemma bucket_change_becomes:
  assumes "mheap_ok s" "bucket_swap m mp i b' nb mp' s s'" "bucket_fits (m_buckets mp i) mp' i nb s s'"
    "\<And>k. length k = unat (m_key_size mp) \<Longrightarrow> map_index_of mp k = Some i \<Longrightarrow>
      map_of (assoc_at s' mp' i) k = f k"
    "\<And>k. length k \<noteq> unat (m_key_size mp) \<or> map_index_of mp k \<noteq> Some i \<Longrightarrow> map_view m s k = f k"
  shows "map_becomes m s s' f"
proof -
  have "map_view m s' k = f k" for k
    using bucket_change_view(2) [OF assms(1,2), of k] assms(4,5) by auto
  with bucket_change_ok [OF assms(1-3)] bucket_change_view(1,3,4) [OF assms(1,2)] show ?thesis
    unfolding map_becomes_def by auto
qed

lemma map_put_bucket_new:
  assumes ok: "mheap_ok s" and mp: "maps s m = Some mp" and i: "i < MAP_BUCKET_COUNT"
    and null: "m_buckets mp i = NULL" and b: "b \<noteq> NULL" "buckets s b = None"
    and s1: "s1 = s\<lparr>m_answers := as, maps := (maps s)(m \<mapsto> mp\<lparr>m_buckets := (m_buckets mp)(i := b)\<rparr>),
      buckets := (buckets s)(b \<mapsto> \<lparr>mb_entries = replicate MAP_BUCKET_SIZE NULL\<rparr>)\<rparr>"
  shows "map_becomes m s s1 (map_view m s)"
proof -
  let ?mp = "mp\<lparr>m_buckets := (m_buckets mp)(i := b)\<rparr>"
  let ?bk = "\<lparr>mb_entries = replicate MAP_BUCKET_SIZE NULL\<rparr>"
  have nb: "(buckets s)(NULL := None) = buckets s" using mheap_ok_null(1) [OF ok] by auto
  have sw: "bucket_swap m mp i b (Some ?bk) ?mp s s1"
    using mp i null b nb by (simp add: bucket_swap_def s1)
  have at: "assoc_at s1 ?mp i = []" by (simp add: assoc_at_def s1)
  have "bucket_fits (m_buckets mp i) ?mp i (Some ?bk) s s1"
    by (auto simp: bucket_fits_def at bucket_ok_def)
  then show ?thesis
  proof (rule bucket_change_becomes [OF ok sw])
    fix k
    assume "length k = unat (m_key_size mp)" "map_index_of mp k = Some i"
    with mp null at ok show "map_of (assoc_at s1 ?mp i) k = map_view m s k"
      by (simp add: map_view_def assoc_at_def)
  qed simp
qed

lemma map_put_bucket_cases:
  assumes ok: "mheap_ok s" and mp: "maps s m = Some mp" and i: "i < MAP_BUCKET_COUNT"
  obtains (fail) as where "map_put_bucket m i s = Some (NULL, s\<lparr>m_answers := as\<rparr>)"
      "m_buckets mp i = NULL" "hd (m_answers s) = NULL \<or> m_answers s = [] \<or> buckets s (hd (m_answers s)) \<noteq> None"
    | (bucket) b s1 bk where "map_put_bucket m i s = Some (b, s1)" "b \<noteq> NULL"
      "maps s1 m = Some (mp\<lparr>m_buckets := (m_buckets mp)(i := b)\<rparr>)" "buckets s1 b = Some bk"
      "entries s1 = entries s" "map_becomes m s s1 (map_view m s)"
      "m_answers s1 = (if m_buckets mp i = NULL then tl (m_answers s) else m_answers s)"
      "mb_entries bk = (if m_buckets mp i = NULL then replicate MAP_BUCKET_SIZE NULL
        else mb_entries (the (buckets s (m_buckets mp i))))"
proof (cases "m_buckets mp i = NULL")
  case null: True
  have pool: "m_pool mp \<noteq> NULL" using mheap_ok_map [OF ok mp] by (simp add: map_good_def)
  define b where "b = (case m_answers s of [] \<Rightarrow> NULL | a # _ \<Rightarrow> if buckets s a = None then a else NULL)"
  have al: "mem_alloc (m_pool mp) (buckets s) (m_answers s) = Some (b, tl (m_answers s))"
    using pool by (auto simp: mem_alloc_def b_def split: list.splits)
  show thesis
  proof (cases "b = NULL")
    case True
    have same: "mp\<lparr>m_buckets := (m_buckets mp)(i := NULL)\<rparr> = mp" using null by (simp flip: null)
    have "map_put_bucket m i s = Some (NULL, s\<lparr>m_answers := tl (m_answers s)\<rparr>)"
      using mp null al True same by (simp add: map_put_bucket_def fun_upd_idem)
    moreover have "hd (m_answers s) = NULL \<or> m_answers s = [] \<or> buckets s (hd (m_answers s)) \<noteq> None"
      using True by (auto simp: b_def split: list.splits if_splits)
    ultimately show thesis using null by (intro fail) auto
  next
    case False
    let ?s1 = "s\<lparr>m_answers := tl (m_answers s), maps := (maps s)(m \<mapsto> mp\<lparr>m_buckets := (m_buckets mp)(i := b)\<rparr>),
      buckets := (buckets s)(b \<mapsto> \<lparr>mb_entries = replicate MAP_BUCKET_SIZE NULL\<rparr>)\<rparr>"
    have fresh: "buckets s b = None" by (rule mem_alloc_fresh [OF al False])
    have "map_put_bucket m i s = Some (b, ?s1)"
      using mp null al False by (simp add: map_put_bucket_def)
    moreover have "map_becomes m s ?s1 (map_view m s)"
      by (rule map_put_bucket_new [OF ok mp i null False fresh refl])
    ultimately show thesis using False null by (intro bucket) auto
  qed
next
  case False
  have "map_put_bucket m i s = Some (m_buckets mp i, s)"
    using mp False by (simp add: map_put_bucket_def)
  moreover obtain bk where "buckets s (m_buckets mp i) = Some bk"
    using map_good_bucket [OF mheap_ok_map [OF ok mp] i False] by blast
  moreover have "mp\<lparr>m_buckets := (m_buckets mp)(i := m_buckets mp i)\<rparr> = mp" by simp
  ultimately show thesis
    using False mp ok by (intro bucket) (auto simp: map_becomes_def)
qed

text \<open>The pairs before and after \<open>map_put\<close> has written an entry at its place.\<close>

lemma put_place_assoc:
  assumes "put_place h n k xs e0 ys" "distinct (map fst (assoc_of h n (xs @ e0 # ys)))"
  shows "distinct (map fst (assoc_of h n xs @ (k, v) # assoc_of h n ys))"
    and "map_of (assoc_of h n xs @ (k, v) # assoc_of h n ys) =
           (map_of (assoc_of h n (xs @ e0 # ys)))(k \<mapsto> v)"
    and "fst ` set (assoc_of h n xs @ (k, v) # assoc_of h n ys) =
           insert k (fst ` set (assoc_of h n (xs @ e0 # ys)))"
  using assms
  by (auto simp: put_place_def map_add_def fun_eq_iff split: if_splits option.splits
      dest: map_of_SomeD intro: rev_image_eqI)

lemma put_entry_fits:
  assumes ok: "mheap_ok s" and bk: "buckets s b = Some bk" "mb_entries bk = xs @ e0 # ys"
    and e: "e \<noteq> NULL" "entries s e = None" and x: "length (me_key x) = MAP_MAX_KEY_LENGTH"
    and s': "entries s' = (entries s)(e \<mapsto> x)"
  shows "bucket_ok s' \<lparr>mb_entries = xs @ e # ys\<rparr>"
    and "buckets s c = Some ck \<Longrightarrow> c \<noteq> b \<Longrightarrow> set (mb_entries ck) \<inter> set (xs @ e # ys) \<subseteq> {NULL}"
    and "buckets s c = Some ck \<Longrightarrow> e \<notin> set (mb_entries ck)"
proof -
  have new: "e \<notin> set (mb_entries ck)" if "buckets s c = Some ck" for c ck
    using mheap_ok_bucket [OF ok that] fresh_entry [of "entries s" "mb_entries ck" e] e
    by (simp add: bucket_ok_def)
  then show "buckets s c = Some ck \<Longrightarrow> e \<notin> set (mb_entries ck)" .
  from new [OF bk(1)] bk(2) have "e \<notin> set xs" "e \<notin> set ys" by auto
  with mheap_ok_bucket [OF ok bk(1)] bk(2) e x show "bucket_ok s' \<lparr>mb_entries = xs @ e # ys\<rparr>"
    by (auto simp: bucket_ok_def s' entries_ok_fresh split: if_splits)
  show "set (mb_entries ck) \<inter> set (xs @ e # ys) \<subseteq> {NULL}" if "buckets s c = Some ck" "c \<noteq> b"
    using mheap_ok_disjoint [OF ok that(1) bk(1) that(2)] new [OF that(1)] bk(2) by auto
qed

lemma put_entry_becomes:
  assumes ok: "mheap_ok s" and mp: "maps s m = Some mp" and k: "length k = unat (m_key_size mp)"
    and i: "map_index_of mp k = Some i"
    and bk: "buckets s (m_buckets mp i) = Some bk" "mb_entries bk = xs @ e0 # ys"
    and place: "put_place (entries s) (unat (m_key_size mp)) k xs e0 ys"
    and e: "e \<noteq> NULL" "entries s e = None"
    and x: "length (me_key x) = MAP_MAX_KEY_LENGTH" "take (unat (m_key_size mp)) (me_key x) = k" "me_value x = v"
    and s': "s' = s\<lparr>m_answers := as, entries := (entries s)(e \<mapsto> x),
      buckets := (buckets s)(m_buckets mp i \<mapsto> \<lparr>mb_entries = xs @ e # ys\<rparr>),
      maps := (maps s)(m \<mapsto> mp\<lparr>m_size := sz\<rparr>)\<rparr>"
  shows "map_becomes m s s' ((map_view m s)(k \<mapsto> v))"
proof -
  let ?n = "unat (m_key_size mp)" and ?mp = "mp\<lparr>m_size := sz\<rparr>" and ?bk = "\<lparr>mb_entries = xs @ e # ys\<rparr>"
  have ib: "i < MAP_BUCKET_COUNT" by (rule map_index_of_bound [OF i])
  note fits = put_entry_fits [OF ok bk e x(1), of s']
  have es': "entries s' = (entries s)(e \<mapsto> x)" by (simp add: s')
  have sw: "bucket_swap m mp i (m_buckets mp i) (Some ?bk) ?mp s s'"
    using mp ib mheap_ok_bucket [OF ok bk(1)] fits(3) [OF es'] by (auto simp: bucket_swap_def s')
  have old: "assoc_at s mp i = assoc_of (entries s) ?n (xs @ e0 # ys)"
    using bk by (simp add: assoc_at_def)
  have "e \<notin> set xs" "e \<notin> set ys" using fits(3) [OF es' bk(1)] bk(2) by auto
  then have new: "assoc_at s' ?mp i = assoc_of (entries s) ?n xs @ (k, v) # assoc_of (entries s) ?n ys"
    using e x by (simp add: assoc_at_def s' assoc_of_fresh)
  have good: "map_good s mp" by (rule mheap_ok_map [OF ok mp])
  have dist: "distinct (map fst (assoc_of (entries s) ?n (xs @ e0 # ys)))"
    using map_good_distinct [OF good ib] old by simp
  note put = put_place_assoc [OF place dist, of v]
  have "\<forall>q\<in>fst ` set (assoc_at s' ?mp i). map_index_of ?mp q = Some i"
    unfolding new put(3) using good ib i old by (auto simp: map_good_def)
  then have "bucket_fits (m_buckets mp i) ?mp i (Some ?bk) s s'"
    using fits(1,2) [OF es'] put(1) new by (auto simp: bucket_fits_def)
  then show ?thesis
  proof (rule bucket_change_becomes [OF ok sw])
    fix q
    assume "length q = ?n" "map_index_of mp q = Some i"
    then show "map_of (assoc_at s' ?mp i) q = ((map_view m s)(k \<mapsto> v)) q"
      using mp old unfolding new put(2) by (simp add: map_view_def)
  next
    fix q
    assume "length q \<noteq> ?n \<or> map_index_of mp q \<noteq> Some i"
    then show "map_view m s q = ((map_view m s)(k \<mapsto> v)) q" using k i by auto
  qed
qed

text \<open>There is room for a key: the allocator succeeds, and the bucket has a place for it.\<close>

definition map_room :: "ptr \<Rightarrow> u8 list \<Rightarrow> mheap \<Rightarrow> bool" where
  "map_room m k s \<longleftrightarrow> (\<exists>mp i. maps s m = Some mp \<and> map_index_of mp k = Some i \<and> m_size mp < MAP_CAPACITY \<and>
     (if m_buckets mp i = NULL
      then \<exists>a e as. m_answers s = a # e # as \<and> a \<noteq> NULL \<and> buckets s a = None \<and> e \<noteq> NULL \<and> entries s e = None
      else (\<exists>e as. m_answers s = e # as \<and> e \<noteq> NULL \<and> entries s e = None) \<and>
           (map_view m s k \<noteq> None \<or> NULL \<in> set (mb_entries (the (buckets s (m_buckets mp i)))))))"

lemma map_room_iff:
  "maps s m = Some mp \<Longrightarrow> map_index_of mp k = Some i \<Longrightarrow>
   map_room m k s \<longleftrightarrow> m_size mp < MAP_CAPACITY \<and>
     (if m_buckets mp i = NULL
      then \<exists>a e as. m_answers s = a # e # as \<and> a \<noteq> NULL \<and> buckets s a = None \<and> e \<noteq> NULL \<and> entries s e = None
      else (\<exists>e as. m_answers s = e # as \<and> e \<noteq> NULL \<and> entries s e = None) \<and>
           (map_view m s k \<noteq> None \<or> NULL \<in> set (mb_entries (the (buckets s (m_buckets mp i))))))"
  by (simp add: map_room_def)

text \<open>Once the bucket \<open>b\<close> is there: the bucket is full, or the entry is written, or its allocation fails.\<close>

lemma map_put_entry_cases:
  assumes ok: "mheap_ok s1" and mp1: "maps s1 m = Some mp1" and k: "length k = unat (m_key_size mp1)"
    and i: "map_index_of mp1 k = Some i" and b: "m_buckets mp1 i = b" and bk: "buckets s1 b = Some bk"
  obtains (full) "map_put_entry m b k v s1 = Some (False, s1)" "NULL \<notin> set (mb_entries bk)" "map_view m s1 k = None"
    | (fault) "map_put_entry m b k v s1 = None" "\<nexists>e as. m_answers s1 = e # as \<and> e \<noteq> NULL \<and> entries s1 e = None"
    | (stored) s' where "map_put_entry m b k v s1 = Some (True, s')" "map_becomes m s1 s' ((map_view m s1)(k \<mapsto> v))"
      "map_size m s' = Some (m_size mp1 + 1)"
proof -
  let ?n = "unat (m_key_size mp1)"
  have n: "?n \<le> MAP_MAX_KEY_LENGTH" and pool: "m_pool mp1 \<noteq> NULL"
    using mheap_ok_map [OF ok mp1] by (auto simp: map_good_def)
  have eok: "entries_ok (entries s1) (mb_entries bk)"
    using mheap_ok_bucket [OF ok bk] by (simp add: bucket_ok_def)
  have copy: "map_copy_key ?n (replicate MAP_MAX_KEY_LENGTH 0) k = Some (k @ replicate (MAP_MAX_KEY_LENGTH - ?n) 0)"
    using n k by (simp add: map_copy_key_eq)
  obtain e as where al: "mem_alloc (m_pool mp1) (entries s1) (m_answers s1) = Some (e, as)"
    using mem_alloc_total [OF pool] by blast
  from eok k n show thesis
  proof (cases rule: map_put_search_result)
    case full: full
    have "map_view m s1 k = None"
      using mp1 k i b bk full(3) by (simp add: map_view_def assoc_at_def map_of_eq_None_iff)
    with full bk mp1 show thesis by (intro that(1)) (auto simp: map_put_entry_def)
  next
    case (place xs e0 ys)
    show thesis
    proof (cases "e = NULL")
      case True
      have "\<nexists>e as. m_answers s1 = e # as \<and> e \<noteq> NULL \<and> entries s1 e = None"
        using al True pool by (auto simp: mem_alloc_def)
      moreover have "map_put_entry m b k v s1 = None" using place al True mp1 bk by (simp add: map_put_entry_def)
      ultimately show thesis by (intro that(2))
    next
      case False
      have fresh: "entries s1 e = None" by (rule mem_alloc_fresh [OF al False])
      let ?x = "\<lparr>me_key = k @ replicate (MAP_MAX_KEY_LENGTH - ?n) 0, me_value = v\<rparr>"
      let ?s' = "s1\<lparr>m_answers := as, entries := (entries s1)(e \<mapsto> ?x),
        buckets := (buckets s1)(m_buckets mp1 i \<mapsto> \<lparr>mb_entries = xs @ e # ys\<rparr>),
        maps := (maps s1)(m \<mapsto> mp1\<lparr>m_size := m_size mp1 + 1\<rparr>)\<rparr>"
      have "map_put_entry m b k v s1 = Some (True, ?s')"
        using place al False copy mp1 b bk by (simp add: map_put_entry_def)
      moreover have "map_becomes m s1 ?s' ((map_view m s1)(k \<mapsto> v))"
        using bk b n k by (intro put_entry_becomes [OF ok mp1 k i _ place(2,3) False fresh _ _ _ refl]) auto
      ultimately show thesis by (intro that(3)) (auto simp: map_size_def)
    qed
  qed
qed

lemma map_put_cases:
  assumes ok: "mheap_ok s" and mp: "maps s m = Some mp" and k: "length k = unat (m_key_size mp)"
  obtains (refused) s' where "map_put m k v s = Some (False, s')" "map_becomes m s s' (map_view m s)"
      "map_size m s' = Some (m_size mp)" "\<not> map_room m k s"
    | (fault) "map_put m k v s = None" "\<not> map_room m k s"
    | (stored) s' where "map_put m k v s = Some (True, s')" "map_becomes m s s' ((map_view m s)(k \<mapsto> v))"
      "map_size m s' = Some (m_size mp + 1)"
proof -
  obtain i where i: "map_index_of mp k = Some i" "i < MAP_BUCKET_COUNT"
    using map_index_total [OF mheap_ok_map [OF ok mp] k] .
  note room = map_room_iff [OF mp i(1)]
  have refl: "map_becomes m s (s\<lparr>m_answers := as\<rparr>) (map_view m s)" for as
    using ok by (simp add: map_becomes_def)
  show thesis
  proof (cases "m_size mp < MAP_CAPACITY")
    case False
    with mp room refl [of "m_answers s"] show thesis
      by (intro that(1) [of s]) (auto simp: map_put_def map_size_def)
  next
    case size: True
    from ok mp i(2) show thesis
    proof (cases rule: map_put_bucket_cases)
      case (fail as)
      have "map_put m k v s = Some (False, s\<lparr>m_answers := as\<rparr>)"
        using mp size i fail by (simp add: map_put_def)
      moreover have "\<not> map_room m k s" using fail room by auto
      ultimately show thesis using mp refl [of as] by (intro that(1)) (auto simp: map_size_def)
    next
      case (bucket b s1 bk)
      let ?mp = "mp\<lparr>m_buckets := (m_buckets mp)(i := b)\<rparr>"
      have ok1: "mheap_ok s1" and v1: "map_view m s1 = map_view m s"
        using bucket(6) by (auto simp: map_becomes_def)
      have trans: "map_becomes m s s' f" if "map_becomes m s1 s' f" for s' f
        by (rule map_becomes_trans [OF bucket(6) that])
      have eq: "map_put m k v s = map_put_entry m b k v s1"
        using mp size i bucket(1,2) by (simp add: map_put_def)
      have "length k = unat (m_key_size ?mp)" "map_index_of ?mp k = Some i" "m_buckets ?mp i = b"
        using k i by auto
      from ok1 bucket(3) this bucket(4) show thesis
      proof (cases rule: map_put_entry_cases [where v = v])
        case full: full
        have null: "replicate MAP_BUCKET_SIZE NULL \<noteq> []" by (simp add: MAP_BUCKET_SIZE_def)
        have "m_buckets mp i \<noteq> NULL" using full(2) bucket(8) null by (auto split: if_splits)
        then have "\<not> map_room m k s" using full(2,3) bucket(8) v1 room by auto
        with full eq bucket(3,6) show thesis by (intro that(1) [of s1]) (auto simp: map_size_def)
      next
        case fault: fault
        then have "\<not> map_room m k s" using bucket(5,7) room by (auto split: if_splits)
        with fault eq show thesis by (intro that(2)) auto
      next
        case (stored s')
        then show thesis using trans v1 eq by (intro that(3) [of s']) auto
      qed
    qed
  qed
qed

subsection \<open>Removal\<close>

text \<open>
  The end of \<open>map_remove\<close>: the bucket is written back with the entries \<open>es'\<close>, or freed when no
  entry is left.
\<close>

lemma shrink_becomes:
  assumes ok: "mheap_ok s" and mp: "maps s m = Some mp" and i: "i < MAP_BUCKET_COUNT"
    and bk: "buckets s (m_buckets mp i) = Some bk"
    and h: "\<And>e. e \<notin> set (mb_entries bk) \<or> e = NULL \<Longrightarrow> h' e = entries s e"
    and es: "length es' = MAP_BUCKET_SIZE" "distinct (filter (\<lambda>e. e \<noteq> NULL) es')" "entries_ok h' es'"
      "set es' \<subseteq> insert NULL (set (mb_entries bk))"
    and keys: "distinct (map fst (assoc_of h' (unat (m_key_size mp)) es'))"
      "fst ` set (assoc_of h' (unat (m_key_size mp)) es') \<subseteq> fst ` set (assoc_at s mp i)"
    and s': "s' = (if gone then s\<lparr>entries := h', buckets := (buckets s)(m_buckets mp i := None),
          maps := (maps s)(m \<mapsto> mp\<lparr>m_size := sz, m_buckets := (m_buckets mp)(i := NULL)\<rparr>)\<rparr>
        else s\<lparr>entries := h', buckets := (buckets s)(m_buckets mp i \<mapsto> \<lparr>mb_entries = es'\<rparr>),
          maps := (maps s)(m \<mapsto> mp\<lparr>m_size := sz\<rparr>)\<rparr>)"
    and gone: "gone \<longleftrightarrow> assoc_of h' (unat (m_key_size mp)) es' = []"
    and f: "\<And>k. length k = unat (m_key_size mp) \<Longrightarrow> map_index_of mp k = Some i \<Longrightarrow>
        f k = map_of (assoc_of h' (unat (m_key_size mp)) es') k"
      "\<And>k. length k \<noteq> unat (m_key_size mp) \<or> map_index_of mp k \<noteq> Some i \<Longrightarrow> map_view m s k = f k"
  shows "map_becomes m s s' f"
proof -
  let ?b = "m_buckets mp i" and ?n = "unat (m_key_size mp)"
  define b' where "b' = (if gone then NULL else ?b)"
  define nb where "nb = (if gone then None else Some \<lparr>mb_entries = es'\<rparr>)"
  define mp' where "mp' = (if gone then mp\<lparr>m_size := sz, m_buckets := (m_buckets mp)(i := NULL)\<rparr> else mp\<lparr>m_size := sz\<rparr>)"
  have bnn: "?b \<noteq> NULL" using mheap_ok_bucket [OF ok bk] by simp
  have off: "entries s' e = entries s e"
    if "buckets s c = Some ck" "c \<noteq> ?b" "e \<in> set (mb_entries ck)" "e \<noteq> NULL" for c ck e
    using mheap_ok_disjoint [OF ok that(1) bk that(2)] that(3,4) h [of e] by (auto simp: s')
  have nnull: "(buckets s)(?b := None, NULL := None) = (buckets s)(?b := None)"
    using mheap_ok_null(1) [OF ok] by (auto simp: fun_eq_iff)
  have sw: "bucket_swap m mp i b' nb mp' s s'"
    using mp i bnn off nnull unfolding bucket_swap_def b'_def nb_def mp'_def
    by (cases gone) (auto simp: s')
  have at: "assoc_at s' mp' i = assoc_of h' ?n es'"
    using gone mheap_ok_null(1) [OF ok] bnn by (auto simp: assoc_at_def mp'_def s' split: option.splits)
  have ix: "map_index_of mp' = map_index_of mp" by (rule map_index_of_cong) (auto simp: mp'_def)
  have "\<forall>k\<in>fst ` set (assoc_of h' ?n es'). map_index_of mp' k = Some i"
    using keys(2) mheap_ok_map [OF ok mp] i unfolding map_good_def ix by blast
  moreover have "set (mb_entries ck) \<inter> set es' \<subseteq> {NULL}" if "buckets s c = Some ck" "c \<noteq> ?b" for c ck
    using mheap_ok_disjoint [OF ok that(1) bk that(2)] es(4) by auto
  ultimately have "bucket_fits ?b mp' i nb s s'"
    using es keys(1) unfolding bucket_fits_def at by (auto simp: nb_def bucket_ok_def s' split: if_splits)
  then show ?thesis
    by (rule bucket_change_becomes [OF ok sw]) (use f at in auto)
qed

lemma of_nat_u8_zero: "length xs \<le> MAP_BUCKET_SIZE \<Longrightarrow> (of_nat (length xs) = (0 :: u8)) = (xs = [])"
  by (auto simp: MAP_BUCKET_SIZE_def word_of_nat_eq_0_iff dest: dvd_imp_le)

lemma assoc_of_drop:
  assumes "distinct (map fst (assoc_of h n (xs @ e # ys)))" "e \<noteq> NULL" "e \<notin> set xs" "e \<notin> set ys"
  shows "assoc_of (h(e := None)) n (xs @ NULL # ys) = assoc_of h n (xs @ ys)"
    and "distinct (map fst (assoc_of h n (xs @ ys)))"
    and "map_of (assoc_of h n (xs @ ys)) =
      (map_of (assoc_of h n (xs @ e # ys)))(take n (me_key (the (h e))) := None)"
proof -
  show "assoc_of (h(e := None)) n (xs @ NULL # ys) = assoc_of h n (xs @ ys)"
    using assms by (simp add: assoc_of_fresh)
  show "distinct (map fst (assoc_of h n (xs @ ys)))" using assms(1,2) by simp
  let ?k = "take n (me_key (the (h e)))"
  have "?k \<notin> fst ` set (assoc_of h n xs)" "?k \<notin> fst ` set (assoc_of h n ys)"
    using assms(1,2) by auto
  then have "map_of (assoc_of h n xs) ?k = None" "map_of (assoc_of h n ys) ?k = None"
    by (simp_all add: map_of_eq_None_iff)
  then show "map_of (assoc_of h n (xs @ ys)) = (map_of (assoc_of h n (xs @ e # ys)))(?k := None)"
    using assms(2) by (auto simp: fun_eq_iff map_add_def split: option.splits)
qed

text \<open>\<open>map_remove\<close> in terms of what its loop leaves.\<close>

lemma map_remove_after_loop:
  assumes ok: "mheap_ok s" and mp: "maps s m = Some mp" and i: "map_index_of mp k = Some i"
    and bk: "buckets s (m_buckets mp i) = Some bk"
    and loop: "map_remove_loop (m_pool mp) n k (mb_entries bk) False 0 (entries s) =
      Some (r, of_nat (length xs), es', h')" and n: "n = unat (m_key_size mp)"
    and len: "length xs \<le> MAP_BUCKET_SIZE"
  shows "map_remove m k s = Some (r,
      if xs = [] then s\<lparr>entries := h', buckets := (buckets s)(m_buckets mp i := None),
          maps := (maps s)(m \<mapsto> mp\<lparr>m_size := (if r then m_size mp - 1 else m_size mp),
            m_buckets := (m_buckets mp)(i := NULL)\<rparr>)\<rparr>
      else s\<lparr>entries := h', buckets := (buckets s)(m_buckets mp i \<mapsto> \<lparr>mb_entries = es'\<rparr>),
          maps := (maps s)(m \<mapsto> mp\<lparr>m_size := (if r then m_size mp - 1 else m_size mp)\<rparr>)\<rparr>)"
proof -
  have "m_buckets mp i \<noteq> NULL" using mheap_ok_bucket [OF ok bk] by simp
  moreover have "m_pool mp \<noteq> NULL" using mheap_ok_map [OF ok mp] by (simp add: map_good_def)
  moreover have "(of_nat (length xs) = (0 :: u8)) = (xs = [])" by (rule of_nat_u8_zero [OF len])
  ultimately show ?thesis
    using mp i bk loop by (cases r) (auto simp: map_remove_def n mem_free_def)
qed

lemma map_view_bucket:
  "maps s m = Some mp \<Longrightarrow> buckets s (m_buckets mp i) = Some bk \<Longrightarrow> length q = unat (m_key_size mp) \<Longrightarrow>
   map_index_of mp q = Some i \<Longrightarrow>
   map_view m s q = map_of (assoc_of (entries s) (unat (m_key_size mp)) (mb_entries bk)) q"
  by (simp add: map_view_def assoc_at_def)

lemma map_remove_absent:
  assumes ok: "mheap_ok s" and mp: "maps s m = Some mp" and k: "length k = unat (m_key_size mp)"
    and i: "map_index_of mp k = Some i" "i < MAP_BUCKET_COUNT"
    and bk: "buckets s (m_buckets mp i) = Some bk"
    and absent: "k \<notin> fst ` set (assoc_of (entries s) (unat (m_key_size mp)) (mb_entries bk))"
  shows "\<exists>s'. map_remove m k s = Some (False, s') \<and> map_becomes m s s' (map_view m s) \<and>
    map_size m s' = Some (m_size mp)"
proof -
  let ?n = "unat (m_key_size mp)" and ?es = "mb_entries bk"
  have good: "map_good s mp" by (rule mheap_ok_map [OF ok mp])
  have n: "?n \<le> MAP_MAX_KEY_LENGTH" using good by (simp add: map_good_def)
  have bok: "length ?es = MAP_BUCKET_SIZE" "distinct (filter (\<lambda>e. e \<noteq> NULL) ?es)" "entries_ok (entries s) ?es"
    using mheap_ok_bucket [OF ok bk] by (auto simp: bucket_ok_def)
  have at: "assoc_at s mp i = assoc_of (entries s) ?n ?es" using bk by (simp add: assoc_at_def)
  have "length (assoc_of (entries s) ?n ?es) \<le> MAP_BUCKET_SIZE"
    unfolding length_assoc_of bok(1) [symmetric] by (rule length_filter_le)
  note rem = map_remove_after_loop [OF ok mp i(1) bk
      map_remove_loop_absent [OF bok(3) k n absent, of "m_pool mp" 0, simplified] refl this]
  note becomes = shrink_becomes [OF ok mp i(2) bk _ bok subset_insertI _ _ refl refl,
      where f = "map_view m s" and sz = "m_size mp"]
  show ?thesis
    using map_good_distinct [OF good i(2)] at map_view_bucket [OF mp bk] mp becomes
    unfolding rem by (auto simp: map_size_def)
qed

lemma map_remove_present:
  assumes ok: "mheap_ok s" and mp: "maps s m = Some mp" and k: "length k = unat (m_key_size mp)"
    and i: "map_index_of mp k = Some i" "i < MAP_BUCKET_COUNT"
    and bk: "buckets s (m_buckets mp i) = Some bk"
    and present: "k \<in> fst ` set (assoc_of (entries s) (unat (m_key_size mp)) (mb_entries bk))"
  shows "\<exists>s'. map_remove m k s = Some (True, s') \<and> map_becomes m s s' ((map_view m s)(k := None)) \<and>
    map_size m s' = Some (m_size mp - 1)"
proof -
  let ?n = "unat (m_key_size mp)" and ?es = "mb_entries bk"
  have good: "map_good s mp" by (rule mheap_ok_map [OF ok mp])
  have n: "?n \<le> MAP_MAX_KEY_LENGTH" and pool: "m_pool mp \<noteq> NULL" using good by (auto simp: map_good_def)
  have bok: "length ?es = MAP_BUCKET_SIZE" "distinct (filter (\<lambda>e. e \<noteq> NULL) ?es)" "entries_ok (entries s) ?es"
    using mheap_ok_bucket [OF ok bk] by (auto simp: bucket_ok_def)
  have at: "assoc_at s mp i = assoc_of (entries s) ?n ?es" using bk by (simp add: assoc_at_def)
  from map_remove_loop_present [OF bok(3) k n pool present bok(2), of 0] obtain xs e ys where
    es: "?es = xs @ e # ys" "e \<noteq> NULL" "take ?n (me_key (the (entries s e))) = k" and
    loop: "map_remove_loop (m_pool mp) ?n k ?es False 0 (entries s) =
      Some (True, 0 + of_nat (length (assoc_of (entries s) ?n (xs @ ys))), xs @ NULL # ys, (entries s)(e := None))"
    by blast
  have e: "e \<notin> set xs" "e \<notin> set ys" using bok(2) es by auto
  have "distinct (map fst (assoc_of (entries s) ?n ?es))" using map_good_distinct [OF good i(2)] at by simp
  note drop = assoc_of_drop [OF this [unfolded es(1)] es(2) e]
  have "length (assoc_of (entries s) ?n (xs @ ys)) \<le> length (xs @ ys)"
    unfolding length_assoc_of by (rule length_filter_le)
  then have "length (assoc_of (entries s) ?n (xs @ ys)) \<le> MAP_BUCKET_SIZE" using es(1) bok(1) by simp
  note rem = map_remove_after_loop [OF ok mp i(1) bk loop [unfolded add_0] refl this]
  have f: "((map_view m s)(k := None)) q = map_of (assoc_of (entries s) ?n (xs @ ys)) q"
    if "length q = ?n" "map_index_of mp q = Some i" for q
    using map_view_bucket [OF mp bk that] es unfolding drop(3) by simp
  have eok: "entries_ok ((entries s)(e := None)) (xs @ NULL # ys)"
    using bok(3) es(1) e by (simp add: entries_ok_fresh)
  have sub: "fst ` set (assoc_of ((entries s)(e := None)) ?n (xs @ NULL # ys)) \<subseteq> fst ` set (assoc_at s mp i)"
    unfolding drop(1) at es(1) by auto
  have off: "((entries s)(e := None)) d = entries s d" if "d \<notin> set ?es \<or> d = NULL" for d
    using that es by auto
  have "length (xs @ NULL # ys) = MAP_BUCKET_SIZE" "distinct (filter (\<lambda>e. e \<noteq> NULL) (xs @ NULL # ys))"
    "set (xs @ NULL # ys) \<subseteq> insert NULL (set ?es)"
    using bok es by auto
  note becomes = shrink_becomes [OF ok mp i(2) bk off this(1,2) eok this(3) _ sub refl, unfolded drop(1), OF _ drop(2) refl f,
      where sz = "m_size mp - 1"]
  have "map_view m s q = ((map_view m s)(k := None)) q"
    if "length q \<noteq> ?n \<or> map_index_of mp q \<noteq> Some i" for q using that k i by auto
  note becomes = becomes [OF _ _ _ this]
  show ?thesis
    unfolding rem if_True
  proof (intro exI conjI)
    show "map_size m (if assoc_of (entries s) ?n (xs @ ys) = [] then s\<lparr>entries := (entries s)(e := None),
          buckets := (buckets s)(m_buckets mp i := None),
          maps := (maps s)(m \<mapsto> mp\<lparr>m_size := m_size mp - 1, m_buckets := (m_buckets mp)(i := NULL)\<rparr>)\<rparr>
        else s\<lparr>entries := (entries s)(e := None), buckets := (buckets s)(m_buckets mp i \<mapsto> \<lparr>mb_entries = xs @ NULL # ys\<rparr>),
          maps := (maps s)(m \<mapsto> mp\<lparr>m_size := m_size mp - 1\<rparr>)\<rparr>) = Some (m_size mp - 1)"
      by (simp add: map_size_def)
  qed (rule refl, rule becomes)
qed

lemma map_remove_effect:
  assumes ok: "mheap_ok s" and mp: "maps s m = Some mp" and k: "length k = unat (m_key_size mp)"
  shows "\<exists>s'. map_remove m k s = Some (map_view m s k \<noteq> None, s') \<and>
    map_becomes m s s' ((map_view m s)(k := None)) \<and>
    map_size m s' = Some (if map_view m s k \<noteq> None then m_size mp - 1 else m_size mp)"
proof -
  have good: "map_good s mp" by (rule mheap_ok_map [OF ok mp])
  obtain i where i: "map_index_of mp k = Some i" "i < MAP_BUCKET_COUNT" using map_index_total [OF good k] .
  have same: "(map_view m s)(k := None) = map_view m s" if "map_view m s k = None" using that by auto
  show ?thesis
  proof (cases "m_buckets mp i = NULL")
    case True
    then have "map_view m s k = None" using mp k i ok by (simp add: map_view_def assoc_at_def)
    with same mp i True ok show ?thesis by (auto simp: map_remove_def map_becomes_def map_size_def)
  next
    case False
    then obtain bk where bk: "buckets s (m_buckets mp i) = Some bk"
      using map_good_bucket [OF good i(2)] by blast
    show ?thesis
    proof (cases "map_view m s k = None")
      case True
      then have "k \<notin> fst ` set (assoc_of (entries s) (unat (m_key_size mp)) (mb_entries bk))"
        using map_view_bucket [OF mp bk k i(1)] by (simp add: map_of_eq_None_iff)
      then show ?thesis using map_remove_absent [OF ok mp k i bk] True same by simp
    next
      case False
      then have "k \<in> fst ` set (assoc_of (entries s) (unat (m_key_size mp)) (mb_entries bk))"
        using map_view_bucket [OF mp bk k i(1)] by (simp add: map_of_eq_None_iff)
      then show ?thesis using map_remove_present [OF ok mp k i bk] False by simp
    qed
  qed
qed

end
