(* ===== verification/Map_Contract.thy ===== *)
theory Map_Contract
  imports Map_Update
begin

section \<open>The contract of a finite map, and the hash map as an instance\<close>

text \<open>
  The locale \<open>map_store\<close> states what the object tables and the registry rely on: lookups agree
  with the contents, a successful insertion adds one binding, a removal takes one away, and
  other maps in the same memory are not affected.  The lemmas of the locale are what clients
  use; the interpretation \<open>hm\<close> at the end shows that the hash map keeps the contract.
\<close>

definition map_upd ::
  "('s \<Rightarrow> bool) \<Rightarrow> ('m \<Rightarrow> 's \<Rightarrow> bool) \<Rightarrow> ('m \<Rightarrow> 's \<Rightarrow> 'k \<Rightarrow> bool) \<Rightarrow> ('m \<Rightarrow> 's \<Rightarrow> 'k \<Rightarrow> 'v option) \<Rightarrow>
     'm \<Rightarrow> 's \<Rightarrow> 's \<Rightarrow> ('k \<Rightarrow> 'v option) \<Rightarrow> bool" where
  "map_upd ok live key_ok view m s s' f \<longleftrightarrow> ok s' \<and> view m s' = f \<and>
     (\<forall>m2. live m2 s' = live m2 s \<and> key_ok m2 s' = key_ok m2 s \<and> (m2 \<noteq> m \<longrightarrow> view m2 s' = view m2 s))"

lemma map_becomes_upd: "map_becomes = map_upd mheap_ok map_live map_key_ok map_view"
  by (intro ext) (simp add: map_becomes_def map_upd_def)

lemma map_upd_trans:
  "map_upd ok live key_ok view m s s1 f \<Longrightarrow> map_upd ok live key_ok view m s1 s2 g \<Longrightarrow>
   map_upd ok live key_ok view m s s2 g"
  by (simp add: map_upd_def)

text \<open>Insert a list of bindings one after the other; it ends at the first one refused.\<close>

primrec put_all ::
  "('m \<Rightarrow> 'k \<Rightarrow> 'v \<Rightarrow> 's \<Rightarrow> (bool \<times> 's) option) \<Rightarrow> 'm \<Rightarrow> ('k \<times> 'v) list \<Rightarrow> 's \<Rightarrow> (bool \<times> 's) option" where
  "put_all put m [] s = Some (True, s)"
| "put_all put m (kv # kvs) s = do {
     (r, s) \<leftarrow> put m (fst kv) (snd kv) s;
     if r then put_all put m kvs s else Some (False, s)
   }"

locale map_store =
  fixes ok :: "'s \<Rightarrow> bool"
    and live :: "'m \<Rightarrow> 's \<Rightarrow> bool"
    and key_ok :: "'m \<Rightarrow> 's \<Rightarrow> 'k \<Rightarrow> bool"
    and view :: "'m \<Rightarrow> 's \<Rightarrow> 'k \<Rightarrow> 'v option"
    and get :: "'m \<Rightarrow> 'k \<Rightarrow> 's \<Rightarrow> 'v option option"
    and put :: "'m \<Rightarrow> 'k \<Rightarrow> 'v \<Rightarrow> 's \<Rightarrow> (bool \<times> 's) option"
    and rem :: "'m \<Rightarrow> 'k \<Rightarrow> 's \<Rightarrow> (bool \<times> 's) option"
  assumes get_view: "ok s \<Longrightarrow> key_ok m s k \<Longrightarrow> get m k s = Some (view m s k)"
    and put_upd: "ok s \<Longrightarrow> key_ok m s k \<Longrightarrow> put m k v s = Some (r, s') \<Longrightarrow>
      map_upd ok live key_ok view m s s' (if r then (view m s)(k \<mapsto> v) else view m s)"
    and rem_upd: "ok s \<Longrightarrow> key_ok m s k \<Longrightarrow>
      \<exists>s'. rem m k s = Some (view m s k \<noteq> None, s') \<and> map_upd ok live key_ok view m s s' ((view m s)(k := None))"
begin

lemma get_upd:
  assumes "map_upd ok live key_ok view m s s' f" "ok s" "key_ok m2 s k2"
  shows "get m2 k2 s' = (if m2 = m then Some (f k2) else get m2 k2 s)"
  using assms get_view [of s m2 k2] get_view [of s' m2 k2] by (auto simp: map_upd_def)

lemma get_put:
  assumes "ok s" "key_ok m s k" "put m k v s = Some (True, s')" "key_ok m2 s k2"
  shows "get m2 k2 s' = (if m2 = m \<and> k2 = k then Some (Some v) else get m2 k2 s)"
  using get_upd [OF put_upd [OF assms(1-3)] assms(1,4)] get_view [OF assms(1,4)] by auto

lemma get_rem:
  assumes "ok s" "key_ok m s k" "rem m k s = Some (r, s')" "key_ok m2 s k2"
  shows "get m2 k2 s' = (if m2 = m \<and> k2 = k then Some None else get m2 k2 s)"
    and "r \<longleftrightarrow> get m k s \<noteq> Some None"
proof -
  obtain s1 where s1: "rem m k s = Some (view m s k \<noteq> None, s1)"
    "map_upd ok live key_ok view m s s1 ((view m s)(k := None))"
    using rem_upd [OF assms(1,2)] by blast
  then have "s' = s1" "r = (view m s k \<noteq> None)" using assms(3) by auto
  then show "get m2 k2 s' = (if m2 = m \<and> k2 = k then Some None else get m2 k2 s)"
      and "r \<longleftrightarrow> get m k s \<noteq> Some None"
    using get_upd [OF s1(2) assms(1,4)] get_view [OF assms(1,4)] get_view [OF assms(1,2)] by auto
qed

lemma put_rem:
  assumes "ok s" "key_ok m s k" "get m k s = Some None" "put m k v s = Some (True, s1)"
  shows "\<exists>s2. rem m k s1 = Some (True, s2) \<and> (\<forall>m2. view m2 s2 = view m2 s)"
proof -
  have u1: "map_upd ok live key_ok view m s s1 ((view m s)(k \<mapsto> v))"
    using put_upd [OF assms(1,2,4)] by simp
  then have "ok s1" "key_ok m s1 k" using assms(2) by (auto simp: map_upd_def)
  from rem_upd [OF this] obtain s2 where s2: "rem m k s1 = Some (view m s1 k \<noteq> None, s2)"
    "map_upd ok live key_ok view m s1 s2 ((view m s1)(k := None))" by blast
  have "(view m s)(k := None) = view m s" using assms(1-3) get_view by auto
  with u1 s2 show ?thesis by (auto simp: map_upd_def)
qed

lemma put_all_view:
  assumes "ok s" "\<forall>kv\<in>set kvs. key_ok m s (fst kv)" "put_all put m kvs s = Some (True, s')"
  shows "map_upd ok live key_ok view m s s' (view m s ++ map_of (rev kvs))"
  using assms
proof (induction kvs arbitrary: s)
  case Nil
  then show ?case by (simp add: map_upd_def)
next
  case (Cons kv kvs)
  from Cons.prems(3) obtain s1 where s1: "put m (fst kv) (snd kv) s = Some (True, s1)"
    "put_all put m kvs s1 = Some (True, s')"
    by (auto simp: bind_eq_Some_conv split: if_splits)
  have u: "map_upd ok live key_ok view m s s1 ((view m s)(fst kv \<mapsto> snd kv))"
    using put_upd [OF Cons.prems(1) _ s1(1)] Cons.prems(2) by simp
  then have "map_upd ok live key_ok view m s1 s' (view m s1 ++ map_of (rev kvs))"
    using Cons.prems(2) s1(2) by (intro Cons.IH) (auto simp: map_upd_def)
  moreover have "(view m s)(fst kv \<mapsto> snd kv) ++ map_of (rev kvs) = view m s ++ map_of (rev (kv # kvs))"
    by (cases kv) simp
  moreover have "view m s1 = (view m s)(fst kv \<mapsto> snd kv)" using u by (simp add: map_upd_def)
  ultimately show ?case using map_upd_trans [OF u] by metis
qed

end

interpretation hm: map_store mheap_ok map_live map_key_ok map_view map_get map_put map_remove
proof unfold_locales
  fix s m k v r s'
  assume ok: "mheap_ok s" and key: "map_key_ok m s k"
  then obtain mp where mp: "maps s m = Some mp" and k: "length k = unat (m_key_size mp)"
    by (auto simp: map_key_ok_def)
  show "map_get m k s = Some (map_view m s k)" by (rule map_get_view [OF ok key])
  show "\<exists>s'. map_remove m k s = Some (map_view m s k \<noteq> None, s') \<and>
      map_upd mheap_ok map_live map_key_ok map_view m s s' ((map_view m s)(k := None))"
    using map_remove_effect [OF ok mp k] by (auto simp: map_becomes_upd)
  show "map_upd mheap_ok map_live map_key_ok map_view m s s' (if r then (map_view m s)(k \<mapsto> v) else map_view m s)"
    if put: "map_put m k v s = Some (r, s')"
    using ok mp k
  proof (cases rule: map_put_cases [where v = v])
    case (refused s1)
    with put show ?thesis by (simp add: map_becomes_upd)
  next
    case fault
    with put show ?thesis by simp
  next
    case (stored s1)
    with put show ?thesis by (simp add: map_becomes_upd)
  qed
qed

subsection \<open>Room and creation\<close>

lemma map_put_room:
  assumes "mheap_ok s" "map_key_ok m s k" "map_room m k s"
  shows "\<exists>s'. map_put m k v s = Some (True, s')"
proof -
  obtain mp where mp: "maps s m = Some mp" "length k = unat (m_key_size mp)"
    using assms(2) by (auto simp: map_key_ok_def)
  from assms(1) mp show ?thesis
    using assms(3) by (cases rule: map_put_cases [where v = v]) auto
qed

text \<open>The hash functions of the kernel are defined on every key of the size of the map.\<close>

lemma hash_basic_integer_total: "length k = unat n \<Longrightarrow> hash_basic_integer k n \<noteq> None"
  by (auto simp: hash_basic_integer_def split: list.splits)

lemma hash_basic_string_loop_total: "n \<le> length k \<Longrightarrow> hash_basic_string_loop n k h \<noteq> None"
  by (induction n arbitrary: k h) (auto split: list.splits)

lemma hash_basic_string_total: "length k = unat n \<Longrightarrow> hash_basic_string k n \<noteq> None"
  unfolding hash_basic_string_def using hash_basic_string_loop_total [of "unat n" k 0] by simp

lemma map_initialise_new:
  assumes ok: "mheap_ok s" and m: "m \<noteq> NULL" "maps s m = None" and pool: "pool \<noteq> NULL"
    and n: "unat n \<le> MAP_MAX_KEY_LENGTH" and hash: "\<And>k. length k = unat n \<Longrightarrow> hash k n \<noteq> None"
  shows "\<exists>s'. map_initialise m hash pool n s = Some s' \<and> mheap_ok s' \<and> map_view m s' = Map.empty \<and>
    (\<forall>k. map_key_ok m s' k \<longleftrightarrow> length k = unat n) \<and>
    (\<forall>m2. m2 \<noteq> m \<longrightarrow> map_view m2 s' = map_view m2 s \<and> map_key_ok m2 s' = map_key_ok m2 s)"
proof -
  let ?mp = "\<lparr>m_size = 0, m_key_size = n, m_buckets = (\<lambda>_. NULL), m_hash = hash, m_pool = pool\<rparr>"
  let ?s = "s\<lparr>maps := (maps s)(m \<mapsto> ?mp)\<rparr>"
  have assoc: "assoc_at ?s = assoc_at s" by (intro ext) (simp add: assoc_at_def cong: option.case_cong)
  have empty: "assoc_at s ?mp i = []" for i using ok by (simp add: assoc_at_def)
  have good: "map_good ?s mp = map_good s mp" for mp by (simp add: map_good_def assoc)
  have new: "map_good s ?mp" using pool n hash empty by (simp add: map_good_def)
  have bok: "bucket_ok ?s bk = bucket_ok s bk" for bk by (simp add: bucket_ok_def)
  have maps: "m' \<noteq> NULL \<and> map_good s q" if "maps ?s m' = Some q" for m' q
  proof (cases "m' = m")
    case True
    with that m new show ?thesis by simp
  next
    case False
    with that have "maps s m' = Some q" by simp
    then show ?thesis using mheap_ok_map [OF ok] mheap_ok_null(2) [OF ok] by (cases "m' = NULL") auto
  qed
  have owner: "m1 = m2 \<and> i1 = i2" if "maps ?s m1 = Some q1 \<and> maps ?s m2 = Some q2 \<and> i1 < MAP_BUCKET_COUNT \<and>
      i2 < MAP_BUCKET_COUNT \<and> m_buckets q1 i1 = m_buckets q2 i2 \<and> m_buckets q1 i1 \<noteq> NULL" for m1 q1 m2 q2 i1 i2
  proof -
    from that have "maps s m1 = Some q1" "maps s m2 = Some q2" by (auto split: if_splits)
    with that mheap_ok_owner [OF ok] show ?thesis by blast
  qed
  have "mheap_ok ?s"
    unfolding mheap_ok_def good bok
  proof (intro conjI allI impI)
    fix b b' bk bk'
    assume "buckets ?s b = Some bk \<and> buckets ?s b' = Some bk' \<and> b \<noteq> b'"
    then show "set (mb_entries bk) \<inter> set (mb_entries bk') \<subseteq> {NULL}" using mheap_ok_disjoint [OF ok, of b bk b' bk'] by simp
  next
    fix b bk
    assume "buckets ?s b = Some bk"
    then show "b \<noteq> NULL" "bucket_ok s bk" using mheap_ok_bucket [OF ok, of b bk] by simp_all
  next
    fix m' q
    assume "maps ?s m' = Some q"
    then show "m' \<noteq> NULL" "map_good s q" by (blast dest: maps)+
  qed (drule owner, erule conjE, assumption)+
  moreover have "map_view m ?s k = None" for k
    using empty by (simp add: map_view_def assoc split: option.splits)
  moreover have "map_view m2 ?s k = map_view m2 s k" if "m2 \<noteq> m" for m2 k
    using that by (simp add: map_view_def assoc cong: option.case_cong if_cong)
  moreover have "map_initialise m hash pool n s = Some ?s" using m n by (simp add: map_initialise_def)
  ultimately show ?thesis
    by (intro exI [of _ ?s]) (auto simp: map_key_ok_def fun_eq_iff)
qed

end
