(* ===== verification/Map_Props.thy ===== *)
theory Map_Props
  imports Map_Contract
begin

section \<open>Properties of the hash map\<close>

text \<open>
  The properties of \<open>hashed_map.c\<close>, each with a witness on a concrete map: the map \<open>demo_map\<close>
  is what \<open>map_initialise\<close> makes of the block at address 4, with object numbers as keys.
\<close>

subsection \<open>Operations as a trace of an abstract map\<close>

datatype map_op = Put "u8 list" ptr | Remove "u8 list" | Get "u8 list"

datatype map_out = Flag bool | Value "ptr option"

fun map_op_key :: "map_op \<Rightarrow> u8 list" where
  "map_op_key (Put k v) = k"
| "map_op_key (Remove k) = k"
| "map_op_key (Get k) = k"

fun map_step :: "ptr \<Rightarrow> map_op \<Rightarrow> mheap \<Rightarrow> (map_out \<times> mheap) option" where
  "map_step m (Put k v) s = do { (r, s) \<leftarrow> map_put m k v s; Some (Flag r, s) }"
| "map_step m (Remove k) s = do { (r, s) \<leftarrow> map_remove m k s; Some (Flag r, s) }"
| "map_step m (Get k) s = do { r \<leftarrow> map_get m k s; Some (Value r, s) }"

primrec map_run :: "ptr \<Rightarrow> map_op list \<Rightarrow> mheap \<Rightarrow> (map_out list \<times> mheap) option" where
  "map_run m [] s = Some ([], s)"
| "map_run m (x # xs) s = do {
     (r, s) \<leftarrow> map_step m x s;
     (rs, s) \<leftarrow> map_run m xs s;
     Some (r # rs, s)
   }"

text \<open>
  What a map promises: an insertion either adds the binding or is refused without a change, a
  removal says whether there was a binding, a lookup returns it.
\<close>

inductive map_trace :: "(u8 list \<Rightarrow> ptr option) \<Rightarrow> map_op list \<Rightarrow> map_out list \<Rightarrow> (u8 list \<Rightarrow> ptr option) \<Rightarrow> bool" where
  nil: "map_trace f [] [] f"
| put: "map_trace (f(k \<mapsto> v)) xs rs g \<Longrightarrow> map_trace f (Put k v # xs) (Flag True # rs) g"
| refused: "map_trace f xs rs g \<Longrightarrow> map_trace f (Put k v # xs) (Flag False # rs) g"
| remove: "map_trace (f(k := None)) xs rs g \<Longrightarrow> map_trace f (Remove k # xs) (Flag (f k \<noteq> None) # rs) g"
| get: "map_trace f xs rs g \<Longrightarrow> map_trace f (Get k # xs) (Value (f k) # rs) g"

inductive_simps map_trace_simps:
  "map_trace f [] rs g" "map_trace f (Put k v # xs) rs g" "map_trace f (Remove k # xs) rs g"
  "map_trace f (Get k # xs) rs g"

lemma map_step_trace:
  assumes "mheap_ok s" "map_key_ok m s (map_op_key x)" "map_step m x s = Some (r, s1)"
  shows "mheap_ok s1 \<and> map_key_ok m s1 = map_key_ok m s \<and>
    (map_trace (map_view m s1) xs rs g \<longrightarrow> map_trace (map_view m s) (x # xs) (r # rs) g)"
proof (cases x)
  case (Put k v)
  with assms(3) obtain b where b: "map_put m k v s = Some (b, s1)" "r = Flag b" by (auto simp: bind_eq_Some_conv)
  have "map_upd mheap_ok map_live map_key_ok map_view m s s1 (if b then (map_view m s)(k \<mapsto> v) else map_view m s)"
    using hm.put_upd [OF assms(1) _ b(1)] assms(2) Put by simp
  with Put b show ?thesis by (cases b) (auto simp: map_upd_def intro: map_trace.intros)
next
  case (Remove k)
  obtain s2 where s2: "map_remove m k s = Some (map_view m s k \<noteq> None, s2)"
    "map_upd mheap_ok map_live map_key_ok map_view m s s2 ((map_view m s)(k := None))"
    using hm.rem_upd [OF assms(1), of m k] assms(2) Remove by auto
  with Remove assms(3) have "s1 = s2" "r = Flag (map_view m s k \<noteq> None)" by (auto simp: bind_eq_Some_conv)
  with Remove s2(2) show ?thesis
    using map_trace.remove [of "map_view m s" k xs rs g] by (auto simp: map_upd_def)
next
  case (Get k)
  with assms hm.get_view [OF assms(1), of m k] have "s1 = s" "r = Value (map_view m s k)" by auto
  with Get assms(1) show ?thesis by (auto intro: map_trace.get)
qed

lemma map_run_trace:
  assumes "mheap_ok s" "\<forall>x\<in>set xs. map_key_ok m s (map_op_key x)" "map_run m xs s = Some (rs, s')"
  shows "mheap_ok s' \<and> map_trace (map_view m s) xs rs (map_view m s')"
  using assms
proof (induction xs arbitrary: s rs)
  case Nil
  then show ?case by (auto intro: map_trace.nil)
next
  case (Cons x xs)
  from Cons.prems(3) obtain r s1 rs' where step: "map_step m x s = Some (r, s1)"
    and run: "map_run m xs s1 = Some (rs', s')" and rs: "rs = r # rs'"
    by (auto simp: bind_eq_Some_conv)
  note one = map_step_trace [OF Cons.prems(1) _ step, of xs rs' "map_view m s'"]
  have key: "map_key_ok m s (map_op_key x)" using Cons.prems(2) by simp
  have "mheap_ok s' \<and> map_trace (map_view m s1) xs rs' (map_view m s')"
    using one [OF key] Cons.prems(2) run by (intro Cons.IH) auto
  with one [OF key] rs show ?case by simp
qed

subsection \<open>A concrete map\<close>

definition empty_mheap :: mheap where
  "empty_mheap = \<lparr>entries = Map.empty, buckets = Map.empty, maps = Map.empty, map_its = Map.empty,
     m_answers = [16, 32, 48, 64, 80, 96]\<rparr>"

definition demo_map :: mheap where
  "demo_map = the (map_initialise 4 hash_basic_integer 1 2 empty_mheap)"

lemma empty_mheap_ok: "mheap_ok empty_mheap"
  by (simp add: mheap_ok_def empty_mheap_def)

lemma demo_map_ok: "mheap_ok demo_map" "map_key_ok 4 demo_map k \<longleftrightarrow> length k = 2" "map_view 4 demo_map = Map.empty"
proof -
  have "\<exists>s'. map_initialise 4 hash_basic_integer 1 2 empty_mheap = Some s' \<and> mheap_ok s' \<and>
      map_view 4 s' = Map.empty \<and> (\<forall>k. map_key_ok 4 s' k \<longleftrightarrow> length k = unat (2 :: u32)) \<and>
      (\<forall>m2. m2 \<noteq> 4 \<longrightarrow> map_view m2 s' = map_view m2 empty_mheap \<and> map_key_ok m2 s' = map_key_ok m2 empty_mheap)"
    by (rule map_initialise_new [OF empty_mheap_ok])
      (simp_all add: empty_mheap_def MAP_MAX_KEY_LENGTH_def hash_basic_integer_total)
  then show "mheap_ok demo_map" "map_key_ok 4 demo_map k \<longleftrightarrow> length k = 2" "map_view 4 demo_map = Map.empty"
    by (auto simp: demo_map_def)
qed

lemma demo_map_maps: "maps demo_map 4 = Some \<lparr>m_size = 0, m_key_size = 2, m_buckets = (\<lambda>_. NULL),
    m_hash = hash_basic_integer, m_pool = 1\<rparr>" "m_answers demo_map = [16, 32, 48, 64, 80, 96]"
    "buckets demo_map = Map.empty" "entries demo_map = Map.empty"
  by (simp_all add: demo_map_def map_initialise_def empty_mheap_def MAP_MAX_KEY_LENGTH_def)

lemma demo_map_room: "map_room 4 [1, 0] demo_map"
proof -
  have "map_index_of \<lparr>m_size = 0, m_key_size = 2, m_buckets = (\<lambda>_. NULL), m_hash = hash_basic_integer, m_pool = 1\<rparr> [1, 0] = Some 0"
    by code_simp
  then show ?thesis using demo_map_maps by (simp add: map_room_def MAP_CAPACITY_def)
qed

subsection \<open>Properties\<close>

text \<open>
  When the map has room for a key, \<open>map_put\<close> succeeds, keeps the heap of the maps well
  formed, and afterwards a lookup of the key in this map returns the new value; every other
  key, and every key of every other map, is looked up as before.
\<close>

lemma map_put_stores:
  assumes "mheap_ok s" "map_key_ok m s k" "map_room m k s"
  shows "\<exists>s'. map_put m k v s = Some (True, s') \<and> mheap_ok s' \<and>
    (\<forall>m2 k2. map_key_ok m2 s k2 \<longrightarrow>
       map_get m2 k2 s' = (if m2 = m \<and> k2 = k then Some (Some v) else map_get m2 k2 s))"
proof -
  obtain s' where put: "map_put m k v s = Some (True, s')" using map_put_room [OF assms] by blast
  have "mheap_ok s'" using hm.put_upd [OF assms(1,2) put] by (simp add: map_upd_def)
  with put hm.get_put [OF assms(1,2) put] show ?thesis by blast
qed

text \<open>
  \<open>map_remove\<close> always returns on a well formed heap, says whether the key was there, and
  takes exactly this binding away.
\<close>

lemma map_remove_removes:
  assumes "mheap_ok s" "map_key_ok m s k"
  shows "\<exists>s'. map_remove m k s = Some (map_get m k s \<noteq> Some None, s') \<and> mheap_ok s' \<and>
    (\<forall>m2 k2. map_key_ok m2 s k2 \<longrightarrow>
       map_get m2 k2 s' = (if m2 = m \<and> k2 = k then Some None else map_get m2 k2 s))"
proof -
  obtain s' where rem: "map_remove m k s = Some (map_view m s k \<noteq> None, s')"
    and upd: "map_upd mheap_ok map_live map_key_ok map_view m s s' ((map_view m s)(k := None))"
    using hm.rem_upd [OF assms] by blast
  from upd have "mheap_ok s'" by (simp add: map_upd_def)
  with rem hm.get_rem(1) [OF assms rem] hm.get_view [OF assms] show ?thesis by auto
qed

text \<open>
  Inserting a new key and removing it again restores the contents of every map.
\<close>

lemma map_put_remove_roundtrip:
  assumes "mheap_ok s" "map_key_ok m s k" "map_room m k s" "map_get m k s = Some None"
  shows "\<exists>s1 s2. map_put m k v s = Some (True, s1) \<and> map_remove m k s1 = Some (True, s2) \<and>
    (\<forall>m2. map_view m2 s2 = map_view m2 s)"
  using map_put_room [OF assms(1-3)] hm.put_rem [OF assms(1,2,4)] by blast

text \<open>
  C2: The hash map refines a finite map: whatever sequence of insertions, removals and lookups
  is run on it, the results are those of the abstract map that starts with the contents of the
  map, and the contents at the end are those of the abstract map.
\<close>

theorem map_refines_finite_map:
  assumes "mheap_ok s" "\<forall>x\<in>set xs. map_key_ok m s (map_op_key x)" "map_run m xs s = Some (rs, s')"
  shows "map_trace (map_view m s) xs rs (map_view m s')"
  using map_run_trace [OF assms] by simp

theorem map_refines_finite_map_witness:
  "\<exists>s' rs. map_run 4 [Put [1, 0] 7, Get [1, 0], Remove [1, 0], Get [1, 0]] demo_map = Some (rs, s') \<and>
     map_trace Map.empty [Put [1, 0] 7, Get [1, 0], Remove [1, 0], Get [1, 0]] rs (map_view 4 s') \<and>
     rs = [Flag True, Value (Some 7), Flag True, Value None]"
proof -
  let ?xs = "[Put [1, 0] 7, Get [1, 0], Remove [1, 0], Get [1, 0]]"
  have "(case map_run 4 ?xs demo_map of None \<Rightarrow> False
      | Some (rs, s') \<Rightarrow> rs = [Flag True, Value (Some 7), Flag True, Value None])"
    by code_simp
  then obtain s' where run: "map_run 4 ?xs demo_map =
      Some ([Flag True, Value (Some 7), Flag True, Value None], s')"
    by (auto split: option.splits)
  have "\<forall>x\<in>set ?xs. map_key_ok 4 demo_map (map_op_key x)" by (simp add: demo_map_ok)
  from map_refines_finite_map [OF demo_map_ok(1) this run] run show ?thesis
    by (auto simp: demo_map_ok)
qed

text \<open>
  \<open>map_put\<close> with a key the map already has replaces the value, but allocates a second
  entry and counts it: the size grows although the set of keys stays the same.
\<close>

lemma map_put_again_counts_twice:
  assumes "mheap_ok s" "map_key_ok m s k" "map_room m k s" "map_view m s k = Some old" "map_size m s = Some n"
  shows "\<exists>s'. map_put m k v s = Some (True, s') \<and> map_view m s' k = Some v \<and>
    dom (map_view m s') = dom (map_view m s) \<and> map_size m s' = Some (n + 1)"
proof -
  obtain mp where mp: "maps s m = Some mp" "length k = unat (m_key_size mp)"
    using assms(2) by (auto simp: map_key_ok_def)
  from assms(1) mp show ?thesis
  proof (cases rule: map_put_cases [where v = v])
    case (stored s')
    then have "map_view m s' = (map_view m s)(k \<mapsto> v)" by (simp add: map_becomes_def)
    with stored assms(4,5) mp show ?thesis
      by (intro exI [of _ s']) (auto simp: map_size_def)
  qed (use assms(3) in auto)
qed

text \<open>
  The index of a key is within the array of buckets, and it is even: the mask is 2046
  because the number of buckets, 2047, is not a power of two, so no bucket with an odd index is
  ever used.
\<close>

lemma map_index_in_even_bucket:
  assumes "map_index_of mp key = Some i"
  shows "i < MAP_BUCKET_COUNT \<and> even i"
  using map_index_of_bound [OF assms] map_index_of_even [OF assms] by simp

end
