(* ===== verification/Text_Util.thy ===== *)
theory Text_Util
  imports Prelude
begin

section \<open>Strings and numbers (\<open>utils/util_*.c\<close>)\<close>

text \<open>
  A buffer is the list of its bytes, a pointer that the code tests for null an optional buffer.
  Reading or writing outside of the buffer is an illegal access.  The characters of the target
  are unsigned.  The loops that advance a pointer recurse over the bytes still ahead of it.
\<close>

subsection \<open>Memory\<close>

definition rd :: "u8 list \<Rightarrow> nat \<Rightarrow> u8 option" where
  "rd buf i = (if i < length buf then Some (buf ! i) else None)"

definition wr :: "u8 list \<Rightarrow> nat \<Rightarrow> u8 \<Rightarrow> u8 list option" where
  "wr buf i v = (if i < length buf then Some (buf[i := v]) else None)"

primrec util_memset :: "u8 list \<Rightarrow> u8 \<Rightarrow> nat \<Rightarrow> u8 list option" where
  "util_memset address value 0 = Some address"
| "util_memset address value (Suc n) =
     (case address of
        [] \<Rightarrow> None
      | _ # rest \<Rightarrow> do { r \<leftarrow> util_memset rest value n; Some (value # r) })"

primrec util_memcpy :: "u8 list \<Rightarrow> u8 list \<Rightarrow> nat \<Rightarrow> u8 list option" where
  "util_memcpy dst src 0 = Some dst"
| "util_memcpy dst src (Suc n) =
     (case (dst, src) of
        (_ # ds, c # cs) \<Rightarrow> do { r \<leftarrow> util_memcpy ds cs n; Some (c # r) }
      | _ \<Rightarrow> None)"

subsection \<open>Strings\<close>

text \<open>The character is read before the counter is compared with the maximum.\<close>

primrec util_strlen_loop :: "u8 list \<Rightarrow> u32 \<Rightarrow> u32 \<Rightarrow> u32 option" where
  "util_strlen_loop [] c m = None"
| "util_strlen_loop (x # xs) c m = (if x \<noteq> 0 \<and> c < m then util_strlen_loop xs (c + 1) m else Some c)"

definition util_strlen :: "u8 list option \<Rightarrow> u32 \<Rightarrow> u32 option" where
  "util_strlen string m = (case string of None \<Rightarrow> Some 0 | Some s \<Rightarrow> util_strlen_loop s 0 m)"

definition util_strcpy :: "u8 list \<Rightarrow> u8 list option \<Rightarrow> u32 \<Rightarrow> u8 list option" where
  "util_strcpy destination source m = do {
     n \<leftarrow> util_strlen source m;
     util_memcpy destination (case source of None \<Rightarrow> [] | Some s \<Rightarrow> s) (unat n)
   }"

definition util_strcat :: "u8 list \<Rightarrow> u8 list option \<Rightarrow> u32 \<Rightarrow> u8 list option" where
  "util_strcat destination source m = do {
     existing \<leftarrow> util_strlen (Some destination) m;
     n \<leftarrow> util_strlen source (m - existing);
     r \<leftarrow> util_memcpy (drop (unat existing) destination) (case source of None \<Rightarrow> [] | Some s \<Rightarrow> s) (unat n);
     Some (take (unat existing) destination @ r)
   }"

text \<open>
  The loop of \<open>util_streq\<close>, the tests of its body in their order; at least one pointer is not
  null there.
\<close>

primrec util_streq_loop :: "nat \<Rightarrow> u8 list option \<Rightarrow> u8 list option \<Rightarrow> bool option" where
  "util_streq_loop 0 l r = Some True"
| "util_streq_loop (Suc n) l r =
     (case (l, r) of
        (None, None) \<Rightarrow> None
      | (None, Some []) \<Rightarrow> None
      | (None, Some (b # bs)) \<Rightarrow> Some False
      | (Some [], _) \<Rightarrow> None
      | (Some (a # as), None) \<Rightarrow> Some False
      | (Some (a # as), Some []) \<Rightarrow> None
      | (Some (a # as), Some (b # bs)) \<Rightarrow>
          (if a = 0 \<and> b \<noteq> 0 then Some False
           else if b = 0 \<and> a \<noteq> 0 then Some False
           else if a \<noteq> b then Some False
           else if a = 0 \<and> b = 0 then Some True
           else util_streq_loop n (Some as) (Some bs)))"

definition util_streq :: "u8 list option \<Rightarrow> u8 list option \<Rightarrow> u32 \<Rightarrow> bool option" where
  "util_streq l r len =
     (if l = None \<and> r = None then Some True else util_streq_loop (unat len) l r)"

primrec util_case_loop :: "(u8 \<Rightarrow> u8) \<Rightarrow> u8 list \<Rightarrow> u8 list option" where
  "util_case_loop f [] = None"
| "util_case_loop f (v # vs) =
     (if v = 0 then Some (v # vs) else do { r \<leftarrow> util_case_loop f vs; Some (f v # r) })"

definition util_to_upper :: "u8 list option \<Rightarrow> u8 list option option" where
  "util_to_upper string =
     (case string of
        None \<Rightarrow> Some None
      | Some s \<Rightarrow> do { r \<leftarrow> util_case_loop (\<lambda>v. if 97 \<le> v \<and> v \<le> 122 then v - 32 else v) s; Some (Some r) })"

definition util_to_lower :: "u8 list option \<Rightarrow> u8 list option option" where
  "util_to_lower string =
     (case string of
        None \<Rightarrow> Some None
      | Some s \<Rightarrow> do { r \<leftarrow> util_case_loop (\<lambda>v. if 65 \<le> v \<and> v \<le> 90 then v + 32 else v) s; Some (Some r) })"

text \<open>The loop of \<open>util_reverse_string\<close> with \<open>n\<close> rounds still to go.\<close>

primrec util_reverse_loop :: "nat \<Rightarrow> u8 list \<Rightarrow> nat \<Rightarrow> u8 list \<Rightarrow> u8 list option" where
  "util_reverse_loop 0 src len dst = Some dst"
| "util_reverse_loop (Suc n) src len dst = do {
     let p = len - Suc n;
     c \<leftarrow> rd src (len - p - 1);
     dst \<leftarrow> wr dst p c;
     util_reverse_loop n src len dst
   }"

definition util_reverse_string :: "u8 list \<Rightarrow> u32 \<Rightarrow> u8 list \<Rightarrow> u8 list option" where
  "util_reverse_string src src_length dst = util_reverse_loop (unat src_length) src (unat src_length) dst"

text \<open>\<open>util_trim\<close> clears the zeros at the end; with none but zeros it runs off the front of the buffer.\<close>

primrec util_trim_loop :: "nat \<Rightarrow> u8 list \<Rightarrow> (u8 list \<times> nat) option" where
  "util_trim_loop 0 string = None"
| "util_trim_loop (Suc n) string = do {
     c \<leftarrow> rd string n;
     if c = 48 then do { string \<leftarrow> wr string n 0; util_trim_loop n string } else Some (string, Suc n)
   }"

definition util_trim :: "u8 list option \<Rightarrow> u32 \<Rightarrow> (u8 list option \<times> u32) option" where
  "util_trim string len =
     (case string of
        None \<Rightarrow> Some (None, 0)
      | Some s \<Rightarrow> do { (s, n) \<leftarrow> util_trim_loop (unat len) s; Some (Some s, of_nat n) })"

subsection \<open>Numbers\<close>

text \<open>
  The digits of a positive number are written from the lowest on, as long as the remainder is
  positive; \<open>n\<close> is the integer the code counts down.
\<close>

function util_digits_loop :: "int \<Rightarrow> nat \<Rightarrow> u8 list \<Rightarrow> (nat \<times> u8 list) option" where
  "util_digits_loop n p rev_buffer =
     (if 0 < n then do {
        let tmp = n mod 10;
        rev_buffer \<leftarrow> wr rev_buffer p (of_int tmp + 48);
        util_digits_loop (n div 10) (p + 1) rev_buffer
      }
      else Some (p, rev_buffer))"
  by pat_completeness auto

termination by (relation "measure (\<lambda>(n, p, b). nat n)") auto

text \<open>Negating the least integer gives the least integer again.\<close>

definition util_i_to_a :: "32 word \<Rightarrow> u8 list option \<Rightarrow> u32 \<Rightarrow> u8 list option option" where
  "util_i_to_a i buffer buffer_length =
     (case buffer of
        None \<Rightarrow> Some None
      | Some buf \<Rightarrow>
          if i = 0 then do { buf \<leftarrow> wr buf 0 48; buf \<leftarrow> wr buf 1 0; Some (Some buf) }
          else do {
            let rev_buffer = replicate (unat buffer_length) 0;
            let is_neg = sint i < 0;
            let n = (if is_neg then i * - 1 else i);
            (p, rev_buffer) \<leftarrow> util_digits_loop (sint n) 0 rev_buffer;
            (p, rev_buffer) \<leftarrow> (if is_neg then do { r \<leftarrow> wr rev_buffer p 45; Some (p + 1, r) }
                               else Some (p, rev_buffer));
            number_length \<leftarrow> util_strlen (Some rev_buffer) buffer_length;
            (rev, new_length) \<leftarrow> util_trim (Some rev_buffer) number_length;
            buf \<leftarrow> util_reverse_string (case rev of None \<Rightarrow> [] | Some r \<Rightarrow> r) new_length buf;
            Some (Some buf)
          })"

text \<open>\<open>rem\<close> holds the hexadecimal digits, the lowest first; it has \<open>buffer_length\<close> places.\<close>

function util_hex_loop :: "nat \<Rightarrow> nat list \<Rightarrow> nat \<Rightarrow> nat list option" where
  "util_hex_loop i rems buffer_length =
     (if 0 < i then
        (if length rems < buffer_length
         then util_hex_loop (i div 16) (rems @ [i mod 16]) buffer_length else None)
      else Some rems)"
  by pat_completeness auto

termination by (relation "measure (\<lambda>(i, r, b). i)") auto

primrec util_hex_write :: "nat list \<Rightarrow> nat \<Rightarrow> u8 list \<Rightarrow> u8 list option" where
  "util_hex_write [] p buffer = Some buffer"
| "util_hex_write (r # rs) p buffer = do {
     buffer \<leftarrow> wr buffer p (if r < 10 then 48 + of_nat r else 65 + of_nat (r - 10));
     util_hex_write rs (p + 1) buffer
   }"

definition util_i_to_h :: "u32 \<Rightarrow> u8 list option \<Rightarrow> u32 \<Rightarrow> u8 list option option" where
  "util_i_to_h i buffer buffer_length =
     (case buffer of
        None \<Rightarrow> Some None
      | Some buf \<Rightarrow>
          if i = 0 then do { buf \<leftarrow> wr buf 0 48; buf \<leftarrow> wr buf 1 0; Some (Some buf) }
          else do {
            rems \<leftarrow> util_hex_loop (unat i) [] (unat buffer_length);
            buf \<leftarrow> util_hex_write (rev rems) 0 buf;
            Some (Some buf)
          })"

text \<open>
  The position is counted in 8 bits and compared with a length of 32 bits, so the loop does not
  end when the length is more than 255.
\<close>

partial_function (option) util_a_to_i_loop :: "u8 list \<Rightarrow> u32 \<Rightarrow> u8 \<Rightarrow> u32 \<Rightarrow> u32 option" where
  "util_a_to_i_loop buffer len p value =
     (if ucast p < len then
        Option.bind (rd buffer (unat (ucast (len - ucast p - 1) :: u8))) (\<lambda>c.
          let val = c - 48 in
          util_a_to_i_loop buffer len (p + 1)
            (if val \<le> 9 then value + ucast val * (if p = 0 then 1 else ucast p * 10) else value))
      else Some value)"

definition util_a_to_i :: "u8 list option \<Rightarrow> u32 \<Rightarrow> u32 option" where
  "util_a_to_i buffer buffer_length = do {
     len \<leftarrow> util_strlen buffer buffer_length;
     util_a_to_i_loop (case buffer of None \<Rightarrow> [] | Some b \<Rightarrow> b) len 0 0
   }"

declare util_a_to_i_loop.simps [code]

end
