(* ===== verification/Text_Props.thy ===== *)
theory Text_Props
  imports Text_Util
begin

section \<open>Strings and numbers: what the functions compute\<close>

text \<open>
  A string is a buffer \<open>cs @ 0 # rest\<close> with no zero in \<open>cs\<close>.  The decimal digits a number is
  printed with are given by the reference function \<open>dec\<close>.
\<close>

subsection \<open>Length and equality\<close>

lemma util_strlen_loop_eq:
  assumes "0 \<notin> set cs" "c \<le> m"
  shows "util_strlen_loop (cs @ 0 # rest) c m = Some (of_nat (min (unat c + length cs) (unat m)))"
  using assms
proof (induction cs arbitrary: c)
  case Nil
  then show ?case by (simp add: word_le_nat_alt min_def)
next
  case (Cons x cs)
  show ?case
  proof (cases "c < m")
    case True
    then have "unat (c + 1) = Suc (unat c)" "c + 1 \<le> m" by (simp_all add: unat_inc inc_le_iff)
    with Cons True show ?thesis by simp
  next
    case False
    with Cons.prems have "c = m" by simp
    then show ?thesis by (simp add: min_def)
  qed
qed

lemma util_strlen_eq:
  "0 \<notin> set cs \<Longrightarrow> util_strlen (Some (cs @ 0 # rest)) m = Some (of_nat (min (length cs) (unat m)))"
  using util_strlen_loop_eq [of cs 0 m rest] by (simp add: util_strlen_def)

text \<open>A buffer that is full, without a terminating zero, is read beyond its end.\<close>

lemma util_strlen_loop_overrun:
  "0 \<notin> set cs \<Longrightarrow> unat c + length cs \<le> unat m \<Longrightarrow> util_strlen_loop cs c m = None"
proof (induction cs arbitrary: c)
  case (Cons x cs)
  then have "c < m" by (simp add: word_less_nat_alt)
  with Cons show ?case by (simp add: unat_inc)
qed simp

lemma util_streq_loop_eq:
  assumes "0 \<notin> set xs" "0 \<notin> set ys"
  shows "util_streq_loop n (Some (xs @ 0 # r1)) (Some (ys @ 0 # r2)) = Some (take n xs = take n ys)"
  using assms
proof (induction n arbitrary: xs ys)
  case (Suc n)
  then show ?case by (cases xs; cases ys) auto
qed simp

subsection \<open>Printing numbers\<close>

fun dec :: "nat \<Rightarrow> u8 list" where
  "dec n = (if n < 10 then [48 + of_nat n] else dec (n div 10) @ [48 + of_nat (n mod 10)])"

declare dec.simps [simp del] util_digits_loop.simps [simp del]

lemma unat_digit: "k < 10 \<Longrightarrow> unat (48 + (of_nat k :: u8)) = 48 + k"
  by (simp add: unat_word_ariths unat_of_nat take_bit_nat_eq_self)

lemma digit_ne: "k < 10 \<Longrightarrow> 48 + (of_nat k :: u8) \<noteq> 0"
  using unat_digit [of k] by (auto simp del: of_nat_numeral)

lemma of_nat_ne: "k < 10 \<Longrightarrow> 0 < k \<Longrightarrow> (of_nat k :: u8) \<noteq> 0"
  using unat_of_nat [of k, where 'a = 8] by (auto simp: take_bit_nat_eq_self)

lemma dec_not_zero: "0 \<notin> set (dec n)"
proof (induction n rule: dec.induct)
  case (1 n)
  then show ?case by (subst dec.simps) (auto simp: digit_ne dest: sym)
qed

lemma dec_first: "0 < n \<Longrightarrow> hd (dec n) \<noteq> 48 \<and> dec n \<noteq> []"
proof (induction n rule: dec.induct)
  case (1 n)
  then show ?case by (subst dec.simps, subst (2) dec.simps) (auto simp: of_nat_ne)
qed

text \<open>The loop writes the digits from the lowest on.\<close>

lemma wr_at: "p < length buf \<Longrightarrow> wr buf p v = Some (take p buf @ v # drop (Suc p) buf)"
  by (simp add: wr_def upd_conv_take_nth_drop)

lemma util_digits_loop_eq:
  assumes "0 < n" "p + length (dec n) \<le> length buf"
  shows "util_digits_loop (int n) p buf =
    Some (p + length (dec n), take p buf @ rev (dec n) @ drop (p + length (dec n)) buf)"
  using assms
proof (induction n arbitrary: p buf rule: dec.induct)
  case (1 n)
  let ?d = "48 + (of_nat (n mod 10) :: u8)"
  let ?b = "take p buf @ ?d # drop (Suc p) buf"
  have d: "(of_int (int n mod 10) :: u8) + 48 = ?d"
    by (metis add.commute of_int_of_nat_eq of_nat_numeral zmod_int)
  have p: "p < length buf" using 1(3) dec_first [OF 1(2)] by (cases "dec n") auto
  have q: "int n div 10 = int (n div 10)" by (simp add: zdiv_int)
  have step: "util_digits_loop (int n) p buf = util_digits_loop (int (n div 10)) (Suc p) ?b"
    using 1(2) p d q by (subst util_digits_loop.simps) (simp add: wr_at add.commute)
  show ?case
  proof (cases "n < 10")
    case True
    then show ?thesis unfolding step using p
      by (simp add: dec.simps [of n] util_digits_loop.simps)
  next
    case False
    then have dec: "dec n = dec (n div 10) @ [?d]" by (simp add: dec.simps [of n])
    have "util_digits_loop (int (n div 10)) (Suc p) ?b =
        Some (Suc p + length (dec (n div 10)),
          take (Suc p) ?b @ rev (dec (n div 10)) @ drop (Suc p + length (dec (n div 10))) ?b)"
      using False 1(3) p by (intro 1(1)) (auto simp: dec div_greater_zero_iff)
    then show ?thesis unfolding step using p by (simp add: dec add.commute)
  qed
qed

lemma util_reverse_loop_eq:
  assumes "n \<le> len" "len \<le> length src" "len \<le> length dst"
  shows "util_reverse_loop n src len dst = Some (take (len - n) dst @ rev (take n src) @ drop len dst)"
  using assms
proof (induction n arbitrary: dst)
  case (Suc n)
  define p where "p = len - Suc n"
  have p: "p < len" "len - p - 1 = n" "len - n = Suc p" using Suc.prems by (auto simp: p_def)
  have "util_reverse_loop (Suc n) src len dst = util_reverse_loop n src len (dst[p := src ! n])"
    using Suc.prems p by (simp add: p_def [symmetric] rd_def wr_def)
  also have "\<dots> = Some (take (Suc p) (dst[p := src ! n]) @ rev (take n src) @ drop len (dst[p := src ! n]))"
    using Suc p by simp
  also have "take (Suc p) (dst[p := src ! n]) = take p dst @ [src ! n]"
    using p Suc.prems by (simp add: take_Suc_conv_app_nth)
  also have "(take p dst @ [src ! n]) @ rev (take n src) @ drop len (dst[p := src ! n]) =
      take p dst @ rev (take (Suc n) src) @ drop len dst"
    using p Suc.prems by (simp add: take_Suc_conv_app_nth)
  finally show ?case by (simp add: p_def)
qed simp

text \<open>The second half of \<open>util_i_to_a\<close>: the digits, written in reverse, are copied to the buffer.\<close>

lemma i_to_a_copy:
  assumes t: "t \<noteq> []" "0 \<notin> set t" "hd t \<noteq> 48" and len: "length t < unat L" "length t \<le> length buf"
  shows "do {
      number_length \<leftarrow> util_strlen (Some (rev t @ replicate (unat L - length t) 0)) L;
      (r, new_length) \<leftarrow> util_trim (Some (rev t @ replicate (unat L - length t) 0)) number_length;
      b \<leftarrow> util_reverse_string (case r of None \<Rightarrow> [] | Some r \<Rightarrow> r) new_length buf;
      Some (Some b)
    } = Some (Some (t @ drop (length t) buf))"
proof -
  let ?r = "rev t @ replicate (unat L - length t) 0"
  have r: "?r = rev t @ 0 # replicate (unat L - length t - 1) 0"
    using len(1) by (cases "unat L - length t") auto
  have "length t < 2 ^ 32" using len(1) order_less_trans [OF _ unsigned_less [of L]] by fastforce
  then have un: "unat (of_nat (length t) :: u32) = length t" by (simp add: unat_of_nat take_bit_nat_eq_self)
  have sl: "util_strlen (Some ?r) L = Some (of_nat (length t))"
    unfolding r using util_strlen_eq [of "rev t"] t(2) len(1) by (simp add: min_def)
  obtain n where n: "length t = Suc n" using t(1) by (cases t) auto
  have "?r ! n = hd t" using n by (simp add: nth_append rev_nth hd_conv_nth [OF t(1)])
  then have tr: "util_trim_loop (length t) ?r = Some (?r, length t)"
    using n t(3) by (simp add: rd_def)
  have rv: "util_reverse_string ?r (of_nat (length t)) buf = Some (t @ drop (length t) buf)"
    using len by (simp add: util_reverse_string_def un util_reverse_loop_eq)
  show ?thesis unfolding sl using un tr rv by (simp add: util_trim_def)
qed

text \<open>The text of a signed number.\<close>

definition dec_int :: "int \<Rightarrow> u8 list" where
  "dec_int i = (if i < 0 then 45 # dec (nat (- i)) else dec (nat i))"

lemma sint_negate:
  assumes "sint (i :: 32 word) \<noteq> - (2 ^ 31)"
  shows "sint (i * - 1) = - sint i"
proof -
  have "- (2 ^ 31) \<le> sint i" "sint i < 2 ^ 31" using sint_range_size [of i] by (auto simp: word_size)
  with assms show ?thesis by (simp add: sint_word_minus signed_take_bit_int_eq_self)
qed

lemma util_i_to_a_eq:
  fixes i :: "32 word"
  assumes i: "i \<noteq> 0" "sint i \<noteq> - (2 ^ 31)"
    and len: "length (dec_int (sint i)) < unat L" "length (dec_int (sint i)) \<le> length buf"
  shows "util_i_to_a i (Some buf) L = Some (Some (dec_int (sint i) @ drop (length (dec_int (sint i))) buf))"
proof -
  define v where "v = nat (abs (sint i))"
  have sint0: "sint i \<noteq> 0" using i(1) by (simp add: signed_eq_0_iff)
  then have v: "0 < v" by (simp add: v_def)
  have n: "sint (if sint i < 0 then i * - 1 else i) = int v"
    using sint_negate [OF i(2)] by (auto simp: v_def)
  have t: "dec_int (sint i) = (if sint i < 0 then 45 # dec v else dec v)" by (simp add: dec_int_def v_def)
  have le: "length (dec v) \<le> unat L" using len(1) t by (auto split: if_splits)
  have dig: "util_digits_loop (int v) 0 (replicate (unat L) 0) =
      Some (length (dec v), rev (dec v) @ replicate (unat L - length (dec v)) 0)"
    using util_digits_loop_eq [OF v, of 0 "replicate (unat L) 0"] le by simp
  have minus: "wr (rev (dec v) @ replicate (unat L - length (dec v)) 0) (length (dec v)) 45 =
      Some (rev (45 # dec v) @ replicate (unat L - length (45 # dec v)) 0)" if "sint i < 0"
    using that len(1) t by (cases "unat L - length (dec v)") (auto simp: wr_def list_update_append)
  note copy = i_to_a_copy [of "dec_int (sint i)" L buf, OF _ _ _ len]
  have "dec_int (sint i) \<noteq> []" "0 \<notin> set (dec_int (sint i))" "hd (dec_int (sint i)) \<noteq> 48"
    using dec_first [OF v] dec_not_zero [of v] by (auto simp: t)
  note copy = copy [OF this]
  show ?thesis
  proof (cases "sint i < 0")
    case True
    then show ?thesis using i(1) n dig minus copy by (simp add: util_i_to_a_def Let_def t)
  next
    case False
    then have t': "dec_int (sint i) = dec v" using t by simp
    show ?thesis using False i(1) n dig copy unfolding t' by (simp add: util_i_to_a_def Let_def)
  qed
qed

subsection \<open>Reading numbers\<close>

text \<open>The loop of \<open>util_a_to_i\<close> ends only if the length fits into the counter.\<close>

lemma unat_u8_u32: "unat (ucast (p :: u8) :: u32) = unat p"
  by (simp add: unsigned_ucast_eq unsigned_take_bit_eq take_bit_nat_eq_self order_less_trans [OF unsigned_less])

lemma util_a_to_i_loop_short:
  assumes "util_a_to_i_loop buffer len p acc = Some v"
  shows "unat len \<le> 255"
proof (rule util_a_to_i_loop.raw_induct [where P = "\<lambda>buffer len p acc v. unat len \<le> 255", OF _ assms])
  fix loop buffer acc v and len :: u32 and p :: u8
  assume ih: "\<And>b l q w y. loop b l q w = Some y \<Longrightarrow> unat (l :: u32) \<le> 255"
    and body: "(if ucast p < len
        then Option.bind (rd buffer (unat (ucast (len - ucast p - 1) :: u8))) (\<lambda>c. let val = c - 48 in
          loop buffer len (p + 1) (if val \<le> 9 then acc + ucast val * (if p = 0 then 1 else ucast p * 10) else acc))
        else Some acc) = Some v"
  show "unat len \<le> 255"
  proof (cases "ucast p < len")
    case True
    with ih body show ?thesis by (auto simp: bind_eq_Some_conv Let_def)
  next
    case False
    then have "unat len \<le> unat p" by (simp add: word_less_nat_alt unat_u8_u32 not_less)
    also have "\<dots> \<le> 255" using unsigned_less [of p, where 'a = nat] by simp
    finally show ?thesis .
  qed
qed

lemma util_a_to_i_loop_total:
  assumes "unat len \<le> 255" "unat len \<le> length buffer"
  shows "\<exists>v. util_a_to_i_loop buffer len p acc = Some v"
proof (induction "unat len - unat p" arbitrary: p acc rule: less_induct)
  case less
  show ?case
  proof (cases "ucast p < len")
    case True
    then have lt: "unat p < unat len" by (simp add: word_less_nat_alt unat_u8_u32)
    with assms(1) have "unat (p + 1) = Suc (unat p)"
      by (intro unat_inc [of p 255]) (simp add: word_less_nat_alt)
    with lt have m: "unat len - unat (p + 1) < unat len - unat p" by simp
    have "unat (ucast (len - ucast p - 1) :: u8) \<le> unat (len - ucast p - 1)"
      by (simp add: unsigned_ucast_eq unsigned_take_bit_eq)
    also have "unat (len - ucast p - 1) < unat len"
      using lt by (simp add: unat_u8_u32 unat_sub_if_size word_size word_le_nat_alt Suc_le_eq)
    finally have "rd buffer (unat (ucast (len - ucast p - 1) :: u8)) \<noteq> None"
      using assms(2) by (simp add: rd_def)
    with True less [OF m] show ?thesis
      by (subst util_a_to_i_loop.simps) (auto simp: Let_def)
  next
    case False
    then show ?thesis by (subst util_a_to_i_loop.simps) simp
  qed
qed

lemma digit_value: "k < 10 \<Longrightarrow> (48 + of_nat k :: u8) - 48 \<le> 9" "k < 10 \<Longrightarrow> ucast (of_nat k :: u8) = (of_nat k :: u32)"
  by (simp_all add: word_le_nat_alt unat_of_nat take_bit_nat_eq_self word_unat_eq_iff unat_u8_u32)

subsection \<open>Properties\<close>

text \<open>
  C31: \<open>util_streq\<close> agrees with equality of the strings cut to the given length, and never reads
  behind their terminators.
\<close>

theorem util_streq_compares:
  assumes "0 \<notin> set xs" "0 \<notin> set ys"
  shows "util_streq (Some (xs @ 0 # r1)) (Some (ys @ 0 # r2)) n = Some (take (unat n) xs = take (unat n) ys)"
  using util_streq_loop_eq [OF assms] by (simp add: util_streq_def)

theorem util_streq_compares_witness:
  "util_streq (Some ([104, 105] @ 0 # [])) (Some ([104, 111] @ 0 # [7])) 8 = Some False"
  using util_streq_compares [of "[104, 105]" "[104, 111]" "[]" "[7]" 8] by simp

text \<open>
  \<open>util_i_to_a\<close> writes the decimal text of every number but the least one, and nothing
  behind it; in particular it writes no terminating zero.
\<close>

lemma util_i_to_a_prints:
  assumes "i \<noteq> 0" "sint i \<noteq> - (2 ^ 31)"
    "length (dec_int (sint i)) < unat L" "length (dec_int (sint i)) \<le> length buf"
  shows "util_i_to_a i (Some buf) L = Some (Some (dec_int (sint i) @ drop (length (dec_int (sint i))) buf))"
  by (rule util_i_to_a_eq [OF assms])

text \<open>Of the least number only the sign is printed.\<close>

lemma util_i_to_a_least:
  "util_i_to_a (- (2 ^ 31)) (Some [1, 2, 3]) 16 = Some (Some [45, 2, 3])"
  by code_simp

text \<open>
  C32: \<open>util_a_to_i\<close> comes back exactly when the part of the string it looks at has at most 255
  characters; for a longer one its 8-bit counter never reaches the end.
\<close>

theorem util_a_to_i_terminates:
  assumes "0 \<notin> set cs"
  shows "(\<exists>v. util_a_to_i (Some (cs @ 0 # rest)) m = Some v) \<longleftrightarrow> min (length cs) (unat m) \<le> 255"
proof -
  let ?n = "min (length cs) (unat m)"
  have "?n < 2 ^ 32" using unsigned_less [of m, where 'a = nat] by (simp add: min_less_iff_disj)
  then have un: "unat (of_nat ?n :: u32) = ?n" by (simp add: unat_of_nat take_bit_nat_eq_self)
  have eq: "util_a_to_i (Some (cs @ 0 # rest)) m = util_a_to_i_loop (cs @ 0 # rest) (of_nat ?n) 0 0"
    using util_strlen_eq [OF assms] by (simp add: util_a_to_i_def)
  show ?thesis
    unfolding eq using util_a_to_i_loop_short [of "cs @ 0 # rest" "of_nat ?n" 0 0]
      util_a_to_i_loop_total [of "of_nat ?n" "cs @ 0 # rest" 0 0] un by fastforce
qed

theorem util_a_to_i_terminates_witness:
  "(\<exists>v. util_a_to_i (Some ([49, 50] @ 0 # [])) 9 = Some v) \<and> \<not> (\<exists>v. util_a_to_i (Some (replicate 256 49 @ 0 # [])) 300 = Some v)"
  using util_a_to_i_terminates [of "[49, 50]" "[]" 9] util_a_to_i_terminates [of "replicate 256 49" "[]" 300]
  by simp

text \<open>
  \<open>util_a_to_i\<close> reads numbers of two digits correctly, but gives the third digit from the
  right the weight 20 instead of 100.
\<close>

lemma util_a_to_i_third_digit:
  assumes "a < 10" "b < 10" "c < 10" "0 < a"
  shows "util_a_to_i (Some ([48 + of_nat b, 48 + of_nat c] @ 0 # rest)) 16 = Some (of_nat (10 * b + c)) \<and>
    util_a_to_i (Some ([48 + of_nat a, 48 + of_nat b, 48 + of_nat c] @ 0 # rest)) 16 =
      Some (of_nat (20 * a + 10 * b + c))"
proof -
  have nz: "48 + (of_nat k :: u8) \<noteq> 0" if "k < 10" for k using that digit_ne by blast
  have s2: "util_strlen (Some ([48 + of_nat b, 48 + of_nat c] @ 0 # rest)) 16 = Some 2"
    using assms nz util_strlen_eq [of "[48 + of_nat b, 48 + of_nat c]" rest 16] by auto
  have s3: "util_strlen (Some ([48 + of_nat a, 48 + of_nat b, 48 + of_nat c] @ 0 # rest)) 16 = Some 3"
    using assms nz util_strlen_eq [of "[48 + of_nat a, 48 + of_nat b, 48 + of_nat c]" rest 16] by auto
  have "util_a_to_i_loop ([48 + of_nat b, 48 + of_nat c] @ 0 # rest) 2 0 0 = Some (of_nat (10 * b + c))"
    using assms digit_value by (simp add: util_a_to_i_loop.simps rd_def)
  moreover have "util_a_to_i_loop ([48 + of_nat a, 48 + of_nat b, 48 + of_nat c] @ 0 # rest) 3 0 0 =
      Some (of_nat (20 * a + 10 * b + c))"
    using assms digit_value by (simp add: util_a_to_i_loop.simps rd_def)
  ultimately show ?thesis using s2 s3 by (simp add: util_a_to_i_def)
qed

end
