(* ===== verification/Time.thy ===== *)
theory Time
  imports Prelude
begin

section \<open>Times (\<open>tinker_api_time.c\<close>)\<close>

text \<open>
  A time is a pair of signed 32-bit numbers, seconds and nanoseconds.  Arithmetic wraps around
  at 32 bits and comparisons are signed.  \<open>time_ns\<close> is the number of nanoseconds a time stands
  for; a time is normal when its nanoseconds are less than a second.
\<close>

record tinker_time_t =
  seconds :: "32 word"
  nanoseconds :: "32 word"

definition ONE_SECOND_AS_NANOSECONDS :: int where "ONE_SECOND_AS_NANOSECONDS = 1000000000"
definition ONE_SECOND_AS_US :: "32 word" where "ONE_SECOND_AS_US = 1000000"
definition ONE_MS_AS_NANOSECONDS :: "32 word" where "ONE_MS_AS_NANOSECONDS = 1000000"
definition ONE_US_AS_NANOSECONDS :: "32 word" where "ONE_US_AS_NANOSECONDS = 1000"
definition ONE_NS_AS_US :: int where "ONE_NS_AS_US = 1000"

text \<open>The part \<open>tinker_time_add\<close> and \<open>tinker_time_sub\<close> share: carry whole seconds over.\<close>

definition tinker_time_carry :: "tinker_time_t \<Rightarrow> tinker_time_t" where
  "tinker_time_carry a =
     (if sint (nanoseconds a) \<ge> ONE_SECOND_AS_NANOSECONDS then
        let s = (of_int (sint (nanoseconds a) div ONE_SECOND_AS_NANOSECONDS) :: 32 word)
        in a\<lparr>seconds := seconds a + s, nanoseconds := nanoseconds a - s * of_int ONE_SECOND_AS_NANOSECONDS\<rparr>
      else a)"

definition tinker_time_add :: "tinker_time_t \<Rightarrow> tinker_time_t \<Rightarrow> tinker_time_t" where
  "tinker_time_add l r =
     tinker_time_carry \<lparr>seconds = seconds l + seconds r, nanoseconds = nanoseconds l + nanoseconds r\<rparr>"

definition tinker_time_sub :: "tinker_time_t \<Rightarrow> tinker_time_t \<Rightarrow> tinker_time_t" where
  "tinker_time_sub l r =
     tinker_time_carry \<lparr>seconds = seconds l - seconds r, nanoseconds = nanoseconds l - nanoseconds r\<rparr>"

definition tinker_time_lt :: "tinker_time_t \<Rightarrow> tinker_time_t \<Rightarrow> bool" where
  "tinker_time_lt l r =
     (if sint (seconds l) < sint (seconds r) then True
      else seconds l = seconds r \<and> sint (nanoseconds l) < sint (nanoseconds r))"

definition tinker_time_gt :: "tinker_time_t \<Rightarrow> tinker_time_t \<Rightarrow> bool" where
  "tinker_time_gt l r =
     (if sint (seconds l) > sint (seconds r) then True
      else seconds l = seconds r \<and> sint (nanoseconds l) > sint (nanoseconds r))"

definition tinker_time_eq :: "tinker_time_t \<Rightarrow> tinker_time_t \<Rightarrow> bool" where
  "tinker_time_eq l r \<longleftrightarrow> seconds l = seconds r \<and> nanoseconds l = nanoseconds r"

definition tinker_time_seconds :: "u32 \<Rightarrow> tinker_time_t" where
  "tinker_time_seconds s = \<lparr>seconds = s, nanoseconds = 0\<rparr>"

definition tinker_time_milliseconds :: "u32 \<Rightarrow> tinker_time_t" where
  "tinker_time_milliseconds ms =
     (let s = ms div 1000 in \<lparr>seconds = s, nanoseconds = (ms - s * 1000) * ONE_MS_AS_NANOSECONDS\<rparr>)"

definition tinker_time_microseconds :: "u32 \<Rightarrow> tinker_time_t" where
  "tinker_time_microseconds us =
     (let s = us div 1000000 in \<lparr>seconds = s, nanoseconds = (us - s * 1000000) * ONE_US_AS_NANOSECONDS\<rparr>)"

text \<open>C division rounds towards zero.\<close>

definition tdiv :: "int \<Rightarrow> int \<Rightarrow> int" where
  "tdiv a b = sgn a * sgn b * (\<bar>a\<bar> div \<bar>b\<bar>)"

definition tinker_timer_get_microseconds :: "tinker_time_t \<Rightarrow> u32" where
  "tinker_timer_get_microseconds t =
     seconds t * ONE_SECOND_AS_US + of_int (tdiv (sint (nanoseconds t)) ONE_NS_AS_US)"

text \<open>
  The product of seconds and nanoseconds per second is computed in 32 bits, extended to 64 bits
  and subtracted; the difference is cut to 32 bits again.
\<close>

definition tinker_time_nanoseconds :: "u64 \<Rightarrow> tinker_time_t" where
  "tinker_time_nanoseconds ns =
     (let s = (ucast (ns div 1000000000) :: 32 word)
      in \<lparr>seconds = s, nanoseconds = ucast (ns - scast (s * 1000000000))\<rparr>)"

subsection \<open>What the functions compute\<close>

definition time_ns :: "tinker_time_t \<Rightarrow> int" where
  "time_ns t = sint (seconds t) * ONE_SECOND_AS_NANOSECONDS + sint (nanoseconds t)"

definition time_normal :: "tinker_time_t \<Rightarrow> bool" where
  "time_normal t \<longleftrightarrow> 0 \<le> sint (nanoseconds t) \<and> sint (nanoseconds t) < ONE_SECOND_AS_NANOSECONDS"

text \<open>A signed sum or product that fits into 32 bits is computed exactly.\<close>

lemma sint_of_int32: "- (2 ^ 31) \<le> i \<Longrightarrow> i < 2 ^ 31 \<Longrightarrow> sint (of_int i :: 32 word) = i"
  by transfer (simp add: signed_take_bit_int_eq_self)

lemma sint_add32:
  "- (2 ^ 31) \<le> sint a + sint b \<Longrightarrow> sint a + sint b < 2 ^ 31 \<Longrightarrow> sint (a + b :: 32 word) = sint a + sint b"
  by (simp add: sint_word_add signed_take_bit_int_eq_self)

lemma sint_sub32:
  "- (2 ^ 31) \<le> sint a - sint b \<Longrightarrow> sint a - sint b < 2 ^ 31 \<Longrightarrow> sint (a - b :: 32 word) = sint a - sint b"
  by (simp add: sint_word_diff signed_take_bit_int_eq_self)

lemma sint_range32: "- (2 ^ 31) \<le> sint (a :: 32 word)" "sint (a :: 32 word) < 2 ^ 31"
  using sint_range_size [of a] by (auto simp: word_size)

lemma time_lt_ns:
  assumes "time_normal l" "time_normal r"
  shows "tinker_time_lt l r \<longleftrightarrow> time_ns l < time_ns r"
proof (cases "seconds l = seconds r")
  case False
  then have "sint (seconds l) \<noteq> sint (seconds r)" by (auto dest: signed_word_eqI)
  then show ?thesis
    using assms unfolding tinker_time_lt_def time_ns_def time_normal_def ONE_SECOND_AS_NANOSECONDS_def
    by (cases "sint (seconds l) < sint (seconds r)") (simp_all add: False)
next
  case True
  then show ?thesis by (simp add: tinker_time_lt_def time_ns_def)
qed

lemma time_add_ns:
  assumes "time_normal l" "time_normal r"
    "- (2 ^ 31) \<le> sint (seconds l) + sint (seconds r)" "sint (seconds l) + sint (seconds r) + 1 < 2 ^ 31"
  shows "time_ns (tinker_time_add l r) = time_ns l + time_ns r" "time_normal (tinker_time_add l r)"
proof -
  let ?n = "sint (nanoseconds l) + sint (nanoseconds r)"
  have n: "0 \<le> ?n" "?n < 2000000000"
    using assms(1,2) by (auto simp: time_normal_def ONE_SECOND_AS_NANOSECONDS_def)
  then have ns: "sint (nanoseconds l + nanoseconds r) = ?n" by (intro sint_add32) auto
  have sec: "sint (seconds l + seconds r) = sint (seconds l) + sint (seconds r)"
    using assms(3,4) by (intro sint_add32) auto
  have "time_ns (tinker_time_add l r) = time_ns l + time_ns r \<and> time_normal (tinker_time_add l r)"
  proof (cases "?n < 1000000000")
    case True
    with n ns sec show ?thesis
      by (simp add: tinker_time_add_def tinker_time_carry_def time_ns_def time_normal_def ONE_SECOND_AS_NANOSECONDS_def)
  next
    case False
    with n have d: "?n div 1000000000 = 1" by auto
    have "sint (nanoseconds l + nanoseconds r - 1000000000) = ?n - 1000000000"
      using n False ns by (subst sint_sub32) auto
    moreover have "sint (seconds l + seconds r + 1) = sint (seconds l) + sint (seconds r) + 1"
      using sec assms(3,4) by (subst sint_add32) auto
    ultimately show ?thesis
      using n False ns d
      by (simp add: tinker_time_add_def tinker_time_carry_def time_ns_def time_normal_def ONE_SECOND_AS_NANOSECONDS_def)
  qed
  then show "time_ns (tinker_time_add l r) = time_ns l + time_ns r" "time_normal (tinker_time_add l r)" by auto
qed

lemma time_sub_ns:
  assumes "time_normal l" "time_normal r"
    "- (2 ^ 31) \<le> sint (seconds l) - sint (seconds r)" "sint (seconds l) - sint (seconds r) < 2 ^ 31"
  shows "time_ns (tinker_time_sub l r) = time_ns l - time_ns r"
    and "nanoseconds (tinker_time_sub l r) = nanoseconds l - nanoseconds r"
    and "sint (nanoseconds (tinker_time_sub l r)) = sint (nanoseconds l) - sint (nanoseconds r)"
proof -
  let ?n = "sint (nanoseconds l) - sint (nanoseconds r)"
  have n: "- 1000000000 < ?n" "?n < 1000000000"
    using assms(1,2) by (auto simp: time_normal_def ONE_SECOND_AS_NANOSECONDS_def)
  then have ns: "sint (nanoseconds l - nanoseconds r) = ?n" by (intro sint_sub32) auto
  have sec: "sint (seconds l - seconds r) = sint (seconds l) - sint (seconds r)"
    using assms(3,4) by (intro sint_sub32) auto
  have eq: "tinker_time_sub l r = \<lparr>seconds = seconds l - seconds r, nanoseconds = nanoseconds l - nanoseconds r\<rparr>"
    using n ns by (simp add: tinker_time_sub_def tinker_time_carry_def ONE_SECOND_AS_NANOSECONDS_def)
  show "time_ns (tinker_time_sub l r) = time_ns l - time_ns r"
    by (simp add: eq time_ns_def ns sec left_diff_distrib)
  show "nanoseconds (tinker_time_sub l r) = nanoseconds l - nanoseconds r" by (simp add: eq)
  show "sint (nanoseconds (tinker_time_sub l r)) = ?n" by (simp add: eq ns)
qed

subsection \<open>Properties\<close>

text \<open>
  C29: As long as the seconds do not overflow, \<open>tinker_time_add\<close> of two normal times is normal
  again and stands for the sum; adding a longer duration never gives an earlier time.
\<close>

theorem tinker_time_add_exact:
  assumes "time_normal l" "time_normal r"
    "- (2 ^ 31) \<le> sint (seconds l) + sint (seconds r)" "sint (seconds l) + sint (seconds r) + 1 < 2 ^ 31"
  shows "time_normal (tinker_time_add l r) \<and> time_ns (tinker_time_add l r) = time_ns l + time_ns r \<and>
    (tinker_time_lt l (tinker_time_add l r) \<longleftrightarrow> 0 < time_ns r)"
  using time_add_ns [OF assms] time_lt_ns [OF assms(1)] by simp

theorem tinker_time_add_exact_witness:
  "let l = \<lparr>seconds = 5, nanoseconds = 700000000\<rparr>; r = \<lparr>seconds = 1, nanoseconds = 600000000\<rparr> in
     time_ns (tinker_time_add l r) = 7300000000 \<and> tinker_time_lt l (tinker_time_add l r)"
  using tinker_time_add_exact [of "\<lparr>seconds = 5, nanoseconds = 700000000\<rparr>" "\<lparr>seconds = 1, nanoseconds = 600000000\<rparr>"]
  by (simp add: time_normal_def time_ns_def ONE_SECOND_AS_NANOSECONDS_def)

text \<open>
  \<open>tinker_time_sub\<close> stands for the difference, but when the nanoseconds have to be borrowed
  from the seconds it does not do so: the result has negative nanoseconds and is not normal, and
  the later time with one second less and 999999999 nanoseconds is not recognised as later by
  \<open>tinker_time_gt\<close>.
\<close>

lemma tinker_time_sub_no_borrow:
  assumes "time_normal l" "time_normal r" "0 \<le> sint (seconds r)" "sint (seconds r) \<le> sint (seconds l)"
    "sint (nanoseconds l) + 1 < sint (nanoseconds r)"
  shows "time_ns (tinker_time_sub l r) = time_ns l - time_ns r \<and> \<not> time_normal (tinker_time_sub l r) \<and>
    time_ns (tinker_time_sub l r) < time_ns \<lparr>seconds = seconds l - seconds r - 1, nanoseconds = 999999999\<rparr> \<and>
    \<not> tinker_time_gt \<lparr>seconds = seconds l - seconds r - 1, nanoseconds = 999999999\<rparr> (tinker_time_sub l r)"
proof -
  have r: "- (2 ^ 31) \<le> sint (seconds l) - sint (seconds r)" "sint (seconds l) - sint (seconds r) < 2 ^ 31"
    using assms(3,4) sint_range32 [of "seconds l"] by auto
  note sub = time_sub_ns [OF assms(1,2) r]
  have sec: "sint (seconds l - seconds r) = sint (seconds l) - sint (seconds r)"
    using r by (intro sint_sub32)
  have sec1: "sint (seconds l - seconds r - 1) = sint (seconds l) - sint (seconds r) - 1"
    using r sec assms(4) by (subst sint_sub32) auto
  have n: "sint (nanoseconds (tinker_time_sub l r)) < 0" using sub(3) assms(5) by simp
  have "- 1000000000 < sint (nanoseconds l) - sint (nanoseconds r)"
    using assms(1,2) by (auto simp: time_normal_def ONE_SECOND_AS_NANOSECONDS_def)
  then have eq: "seconds (tinker_time_sub l r) = seconds l - seconds r"
    using sub(2,3) assms(5) by (simp add: tinker_time_sub_def tinker_time_carry_def ONE_SECOND_AS_NANOSECONDS_def)
  have "seconds l - seconds r - 1 \<noteq> seconds l - seconds r" by simp
  then have "\<not> tinker_time_gt \<lparr>seconds = seconds l - seconds r - 1, nanoseconds = 999999999\<rparr> (tinker_time_sub l r)"
    using eq sec sec1 by (simp add: tinker_time_gt_def)
  moreover have "time_ns (tinker_time_sub l r) < time_ns \<lparr>seconds = seconds l - seconds r - 1, nanoseconds = 999999999\<rparr>"
    using sub(3) assms(5) eq sec sec1 by (simp add: time_ns_def ONE_SECOND_AS_NANOSECONDS_def)
  ultimately show ?thesis using sub(1) n by (simp add: time_normal_def)
qed

end
