(* ===== verification/Arm_Mmu.thy ===== *)
theory Arm_Mmu
  imports Text_Util
begin

section \<open>Memory sections and page tables (\<open>mem_section.c\<close>, \<open>arm_mmu.c\<close>)\<close>

text \<open>
  The sections of a process form a list linked by \<open>sec_next\<close>.  The first level table of a process
  has 4096 entries, one for each megabyte; an entry is 0, or the address of a second level table
  with 256 entries, or a section entry that maps the whole megabyte.  The two levels live in a
  heap each, the arrays are functions on indices.  \<open>tlb_flushes\<close> counts the calls of
  \<open>arm_invalidate_all_tlbs\<close>, whose body is coprocessor instructions.
\<close>

unbundle bit_operations_syntax

subsection \<open>State\<close>

datatype mmu_memory_t = MMU_DEVICE_MEMORY | MMU_RANDOM_ACCESS_MEMORY
datatype mmu_privilege_t = MMU_NO_PRIVILEGE | MMU_USER_ACCESS | MMU_KERNEL_ACCESS | MMU_ALL_ACCESS
datatype mmu_access_t = MMU_NO_ACCESS | MMU_READ_ONLY | MMU_READ_WRITE

record mem_section_t =
  sec_next :: ptr
  real_address :: u32
  virt_address :: u32
  sec_size :: u32
  memory_type :: mmu_memory_t
  privilege :: mmu_privilege_t
  access_rights :: mmu_access_t
  sec_name :: "u8 list"
  sec_pool :: ptr

record tgt_pg_tbl_t =
  lvl1_entry :: "nat \<Rightarrow> u32"

record l2_tbl_t =
  l2_tbl :: "nat \<Rightarrow> u32"

record vheap =
  sections :: "mem_section_t pheap"
  l1_tables :: "tgt_pg_tbl_t pheap"
  l2_tables :: "l2_tbl_t pheap"
  tlb_flushes :: nat
  v_answers :: "ptr list"

definition MMU_PAGE_SIZE :: nat where "MMU_PAGE_SIZE = 4096"
definition ARM_MMU_SECTION_SIZE :: nat where "ARM_MMU_SECTION_SIZE = 1048576"
definition ARM_MMU_SECTION_PAGES :: nat where "ARM_MMU_SECTION_PAGES = ARM_MMU_SECTION_SIZE div MMU_PAGE_SIZE - 1"

text \<open>An answer of the allocator that does not have the alignment asked for is a failure.\<close>

definition mem_alloc_aligned :: "ptr \<Rightarrow> nat \<Rightarrow> 'a pheap \<Rightarrow> ptr list \<Rightarrow> (ptr \<times> ptr list) option" where
  "mem_alloc_aligned pool alignment h answers =
     (if pool = NULL then None
      else Some (case answers of
                   [] \<Rightarrow> (NULL, [])
                 | a # as \<Rightarrow> (if h a = None \<and> unat a mod alignment = 0 then a else NULL, as)))"

subsection \<open>Sections\<close>

text \<open>The fields of a null section are not written; the new block is read only where written.\<close>

definition mem_sec_initialise ::
  "ptr \<Rightarrow> ptr \<Rightarrow> u32 \<Rightarrow> u32 \<Rightarrow> u32 \<Rightarrow> mmu_memory_t \<Rightarrow> mmu_privilege_t \<Rightarrow> mmu_access_t \<Rightarrow> u8 list option \<Rightarrow>
     vheap \<Rightarrow> vheap option" where
  "mem_sec_initialise ms pool real virt sz type priv acc name s =
     (if ms = NULL then Some s
      else do {
        n \<leftarrow> util_strcpy (replicate 33 0) name 32;
        Some (s\<lparr>sections := (sections s)(ms \<mapsto>
          \<lparr>sec_next = NULL, real_address = real, virt_address = virt, sec_size = sz, memory_type = type,
           privilege = priv, access_rights = acc, sec_name = n, sec_pool = pool\<rparr>)\<rparr>)
      })"

definition mem_sec_create ::
  "ptr \<Rightarrow> u32 \<Rightarrow> u32 \<Rightarrow> u32 \<Rightarrow> mmu_memory_t \<Rightarrow> mmu_privilege_t \<Rightarrow> mmu_access_t \<Rightarrow> u8 list option \<Rightarrow>
     vheap \<Rightarrow> (ptr \<times> vheap) option" where
  "mem_sec_create pool real virt sz type priv acc name s = do {
     (ms, as) \<leftarrow> mem_alloc pool (sections s) (v_answers s);
     s \<leftarrow> mem_sec_initialise ms pool real virt sz type priv acc name (s\<lparr>v_answers := as\<rparr>);
     Some (ms, s)
   }"

definition mem_sec_delete :: "ptr \<Rightarrow> vheap \<Rightarrow> vheap option" where
  "mem_sec_delete ms s = do {
     _ \<leftarrow> kernel_assert (ms \<noteq> NULL);
     x \<leftarrow> sections s ms;
     h \<leftarrow> mem_free (sec_pool x) ms (sections s);
     Some (s\<lparr>sections := h\<rparr>)
   }"

definition mem_sec_get_real_addr :: "ptr \<Rightarrow> vheap \<Rightarrow> u32 option" where
  "mem_sec_get_real_addr ms s = map_option real_address (sections s ms)"

definition mem_sec_get_virt_addr :: "ptr \<Rightarrow> vheap \<Rightarrow> u32 option" where
  "mem_sec_get_virt_addr ms s = map_option virt_address (sections s ms)"

definition mem_sec_get_size :: "ptr \<Rightarrow> vheap \<Rightarrow> u32 option" where
  "mem_sec_get_size ms s = map_option sec_size (sections s ms)"

definition mem_sec_get_mem_type :: "ptr \<Rightarrow> vheap \<Rightarrow> mmu_memory_t option" where
  "mem_sec_get_mem_type ms s = map_option memory_type (sections s ms)"

definition mem_sec_get_priv :: "ptr \<Rightarrow> vheap \<Rightarrow> mmu_privilege_t option" where
  "mem_sec_get_priv ms s = map_option privilege (sections s ms)"

definition mem_sec_get_access :: "ptr \<Rightarrow> vheap \<Rightarrow> mmu_access_t option" where
  "mem_sec_get_access ms s = map_option access_rights (sections s ms)"

definition mem_sec_get_next :: "ptr \<Rightarrow> vheap \<Rightarrow> ptr option" where
  "mem_sec_get_next ms s = map_option sec_next (sections s ms)"

definition mem_sec_set_next :: "ptr \<Rightarrow> ptr \<Rightarrow> vheap \<Rightarrow> vheap option" where
  "mem_sec_set_next ms next s =
     (if ms = NULL then Some s
      else do { h \<leftarrow> store ms (\<lambda>x. x\<lparr>sec_next := next\<rparr>) (sections s); Some (s\<lparr>sections := h\<rparr>) })"

definition mem_sec_get_name :: "ptr \<Rightarrow> vheap \<Rightarrow> u8 list option" where
  "mem_sec_get_name ms s = map_option sec_name (sections s ms)"

subsection \<open>Descriptors\<close>

fun ap_bits :: "mmu_privilege_t \<Rightarrow> u32" where
  "ap_bits MMU_NO_PRIVILEGE = 0"
| "ap_bits MMU_USER_ACCESS = 3"
| "ap_bits MMU_KERNEL_ACCESS = 1"
| "ap_bits MMU_ALL_ACCESS = 3"

definition ARM_GET_LVL1_SECTION_INDEX :: "u32 \<Rightarrow> nat" where
  "ARM_GET_LVL1_SECTION_INDEX v = unat (drop_bit 20 (v AND 0xFFF00000))"

definition ARM_GET_LVL2_PAGE_INDEX :: "u32 \<Rightarrow> nat" where
  "ARM_GET_LVL2_PAGE_INDEX v = unat (drop_bit 12 (v AND 0x000FF000))"

definition ARM_GET_LVL2_VIRT_ADDR :: "u32 \<Rightarrow> u32" where
  "ARM_GET_LVL2_VIRT_ADDR v = v AND 0xFFFFF000"

definition arm_generate_lvl1_course :: "ptr \<Rightarrow> u32 \<Rightarrow> u32 \<Rightarrow> u32 \<Rightarrow> u32" where
  "arm_generate_lvl1_course base p domain ns =
     1 + push_bit 3 ns + push_bit 5 domain + push_bit 9 p + (base AND push_bit 10 0x3FFFFF)"

definition arm_generate_lvl1_section ::
  "u32 \<Rightarrow> u32 \<Rightarrow> u32 \<Rightarrow> bool \<Rightarrow> u32 \<Rightarrow> u32 \<Rightarrow> u32 \<Rightarrow> u32 \<Rightarrow> u32 \<Rightarrow> bool \<Rightarrow> bool \<Rightarrow> u32" where
  "arm_generate_lvl1_section real ng s apx tex ap p domain nx cached buffered =
     2 + push_bit 2 (of_bool buffered) + push_bit 3 (of_bool cached) + push_bit 4 nx + push_bit 5 domain +
     push_bit 9 p + push_bit 10 ap + push_bit 12 tex + push_bit 15 (of_bool apx) + push_bit 16 s +
     push_bit 17 ng + (real AND 0xFFF00000)"

definition arm_generate_lvl2 ::
  "u32 \<Rightarrow> u32 \<Rightarrow> u32 \<Rightarrow> bool \<Rightarrow> u32 \<Rightarrow> u32 \<Rightarrow> bool \<Rightarrow> bool \<Rightarrow> u32" where
  "arm_generate_lvl2 real ng s apx tex ap cached buffered =
     2 + push_bit 2 (of_bool buffered) + push_bit 3 (of_bool cached) + push_bit 4 ap + push_bit 6 tex +
     push_bit 9 (of_bool apx) + push_bit 10 s + push_bit 11 ng + ARM_GET_LVL2_VIRT_ADDR real"

subsection \<open>Tables\<close>

text \<open>
  The address of the second level table for a virtual address.  The test for a section entry
  looks at a bit that the mask has just cleared.
\<close>

definition arm_get_lvl2_table :: "u32 \<Rightarrow> bool \<Rightarrow> ptr \<Rightarrow> ptr \<Rightarrow> vheap \<Rightarrow> (ptr \<times> vheap) option" where
  "arm_get_lvl2_table virt create_if_missing pool table s =
     (if table = NULL then Some (NULL, s)
      else do {
        t \<leftarrow> l1_tables s table;
        let virt_section = ARM_GET_LVL1_SECTION_INDEX virt;
        s \<leftarrow> (if lvl1_entry t virt_section = 0 \<and> create_if_missing then do {
                (e, as) \<leftarrow> mem_alloc_aligned pool 4096 (l2_tables s) (v_answers s);
                if e \<noteq> NULL then
                  Some (s\<lparr>v_answers := as, l2_tables := (l2_tables s)(e \<mapsto> \<lparr>l2_tbl = (\<lambda>_. 0)\<rparr>),
                    l1_tables := (l1_tables s)(table \<mapsto>
                      t\<lparr>lvl1_entry := (lvl1_entry t)(virt_section := arm_generate_lvl1_course e 0 0 0)\<rparr>)\<rparr>)
                else None
              } else Some s);
        t \<leftarrow> l1_tables s table;
        let entry = ARM_GET_LVL2_VIRT_ADDR (lvl1_entry t virt_section);
        Some (if entry AND 2 = 2 then NULL else entry, s)
      })"

definition arm_is_1mb_section :: "u32 \<Rightarrow> u32 \<Rightarrow> bool" where
  "arm_is_1mb_section start end' =
     (if start mod of_nat ARM_MMU_SECTION_SIZE \<noteq> 0 then False
      else if end' < start + of_nat ARM_MMU_SECTION_SIZE then False
      else True)"

definition tgt_initialise_page_table :: "ptr \<Rightarrow> vheap \<Rightarrow> (ptr \<times> vheap) option" where
  "tgt_initialise_page_table pool s = do {
     (t, as) \<leftarrow> mem_alloc_aligned pool (128 * 1024) (l1_tables s) (v_answers s);
     let s = s\<lparr>v_answers := as\<rparr>;
     Some (t, if t \<noteq> NULL then s\<lparr>l1_tables := (l1_tables s)(t \<mapsto> \<lparr>lvl1_entry = (\<lambda>_. 0)\<rparr>)\<rparr> else s)
   }"

definition arm_map_section :: "ptr \<Rightarrow> u32 \<Rightarrow> u32 \<Rightarrow> ptr \<Rightarrow> vheap \<Rightarrow> vheap option" where
  "arm_map_section section virt real table s = do {
     mem_type \<leftarrow> mem_sec_get_mem_type section s;
     priv \<leftarrow> mem_sec_get_priv section s;
     acc \<leftarrow> mem_sec_get_access section s;
     t \<leftarrow> l1_tables s table;
     let ram = (mem_type = MMU_RANDOM_ACCESS_MEMORY);
     let e = arm_generate_lvl1_section real 1 0 (acc = MMU_READ_ONLY) 1 (ap_bits priv) 0 0 0 ram ram;
     Some (s\<lparr>l1_tables := (l1_tables s)(table \<mapsto>
       t\<lparr>lvl1_entry := (lvl1_entry t)(ARM_GET_LVL1_SECTION_INDEX virt := e)\<rparr>)\<rparr>)
   }"

definition arm_map_page :: "ptr \<Rightarrow> ptr \<Rightarrow> ptr \<Rightarrow> u32 \<Rightarrow> u32 \<Rightarrow> vheap \<Rightarrow> (return_t \<times> vheap) option" where
  "arm_map_page section pool table virt real s = do {
     (lvl2, s) \<leftarrow> arm_get_lvl2_table virt True pool table s;
     if lvl2 \<noteq> NULL then do {
       priv \<leftarrow> mem_sec_get_priv section s;
       acc \<leftarrow> mem_sec_get_access section s;
       mem_type \<leftarrow> mem_sec_get_mem_type section s;
       t \<leftarrow> l2_tables s lvl2;
       let ram = (mem_type = MMU_RANDOM_ACCESS_MEMORY);
       let e = arm_generate_lvl2 real 1 0 (acc = MMU_READ_ONLY) 1 (ap_bits priv) ram ram;
       Some (NO_ERROR, s\<lparr>l2_tables := (l2_tables s)(lvl2 \<mapsto>
         t\<lparr>l2_tbl := (l2_tbl t)(ARM_GET_LVL2_PAGE_INDEX virt := e)\<rparr>)\<rparr>)
     }
     else Some (OUT_OF_MEMORY, s)
   }"

text \<open>The loop over the pages of a section; a megabyte mapped as a whole skips 255 more pages.\<close>

function arm_map_loop :: "nat \<Rightarrow> nat \<Rightarrow> ptr \<Rightarrow> ptr \<Rightarrow> ptr \<Rightarrow> vheap \<Rightarrow> (return_t \<times> vheap) option" where
  "arm_map_loop pages page pool table section s =
     (if page < pages then do {
        va \<leftarrow> mem_sec_get_virt_addr section s;
        ra \<leftarrow> mem_sec_get_real_addr section s;
        let virt = va + of_nat (page * MMU_PAGE_SIZE);
        let end' = virt + of_nat ((pages - page) * MMU_PAGE_SIZE);
        let real = ra + of_nat (page * MMU_PAGE_SIZE);
        if arm_is_1mb_section virt end' then do {
          s \<leftarrow> arm_map_section section virt real table s;
          arm_map_loop pages (page + ARM_MMU_SECTION_PAGES + 1) pool table section s
        }
        else do {
          (ret, s) \<leftarrow> arm_map_page section pool table virt real s;
          if ret \<noteq> NO_ERROR then Some (ret, s)
          else arm_map_loop pages (page + 1) pool table section s
        }
      }
      else Some (NO_ERROR, s\<lparr>tlb_flushes := tlb_flushes s + 1\<rparr>))"
  by pat_completeness auto

termination by (relation "measure (\<lambda>(pages, page, _). pages - page)") auto

definition arm_map_memory :: "ptr \<Rightarrow> ptr \<Rightarrow> ptr \<Rightarrow> vheap \<Rightarrow> (return_t \<times> vheap) option" where
  "arm_map_memory pool table section s =
     (if table \<noteq> NULL \<and> section \<noteq> NULL then do {
        sz \<leftarrow> mem_sec_get_size section s;
        let pages = unat sz div MMU_PAGE_SIZE + (if unat sz mod MMU_PAGE_SIZE \<noteq> 0 then 1 else 0);
        arm_map_loop pages 0 pool table section s
      }
      else Some (PARAMETERS_NULL, s))"

definition arm_unmap_memory :: "ptr \<Rightarrow> ptr \<Rightarrow> ptr \<Rightarrow> vheap \<Rightarrow> vheap option" where
  "arm_unmap_memory pool table section s =
     (if table \<noteq> NULL \<and> section \<noteq> NULL then do {
        virt \<leftarrow> mem_sec_get_virt_addr section s;
        (lvl2, s) \<leftarrow> arm_get_lvl2_table virt True pool table s;
        s \<leftarrow> (if lvl2 \<noteq> NULL then do {
                t \<leftarrow> l2_tables s lvl2;
                Some (s\<lparr>l2_tables := (l2_tables s)(lvl2 \<mapsto>
                  t\<lparr>l2_tbl := (l2_tbl t)(ARM_GET_LVL2_PAGE_INDEX virt := 0)\<rparr>)\<rparr>)
              } else Some s);
        Some (s\<lparr>tlb_flushes := tlb_flushes s + 1\<rparr>)
      }
      else Some s)"

end
