(* ===== verification/Mmu_Correct.thy ===== *)
theory Mmu_Correct
  imports Arm_Mmu
begin

section \<open>Page tables: what the hardware makes of them\<close>

text \<open>
  \<open>arm_walk\<close> is the translation the processor performs with a first level table (short
  descriptors): a section entry maps a megabyte, an entry for a second level table leads to a
  descriptor of a page of 4096 bytes.  The lemmas say what the operations of \<open>arm_mmu.c\<close> do to
  the translation of every address by every table.
\<close>

subsection \<open>Words\<close>

lemma low_bits: "unat (c :: u32) < 2 ^ k \<Longrightarrow> k \<le> n \<Longrightarrow> \<not> bit c n"
proof -
  assume "unat c < 2 ^ k" "k \<le> n"
  then have "take_bit k c = c"
    by (simp add: word_unat_eq_iff unsigned_take_bit_eq take_bit_nat_eq_self)
  with \<open>k \<le> n\<close> show ?thesis by (metis bit_take_bit_iff not_less)
qed

lemma low_add:
  assumes "unat c < 2 ^ k"
  shows "(c + (r AND NOT (mask k)) :: u32) AND NOT (mask k) = r AND NOT (mask k)"
    and "(c + (r AND NOT (mask k)) :: u32) AND mask k = c"
proof -
  note c = low_bits [OF assms]
  have "c AND (r AND NOT (mask k)) = 0"
    using c by (auto simp: bit_eq_iff bit_simps) (meson not_le)
  then have "c + (r AND NOT (mask k)) = c OR (r AND NOT (mask k))"
    by (rule disjunctive_add_eq_or)
  then show "(c + (r AND NOT (mask k)) :: u32) AND NOT (mask k) = r AND NOT (mask k)"
      and "(c + (r AND NOT (mask k)) :: u32) AND mask k = c"
    using c by (auto simp: bit_eq_iff bit_simps) (meson not_le)+
qed

lemma masks:
  "(0xFFFFF000 :: u32) = NOT (mask 12)" "(0xFFF00000 :: u32) = NOT (mask 20)" "(0xFFFFFC00 :: u32) = NOT (mask 10)"
  "(0xFFF :: u32) = mask 12" "(0xFFFFF :: u32) = mask 20" "(3 :: u32) = mask 2" "(0xFF :: u32) = mask 8"
  by (simp_all add: mask_eq_exp_minus_1 not_eq_complement)

lemma lo_part: "unat (w AND mask n :: u32) = unat w mod 2 ^ n"
  by (simp add: unsigned_take_bit_eq take_bit_nat_def flip: take_bit_eq_mask)

lemma hi_part: "unat (w AND NOT (mask n) :: u32) = unat w div 2 ^ n * 2 ^ n"
proof -
  have "w AND NOT (mask n) = push_bit n (drop_bit n w)" by (auto simp: bit_eq_iff bit_simps)
  then have "w AND NOT (mask n) = w - take_bit n w" using bits_ident [of n w] by (simp add: algebra_simps)
  moreover have "take_bit n w \<le> w"
    by (simp add: word_le_nat_alt unsigned_take_bit_eq take_bit_nat_def)
  ultimately have "unat (w AND NOT (mask n)) = unat w - unat (take_bit n w)" by (simp add: unat_sub)
  then show ?thesis
    by (simp add: unsigned_take_bit_eq take_bit_nat_def minus_mod_eq_div_mult)
qed

lemma hi_or_lo: "(a AND NOT (mask n)) OR (w AND mask n) = (a AND NOT (mask n)) + (w AND mask n :: u32)"
  by (rule disjunctive_add_eq_or [symmetric]) (auto simp: bit_eq_iff bit_simps)

lemma unat_drop_bit: "unat (drop_bit n w :: u32) = unat w div 2 ^ n"
  using unsigned_drop_bit_eq [of n w, where 'a = nat]
  by (simp only: drop_bit_eq_div take_bit_nat_eq_self_iff [THEN iffD2, OF unsigned_less [of w, where 'a = nat]])

lemma lvl1_index: "ARM_GET_LVL1_SECTION_INDEX v = unat v div 2 ^ 20"
proof -
  have "drop_bit 20 (v AND NOT (mask 20)) = drop_bit 20 v"
    by (auto simp: bit_eq_iff bit_simps dest: bit_imp_le_length)
  then show ?thesis
    by (simp only: ARM_GET_LVL1_SECTION_INDEX_def masks unat_drop_bit)
qed

lemma lvl2_index: "ARM_GET_LVL2_PAGE_INDEX v = unat v div 2 ^ 12 mod 2 ^ 8"
proof -
  have m: "0x000FF000 = (push_bit 12 (mask 8) :: u32)" by (simp add: mask_eq_exp_minus_1)
  have "drop_bit 12 (v AND 0x000FF000) = drop_bit 12 v AND mask 8"
    unfolding m by (auto simp: bit_eq_iff bit_simps dest: bit_imp_le_length)
  then show ?thesis
    by (simp only: ARM_GET_LVL2_PAGE_INDEX_def lo_part unat_drop_bit)
qed

lemma page_index:
  "ARM_GET_LVL1_SECTION_INDEX v = ARM_GET_LVL1_SECTION_INDEX w \<and>
     ARM_GET_LVL2_PAGE_INDEX v = ARM_GET_LVL2_PAGE_INDEX w \<longleftrightarrow>
   unat v div 2 ^ 12 = unat w div 2 ^ 12"
proof -
  have "x div 2 ^ 20 = x div 2 ^ 12 div 2 ^ 8" for x :: nat by (simp flip: div_mult2_eq)
  then show ?thesis
    unfolding lvl1_index lvl2_index by (metis mod_div_decomp)
qed

subsection \<open>Descriptors\<close>

lemma lvl2_fields:
  fixes real :: u32 and ro ram :: bool and priv :: mmu_privilege_t
  defines "e \<equiv> arm_generate_lvl2 real 1 0 ro 1 (ap_bits priv) ram ram"
  shows "e AND 0xFFFFF000 = real AND 0xFFFFF000" "e AND 2 = 2"
proof -
  define c :: u32 where "c = 2 + push_bit 2 (of_bool ram) + push_bit 3 (of_bool ram) + push_bit 4 (ap_bits priv) +
    push_bit 6 1 + push_bit 9 (of_bool ro) + push_bit 11 1"
  have e: "e = c + (real AND NOT (mask 12))"
    by (simp add: e_def arm_generate_lvl2_def ARM_GET_LVL2_VIRT_ADDR_def c_def masks)
  have c: "unat c < 2 ^ 12 \<and> c AND 2 = 2"
    by (cases ram; cases ro; cases priv) (simp_all add: c_def)
  then have "unat c < 2 ^ 12" ..
  note low = low_add [OF this, of real]
  show "e AND 0xFFFFF000 = real AND 0xFFFFF000" using low(1) by (simp add: e masks)
  have "e AND 2 = (e AND mask 12) AND 2" by (simp add: and.assoc mask_eq_exp_minus_1)
  then show "e AND 2 = 2" using low(2) c by (simp add: e)
qed

lemma lvl1_section_fields:
  fixes real :: u32 and ro ram :: bool and priv :: mmu_privilege_t
  defines "e \<equiv> arm_generate_lvl1_section real 1 0 ro 1 (ap_bits priv) 0 0 0 ram ram"
  shows "e AND 0xFFF00000 = real AND 0xFFF00000" "e AND 3 = 2"
proof -
  define c :: u32 where "c = 2 + push_bit 2 (of_bool ram) + push_bit 3 (of_bool ram) + push_bit 10 (ap_bits priv) +
    push_bit 12 1 + push_bit 15 (of_bool ro) + push_bit 17 1"
  have e: "e = c + (real AND NOT (mask 20))"
    by (simp add: e_def arm_generate_lvl1_section_def c_def masks)
  have c: "unat c < 2 ^ 20 \<and> c AND 3 = 2"
    by (cases ram; cases ro; cases priv) (simp_all add: c_def)
  then have "unat c < 2 ^ 20" ..
  note low = low_add [OF this, of real]
  show "e AND 0xFFF00000 = real AND 0xFFF00000" using low(1) by (simp add: e masks)
  have "e AND 3 = (e AND mask 20) AND 3" by (simp add: and.assoc mask_eq_exp_minus_1)
  then show "e AND 3 = 2" using low(2) c by (simp add: e)
qed

lemma lvl1_course_fields:
  assumes "b AND 0xFFF = 0"
  shows "arm_generate_lvl1_course b 0 0 0 AND 0xFFFFF000 = b"
    "arm_generate_lvl1_course b 0 0 0 AND 0xFFF = 1"
proof -
  have b: "\<not> bit b n" if "n < 12" for n
  proof -
    have "bit (b AND mask 12) n = bit (0 :: u32) n" using assms by (simp add: masks)
    with that show ?thesis by (simp add: bit_simps)
  qed
  have m: "push_bit 10 0x3FFFFF = (NOT (mask 10) :: u32)" by (simp add: mask_eq_exp_minus_1 not_eq_complement)
  have "b AND push_bit 10 0x3FFFFF = b AND NOT (mask 12)" "b AND NOT (mask 12) = b"
    unfolding m using b by (auto simp: bit_eq_iff bit_simps)
  then show "arm_generate_lvl1_course b 0 0 0 AND 0xFFFFF000 = b" "arm_generate_lvl1_course b 0 0 0 AND 0xFFF = 1"
    using low_add [of 1 12 b] by (simp_all add: arm_generate_lvl1_course_def masks)
qed

subsection \<open>The translation\<close>

definition arm_walk :: "vheap \<Rightarrow> ptr \<Rightarrow> u32 \<Rightarrow> u32 option" where
  "arm_walk s table v = do {
     t \<leftarrow> l1_tables s table;
     let e = lvl1_entry t (ARM_GET_LVL1_SECTION_INDEX v);
     if e AND 3 = 2 then Some ((e AND 0xFFF00000) OR (v AND 0xFFFFF))
     else if e AND 3 = 1 then do {
       l \<leftarrow> l2_tables s (e AND 0xFFFFFC00);
       let d = l2_tbl l (ARM_GET_LVL2_PAGE_INDEX v);
       if d AND 2 = 2 then Some ((d AND 0xFFFFF000) OR (v AND 0xFFF)) else None
     }
     else None
   }"

text \<open>
  Every first level entry is empty, maps a megabyte, or leads to a second level table of its own
  that starts on a page.
\<close>

definition lvl2_entry :: "u32 \<Rightarrow> bool" where
  "lvl2_entry e \<longleftrightarrow> e AND 0xFFF = 1"

definition mmu_ok :: "vheap \<Rightarrow> bool" where
  "mmu_ok s \<longleftrightarrow> l2_tables s NULL = None \<and>
     (\<forall>t tb i. l1_tables s t = Some tb \<longrightarrow>
        lvl1_entry tb i = 0 \<or> lvl1_entry tb i AND 3 = 2 \<or>
        (lvl2_entry (lvl1_entry tb i) \<and> l2_tables s (lvl1_entry tb i AND 0xFFFFF000) \<noteq> None)) \<and>
     (\<forall>t tb i t' tb' i'. l1_tables s t = Some tb \<longrightarrow> l1_tables s t' = Some tb' \<longrightarrow>
        lvl2_entry (lvl1_entry tb i) \<longrightarrow> lvl2_entry (lvl1_entry tb' i') \<longrightarrow>
        lvl1_entry tb i AND 0xFFFFF000 = lvl1_entry tb' i' AND 0xFFFFF000 \<longrightarrow> t = t' \<and> i = i')"

lemma lvl2_entryD:
  assumes "lvl2_entry e"
  shows "e AND 3 = 1" "e AND 0xFFFFFC00 = e AND 0xFFFFF000"
proof -
  have e: "e AND mask 12 = 1" using assms by (simp add: lvl2_entry_def masks)
  have "e AND 3 = (e AND mask 12) AND 3" by (simp add: and.assoc mask_eq_exp_minus_1)
  then show "e AND 3 = 1" using e by simp
  have "\<not> bit e n" if "10 \<le> n" "n < 12" for n
  proof -
    have "bit (e AND mask 12) n = bit (1 :: u32) n" using e by simp
    with that show ?thesis by (simp add: bit_simps)
  qed
  then show "e AND 0xFFFFFC00 = e AND 0xFFFFF000"
    unfolding masks by (auto simp: bit_eq_iff bit_simps)
qed

lemma page_base_no_section: "ARM_GET_LVL2_VIRT_ADDR e AND 2 \<noteq> 2"
  by (simp add: ARM_GET_LVL2_VIRT_ADDR_def and.assoc)

lemma mmu_entry:
  "mmu_ok s \<Longrightarrow> l1_tables s t = Some tb \<Longrightarrow>
     lvl1_entry tb i = 0 \<or> lvl1_entry tb i AND 3 = 2 \<or>
     (lvl2_entry (lvl1_entry tb i) \<and> l2_tables s (lvl1_entry tb i AND 0xFFFFF000) \<noteq> None)"
  by (simp add: mmu_ok_def)

lemma mmu_inj:
  "mmu_ok s \<Longrightarrow> l1_tables s t = Some tb \<Longrightarrow> l1_tables s t' = Some tb' \<Longrightarrow>
     lvl2_entry (lvl1_entry tb i) \<Longrightarrow> lvl2_entry (lvl1_entry tb' i') \<Longrightarrow>
     lvl1_entry tb i AND 0xFFFFF000 = lvl1_entry tb' i' AND 0xFFFFF000 \<Longrightarrow> t = t' \<and> i = i'"
  unfolding mmu_ok_def by blast

lemma mmu_okI:
  assumes "l2_tables s NULL = None"
    and "\<And>t tb i. l1_tables s t = Some tb \<Longrightarrow>
       lvl1_entry tb i = 0 \<or> lvl1_entry tb i AND 3 = 2 \<or>
       (lvl2_entry (lvl1_entry tb i) \<and> l2_tables s (lvl1_entry tb i AND 0xFFFFF000) \<noteq> None)"
    and "\<And>t tb i t' tb' i'. l1_tables s t = Some tb \<Longrightarrow> l1_tables s t' = Some tb' \<Longrightarrow>
       lvl2_entry (lvl1_entry tb i) \<Longrightarrow> lvl2_entry (lvl1_entry tb' i') \<Longrightarrow>
       lvl1_entry tb i AND 0xFFFFF000 = lvl1_entry tb' i' AND 0xFFFFF000 \<Longrightarrow> t = t' \<and> i = i'"
  shows "mmu_ok s"
  using assms unfolding mmu_ok_def by blast

text \<open>The translation by an entry, for the three kinds of entries.\<close>

lemma walk_section:
  "l1_tables s table = Some t \<Longrightarrow> lvl1_entry t (ARM_GET_LVL1_SECTION_INDEX v) AND 3 = 2 \<Longrightarrow>
     arm_walk s table v = Some ((lvl1_entry t (ARM_GET_LVL1_SECTION_INDEX v) AND 0xFFF00000) OR (v AND 0xFFFFF))"
  by (simp add: arm_walk_def)

lemma walk_empty:
  "l1_tables s table = Some t \<Longrightarrow> lvl1_entry t (ARM_GET_LVL1_SECTION_INDEX v) = 0 \<Longrightarrow> arm_walk s table v = None"
  by (simp add: arm_walk_def)

definition page_walk :: "l2_tbl_t option \<Rightarrow> u32 \<Rightarrow> u32 option" where
  "page_walk l v = do {
     l \<leftarrow> l;
     let d = l2_tbl l (ARM_GET_LVL2_PAGE_INDEX v);
     if d AND 2 = 2 then Some ((d AND 0xFFFFF000) OR (v AND 0xFFF)) else None
   }"

lemma walk_page:
  "l1_tables s table = Some t \<Longrightarrow> lvl2_entry (lvl1_entry t (ARM_GET_LVL1_SECTION_INDEX v)) \<Longrightarrow>
     arm_walk s table v = page_walk (l2_tables s (lvl1_entry t (ARM_GET_LVL1_SECTION_INDEX v) AND 0xFFFFF000)) v"
  by (simp add: arm_walk_def page_walk_def lvl2_entryD)

lemma walk_no_table: "l1_tables s table = None \<Longrightarrow> arm_walk s table v = None"
  by (simp add: arm_walk_def)

text \<open>Two states with the same entry and the same second level table translate alike.\<close>

lemma walk_cong:
  assumes ok: "mmu_ok s" and t: "l1_tables s table = Some t" and t': "l1_tables s' table = Some t'"
    and e: "lvl1_entry t' (ARM_GET_LVL1_SECTION_INDEX v) = lvl1_entry t (ARM_GET_LVL1_SECTION_INDEX v)"
    and l: "lvl2_entry (lvl1_entry t (ARM_GET_LVL1_SECTION_INDEX v)) \<Longrightarrow>
      page_walk (l2_tables s' (lvl1_entry t (ARM_GET_LVL1_SECTION_INDEX v) AND 0xFFFFF000)) v =
      page_walk (l2_tables s (lvl1_entry t (ARM_GET_LVL1_SECTION_INDEX v) AND 0xFFFFF000)) v"
  shows "arm_walk s' table v = arm_walk s table v"
proof -
  consider "lvl1_entry t (ARM_GET_LVL1_SECTION_INDEX v) = 0"
    | "lvl1_entry t (ARM_GET_LVL1_SECTION_INDEX v) AND 3 = 2"
    | "lvl2_entry (lvl1_entry t (ARM_GET_LVL1_SECTION_INDEX v))"
    using mmu_entry [OF ok t] by blast
  then show ?thesis
    by cases (simp_all add: walk_empty [OF t] walk_empty [OF t'] walk_section [OF t] walk_section [OF t']
        walk_page [OF t] walk_page [OF t'] e l)
qed

end
