(* ===== verification/Mmu_Update.thy ===== *)
theory Mmu_Update
  imports Mmu_Correct
begin

section \<open>Page tables: what the operations do to the translation\<close>

text \<open>
  The effect of a new second level table, of a written page descriptor and of a written section
  entry on the translation, and from them the effect of \<open>arm_map_page\<close>, \<open>arm_map_section\<close> and
  \<open>arm_map_memory\<close> on every address of every table.
\<close>

subsection \<open>Writes\<close>

text \<open>\<open>lvl2_room s n\<close>: the allocator has aligned blocks for \<open>n\<close> second level tables.\<close>

definition lvl2_room :: "vheap \<Rightarrow> nat \<Rightarrow> bool" where
  "lvl2_room s n \<longleftrightarrow> n \<le> length (v_answers s) \<and> distinct (v_answers s) \<and>
     (\<forall>a \<in> set (v_answers s). a \<noteq> NULL \<and> l2_tables s a = None \<and> unat a mod 4096 = 0)"

text \<open>\<open>no_section s t i\<close>: entry \<open>i\<close> of table \<open>t\<close> does not map a megabyte.\<close>

definition no_section :: "vheap \<Rightarrow> ptr \<Rightarrow> nat \<Rightarrow> bool" where
  "no_section s t i \<longleftrightarrow> (\<forall>tb. l1_tables s t = Some tb \<longrightarrow> lvl1_entry tb i AND 3 \<noteq> 2)"

lemma aligned_block: "unat a mod 4096 = 0 \<Longrightarrow> a AND 0xFFF = (0 :: u32)"
  by (simp add: masks lo_part word_unat_eq_iff)

lemma new_table:
  fixes as :: "ptr list"
  assumes ok: "mmu_ok s" and t: "l1_tables s table = Some t" and e: "lvl1_entry t i = 0"
    and a: "a \<noteq> NULL" "l2_tables s a = None" "unat a mod 4096 = 0"
  defines "s' \<equiv> s\<lparr>v_answers := as, l2_tables := (l2_tables s)(a \<mapsto> \<lparr>l2_tbl = (\<lambda>_. 0)\<rparr>),
                    l1_tables := (l1_tables s)(table \<mapsto>
                      t\<lparr>lvl1_entry := (lvl1_entry t)(i := arm_generate_lvl1_course a 0 0 0)\<rparr>)\<rparr>"
  shows "mmu_ok s'" "arm_walk s' = arm_walk s" "no_section s' = no_section s"
proof -
  let ?c = "arm_generate_lvl1_course a 0 0 0"
  note fields = lvl1_course_fields [OF aligned_block [OF a(3)]]
  have c: "lvl2_entry ?c" "?c AND 0xFFFFF000 = a" using fields by (simp_all add: lvl2_entry_def)
  have old: "\<exists>tb. l1_tables s t' = Some tb \<and>
      (lvl1_entry tb' j = lvl1_entry tb j \<and> (t', j) \<noteq> (table, i) \<or> t' = table \<and> j = i \<and> lvl1_entry tb' j = ?c)"
    if "l1_tables s' t' = Some tb'" for t' tb' j
    using that t by (auto simp: s'_def split: if_splits)
  have base: "lvl1_entry tb j AND 0xFFFFF000 \<noteq> a" if "l1_tables s t' = Some tb" "lvl2_entry (lvl1_entry tb j)" for t' tb j
    using mmu_entry [OF ok that(1), of j] that(2) a(2) lvl2_entryD(1) by (auto simp: lvl2_entry_def)
  show "mmu_ok s'"
  proof (rule mmu_okI)
    show "l2_tables s' NULL = None" using ok a by (simp add: s'_def mmu_ok_def)
  next
    fix t' tb' j assume "l1_tables s' t' = Some tb'"
    from old [OF this, of j] obtain tb where tb: "l1_tables s t' = Some tb"
      and "lvl1_entry tb' j = lvl1_entry tb j \<or> lvl1_entry tb' j = ?c" by blast
    moreover have "l2_tables s' b \<noteq> None" if "l2_tables s b \<noteq> None \<or> b = a" for b
      using that by (auto simp: s'_def)
    ultimately show "lvl1_entry tb' j = 0 \<or> lvl1_entry tb' j AND 3 = 2 \<or>
       (lvl2_entry (lvl1_entry tb' j) \<and> l2_tables s' (lvl1_entry tb' j AND 0xFFFFF000) \<noteq> None)"
      using mmu_entry [OF ok tb, of j] c by metis
  next
    fix t1 b1 i1 t2 b2 i2
    assume "l1_tables s' t1 = Some b1" "l1_tables s' t2 = Some b2"
      and l: "lvl2_entry (lvl1_entry b1 i1)" "lvl2_entry (lvl1_entry b2 i2)"
        "lvl1_entry b1 i1 AND 0xFFFFF000 = lvl1_entry b2 i2 AND 0xFFFFF000"
    from old [OF this(1), of i1] old [OF this(2), of i2] obtain o1 o2
      where o: "l1_tables s t1 = Some o1" "l1_tables s t2 = Some o2"
        and c1: "lvl1_entry b1 i1 = lvl1_entry o1 i1 \<or> t1 = table \<and> i1 = i \<and> lvl1_entry b1 i1 = ?c"
        and c2: "lvl1_entry b2 i2 = lvl1_entry o2 i2 \<or> t2 = table \<and> i2 = i \<and> lvl1_entry b2 i2 = ?c"
      by blast
    show "t1 = t2 \<and> i1 = i2"
      using c1 c2 l base [OF o(1), of i1] base [OF o(2), of i2] c(2) mmu_inj [OF ok o, of i1 i2] by fastforce
  qed
  show "no_section s' = no_section s"
    using t e c lvl2_entryD(1) [OF c(1)] by (auto simp: no_section_def s'_def fun_eq_iff)
  show "arm_walk s' = arm_walk s"
  proof (rule ext, rule ext)
    fix t' v
    show "arm_walk s' t' v = arm_walk s t' v"
    proof (cases "l1_tables s t'")
      case None
      then have "l1_tables s' t' = None" using t by (auto simp: s'_def)
      with None show ?thesis by (simp add: walk_no_table)
    next
      case (Some tb)
      show ?thesis
      proof (cases "t' = table \<and> ARM_GET_LVL1_SECTION_INDEX v = i")
        case True
        then have "arm_walk s' t' v = page_walk (l2_tables s' a) v"
          using c walk_page [of s' t' _ v] by (simp add: s'_def)
        then show ?thesis using True t e walk_empty [OF t] by (simp add: page_walk_def s'_def)
      next
        case False
        obtain tb' where tb': "l1_tables s' t' = Some tb'"
            "lvl1_entry tb' (ARM_GET_LVL1_SECTION_INDEX v) = lvl1_entry tb (ARM_GET_LVL1_SECTION_INDEX v)"
          using False Some t by (cases "t' = table") (auto simp: s'_def)
        show ?thesis by (rule walk_cong [OF ok Some tb']) (use base [OF Some] in \<open>simp add: s'_def\<close>)
      qed
    qed
  qed
qed

lemma set_page:
  fixes d :: u32
  assumes ok: "mmu_ok s" and t: "l1_tables s table = Some t"
    and l: "lvl2_entry (lvl1_entry t (ARM_GET_LVL1_SECTION_INDEX v))"
      "lvl1_entry t (ARM_GET_LVL1_SECTION_INDEX v) AND 0xFFFFF000 = l" "l2_tables s l = Some lt"
  defines "s' \<equiv> s\<lparr>l2_tables := (l2_tables s)(l \<mapsto> lt\<lparr>l2_tbl := (l2_tbl lt)(ARM_GET_LVL2_PAGE_INDEX v := d)\<rparr>)\<rparr>"
  shows "mmu_ok s'" "no_section s' = no_section s"
    "arm_walk s' t' w =
       (if t' = table \<and> unat w div 2 ^ 12 = unat v div 2 ^ 12
        then if d AND 2 = 2 then Some ((d AND 0xFFFFF000) OR (w AND 0xFFF)) else None
        else arm_walk s t' w)"
proof -
  have l1: "l1_tables s' = l1_tables s" by (simp add: s'_def)
  have dom: "l2_tables s' b = None \<longleftrightarrow> l2_tables s b = None" for b using l(3) by (simp add: s'_def)
  show "mmu_ok s'" using ok unfolding mmu_ok_def l1 dom .
  show "no_section s' = no_section s" by (simp add: no_section_def fun_eq_iff l1)
  show "arm_walk s' t' w =
       (if t' = table \<and> unat w div 2 ^ 12 = unat v div 2 ^ 12
        then if d AND 2 = 2 then Some ((d AND 0xFFFFF000) OR (w AND 0xFFF)) else None
        else arm_walk s t' w)"
  proof (cases "l1_tables s t'")
    case None
    then show ?thesis using t by (auto simp: walk_no_table l1)
  next
    case (Some tb)
    show ?thesis
    proof (cases "t' = table \<and> unat w div 2 ^ 12 = unat v div 2 ^ 12")
      case True
      then have i: "ARM_GET_LVL1_SECTION_INDEX w = ARM_GET_LVL1_SECTION_INDEX v"
          "ARM_GET_LVL2_PAGE_INDEX w = ARM_GET_LVL2_PAGE_INDEX v"
        using page_index [of w v] by simp_all
      have "arm_walk s' table w = page_walk (l2_tables s' l) w"
        using walk_page [of s' table t w] t l i l1 by simp
      then show ?thesis using True i by (simp add: page_walk_def s'_def)
    next
      case False
      have "page_walk (l2_tables s' (lvl1_entry tb (ARM_GET_LVL1_SECTION_INDEX w) AND 0xFFFFF000)) w =
          page_walk (l2_tables s (lvl1_entry tb (ARM_GET_LVL1_SECTION_INDEX w) AND 0xFFFFF000)) w"
        if e: "lvl2_entry (lvl1_entry tb (ARM_GET_LVL1_SECTION_INDEX w))"
      proof (cases "lvl1_entry tb (ARM_GET_LVL1_SECTION_INDEX w) AND 0xFFFFF000 = l")
        case True
        then have "t' = table" "ARM_GET_LVL1_SECTION_INDEX w = ARM_GET_LVL1_SECTION_INDEX v"
          using mmu_inj [OF ok Some t e l(1)] l(2) by simp_all
        then have "ARM_GET_LVL2_PAGE_INDEX w \<noteq> ARM_GET_LVL2_PAGE_INDEX v"
          using False page_index [of w v] by blast
        then show ?thesis using True l(3) by (simp add: page_walk_def s'_def)
      qed (simp add: s'_def)
      then have "arm_walk s' t' w = arm_walk s t' w"
        using walk_cong [OF ok Some _ refl, of s'] Some l1 by simp
      then show ?thesis using False by auto
    qed
  qed
qed

lemma set_section:
  fixes e v :: u32
  assumes ok: "mmu_ok s" and t: "l1_tables s table = Some t" and e: "e AND 3 = 2"
  defines "s' \<equiv> s\<lparr>l1_tables := (l1_tables s)(table \<mapsto>
       t\<lparr>lvl1_entry := (lvl1_entry t)(ARM_GET_LVL1_SECTION_INDEX v := e)\<rparr>)\<rparr>"
  shows "mmu_ok s'"
    "(t', i) \<noteq> (table, ARM_GET_LVL1_SECTION_INDEX v) \<Longrightarrow> no_section s' t' i = no_section s t' i"
    "arm_walk s' t' w =
       (if t' = table \<and> unat w div 2 ^ 20 = unat v div 2 ^ 20
        then Some ((e AND 0xFFF00000) OR (w AND 0xFFFFF)) else arm_walk s t' w)"
proof -
  have l2: "l2_tables s' = l2_tables s" by (simp add: s'_def)
  have old: "\<exists>tb. l1_tables s t' = Some tb \<and> (lvl1_entry tb' j = lvl1_entry tb j \<or> lvl1_entry tb' j = e)"
    if "l1_tables s' t' = Some tb'" for t' tb' j
    using that t by (auto simp: s'_def split: if_splits)
  have ne: "\<not> lvl2_entry e" using e lvl2_entryD(1) [of e] by auto
  show "mmu_ok s'"
  proof (rule mmu_okI)
    show "l2_tables s' NULL = None" using ok by (simp add: l2 mmu_ok_def)
  next
    fix t' tb' j assume "l1_tables s' t' = Some tb'"
    from old [OF this, of j] obtain tb where tb: "l1_tables s t' = Some tb"
      and "lvl1_entry tb' j = lvl1_entry tb j \<or> lvl1_entry tb' j = e" by blast
    then show "lvl1_entry tb' j = 0 \<or> lvl1_entry tb' j AND 3 = 2 \<or>
       (lvl2_entry (lvl1_entry tb' j) \<and> l2_tables s' (lvl1_entry tb' j AND 0xFFFFF000) \<noteq> None)"
      using mmu_entry [OF ok tb, of j] e l2 by metis
  next
    fix t1 b1 i1 t2 b2 i2
    assume "l1_tables s' t1 = Some b1" "l1_tables s' t2 = Some b2"
      and l: "lvl2_entry (lvl1_entry b1 i1)" "lvl2_entry (lvl1_entry b2 i2)"
        "lvl1_entry b1 i1 AND 0xFFFFF000 = lvl1_entry b2 i2 AND 0xFFFFF000"
    from old [OF this(1), of i1] old [OF this(2), of i2] obtain o1 o2
      where o: "l1_tables s t1 = Some o1" "l1_tables s t2 = Some o2"
        and "lvl1_entry b1 i1 = lvl1_entry o1 i1" "lvl1_entry b2 i2 = lvl1_entry o2 i2"
      using ne l by metis
    then show "t1 = t2 \<and> i1 = i2" using l mmu_inj [OF ok o, of i1 i2] by simp
  qed
  show "(t', i) \<noteq> (table, ARM_GET_LVL1_SECTION_INDEX v) \<Longrightarrow> no_section s' t' i = no_section s t' i"
    using t by (auto simp: no_section_def s'_def)
  show "arm_walk s' t' w =
       (if t' = table \<and> unat w div 2 ^ 20 = unat v div 2 ^ 20
        then Some ((e AND 0xFFF00000) OR (w AND 0xFFFFF)) else arm_walk s t' w)"
  proof (cases "t' = table \<and> ARM_GET_LVL1_SECTION_INDEX w = ARM_GET_LVL1_SECTION_INDEX v")
    case True
    then have "arm_walk s' t' w = Some ((e AND 0xFFF00000) OR (w AND 0xFFFFF))"
      using e by (simp add: walk_section s'_def)
    then show ?thesis using True by (simp add: lvl1_index)
  next
    case False
    have "arm_walk s' t' w = arm_walk s t' w"
      unfolding arm_walk_def l2 using False t by (cases "t' = table") (auto simp: s'_def)
    then show ?thesis using False by (auto simp: lvl1_index)
  qed
qed

subsection \<open>Operations\<close>

lemma get_lvl2_ok:
  assumes ok: "mmu_ok s" and p: "table \<noteq> NULL" "pool \<noteq> NULL" and t: "l1_tables s table = Some t"
    and ns: "no_section s table (ARM_GET_LVL1_SECTION_INDEX v)" and room: "lvl2_room s (Suc n)"
  obtains l s' t' lt where "arm_get_lvl2_table v True pool table s = Some (l, s')" "l \<noteq> NULL" "mmu_ok s'"
    "l1_tables s' table = Some t'" "lvl2_entry (lvl1_entry t' (ARM_GET_LVL1_SECTION_INDEX v))"
    "lvl1_entry t' (ARM_GET_LVL1_SECTION_INDEX v) AND 0xFFFFF000 = l" "l2_tables s' l = Some lt"
    "arm_walk s' = arm_walk s" "no_section s' = no_section s" "sections s' = sections s" "lvl2_room s' n"
proof (cases "lvl1_entry t (ARM_GET_LVL1_SECTION_INDEX v) = 0")
  case True
  let ?i = "ARM_GET_LVL1_SECTION_INDEX v"
  obtain a as where as: "v_answers s = a # as" and d: "a \<notin> set as" "distinct as" "n \<le> length as"
    and all: "\<forall>b \<in> set (a # as). b \<noteq> NULL \<and> l2_tables s b = None \<and> unat b mod 4096 = 0"
    using room by (cases "v_answers s") (simp_all add: lvl2_room_def)
  have a: "a \<noteq> NULL" "l2_tables s a = None" "unat a mod 4096 = 0" using all by simp_all
  define s' where "s' = s\<lparr>v_answers := as, l2_tables := (l2_tables s)(a \<mapsto> \<lparr>l2_tbl = (\<lambda>_. 0)\<rparr>),
                    l1_tables := (l1_tables s)(table \<mapsto>
                      t\<lparr>lvl1_entry := (lvl1_entry t)(?i := arm_generate_lvl1_course a 0 0 0)\<rparr>)\<rparr>"
  note nt = new_table [OF ok t True a, of as, folded s'_def]
  note fields = lvl1_course_fields [OF aligned_block [OF a(3)]]
  have "lvl2_room s' n" using d all by (auto simp: lvl2_room_def s'_def)
  moreover have "arm_get_lvl2_table v True pool table s = Some (a, s')"
    using p t True a fields(1) page_base_no_section [of "arm_generate_lvl1_course a 0 0 0"]
    by (simp add: arm_get_lvl2_table_def mem_alloc_aligned_def as s'_def ARM_GET_LVL2_VIRT_ADDR_def)
  ultimately show ?thesis
    using nt fields a by (intro that [of a s']) (auto simp: s'_def lvl2_entry_def)
next
  case False
  let ?e = "lvl1_entry t (ARM_GET_LVL1_SECTION_INDEX v)"
  have e: "lvl2_entry ?e" "l2_tables s (?e AND 0xFFFFF000) \<noteq> None"
    using mmu_entry [OF ok t] False ns t by (auto simp: no_section_def)
  then have "?e AND 0xFFFFF000 \<noteq> NULL" using ok by (metis mmu_ok_def)
  moreover have "arm_get_lvl2_table v True pool table s = Some (?e AND 0xFFFFF000, s)"
    using p t False page_base_no_section [of ?e]
    by (simp add: arm_get_lvl2_table_def ARM_GET_LVL2_VIRT_ADDR_def)
  moreover have "lvl2_room s n" using room by (simp add: lvl2_room_def)
  moreover obtain lt where "l2_tables s (?e AND 0xFFFFF000) = Some lt" using e(2) by blast
  ultimately show ?thesis using e(1) ok t by (intro that [of "?e AND 0xFFFFF000" s t lt]) simp_all
qed

lemma map_page_ok:
  assumes "mmu_ok s" "table \<noteq> NULL" "pool \<noteq> NULL" "l1_tables s table = Some t" "sections s section = Some x"
    "no_section s table (ARM_GET_LVL1_SECTION_INDEX v)" "lvl2_room s (Suc n)"
  obtains s' where "arm_map_page section pool table v r s = Some (NO_ERROR, s')" "mmu_ok s'"
    "l1_tables s' table \<noteq> None" "no_section s' = no_section s" "sections s' = sections s" "lvl2_room s' n"
    "\<And>t' w. arm_walk s' t' w =
       (if t' = table \<and> unat w div 2 ^ 12 = unat v div 2 ^ 12
        then Some ((r AND 0xFFFFF000) OR (w AND 0xFFF)) else arm_walk s t' w)"
proof -
  obtain l s1 t' lt where g: "arm_get_lvl2_table v True pool table s = Some (l, s1)" "l \<noteq> NULL"
    and s1: "mmu_ok s1" "l1_tables s1 table = Some t'" "lvl2_entry (lvl1_entry t' (ARM_GET_LVL1_SECTION_INDEX v))"
      "lvl1_entry t' (ARM_GET_LVL1_SECTION_INDEX v) AND 0xFFFFF000 = l" "l2_tables s1 l = Some lt"
    and same: "arm_walk s1 = arm_walk s" "no_section s1 = no_section s" "sections s1 = sections s"
    and room: "lvl2_room s1 n"
    using get_lvl2_ok [OF assms(1-4,6,7)] by blast
  let ?ram = "memory_type x = MMU_RANDOM_ACCESS_MEMORY"
  let ?d = "arm_generate_lvl2 r 1 0 (access_rights x = MMU_READ_ONLY) 1 (ap_bits (privilege x)) ?ram ?ram"
  define s' where "s' = s1\<lparr>l2_tables := (l2_tables s1)(l \<mapsto> lt\<lparr>l2_tbl := (l2_tbl lt)(ARM_GET_LVL2_PAGE_INDEX v := ?d)\<rparr>)\<rparr>"
  note sp = set_page [OF s1, of ?d, folded s'_def]
  have "arm_map_page section pool table v r s = Some (NO_ERROR, s')"
    using g s1(5) same(3) assms(5)
    by (simp add: arm_map_page_def mem_sec_get_priv_def mem_sec_get_access_def mem_sec_get_mem_type_def Let_def s'_def)
  moreover have "lvl2_room s' n" using room s1(5) by (auto simp: lvl2_room_def s'_def)
  moreover have "sections s' = sections s" "l1_tables s' table \<noteq> None" using same s1(2) by (simp_all add: s'_def)
  ultimately show ?thesis using sp(1,2) same sp(3) lvl2_fields by (intro that [of s']) simp_all
qed

lemma map_section_ok:
  assumes "mmu_ok s" "l1_tables s table = Some t" "sections s section = Some x" "lvl2_room s n"
  obtains s' where "arm_map_section section v r table s = Some s'" "mmu_ok s'"
    "l1_tables s' table \<noteq> None" "sections s' = sections s" "lvl2_room s' n"
    "\<And>i. i \<noteq> ARM_GET_LVL1_SECTION_INDEX v \<Longrightarrow> no_section s' table i = no_section s table i"
    "\<And>t' w. arm_walk s' t' w =
       (if t' = table \<and> unat w div 2 ^ 20 = unat v div 2 ^ 20
        then Some ((r AND 0xFFF00000) OR (w AND 0xFFFFF)) else arm_walk s t' w)"
proof -
  let ?ram = "memory_type x = MMU_RANDOM_ACCESS_MEMORY"
  let ?e = "arm_generate_lvl1_section r 1 0 (access_rights x = MMU_READ_ONLY) 1 (ap_bits (privilege x)) 0 0 0 ?ram ?ram"
  note f = lvl1_section_fields [of r "access_rights x = MMU_READ_ONLY" "privilege x" ?ram]
  define s' where "s' = s\<lparr>l1_tables := (l1_tables s)(table \<mapsto>
       t\<lparr>lvl1_entry := (lvl1_entry t)(ARM_GET_LVL1_SECTION_INDEX v := ?e)\<rparr>)\<rparr>"
  note ss = set_section [OF assms(1,2) f(2), where v = v, folded s'_def]
  have "arm_map_section section v r table s = Some s'"
    using assms(2,3)
    by (simp add: arm_map_section_def mem_sec_get_priv_def mem_sec_get_access_def mem_sec_get_mem_type_def Let_def s'_def)
  moreover have "lvl2_room s' n" "sections s' = sections s" "l1_tables s' table \<noteq> None"
    using assms(4) by (simp_all add: lvl2_room_def s'_def)
  ultimately show ?thesis using ss f(1) by (intro that [of s']) simp_all
qed

end
