(* ===== verification/Mmu_Loop.thy ===== *)
theory Mmu_Loop
  imports Mmu_Update
begin

section \<open>Page tables: mapping a section\<close>

text \<open>
  The loop of \<open>arm_map_memory\<close> over the pages of a section, with the megabytes it maps by one
  entry.  \<open>map_window\<close> says that a table translates an interval of addresses to a block of real memory
  and every other address as before.
\<close>

subsection \<open>Intervals\<close>

lemma window:
  fixes v w :: u32
  assumes "unat v mod 2 ^ n = 0"
  shows "unat w div 2 ^ n = unat v div 2 ^ n \<longleftrightarrow> unat v \<le> unat w \<and> unat w < unat v + 2 ^ n"
proof -
  obtain k where k: "unat v = k * 2 ^ n" using assms by (metis div_mult_mod_eq add.right_neutral)
  have "x div 2 ^ n = k \<longleftrightarrow> k * 2 ^ n \<le> x \<and> x < k * 2 ^ n + 2 ^ n" for x :: nat
    using div_nat_eqI [of "2 ^ n" k x] dividend_less_div_times [of "2 ^ n" x] div_times_less_eq_dividend [of x "2 ^ n"]
    by (auto simp: mult.commute)
  then show ?thesis by (simp add: k)
qed

lemma window_addr:
  fixes v w r :: u32
  assumes "unat v mod 2 ^ n = 0" "unat r mod 2 ^ n = 0" "unat w div 2 ^ n = unat v div 2 ^ n"
  shows "(r AND NOT (mask n)) OR (w AND mask n) = r + (w - v)"
proof -
  have a: "a AND NOT (mask n) = a" if "unat a mod 2 ^ n = 0" for a :: u32
    using that by (simp add: word_unat_eq_iff hi_part) (metis add.right_neutral div_mult_mod_eq)
  have "w AND NOT (mask n) = v AND NOT (mask n)" using assms(3) by (simp only: word_unat_eq_iff hi_part)
  moreover have "w = (w AND NOT (mask n)) OR (w AND mask n)" by (auto simp: bit_eq_iff bit_simps)
  ultimately have "w = v + (w AND mask n)" using hi_or_lo [of w n w] a [OF assms(1)] by simp
  then have "w - v = w AND mask n" by (metis add_diff_cancel_left')
  then show ?thesis using hi_or_lo [of r n w] a [OF assms(2)] by simp
qed

definition map_window :: "vheap \<Rightarrow> ptr \<Rightarrow> nat \<Rightarrow> nat \<Rightarrow> (u32 \<Rightarrow> u32) \<Rightarrow> vheap \<Rightarrow> bool" where
  "map_window s table lo hi f s' \<longleftrightarrow>
     (\<forall>t w. arm_walk s' t w = (if t = table \<and> lo \<le> unat w \<and> unat w < hi then Some (f w) else arm_walk s t w))"

lemma map_window_trans:
  "map_window s table lo mid f s1 \<Longrightarrow> map_window s1 table mid hi f s2 \<Longrightarrow> lo \<le> mid \<Longrightarrow> mid \<le> hi \<Longrightarrow>
     map_window s table lo hi f s2"
  by (auto simp: map_window_def)

lemma section_test:
  assumes "unat v + k * 4096 < 0xFFF00000"
  shows "arm_is_1mb_section v (v + of_nat (k * MMU_PAGE_SIZE)) \<longleftrightarrow> unat v mod 2 ^ 20 = 0 \<and> 256 \<le> k"
proof -
  have "unat (v + of_nat (k * 4096)) = unat v + k * 4096" "unat (v + 1048576) = unat v + 1048576"
    using assms by (simp_all add: unat_word_ariths unat_of_nat)
  moreover have "v mod 1048576 = 0 \<longleftrightarrow> unat v mod 1048576 = 0"
    by (simp add: word_unat_eq_iff unat_mod)
  ultimately show ?thesis
    by (auto simp: arm_is_1mb_section_def MMU_PAGE_SIZE_def ARM_MMU_SECTION_SIZE_def word_less_nat_alt)
qed

lemma map_page_window:
  assumes "mmu_ok s" "table \<noteq> NULL" "pool \<noteq> NULL" "l1_tables s table = Some t" "sections s section = Some x"
    "no_section s table (unat v div 2 ^ 20)" "lvl2_room s (Suc n)"
    and al: "unat v mod 2 ^ 12 = 0" "unat r mod 2 ^ 12 = 0" and f: "f = (\<lambda>w. r + (w - v))"
  obtains s' where "arm_map_page section pool table v r s = Some (NO_ERROR, s')" "mmu_ok s'"
    "l1_tables s' table \<noteq> None" "no_section s' = no_section s" "sections s' = sections s" "lvl2_room s' n"
    "map_window s table (unat v) (unat v + 4096) f s'"
proof -
  have ns: "no_section s table (ARM_GET_LVL1_SECTION_INDEX v)" using assms(6) by (simp add: lvl1_index)
  show ?thesis
  proof (rule map_page_ok [OF assms(1-5) ns assms(7), of r])
    fix s'
    assume s': "arm_map_page section pool table v r s = Some (NO_ERROR, s')" "mmu_ok s'"
    "l1_tables s' table \<noteq> None" "no_section s' = no_section s" "sections s' = sections s" "lvl2_room s' n"
    and w: "\<And>t' w. arm_walk s' t' w =
       (if t' = table \<and> unat w div 2 ^ 12 = unat v div 2 ^ 12
        then Some ((r AND 0xFFFFF000) OR (w AND 0xFFF)) else arm_walk s t' w)"
    have "map_window s table (unat v) (unat v + 4096) f s'"
      using window_addr [OF al] window [OF al(1)] unfolding map_window_def w masks f by auto
    from that [OF s' this] show thesis .
  qed
qed

lemma map_section_window:
  assumes "mmu_ok s" "l1_tables s table = Some t" "sections s section = Some x" "lvl2_room s n"
    and al: "unat v mod 2 ^ 20 = 0" "unat r mod 2 ^ 20 = 0" and f: "f = (\<lambda>w. r + (w - v))"
  obtains s' where "arm_map_section section v r table s = Some s'" "mmu_ok s'"
    "l1_tables s' table \<noteq> None" "sections s' = sections s" "lvl2_room s' n"
    "\<And>i. i \<noteq> unat v div 2 ^ 20 \<Longrightarrow> no_section s' table i = no_section s table i"
    "map_window s table (unat v) (unat v + 1048576) f s'"
proof (rule map_section_ok [OF assms(1-4), of v r])
  fix s'
  assume s': "arm_map_section section v r table s = Some s'" "mmu_ok s'"
    "l1_tables s' table \<noteq> None" "sections s' = sections s" "lvl2_room s' n"
    and i: "\<And>i. i \<noteq> ARM_GET_LVL1_SECTION_INDEX v \<Longrightarrow> no_section s' table i = no_section s table i"
    and w: "\<And>t' w. arm_walk s' t' w =
       (if t' = table \<and> unat w div 2 ^ 20 = unat v div 2 ^ 20
        then Some ((r AND 0xFFF00000) OR (w AND 0xFFFFF)) else arm_walk s t' w)"
  have "map_window s table (unat v) (unat v + 1048576) f s'"
    using window_addr [OF al] window [OF al(1)] unfolding map_window_def w masks f by auto
  from that [OF s' i this] show thesis by (simp add: lvl1_index)
qed

subsection \<open>The loop\<close>

text \<open>
  What the loop needs of the section: it and its real block start on a page, they have the same offset in
  their megabytes if they have a megabyte of pages, and neither interval reaches the top of the address space.
\<close>

definition section_fits :: "mem_section_t \<Rightarrow> nat \<Rightarrow> bool" where
  "section_fits x pages \<longleftrightarrow> unat (virt_address x) mod 2 ^ 12 = 0 \<and> unat (real_address x) mod 2 ^ 12 = 0 \<and>
     (256 \<le> pages \<longrightarrow> unat (real_address x) mod 2 ^ 20 = unat (virt_address x) mod 2 ^ 20) \<and>
     unat (virt_address x) + pages * 4096 < 0xFFF00000 \<and> unat (real_address x) + pages * 4096 < 2 ^ 32"

definition section_map :: "mem_section_t \<Rightarrow> u32 \<Rightarrow> u32" where
  "section_map x w = real_address x + (w - virt_address x)"

lemma section_page:
  assumes "section_fits x pages" "page < pages"
  defines "v \<equiv> virt_address x + of_nat (page * MMU_PAGE_SIZE)" and "r \<equiv> real_address x + of_nat (page * MMU_PAGE_SIZE)"
  shows "unat v = unat (virt_address x) + page * 4096" "unat r = unat (real_address x) + page * 4096"
    "unat v mod 2 ^ 12 = 0" "unat r mod 2 ^ 12 = 0" "256 \<le> pages \<Longrightarrow> unat r mod 2 ^ 20 = unat v mod 2 ^ 20"
    "section_map x = (\<lambda>w. r + (w - v))"
    "arm_is_1mb_section v (v + of_nat ((pages - page) * MMU_PAGE_SIZE)) \<longleftrightarrow> unat v mod 2 ^ 20 = 0 \<and> 256 \<le> pages - page"
proof -
  have le: "page * 4096 \<le> pages * 4096" using assms(2) by simp
  show v: "unat v = unat (virt_address x) + page * 4096" and r: "unat r = unat (real_address x) + page * 4096"
    using assms(1) le by (simp_all add: v_def r_def section_fits_def unat_word_ariths unat_of_nat MMU_PAGE_SIZE_def)
  show "unat r mod 2 ^ 20 = unat v mod 2 ^ 20" if "256 \<le> pages"
    using assms(1) that unfolding v r section_fits_def by (metis mod_add_left_eq)
  show "unat v mod 2 ^ 12 = 0" "unat r mod 2 ^ 12 = 0"
    using assms(1) by (simp_all add: v r section_fits_def mod_add_eq)
  show "section_map x = (\<lambda>w. r + (w - v))" by (simp add: section_map_def v_def r_def fun_eq_iff)
  have "unat v + (pages - page) * 4096 < 0xFFF00000"
    using assms(1) le by (simp add: v section_fits_def diff_mult_distrib)
  then show "arm_is_1mb_section v (v + of_nat ((pages - page) * MMU_PAGE_SIZE)) \<longleftrightarrow>
      unat v mod 2 ^ 20 = 0 \<and> 256 \<le> pages - page"
    by (rule section_test)
qed

declare arm_map_loop.simps [simp del]

lemma map_loop_step:
  assumes "page < pages" "sections s section = Some x"
  defines "v \<equiv> virt_address x + of_nat (page * MMU_PAGE_SIZE)" and "r \<equiv> real_address x + of_nat (page * MMU_PAGE_SIZE)"
  shows "arm_is_1mb_section v (v + of_nat ((pages - page) * MMU_PAGE_SIZE)) \<Longrightarrow>
      arm_map_section section v r table s = Some s1 \<Longrightarrow>
      arm_map_loop pages page pool table section s = arm_map_loop pages (page + 256) pool table section s1"
    and "\<not> arm_is_1mb_section v (v + of_nat ((pages - page) * MMU_PAGE_SIZE)) \<Longrightarrow>
      arm_map_page section pool table v r s = Some (NO_ERROR, s1) \<Longrightarrow>
      arm_map_loop pages page pool table section s = arm_map_loop pages (page + 1) pool table section s1"
proof -
  have n: "ARM_MMU_SECTION_PAGES = 255"
    by (simp add: ARM_MMU_SECTION_PAGES_def ARM_MMU_SECTION_SIZE_def MMU_PAGE_SIZE_def)
  note body = arm_map_loop.simps [of pages page pool table "section" s] mem_sec_get_virt_addr_def
    mem_sec_get_real_addr_def assms(1,2) Let_def n
  show "arm_is_1mb_section v (v + of_nat ((pages - page) * MMU_PAGE_SIZE)) \<Longrightarrow>
      arm_map_section section v r table s = Some s1 \<Longrightarrow>
      arm_map_loop pages page pool table section s = arm_map_loop pages (page + 256) pool table section s1"
    by (simp add: body v_def r_def add.commute)
  show "\<not> arm_is_1mb_section v (v + of_nat ((pages - page) * MMU_PAGE_SIZE)) \<Longrightarrow>
      arm_map_page section pool table v r s = Some (NO_ERROR, s1) \<Longrightarrow>
      arm_map_loop pages page pool table section s = arm_map_loop pages (page + 1) pool table section s1"
    by (simp add: body v_def r_def add.commute)
qed

lemma map_loop_window:
  assumes "mmu_ok s" "l1_tables s table = Some t" "sections s section = Some x" "lvl2_room s (pages - page)"
    and "page \<le> pages"
    and "\<forall>k. page \<le> k \<and> k < pages \<longrightarrow> no_section s table ((unat (virt_address x) + k * 4096) div 2 ^ 20)"
    and p: "table \<noteq> NULL" "pool \<noteq> NULL" and fits: "section_fits x pages"
  shows "\<exists>s'. arm_map_loop pages page pool table section s = Some (NO_ERROR, s') \<and> mmu_ok s' \<and> sections s' = sections s \<and>
    map_window s table (unat (virt_address x) + page * 4096) (unat (virt_address x) + pages * 4096) (section_map x) s'"
  using assms(1-6)
proof (induction "pages - page" arbitrary: page s t rule: less_induct)
  case less
  show ?case
  proof (cases "page < pages")
    case False
    have "arm_walk (s\<lparr>tlb_flushes := n\<rparr>) = arm_walk s" "mmu_ok (s\<lparr>tlb_flushes := n\<rparr>) = mmu_ok s" for n
      by (simp_all add: arm_walk_def mmu_ok_def fun_eq_iff cong: if_cong)
    then show ?thesis
      using False less.prems(1,5) by (subst arm_map_loop.simps) (auto simp: map_window_def)
  next
    case True
    define v where "v = virt_address x + of_nat (page * MMU_PAGE_SIZE)"
    define r where "r = real_address x + of_nat (page * MMU_PAGE_SIZE)"
    note sp = section_page [OF fits True, folded v_def r_def]
    note step = map_loop_step [OF True less.prems(3), folded v_def r_def]
    show ?thesis
    proof (cases "unat v mod 2 ^ 20 = 0 \<and> 256 \<le> pages - page")
      case big: True
      show ?thesis
      proof (rule map_section_window [OF less.prems(1-4) _ _ sp(6)])
        show "unat v mod 2 ^ 20 = 0" "unat r mod 2 ^ 20 = 0" using big sp(5) le_trans [of 256 "pages - page" pages] by auto
        fix s1 assume m: "arm_map_section section v r table s = Some s1" and s1: "mmu_ok s1"
          "l1_tables s1 table \<noteq> None" "sections s1 = sections s" "lvl2_room s1 (pages - page)"
          and ns: "\<And>i. i \<noteq> unat v div 2 ^ 20 \<Longrightarrow> no_section s1 table i = no_section s table i"
          and w: "map_window s table (unat v) (unat v + 1048576) (section_map x) s1"
        have "no_section s1 table ((unat (virt_address x) + k * 4096) div 2 ^ 20)" if "page + 256 \<le> k" "k < pages" for k
        proof -
          have "(unat v + 2 ^ 20) div 2 ^ 20 \<le> (unat (virt_address x) + k * 4096) div 2 ^ 20"
            using that(1) by (intro div_le_mono) (simp add: sp(1))
          then show ?thesis using ns less.prems(6) that by simp
        qed
        moreover have "lvl2_room s1 (pages - (page + 256))" using s1(4) by (auto simp: lvl2_room_def)
        ultimately obtain s' where s': "arm_map_loop pages (page + 256) pool table section s1 = Some (NO_ERROR, s')"
            "mmu_ok s'" "sections s' = sections s1" "map_window s1 table (unat (virt_address x) + (page + 256) * 4096)
              (unat (virt_address x) + pages * 4096) (section_map x) s'"
          using less.hyps [of "page + 256" s1] s1 big less.prems(3) by force
        have "arm_map_loop pages page pool table section s = Some (NO_ERROR, s')"
          using s'(1) step(1) [OF _ m, of pool] big sp(7) by simp
        moreover have "map_window s table (unat (virt_address x) + page * 4096) (unat (virt_address x) + pages * 4096)
            (section_map x) s'"
          by (rule map_window_trans [OF w [unfolded sp(1)]]) (use s'(4) big in \<open>auto simp: algebra_simps\<close>)
        ultimately show ?thesis using s'(2,3) s1 by auto
      qed
    next
      case small: False
      show ?thesis
      proof (rule map_page_window [OF less.prems(1) p less.prems(2,3) _ _ sp(3,4,6)])
        show "no_section s table (unat v div 2 ^ 20)" using less.prems(6) True by (simp add: sp(1))
        show "lvl2_room s (Suc (pages - (page + 1)))" using less.prems(4) True by (simp add: Suc_diff_Suc)
        fix s1 assume m: "arm_map_page section pool table v r s = Some (NO_ERROR, s1)" and s1: "mmu_ok s1"
          "l1_tables s1 table \<noteq> None" "no_section s1 = no_section s" "sections s1 = sections s"
          "lvl2_room s1 (pages - (page + 1))"
          and w: "map_window s table (unat v) (unat v + 4096) (section_map x) s1"
        obtain s' where s': "arm_map_loop pages (page + 1) pool table section s1 = Some (NO_ERROR, s')"
            "mmu_ok s'" "sections s' = sections s1" "map_window s1 table (unat (virt_address x) + (page + 1) * 4096)
              (unat (virt_address x) + pages * 4096) (section_map x) s'"
          using less.hyps [of "page + 1" s1] s1 True less.prems(3,6) by force
        have "arm_map_loop pages page pool table section s = Some (NO_ERROR, s')"
          using s'(1) step(2) [OF _ m] small sp(7) by simp
        moreover have "map_window s table (unat (virt_address x) + page * 4096) (unat (virt_address x) + pages * 4096)
            (section_map x) s'"
          by (rule map_window_trans [OF w [unfolded sp(1)]]) (use s'(4) True in \<open>simp_all add: algebra_simps\<close>)
        ultimately show ?thesis using s'(2,3) s1 by auto
      qed
    qed
  qed
qed

end
