(* ===== verification/Mmu_Props.thy ===== *)
theory Mmu_Props
  imports Mmu_Loop
begin

section \<open>Page tables: properties\<close>

text \<open>
  What mapping and unmapping a section does to the translation of every address by every table.
\<close>

subsection \<open>Shared facts\<close>

lemma pages_round: "(n + 4095) div 4096 = n div 4096 + (if n mod 4096 \<noteq> 0 then 1 else 0)" for n :: nat
proof -
  define q r where "q = n div 4096" and "r = n mod 4096"
  then have "n = 4096 * q + r" "r < 4096" by simp_all
  then show ?thesis unfolding q_def [symmetric] r_def [symmetric] by (intro div_nat_eqI) auto
qed

lemma unmap_walk:
  assumes "mmu_ok s" "table \<noteq> NULL" "pool \<noteq> NULL" "l1_tables s table = Some t" "section \<noteq> NULL"
    "sections s section = Some x" "no_section s table (ARM_GET_LVL1_SECTION_INDEX (virt_address x))" "lvl2_room s 1"
  shows "\<exists>s'. arm_unmap_memory pool table section s = Some s' \<and> mmu_ok s' \<and>
    (\<forall>t' w. arm_walk s' t' w =
      (if t' = table \<and> unat w div 4096 = unat (virt_address x) div 4096 then None else arm_walk s t' w))"
proof (rule get_lvl2_ok [OF assms(1-4,7), of 0])
  show "lvl2_room s (Suc 0)" using assms(8) by simp
  let ?v = "virt_address x"
  fix l s1 t' lt
  assume g: "arm_get_lvl2_table ?v True pool table s = Some (l, s1)" "l \<noteq> NULL"
    and s1: "mmu_ok s1" "l1_tables s1 table = Some t'" "lvl2_entry (lvl1_entry t' (ARM_GET_LVL1_SECTION_INDEX ?v))"
      "lvl1_entry t' (ARM_GET_LVL1_SECTION_INDEX ?v) AND 0xFFFFF000 = l" "l2_tables s1 l = Some lt"
    and same: "arm_walk s1 = arm_walk s"
  define s2 where "s2 = s1\<lparr>l2_tables := (l2_tables s1)(l \<mapsto> lt\<lparr>l2_tbl := (l2_tbl lt)(ARM_GET_LVL2_PAGE_INDEX ?v := 0)\<rparr>)\<rparr>"
  note sp = set_page [OF s1, of 0, folded s2_def]
  have walk: "arm_walk (s2\<lparr>tlb_flushes := n\<rparr>) = arm_walk s2" "mmu_ok (s2\<lparr>tlb_flushes := n\<rparr>) = mmu_ok s2" for n
    by (simp_all add: arm_walk_def mmu_ok_def fun_eq_iff cong: if_cong)
  have "arm_unmap_memory pool table section s = Some (s2\<lparr>tlb_flushes := tlb_flushes s2 + 1\<rparr>)"
    using assms(2,5,6) g s1(5) by (simp add: arm_unmap_memory_def mem_sec_get_virt_addr_def s2_def)
  then show ?thesis using sp(1,3) same by (simp add: walk)
qed

text \<open>
  An example: a table whose entries are empty, a section of three pages, and room for three second
  level tables.
\<close>

definition demo_section :: mem_section_t where
  "demo_section = \<lparr>sec_next = 0, real_address = 0x108000, virt_address = 0x8000, sec_size = 0x2500,
     memory_type = MMU_RANDOM_ACCESS_MEMORY, privilege = MMU_USER_ACCESS, access_rights = MMU_READ_WRITE,
     sec_name = [], sec_pool = 1\<rparr>"

definition demo_mmu :: vheap where
  "demo_mmu = \<lparr>sections = [0x10 \<mapsto> demo_section], l1_tables = [0x20000 \<mapsto> \<lparr>lvl1_entry = (\<lambda>_. 0)\<rparr>],
     l2_tables = Map.empty, tlb_flushes = 0, v_answers = [0x1000, 0x2000, 0x3000]\<rparr>"

lemma demo_mmu_facts:
  "mmu_ok demo_mmu" "lvl2_room demo_mmu 3" "lvl2_room demo_mmu 1" "section_fits demo_section 3"
  "no_section demo_mmu t i" "l1_tables demo_mmu 0x20000 = Some \<lparr>lvl1_entry = (\<lambda>_. 0)\<rparr>"
  "sections demo_mmu 0x10 = Some demo_section"
  by (auto simp: demo_mmu_def demo_section_def mmu_ok_def lvl2_room_def section_fits_def no_section_def lvl2_entry_def)

subsection \<open>Mapping\<close>

lemma map_memory_walk:
  assumes "mmu_ok s" "table \<noteq> NULL" "pool \<noteq> NULL" "l1_tables s table = Some t" "section \<noteq> NULL"
    "sections s section = Some x" "pages = (unat (sec_size x) + 4095) div 4096" "section_fits x pages"
    "\<forall>k < pages. no_section s table ((unat (virt_address x) + k * 4096) div 2 ^ 20)" "lvl2_room s pages"
  shows "\<exists>s'. arm_map_memory pool table section s = Some (NO_ERROR, s') \<and> mmu_ok s' \<and> sections s' = sections s \<and>
    (\<forall>t' w. arm_walk s' t' w =
      (if t' = table \<and> unat (virt_address x) \<le> unat w \<and> unat w < unat (virt_address x) + pages * 4096
       then Some (real_address x + (w - virt_address x)) else arm_walk s t' w))"
proof -
  have "unat (sec_size x) div 4096 + (if unat (sec_size x) mod 4096 \<noteq> 0 then 1 else 0) = pages"
    unfolding assms(7) by (rule pages_round [symmetric])
  then have "arm_map_memory pool table section s = arm_map_loop pages 0 pool table section s"
    using assms(2,5,6) by (simp add: arm_map_memory_def mem_sec_get_size_def MMU_PAGE_SIZE_def)
  moreover have "\<exists>s'. arm_map_loop pages 0 pool table section s = Some (NO_ERROR, s') \<and> mmu_ok s' \<and> sections s' = sections s \<and>
      map_window s table (unat (virt_address x) + 0 * 4096) (unat (virt_address x) + pages * 4096) (section_map x) s'"
    by (rule map_loop_window [OF assms(1,4,6) _ _ _ assms(2,3,8)]) (use assms(9,10) in simp_all)
  ultimately show ?thesis by (simp only: map_window_def section_map_def mult_0 add_0_right)
qed

text \<open>
  C3: \<open>arm_map_memory\<close> maps a section: when the section and its real block start on a page, and have the
  same offset in their megabytes if they have a megabyte of pages, neither interval reaches the last megabyte of the address space, no
  entry of the range already maps a megabyte and the allocator has room, the call succeeds, the
  tables stay well formed, every address of the section's pages is translated to the same offset
  in the real block, and every other address, and every address in every other table, is
  translated as before.
\<close>

theorem arm_map_memory_translates:
  assumes "mmu_ok s" "table \<noteq> NULL" "pool \<noteq> NULL" "l1_tables s table = Some t" "section \<noteq> NULL"
    "sections s section = Some x" "pages = (unat (sec_size x) + 4095) div 4096" "section_fits x pages"
    "\<forall>k < pages. no_section s table ((unat (virt_address x) + k * 4096) div 2 ^ 20)" "lvl2_room s pages"
  shows "\<exists>s'. arm_map_memory pool table section s = Some (NO_ERROR, s') \<and> mmu_ok s' \<and>
    (\<forall>t' w. arm_walk s' t' w =
      (if t' = table \<and> unat (virt_address x) \<le> unat w \<and> unat w < unat (virt_address x) + pages * 4096
       then Some (real_address x + (w - virt_address x)) else arm_walk s t' w))"
  using map_memory_walk [OF assms] by blast

theorem arm_map_memory_translates_witness:
  "\<exists>s'. arm_map_memory 1 0x20000 0x10 demo_mmu = Some (NO_ERROR, s') \<and>
     arm_walk s' 0x20000 0x9123 = Some 0x109123 \<and> arm_walk s' 0x20000 0xB000 = arm_walk demo_mmu 0x20000 0xB000"
  using arm_map_memory_translates [of demo_mmu "0x20000" 1 _ "0x10" demo_section 3, OF demo_mmu_facts(1) _ _ demo_mmu_facts(6)]
    demo_mmu_facts
  by (force simp: demo_section_def)

text \<open>
  C40: \<open>arm_unmap_memory\<close> removes the first page of a section only: every other page of the
  section is still translated as before.
\<close>

theorem arm_unmap_memory_first_page:
  assumes "mmu_ok s" "table \<noteq> NULL" "pool \<noteq> NULL" "l1_tables s table = Some t" "section \<noteq> NULL"
    "sections s section = Some x" "no_section s table (ARM_GET_LVL1_SECTION_INDEX (virt_address x))" "lvl2_room s 1"
  shows "\<exists>s'. arm_unmap_memory pool table section s = Some s' \<and> mmu_ok s' \<and>
    (\<forall>t' w. arm_walk s' t' w =
      (if t' = table \<and> unat w div 4096 = unat (virt_address x) div 4096 then None else arm_walk s t' w))"
  by (rule unmap_walk [OF assms])

theorem arm_unmap_memory_first_page_witness:
  "\<exists>s'. arm_unmap_memory 1 0x20000 0x10 demo_mmu = Some s' \<and>
     arm_walk s' 0x20000 0x8FFF = None \<and> arm_walk s' 0x20000 0x9000 = arm_walk demo_mmu 0x20000 0x9000"
  using arm_unmap_memory_first_page [of demo_mmu "0x20000" 1 _ "0x10" demo_section, OF demo_mmu_facts(1) _ _ demo_mmu_facts(6)]
    demo_mmu_facts
  by (force simp: demo_section_def)

text \<open>
  \<open>arm_get_lvl2_table\<close> never refuses a section entry, although it tests for one: the entry's
  page base is returned, so the memory that a megabyte entry maps is used as a second level
  table.
\<close>

lemma arm_get_lvl2_table_section:
  assumes "table \<noteq> NULL" "l1_tables s table = Some t"
    "lvl1_entry t (ARM_GET_LVL1_SECTION_INDEX v) AND 3 = 2"
  shows "arm_get_lvl2_table v create pool table s =
    Some (lvl1_entry t (ARM_GET_LVL1_SECTION_INDEX v) AND 0xFFFFF000, s)"
proof -
  have "lvl1_entry t (ARM_GET_LVL1_SECTION_INDEX v) \<noteq> 0" using assms(3) by auto
  then show ?thesis
    using assms page_base_no_section [of "lvl1_entry t (ARM_GET_LVL1_SECTION_INDEX v)"]
    by (simp add: arm_get_lvl2_table_def ARM_GET_LVL2_VIRT_ADDR_def)
qed

end
