(* ===== verification/Alarm.thy ===== *)
theory Alarm
  imports Time List_Contract
begin

section \<open>Clock and alarms (\<open>time_manager.c\<close>, \<open>alarm_manager.c\<close>)\<close>

text \<open>
  The alarm manager keeps its alarms in a list, in the order they were set, and the alarm that
  is due next in a field.  The timer device is reached through function pointers of its driver:
  the model records the calls (\<open>timer_calls\<close>).  The clock device is read through a function
  pointer, too; \<open>clock_ns\<close> is what it returns.  Firing an alarm calls back into the object that has
  set it; it is defined together with the objects.
\<close>

subsection \<open>State\<close>

record alarm_t =
  al_id :: u32
  call_back :: ptr
  usr_data :: ptr
  alarm_time :: tinker_time_t
  al_pool :: ptr

record alarm_manager_t =
  alarm_list :: ptr
  next_alarm :: ptr
  alarm_timer :: ptr
  am_pool :: ptr
  am_time_manager :: ptr

record time_manager_t =
  time_system_clock :: ptr

datatype timer_call = TIMER_SETUP ptr tinker_time_t ptr | TIMER_CANCEL ptr

record aheap =
  alh :: lheap
  alarms :: "alarm_t pheap"
  alarm_mgrs :: "alarm_manager_t pheap"
  time_mgrs :: "time_manager_t pheap"
  clock_ns :: u64
  timer_calls :: "timer_call list"
  al_answers :: "ptr list"

definition MAX_ALARMS :: u32 where "MAX_ALARMS = 256"

subsection \<open>Clock\<close>

definition time_initialise :: "ptr \<Rightarrow> aheap \<Rightarrow> (ptr \<times> aheap) option" where
  "time_initialise pool s = do {
     (tm, as) \<leftarrow> mem_alloc pool (time_mgrs s) (al_answers s);
     let s = s\<lparr>al_answers := as\<rparr>;
     Some (tm, if tm \<noteq> NULL then s\<lparr>time_mgrs := (time_mgrs s)(tm \<mapsto> \<lparr>time_system_clock = NULL\<rparr>)\<rparr> else s)
   }"

definition time_set_system_clock :: "ptr \<Rightarrow> ptr \<Rightarrow> aheap \<Rightarrow> aheap option" where
  "time_set_system_clock tm device s =
     (if tm = NULL then Some s
      else do { h \<leftarrow> store tm (\<lambda>t. t\<lparr>time_system_clock := device\<rparr>) (time_mgrs s); Some (s\<lparr>time_mgrs := h\<rparr>) })"

text \<open>The time is left as it is when there is no clock.\<close>

definition time_get_system_time :: "ptr \<Rightarrow> tinker_time_t \<Rightarrow> aheap \<Rightarrow> tinker_time_t option" where
  "time_get_system_time tm time s =
     (if tm = NULL then Some time
      else do {
        t \<leftarrow> time_mgrs s tm;
        if time_system_clock t = NULL then Some time
        else do {
          let sec = (ucast (clock_ns s div of_int ONE_SECOND_AS_NANOSECONDS) :: 32 word);
          let ns = (ucast (clock_ns s - scast sec * of_int ONE_SECOND_AS_NANOSECONDS) :: 32 word);
          Some \<lparr>seconds = sec, nanoseconds = ns\<rparr>
        }
      })"

subsection \<open>Alarms\<close>

definition alarm_create :: "ptr \<Rightarrow> u32 \<Rightarrow> tinker_time_t \<Rightarrow> ptr \<Rightarrow> ptr \<Rightarrow> aheap \<Rightarrow> (ptr \<times> aheap) option" where
  "alarm_create pool ident time cb user_data s = do {
     (a, as) \<leftarrow> mem_alloc pool (alarms s) (al_answers s);
     let s = s\<lparr>al_answers := as\<rparr>;
     Some (a, if a \<noteq> NULL
       then s\<lparr>alarms := (alarms s)(a \<mapsto> \<lparr>al_id = ident, call_back = cb, usr_data = user_data, alarm_time = time,
                                        al_pool = pool\<rparr>)\<rparr>
       else s)
   }"

definition alarm_delete :: "ptr \<Rightarrow> aheap \<Rightarrow> aheap option" where
  "alarm_delete a s =
     (if a = NULL then Some s
      else do {
        x \<leftarrow> alarms s a;
        h \<leftarrow> mem_free (al_pool x) a (alarms s);
        Some (s\<lparr>alarms := h\<rparr>)
      })"

definition alarm_get_time :: "ptr \<Rightarrow> aheap \<Rightarrow> tinker_time_t option" where
  "alarm_get_time a s = map_option alarm_time (alarms s a)"

definition alarm_initialse :: "ptr \<Rightarrow> ptr \<Rightarrow> aheap \<Rightarrow> (ptr \<times> aheap) option" where
  "alarm_initialse pool tm s = do {
     (am, as) \<leftarrow> mem_alloc pool (alarm_mgrs s) (al_answers s);
     let s = s\<lparr>al_answers := as\<rparr>;
     if am = NULL then Some (am, s)
     else do {
       (l, lh) \<leftarrow> list_create pool (alh s);
       Some (am, s\<lparr>alh := lh, alarm_mgrs := (alarm_mgrs s)(am \<mapsto>
         \<lparr>alarm_list = l, next_alarm = NULL, alarm_timer = NULL, am_pool = pool, am_time_manager = tm\<rparr>)\<rparr>)
     }
   }"

definition am_upd :: "ptr \<Rightarrow> (alarm_manager_t \<Rightarrow> alarm_manager_t) \<Rightarrow> aheap \<Rightarrow> aheap option" where
  "am_upd am f s = do { h \<leftarrow> store am f (alarm_mgrs s); Some (s\<lparr>alarm_mgrs := h\<rparr>) }"

definition alarm_set_timer :: "ptr \<Rightarrow> ptr \<Rightarrow> aheap \<Rightarrow> aheap option" where
  "alarm_set_timer am timer s = (if am = NULL then Some s else am_upd am (\<lambda>m. m\<lparr>alarm_timer := timer\<rparr>) s)"

definition alarm_enable_timer :: "ptr \<Rightarrow> aheap \<Rightarrow> aheap option" where
  "alarm_enable_timer am s = do {
     m \<leftarrow> alarm_mgrs s am;
     if alarm_timer m \<noteq> NULL \<and> next_alarm m \<noteq> NULL then do {
       t \<leftarrow> alarm_get_time (next_alarm m) s;
       Some (s\<lparr>timer_calls := timer_calls s @ [TIMER_SETUP (alarm_timer m) t am]\<rparr>)
     }
     else Some s
   }"

definition alarm_disable_timer :: "ptr \<Rightarrow> aheap \<Rightarrow> aheap option" where
  "alarm_disable_timer am s = do {
     m \<leftarrow> alarm_mgrs s am;
     Some (if alarm_timer m \<noteq> NULL then s\<lparr>timer_calls := timer_calls s @ [TIMER_CANCEL (alarm_timer m)]\<rparr> else s)
   }"

definition alarm_calculate_next_alarm :: "ptr \<Rightarrow> ptr \<Rightarrow> aheap \<Rightarrow> aheap option" where
  "alarm_calculate_next_alarm am new_alarm s = do {
     m \<leftarrow> alarm_mgrs s am;
     if new_alarm \<noteq> NULL then
       (if next_alarm m = NULL then am_upd am (\<lambda>m. m\<lparr>next_alarm := new_alarm\<rparr>) s
        else do {
          t \<leftarrow> alarm_get_time new_alarm s;
          u \<leftarrow> alarm_get_time (next_alarm m) s;
          if tinker_time_lt t u then am_upd am (\<lambda>m. m\<lparr>next_alarm := new_alarm\<rparr>) s else Some s
        })
     else do {
       n \<leftarrow> list_size (alarm_list m) (alh s);
       if n > 0 then do {
         r \<leftarrow> list_get (alarm_list m) 0 (alh s);
         s \<leftarrow> (case r of None \<Rightarrow> Some s | Some a \<Rightarrow> am_upd am (\<lambda>m. m\<lparr>next_alarm := a\<rparr>) s);
         alarm_enable_timer am s
       }
       else Some s
     }
   }"

text \<open>The search for a free identifier: the first index the list does not have, and 0 if it has all.\<close>

primrec alarm_find_id :: "nat \<Rightarrow> u32 \<Rightarrow> ptr \<Rightarrow> lheap \<Rightarrow> u32 option" where
  "alarm_find_id 0 i l h = Some 0"
| "alarm_find_id (Suc n) i l h = do {
     r \<leftarrow> list_get l i h;
     if r = None then Some i else alarm_find_id n (i + 1) l h
   }"

definition alarm_set_alarm ::
  "ptr \<Rightarrow> tinker_time_t option \<Rightarrow> ptr \<Rightarrow> ptr \<Rightarrow> aheap \<Rightarrow> (return_t \<times> u32 option \<times> aheap) option" where
  "alarm_set_alarm am timeout cb user_data s =
     (case timeout of
        None \<Rightarrow> Some (PARAMETERS_INVALID, None, s)
      | Some timeout \<Rightarrow>
          if am = NULL then Some (PARAMETERS_INVALID, None, s)
          else do {
            m \<leftarrow> alarm_mgrs s am;
            now \<leftarrow> time_get_system_time (am_time_manager m) \<lparr>seconds = 0, nanoseconds = 0\<rparr> s;
            n \<leftarrow> list_size (alarm_list m) (alh s);
            if n < MAX_ALARMS then do {
              new_alarm_id \<leftarrow> alarm_find_id (unat n) 0 (alarm_list m) (alh s);
              (a, s) \<leftarrow> alarm_create (am_pool m) new_alarm_id (tinker_time_add now timeout) cb user_data s;
              if a \<noteq> NULL then do {
                (ok, lh) \<leftarrow> list_add (alarm_list m) a (alh s);
                let s = s\<lparr>alh := lh\<rparr>;
                if ok then do {
                  s \<leftarrow> alarm_calculate_next_alarm am a s;
                  m \<leftarrow> alarm_mgrs s am;
                  s \<leftarrow> (if next_alarm m \<noteq> NULL then alarm_enable_timer am s else Some s);
                  Some (NO_ERROR, Some new_alarm_id, s)
                }
                else Some (OUT_OF_MEMORY, None, s)
              }
              else Some (OUT_OF_MEMORY, None, s)
            }
            else Some (OUT_OF_MEMORY, None, s)
          })"

definition alarm_unset_alarm :: "ptr \<Rightarrow> u32 \<Rightarrow> aheap \<Rightarrow> (return_t \<times> aheap) option" where
  "alarm_unset_alarm am alarm_id s = do {
     m \<leftarrow> alarm_mgrs s am;
     r \<leftarrow> list_get (alarm_list m) alarm_id (alh s);
     let a = (case r of None \<Rightarrow> NULL | Some a \<Rightarrow> a);
     if a \<noteq> NULL then do {
       (_, lh) \<leftarrow> list_remove_item (alarm_list m) a (alh s);
       let s = s\<lparr>alh := lh\<rparr>;
       s \<leftarrow> (if a = next_alarm m then do {
               s \<leftarrow> alarm_disable_timer am s;
               s \<leftarrow> am_upd am (\<lambda>m. m\<lparr>next_alarm := NULL\<rparr>) s;
               s \<leftarrow> alarm_calculate_next_alarm am NULL s;
               m \<leftarrow> alarm_mgrs s am;
               if next_alarm m \<noteq> NULL then alarm_enable_timer am s else Some s
             } else Some s);
       s \<leftarrow> alarm_delete a s;
       Some (NO_ERROR, s)
     }
     else Some (ALARM_ID_UNKNOWN, s)
   }"

end
