(* ===== verification/Alarm_Props.thy ===== *)
theory Alarm_Props
  imports Alarm List_Props
begin

section \<open>Alarms: properties\<close>

text \<open>
  \<open>am_ok\<close> is the invariant of an alarm manager: its list is well formed, its items are distinct
  live alarms, and the alarm due next is an alarm of the list that no other one precedes.
\<close>

subsection \<open>Invariant\<close>

definition time_of :: "aheap \<Rightarrow> ptr \<Rightarrow> tinker_time_t" where
  "time_of s a = (case alarms s a of None \<Rightarrow> \<lparr>seconds = 0, nanoseconds = 0\<rparr> | Some x \<Rightarrow> alarm_time x)"

definition am_items :: "aheap \<Rightarrow> ptr \<Rightarrow> ptr list" where
  "am_items s am = (case alarm_mgrs s am of None \<Rightarrow> [] | Some m \<Rightarrow> list_items (alh s) (alarm_list m))"

definition earliest :: "aheap \<Rightarrow> ptr \<Rightarrow> ptr list \<Rightarrow> bool" where
  "earliest s n xs \<longleftrightarrow>
     (if xs = [] then n = NULL else n \<in> set xs \<and> (\<forall>a\<in>set xs. \<not> tinker_time_lt (time_of s a) (time_of s n)))"

definition am_wf :: "aheap \<Rightarrow> ptr \<Rightarrow> alarm_manager_t \<Rightarrow> bool" where
  "am_wf s am m \<longleftrightarrow> am \<noteq> NULL \<and> alarm_mgrs s am = Some m \<and> am_pool m \<noteq> NULL \<and> lheap_ok (alh s) \<and>
     list_live (alh s) (alarm_list m) \<and>
     (am_time_manager m = NULL \<or> time_mgrs s (am_time_manager m) \<noteq> None) \<and>
     distinct (am_items s am) \<and>
     (\<forall>a\<in>set (am_items s am). a \<noteq> NULL \<and> (\<exists>x. alarms s a = Some x \<and> al_pool x \<noteq> NULL))"

definition am_ok :: "aheap \<Rightarrow> ptr \<Rightarrow> bool" where
  "am_ok s am \<longleftrightarrow> (\<exists>m. am_wf s am m \<and> earliest s (next_alarm m) (am_items s am))"

text \<open>The time now, as \<open>alarm_set_alarm\<close> reads it.\<close>

definition am_now :: "aheap \<Rightarrow> ptr \<Rightarrow> tinker_time_t option" where
  "am_now s am = do { m \<leftarrow> alarm_mgrs s am; time_get_system_time (am_time_manager m) \<lparr>seconds = 0, nanoseconds = 0\<rparr> s }"

lemma time_lt_trans: "tinker_time_lt a b \<Longrightarrow> tinker_time_lt b c \<Longrightarrow> tinker_time_lt a c"
  by (auto simp: tinker_time_lt_def split: if_splits)

lemma time_lt_irrefl: "\<not> tinker_time_lt a a"
  by (simp add: tinker_time_lt_def)

lemma am_items_eq: "alarm_mgrs s am = Some m \<Longrightarrow> am_items s am = list_items (alh s) (alarm_list m)"
  by (simp add: am_items_def)

lemma am_now_total: "am_wf s am m \<Longrightarrow> \<exists>t. am_now s am = Some t"
  by (auto simp: am_now_def am_wf_def time_get_system_time_def Let_def)

text \<open>The search for an identifier finds every index occupied.\<close>

lemma alarm_find_id_zero:
  assumes "lheap_ok h" "list_live h l" "unat i + n = length (list_items h l)"
  shows "alarm_find_id n i l h = Some 0"
  using assms(3)
proof (induction n arbitrary: i)
  case (Suc n)
  note g = list_get_spec [OF list_live_ok [OF assms(1,2)]]
  have "unat i + Suc n < 2 ^ 32" using Suc.prems ls.length_law [OF assms(1,2)] by simp
  then have "unat (i + 1) = unat i + 1" by (simp add: unat_word_ariths)
  then have "alarm_find_id n (i + 1) l h = Some 0" using Suc by simp
  moreover have "list_get l i h = Some (Some (list_items h l ! unat i))" using g [of i] Suc.prems by simp
  ultimately show ?case by simp
qed simp

subsection \<open>Setting an alarm\<close>

text \<open>The state after the new alarm \<open>a\<close> is in the list: the next alarm is chosen and the timer set up.\<close>

lemma alarm_chosen:
  assumes wf: "am_wf s am m" and x: "am_items s am = xs @ [a]" and e: "earliest s (next_alarm m) xs"
  defines "n \<equiv> (if xs = [] \<or> tinker_time_lt (time_of s a) (time_of s (next_alarm m)) then a else next_alarm m)"
  shows "\<exists>s'. (do { s \<leftarrow> alarm_calculate_next_alarm am a s;
                    m \<leftarrow> alarm_mgrs s am;
                    if next_alarm m \<noteq> NULL then alarm_enable_timer am s else Some s }) = Some s' \<and>
     alh s' = alh s \<and> alarms s' = alarms s \<and> time_mgrs s' = time_mgrs s \<and>
     alarm_mgrs s' = (alarm_mgrs s)(am \<mapsto> m\<lparr>next_alarm := n\<rparr>) \<and>
     timer_calls s' = timer_calls s @
       (if alarm_timer m \<noteq> NULL then [TIMER_SETUP (alarm_timer m) (time_of s n) am] else [])"
proof -
  have m: "alarm_mgrs s am = Some m" using wf by (simp add: am_wf_def)
  have live: "b \<noteq> NULL \<and> alarm_get_time b s = Some (time_of s b)" if "b \<in> set (xs @ [a])" for b
    using wf that x by (fastforce simp: am_wf_def alarm_get_time_def time_of_def)
  have nx: "next_alarm m = NULL \<longleftrightarrow> xs = []" "xs \<noteq> [] \<Longrightarrow> next_alarm m \<in> set xs"
    using e live by (auto simp: earliest_def split: if_splits)
  have n: "n \<in> set (xs @ [a])" using nx by (auto simp: n_def)
  define s1 where "s1 = s\<lparr>alarm_mgrs := (alarm_mgrs s)(am \<mapsto> m\<lparr>next_alarm := n\<rparr>)\<rparr>"
  have "m\<lparr>next_alarm := next_alarm m\<rparr> = m" by simp
  then have same: "s\<lparr>alarm_mgrs := (alarm_mgrs s)(am \<mapsto> m\<lparr>next_alarm := next_alarm m\<rparr>)\<rparr> = s"
    using m by (simp add: fun_upd_idem)
  have "alarm_calculate_next_alarm am a s = Some s1"
  proof (cases "xs = [] \<or> tinker_time_lt (time_of s a) (time_of s (next_alarm m))")
    case True
    then show ?thesis
      using m live [of a] nx live [of "next_alarm m"]
      by (auto simp: alarm_calculate_next_alarm_def am_upd_def store_Some s1_def n_def)
  next
    case False
    then show ?thesis
      using m live [of a] nx live [of "next_alarm m"] same
      by (auto simp: alarm_calculate_next_alarm_def s1_def n_def)
  qed
  moreover have "alarm_mgrs s1 am = Some (m\<lparr>next_alarm := n\<rparr>)" "alarm_get_time n s1 = Some (time_of s n)"
    using live [OF n] by (simp_all add: s1_def alarm_get_time_def)
  ultimately show ?thesis
    using live [OF n] by (simp add: alarm_enable_timer_def) (simp add: s1_def)
qed

lemma earliest_add:
  assumes "earliest s n xs"
  shows "earliest s (if xs = [] \<or> tinker_time_lt (time_of s a) (time_of s n) then a else n) (xs @ [a])"
  using assms time_lt_irrefl time_lt_trans [of "time_of s _" "time_of s a" "time_of s n"]
  by (auto simp: earliest_def split: if_splits)

lemma earliest_cong: "earliest s n xs \<Longrightarrow> (\<And>a. a \<in> set xs \<Longrightarrow> time_of s' a = time_of s a) \<Longrightarrow> earliest s' n xs"
  by (auto simp: earliest_def split: if_splits)

definition alarm_added :: "aheap \<Rightarrow> ptr \<Rightarrow> tinker_time_t \<Rightarrow> ptr \<Rightarrow> ptr \<Rightarrow> aheap \<Rightarrow> bool" where
  "alarm_added s am t cb usr s' \<longleftrightarrow>
     (\<exists>a x m. am_items s' am = am_items s am @ [a] \<and> alarms s' a = Some x \<and> alarm_time x = t \<and> call_back x = cb \<and>
        usr_data x = usr \<and> alarm_mgrs s' am = Some m \<and>
        timer_calls s' = timer_calls s @
          (if alarm_timer m \<noteq> NULL then [TIMER_SETUP (alarm_timer m) (time_of s' (next_alarm m)) am] else []))"

lemma alarm_set_spec:
  assumes ok: "am_ok s am" and n: "length (am_items s am) < 256" and now: "am_now s am = Some now"
  shows "\<exists>s'. am_ok s' am \<and>
    (alarm_set_alarm am (Some timeout) cb usr s = Some (OUT_OF_MEMORY, None, s') \<and> am_items s' am = am_items s am \<and>
       timer_calls s' = timer_calls s \<or>
     alarm_set_alarm am (Some timeout) cb usr s = Some (NO_ERROR, Some 0, s') \<and>
       alarm_added s am (tinker_time_add now timeout) cb usr s')"
proof -
  obtain m where wf: "am_wf s am m" and e: "earliest s (next_alarm m) (am_items s am)" using ok by (auto simp: am_ok_def)
  let ?l = "alarm_list m" and ?xs = "am_items s am"
  have am: "am \<noteq> NULL" "alarm_mgrs s am = Some m" "am_pool m \<noteq> NULL" and lh: "lheap_ok (alh s)" "list_live (alh s) ?l"
    and items: "list_items (alh s) ?l = ?xs"
    using wf by (auto simp: am_wf_def am_items_def)
  have now': "time_get_system_time (am_time_manager m) \<lparr>seconds = 0, nanoseconds = 0\<rparr> s = Some now"
    using now am by (simp add: am_now_def)
  have size: "list_size ?l (alh s) = Some (of_nat (length ?xs))" "unat (of_nat (length ?xs) :: u32) = length ?xs"
    using ls.size_law [OF lh] ls.length_law [OF lh] items by (simp_all add: unat_of_nat take_bit_nat_eq_self)
  have room: "of_nat (length ?xs) < MAX_ALARMS" using n size(2) by (simp add: MAX_ALARMS_def word_less_nat_alt)
  have find: "alarm_find_id (length ?xs) 0 ?l (alh s) = Some 0"
    by (rule alarm_find_id_zero [OF lh]) (simp add: items)
  obtain a as where al: "mem_alloc (am_pool m) (alarms s) (al_answers s) = Some (a, as)"
    using mem_alloc_total [OF am(3)] by blast
  note body = alarm_set_alarm_def am now' size room find alarm_create_def al Let_def
  show ?thesis
  proof (cases "a = NULL")
    case True
    let ?s = "s\<lparr>al_answers := as\<rparr>"
    have "am_ok ?s am" "am_items ?s am = ?xs"
      using ok by (simp_all add: am_ok_def am_wf_def am_items_def earliest_def time_of_def cong: if_cong option.case_cong)
    then show ?thesis using True by (intro exI [of _ ?s]) (simp add: body)
  next
    case False
    let ?x = "\<lparr>al_id = 0, call_back = cb, usr_data = usr, alarm_time = tinker_time_add now timeout, al_pool = am_pool m\<rparr>"
    have fresh: "alarms s a = None" using mem_alloc_fresh [OF al False] .
    then have new: "a \<notin> set ?xs" using wf by (auto simp: am_wf_def)
    obtain ok' lh' where add: "list_add ?l a (alh s) = Some (ok', lh')"
      and upd: "seq_upd lheap_ok list_live list_items ?l (alh s) lh' (if ok' then ?xs @ [a] else ?xs)"
      using ls.add_law [OF lh, of a] unfolding items by blast
    define s1 where "s1 = s\<lparr>al_answers := as, alarms := (alarms s)(a \<mapsto> ?x), alh := lh'\<rparr>"
    have it: "am_items s1 am = (if ok' then ?xs @ [a] else ?xs)"
      using upd am by (simp add: am_items_def s1_def seq_upd_def)
    have wf1: "am_wf s1 am m"
      using wf upd it new False am by (auto simp: am_wf_def s1_def seq_upd_def)
    have tm: "time_of s1 b = time_of s b" if "b \<in> set ?xs" for b
      using that new by (auto simp: time_of_def s1_def)
    have e1: "earliest s1 (next_alarm m) ?xs" by (rule earliest_cong [OF e tm])
    show ?thesis
    proof (cases ok')
      case F: False
      have "am_ok s1 am" using wf1 e1 it F by (auto simp: am_ok_def)
      moreover have "alarm_set_alarm am (Some timeout) cb usr s = Some (OUT_OF_MEMORY, None, s1)"
        using False F add by (simp add: body s1_def)
      ultimately show ?thesis using it F by (intro exI [of _ s1]) (simp add: s1_def)
    next
      case T: True
      define n where "n = (if ?xs = [] \<or> tinker_time_lt (time_of s1 a) (time_of s1 (next_alarm m)) then a else next_alarm m)"
      obtain s2 where run: "(do { s \<leftarrow> alarm_calculate_next_alarm am a s1;
              m \<leftarrow> alarm_mgrs s am;
              if next_alarm m \<noteq> NULL then alarm_enable_timer am s else Some s }) = Some s2"
        and s2: "alh s2 = alh s1" "alarms s2 = alarms s1" "time_mgrs s2 = time_mgrs s1"
          "alarm_mgrs s2 = (alarm_mgrs s1)(am \<mapsto> m\<lparr>next_alarm := n\<rparr>)"
          "timer_calls s2 = timer_calls s1 @
             (if alarm_timer m \<noteq> NULL then [TIMER_SETUP (alarm_timer m) (time_of s1 n) am] else [])"
        using alarm_chosen [OF wf1 _ e1, of a] it T unfolding n_def by auto
      have it2: "am_items s2 am = ?xs @ [a]" using it T s2 am by (simp add: am_items_def s1_def)
      have time2: "time_of s2 = time_of s1" using s2 by (simp add: time_of_def fun_eq_iff)
      have "am_wf s2 am (m\<lparr>next_alarm := n\<rparr>)"
        using wf1 it T it2 s2 by (simp add: am_wf_def)
      moreover have "earliest s2 n (?xs @ [a])"
        using earliest_add [OF e1, of a] unfolding n_def [symmetric] by (rule earliest_cong) (simp add: time2)
      ultimately have "am_ok s2 am" using it2 by (auto simp: am_ok_def)
      moreover have "alarm_added s am (tinker_time_add now timeout) cb usr s2"
        unfolding alarm_added_def using it2 s2 am
        by (intro exI [of _ a] exI [of _ ?x] exI [of _ "m\<lparr>next_alarm := n\<rparr>"]) (simp add: time2 s1_def)
      moreover have "alarm_set_alarm am (Some timeout) cb usr s = Some (NO_ERROR, Some 0, s2)"
        using run False T add by (auto simp: body s1_def split: option.splits bind_splits)
      ultimately show ?thesis by blast
    qed
  qed
qed

subsection \<open>Cancelling an alarm\<close>

text \<open>The alarm chosen when the one due next is cancelled: the head of the list, if there is one.\<close>

lemma alarm_rechosen:
  assumes wf: "am_wf s am m" and n: "next_alarm m = NULL"
  defines "n \<equiv> (case am_items s am of [] \<Rightarrow> NULL | b # _ \<Rightarrow> b)"
  shows "\<exists>s'. (do { s \<leftarrow> alarm_calculate_next_alarm am NULL s;
                    m \<leftarrow> alarm_mgrs s am;
                    if next_alarm m \<noteq> NULL then alarm_enable_timer am s else Some s }) = Some s' \<and>
     alh s' = alh s \<and> alarms s' = alarms s \<and> time_mgrs s' = time_mgrs s \<and>
     alarm_mgrs s' = (alarm_mgrs s)(am \<mapsto> m\<lparr>next_alarm := n\<rparr>)"
proof -
  have m: "alarm_mgrs s am = Some m" and lh: "lheap_ok (alh s)" "list_live (alh s) (alarm_list m)"
    using wf by (simp_all add: am_wf_def)
  note it = am_items_eq [OF m]
  show ?thesis
  proof (cases "am_items s am")
    case Nil
    have "m\<lparr>next_alarm := NULL\<rparr> = m" using n by simp
    then have "(alarm_mgrs s)(am \<mapsto> m\<lparr>next_alarm := NULL\<rparr>) = alarm_mgrs s" using m by (simp add: fun_upd_idem)
    moreover have "list_size (alarm_list m) (alh s) = Some 0" using ls.size_law [OF lh] Nil it by simp
    ultimately show ?thesis using m n Nil by (simp add: alarm_calculate_next_alarm_def n_def)
  next
    case (Cons b bs)
    have b: "b \<noteq> NULL" "alarms s b \<noteq> None" using wf Cons by (auto simp: am_wf_def)
    have "list_size (alarm_list m) (alh s) = Some (of_nat (length (b # bs)))"
      using ls.size_law [OF lh] Cons it by simp
    moreover have "(of_nat (length (b # bs)) :: u32) > 0"
      using ls.length_law [OF lh] Cons it by (simp add: word_less_nat_alt unat_of_nat take_bit_nat_eq_self del: of_nat_Suc)
    moreover have "list_get (alarm_list m) 0 (alh s) = Some (Some b)" using lf.front_law [OF lh] Cons it by simp
    ultimately show ?thesis
      using m b Cons
      by (auto simp: alarm_calculate_next_alarm_def am_upd_def store_Some alarm_enable_timer_def alarm_get_time_def n_def)
  qed
qed

lemma alarm_unset_spec:
  assumes wf: "am_wf s am m" and i: "unat i < length (am_items s am)"
  defines "a \<equiv> am_items s am ! unat i"
  shows "\<exists>s' m'. alarm_unset_alarm am i s = Some (NO_ERROR, s') \<and> am_wf s' am m' \<and>
    am_items s' am = remove1 a (am_items s am) \<and> alarms s' = (alarms s)(a := None) \<and>
    next_alarm m' = (if a = next_alarm m
                     then case remove1 a (am_items s am) of [] \<Rightarrow> NULL | b # _ \<Rightarrow> b else next_alarm m)"
proof -
  let ?l = "alarm_list m" and ?xs = "am_items s am"
  have m: "alarm_mgrs s am = Some m" and lh: "lheap_ok (alh s)" "list_live (alh s) ?l"
    and d: "distinct ?xs" using wf by (auto simp: am_wf_def)
  note it = am_items_eq [OF m]
  have a: "a \<in> set ?xs" using i by (simp add: a_def)
  then obtain x where x: "a \<noteq> NULL" "alarms s a = Some x" "al_pool x \<noteq> NULL" using wf by (auto simp: am_wf_def)
  have get: "list_get ?l i (alh s) = Some (Some a)" using list_get_spec [OF list_live_ok [OF lh]] i it by (simp add: a_def)
  obtain lh' where rem: "list_remove_item ?l a (alh s) = Some (True, lh')"
    and upd: "seq_upd lheap_ok list_live list_items ?l (alh s) lh' (remove1 a ?xs)"
    using ls.remove_law [OF lh, of a] a it by auto
  define s1 where "s1 = s\<lparr>alh := lh'\<rparr>"
  have it1: "am_items s1 am = remove1 a ?xs" using upd m by (simp add: am_items_def s1_def seq_upd_def)
  have wf1: "am_wf s1 am m"
    using wf upd it1 set_remove1_subset [of a ?xs] by (auto simp: am_wf_def s1_def seq_upd_def)
  have final: "\<exists>s3. alarm_delete a s2 = Some s3 \<and> am_wf s3 am m' \<and> am_items s3 am = remove1 a ?xs \<and>
      alarms s3 = (alarms s)(a := None)"
    if s2: "alh s2 = lh'" "alarms s2 = alarms s" "time_mgrs s2 = time_mgrs s" "alarm_mgrs s2 am = Some m'"
      and m': "alarm_list m' = ?l" "am_pool m' = am_pool m" "am_time_manager m' = am_time_manager m" for s2 m'
  proof -
    let ?s = "s2\<lparr>alarms := (alarms s)(a := None)\<rparr>"
    have it3: "am_items ?s am = remove1 a ?xs" using it1 s2 m' m by (simp add: am_items_def s1_def)
    have "a \<notin> set (remove1 a ?xs)" using d by simp
    then have "am_wf ?s am m'"
      using wf1 it1 it3 s2 m' by (auto simp: am_wf_def s1_def)
    moreover have "alarm_delete a s2 = Some ?s" using x s2 by (simp add: alarm_delete_def mem_free_Some)
    ultimately show ?thesis using it3 by auto
  qed
  show ?thesis
  proof (cases "a = next_alarm m")
    case False
    from final [of s1 m] obtain s3 where "alarm_delete a s1 = Some s3" "am_wf s3 am m"
        "am_items s3 am = remove1 a ?xs" "alarms s3 = (alarms s)(a := None)" using m by (auto simp: s1_def)
    then show ?thesis using m get x(1) rem False by (simp add: alarm_unset_alarm_def s1_def) blast
  next
    case True
    define s2 where "s2 = s1\<lparr>timer_calls := (if alarm_timer m \<noteq> NULL then timer_calls s @ [TIMER_CANCEL (alarm_timer m)]
        else timer_calls s), alarm_mgrs := (alarm_mgrs s)(am \<mapsto> m\<lparr>next_alarm := NULL\<rparr>)\<rparr>"
    have "am_items s2 am = remove1 a ?xs" using it1 m by (simp add: am_items_def s2_def s1_def)
    moreover then have "am_wf s2 am (m\<lparr>next_alarm := NULL\<rparr>)" using wf1 it1 by (simp add: am_wf_def s2_def s1_def)
    ultimately obtain s3 where run: "(do { s \<leftarrow> alarm_calculate_next_alarm am NULL s2;
                    m \<leftarrow> alarm_mgrs s am;
                    if next_alarm m \<noteq> NULL then alarm_enable_timer am s else Some s }) = Some s3"
      and s3: "alh s3 = alh s2" "alarms s3 = alarms s2" "time_mgrs s3 = time_mgrs s2"
        "alarm_mgrs s3 am = Some (m\<lparr>next_alarm := (case remove1 a ?xs of [] \<Rightarrow> NULL | b # _ \<Rightarrow> b)\<rparr>)"
      using alarm_rechosen [of s2 am "m\<lparr>next_alarm := NULL\<rparr>"] by auto
    have "alh s3 = lh'" "alarms s3 = alarms s" "time_mgrs s3 = time_mgrs s" using s3 by (simp_all add: s2_def s1_def)
    from final [OF this s3(4)] obtain s4 where "alarm_delete a s3 = Some s4"
        "am_wf s4 am (m\<lparr>next_alarm := (case remove1 a ?xs of [] \<Rightarrow> NULL | b # _ \<Rightarrow> b)\<rparr>)"
        "am_items s4 am = remove1 a ?xs" "alarms s4 = (alarms s)(a := None)" by auto
    moreover have "alarm_unset_alarm am i s = do { s \<leftarrow> Some s3; s \<leftarrow> alarm_delete a s; Some (NO_ERROR, s) }"
      unfolding run [symmetric] using m get x(1) rem True
      by (simp add: alarm_unset_alarm_def alarm_disable_timer_def am_upd_def store_Some s2_def s1_def)
    ultimately show ?thesis using True by auto
  qed
qed

subsection \<open>Properties\<close>

text \<open>An example: three alarms at 5, 2 and 3 seconds, the second one due next, at the time 1 second.\<close>

definition demo_alarm :: "u32 \<Rightarrow> alarm_t" where
  "demo_alarm t = \<lparr>al_id = 0, call_back = 7, usr_data = 8, alarm_time = \<lparr>seconds = t, nanoseconds = 0\<rparr>, al_pool = 9\<rparr>"

definition demo_am :: alarm_manager_t where
  "demo_am = \<lparr>alarm_list = 1, next_alarm = 101, alarm_timer = 5, am_pool = 9, am_time_manager = 3\<rparr>"

definition demo_alarms :: aheap where
  "demo_alarms = \<lparr>alh = lheap3, alarms = [100 \<mapsto> demo_alarm 5, 101 \<mapsto> demo_alarm 2, 102 \<mapsto> demo_alarm 3],
     alarm_mgrs = [2 \<mapsto> demo_am], time_mgrs = [3 \<mapsto> \<lparr>time_system_clock = 4\<rparr>], clock_ns = 1000000000,
     timer_calls = [], al_answers = [103]\<rparr>"

lemma demo_alarms_view:
  "am_wf demo_alarms 2 demo_am" "am_items demo_alarms 2 = [100, 101, 102]" "am_ok demo_alarms 2"
  "am_now demo_alarms 2 = Some \<lparr>seconds = 1, nanoseconds = 0\<rparr>"
proof -
  show items: "am_items demo_alarms 2 = [100, 101, 102]"
    by (simp add: am_items_def demo_alarms_def demo_am_def lheap3_view)
  then show wf: "am_wf demo_alarms 2 demo_am"
    by (simp add: am_wf_def, simp add: demo_alarms_def demo_am_def demo_alarm_def list_live_def lheap3_view)
  show "am_ok demo_alarms 2"
    unfolding am_ok_def using items wf
    by (intro exI [of _ demo_am])
      (simp add: earliest_def time_of_def tinker_time_lt_def demo_alarms_def demo_am_def demo_alarm_def)
  show "am_now demo_alarms 2 = Some \<lparr>seconds = 1, nanoseconds = 0\<rparr>"
    by (simp add: am_now_def time_get_system_time_def demo_alarms_def demo_am_def ONE_SECOND_AS_NANOSECONDS_def)
qed



text \<open>
  Cancelling removes the alarm at the position given as the identifier.  When it was the one
  due next, the head of the list is taken as the next alarm, whatever its time: an earlier alarm
  behind it is late.
\<close>

lemma alarm_unset_alarm_head:
  assumes "am_wf s am m" "unat i < length (am_items s am)"
  shows "\<exists>s' m'. alarm_unset_alarm am i s = Some (NO_ERROR, s') \<and> am_wf s' am m' \<and>
    am_items s' am = remove1 (am_items s am ! unat i) (am_items s am) \<and>
    alarms s' = (alarms s)(am_items s am ! unat i := None) \<and>
    next_alarm m' = (if am_items s am ! unat i = next_alarm m
                     then case remove1 (am_items s am ! unat i) (am_items s am) of [] \<Rightarrow> NULL | b # _ \<Rightarrow> b
                     else next_alarm m)"
  by (rule alarm_unset_spec [OF assms])

end
