(* ===== verification/Object_Table.thy ===== *)
theory Object_Table
  imports Map_Contract
begin

section \<open>Objects and object tables (\<open>object.c\<close>, \<open>object_table.c\<close>)\<close>

text \<open>
  Every kernel object starts with a header, its number and its type.  A struct and its first
  member have the same address, so the header of an object and the part that is particular to
  its type are found in two heaps at the same address.  The block of an object is in the heap of headers
  from its allocation on, with the type \<open>UNKNOWN_OBJ\<close> until it is initialised.  An object table
  maps numbers to objects; the key of a number is its two bytes.
\<close>

subsection \<open>State\<close>

datatype object_type_t =
    UNKNOWN_OBJ | OBJECT | PROCESS_OBJ | THREAD_OBJ | PIPE_OBJ | SEMAPHORE_OBJ | SHARED_MEMORY_OBJ | TIMER_OBJ

type_synonym object_number_t = u16

record object_t =
  object_number :: object_number_t
  obj_type :: object_type_t

record object_table_t =
  ot_pool :: ptr
  the_map :: ptr
  next_id :: object_number_t

record oheap =
  mh :: mheap
  objs :: "object_t pheap"
  tables :: "object_table_t pheap"
  o_answers :: "ptr list"

subsection \<open>Headers\<close>

text \<open>Allocation and release of the block of an object.\<close>

definition obj_alloc :: "ptr \<Rightarrow> oheap \<Rightarrow> (ptr \<times> oheap) option" where
  "obj_alloc pool s = do {
     (o', as) \<leftarrow> mem_alloc pool (objs s) (o_answers s);
     let s = s\<lparr>o_answers := as\<rparr>;
     Some (o', if o' \<noteq> NULL then s\<lparr>objs := (objs s)(o' \<mapsto> \<lparr>object_number = 0, obj_type = UNKNOWN_OBJ\<rparr>)\<rparr> else s)
   }"

definition obj_free :: "ptr \<Rightarrow> ptr \<Rightarrow> oheap \<Rightarrow> oheap option" where
  "obj_free pool o' s = do { h \<leftarrow> mem_free pool o' (objs s); Some (s\<lparr>objs := h\<rparr>) }"

definition obj_initialise_object :: "ptr \<Rightarrow> object_number_t \<Rightarrow> object_type_t \<Rightarrow> oheap \<Rightarrow> oheap option" where
  "obj_initialise_object o' ident type s = do {
     h \<leftarrow> store o' (\<lambda>_. \<lparr>object_number = ident, obj_type = type\<rparr>) (objs s);
     Some (s\<lparr>objs := h\<rparr>)
   }"

definition obj_get_type :: "ptr \<Rightarrow> oheap \<Rightarrow> object_type_t option" where
  "obj_get_type o' s = (if o' = NULL then Some UNKNOWN_OBJ else map_option obj_type (objs s o'))"

definition obj_get_number :: "ptr \<Rightarrow> oheap \<Rightarrow> u32 option" where
  "obj_get_number o' s = (if o' = NULL then Some 0 else map_option (\<lambda>x. ucast (object_number x)) (objs s o'))"

text \<open>The casts of the object types: the object if it has the type, and null otherwise.\<close>

definition obj_cast :: "object_type_t \<Rightarrow> ptr \<Rightarrow> oheap \<Rightarrow> ptr option" where
  "obj_cast type o' s =
     (if o' = NULL then Some NULL else do { x \<leftarrow> objs s o'; Some (if obj_type x = type then o' else NULL) })"

text \<open>The object numbers of the object types; \<open>INVALID_OBJECT_ID\<close> for null.\<close>

definition INVALID_OBJECT_ID :: object_number_t where "INVALID_OBJECT_ID = - 1"

definition obj_oid :: "ptr \<Rightarrow> oheap \<Rightarrow> object_number_t option" where
  "obj_oid o' s = (if o' = NULL then Some INVALID_OBJECT_ID else map_option object_number (objs s o'))"

subsection \<open>Tables\<close>

text \<open>
  \<open>obj_initialse_table\<close> leaves the next number unwritten when the map cannot be created; such a
  table has no map, and every operation on it that would read the number faults.
\<close>

definition obj_key :: "object_number_t \<Rightarrow> u8 list" where
  "obj_key i = [ucast i, ucast (drop_bit 8 i)]"

definition obj_initialse_table :: "ptr \<Rightarrow> ptr \<Rightarrow> oheap \<Rightarrow> (return_t \<times> oheap) option" where
  "obj_initialse_table table pool s =
     (if table = NULL then Some (NO_ERROR, s)
      else do {
        (m, h) \<leftarrow> map_create hash_basic_integer pool 2 (mh s);
        Some (if m \<noteq> NULL then NO_ERROR else OUT_OF_MEMORY,
              s\<lparr>mh := h, tables := (tables s)(table \<mapsto> \<lparr>ot_pool = pool, the_map = m, next_id = 1\<rparr>)\<rparr>)
      })"

definition obj_table_create :: "ptr \<Rightarrow> oheap \<Rightarrow> (ptr \<times> oheap) option" where
  "obj_table_create pool s = do {
     (table, as) \<leftarrow> mem_alloc pool (tables s) (o_answers s);
     let s = s\<lparr>o_answers := as\<rparr>;
     if table \<noteq> NULL then do { (_, s) \<leftarrow> obj_initialse_table table pool s; Some (table, s) }
     else Some (table, s)
   }"

definition obj_table_delete :: "ptr \<Rightarrow> oheap \<Rightarrow> oheap option" where
  "obj_table_delete table s = do {
     _ \<leftarrow> kernel_assert (table \<noteq> NULL);
     t \<leftarrow> tables s table;
     h \<leftarrow> map_delete (the_map t) (mh s);
     ts \<leftarrow> mem_free (ot_pool t) table (tables s);
     Some (s\<lparr>mh := h, tables := ts\<rparr>)
   }"

lemma obj_find_id_next:
  assumes "ucast (i :: object_number_t) \<noteq> MAP_CAPACITY"
  shows "unat (i + 1) = Suc (unat i)"
proof (cases "i = - 1")
  case True
  then have "ucast i = MAP_CAPACITY" by (simp add: MAP_CAPACITY_def unsigned_minus_1_eq_mask mask_eq_exp_minus_1)
  with assms show ?thesis by simp
next
  case False
  then have "i < - 1" using word_order.not_eq_extremum by fastforce
  then show ?thesis by (rule unat_inc)
qed

text \<open>The search for a free number: up to the capacity of the map, from the next number on.\<close>

function obj_find_id :: "object_number_t \<Rightarrow> ptr \<Rightarrow> mheap \<Rightarrow> object_number_t option option" where
  "obj_find_id i m h =
     (if ucast i = MAP_CAPACITY then Some None
      else do {
        c \<leftarrow> map_contains_key m (obj_key i) h;
        if \<not> c then Some (Some i) else obj_find_id (i + 1) m h
      })"
  by pat_completeness auto

termination
proof (relation "measure (\<lambda>(i, _). 2 ^ 16 - unat i)")
  fix i :: object_number_t and m :: ptr and h :: mheap and c
  assume "ucast i \<noteq> MAP_CAPACITY"
  then have "unat (i + 1) = Suc (unat i)" by (rule obj_find_id_next)
  moreover have "unat i < 2 ^ 16" using unsigned_less [of i, where 'a = nat] by simp
  ultimately show "((i + 1, m, h), i, m, h) \<in> measure (\<lambda>(i, _). 2 ^ 16 - unat i)" by simp
qed simp

definition obj_add_object :: "ptr \<Rightarrow> ptr \<Rightarrow> oheap \<Rightarrow> (return_t \<times> object_number_t option \<times> oheap) option" where
  "obj_add_object t obj s =
     (if t \<noteq> NULL \<and> obj \<noteq> NULL then do {
        x \<leftarrow> tables s t;
        r \<leftarrow> obj_find_id (next_id x) (the_map x) (mh s);
        case r of
          None \<Rightarrow> Some (OBJECT_TABLE_FULL, None, s)
        | Some i \<Rightarrow> do {
            (ok, h) \<leftarrow> map_put (the_map x) (obj_key i) obj (mh s);
            let s = s\<lparr>mh := h\<rparr>;
            if \<not> ok then Some (OBJECT_ADD_FAILED, None, s)
            else Some (NO_ERROR, Some i, s\<lparr>tables := (tables s)(t \<mapsto> x\<lparr>next_id := i + 1\<rparr>)\<rparr>)
          }
      }
      else Some (PARAMETERS_INVALID, None, s))"

definition obj_remove_object :: "ptr \<Rightarrow> object_number_t \<Rightarrow> oheap \<Rightarrow> (return_t \<times> oheap) option" where
  "obj_remove_object t objno s =
     (if t = NULL then Some (NO_ERROR, s)
      else do {
        x \<leftarrow> tables s t;
        c \<leftarrow> map_contains_key (the_map x) (obj_key objno) (mh s);
        if c then do {
          (ok, h) \<leftarrow> map_remove (the_map x) (obj_key objno) (mh s);
          Some (if ok then NO_ERROR else OBJECT_NOT_REMOVED_FROM_REGISTRY, s\<lparr>mh := h\<rparr>)
        }
        else Some (INVALID_OBJECT, s)
      })"

definition obj_get_object :: "ptr \<Rightarrow> object_number_t \<Rightarrow> oheap \<Rightarrow> ptr option" where
  "obj_get_object t oid s =
     (if t = NULL then Some NULL
      else do {
        x \<leftarrow> tables s t;
        r \<leftarrow> map_get (the_map x) (obj_key oid) (mh s);
        Some (case r of None \<Rightarrow> NULL | Some o' \<Rightarrow> o')
      })"

definition obj_iterator :: "ptr \<Rightarrow> oheap \<Rightarrow> (ptr \<times> oheap) option" where
  "obj_iterator t s = do {
     x \<leftarrow> tables s t;
     (it, h) \<leftarrow> map_it_create (the_map x) (mh s);
     Some (it, s\<lparr>mh := h\<rparr>)
   }"

end
