(* ===== verification/Object_Props.thy ===== *)
theory Object_Props
  imports Object_Table Map_Props
begin

section \<open>Object tables: properties\<close>

text \<open>
  \<open>obj_at s t\<close> is the contents of a table as a map from numbers to objects; \<open>table_ok\<close> says that
  the table's map is well formed and has keys of two bytes.
\<close>

subsection \<open>Contents of a table\<close>

definition table_ok :: "oheap \<Rightarrow> ptr \<Rightarrow> bool" where
  "table_ok s t \<longleftrightarrow> t \<noteq> NULL \<and> mheap_ok (mh s) \<and>
     (\<exists>x. tables s t = Some x \<and> (\<forall>i. map_key_ok (the_map x) (mh s) (obj_key i)))"

definition obj_at :: "oheap \<Rightarrow> ptr \<Rightarrow> object_number_t \<Rightarrow> ptr option" where
  "obj_at s t i = (case tables s t of None \<Rightarrow> None | Some x \<Rightarrow> map_view (the_map x) (mh s) (obj_key i))"

lemma obj_key_inj: "obj_key i = obj_key j \<longleftrightarrow> i = j"
proof
  assume k: "obj_key i = obj_key j"
  have "bit i n = bit j n" for n
  proof -
    have "bit (ucast i :: u8) n = bit (ucast j :: u8) n" "bit (ucast (drop_bit 8 i) :: u8) (n - 8) = bit (ucast (drop_bit 8 j) :: u8) (n - 8)"
      using k by (simp_all add: obj_key_def)
    moreover have "bit i n \<Longrightarrow> n < 16" "bit j n \<Longrightarrow> n < 16"
      using bit_imp_le_length [of i n] bit_imp_le_length [of j n] by simp_all
    ultimately show ?thesis by (cases "n < 8") (auto simp: bit_simps)
  qed
  then show "i = j" by (simp add: bit_eq_iff)
qed simp

lemma contains_view:
  assumes "mheap_ok h" "map_key_ok m h k"
  shows "map_contains_key m k h = Some (map_view m h k \<noteq> None)"
proof -
  obtain mp where "maps h m = Some mp" using assms(2) by (auto simp: map_key_ok_def)
  then have "m \<noteq> NULL" using assms(1) unfolding mheap_ok_def by blast
  then show ?thesis using map_contains_key_get [of m k h] hm.get_view [OF assms] by simp
qed

lemma get_object_at:
  assumes "table_ok s t"
  shows "obj_get_object t i s = Some (case obj_at s t i of None \<Rightarrow> NULL | Some p \<Rightarrow> p)"
proof -
  obtain x where x: "t \<noteq> NULL" "mheap_ok (mh s)" "tables s t = Some x" "map_key_ok (the_map x) (mh s) (obj_key i)"
    using assms by (auto simp: table_ok_def)
  then show ?thesis using hm.get_view [OF x(2,4)] by (simp add: obj_get_object_def obj_at_def)
qed

lemma capacity_iff: "ucast (i :: object_number_t) = MAP_CAPACITY \<longleftrightarrow> unat i = 65535"
proof -
  have "unat i < 2 ^ 32" using unsigned_less [of i, where 'a = nat] by simp
  then have "unat (ucast i :: u32) = unat i" by (simp add: unsigned_ucast_eq take_bit_nat_eq_self)
  then show ?thesis by (simp add: MAP_CAPACITY_def word_unat_eq_iff)
qed

declare obj_find_id.simps [simp del]

lemma find_id_step:
  assumes "mheap_ok h" "\<forall>i. map_key_ok m h (obj_key i)"
  shows "obj_find_id i m h =
     (if unat i = 65535 then Some None
      else if map_view m h (obj_key i) = None then Some (Some i) else obj_find_id (i + 1) m h)"
  using assms by (subst obj_find_id.simps) (simp add: capacity_iff contains_view)

lemma find_id_first:
  assumes h: "mheap_ok h" "\<forall>i. map_key_ok m h (obj_key i)"
    and "unat i \<le> unat j" "unat j < 65535" "map_view m h (obj_key j) = None"
    and "\<And>k. unat i \<le> unat k \<Longrightarrow> unat k < unat j \<Longrightarrow> map_view m h (obj_key k) \<noteq> None"
  shows "obj_find_id i m h = Some (Some j)"
  using assms(3-6)
proof (induction "unat j - unat i" arbitrary: i)
  case 0
  then have "i = j" by (simp add: word_unat_eq_iff)
  then show ?case using 0 by (subst find_id_step [OF h]) simp
next
  case (Suc n)
  then have i: "unat (i + 1) = Suc (unat i)" by (intro obj_find_id_next) (simp add: capacity_iff)
  have "unat i < unat j" using Suc.hyps(2) by simp
  then obtain v where "map_view m h (obj_key i) = Some v" using Suc.prems(4) [of i] by auto
  moreover have "obj_find_id (i + 1) m h = Some (Some j)" using Suc i by (intro Suc.hyps(1)) simp_all
  ultimately show ?case using Suc by (subst find_id_step [OF h]) simp
qed

lemma find_id_none:
  assumes h: "mheap_ok h" "\<forall>i. map_key_ok m h (obj_key i)"
    and "\<And>k. unat i \<le> unat k \<Longrightarrow> unat k < 65535 \<Longrightarrow> map_view m h (obj_key k) \<noteq> None"
  shows "obj_find_id i m h = Some None"
  using assms(3)
proof (induction "65535 - unat i" arbitrary: i)
  case 0
  then have "unat i = 65535" using unsigned_less [of i, where 'a = nat] by simp
  then show ?case by (subst find_id_step [OF h]) simp
next
  case (Suc n)
  then have i: "unat (i + 1) = Suc (unat i)" by (intro obj_find_id_next) (simp add: capacity_iff)
  have "unat i < 65535" using Suc.hyps(2) by simp
  then obtain v where "map_view m h (obj_key i) = Some v" using Suc.prems [of i] by auto
  moreover have "obj_find_id (i + 1) m h = Some None" using Suc i by (intro Suc.hyps(1)) simp_all
  ultimately show ?case using Suc by (subst find_id_step [OF h]) simp
qed

lemma add_object_stores:
  assumes t: "table_ok s t" "tables s t = Some x" and obj: "obj \<noteq> NULL"
    and i: "unat (next_id x) \<le> unat i" "unat i < 65535" "obj_at s t i = None"
      "\<And>k. unat (next_id x) \<le> unat k \<Longrightarrow> unat k < unat i \<Longrightarrow> obj_at s t k \<noteq> None"
    and room: "map_room (the_map x) (obj_key i) (mh s)"
  shows "\<exists>s'. obj_add_object t obj s = Some (NO_ERROR, Some i, s') \<and> table_ok s' t \<and> obj_at s' t = (obj_at s t)(i \<mapsto> obj) \<and>
    tables s' t = Some (x\<lparr>next_id := i + 1\<rparr>)"
proof -
  let ?m = "the_map x"
  have h: "mheap_ok (mh s)" "\<forall>i. map_key_ok ?m (mh s) (obj_key i)" and tn: "t \<noteq> NULL"
    using t by (auto simp: table_ok_def)
  have view: "obj_at s t j = map_view ?m (mh s) (obj_key j)" for j using t by (simp add: obj_at_def)
  have find: "obj_find_id (next_id x) ?m (mh s) = Some (Some i)"
    by (rule find_id_first [OF h]) (use i in \<open>simp_all add: view\<close>)
  obtain mp where mp: "maps (mh s) ?m = Some mp" "length (obj_key i) = unat (m_key_size mp)"
    using h(2) by (auto simp: map_key_ok_def)
  obtain h' where put: "map_put ?m (obj_key i) obj (mh s) = Some (True, h')"
    and h': "map_becomes ?m (mh s) h' ((map_view ?m (mh s))(obj_key i \<mapsto> obj))"
    using h(1) mp room by (cases rule: map_put_cases [where v = obj]) auto
  define s' where "s' = s\<lparr>mh := h', tables := (tables s)(t \<mapsto> x\<lparr>next_id := i + 1\<rparr>)\<rparr>"
  have "obj_add_object t obj s = Some (NO_ERROR, Some i, s')"
    using tn obj t(2) find put by (simp add: obj_add_object_def s'_def)
  moreover have "table_ok s' t"
    using tn h h' by (simp add: table_ok_def s'_def map_becomes_def)
  moreover have "obj_at s' t = (obj_at s t)(i \<mapsto> obj)"
  proof
    fix j
    show "obj_at s' t j = ((obj_at s t)(i \<mapsto> obj)) j"
      using h' by (simp add: view) (simp add: obj_at_def s'_def map_becomes_def obj_key_inj)
  qed
  ultimately show ?thesis by (auto simp: s'_def)
qed

lemma add_object_full:
  assumes t: "table_ok s t" "tables s t = Some x" and obj: "obj \<noteq> NULL"
    and full: "\<And>k. unat (next_id x) \<le> unat k \<Longrightarrow> unat k < 65535 \<Longrightarrow> obj_at s t k \<noteq> None"
  shows "obj_add_object t obj s = Some (OBJECT_TABLE_FULL, None, s)"
proof -
  have h: "mheap_ok (mh s)" "\<forall>i. map_key_ok (the_map x) (mh s) (obj_key i)" and tn: "t \<noteq> NULL"
    using t by (auto simp: table_ok_def)
  have "obj_find_id (next_id x) (the_map x) (mh s) = Some None"
    by (rule find_id_none [OF h]) (use full t(2) in \<open>auto simp: obj_at_def\<close>)
  then show ?thesis using tn obj t(2) by (simp add: obj_add_object_def)
qed

subsection \<open>Properties\<close>

text \<open>An example: a table with the empty map, whose next number is 1.\<close>

definition demo_table :: oheap where
  "demo_table = \<lparr>mh = demo_map, objs = Map.empty, tables = [2 \<mapsto> \<lparr>ot_pool = 1, the_map = 4, next_id = 1\<rparr>], o_answers = []\<rparr>"

text \<open>
  C20: adding an object uses the least free number from the next number on.  With room for the
  key the object is found under this number afterwards, every other number has the object it
  had, and the next number is one more.  Numbers below the next number are never searched: when none is
  left above it the table is full, however few objects it holds.
\<close>

theorem obj_add_object_numbers:
  assumes "table_ok s t" "tables s t = Some x" "obj \<noteq> NULL"
  shows "(unat (next_id x) \<le> unat i \<and> unat i < 65535 \<and> obj_at s t i = None \<and>
      (\<forall>k. unat (next_id x) \<le> unat k \<and> unat k < unat i \<longrightarrow> obj_at s t k \<noteq> None) \<and>
      map_room (the_map x) (obj_key i) (mh s) \<longrightarrow>
      (\<exists>s'. obj_add_object t obj s = Some (NO_ERROR, Some i, s') \<and> table_ok s' t \<and>
         tables s' t = Some (x\<lparr>next_id := i + 1\<rparr>) \<and>
         (\<forall>j. obj_get_object t j s' = (if j = i then Some obj else obj_get_object t j s)))) \<and>
    ((\<forall>k. unat (next_id x) \<le> unat k \<and> unat k < 65535 \<longrightarrow> obj_at s t k \<noteq> None) \<longrightarrow>
      obj_add_object t obj s = Some (OBJECT_TABLE_FULL, None, s))"
proof (intro conjI impI)
  assume i: "unat (next_id x) \<le> unat i \<and> unat i < 65535 \<and> obj_at s t i = None \<and>
      (\<forall>k. unat (next_id x) \<le> unat k \<and> unat k < unat i \<longrightarrow> obj_at s t k \<noteq> None) \<and>
      map_room (the_map x) (obj_key i) (mh s)"
  have "\<exists>s'. obj_add_object t obj s = Some (NO_ERROR, Some i, s') \<and> table_ok s' t \<and> obj_at s' t = (obj_at s t)(i \<mapsto> obj) \<and>
      tables s' t = Some (x\<lparr>next_id := i + 1\<rparr>)"
    by (rule add_object_stores [OF assms]) (use i in simp_all)
  then obtain s' where s': "obj_add_object t obj s = Some (NO_ERROR, Some i, s')" "table_ok s' t"
      "obj_at s' t = (obj_at s t)(i \<mapsto> obj)" "tables s' t = Some (x\<lparr>next_id := i + 1\<rparr>)" by blast
  then show "\<exists>s'. obj_add_object t obj s = Some (NO_ERROR, Some i, s') \<and> table_ok s' t \<and>
         tables s' t = Some (x\<lparr>next_id := i + 1\<rparr>) \<and>
         (\<forall>j. obj_get_object t j s' = (if j = i then Some obj else obj_get_object t j s))"
    using get_object_at [OF assms(1)] by (intro exI [of _ s']) (simp add: get_object_at)
next
  assume "\<forall>k. unat (next_id x) \<le> unat k \<and> unat k < 65535 \<longrightarrow> obj_at s t k \<noteq> None"
  then show "obj_add_object t obj s = Some (OBJECT_TABLE_FULL, None, s)"
    by (intro add_object_full [OF assms]) blast
qed

theorem obj_add_object_numbers_witness:
  "(\<exists>s'. obj_add_object 2 99 demo_table = Some (NO_ERROR, Some 1, s') \<and> obj_get_object 2 1 s' = Some 99) \<and>
   obj_add_object 2 99 (demo_table\<lparr>tables := [2 \<mapsto> \<lparr>ot_pool = 1, the_map = 4, next_id = 65535\<rparr>]\<rparr>) =
     Some (OBJECT_TABLE_FULL, None, demo_table\<lparr>tables := [2 \<mapsto> \<lparr>ot_pool = 1, the_map = 4, next_id = 65535\<rparr>]\<rparr>)"
proof -
  let ?x = "\<lparr>ot_pool = 1, the_map = 4, next_id = 1\<rparr>" and ?y = "\<lparr>ot_pool = 1, the_map = 4, next_id = 65535\<rparr>"
  let ?full = "demo_table\<lparr>tables := [2 \<mapsto> ?y]\<rparr>"
  have ok: "table_ok demo_table 2" "table_ok ?full 2"
    by (simp_all add: table_ok_def demo_table_def demo_map_ok obj_key_def)
  have "obj_key 1 = [1, 0]" by (simp add: obj_key_def)
  then have r: "map_room (the_map ?x) (obj_key 1) (mh demo_table)" "obj_at demo_table 2 1 = None"
    using demo_map_room by (simp_all add: demo_table_def obj_at_def demo_map_ok)
  have "\<exists>s'. obj_add_object 2 99 demo_table = Some (NO_ERROR, Some 1, s') \<and> obj_get_object 2 1 s' = Some 99"
    using obj_add_object_numbers [OF ok(1), of ?x 99 1] r by (auto simp: demo_table_def)
  moreover have "obj_add_object 2 99 ?full = Some (OBJECT_TABLE_FULL, None, ?full)"
    using obj_add_object_numbers [OF ok(2), of ?y 99 0] by auto
  ultimately show ?thesis ..
qed

end
