(* ===== verification/Kernel_State.thy ===== *)
theory Kernel_State
  imports Scheduler Arm_Mmu Alarm Object_Table
begin

section \<open>Kernel state, process descriptors and threads (\<open>process.c\<close>, \<open>thread.c\<close>, \<open>arm.c\<close>)\<close>

text \<open>
  The state of the objects puts the states of the components together: the scheduler with its
  threads and processes, the alarms, the object tables, the page tables and sections, and the
  heap of thread objects.  The components above (registry, semaphores, pipes) extend the record
  with heaps of their own, and the operations defined here work on every extension.
  \<open>blocks\<close> are blocks of plain memory, such as stacks, with their sizes; their contents are not
  modelled.
\<close>

subsection \<open>State\<close>

record object_thread_t =
  tid :: u32
  ot_thread :: ptr
  priority_inheritance :: u8
  original_priority :: u8
  oth_pool :: ptr
  alarm_id :: u32
  oth_scheduler :: ptr
  oth_alarm_manager :: ptr

record kern =
  ks :: kst
  ah :: aheap
  oh :: oheap
  vm :: vheap
  blocks :: "u32 pheap"
  b_answers :: "ptr list"
  thread_objs :: "object_thread_t pheap"

text \<open>Running an operation of a component in this state.\<close>

definition on_ks :: "(kst \<Rightarrow> kst option) \<Rightarrow> 'z kern_scheme \<Rightarrow> 'z kern_scheme option" where
  "on_ks f s = do { k \<leftarrow> f (ks s); Some (s\<lparr>ks := k\<rparr>) }"

definition on_oh :: "(oheap \<Rightarrow> ('a \<times> oheap) option) \<Rightarrow> 'z kern_scheme \<Rightarrow> ('a \<times> 'z kern_scheme) option" where
  "on_oh f s = do { (r, h) \<leftarrow> f (oh s); Some (r, s\<lparr>oh := h\<rparr>) }"

definition on_ah :: "(aheap \<Rightarrow> ('a \<times> aheap) option) \<Rightarrow> 'z kern_scheme \<Rightarrow> ('a \<times> 'z kern_scheme) option" where
  "on_ah f s = do { (r, h) \<leftarrow> f (ah s); Some (r, s\<lparr>ah := h\<rparr>) }"

definition on_vm :: "(vheap \<Rightarrow> ('a \<times> vheap) option) \<Rightarrow> 'z kern_scheme \<Rightarrow> ('a \<times> 'z kern_scheme) option" where
  "on_vm f s = do { (r, h) \<leftarrow> f (vm s); Some (r, s\<lparr>vm := h\<rparr>) }"

subsection \<open>Fields of a process\<close>

definition process_field :: "ptr \<Rightarrow> 'a \<Rightarrow> (process_t \<Rightarrow> 'a) \<Rightarrow> kst \<Rightarrow> 'a option" where
  "process_field p none f s = (if p = NULL then Some none else do { x \<leftarrow> processes s p; Some (f x) })"

definition process_update :: "ptr \<Rightarrow> (process_t \<Rightarrow> process_t) \<Rightarrow> kst \<Rightarrow> kst option" where
  "process_update p f s = do { h \<leftarrow> store p f (processes s); Some (s\<lparr>processes := h\<rparr>) }"

definition process_get_pid :: "ptr \<Rightarrow> kst \<Rightarrow> u32 option" where
  "process_get_pid p = process_field p 0 process_id"

definition process_get_image :: "ptr \<Rightarrow> kst \<Rightarrow> u8 list option option" where
  "process_get_image p = process_field p None (\<lambda>x. Some (p_image x))"

text \<open>\<open>process_get_oid\<close> reads through the pointer without a test.\<close>

definition process_get_oid :: "ptr \<Rightarrow> kst \<Rightarrow> object_number_t option" where
  "process_get_oid p s = map_option p_object_number (processes s p)"

definition process_set_oid :: "ptr \<Rightarrow> object_number_t \<Rightarrow> kst \<Rightarrow> kst option" where
  "process_set_oid p oid s = do {
     _ \<leftarrow> kernel_assert (p \<noteq> NULL);
     process_update p (\<lambda>x. x\<lparr>p_object_number := oid\<rparr>) s
   }"

definition process_is_kernel :: "ptr \<Rightarrow> kst \<Rightarrow> bool option" where
  "process_is_kernel p = process_field p False kernel_process"

definition process_get_mem_pool :: "ptr \<Rightarrow> kst \<Rightarrow> ptr option" where
  "process_get_mem_pool p = process_field p NULL private_pool"

definition process_get_user_mem_pool :: "ptr \<Rightarrow> kst \<Rightarrow> ptr option" where
  "process_get_user_mem_pool p = process_field p NULL memory_pool"

definition process_get_object_table :: "ptr \<Rightarrow> kst \<Rightarrow> ptr option" where
  "process_get_object_table p = process_field p NULL p_object_table"

definition process_get_main_thread :: "ptr \<Rightarrow> kst \<Rightarrow> ptr option" where
  "process_get_main_thread p = process_field p NULL initial_thread"

definition process_get_first_section :: "ptr \<Rightarrow> kst \<Rightarrow> ptr option" where
  "process_get_first_section p = process_field p NULL first_section"

definition MAX_THREADS :: nat where "MAX_THREADS = 1024"

definition at :: "'a list \<Rightarrow> nat \<Rightarrow> 'a option" where
  "at xs i = (if i < length xs then Some (xs ! i) else None)"

definition thread_by_index :: "ptr \<Rightarrow> u32 \<Rightarrow> kst \<Rightarrow> ptr option" where
  "thread_by_index p index s =
     (if p \<noteq> NULL \<and> unat index < MAX_THREADS then do { x \<leftarrow> processes s p; at (p_threads x) (unat index) }
      else Some NULL)"

definition VIRTUAL_ADDRESS_SPACE :: "bool \<Rightarrow> u32" where
  "VIRTUAL_ADDRESS_SPACE k = (if k then 0x80000000 else 0xC0000000)"

subsection \<open>Mapping memory of a process\<close>

text \<open>The result of \<open>arm_map_memory\<close> is ignored by \<open>tgt_map_memory\<close>.\<close>

definition tgt_map_memory :: "ptr \<Rightarrow> ptr \<Rightarrow> 'z kern_scheme \<Rightarrow> (return_t \<times> 'z kern_scheme) option" where
  "tgt_map_memory process section s =
     (if process \<noteq> NULL \<and> section \<noteq> NULL then do {
        pool \<leftarrow> process_get_mem_pool process (ks s);
        table \<leftarrow> process_get_page_table process (ks s);
        (_, s) \<leftarrow> on_vm (arm_map_memory pool table section) s;
        Some (NO_ERROR, s)
      }
      else Some (PARAMETERS_INVALID, s))"

definition tgt_unmap_memory :: "ptr \<Rightarrow> ptr \<Rightarrow> 'z kern_scheme \<Rightarrow> 'z kern_scheme option" where
  "tgt_unmap_memory process section s =
     (if process \<noteq> NULL \<and> section \<noteq> NULL then do {
        pool \<leftarrow> process_get_mem_pool process (ks s);
        table \<leftarrow> process_get_page_table process (ks s);
        v \<leftarrow> arm_unmap_memory pool table section (vm s);
        Some (s\<lparr>vm := v\<rparr>)
      }
      else Some s)"

subsection \<open>Creation and end of a thread\<close>

text \<open>
  The search of \<open>thread_setup_stack\<close> for the section of the user's memory pool: the virtual
  address that corresponds to the top of the stack, 0 if there is no such section.  The chain of
  sections may be cyclic as far as this loop is concerned.
\<close>

partial_function (option) thread_find_vsp :: "ptr \<Rightarrow> u32 \<Rightarrow> u32 \<Rightarrow> vheap \<Rightarrow> u32 option" where
  "thread_find_vsp mem start ofs s =
     (if mem = NULL then Some 0
      else do {
        x \<leftarrow> sections s mem;
        if real_address x = start then Some (virt_address x + ofs) else thread_find_vsp (sec_next x) start ofs s
      })"

definition thread_setup_stack :: "ptr \<Rightarrow> 'z kern_scheme \<Rightarrow> 'z kern_scheme option" where
  "thread_setup_stack t s = do {
     x \<leftarrow> threads (ks s) t;
     mem \<leftarrow> process_get_first_section (t_parent x) (ks s);
     pool \<leftarrow> process_get_user_mem_pool (t_parent x) (ks s);
     let rsp = t_stack x + (t_stack_size x - 12);
     vsp \<leftarrow> thread_find_vsp mem pool ((t_stack x - pool) + (t_stack_size x - 12)) (vm s);
     on_ks (thread_update t (\<lambda>x. x\<lparr>r_stack_base := rsp, v_stack_base := vsp\<rparr>)) s
   }"

text \<open>The addresses of \<open>arm_bootstrap\<close> and of \<open>thread_end\<close> are parameters.\<close>

definition tgt_initialise_context :: "u32 \<Rightarrow> ptr \<Rightarrow> u32 \<Rightarrow> kst \<Rightarrow> kst option" where
  "tgt_initialise_context arm_bootstrap t exit_function s = do {
     proc \<leftarrow> thread_get_parent t s;
     pool \<leftarrow> process_get_mem_pool proc s;
     (c, as) \<leftarrow> mem_alloc pool (contexts s) (k_answers s);
     _ \<leftarrow> kernel_assert (c \<noteq> NULL);
     sp \<leftarrow> thread_get_virt_stack_base t s;
     entry \<leftarrow> thread_get_entry_point t s;
     let regs = (replicate 13 0)[0 := entry, 1 := exit_function, 2 := sp, 11 := sp];
     thread_update t (\<lambda>x. x\<lparr>t_context := c\<rparr>)
       (s\<lparr>k_answers := as, contexts := (contexts s)(c \<mapsto>
            \<lparr>c_sp = sp, c_lr = 0, c_cpsr = 0x10, c_gpr = regs, c_pc = arm_bootstrap\<rparr>)\<rparr>)
   }"

definition thread_create ::
  "u32 \<Rightarrow> u32 \<Rightarrow> ptr \<Rightarrow> ptr \<Rightarrow> ptr \<Rightarrow> u8 \<Rightarrow> ptr \<Rightarrow> u32 \<Rightarrow> u32 \<Rightarrow> u8 list option \<Rightarrow>
     'z kern_scheme \<Rightarrow> (ptr \<times> 'z kern_scheme) option" where
  "thread_create arm_bootstrap thread_end pool user_pool parent pri entry flags stack name s = do {
     (t, as) \<leftarrow> mem_alloc pool (threads (ks s)) (k_answers (ks s));
     let s = s\<lparr>ks := (ks s)\<lparr>k_answers := as\<rparr>\<rparr>;
     if t = NULL then Some (t, s)
     else do {
       (stk, bs) \<leftarrow> mem_alloc_aligned user_pool MMU_PAGE_SIZE (blocks s) (b_answers s);
       n \<leftarrow> util_strcpy (replicate 256 0) name 255;
       let s = s\<lparr>b_answers := bs, blocks := (if stk \<noteq> NULL then (blocks s)(stk \<mapsto> stack) else blocks s)\<rparr>;
       let x = \<lparr>thread_id = 0, t_stack = stk, r_stack_base = 0, v_stack_base = 0,
                t_stack_size = (if stk \<noteq> NULL then stack else 0), priority = pri, t_flags = flags,
                t_parent = parent, t_state = (if stk \<noteq> NULL then THREAD_READY else THREAD_NOT_CREATED),
                waiting_on = NULL, entry_point = entry, t_object_number = 0, t_context = NULL, t_name = n\<rparr>;
       let s = s\<lparr>ks := (ks s)\<lparr>threads := (threads (ks s))(t \<mapsto> x)\<rparr>\<rparr>;
       if stk \<noteq> NULL then do {
         s \<leftarrow> thread_setup_stack t s;
         s \<leftarrow> on_ks (tgt_initialise_context arm_bootstrap t thread_end) s;
         Some (t, s)
       }
       else Some (t, s)
     }
   }"

definition tgt_destroy_context :: "ptr \<Rightarrow> ptr \<Rightarrow> kst \<Rightarrow> kst option" where
  "tgt_destroy_context pool context s =
     (if context = NULL then Some s
      else do { h \<leftarrow> mem_free pool context (contexts s); Some (s\<lparr>contexts := h\<rparr>) })"

definition thread_exit :: "ptr \<Rightarrow> 'z kern_scheme \<Rightarrow> 'z kern_scheme option" where
  "thread_exit t s =
     (if t = NULL then Some s
      else do {
        x \<leftarrow> threads (ks s) t;
        pool \<leftarrow> process_get_mem_pool (t_parent x) (ks s);
        user_pool \<leftarrow> process_get_user_mem_pool (t_parent x) (ks s);
        b \<leftarrow> mem_free user_pool (t_stack x) (blocks s);
        k \<leftarrow> tgt_destroy_context pool (t_context x) (ks s);
        th \<leftarrow> mem_free pool t (threads k);
        Some (s\<lparr>blocks := b, ks := k\<lparr>threads := th\<rparr>\<rparr>)
      })"

end
