(* ===== verification/Obj_Thread.thy ===== *)
theory Obj_Thread
  imports Kernel_State
begin

section \<open>Thread objects (\<open>obj_thread.c\<close>)\<close>

text \<open>
  A thread object is the handle of a thread in the object table of its process; it passes state changes on to
  the scheduler and sleeps by means of an alarm.  An alarm calls back through a function
  pointer: \<open>alarm_handle_timer_timeout\<close> has the call as a parameter, and
  \<open>obj_thread_sleep_callback\<close> is what thread objects put there.
\<close>

subsection \<open>Creation and end\<close>

definition obj_create_thread ::
  "ptr \<Rightarrow> ptr \<Rightarrow> ptr \<Rightarrow> ptr \<Rightarrow> u32 \<Rightarrow> ptr \<Rightarrow> 'z kern_scheme \<Rightarrow>
     (return_t \<times> object_number_t option \<times> 'z kern_scheme) option" where
  "obj_create_thread pool scheduler alarm_manager table ident t s =
     (if table = NULL then Some (PARAMETERS_OUT_OF_RANGE, None, s)
      else do {
        (no, s) \<leftarrow> on_oh (obj_alloc pool) s;
        (result, objno, h) \<leftarrow> obj_add_object table no (oh s);
        let s = s\<lparr>oh := h\<rparr>;
        case objno of
          Some i \<Rightarrow> do {
            h \<leftarrow> obj_initialise_object no i THREAD_OBJ (oh s);
            p \<leftarrow> thread_get_priority t (ks s);
            let s = s\<lparr>oh := h, thread_objs := (thread_objs s)(no \<mapsto>
              \<lparr>tid = ident, ot_thread = t, priority_inheritance = 0, original_priority = p, oth_pool = pool,
               alarm_id = 0, oth_scheduler = scheduler, oth_alarm_manager = alarm_manager\<rparr>)\<rparr>;
            s \<leftarrow> on_ks (sch_notify_new_thread scheduler t) s;
            Some (result, Some i, s)
          }
        | None \<Rightarrow> do {
            h \<leftarrow> obj_free pool no (oh s);
            Some (result, None, s\<lparr>oh := h\<rparr>)
          }
      })"

definition obj_delete_thread :: "ptr \<Rightarrow> 'z kern_scheme \<Rightarrow> 'z kern_scheme option" where
  "obj_delete_thread o' s =
     (if o' = NULL then Some s
      else do {
        x \<leftarrow> thread_objs s o';
        h \<leftarrow> obj_free (oth_pool x) o' (oh s);
        Some (s\<lparr>oh := h, thread_objs := (thread_objs s)(o' := None)\<rparr>)
      })"

definition obj_thread_get_oid :: "ptr \<Rightarrow> 'z kern_scheme \<Rightarrow> object_number_t option" where
  "obj_thread_get_oid o' s = obj_oid o' (oh s)"

definition obj_cast_thread :: "ptr \<Rightarrow> 'z kern_scheme \<Rightarrow> ptr option" where
  "obj_cast_thread o' s = obj_cast THREAD_OBJ o' (oh s)"

definition obj_exit_thread :: "ptr \<Rightarrow> 'z kern_scheme \<Rightarrow> (return_t \<times> 'z kern_scheme) option" where
  "obj_exit_thread o' s =
     (if o' = NULL then Some (INVALID_OBJECT, s)
      else do {
        x \<leftarrow> thread_objs s o';
        let t = ot_thread x;
        state \<leftarrow> thread_get_state t (ks s);
        (result, s) \<leftarrow>
          (if state \<noteq> THREAD_TERMINATED \<and> state \<noteq> THREAD_NOT_CREATED then do {
             s \<leftarrow> on_ks (thread_set_state t THREAD_TERMINATED) s;
             s \<leftarrow> on_ks (sch_notify_exit_thread (oth_scheduler x) t) s;
             s \<leftarrow> on_ks (sch_notify_terminated (oth_scheduler x) t) s;
             s \<leftarrow> thread_exit t s;
             Some (NO_ERROR, s)
           }
           else Some (OBJECT_IN_INVALID_STATE, s));
        s \<leftarrow> obj_delete_thread o' s;
        Some (result, s)
      })"

subsection \<open>State and waiting\<close>

text \<open>The state is written through a pointer that no caller leaves null.\<close>

definition obj_get_thread_state :: "ptr \<Rightarrow> 'z kern_scheme \<Rightarrow> (return_t \<times> thread_state_t option) option" where
  "obj_get_thread_state o' s =
     (if o' = NULL then Some (INVALID_OBJECT, None)
      else do { x \<leftarrow> thread_objs s o'; st \<leftarrow> thread_get_state (ot_thread x) (ks s); Some (NO_ERROR, Some st) })"

definition obj_set_thread_waiting :: "ptr \<Rightarrow> ptr \<Rightarrow> 'z kern_scheme \<Rightarrow> (return_t \<times> 'z kern_scheme) option" where
  "obj_set_thread_waiting o' on s =
     (if o' = NULL then Some (INVALID_OBJECT, s)
      else do {
        x \<leftarrow> thread_objs s o';
        state \<leftarrow> thread_get_state (ot_thread x) (ks s);
        if state \<in> {THREAD_RUNNING, THREAD_READY, THREAD_PAUSED, THREAD_IDLE, THREAD_WAITING, THREAD_SYSTEM} then do {
          s \<leftarrow> on_ks (thread_set_state (ot_thread x) THREAD_WAITING) s;
          s \<leftarrow> on_ks (thread_set_waiting_on (ot_thread x) on) s;
          s \<leftarrow> on_ks (sch_notify_pause_thread (oth_scheduler x) (ot_thread x)) s;
          Some (NO_ERROR, s)
        }
        else Some (NO_ERROR, s)
      })"

definition obj_thread_is_waiting_on :: "ptr \<Rightarrow> ptr \<Rightarrow> 'z kern_scheme \<Rightarrow> bool option" where
  "obj_thread_is_waiting_on o' on s =
     (if o' = NULL then Some False
      else do { x \<leftarrow> thread_objs s o'; w \<leftarrow> thread_get_waiting_on (ot_thread x) (ks s); Some (w = on) })"

definition obj_set_thread_ready :: "ptr \<Rightarrow> 'z kern_scheme \<Rightarrow> (return_t \<times> 'z kern_scheme) option" where
  "obj_set_thread_ready o' s =
     (if o' = NULL then Some (INVALID_OBJECT, s)
      else do {
        x \<leftarrow> thread_objs s o';
        state \<leftarrow> thread_get_state (ot_thread x) (ks s);
        if state = THREAD_WAITING then do {
          s \<leftarrow> on_ks (thread_set_state (ot_thread x) THREAD_READY) s;
          s \<leftarrow> on_ks (thread_set_waiting_on (ot_thread x) NULL) s;
          s \<leftarrow> on_ks (sch_notify_resume_thread (oth_scheduler x) (ot_thread x)) s;
          Some (NO_ERROR, s)
        }
        else Some (NO_ERROR, s)
      })"

subsection \<open>Priorities\<close>

definition obj_get_thread_priority_ex :: "ptr \<Rightarrow> 'z kern_scheme \<Rightarrow> u8 option" where
  "obj_get_thread_priority_ex o' s =
     (if o' = NULL then Some 0 else do { x \<leftarrow> thread_objs s o'; thread_get_priority (ot_thread x) (ks s) })"

definition obj_get_thread_priority :: "ptr \<Rightarrow> bool \<Rightarrow> 'z kern_scheme \<Rightarrow> (return_t \<times> u8 option) option" where
  "obj_get_thread_priority o' out s =
     (if o' = NULL then Some (INVALID_OBJECT, None)
      else if out then do { p \<leftarrow> obj_get_thread_priority_ex o' s; Some (NO_ERROR, Some p) }
      else Some (PARAMETERS_INVALID, None))"

definition to_upd :: "ptr \<Rightarrow> (object_thread_t \<Rightarrow> object_thread_t) \<Rightarrow> 'z kern_scheme \<Rightarrow> 'z kern_scheme option" where
  "to_upd o' f s = do { h \<leftarrow> store o' f (thread_objs s); Some (s\<lparr>thread_objs := h\<rparr>) }"

definition obj_set_thread_priority :: "ptr \<Rightarrow> u8 \<Rightarrow> 'z kern_scheme \<Rightarrow> (return_t \<times> 'z kern_scheme) option" where
  "obj_set_thread_priority o' pri s =
     (if o' = NULL then Some (INVALID_OBJECT, s)
      else if pri = 0 then Some (PARAMETERS_INVALID, s)
      else do {
        x \<leftarrow> thread_objs s o';
        old_pri \<leftarrow> thread_get_priority (ot_thread x) (ks s);
        s \<leftarrow> on_ks (thread_set_priority (ot_thread x) pri) s;
        s \<leftarrow> (if priority_inheritance x = 0 then to_upd o' (\<lambda>x. x\<lparr>original_priority := pri\<rparr>) s else Some s);
        s \<leftarrow> on_ks (sch_notify_change_priority (oth_scheduler x) (ot_thread x) old_pri) s;
        Some (NO_ERROR, s)
      })"

definition obj_reset_thread_original_priority :: "ptr \<Rightarrow> 'z kern_scheme \<Rightarrow> (return_t \<times> 'z kern_scheme) option" where
  "obj_reset_thread_original_priority o' s =
     (if o' = NULL then Some (INVALID_OBJECT, s)
      else do {
        x \<leftarrow> thread_objs s o';
        old_pri \<leftarrow> thread_get_priority (ot_thread x) (ks s);
        s \<leftarrow> on_ks (thread_set_priority (ot_thread x) (original_priority x)) s;
        s \<leftarrow> to_upd o' (\<lambda>x. x\<lparr>priority_inheritance := 0\<rparr>) s;
        s \<leftarrow> on_ks (sch_notify_change_priority (oth_scheduler x) (ot_thread x) old_pri) s;
        Some (NO_ERROR, s)
      })"

definition obj_set_thread_original_priority :: "ptr \<Rightarrow> 'z kern_scheme \<Rightarrow> (return_t \<times> 'z kern_scheme) option" where
  "obj_set_thread_original_priority o' s =
     (if o' = NULL then Some (INVALID_OBJECT, s)
      else do {
        x \<leftarrow> thread_objs s o';
        p \<leftarrow> thread_get_priority (ot_thread x) (ks s);
        s \<leftarrow> to_upd o' (\<lambda>x. x\<lparr>original_priority := p, priority_inheritance := 1\<rparr>) s;
        Some (NO_ERROR, s)
      })"

definition obj_get_thread_original_priority_ex :: "ptr \<Rightarrow> 'z kern_scheme \<Rightarrow> u8 option" where
  "obj_get_thread_original_priority_ex o' s =
     (if o' = NULL then Some 0 else map_option original_priority (thread_objs s o'))"

definition obj_get_thread :: "ptr \<Rightarrow> 'z kern_scheme \<Rightarrow> ptr option" where
  "obj_get_thread o' s = (if o' = NULL then Some NULL else map_option ot_thread (thread_objs s o'))"

subsection \<open>Sleeping\<close>

definition obj_thread_sleep_callback :: "ptr \<Rightarrow> u32 \<Rightarrow> ptr \<Rightarrow> 'z kern_scheme \<Rightarrow> 'z kern_scheme option" where
  "obj_thread_sleep_callback am ident o' s =
     (if am \<noteq> NULL \<and> o' \<noteq> NULL then do {
        x \<leftarrow> thread_objs s o';
        if alarm_id x = ident then do {
          s \<leftarrow> on_ks (thread_set_state (ot_thread x) THREAD_READY) s;
          s \<leftarrow> on_ks (sch_notify_resume_thread (oth_scheduler x) (ot_thread x)) s;
          (_, s) \<leftarrow> on_ah (alarm_unset_alarm (oth_alarm_manager x) ident) s;
          Some s
        }
        else Some s
      }
      else Some s)"

text \<open>The address of the callback is a parameter.\<close>

definition obj_thread_sleep ::
  "ptr \<Rightarrow> ptr \<Rightarrow> tinker_time_t option \<Rightarrow> 'z kern_scheme \<Rightarrow> (return_t \<times> 'z kern_scheme) option" where
  "obj_thread_sleep callback o' duration s =
     (if o' \<noteq> NULL \<and> duration \<noteq> None then do {
        x \<leftarrow> thread_objs s o';
        (_, ident, a) \<leftarrow> alarm_set_alarm (oth_alarm_manager x) duration callback o' (ah s);
        let s = s\<lparr>ah := a\<rparr>;
        s \<leftarrow> (case ident of None \<Rightarrow> Some s | Some i \<Rightarrow> to_upd o' (\<lambda>x. x\<lparr>alarm_id := i\<rparr>) s);
        s \<leftarrow> on_ks (thread_set_state (ot_thread x) THREAD_WAITING) s;
        s \<leftarrow> on_ks (thread_set_waiting_on (ot_thread x) NULL) s;
        s \<leftarrow> on_ks (sch_notify_pause_thread (oth_scheduler x) (ot_thread x)) s;
        Some (NO_ERROR, s)
      }
      else Some (PARAMETERS_NULL, s))"

subsection \<open>Firing an alarm (\<open>alarm_manager.c\<close>)\<close>

text \<open>\<open>call cb am id usr\<close> is the call through the function pointer \<open>cb\<close>.\<close>

definition alarm_fire_callback ::
  "(ptr \<Rightarrow> ptr \<Rightarrow> u32 \<Rightarrow> ptr \<Rightarrow> 'z kern_scheme \<Rightarrow> 'z kern_scheme option) \<Rightarrow> ptr \<Rightarrow> 'z kern_scheme \<Rightarrow> 'z kern_scheme option" where
  "alarm_fire_callback call am s = do {
     m \<leftarrow> alarm_mgrs (ah s) am;
     a \<leftarrow> alarms (ah s) (next_alarm m);
     call (call_back a) am (al_id a) (usr_data a) s
   }"

definition alarm_handle_timer_timeout ::
  "(ptr \<Rightarrow> ptr \<Rightarrow> u32 \<Rightarrow> ptr \<Rightarrow> 'z kern_scheme \<Rightarrow> 'z kern_scheme option) \<Rightarrow> ptr \<Rightarrow> 'z kern_scheme \<Rightarrow> 'z kern_scheme option" where
  "alarm_handle_timer_timeout call am s =
     (if am = NULL then Some s
      else do {
        m \<leftarrow> alarm_mgrs (ah s) am;
        if next_alarm m = NULL then Some s
        else do {
          s \<leftarrow> alarm_fire_callback call am s;
          a \<leftarrow> alarm_calculate_next_alarm am NULL (ah s);
          Some (s\<lparr>ah := a\<rparr>)
        }
      })"

end
