(* ===== verification/Registry.thy ===== *)
theory Registry
  imports Obj_Thread
begin

section \<open>The registry of named objects (\<open>registry.c\<close>)\<close>

text \<open>
  The registry maps names to a process and a number in the object table of this process, and
  names to the queue of the threads that wait for the name.  A key is a name, padded with
  zeros to 64 bytes.
\<close>

record registry_entry_t =
  re_process :: ptr
  re_objno :: object_number_t

record registry_t =
  reg_pool :: ptr
  registry :: ptr
  registry_waiting_map :: ptr

record rkern = kern +
  registries :: "registry_t pheap"
  reg_entries :: "registry_entry_t pheap"
  r_answers :: "ptr list"

definition MAX_SHARED_OBJECT_NAME_LENGTH :: u32 where "MAX_SHARED_OBJECT_NAME_LENGTH = 64"

definition registry_key :: "u8 list option \<Rightarrow> u8 list option" where
  "registry_key name = do {
     n \<leftarrow> util_strlen name MAX_SHARED_OBJECT_NAME_LENGTH;
     util_memcpy (replicate 64 0) (case name of None \<Rightarrow> [] | Some x \<Rightarrow> x) (unat n)
   }"

definition on_mh :: "(mheap \<Rightarrow> ('a \<times> mheap) option) \<Rightarrow> 'z kern_scheme \<Rightarrow> ('a \<times> 'z kern_scheme) option" where
  "on_mh f = on_oh (\<lambda>h. do { (r, m) \<leftarrow> f (mh h); Some (r, h\<lparr>mh := m\<rparr>) })"

definition on_queues :: "(cheap \<Rightarrow> ('a \<times> cheap) option) \<Rightarrow> 'z kern_scheme \<Rightarrow> ('a \<times> 'z kern_scheme) option" where
  "on_queues f s = do { (r, k) \<leftarrow> on_cols f (ks s); Some (r, s\<lparr>ks := k\<rparr>) }"

definition registry_create :: "ptr \<Rightarrow> 'z rkern_scheme \<Rightarrow> (ptr \<times> 'z rkern_scheme) option" where
  "registry_create pool s = do {
     (reg, as) \<leftarrow> mem_alloc pool (registries s) (r_answers s);
     let s = s\<lparr>r_answers := as\<rparr>;
     if reg = NULL then Some (reg, s)
     else do {
       (m, s) \<leftarrow> on_mh (map_create hash_basic_string pool 64) s;
       (w, s) \<leftarrow> on_mh (map_create hash_basic_string pool 64) s;
       Some (reg, s\<lparr>registries := (registries s)(reg \<mapsto>
         \<lparr>reg_pool = pool, registry = m, registry_waiting_map = w\<rparr>)\<rparr>)
     }
   }"

text \<open>The loop that wakes the threads waiting for a name.\<close>

partial_function (option) registry_wake :: "ptr \<Rightarrow> 'z kern_scheme \<Rightarrow> 'z kern_scheme option" where
  "registry_wake queue s = do {
     r \<leftarrow> queue_front queue (cols (ks s));
     if r = None then Some s
     else do {
       s \<leftarrow> (if the r \<noteq> NULL then do { (_, s) \<leftarrow> obj_set_thread_ready (the r) s; Some s } else Some s);
       (_, s) \<leftarrow> on_queues (queue_pop queue) s;
       registry_wake queue s
     }
   }"

definition queue_delete_k :: "ptr \<Rightarrow> 'z kern_scheme \<Rightarrow> 'z kern_scheme option" where
  "queue_delete_k q s = do { c \<leftarrow> queue_delete q (cols (ks s)); Some (s\<lparr>ks := (ks s)\<lparr>cols := c\<rparr>\<rparr>) }"

definition regsitery_add ::
  "ptr \<Rightarrow> u8 list option \<Rightarrow> ptr \<Rightarrow> object_number_t \<Rightarrow> 'z rkern_scheme \<Rightarrow> (return_t \<times> 'z rkern_scheme) option" where
  "regsitery_add reg name process number s =
     (if reg = NULL then Some (PARAMETERS_NULL, s)
      else do {
        key \<leftarrow> registry_key name;
        x \<leftarrow> registries s reg;
        c \<leftarrow> map_contains_key (registry x) key (mh (oh s));
        if c then Some (OBJECT_NAME_EXISTS_IN_REGISTRY, s)
        else do {
          (entry, as) \<leftarrow> mem_alloc (reg_pool x) (reg_entries s) (r_answers s);
          _ \<leftarrow> kernel_assert (entry \<noteq> NULL);
          let s = s\<lparr>r_answers := as,
                    reg_entries := (reg_entries s)(entry \<mapsto> \<lparr>re_process = process, re_objno = number\<rparr>)\<rparr>;
          (added, s) \<leftarrow> on_mh (map_put (registry x) key entry) s;
          if \<not> added then Some (OBJECT_NOT_ADDED_TO_REGISTRY, s)
          else do {
            w \<leftarrow> map_contains_key (registry_waiting_map x) key (mh (oh s));
            q \<leftarrow> (if w then map_get (registry_waiting_map x) key (mh (oh s)) else Some None);
            case q of
              None \<Rightarrow> Some (NO_ERROR, s)
            | Some queue \<Rightarrow>
                if queue = NULL then Some (NO_ERROR, s)
                else do {
                  s \<leftarrow> registry_wake queue s;
                  (_, s) \<leftarrow> on_mh (map_remove (registry_waiting_map x) key) s;
                  s \<leftarrow> queue_delete_k queue s;
                  Some (NO_ERROR, s)
                }
          }
        }
      })"

definition registry_get ::
  "ptr \<Rightarrow> u8 list option \<Rightarrow> 'z rkern_scheme \<Rightarrow> (return_t \<times> (ptr \<times> object_number_t) option) option" where
  "registry_get reg name s =
     (if reg = NULL then Some (PARAMETERS_NULL, None)
      else do {
        key \<leftarrow> registry_key name;
        x \<leftarrow> registries s reg;
        c \<leftarrow> map_contains_key (registry x) key (mh (oh s));
        if c then do {
          r \<leftarrow> map_get (registry x) key (mh (oh s));
          case r of
            None \<Rightarrow> Some (OBJECT_NOT_RETRIEVED_FROM_REGISTRY, None)
          | Some entry \<Rightarrow> do { e \<leftarrow> reg_entries s entry; Some (NO_ERROR, Some (re_process e, re_objno e)) }
        }
        else Some (OBJECT_NOT_IN_REGISTRY, None)
      })"

definition registry_wait_for :: "ptr \<Rightarrow> ptr \<Rightarrow> u8 list option \<Rightarrow> 'z rkern_scheme \<Rightarrow> 'z rkern_scheme option" where
  "registry_wait_for reg t name s = do {
     (_, s) \<leftarrow> obj_set_thread_waiting t NULL s;
     if reg = NULL then Some s
     else do {
       key \<leftarrow> registry_key name;
       x \<leftarrow> registries s reg;
       c \<leftarrow> map_contains_key (registry_waiting_map x) key (mh (oh s));
       (queue, s) \<leftarrow>
         (if \<not> c then do {
            (q, s) \<leftarrow> on_queues (queue_create (reg_pool x)) s;
            (_, s) \<leftarrow> (if q \<noteq> NULL then on_mh (map_put (registry_waiting_map x) key q) s else Some (False, s));
            Some (q, s)
          }
          else do {
            r \<leftarrow> map_get (registry_waiting_map x) key (mh (oh s));
            Some (case r of None \<Rightarrow> NULL | Some q \<Rightarrow> q, s)
          });
       if queue \<noteq> NULL then do { (_, s) \<leftarrow> on_queues (queue_push queue t) s; Some s } else Some s
     }
   }"

definition registry_remove :: "ptr \<Rightarrow> u8 list option \<Rightarrow> 'z rkern_scheme \<Rightarrow> (return_t \<times> 'z rkern_scheme) option" where
  "registry_remove reg name s =
     (if reg = NULL then Some (PARAMETERS_NULL, s)
      else do {
        key \<leftarrow> registry_key name;
        x \<leftarrow> registries s reg;
        c \<leftarrow> map_contains_key (registry x) key (mh (oh s));
        if c then do {
          r \<leftarrow> map_get (registry x) key (mh (oh s));
          case r of
            None \<Rightarrow> Some (NO_ERROR, s)
          | Some entry \<Rightarrow> do {
              (removed, s) \<leftarrow> on_mh (map_remove (registry x) key) s;
              es \<leftarrow> mem_free (reg_pool x) entry (reg_entries s);
              Some (if removed then NO_ERROR else OBJECT_NOT_REMOVED_FROM_REGISTRY, s\<lparr>reg_entries := es\<rparr>)
            }
        }
        else Some (OBJECT_NOT_IN_REGISTRY, s)
      })"

end
