(* ===== verification/Semaphore.thy ===== *)
theory Semaphore
  imports Registry
begin

section \<open>Semaphores (\<open>obj_semaphore.c\<close>)\<close>

text \<open>
  A semaphore object either owns a count and the queues of its owners and of the threads that
  wait for it, or is a link to the owner in the object table of another process.
\<close>

subsection \<open>State\<close>

record sema_owner_t =
  sem_count :: u32
  sem_alloc :: u32
  listeners :: ptr
  owners :: ptr
  highest_priority :: u8
  sema_name :: "u8 list"

text \<open>The tag and the union of the struct.\<close>

datatype sema_data_t = unknown_sema_type | sema_type_owner sema_owner_t | sema_type_link ptr

record object_sema_t =
  sema_pool :: ptr
  sema_reg :: ptr
  sema_data :: sema_data_t

record skern = rkern +
  sema_objs :: "object_sema_t pheap"

subsection \<open>Creation, opening and deletion\<close>

definition obj_cast_semaphore :: "ptr \<Rightarrow> 'z skern_scheme \<Rightarrow> ptr option" where
  "obj_cast_semaphore o' s = obj_cast SEMAPHORE_OBJ o' (oh s)"

definition obj_semaphore_get_oid :: "ptr \<Rightarrow> 'z skern_scheme \<Rightarrow> object_number_t option" where
  "obj_semaphore_get_oid o' s = obj_oid o' (oh s)"

text \<open>
  The object number is written through a pointer that no caller leaves null.  When the object
  cannot be added to the table, its block is not released.
\<close>

definition obj_create_semaphore ::
  "ptr \<Rightarrow> ptr \<Rightarrow> u8 list option \<Rightarrow> u32 \<Rightarrow> 'z skern_scheme \<Rightarrow>
     (return_t \<times> object_number_t option \<times> 'z skern_scheme) option" where
  "obj_create_semaphore reg process name initial_count s =
     (if process = NULL then Some (PARAMETERS_NULL, None, s)
      else do {
        table \<leftarrow> process_get_object_table process (ks s);
        if table = NULL then Some (PARAMETERS_OUT_OF_RANGE, None, s)
        else do {
          pool \<leftarrow> process_get_mem_pool process (ks s);
          (no, s) \<leftarrow> on_oh (obj_alloc pool) s;
          if no = NULL then Some (OUT_OF_MEMORY, None, s)
          else do {
            (result, objno, h) \<leftarrow> obj_add_object table no (oh s);
            let s = s\<lparr>oh := h\<rparr>;
            case objno of
              None \<Rightarrow> Some (result, None, s)
            | Some i \<Rightarrow> do {
                h \<leftarrow> obj_initialise_object no i SEMAPHORE_OBJ (oh s);
                let s = s\<lparr>oh := h\<rparr>;
                (l, s) \<leftarrow> on_queues (queue_create pool) s;
                (w, s) \<leftarrow> on_queues (queue_create pool) s;
                n \<leftarrow> registry_key name;
                let s = s\<lparr>sema_objs := (sema_objs s)(no \<mapsto> \<lparr>sema_pool = pool, sema_reg = reg,
                  sema_data = sema_type_owner \<lparr>sem_count = initial_count, sem_alloc = 0, listeners = l, owners = w,
                    highest_priority = 0, sema_name = n\<rparr>\<rparr>)\<rparr>;
                (_, s) \<leftarrow> regsitery_add reg name process i s;
                Some (result, Some i, s)
              }
          }
        }
      })"

definition obj_open_semaphore ::
  "ptr \<Rightarrow> ptr \<Rightarrow> u8 list option \<Rightarrow> 'z skern_scheme \<Rightarrow> (return_t \<times> object_number_t option \<times> 'z skern_scheme) option" where
  "obj_open_semaphore reg process name s =
     (if process = NULL then Some (PARAMETERS_NULL, None, s)
      else do {
        table \<leftarrow> process_get_object_table process (ks s);
        if table = NULL then Some (PARAMETERS_OUT_OF_RANGE, None, s)
        else do {
          (r, found) \<leftarrow> registry_get reg name s;
          case found of
            None \<Rightarrow> Some (OBJECT_NOT_IN_REGISTRY, None, s)
          | Some (other_process, other_obj_no) \<Rightarrow> do {
              other_table \<leftarrow> process_get_object_table other_process (ks s);
              other_obj \<leftarrow> obj_get_object other_table other_obj_no (oh s);
              if other_obj = NULL then Some (OBJECT_NOT_IN_REGISTRY, None, s)
              else do {
                other_sema \<leftarrow> obj_cast_semaphore other_obj s;
                if other_sema = NULL then Some (WRONG_OBJ_TYPE, None, s)
                else do {
                  pool \<leftarrow> process_get_mem_pool process (ks s);
                  (no, s) \<leftarrow> on_oh (obj_alloc pool) s;
                  if no = NULL then Some (OUT_OF_MEMORY, None, s)
                  else do {
                    (result, objno, h) \<leftarrow> obj_add_object table no (oh s);
                    let s = s\<lparr>oh := h\<rparr>;
                    case objno of
                      None \<Rightarrow> do { h \<leftarrow> obj_free pool no (oh s); Some (OUT_OF_MEMORY, None, s\<lparr>oh := h\<rparr>) }
                    | Some i \<Rightarrow> do {
                        h \<leftarrow> obj_initialise_object no i SEMAPHORE_OBJ (oh s);
                        Some (result, Some i, s\<lparr>oh := h, sema_objs := (sema_objs s)(no \<mapsto>
                          \<lparr>sema_pool = pool, sema_reg = reg, sema_data = sema_type_link other_sema\<rparr>)\<rparr>)
                      }
                  }
                }
              }
            }
        }
      })"

definition sema_free :: "ptr \<Rightarrow> 'z skern_scheme \<Rightarrow> 'z skern_scheme option" where
  "sema_free o' s = do {
     x \<leftarrow> sema_objs s o';
     h \<leftarrow> obj_free (sema_pool x) o' (oh s);
     Some (s\<lparr>oh := h, sema_objs := (sema_objs s)(o' := None)\<rparr>)
   }"

definition object_delete_semaphore :: "ptr \<Rightarrow> 'z skern_scheme \<Rightarrow> (return_t \<times> 'z skern_scheme) option" where
  "object_delete_semaphore o' s =
     (if o' = NULL then Some (INVALID_OBJECT, s)
      else do {
        x \<leftarrow> sema_objs s o';
        case sema_data x of
          sema_type_owner d \<Rightarrow> do {
            (_, s) \<leftarrow> registry_remove (sema_reg x) (Some (sema_name d)) s;
            s \<leftarrow> queue_delete_k (listeners d) s;
            s \<leftarrow> queue_delete_k (owners d) s;
            s \<leftarrow> sema_free o' s;
            Some (NO_ERROR, s)
          }
        | sema_type_link _ \<Rightarrow> do { s \<leftarrow> sema_free o' s; Some (NO_ERROR, s) }
        | unknown_sema_type \<Rightarrow> Some (INVALID_OBJECT, s)
      })"

subsection \<open>Getting and releasing\<close>

text \<open>
  The object that holds the count: the semaphore itself or the one it links to, and nothing for
  a semaphore of unknown type.  A link that does not lead to an owner makes the code read the
  wrong member of the union.
\<close>

definition sema_target :: "ptr \<Rightarrow> 'z skern_scheme \<Rightarrow> ptr option option" where
  "sema_target o' s = do {
     x \<leftarrow> sema_objs s o';
     case sema_data x of
       sema_type_owner _ \<Rightarrow> Some (Some o')
     | sema_type_link l \<Rightarrow> Some (Some l)
     | unknown_sema_type \<Rightarrow> Some None
   }"

definition sema_owner :: "ptr \<Rightarrow> 'z skern_scheme \<Rightarrow> sema_owner_t option" where
  "sema_owner o' s = do { x \<leftarrow> sema_objs s o'; case sema_data x of sema_type_owner d \<Rightarrow> Some d | _ \<Rightarrow> None }"

definition sema_upd :: "ptr \<Rightarrow> (sema_owner_t \<Rightarrow> sema_owner_t) \<Rightarrow> 'z skern_scheme \<Rightarrow> 'z skern_scheme option" where
  "sema_upd o' f s = do {
     d \<leftarrow> sema_owner o' s;
     h \<leftarrow> store o' (\<lambda>x. x\<lparr>sema_data := sema_type_owner (f d)\<rparr>) (sema_objs s);
     Some (s\<lparr>sema_objs := h\<rparr>)
   }"

definition obj_push_semaphore_listener :: "ptr \<Rightarrow> ptr \<Rightarrow> 'z skern_scheme \<Rightarrow> 'z skern_scheme option" where
  "obj_push_semaphore_listener l t s =
     (if l \<noteq> NULL \<and> t \<noteq> NULL then do { (_, s) \<leftarrow> on_queues (queue_push l t) s; Some s } else Some s)"

text \<open>The first part of getting a semaphore: priorities and the queue of owners.\<close>

definition sema_inherit :: "ptr \<Rightarrow> ptr \<Rightarrow> sema_owner_t \<Rightarrow> 'z skern_scheme \<Rightarrow> 'z skern_scheme option" where
  "sema_inherit t sema d s = do {
     r \<leftarrow> queue_front (owners d) (cols (ks s));
     let first_owner = (case r of None \<Rightarrow> NULL | Some x \<Rightarrow> x);
     thread_priority \<leftarrow> obj_get_thread_priority_ex t s;
     waiting_priority \<leftarrow> obj_get_thread_priority_ex first_owner s;
     if sem_count d = 0 \<and> thread_priority > waiting_priority then do {
       (_, s) \<leftarrow> obj_set_thread_original_priority first_owner s;
       (_, s) \<leftarrow> obj_set_thread_priority first_owner thread_priority s;
       s \<leftarrow> sema_upd sema (\<lambda>d. d\<lparr>highest_priority := thread_priority\<rparr>) s;
       (_, state) \<leftarrow> obj_get_thread_state first_owner s;
       (_, s) \<leftarrow> (if state = Some THREAD_WAITING then obj_set_thread_ready first_owner s else Some (NO_ERROR, s));
       Some s
     }
     else do {
       (_, s) \<leftarrow> on_queues (queue_push (owners d) t) s;
       sema_upd sema (\<lambda>d. d\<lparr>highest_priority := thread_priority\<rparr>) s
     }
   }"

definition obj_get_semaphore :: "ptr \<Rightarrow> ptr \<Rightarrow> 'z skern_scheme \<Rightarrow> (return_t \<times> 'z skern_scheme) option" where
  "obj_get_semaphore t semaphore s =
     (if t = NULL \<or> semaphore = NULL then Some (PARAMETERS_NULL, s)
      else do {
        target \<leftarrow> sema_target semaphore s;
        case target of
          None \<Rightarrow> Some (PARAMETERS_NULL, s)
        | Some sema \<Rightarrow> do {
          (_, ts) \<leftarrow> obj_get_thread_state t s;
          if ts \<noteq> Some THREAD_NOT_CREATED \<and> ts \<noteq> Some THREAD_TERMINATED then do {
            d \<leftarrow> sema_owner sema s;
            s \<leftarrow> sema_inherit t sema d s;
            d \<leftarrow> sema_owner sema s;
            if sem_count d = 0 then do {
              (_, s) \<leftarrow> obj_set_thread_waiting t sema s;
              s \<leftarrow> obj_push_semaphore_listener (listeners d) t s;
              Some (NO_ERROR, s)
            }
            else do {
              s \<leftarrow> sema_upd sema (\<lambda>d. d\<lparr>sem_count := sem_count d - 1, sem_alloc := sem_alloc d + 1\<rparr>) s;
              Some (NO_ERROR, s)
            }
          }
          else Some (OBJECT_IN_INVALID_STATE, s)
        }
      })"

definition obj_notify_semaphore_listener :: "ptr \<Rightarrow> ptr \<Rightarrow> 'z skern_scheme \<Rightarrow> 'z skern_scheme option" where
  "obj_notify_semaphore_listener sema l s =
     (if l = NULL then Some s
      else do {
        n \<leftarrow> queue_size l (cols (ks s));
        r \<leftarrow> (if n > 0 then queue_front l (cols (ks s)) else Some None);
        let next_thread = (case r of None \<Rightarrow> NULL | Some x \<Rightarrow> x);
        if next_thread = NULL then Some s
        else do {
          (_, s) \<leftarrow> obj_set_thread_ready next_thread s;
          thread_priority \<leftarrow> obj_get_thread_priority_ex next_thread s;
          d \<leftarrow> sema_owner sema s;
          s \<leftarrow> (if thread_priority < highest_priority d then do {
                  (_, s) \<leftarrow> obj_set_thread_original_priority next_thread s;
                  (_, s) \<leftarrow> obj_set_thread_priority next_thread (highest_priority d) s;
                  Some s
                }
                else sema_upd sema (\<lambda>d. d\<lparr>highest_priority := thread_priority\<rparr>) s);
          (_, s) \<leftarrow> on_queues (queue_push (owners d) next_thread) s;
          (_, s) \<leftarrow> on_queues (queue_pop l) s;
          Some s
        }
      })"

definition obj_release_semaphore :: "ptr \<Rightarrow> ptr \<Rightarrow> 'z skern_scheme \<Rightarrow> (return_t \<times> 'z skern_scheme) option" where
  "obj_release_semaphore t semaphore s =
     (if semaphore = NULL then Some (PARAMETERS_NULL, s)
      else do {
        target \<leftarrow> sema_target semaphore s;
        case target of
          None \<Rightarrow> Some (PARAMETERS_NULL, s)
        | Some sema \<Rightarrow> do {
          d \<leftarrow> sema_owner sema s;
          if sem_alloc d > 0 then do {
            s \<leftarrow> sema_upd sema (\<lambda>d. d\<lparr>sem_count := sem_count d + 1, sem_alloc := sem_alloc d - 1\<rparr>) s;
            (_, s) \<leftarrow> on_queues (queue_remove (owners d) t) s;
            orig \<leftarrow> obj_get_thread_original_priority_ex t s;
            s \<leftarrow> (if highest_priority d \<noteq> orig then do {
                    (_, s) \<leftarrow> obj_reset_thread_original_priority t s;
                    Some s
                  }
                  else if highest_priority d > orig then sema_upd sema (\<lambda>d. d\<lparr>highest_priority := orig\<rparr>) s
                  else Some s);
            s \<leftarrow> obj_notify_semaphore_listener sema (listeners d) s;
            Some (NO_ERROR, s)
          }
          else Some (SEMAPHORE_EMPTY, s)
        }
      })"

subsection \<open>Reading\<close>

definition sema_field :: "ptr \<Rightarrow> 'a::zero \<Rightarrow> (sema_owner_t \<Rightarrow> 'a) \<Rightarrow> 'z skern_scheme \<Rightarrow> 'a option" where
  "sema_field o' none f s =
     (if o' = NULL then Some none
      else do {
        x \<leftarrow> sema_objs s o';
        case sema_data x of
          sema_type_owner d \<Rightarrow> Some (f d)
        | sema_type_link l \<Rightarrow> map_option f (sema_owner l s)
        | unknown_sema_type \<Rightarrow> Some none
      })"

definition obj_get_sema_count :: "ptr \<Rightarrow> 'z skern_scheme \<Rightarrow> u32 option" where
  "obj_get_sema_count o' = sema_field o' 0 sem_count"

definition obj_get_sema_alloc :: "ptr \<Rightarrow> 'z skern_scheme \<Rightarrow> u32 option" where
  "obj_get_sema_alloc o' = sema_field o' 0 sem_alloc"

definition obj_get_sema_highest_priority :: "ptr \<Rightarrow> 'z skern_scheme \<Rightarrow> u8 option" where
  "obj_get_sema_highest_priority o' = sema_field o' 0 highest_priority"

end
