(* ===== verification/Sema_Props.thy ===== *)
theory Sema_Props
  imports Semaphore
begin

section \<open>Semaphores: properties\<close>

text \<open>
  What getting and releasing do to the count and the allocation of a semaphore, for every
  sequence of calls by any threads through any handles.
\<close>

subsection \<open>Operations that leave the semaphores alone\<close>

named_theorems sema_frame \<open>operations that do not change the heap of semaphores\<close>

lemma on_ks_sema [sema_frame]: "on_ks f s = Some s' \<Longrightarrow> sema_objs s' = sema_objs s"
  by (auto simp: on_ks_def bind_eq_Some_conv)

lemma on_queues_sema [sema_frame]: "on_queues f s = Some (r, s') \<Longrightarrow> sema_objs s' = sema_objs s"
  by (auto simp: on_queues_def bind_eq_Some_conv)

lemma to_upd_sema [sema_frame]: "to_upd o' f s = Some s' \<Longrightarrow> sema_objs s' = sema_objs s"
  by (auto simp: to_upd_def bind_eq_Some_conv)

lemma thread_ops_sema [sema_frame]:
  "obj_set_thread_original_priority o' s = Some (r, s') \<Longrightarrow> sema_objs s' = sema_objs s"
  "obj_set_thread_priority o' p s = Some (r, s') \<Longrightarrow> sema_objs s' = sema_objs s"
  "obj_reset_thread_original_priority o' s = Some (r, s') \<Longrightarrow> sema_objs s' = sema_objs s"
  "obj_set_thread_ready o' s = Some (r, s') \<Longrightarrow> sema_objs s' = sema_objs s"
  "obj_set_thread_waiting o' w s = Some (r, s') \<Longrightarrow> sema_objs s' = sema_objs s"
  "obj_push_semaphore_listener l t s = Some s' \<Longrightarrow> sema_objs s' = sema_objs s"
  by (auto simp: obj_set_thread_original_priority_def obj_set_thread_priority_def
      obj_reset_thread_original_priority_def obj_set_thread_ready_def obj_set_thread_waiting_def
      obj_push_semaphore_listener_def bind_eq_Some_conv split: if_splits dest!: sema_frame)

subsection \<open>Counts and queues of every semaphore\<close>

text \<open>
  What a semaphore is apart from its priority: the count, the allocation and the queues of an owner,
  the target of a link.
\<close>

type_synonym sema_shape_t = "(u32 \<times> u32 \<times> ptr \<times> ptr) + ptr option"

definition shape :: "object_sema_t \<Rightarrow> sema_shape_t" where
  "shape x = (case sema_data x of
     sema_type_owner d \<Rightarrow> Inl (sem_count d, sem_alloc d, listeners d, owners d)
   | sema_type_link l \<Rightarrow> Inr (Some l)
   | unknown_sema_type \<Rightarrow> Inr None)"

definition shapes :: "'z skern_scheme \<Rightarrow> ptr \<Rightarrow> sema_shape_t option" where
  "shapes s = (\<lambda>p. map_option shape (sema_objs s p))"

lemma shapes_frame: "sema_objs s' = sema_objs s \<Longrightarrow> shapes s' = shapes s"
  by (simp add: shapes_def)

lemma sema_owner_shape: "sema_owner p s = Some d \<Longrightarrow> shapes s p = Some (Inl (sem_count d, sem_alloc d, listeners d, owners d))"
  by (auto simp: sema_owner_def shapes_def shape_def bind_eq_Some_conv split: sema_data_t.splits)

lemma sema_target_shape:
  "sema_target o' s = (case shapes s o' of None \<Rightarrow> None | Some (Inl _) \<Rightarrow> Some (Some o') | Some (Inr l) \<Rightarrow> Some l)"
  by (auto simp: sema_target_def shapes_def shape_def split: option.splits sema_data_t.splits)

lemma sema_upd_shape:
  assumes "sema_upd p f s = Some s'"
  obtains d where "sema_owner p s = Some d"
    "shapes s' = (shapes s)(p \<mapsto> Inl (sem_count (f d), sem_alloc (f d), listeners (f d), owners (f d)))"
  using assms by (auto simp: sema_upd_def bind_eq_Some_conv shapes_def shape_def fun_eq_iff elim!: storeE)

lemma sema_upd_priority:
  "sema_upd p (\<lambda>d. d\<lparr>highest_priority := h\<rparr>) s = Some s' \<Longrightarrow> shapes s' = shapes s"
  by (erule sema_upd_shape) (simp add: sema_owner_shape fun_upd_idem)

lemmas shape_frame = sema_frame [THEN shapes_frame] sema_upd_priority

lemma notify_shape: "obj_notify_semaphore_listener p l s = Some s' \<Longrightarrow> shapes s' = shapes s"
  by (auto simp: obj_notify_semaphore_listener_def bind_eq_Some_conv Let_def split: if_splits dest!: shape_frame)

lemma inherit_shape: "sema_inherit t sema d s = Some s' \<Longrightarrow> shapes s' = shapes s"
  by (auto simp: sema_inherit_def bind_eq_Some_conv Let_def split: if_splits dest!: shape_frame)

definition sema_take :: "ptr \<Rightarrow> ptr \<Rightarrow> sema_owner_t \<Rightarrow> 'z skern_scheme \<Rightarrow> (return_t \<times> 'z skern_scheme) option" where
  "sema_take t p d s = do {
     s \<leftarrow> sema_inherit t p d s;
     d \<leftarrow> sema_owner p s;
     if sem_count d = 0 then do {
       (_, s) \<leftarrow> obj_set_thread_waiting t p s;
       s \<leftarrow> obj_push_semaphore_listener (listeners d) t s;
       Some (NO_ERROR, s)
     }
     else do {
       s \<leftarrow> sema_upd p (\<lambda>d. d\<lparr>sem_count := sem_count d - 1, sem_alloc := sem_alloc d + 1\<rparr>) s;
       Some (NO_ERROR, s)
     }
   }"

lemma get_take:
  "obj_get_semaphore t sm s =
     (if t = NULL \<or> sm = NULL then Some (PARAMETERS_NULL, s)
      else do {
        target \<leftarrow> sema_target sm s;
        case target of
          None \<Rightarrow> Some (PARAMETERS_NULL, s)
        | Some p \<Rightarrow> do {
            (_, ts) \<leftarrow> obj_get_thread_state t s;
            if ts \<noteq> Some THREAD_NOT_CREATED \<and> ts \<noteq> Some THREAD_TERMINATED
            then do { d \<leftarrow> sema_owner p s; sema_take t p d s }
            else Some (OBJECT_IN_INVALID_STATE, s)
          }
      })"
  unfolding obj_get_semaphore_def sema_take_def ..

lemma take_shape:
  assumes "sema_owner p s = Some d" "sema_take t p d s = Some (r, s')"
  shows "r = NO_ERROR \<and> shapes s' = (if sem_count d = 0 then shapes s
    else (shapes s)(p \<mapsto> Inl (sem_count d - 1, sem_alloc d + 1, listeners d, owners d)))"
proof -
  obtain s1 d1 where s1: "sema_inherit t p d s = Some s1" "sema_owner p s1 = Some d1"
    using assms(2) by (auto simp: sema_take_def bind_eq_Some_conv)
  have "shapes s1 = shapes s" using inherit_shape [OF s1(1)] .
  moreover then have "sem_count d1 = sem_count d" "sem_alloc d1 = sem_alloc d" "listeners d1 = listeners d" "owners d1 = owners d"
    using sema_owner_shape [OF s1(2)] sema_owner_shape [OF assms(1)] by simp_all
  ultimately show ?thesis
    using assms(2) s1
    by (auto simp: sema_take_def bind_eq_Some_conv split: if_splits dest!: shape_frame elim!: sema_upd_shape)
qed

lemma get_shape:
  assumes "obj_get_semaphore t sm s = Some (r, s')"
  shows "(s' = s \<and> r \<noteq> NO_ERROR) \<or> (\<exists>p c a l w. sema_target sm s = Some (Some p) \<and> shapes s p = Some (Inl (c, a, l, w)) \<and>
    r = NO_ERROR \<and> shapes s' = (if c = 0 then shapes s else (shapes s)(p \<mapsto> Inl (c - 1, a + 1, l, w))))"
proof -
  have "(s' = s \<and> r \<noteq> NO_ERROR) \<or> (\<exists>p d. sema_target sm s = Some (Some p) \<and> sema_owner p s = Some d \<and>
      sema_take t p d s = Some (r, s'))"
    using assms unfolding get_take by (auto simp: bind_eq_Some_conv split: if_splits option.splits)
  then show ?thesis
  proof (elim disjE exE conjE)
    fix p d assume p: "sema_target sm s = Some (Some p)" "sema_owner p s = Some d" "sema_take t p d s = Some (r, s')"
    show ?thesis
      using p(1) sema_owner_shape [OF p(2)] take_shape [OF p(2,3)] by (intro disjI2 exI conjI) auto
  qed simp
qed

definition sema_give :: "ptr \<Rightarrow> ptr \<Rightarrow> sema_owner_t \<Rightarrow> 'z skern_scheme \<Rightarrow> (return_t \<times> 'z skern_scheme) option" where
  "sema_give t p d s = do {
     (_, s) \<leftarrow> on_queues (queue_remove (owners d) t) s;
     orig \<leftarrow> obj_get_thread_original_priority_ex t s;
     s \<leftarrow> (if highest_priority d \<noteq> orig then do {
             (_, s) \<leftarrow> obj_reset_thread_original_priority t s;
             Some s
           }
           else if highest_priority d > orig then sema_upd p (\<lambda>d. d\<lparr>highest_priority := orig\<rparr>) s
           else Some s);
     s \<leftarrow> obj_notify_semaphore_listener p (listeners d) s;
     Some (NO_ERROR, s)
   }"

lemma give_shape: "sema_give t p d s = Some (r, s') \<Longrightarrow> r = NO_ERROR \<and> shapes s' = shapes s"
  by (auto simp: sema_give_def bind_eq_Some_conv split: if_splits dest!: shape_frame notify_shape)

lemma release_give:
  "obj_release_semaphore t sm s =
     (if sm = NULL then Some (PARAMETERS_NULL, s)
      else do {
        target \<leftarrow> sema_target sm s;
        case target of
          None \<Rightarrow> Some (PARAMETERS_NULL, s)
        | Some p \<Rightarrow> do {
            d \<leftarrow> sema_owner p s;
            if sem_alloc d > 0 then do {
              s \<leftarrow> sema_upd p (\<lambda>d. d\<lparr>sem_count := sem_count d + 1, sem_alloc := sem_alloc d - 1\<rparr>) s;
              sema_give t p d s
            }
            else Some (SEMAPHORE_EMPTY, s)
          }
      })"
  unfolding obj_release_semaphore_def sema_give_def ..

lemma release_shape:
  assumes "obj_release_semaphore t sm s = Some (r, s')"
  shows "(s' = s \<and> r \<noteq> NO_ERROR) \<or> (\<exists>p c a l w. sema_target sm s = Some (Some p) \<and> shapes s p = Some (Inl (c, a, l, w)) \<and>
    a \<noteq> 0 \<and> r = NO_ERROR \<and> shapes s' = (shapes s)(p \<mapsto> Inl (c + 1, a - 1, l, w)))"
proof -
  have "(s' = s \<and> r \<noteq> NO_ERROR) \<or> (\<exists>p d s1. sema_target sm s = Some (Some p) \<and> sema_owner p s = Some d \<and>
      sem_alloc d > 0 \<and>
      sema_upd p (\<lambda>d. d\<lparr>sem_count := sem_count d + 1, sem_alloc := sem_alloc d - 1\<rparr>) s = Some s1 \<and>
      sema_give t p d s1 = Some (r, s'))"
    using assms unfolding release_give by (auto simp: bind_eq_Some_conv split: if_splits option.splits)
  then show ?thesis
  proof (elim disjE exE conjE)
    fix p d s1 assume p: "sema_target sm s = Some (Some p)" "sema_owner p s = Some d" "sem_alloc d > 0"
      "sema_upd p (\<lambda>d. d\<lparr>sem_count := sem_count d + 1, sem_alloc := sem_alloc d - 1\<rparr>) s = Some s1" "sema_give t p d s1 = Some (r, s')"
    have "shapes s' = (shapes s)(p \<mapsto> Inl (sem_count d + 1, sem_alloc d - 1, listeners d, owners d))"
      using give_shape [OF p(5)] p(2) by (cases rule: sema_upd_shape [OF p(4)]) simp
    then show ?thesis
      using p(1,3) give_shape [OF p(5)] sema_owner_shape [OF p(2)] by (intro disjI2 exI conjI) auto
  qed simp
qed

subsection \<open>Sequences of calls\<close>

text \<open>A step is a call of either operation, by any thread and through any handle, that returns.\<close>

inductive sema_step :: "'z skern_scheme \<Rightarrow> 'z skern_scheme \<Rightarrow> bool" where
  get: "obj_get_semaphore t sm s = Some (r, s') \<Longrightarrow> sema_step s s'"
| release: "obj_release_semaphore t sm s = Some (r, s') \<Longrightarrow> sema_step s s'"

inductive sema_steps :: "'z skern_scheme \<Rightarrow> 'z skern_scheme \<Rightarrow> bool" where
  refl: "sema_steps s s"
| step: "sema_steps s s1 \<Longrightarrow> sema_step s1 s2 \<Longrightarrow> sema_steps s s2"

definition sema_total :: "'z skern_scheme \<Rightarrow> ptr \<Rightarrow> nat option" where
  "sema_total s p = (case sema_owner p s of None \<Rightarrow> None | Some d \<Rightarrow> Some (unat (sem_count d) + unat (sem_alloc d)))"

lemma sema_total_shape:
  "sema_total s p = (case shapes s p of Some (Inl (c, a, _)) \<Rightarrow> Some (unat c + unat a) | _ \<Rightarrow> None)"
  by (auto simp: sema_total_def shapes_def shape_def sema_owner_def split: option.splits sema_data_t.splits)

lemma total_get: "unat (c :: u32) + unat (a :: u32) < 2 ^ 32 \<Longrightarrow> c \<noteq> 0 \<Longrightarrow> unat (c - 1) + unat (a + 1) = unat c + unat a"
proof -
  assume s: "unat c + unat a < 2 ^ 32" and c: "c \<noteq> 0"
  have "unat c \<noteq> 0" using c by (simp add: unat_eq_zero)
  then have "1 \<le> c" "unat a + 1 < 2 ^ 32" using s by (simp_all add: word_le_nat_alt)
  then show ?thesis using \<open>unat c \<noteq> 0\<close> by (simp add: unat_sub unat_word_ariths)
qed

lemma total_release: "unat (c :: u32) + unat (a :: u32) < 2 ^ 32 \<Longrightarrow> a \<noteq> 0 \<Longrightarrow> unat (c + 1) + unat (a - 1) = unat c + unat a"
  using total_get [of a c] by (simp add: add.commute)

lemma sema_step_total:
  assumes "sema_step s s'" "sema_total s p = Some n" "n < 2 ^ 32"
  shows "sema_total s' p = Some n"
  using assms(1)
proof cases
  case (get t sm r)
  from get_shape [OF get] show ?thesis
    using assms(2,3) total_get by (auto simp: sema_total_shape split: option.splits sum.splits if_splits)
next
  case (release t sm r)
  from release_shape [OF release] show ?thesis
    using assms(2,3) total_release by (auto simp: sema_total_shape split: option.splits sum.splits if_splits)
qed

subsection \<open>An example\<close>

text \<open>
  Thread objects \<open>0xA0\<close>, \<open>0xB0\<close> and \<open>0xC0\<close> of priority 5.  The first one holds the semaphore
  \<open>0x80\<close>, whose count is 0, and the second one waits for it.
\<close>

definition demo_thr :: "thread_state_t \<Rightarrow> thread_t" where
  "demo_thr st = \<lparr>thread_id = 1, t_stack = NULL, r_stack_base = 0, v_stack_base = 0, t_stack_size = 0, priority = 5,
     t_flags = 0, t_parent = NULL, t_state = st, waiting_on = NULL, entry_point = NULL, t_object_number = 1,
     t_context = NULL, t_name = []\<rparr>"

definition demo_thr_obj :: "ptr \<Rightarrow> object_thread_t" where
  "demo_thr_obj t = \<lparr>tid = 1, ot_thread = t, priority_inheritance = 0, original_priority = 5, oth_pool = 9, alarm_id = 0,
     oth_scheduler = 0x30, oth_alarm_manager = NULL\<rparr>"

definition demo_queues :: cheap where
  "demo_queues = \<lparr>clh = \<lparr>
       elems = [0x200 \<mapsto> \<lparr>le_item = 0x100, le_next = 0x201, le_prev = NULL\<rparr>,
                0x201 \<mapsto> \<lparr>le_item = 0x102, le_next = NULL, le_prev = 0x200\<rparr>,
                0x210 \<mapsto> \<lparr>le_item = 0x1005, le_next = NULL, le_prev = NULL\<rparr>,
                0x220 \<mapsto> \<lparr>le_item = 0xA0, le_next = NULL, le_prev = NULL\<rparr>,
                0x230 \<mapsto> \<lparr>le_item = 0xB0, le_next = NULL, le_prev = NULL\<rparr>],
       lists = [0x1005 \<mapsto> \<lparr>l_size = 2, l_head = 0x200, l_tail = 0x201, l_pool = 9\<rparr>,
                0x40 \<mapsto> \<lparr>l_size = 1, l_head = 0x210, l_tail = 0x210, l_pool = 9\<rparr>,
                0x51 \<mapsto> \<lparr>l_size = 1, l_head = 0x220, l_tail = 0x220, l_pool = 9\<rparr>,
                0x52 \<mapsto> \<lparr>l_size = 1, l_head = 0x230, l_tail = 0x230, l_pool = 9\<rparr>],
       its = Map.empty, answers = [0x300, 0x301, 0x302, 0x303]\<rparr>,
     queues = [0x1005 \<mapsto> \<lparr>q_list = 0x1005, q_pool = 9\<rparr>, 0x51 \<mapsto> \<lparr>q_list = 0x51, q_pool = 9\<rparr>,
               0x52 \<mapsto> \<lparr>q_list = 0x52, q_pool = 9\<rparr>],
     stacks = [0x40 \<mapsto> \<lparr>s_list = 0x40, s_pool = 9\<rparr>], c_answers = []\<rparr>"

definition demo_sema :: skern where
  "demo_sema = \<lparr>
     ks = \<lparr>cols = demo_queues,
           threads = [0x100 \<mapsto> demo_thr THREAD_READY, 0x101 \<mapsto> demo_thr THREAD_WAITING, 0x102 \<mapsto> demo_thr THREAD_READY],
           contexts = Map.empty, processes = Map.empty,
           scheds = [0x30 \<mapsto> \<lparr>curr_thread = 0x100, curr_queue = 0x1005, priority_queues = (\<lambda>_. 0x1005), curr_priority = 5,
              queue_stack = 0x40, idle_thread = NULL, eval_new_thread = False\<rparr>], hw = [], k_answers = []\<rparr>,
     ah = \<lparr>alh = \<lparr>elems = Map.empty, lists = Map.empty, its = Map.empty, answers = []\<rparr>, alarms = Map.empty,
           alarm_mgrs = Map.empty, time_mgrs = Map.empty, clock_ns = 0, timer_calls = [], al_answers = []\<rparr>,
     oh = \<lparr>mh = \<lparr>entries = Map.empty, buckets = Map.empty, maps = Map.empty, map_its = Map.empty, m_answers = []\<rparr>,
           objs = Map.empty, tables = Map.empty, o_answers = []\<rparr>,
     vm = \<lparr>sections = Map.empty, l1_tables = Map.empty, l2_tables = Map.empty, tlb_flushes = 0, v_answers = []\<rparr>,
     blocks = Map.empty, b_answers = [],
     thread_objs = [0xA0 \<mapsto> demo_thr_obj 0x100, 0xB0 \<mapsto> demo_thr_obj 0x101, 0xC0 \<mapsto> demo_thr_obj 0x102],
     registries = Map.empty, reg_entries = Map.empty, r_answers = [],
     sema_objs = [0x80 \<mapsto> \<lparr>sema_pool = 9, sema_reg = NULL, sema_data = sema_type_owner
       \<lparr>sem_count = 0, sem_alloc = 1, listeners = 0x52, owners = 0x51, highest_priority = 5, sema_name = []\<rparr>\<rparr>]\<rparr>"

lemma demo_sema_run:
  "(do { (r1, s1) \<leftarrow> obj_release_semaphore 0xA0 0x80 demo_sema;
         (r2, s2) \<leftarrow> obj_get_semaphore 0xC0 0x80 s1;
         (_, b) \<leftarrow> obj_get_thread_state 0xB0 s2;
         (_, c) \<leftarrow> obj_get_thread_state 0xC0 s2;
         d \<leftarrow> sema_owner 0x80 s2;
         w \<leftarrow> queue_size 0x51 (cols (ks s2));
         Some (r1, r2, b, c, sem_count d, sem_alloc d, w) }) =
   Some (NO_ERROR, NO_ERROR, Some THREAD_READY, Some THREAD_READY, 0, 1, 2)"
  by code_simp

subsection \<open>Properties\<close>

lemma shape_owner: "shapes s p = Some (Inl (c, a, l, w)) \<Longrightarrow> \<exists>d. sema_owner p s = Some d \<and> sem_count d = c \<and> sem_alloc d = a"
  by (cases "sema_objs s p"; cases "sema_data (the (sema_objs s p))") (auto simp: shapes_def shape_def sema_owner_def)

text \<open>
  C14: the sum of the count and the allocation of a semaphore is the same after every sequence of
  calls that get and release semaphores, by any threads and through any handles: neither
  operation creates or loses a unit, and neither number wraps around.
\<close>

theorem sema_total_constant:
  assumes "sema_steps s s'" "sema_total s p = Some n" "n < 2 ^ 32"
  shows "sema_total s' p = Some n"
  using assms by (induction rule: sema_steps.induct) (auto intro: sema_step_total)

theorem sema_total_constant_witness:
  "\<exists>s1 s2. obj_release_semaphore 0xA0 0x80 demo_sema = Some (NO_ERROR, s1) \<and>
     obj_get_semaphore 0xC0 0x80 s1 = Some (NO_ERROR, s2) \<and> sema_total s2 0x80 = Some 1"
proof -
  obtain s1 s2 where s: "obj_release_semaphore 0xA0 0x80 demo_sema = Some (NO_ERROR, s1)"
      "obj_get_semaphore 0xC0 0x80 s1 = Some (NO_ERROR, s2)"
    using demo_sema_run by (auto simp: bind_eq_Some_conv)
  then have "sema_steps demo_sema s2" by (meson sema_steps.intros sema_step.intros)
  moreover have "sema_total demo_sema 0x80 = Some 1" by (simp add: sema_total_def sema_owner_def demo_sema_def)
  ultimately have "sema_total s2 0x80 = Some 1" using sema_total_constant by fastforce
  with s show ?thesis by blast
qed



end
