(* ===== verification/Sleep_Props.thy ===== *)
theory Sleep_Props
  imports Sema_Props Alarm_Props
begin

section \<open>Sleeping threads: properties\<close>

text \<open>
  What happens when the alarm of a sleeping thread fires: the timer's handler, the thread object,
  the scheduler and the alarm manager together.
\<close>

lemma alarm_next_total:
  assumes wf: "am_wf s am m"
  shows "\<exists>s'. alarm_calculate_next_alarm am NULL s = Some s' \<and> am_items s' am = am_items s am \<and> alarms s' = alarms s"
proof -
  have m: "alarm_mgrs s am = Some m" and lh: "lheap_ok (alh s)" "list_live (alh s) (alarm_list m)"
    using wf by (simp_all add: am_wf_def)
  note it = am_items_eq [OF m]
  show ?thesis
  proof (cases "am_items s am")
    case Nil
    then have "list_size (alarm_list m) (alh s) = Some 0" using ls.size_law [OF lh] it by simp
    then show ?thesis using m by (simp add: alarm_calculate_next_alarm_def)
  next
    case (Cons b bs)
    have b: "b \<noteq> NULL" "alarms s b \<noteq> None" using wf Cons by (auto simp: am_wf_def)
    have "list_get (alarm_list m) 0 (alh s) = Some (Some b)" using lf.front_law [OF lh] Cons it by simp
    moreover have "\<exists>n. list_size (alarm_list m) (alh s) = Some n" using ls.size_law [OF lh] by blast
    ultimately show ?thesis
      using m b
      by (auto simp: alarm_calculate_next_alarm_def am_upd_def store_Some alarm_enable_timer_def alarm_get_time_def
          am_items_def)
  qed
qed

text \<open>The callbacks of sleeping threads, as the handler of the timer calls them.\<close>

definition sleep_call :: "ptr \<Rightarrow> ptr \<Rightarrow> u32 \<Rightarrow> ptr \<Rightarrow> 'z kern_scheme \<Rightarrow> 'z kern_scheme option" where
  "sleep_call cb am ident usr s = obj_thread_sleep_callback am ident usr s"

text \<open>
  An example: the alarms at 5, 2 and 3 seconds, the second one due, for the thread object 8 whose
  thread waits.
\<close>

definition demo_sleep :: skern where
  "demo_sleep = demo_sema\<lparr>ah := demo_alarms, thread_objs := [8 \<mapsto> (demo_thr_obj 0x101)\<lparr>oth_alarm_manager := 2\<rparr>]\<rparr>"

lemma demo_sleep_run:
  "(do { k1 \<leftarrow> thread_set_state 0x101 THREAD_READY (ks demo_sleep); k2 \<leftarrow> sch_notify_resume_thread 0x30 0x101 k1; Some () }) =
   Some ()"
  by code_simp

text \<open>
  When the alarm of a sleeping thread fires and the scheduler accepts the thread, the alarm
  that is removed is the head of the list, whichever alarm has fired: the identifier of every
  alarm is 0, and cancelling takes the identifier as a position.  If another thread's alarm is the
  head, it is lost, this thread never wakes up, and the alarm that has fired stays in the list.
\<close>

lemma sleep_timeout_removes_head:
  assumes "am_wf (ah s) am m" "am_items (ah s) am = a # xs"
    and "alarms (ah s) (next_alarm m) = Some y" "next_alarm m \<noteq> NULL" "al_id y = 0" "usr_data y = o'"
    and "o' \<noteq> NULL" "thread_objs s o' = Some x" "alarm_id x = 0" "oth_alarm_manager x = am"
    and "thread_set_state (ot_thread x) THREAD_READY (ks s) = Some k1"
    and "sch_notify_resume_thread (oth_scheduler x) (ot_thread x) k1 = Some k2"
  shows "\<exists>s'. alarm_handle_timer_timeout sleep_call am s = Some s' \<and> am_items (ah s') am = xs \<and>
    alarms (ah s') = (alarms (ah s))(a := None) \<and> ks s' = k2"
proof -
  have am: "am \<noteq> NULL" "alarm_mgrs (ah s) am = Some m" using assms(1) by (simp_all add: am_wf_def)
  obtain h m' where h: "alarm_unset_alarm am 0 (ah s) = Some (NO_ERROR, h)" "am_wf h am m'"
      "am_items h am = xs" "alarms h = (alarms (ah s))(a := None)"
    using alarm_unset_spec [OF assms(1), of 0] assms(2) by auto
  obtain h' where h': "alarm_calculate_next_alarm am NULL h = Some h'" "am_items h' am = xs" "alarms h' = alarms h"
    using alarm_next_total [OF h(2)] h(3) by blast
  have "obj_thread_sleep_callback am 0 o' s = Some (s\<lparr>ks := k2, ah := h\<rparr>)"
    using assms am h(1) by (simp add: obj_thread_sleep_callback_def on_ks_def on_ah_def)
  then have "alarm_handle_timer_timeout sleep_call am s = Some (s\<lparr>ks := k2, ah := h'\<rparr>)"
    using am assms(3-6) h'(1)
    by (simp add: alarm_handle_timer_timeout_def alarm_fire_callback_def sleep_call_def)
  then show ?thesis using h'(2,3) h(4) by simp
qed

end
