(* ===== verification/Pipe.thy ===== *)
theory Pipe
  imports Semaphore
begin

section \<open>Pipes (\<open>obj_pipe.c\<close>)\<close>

text \<open>
  A pipe that receives has a ring buffer of messages, each with its length in front.  The
  buffer and the messages of the callers are ranges of a flat byte memory, so a message longer than its place
  overwrites what follows.  Integers in memory are little endian.  The lists of readers and
  senders live in a heap of lists of their own.
\<close>

subsection \<open>State\<close>

datatype tinker_pipe_direction_t = PIPE_DIRECTION_UNKNOWN | PIPE_SEND_RECEIVE | PIPE_SEND | PIPE_RECEIVE
datatype tinker_pipe_send_kind_t = PIPE_TX_SEND_ALL | PIPE_TX_SEND_AVAILABLE

record rx_data_t =
  free_messages :: u32
  total_messages :: u32
  read_msg_position :: u32
  write_msg_position :: u32
  message_size :: u32
  blocked_owner :: ptr
  blocked_message :: ptr
  blocked_message_size :: ptr
  read_msg_ptr :: ptr
  write_msg_ptr :: ptr
  senders :: ptr

record tx_data_t =
  sending_thread :: ptr
  readers :: ptr

record object_pipe_t =
  direction :: tinker_pipe_direction_t
  pipe_pool :: ptr
  memory :: ptr
  rx_data :: rx_data_t
  tx_data :: tx_data_t
  pipe_reg :: ptr
  pipe_name :: "u8 list"

type_synonym ram_t = "u32 \<Rightarrow> u8"

record pkern = skern +
  pipe_objs :: "object_pipe_t pheap"
  pipe_lists :: lheap
  ram :: ram_t

subsection \<open>Byte memory\<close>

primrec ram_copy :: "nat \<Rightarrow> ptr \<Rightarrow> ptr \<Rightarrow> ram_t \<Rightarrow> ram_t" where
  "ram_copy 0 dst src r = r"
| "ram_copy (Suc n) dst src r = ram_copy n (dst + 1) (src + 1) (r(dst := r src))"

definition ram_put32 :: "ptr \<Rightarrow> u32 \<Rightarrow> ram_t \<Rightarrow> ram_t" where
  "ram_put32 p v r = r(p := ucast v, p + 1 := ucast (drop_bit 8 v), p + 2 := ucast (drop_bit 16 v),
                       p + 3 := ucast (drop_bit 24 v))"

definition ram_get32 :: "ptr \<Rightarrow> ram_t \<Rightarrow> u32" where
  "ram_get32 p r = ucast (r p) OR push_bit 8 (ucast (r (p + 1))) OR push_bit 16 (ucast (r (p + 2))) OR
     push_bit 24 (ucast (r (p + 3)))"

subsection \<open>Helpers\<close>

definition obj_cast_pipe :: "ptr \<Rightarrow> 'z pkern_scheme \<Rightarrow> ptr option" where
  "obj_cast_pipe o' s = obj_cast PIPE_OBJ o' (oh s)"

definition obj_pipe_get_oid :: "ptr \<Rightarrow> 'z pkern_scheme \<Rightarrow> object_number_t option" where
  "obj_pipe_get_oid o' s = obj_oid o' (oh s)"

definition pipe_can_receive :: "ptr \<Rightarrow> 'z pkern_scheme \<Rightarrow> bool option" where
  "pipe_can_receive p s =
     (if p = NULL then Some False
      else do {
        x \<leftarrow> pipe_objs s p;
        Some ((direction x = PIPE_RECEIVE \<or> direction x = PIPE_SEND_RECEIVE) \<and> free_messages (rx_data x) > 0)
      })"

definition align :: "u32 \<Rightarrow> u32 \<Rightarrow> u32" where
  "align a b = (if a mod b = 0 then a else a + (b - a mod b))"

definition pipe_is_receiver :: "object_pipe_t \<Rightarrow> bool" where
  "pipe_is_receiver x \<longleftrightarrow> direction x = PIPE_RECEIVE \<or> direction x = PIPE_SEND_RECEIVE"

definition pipe_is_sender :: "object_pipe_t \<Rightarrow> bool" where
  "pipe_is_sender x \<longleftrightarrow> direction x = PIPE_SEND \<or> direction x = PIPE_SEND_RECEIVE"

definition on_pl :: "(lheap \<Rightarrow> ('a \<times> lheap) option) \<Rightarrow> 'z pkern_scheme \<Rightarrow> ('a \<times> 'z pkern_scheme) option" where
  "on_pl f s = do { (r, h) \<leftarrow> f (pipe_lists s); Some (r, s\<lparr>pipe_lists := h\<rparr>) }"

definition pipe_upd :: "ptr \<Rightarrow> (object_pipe_t \<Rightarrow> object_pipe_t) \<Rightarrow> 'z pkern_scheme \<Rightarrow> 'z pkern_scheme option" where
  "pipe_upd p f s = do { h \<leftarrow> store p f (pipe_objs s); Some (s\<lparr>pipe_objs := h\<rparr>) }"

definition rx_upd :: "ptr \<Rightarrow> (rx_data_t \<Rightarrow> rx_data_t) \<Rightarrow> 'z pkern_scheme \<Rightarrow> 'z pkern_scheme option" where
  "rx_upd p f = pipe_upd p (\<lambda>x. x\<lparr>rx_data := f (rx_data x)\<rparr>)"

text \<open>The bytes from one message to the next.\<close>

definition pipe_slot :: "rx_data_t \<Rightarrow> u32" where
  "pipe_slot rx = align (message_size rx) 4 + 4"

text \<open>
  The step to the next item of an iteration, as the loops \<open>while (item)\<close> see it: the item after the current
  one, null at the end.
\<close>

definition pl_next :: "ptr \<Rightarrow> ptr \<Rightarrow> 'z pkern_scheme \<Rightarrow> (ptr \<times> 'z pkern_scheme) option" where
  "pl_next it item s = do {
     (_, x, h) \<leftarrow> list_it_next it (pipe_lists s);
     Some (case x of None \<Rightarrow> item | Some y \<Rightarrow> y, s\<lparr>pipe_lists := h\<rparr>)
   }"

definition pl_done :: "ptr \<Rightarrow> 'z pkern_scheme \<Rightarrow> 'z pkern_scheme option" where
  "pl_done it s = do { h \<leftarrow> list_it_delete it (pipe_lists s); Some (s\<lparr>pipe_lists := h\<rparr>) }"

subsection \<open>The ring buffer\<close>

partial_function (option) pipe_notify_loop :: "ptr \<Rightarrow> ptr \<Rightarrow> 'z pkern_scheme \<Rightarrow> 'z pkern_scheme option" where
  "pipe_notify_loop it sender s =
     (if sender = NULL then Some s
      else do {
        x \<leftarrow> pipe_objs s sender;
        (_, s) \<leftarrow> obj_set_thread_ready (sending_thread (tx_data x)) s;
        (sender, s) \<leftarrow> pl_next it sender s;
        pipe_notify_loop it sender s
      })"

definition obj_pipe_received_message :: "ptr \<Rightarrow> 'z pkern_scheme \<Rightarrow> (return_t \<times> 'z pkern_scheme) option" where
  "obj_pipe_received_message pipe s =
     (if pipe = NULL then Some (INVALID_OBJECT, s)
      else do {
        x \<leftarrow> pipe_objs s pipe;
        s \<leftarrow> rx_upd pipe (\<lambda>rx. rx\<lparr>free_messages := free_messages rx + 1\<rparr>) s;
        s \<leftarrow> (if read_msg_position (rx_data x) + 1 = total_messages (rx_data x)
              then rx_upd pipe (\<lambda>rx. rx\<lparr>read_msg_position := 0, read_msg_ptr := memory x\<rparr>) s
              else rx_upd pipe (\<lambda>rx. rx\<lparr>read_msg_position := read_msg_position rx + 1,
                                      read_msg_ptr := read_msg_ptr rx + pipe_slot rx\<rparr>) s);
        (it, s) \<leftarrow> on_pl (list_it_create (senders (rx_data x))) s;
        (r, s) \<leftarrow> on_pl (list_it_get it) s;
        s \<leftarrow> (case r of None \<Rightarrow> Some s | Some sender \<Rightarrow> pipe_notify_loop it sender s);
        s \<leftarrow> pl_done it s;
        Some (NO_ERROR, s)
      })"

definition pipe_receive_message :: "ptr \<Rightarrow> ptr \<Rightarrow> u32 \<Rightarrow> 'z pkern_scheme \<Rightarrow> 'z pkern_scheme option" where
  "pipe_receive_message receiver message size' s = do {
     x \<leftarrow> pipe_objs s receiver;
     let rx = rx_data x;
     let s = s\<lparr>ram := ram_put32 (write_msg_ptr rx) size' (ram s)\<rparr>;
     let s = s\<lparr>ram := ram_copy (unat size') (write_msg_ptr rx + 4) message (ram s)\<rparr>;
     s \<leftarrow> (if write_msg_position rx + 1 = total_messages rx
           then rx_upd receiver (\<lambda>rx. rx\<lparr>write_msg_position := 0, write_msg_ptr := memory x\<rparr>) s
           else rx_upd receiver (\<lambda>rx. rx\<lparr>write_msg_position := write_msg_position rx + 1,
                                       write_msg_ptr := write_msg_ptr rx + pipe_slot rx\<rparr>) s);
     s \<leftarrow> rx_upd receiver (\<lambda>rx. rx\<lparr>free_messages := free_messages rx - 1\<rparr>) s;
     waiting \<leftarrow> obj_thread_is_waiting_on (blocked_owner rx) receiver s;
     if waiting then do {
       (_, s) \<leftarrow> obj_set_thread_ready (blocked_owner rx) s;
       s \<leftarrow> rx_upd receiver (\<lambda>rx. rx\<lparr>blocked_owner := NULL\<rparr>) s;
       let s = s\<lparr>ram := ram_copy 4 (blocked_message_size rx) (read_msg_ptr rx) (ram s)\<rparr>;
       let n = ram_get32 (blocked_message_size rx) (ram s);
       let s = s\<lparr>ram := ram_copy (unat n) (blocked_message rx) (read_msg_ptr rx + 4) (ram s)\<rparr>;
       (_, s) \<leftarrow> obj_pipe_received_message receiver s;
       rx_upd receiver (\<lambda>rx. rx\<lparr>blocked_message := NULL, blocked_message_size := NULL\<rparr>) s
     }
     else Some s
   }"

subsection \<open>Sending\<close>

partial_function (option) pipe_can_send_loop ::
  "ptr \<Rightarrow> bool \<Rightarrow> ptr \<Rightarrow> ptr \<Rightarrow> bool \<Rightarrow> 'z pkern_scheme \<Rightarrow> (bool \<times> 'z pkern_scheme) option" where
  "pipe_can_send_loop pipe blocking it receiver can_send_all s =
     (if receiver = NULL then Some (can_send_all, s)
      else do {
        can \<leftarrow> pipe_can_receive receiver s;
        s \<leftarrow> (if \<not> can \<and> blocking then do {
                x \<leftarrow> pipe_objs s receiver;
                (_, s) \<leftarrow> on_pl (list_add (senders (rx_data x)) pipe) s;
                Some s
              } else Some s);
        (receiver, s) \<leftarrow> pl_next it receiver s;
        pipe_can_send_loop pipe blocking it receiver (can_send_all \<and> can) s
      })"

definition pipe_can_send_to_all :: "ptr \<Rightarrow> bool \<Rightarrow> 'z pkern_scheme \<Rightarrow> (bool \<times> 'z pkern_scheme) option" where
  "pipe_can_send_to_all pipe blocking s = do {
     x \<leftarrow> pipe_objs s pipe;
     (it, s) \<leftarrow> on_pl (list_it_create (readers (tx_data x))) s;
     (r, s) \<leftarrow> on_pl (list_it_get it) s;
     (ok, s) \<leftarrow> (case r of None \<Rightarrow> Some (True, s) | Some receiver \<Rightarrow> pipe_can_send_loop pipe blocking it receiver True s);
     s \<leftarrow> pl_done it s;
     Some (ok, s)
   }"

partial_function (option) pipe_send_loop ::
  "ptr \<Rightarrow> ptr \<Rightarrow> ptr \<Rightarrow> u32 \<Rightarrow> 'z pkern_scheme \<Rightarrow> 'z pkern_scheme option" where
  "pipe_send_loop it receiver message size' s =
     (if receiver = NULL then Some s
      else do {
        can \<leftarrow> pipe_can_receive receiver s;
        s \<leftarrow> (if can then pipe_receive_message receiver message size' s else Some s);
        (receiver, s) \<leftarrow> pl_next it receiver s;
        pipe_send_loop it receiver message size' s
      })"

definition obj_pipe_send_message ::
  "ptr \<Rightarrow> ptr \<Rightarrow> tinker_pipe_send_kind_t \<Rightarrow> ptr \<Rightarrow> u32 \<Rightarrow> bool \<Rightarrow> 'z pkern_scheme \<Rightarrow> (return_t \<times> 'z pkern_scheme) option" where
  "obj_pipe_send_message pipe t send_kind message size' block s = do {
     (result, s) \<leftarrow>
       (if pipe = NULL then Some (INVALID_OBJECT, s)
        else do {
          x \<leftarrow> pipe_objs s pipe;
          if direction x = PIPE_SEND \<or> direction x = PIPE_SEND_RECEIVE then do {
            (ok, s) \<leftarrow> (if send_kind = PIPE_TX_SEND_ALL then pipe_can_send_to_all pipe block s else Some (True, s));
            if \<not> ok then
              (if block then do {
                 s \<leftarrow> pipe_upd pipe (\<lambda>x. x\<lparr>tx_data := (tx_data x)\<lparr>sending_thread := t\<rparr>\<rparr>) s;
                 (_, s) \<leftarrow> obj_set_thread_waiting t pipe s;
                 Some (BLOCKED_RETRY, s)
               }
               else Some (PIPE_RECEIVERS_FULL, s))
            else Some (NO_ERROR, s)
          }
          else Some (PIPE_POLARITY_WRONG, s)
        });
     if result = NO_ERROR then do {
       x \<leftarrow> pipe_objs s pipe;
       (it, s) \<leftarrow> on_pl (list_it_create (readers (tx_data x))) s;
       (r, s) \<leftarrow> on_pl (list_it_get it) s;
       s \<leftarrow> (case r of None \<Rightarrow> Some s | Some receiver \<Rightarrow> pipe_send_loop it receiver message size' s);
       s \<leftarrow> pl_done it s;
       Some (result, s)
     }
     else Some (result, s)
   }"

subsection \<open>Receiving\<close>

definition obj_pipe_receive_message ::
  "ptr \<Rightarrow> ptr \<Rightarrow> ptr \<Rightarrow> ptr \<Rightarrow> u32 \<Rightarrow> bool \<Rightarrow> 'z pkern_scheme \<Rightarrow> (return_t \<times> 'z pkern_scheme) option" where
  "obj_pipe_receive_message pipe t message size_ptr max_size block s =
     (if pipe = NULL then Some (INVALID_OBJECT, s)
      else do {
        x \<leftarrow> pipe_objs s pipe;
        let rx = rx_data x;
        if message \<noteq> NULL \<and> size_ptr \<noteq> NULL then
          (if pipe_is_receiver x then
             (if free_messages rx < total_messages rx then do {
                let s = s\<lparr>ram := ram_copy 4 size_ptr (read_msg_ptr rx) (ram s)\<rparr>;
                let n = ram_get32 size_ptr (ram s);
                if n > max_size then Some (PARAMETERS_OUT_OF_RANGE, s)
                else do {
                  let s = s\<lparr>ram := ram_copy (unat n) message (read_msg_ptr rx + 4) (ram s)\<rparr>;
                  (_, s) \<leftarrow> obj_pipe_received_message pipe s;
                  Some (NO_ERROR, s)
                }
              }
              else if block then do {
                (_, s) \<leftarrow> obj_set_thread_waiting t pipe s;
                s \<leftarrow> rx_upd pipe (\<lambda>rx. rx\<lparr>blocked_owner := t, blocked_message := message,
                                      blocked_message_size := size_ptr\<rparr>) s;
                Some (NO_ERROR, s)
              }
              else Some (PIPE_EMPTY, s))
           else Some (PIPE_POLARITY_WRONG, s))
        else Some (PARAMETERS_INVALID, s)
      })"

subsection \<open>Creation, opening and deletion\<close>

definition ram_clear :: "ptr \<Rightarrow> u32 \<Rightarrow> ram_t \<Rightarrow> ram_t" where
  "ram_clear p n r = (\<lambda>a. if a - p < n then 0 else r a)"

text \<open>The loop that rounds a size up to whole pages; a page has 4096 bytes, so it ends within as many rounds.\<close>

primrec pipe_pad :: "nat \<Rightarrow> u32 \<Rightarrow> u32" where
  "pipe_pad 0 n = n"
| "pipe_pad (Suc k) n = (if n mod of_nat MMU_PAGE_SIZE \<noteq> 0 then pipe_pad k (n + 1) else n)"

text \<open>A list of a new pipe; the result is the error so far, or a failed allocation.\<close>

definition pipe_list_create :: "ptr \<Rightarrow> return_t \<Rightarrow> 'z pkern_scheme \<Rightarrow> (ptr \<times> return_t \<times> 'z pkern_scheme) option" where
  "pipe_list_create pool result s = do {
     (l, s) \<leftarrow> on_pl (list_create pool) s;
     Some (l, if l = NULL then OUT_OF_MEMORY else result, s)
   }"

definition pipe_memory_alloc :: "ptr \<Rightarrow> u32 \<Rightarrow> 'z pkern_scheme \<Rightarrow> (ptr \<times> 'z pkern_scheme) option" where
  "pipe_memory_alloc user_pool bytes s = do {
     (m, as) \<leftarrow> mem_alloc_aligned user_pool MMU_PAGE_SIZE (blocks s) (b_answers s);
     let s = s\<lparr>b_answers := as\<rparr>;
     Some (m, if m \<noteq> NULL then s\<lparr>blocks := (blocks s)(m \<mapsto> bytes)\<rparr> else s)
   }"

text \<open>
  The part of \<open>obj_create_pipe\<close> that allocates the buffer and the lists: the result so far, the
  buffer, the list of readers and the list of senders.
\<close>

definition pipe_create_parts ::
  "ptr \<Rightarrow> ptr \<Rightarrow> tinker_pipe_direction_t \<Rightarrow> u32 \<Rightarrow> u32 \<Rightarrow> 'z pkern_scheme \<Rightarrow>
     (return_t \<times> ptr \<times> ptr \<times> ptr \<times> 'z pkern_scheme) option" where
  "pipe_create_parts pool user_pool dir msg_size messages s =
     (case dir of
        PIPE_DIRECTION_UNKNOWN \<Rightarrow> Some (PARAMETERS_INVALID, NULL, NULL, NULL, s)
      | PIPE_SEND \<Rightarrow> do { (tx, result, s) \<leftarrow> pipe_list_create pool NO_ERROR s; Some (result, NULL, tx, NULL, s) }
      | _ \<Rightarrow> do {
          (tx, result, s) \<leftarrow>
            (if dir = PIPE_SEND_RECEIVE then pipe_list_create pool NO_ERROR s else Some (NULL, NO_ERROR, s));
          let result = (if msg_size mod 4 \<noteq> 0 then PIPE_MESSAGE_SIZE_NOT_ALIGNED else result);
          if result \<noteq> NO_ERROR then Some (result, NULL, tx, NULL, s)
          else do {
            let bytes = pipe_pad MMU_PAGE_SIZE (msg_size * messages + messages * 4);
            (mem, s) \<leftarrow> pipe_memory_alloc user_pool bytes s;
            if mem = NULL then Some (OUT_OF_MEMORY, mem, tx, NULL, s)
            else if bytes > 0 then do {
              let s = s\<lparr>ram := ram_clear mem bytes (ram s)\<rparr>;
              (rxl, result, s) \<leftarrow> pipe_list_create pool NO_ERROR s;
              Some (result, mem, tx, rxl, s)
            }
            else Some (NO_ERROR, mem, tx, NULL, s)
          }
        })"

text \<open>The object made of the parts.\<close>

definition new_pipe ::
  "tinker_pipe_direction_t \<Rightarrow> ptr \<Rightarrow> ptr \<Rightarrow> ptr \<Rightarrow> ptr \<Rightarrow> u32 \<Rightarrow> u32 \<Rightarrow> ptr \<Rightarrow> u8 list \<Rightarrow> object_pipe_t" where
  "new_pipe dir pool mem tx rxl msg_size messages reg name =
     \<lparr>direction = dir, pipe_pool = pool, memory = mem,
      rx_data = \<lparr>free_messages = messages, total_messages = messages, read_msg_position = 0, write_msg_position = 0,
                 message_size = msg_size, blocked_owner = NULL, blocked_message = NULL, blocked_message_size = NULL,
                 read_msg_ptr = mem, write_msg_ptr = mem, senders = rxl\<rparr>,
      tx_data = \<lparr>sending_thread = NULL, readers = tx\<rparr>, pipe_reg = reg, pipe_name = name\<rparr>"

text \<open>An error of the parts is reported as \<open>OUT_OF_MEMORY\<close>, whatever it was, and leaks the parts.\<close>

definition obj_create_pipe ::
  "ptr \<Rightarrow> ptr \<Rightarrow> u8 list option \<Rightarrow> tinker_pipe_direction_t \<Rightarrow> u32 \<Rightarrow> u32 \<Rightarrow> 'z pkern_scheme \<Rightarrow>
     (return_t \<times> object_number_t \<times> 'z pkern_scheme) option" where
  "obj_create_pipe reg process name dir msg_size messages s =
     (if process = NULL then Some (PARAMETERS_NULL, INVALID_OBJECT_ID, s)
      else do {
        table \<leftarrow> process_get_object_table process (ks s);
        if table = NULL then Some (PARAMETERS_OUT_OF_RANGE, INVALID_OBJECT_ID, s)
        else do {
          pool \<leftarrow> process_get_mem_pool process (ks s);
          user_pool \<leftarrow> process_get_user_mem_pool process (ks s);
          (result, mem, tx, rxl, s) \<leftarrow> pipe_create_parts pool user_pool dir msg_size messages s;
          if result \<noteq> NO_ERROR then Some (OUT_OF_MEMORY, INVALID_OBJECT_ID, s)
          else do {
            (no, s) \<leftarrow> on_oh (obj_alloc pool) s;
            (result, objno, h) \<leftarrow> obj_add_object table no (oh s);
            let s = s\<lparr>oh := h\<rparr>;
            case objno of
              None \<Rightarrow> do { h \<leftarrow> obj_free pool no (oh s); Some (result, INVALID_OBJECT_ID, s\<lparr>oh := h\<rparr>) }
            | Some i \<Rightarrow> do {
                h \<leftarrow> obj_initialise_object no i PIPE_OBJ (oh s);
                n \<leftarrow> registry_key name;
                let s = s\<lparr>oh := h, pipe_objs := (pipe_objs s)(no \<mapsto> new_pipe dir pool mem tx rxl msg_size messages reg n)\<rparr>;
                (result, s) \<leftarrow> regsitery_add reg name process i s;
                Some (result, i, s)
              }
          }
        }
      })"

text \<open>The checks of \<open>obj_open_pipe\<close>: the result and the pipe found in the registry.\<close>

definition pipe_open_check ::
  "ptr \<Rightarrow> ptr \<Rightarrow> u8 list option \<Rightarrow> tinker_pipe_direction_t \<Rightarrow> 'z pkern_scheme \<Rightarrow> (return_t \<times> ptr \<times> 'z pkern_scheme) option" where
  "pipe_open_check reg t name dir s = do {
     (_, found) \<leftarrow> registry_get reg name s;
     case found of
       None \<Rightarrow> do { s \<leftarrow> registry_wait_for reg t name s; Some (BLOCKED_RETRY, NULL, s) }
     | Some (other_proc, other_no) \<Rightarrow> do {
         table \<leftarrow> process_get_object_table other_proc (ks s);
         other_obj \<leftarrow> obj_get_object table other_no (oh s);
         other \<leftarrow> obj_cast_pipe other_obj s;
         if other_obj = NULL then Some (INVALID_OBJECT, NULL, s)
         else if other = NULL then Some (WRONG_OBJ_TYPE, NULL, s)
         else do {
           x \<leftarrow> pipe_objs s other;
           Some (case dir of
                   PIPE_DIRECTION_UNKNOWN \<Rightarrow> PARAMETERS_INVALID
                 | PIPE_SEND \<Rightarrow> if \<not> pipe_is_receiver x then PIPE_POLARITY_WRONG else NO_ERROR
                 | PIPE_RECEIVE \<Rightarrow> if \<not> pipe_is_sender x then PIPE_POLARITY_WRONG else NO_ERROR
                 | PIPE_SEND_RECEIVE \<Rightarrow>
                     if \<not> (pipe_is_receiver x \<or> pipe_is_sender x) then PIPE_POLARITY_WRONG else NO_ERROR,
                 other, s)
         }
       }
   }"

text \<open>The parts of an opened pipe; the buffer is made without room for the lengths of the messages.\<close>

definition pipe_open_parts ::
  "ptr \<Rightarrow> ptr \<Rightarrow> tinker_pipe_direction_t \<Rightarrow> u32 \<Rightarrow> u32 \<Rightarrow> 'z pkern_scheme \<Rightarrow>
     (return_t \<times> ptr \<times> ptr \<times> ptr \<times> 'z pkern_scheme) option" where
  "pipe_open_parts pool user_pool dir msg_size messages s =
     (case dir of
        PIPE_DIRECTION_UNKNOWN \<Rightarrow> Some (PARAMETERS_INVALID, NULL, NULL, NULL, s)
      | PIPE_SEND \<Rightarrow> do { (tx, result, s) \<leftarrow> pipe_list_create pool NO_ERROR s; Some (result, NULL, tx, NULL, s) }
      | _ \<Rightarrow> do {
          (tx, result, s) \<leftarrow>
            (if dir = PIPE_SEND_RECEIVE then pipe_list_create pool NO_ERROR s else Some (NULL, NO_ERROR, s));
          let bytes = pipe_pad MMU_PAGE_SIZE (msg_size * messages);
          (mem, s) \<leftarrow> pipe_memory_alloc user_pool bytes s;
          let s = (if mem \<noteq> NULL then s\<lparr>ram := ram_clear mem bytes (ram s)\<rparr> else s);
          let result = (if mem \<noteq> NULL then result else OUT_OF_MEMORY);
          (rxl, result, s) \<leftarrow> pipe_list_create pool result s;
          Some (result, mem, tx, rxl, s)
        })"

definition pl_add :: "ptr \<Rightarrow> ptr \<Rightarrow> 'z pkern_scheme \<Rightarrow> 'z pkern_scheme option" where
  "pl_add l p s = do { (_, s) \<leftarrow> on_pl (list_add l p) s; Some s }"

definition pipe_connect :: "tinker_pipe_direction_t \<Rightarrow> ptr \<Rightarrow> ptr \<Rightarrow> 'z pkern_scheme \<Rightarrow> 'z pkern_scheme option" where
  "pipe_connect dir other no s = do {
     x \<leftarrow> pipe_objs s other;
     y \<leftarrow> pipe_objs s no;
     case dir of
       PIPE_SEND \<Rightarrow> do { s \<leftarrow> pl_add (senders (rx_data x)) no s; pl_add (readers (tx_data y)) other s }
     | PIPE_SEND_RECEIVE \<Rightarrow> do {
         s \<leftarrow> pl_add (readers (tx_data x)) no s;
         s \<leftarrow> pl_add (senders (rx_data x)) no s;
         s \<leftarrow> pl_add (readers (tx_data y)) other s;
         pl_add (senders (rx_data y)) other s
       }
     | PIPE_RECEIVE \<Rightarrow> do { s \<leftarrow> pl_add (readers (tx_data x)) no s; pl_add (senders (rx_data y)) other s }
     | PIPE_DIRECTION_UNKNOWN \<Rightarrow> Some s
   }"

definition obj_open_pipe ::
  "ptr \<Rightarrow> ptr \<Rightarrow> ptr \<Rightarrow> u8 list option \<Rightarrow> tinker_pipe_direction_t \<Rightarrow> u32 \<Rightarrow> u32 \<Rightarrow> 'z pkern_scheme \<Rightarrow>
     (return_t \<times> object_number_t option \<times> 'z pkern_scheme) option" where
  "obj_open_pipe reg process t name dir msg_size messages s = do {
     (result, other, s) \<leftarrow> pipe_open_check reg t name dir s;
     if result \<noteq> NO_ERROR then Some (result, None, s)
     else if process = NULL then Some (PARAMETERS_NULL, None, s)
     else do {
       table \<leftarrow> process_get_object_table process (ks s);
       if table = NULL then Some (PARAMETERS_OUT_OF_RANGE, None, s)
       else do {
         pool \<leftarrow> process_get_mem_pool process (ks s);
         user_pool \<leftarrow> process_get_user_mem_pool process (ks s);
         (result, mem, tx, rxl, s) \<leftarrow> pipe_open_parts pool user_pool dir msg_size messages s;
         if result \<noteq> NO_ERROR then Some (OUT_OF_MEMORY, None, s)
         else do {
           (no, s) \<leftarrow> on_oh (obj_alloc pool) s;
           (result, objno, h) \<leftarrow> obj_add_object table no (oh s);
           let s = s\<lparr>oh := h\<rparr>;
           case objno of
             None \<Rightarrow> do { h \<leftarrow> obj_free pool no (oh s); Some (result, None, s\<lparr>oh := h\<rparr>) }
           | Some i \<Rightarrow> do {
               h \<leftarrow> obj_initialise_object no i PIPE_OBJ (oh s);
               n \<leftarrow> registry_key name;
               let s = s\<lparr>oh := h, pipe_objs := (pipe_objs s)(no \<mapsto> new_pipe dir pool mem tx rxl msg_size messages reg n)\<rparr>;
               s \<leftarrow> pipe_connect dir other no s;
               Some (result, Some i, s)
             }
         }
       }
     }
   }"

text \<open>The buffer is released into the pool of the object, not the one it comes from.\<close>

definition obj_delete_pipe :: "ptr \<Rightarrow> 'z pkern_scheme \<Rightarrow> (return_t \<times> 'z pkern_scheme) option" where
  "obj_delete_pipe p s =
     (if p = NULL then Some (INVALID_OBJECT, s)
      else do {
        x \<leftarrow> pipe_objs s p;
        (_, s) \<leftarrow> registry_remove (pipe_reg x) (Some (pipe_name x)) s;
        b \<leftarrow> mem_free (pipe_pool x) (memory x) (blocks s);
        h \<leftarrow> obj_free (pipe_pool x) p (oh s);
        Some (NO_ERROR, s\<lparr>blocks := b, oh := h, pipe_objs := (pipe_objs s)(p := None)\<rparr>)
      })"

subsection \<open>Reading\<close>

definition pipe_field :: "ptr \<Rightarrow> 'a \<Rightarrow> (object_pipe_t \<Rightarrow> 'a) \<Rightarrow> 'z pkern_scheme \<Rightarrow> 'a option" where
  "pipe_field p none f s = (if p = NULL then Some none else map_option f (pipe_objs s p))"

definition obj_pipe_get_name :: "ptr \<Rightarrow> 'z pkern_scheme \<Rightarrow> u8 list option option" where
  "obj_pipe_get_name p = pipe_field p None (\<lambda>x. Some (pipe_name x))"

definition obj_pipe_get_direction :: "ptr \<Rightarrow> 'z pkern_scheme \<Rightarrow> tinker_pipe_direction_t option" where
  "obj_pipe_get_direction p = pipe_field p PIPE_DIRECTION_UNKNOWN direction"

definition obj_pipe_get_total_messages :: "ptr \<Rightarrow> 'z pkern_scheme \<Rightarrow> u32 option" where
  "obj_pipe_get_total_messages p = pipe_field p 0 (\<lambda>x. total_messages (rx_data x))"

definition obj_pipe_get_free_messages :: "ptr \<Rightarrow> 'z pkern_scheme \<Rightarrow> u32 option" where
  "obj_pipe_get_free_messages p = pipe_field p 0 (\<lambda>x. free_messages (rx_data x))"

definition obj_pipe_get_msg_size :: "ptr \<Rightarrow> 'z pkern_scheme \<Rightarrow> u32 option" where
  "obj_pipe_get_msg_size p = pipe_field p 0 (\<lambda>x. message_size (rx_data x))"

definition obj_pipe_get_read_msg_pos :: "ptr \<Rightarrow> 'z pkern_scheme \<Rightarrow> u32 option" where
  "obj_pipe_get_read_msg_pos p = pipe_field p 0 (\<lambda>x. read_msg_position (rx_data x))"

definition obj_pipe_get_write_msg_pos :: "ptr \<Rightarrow> 'z pkern_scheme \<Rightarrow> u32 option" where
  "obj_pipe_get_write_msg_pos p = pipe_field p 0 (\<lambda>x. write_msg_position (rx_data x))"

end
