(* ===== verification/Pipe_Correct.thy ===== *)
theory Pipe_Correct
  imports Pipe Sched_Correct
begin

section \<open>The ring buffer of a pipe\<close>

text \<open>
  The bytes of the memory as lists, and the ring buffer as the sequence of its messages: the
  place \<open>i\<close> of a buffer is the \<open>i\<close>-th multiple of the size of a place, and the messages are those of the
  places from the read position on, around the end.
\<close>

subsection \<open>Ranges of memory\<close>

definition region :: "ptr \<Rightarrow> nat \<Rightarrow> ptr set" where
  "region p n = {a. unat (a - p) < n}"

definition ram_bytes :: "ptr \<Rightarrow> nat \<Rightarrow> ram_t \<Rightarrow> u8 list" where
  "ram_bytes p n r = map (\<lambda>k. r (p + of_nat k)) [0..<n]"

lemma length_ram_bytes [simp]: "length (ram_bytes p n r) = n"
  by (simp add: ram_bytes_def)

lemma unat_of_nat_u32: "n < 2 ^ 32 \<Longrightarrow> unat (of_nat n :: u32) = n"
  by (simp add: unsigned_of_nat take_bit_nat_eq_self)

lemma region_offset: "k < n \<Longrightarrow> n \<le> 2 ^ 32 \<Longrightarrow> p + of_nat k \<in> region p n"
  by (simp add: region_def unsigned_of_nat take_bit_nat_eq_self)

lemma ram_bytes_cong: "n \<le> 2 ^ 32 \<Longrightarrow> (\<And>a. a \<in> region p n \<Longrightarrow> r' a = r a) \<Longrightarrow> ram_bytes p n r' = ram_bytes p n r"
  by (simp add: ram_bytes_def region_offset)

lemma region_shift:
  assumes "Suc n \<le> 2 ^ 32"
  shows "region p (Suc n) = insert p (region (p + 1) n)" "p \<notin> region (p + 1) n"
proof -
  have m1: "unat (- 1 :: u32) = 2 ^ 32 - 1" by (simp add: unsigned_minus_1_eq_mask mask_eq_exp_minus_1)
  have *: "unat (a - p) = Suc (unat (a - (p + 1)))" if "a \<noteq> p" for a
  proof -
    have "a - (p + 1) \<noteq> - 1" using that by (simp add: algebra_simps)
    then have "a - (p + 1) < - 1" using word_order.not_eq_extremum by fastforce
    then have "unat (a - (p + 1) + 1) = Suc (unat (a - (p + 1)))" by (rule unat_inc)
    then show ?thesis by (simp add: algebra_simps)
  qed
  show "region p (Suc n) = insert p (region (p + 1) n)" 
  proof (intro set_eqI)
    fix a
    show "a \<in> region p (Suc n) \<longleftrightarrow> a \<in> insert p (region (p + 1) n)"
      using * [of a] by (cases "a = p") (simp_all add: region_def)
  qed
  show "p \<notin> region (p + 1) n" using assms m1 by (simp add: region_def)
qed

lemma ram_copy_eq:
  assumes "n \<le> 2 ^ 32" "region dst n \<inter> region src n = {}"
  shows "ram_copy n dst src r = (\<lambda>a. if a \<in> region dst n then r (src + (a - dst)) else r a)"
  using assms
proof (induction n arbitrary: dst src r)
  case 0
  then show ?case by (simp add: region_def)
next
  case (Suc n)
  have d: "region dst (Suc n) = insert dst (region (dst + 1) n)" "dst \<notin> region (dst + 1) n"
    and e: "region src (Suc n) = insert src (region (src + 1) n)" "src \<notin> region (src + 1) n"
    using region_shift Suc.prems(1) by auto
  have n: "n \<le> 2 ^ 32" using Suc.prems by simp
  have "region (dst + 1) n \<inter> region (src + 1) n = {}" using Suc.prems d e by auto
  note IH = Suc.IH [OF n this]
  have off: "src + 1 + (a - (dst + 1)) = src + (a - dst)" for a by (simp add: algebra_simps)
  have "src + (a - dst) \<noteq> dst" if "a \<in> region dst (Suc n)" for a
  proof -
    have "src + (a - dst) \<in> region src (Suc n)" using that by (simp add: region_def)
    moreover have "dst \<notin> region src (Suc n)" using Suc.prems(2) d by auto
    ultimately show ?thesis by metis
  qed
  then show ?case using d by (auto simp: IH off fun_eq_iff)
qed

lemma ram_copy_bytes:
  assumes "n \<le> 2 ^ 32" "region dst n \<inter> region src n = {}"
  shows "ram_bytes dst n (ram_copy n dst src r) = ram_bytes src n r"
  using assms by (simp add: ram_copy_eq ram_bytes_def region_offset)

lemma ram_copy_other:
  assumes "n \<le> 2 ^ 32" "region dst n \<inter> region src n = {}" "a \<notin> region dst n"
  shows "ram_copy n dst src r a = r a"
  using assms by (simp add: ram_copy_eq)

lemma region4: "region p 4 = {p, p + 1, p + 2, p + 3}"
proof -
  have "region p (Suc (Suc (Suc (Suc 0)))) = {p, p + 1, p + 1 + 1, p + 1 + 1 + 1}"
    by (simp add: region_shift(1)) (simp add: region_def)
  then show ?thesis by (simp add: algebra_simps numeral_eq_Suc)
qed

lemma ram_get32_cong: "(\<And>a. a \<in> region p 4 \<Longrightarrow> r' a = r a) \<Longrightarrow> ram_get32 p r' = ram_get32 p r"
  by (simp add: ram_get32_def region4)

lemma ram_get32_bytes: "ram_bytes p 4 r' = ram_bytes q 4 r \<Longrightarrow> ram_get32 p r' = ram_get32 q r"
  by (simp add: ram_get32_def ram_bytes_def numeral_eq_Suc)

lemma ram_put32_other: "a \<notin> region p 4 \<Longrightarrow> ram_put32 p v r a = r a"
  by (simp add: ram_put32_def region4)

lemma bytes32: "ucast (ucast v :: u8) OR push_bit 8 (ucast (ucast (drop_bit 8 v) :: u8)) OR
    push_bit 16 (ucast (ucast (drop_bit 16 v) :: u8)) OR push_bit 24 (ucast (ucast (drop_bit 24 v) :: u8)) = (v :: u32)"
proof (rule bit_word_eqI)
  fix n
  assume "n < LENGTH(32)"
  then consider "n < 8" | "8 \<le> n" "n < 16" | "16 \<le> n" "n < 24" | "24 \<le> n" "n < 32" by fastforce
  then show "bit (ucast (ucast v :: u8) OR push_bit 8 (ucast (ucast (drop_bit 8 v) :: u8)) OR
      push_bit 16 (ucast (ucast (drop_bit 16 v) :: u8)) OR push_bit 24 (ucast (ucast (drop_bit 24 v) :: u8)) :: u32) n = bit v n"
    by cases (auto simp: bit_simps)
qed

lemma ram_get_put32: "ram_get32 p (ram_put32 p v r) = v"
proof -
  have "p + 1 \<noteq> p" "p + 2 \<noteq> p" "p + 3 \<noteq> p" "p + 2 \<noteq> p + 1" "p + 3 \<noteq> p + 1" "p + 3 \<noteq> p + 2" by simp_all
  then show ?thesis by (simp add: ram_get32_def ram_put32_def bytes32)
qed

lemma region_mono: "m \<le> n \<Longrightarrow> region p m \<subseteq> region p n"
  by (auto simp: region_def)

lemma region_inner:
  assumes "k + m \<le> 2 ^ 32" "a \<in> region (p + of_nat k) m"
  shows "unat (a - p) = k + unat (a - (p + of_nat k))" "a \<in> region p (k + m)"
proof -
  have "unat (a - (p + of_nat k)) < m" using assms(2) by (simp add: region_def)
  then have "k + unat (a - (p + of_nat k)) < 2 ^ 32" using assms(1) by linarith
  then have "unat (of_nat (k + unat (a - (p + of_nat k))) :: u32) = k + unat (a - (p + of_nat k))"
    by (rule unat_of_nat_u32)
  moreover have "of_nat (k + unat (a - (p + of_nat k))) = a - p" by simp
  ultimately show "unat (a - p) = k + unat (a - (p + of_nat k))" by simp
  then show "a \<in> region p (k + m)" using assms(2) by (simp add: region_def)
qed

subsection \<open>Places of a buffer\<close>

definition slots :: "object_pipe_t \<Rightarrow> nat" where
  "slots x = unat (total_messages (rx_data x))"

definition slot_len :: "object_pipe_t \<Rightarrow> nat" where
  "slot_len x = unat (pipe_slot (rx_data x))"

definition slot_at :: "object_pipe_t \<Rightarrow> nat \<Rightarrow> ptr" where
  "slot_at x i = memory x + of_nat (i * slot_len x)"

definition buffer :: "object_pipe_t \<Rightarrow> ptr set" where
  "buffer x = region (memory x) (slots x * slot_len x)"

definition slot_msg :: "object_pipe_t \<Rightarrow> nat \<Rightarrow> ram_t \<Rightarrow> u8 list" where
  "slot_msg x i r = ram_bytes (slot_at x i + 4) (unat (ram_get32 (slot_at x i) r)) r"

definition slots_ok :: "object_pipe_t \<Rightarrow> bool" where
  "slots_ok x \<longleftrightarrow> 0 < slots x \<and> 4 \<le> slot_len x \<and> slots x * slot_len x \<le> 2 ^ 32"

lemma slots_okD:
  assumes "slots_ok x"
  shows "0 < slots x" "4 \<le> slot_len x" "slots x * slot_len x \<le> 2 ^ 32" "slot_len x \<le> 2 ^ 32"
    "i < slots x \<Longrightarrow> i * slot_len x + slot_len x \<le> slots x * slot_len x"
proof -
  show *: "0 < slots x" "4 \<le> slot_len x" "slots x * slot_len x \<le> 2 ^ 32" using assms by (auto simp: slots_ok_def)
  have "1 * slot_len x \<le> slots x * slot_len x" using *(1) by (intro mult_right_mono) auto
  with *(3) show "slot_len x \<le> 2 ^ 32" by linarith
  have "Suc i * slot_len x \<le> slots x * slot_len x" if "i < slots x" using that by (intro mult_right_mono) auto
  then show "i < slots x \<Longrightarrow> i * slot_len x + slot_len x \<le> slots x * slot_len x" by (simp add: add.commute)
qed

lemma slot_region:
  assumes ok: "slots_ok x" and i: "i < slots x" and a: "a \<in> region (slot_at x i) (slot_len x)"
  shows "a \<in> buffer x" "unat (a - memory x) div slot_len x = i"
proof -
  have le: "i * slot_len x + slot_len x \<le> slots x * slot_len x" "slots x * slot_len x \<le> 2 ^ 32"
    using slots_okD [OF ok] i by auto
  then have k: "i * slot_len x + slot_len x \<le> 2 ^ 32" by linarith
  note in' = region_inner [OF k a [unfolded slot_at_def]]
  show "a \<in> buffer x" using in'(2) le(1) region_mono unfolding buffer_def by blast
  have "unat (a - slot_at x i) < slot_len x" using a by (simp add: region_def)
  then show "unat (a - memory x) div slot_len x = i" using in'(1) by (simp add: slot_at_def)
qed

lemma slot_parts:
  assumes "slots_ok x" "n \<le> slot_len x - 4"
  shows "region p 4 \<subseteq> region p (slot_len x)" "region (p + 4) n \<subseteq> region p (slot_len x)"
    "region p 4 \<inter> region (p + 4) n = {}"
proof -
  have le: "4 + n \<le> slot_len x" "4 + n \<le> 2 ^ 32" using assms slots_okD [OF assms(1)] by auto
  note in' = region_inner [where k = 4, simplified, OF le(2) [simplified]]
  show "region p 4 \<subseteq> region p (slot_len x)" using le(1) by (intro region_mono) simp
  show "region (p + 4) n \<subseteq> region p (slot_len x)" using in'(2) region_mono [OF le(1)] by blast
  have "a \<notin> region p 4" if "a \<in> region (p + 4) n" for a using in'(1) [OF that] by (simp add: region_def)
  then show "region p 4 \<inter> region (p + 4) n = {}" by blast
qed

lemma slot_msg_cong:
  assumes ok: "slots_ok x" and n: "unat (ram_get32 (slot_at x i) r) \<le> slot_len x - 4"
    and same: "\<And>a. a \<in> region (slot_at x i) (slot_len x) \<Longrightarrow> r' a = r a"
  shows "slot_msg x i r' = slot_msg x i r" "ram_get32 (slot_at x i) r' = ram_get32 (slot_at x i) r"
proof -
  note parts = slot_parts [OF ok n, of "slot_at x i"]
  show *: "ram_get32 (slot_at x i) r' = ram_get32 (slot_at x i) r" using parts(1) same by (intro ram_get32_cong) blast
  have "unat (ram_get32 (slot_at x i) r) \<le> 2 ^ 32" using n slots_okD(4) [OF ok] by linarith
  then show "slot_msg x i r' = slot_msg x i r"
    unfolding slot_msg_def * using parts(2) same by (intro ram_bytes_cong) auto
qed

text \<open>Writing a message into a place.\<close>

definition slot_write :: "ptr \<Rightarrow> ptr \<Rightarrow> u32 \<Rightarrow> ram_t \<Rightarrow> ram_t" where
  "slot_write p m v r = ram_copy (unat v) (p + 4) m (ram_put32 p v r)"

lemma slot_write_effect:
  assumes ok: "slots_ok x" and i: "i < slots x" and n: "unat v \<le> slot_len x - 4"
    and m: "region m (unat v) \<inter> buffer x = {}"
  shows "a \<notin> region (slot_at x i) (slot_len x) \<Longrightarrow> slot_write (slot_at x i) m v r a = r a"
    "ram_get32 (slot_at x i) (slot_write (slot_at x i) m v r) = v"
    "slot_msg x i (slot_write (slot_at x i) m v r) = ram_bytes m (unat v) r"
proof -
  let ?p = "slot_at x i"
  note parts = slot_parts [OF ok n, of ?p]
  have sub: "region ?p (slot_len x) \<subseteq> buffer x" using slot_region(1) [OF ok i] by blast
  then have dis: "region (?p + 4) (unat v) \<inter> region m (unat v) = {}" "region ?p 4 \<inter> region m (unat v) = {}"
    using parts m by blast+
  have le: "unat v \<le> 2 ^ 32" using n slots_okD(4) [OF ok] by linarith
  show "a \<notin> region ?p (slot_len x) \<Longrightarrow> slot_write ?p m v r a = r a"
  proof -
    assume "a \<notin> region ?p (slot_len x)"
    then have "a \<notin> region (?p + 4) (unat v)" "a \<notin> region ?p 4" using parts by auto
    then show ?thesis unfolding slot_write_def by (simp add: ram_copy_other [OF le dis(1)] ram_put32_other)
  qed
  have "ram_get32 ?p (slot_write ?p m v r) = ram_get32 ?p (ram_put32 ?p v r)"
    unfolding slot_write_def using parts(3) by (intro ram_get32_cong ram_copy_other [OF le dis(1)]) auto
  then show get: "ram_get32 ?p (slot_write ?p m v r) = v" by (simp add: ram_get_put32)
  have "ram_bytes m (unat v) (ram_put32 ?p v r) = ram_bytes m (unat v) r"
    using dis(2) by (intro ram_bytes_cong [OF le] ram_put32_other) auto
  then show "slot_msg x i (slot_write ?p m v r) = ram_bytes m (unat v) r"
    unfolding slot_msg_def get using ram_copy_bytes [OF le dis(1)] by (simp add: slot_write_def)
qed

subsection \<open>The messages of a buffer\<close>

definition used :: "object_pipe_t \<Rightarrow> nat" where
  "used x = slots x - unat (free_messages (rx_data x))"

definition place :: "object_pipe_t \<Rightarrow> nat \<Rightarrow> nat" where
  "place x i = (unat (read_msg_position (rx_data x)) + i) mod slots x"

definition pipe_msgs :: "object_pipe_t \<Rightarrow> ram_t \<Rightarrow> u8 list list" where
  "pipe_msgs x r = map (\<lambda>i. slot_msg x (place x i) r) [0..<used x]"

definition ring_ok :: "object_pipe_t \<Rightarrow> ram_t \<Rightarrow> bool" where
  "ring_ok x r \<longleftrightarrow> slots_ok x \<and> unat (free_messages (rx_data x)) \<le> slots x \<and>
     unat (read_msg_position (rx_data x)) < slots x \<and>
     unat (write_msg_position (rx_data x)) = place x (used x) \<and>
     read_msg_ptr (rx_data x) = slot_at x (unat (read_msg_position (rx_data x))) \<and>
     write_msg_ptr (rx_data x) = slot_at x (unat (write_msg_position (rx_data x))) \<and>
     (\<forall>i < used x. unat (ram_get32 (slot_at x (place x i)) r) \<le> slot_len x - 4)"

definition next_pos :: "rx_data_t \<Rightarrow> u32 \<Rightarrow> u32" where
  "next_pos rx p = (if p + 1 = total_messages rx then 0 else p + 1)"

definition next_ptr :: "object_pipe_t \<Rightarrow> u32 \<Rightarrow> ptr \<Rightarrow> ptr" where
  "next_ptr x p q = (if p + 1 = total_messages (rx_data x) then memory x else q + pipe_slot (rx_data x))"

definition ring_put :: "object_pipe_t \<Rightarrow> object_pipe_t" where
  "ring_put x = (let rx = rx_data x in x\<lparr>rx_data := rx\<lparr>write_msg_position := next_pos rx (write_msg_position rx),
     write_msg_ptr := next_ptr x (write_msg_position rx) (write_msg_ptr rx), free_messages := free_messages rx - 1\<rparr>\<rparr>)"

definition ring_take :: "object_pipe_t \<Rightarrow> object_pipe_t" where
  "ring_take x = (let rx = rx_data x in x\<lparr>rx_data := rx\<lparr>free_messages := free_messages rx + 1,
     read_msg_position := next_pos rx (read_msg_position rx),
     read_msg_ptr := next_ptr x (read_msg_position rx) (read_msg_ptr rx)\<rparr>\<rparr>)"

lemma ring_views [simp]:
  "slots (ring_put x) = slots x" "slot_len (ring_put x) = slot_len x" "slot_at (ring_put x) = slot_at x"
  "slot_msg (ring_put x) = slot_msg x" "buffer (ring_put x) = buffer x" "slots_ok (ring_put x) = slots_ok x"
  "slots (ring_take x) = slots x" "slot_len (ring_take x) = slot_len x" "slot_at (ring_take x) = slot_at x"
  "slot_msg (ring_take x) = slot_msg x" "buffer (ring_take x) = buffer x" "slots_ok (ring_take x) = slots_ok x"
  by (simp_all add: fun_eq_iff slots_def slot_len_def slot_at_def slot_msg_def buffer_def slots_ok_def pipe_slot_def
      ring_put_def ring_take_def Let_def)

lemma slot_inc:
  assumes "unat (p :: u32) < slots x"
  shows "unat (p + 1) = Suc (unat p)"
proof (rule unat_inc)
  have "p < total_messages (rx_data x)" using assms by (simp add: slots_def word_less_nat_alt)
  then show "p < - 1" using word_order.extremum_strict word_order.not_eq_extremum by fastforce
qed

lemma next_pos_mod:
  assumes "unat p < slots x"
  shows "unat (next_pos (rx_data x) p) = (unat p + 1) mod slots x"
proof -
  have inc: "unat (p + 1) = Suc (unat p)" using assms by (rule slot_inc)
  then have "p + 1 = total_messages (rx_data x) \<longleftrightarrow> Suc (unat p) = slots x"
    by (metis slots_def word_unat_eq_iff)
  then show ?thesis using assms inc by (simp add: next_pos_def)
qed

lemma next_ptr_slot:
  assumes "unat p < slots x"
  shows "next_ptr x p (slot_at x (unat p)) = slot_at x (unat (next_pos (rx_data x) p))"
proof -
  have inc: "unat (p + 1) = Suc (unat p)" using assms by (rule slot_inc)
  have "of_nat (slot_len x) = pipe_slot (rx_data x)" by (simp add: slot_len_def)
  then show ?thesis using inc by (simp add: next_ptr_def next_pos_def slot_at_def algebra_simps)
qed

lemma place_less: "slots_ok x \<Longrightarrow> place x i < slots x"
  by (simp add: place_def slots_ok_def)

lemma place_inj:
  assumes "place x i = place x j" "i < slots x" "j < slots x"
  shows "i = j"
proof -
  have "i = j" if "(a + i) mod n = (a + j) mod n" "i \<le> j" "j < n" for a n i j :: nat
  proof -
    have "n dvd (a + j) - (a + i)" using that by (metis add_le_mono le_refl mod_eq_dvd_iff_nat)
    with that show ?thesis by (auto dest: dvd_imp_le)
  qed
  then show ?thesis using assms by (metis nat_le_linear place_def)
qed

lemma ring_cong:
  assumes ok: "ring_ok x r" and same: "\<And>a. a \<in> buffer x \<Longrightarrow> r' a = r a"
  shows "ring_ok x r'" "pipe_msgs x r' = pipe_msgs x r"
proof -
  have s: "slots_ok x" using ok by (simp add: ring_ok_def)
  have "slot_msg x (place x i) r' = slot_msg x (place x i) r \<and>
        ram_get32 (slot_at x (place x i)) r' = ram_get32 (slot_at x (place x i)) r" if "i < used x" for i
    using slot_msg_cong [OF s, of "place x i" r r'] ok that same slot_region(1) [OF s place_less [OF s]]
    by (simp add: ring_ok_def)
  then show "ring_ok x r'" "pipe_msgs x r' = pipe_msgs x r"
    using ok by (simp_all add: ring_ok_def pipe_msgs_def)
qed

text \<open>Storing a message appends it, taking one removes the first.\<close>

lemma ring_put_ok:
  assumes ok: "ring_ok x r" and free: "free_messages (rx_data x) > 0" and n: "unat v \<le> slot_len x - 4"
    and m: "region m (unat v) \<inter> buffer x = {}"
  shows "ring_ok (ring_put x) (slot_write (write_msg_ptr (rx_data x)) m v r)"
    "pipe_msgs (ring_put x) (slot_write (write_msg_ptr (rx_data x)) m v r) = pipe_msgs x r @ [ram_bytes m (unat v) r]"
    "a \<notin> buffer x \<Longrightarrow> slot_write (write_msg_ptr (rx_data x)) m v r a = r a"
proof -
  let ?w = "place x (used x)"
  define r' where "r' = slot_write (write_msg_ptr (rx_data x)) m v r"
  have s: "slots_ok x" and wp: "unat (write_msg_position (rx_data x)) = ?w" and w: "?w < slots x"
    and r': "r' = slot_write (slot_at x ?w) m v r"
    using ok place_less [of x] by (simp_all add: ring_ok_def r'_def)
  note eff = slot_write_effect [OF s w n m, where r = r, folded r']
  have f: "unat (free_messages (rx_data x) - 1) = unat (free_messages (rx_data x)) - 1"
    "0 < unat (free_messages (rx_data x))" "unat (free_messages (rx_data x)) \<le> slots x"
    using free ok by (simp_all add: ring_ok_def unat_minus_one word_gt_0 unat_gt_0)
  then have u: "used (ring_put x) = Suc (used x)" "used x < slots x"
    by (simp_all add: used_def ring_put_def Let_def slots_def)
  have pl: "place (ring_put x) = place x"
    by (simp add: ring_put_def Let_def fun_eq_iff place_def slots_def)
  have other: "slot_msg x (place x i) r' = slot_msg x (place x i) r"
    "ram_get32 (slot_at x (place x i)) r' = ram_get32 (slot_at x (place x i)) r" if "i < used x" for i
  proof -
    have "place x i \<noteq> ?w" using place_inj [of x i "used x"] that u by auto
    then have "a \<notin> region (slot_at x ?w) (slot_len x)" if "a \<in> region (slot_at x (place x i)) (slot_len x)" for a
      using slot_region(2) [OF s place_less [OF s] that] slot_region(2) [OF s w, of a] by auto
    then show "slot_msg x (place x i) r' = slot_msg x (place x i) r"
      "ram_get32 (slot_at x (place x i)) r' = ram_get32 (slot_at x (place x i)) r"
      using slot_msg_cong [OF s, of "place x i" r r'] eff(1) ok that by (simp_all add: ring_ok_def)
  qed
  have "pipe_msgs (ring_put x) r' = pipe_msgs x r @ [ram_bytes m (unat v) r]"
    using other eff(3) by (simp add: pipe_msgs_def u pl)
  then show "pipe_msgs (ring_put x) (slot_write (write_msg_ptr (rx_data x)) m v r) = pipe_msgs x r @ [ram_bytes m (unat v) r]"
    by (simp add: r'_def)
  have next': "unat (next_pos (rx_data x) (write_msg_position (rx_data x))) = place x (Suc (used x))"
    using next_pos_mod [of "write_msg_position (rx_data x)" x] wp w by (simp add: place_def mod_Suc_eq)
  have "unat (ram_get32 (slot_at x (place x i)) r') \<le> slot_len x - 4" if "i < Suc (used x)" for i
    using that other(2) [of i] eff(2) n ok by (cases "i = used x") (auto simp: ring_ok_def)
  moreover have "write_msg_ptr (rx_data (ring_put x)) = slot_at x (unat (write_msg_position (rx_data (ring_put x))))"
    using next_ptr_slot [of "write_msg_position (rx_data x)" x] ok wp w by (simp add: ring_put_def Let_def ring_ok_def)
  moreover have "unat (write_msg_position (rx_data (ring_put x))) = place x (Suc (used x))"
    using next' by (simp add: ring_put_def Let_def)
  moreover have "unat (free_messages (rx_data (ring_put x))) \<le> slots x"
    using f by (simp add: ring_put_def Let_def)
  moreover have "read_msg_position (rx_data (ring_put x)) = read_msg_position (rx_data x)"
    "read_msg_ptr (rx_data (ring_put x)) = read_msg_ptr (rx_data x)" by (simp_all add: ring_put_def Let_def)
  ultimately have "ring_ok (ring_put x) r'" using ok s by (simp add: ring_ok_def u pl)
  then show "ring_ok (ring_put x) (slot_write (write_msg_ptr (rx_data x)) m v r)" by (simp add: r'_def)
  show "slot_write (write_msg_ptr (rx_data x)) m v r a = r a" if "a \<notin> buffer x"
    using that eff(1) [of a] slot_region(1) [OF s w] by (auto simp: r'_def)
qed

lemma ring_take_ok:
  assumes ok: "ring_ok x r" and u: "free_messages (rx_data x) < total_messages (rx_data x)"
  shows "ring_ok (ring_take x) r" "pipe_msgs (ring_take x) r = tl (pipe_msgs x r)"
    "pipe_msgs x r = slot_msg x (unat (read_msg_position (rx_data x))) r # pipe_msgs (ring_take x) r"
proof -
  let ?f = "free_messages (rx_data x)"
  have s: "slots_ok x" and rp: "unat (read_msg_position (rx_data x)) < slots x" using ok by (simp_all add: ring_ok_def)
  have "?f < - 1" using u word_order.extremum_strict word_order.not_eq_extremum by fastforce
  then have f: "unat (?f + 1) = Suc (unat ?f)" by (rule unat_inc)
  have less: "unat ?f < slots x" using u by (simp add: slots_def word_less_nat_alt)
  have us: "used x = Suc (used (ring_take x))" using f less by (simp add: used_def ring_take_def Let_def slots_def)
  have pl: "place (ring_take x) i = place x (Suc i)" for i
    using next_pos_mod [OF rp] by (simp add: place_def ring_take_def Let_def slots_def mod_simps)
  have p0: "place x 0 = unat (read_msg_position (rx_data x))" using rp by (simp add: place_def)
  have "[0..<used x] = 0 # map Suc [0..<used (ring_take x)]" unfolding us by (simp add: upt_conv_Cons map_Suc_upt del: upt_Suc)
  then show cons: "pipe_msgs x r = slot_msg x (unat (read_msg_position (rx_data x))) r # pipe_msgs (ring_take x) r"
    by (simp add: pipe_msgs_def pl p0)
  then show "pipe_msgs (ring_take x) r = tl (pipe_msgs x r)" by simp
  have "\<forall>i < used (ring_take x). unat (ram_get32 (slot_at x (place (ring_take x) i)) r) \<le> slot_len x - 4"
    using ok us by (simp add: ring_ok_def pl)
  moreover have "unat (free_messages (rx_data (ring_take x))) \<le> slots x" using f less by (simp add: ring_take_def Let_def)
  moreover have "unat (read_msg_position (rx_data (ring_take x))) < slots x"
    using next_pos_mod [OF rp] slots_okD(1) [OF s] by (simp add: ring_take_def Let_def)
  moreover have "read_msg_ptr (rx_data (ring_take x)) = slot_at x (unat (read_msg_position (rx_data (ring_take x))))"
    using next_ptr_slot [OF rp] ok by (simp add: ring_take_def Let_def ring_ok_def)
  moreover have "place (ring_take x) (used (ring_take x)) = place x (used x)" by (simp add: pl us)
  moreover have "write_msg_position (rx_data (ring_take x)) = write_msg_position (rx_data x)"
    "write_msg_ptr (rx_data (ring_take x)) = write_msg_ptr (rx_data x)" by (simp_all add: ring_take_def Let_def)
  ultimately show "ring_ok (ring_take x) r" using ok s by (simp add: ring_ok_def)
qed

end
