(* ===== verification/Pipe_Loop.thy ===== *)
theory Pipe_Loop
  imports Pipe_Correct
begin

section \<open>Loops over the pipes of a list\<close>

text \<open>
  The three loops of \<open>obj_pipe.c\<close> go through the readers or the senders of a pipe with an
  iterator.  The locale \<open>pl_loop\<close> states what such a loop is and proves once that it runs its
  body on every item of the list in order and leaves the lists as they were; it is interpreted on
  each of the loops.  While no thread is blocked on a pipe (\<open>quiet\<close>) the bodies do not look at the lists.
\<close>

primrec run_body :: "(ptr \<Rightarrow> 'a \<Rightarrow> 's \<Rightarrow> ('a \<times> 's) option) \<Rightarrow> ptr list \<Rightarrow> 'a \<Rightarrow> 's \<Rightarrow> ('a \<times> 's) option" where
  "run_body f [] a s = Some (a, s)"
| "run_body f (p # ps) a s = do { (a, s) \<leftarrow> f p a s; run_body f ps a s }"

definition quiet :: "'z pkern_scheme \<Rightarrow> bool" where
  "quiet s \<longleftrightarrow> (\<forall>p x. pipe_objs s p = Some x \<longrightarrow> sending_thread (tx_data x) = NULL \<and> blocked_owner (rx_data x) = NULL)"

definition with_pl :: "lheap \<Rightarrow> 'a \<times> 'z pkern_scheme \<Rightarrow> 'a \<times> 'z pkern_scheme" where
  "with_pl h r = (fst r, (snd r)\<lparr>pipe_lists := h\<rparr>)"

lemma quiet_lists [simp]: "quiet (s\<lparr>pipe_lists := h\<rparr>) = quiet s"
  by (simp add: quiet_def)

lemma with_pl_Pair [simp]: "with_pl h (a, s) = (a, s\<lparr>pipe_lists := h\<rparr>)"
  by (simp add: with_pl_def)

lemma with_pl_with_pl [simp]: "with_pl h (with_pl h' r) = with_pl h r"
  by (simp add: with_pl_def)

locale pl_loop =
  fixes loop :: "ptr \<Rightarrow> ptr \<Rightarrow> 'a \<Rightarrow> 'z pkern_scheme \<Rightarrow> ('a \<times> 'z pkern_scheme) option"
    and body :: "ptr \<Rightarrow> 'a \<Rightarrow> 'z pkern_scheme \<Rightarrow> ('a \<times> 'z pkern_scheme) option"
  assumes loop_end: "loop it NULL a s = Some (a, s)"
    and loop_step: "p \<noteq> NULL \<Longrightarrow>
      loop it p a s = do { (b, s) \<leftarrow> body p a s; (q, s) \<leftarrow> pl_next it p s; loop it q b s }"
    and body_lists: "quiet s \<Longrightarrow> body p a (s\<lparr>pipe_lists := h\<rparr>) = map_option (with_pl h) (body p a s)"
    and body_quiet: "quiet s \<Longrightarrow> body p a s = Some (b, t) \<Longrightarrow> quiet t"
begin

lemma run_lists: "quiet s \<Longrightarrow> run_body body ps a (s\<lparr>pipe_lists := h\<rparr>) = map_option (with_pl h) (run_body body ps a s)"
proof (induction ps arbitrary: a s)
  case Nil
  then show ?case by simp
next
  case (Cons p ps)
  show ?case
  proof (cases "body p a s")
    case None
    then show ?thesis using body_lists [OF Cons.prems] by simp
  next
    case (Some r)
    then obtain b t where r: "body p a s = Some (b, t)" by (cases r) auto
    then show ?thesis using body_lists [OF Cons.prems] Cons.IH [OF body_quiet [OF Cons.prems r]] by simp
  qed
qed

lemma run_quiet: "quiet s \<Longrightarrow> run_body body ps a s = Some (b, t) \<Longrightarrow> quiet t"
proof (induction ps arbitrary: a s)
  case (Cons p ps)
  then obtain c u where u: "body p a s = Some (c, u)" "run_body body ps c u = Some (b, t)"
    by (auto simp: bind_eq_Some_conv)
  then show ?case using Cons.IH [OF body_quiet [OF Cons.prems(1) u(1)]] by simp
qed simp

lemma body_keeps:
  assumes "quiet s" "body p a s = Some (b, t)"
  shows "pipe_lists t = pipe_lists s"
proof -
  have "map_option (with_pl (pipe_lists s)) (body p a s) = body p a s"
    using body_lists [OF assms(1), of p a "pipe_lists s"] by simp
  then have "t\<lparr>pipe_lists := pipe_lists s\<rparr> = t" using assms(2) by simp
  then show ?thesis by (metis pkern.select_convs(2) pkern.surjective pkern.update_convs(2))
qed

lemma loop_items:
  assumes "list_ok (pipe_lists s) l" "it_at (pipe_lists s) it l k" "quiet s" "NULL \<notin> set (list_items (pipe_lists s) l)"
    and "run_body body (drop k (list_items (pipe_lists s) l)) a s = Some (b, t)"
  shows "\<exists>i. it_list i = l \<and> loop it (list_items (pipe_lists s) l ! k) a s =
           Some (b, t\<lparr>pipe_lists := (pipe_lists s)\<lparr>its := (its (pipe_lists s))(it \<mapsto> i)\<rparr>\<rparr>)"
  using assms
proof (induction "length (list_items (pipe_lists s) l) - k" arbitrary: k s a t)
  case 0
  then show ?case by (simp add: it_at_def list_items_def)
next
  case (Suc n)
  let ?h = "pipe_lists s" and ?xs = "list_items (pipe_lists s) l"
  have k: "k < length ?xs" using Suc.prems(2) by (simp add: it_at_def list_items_def)
  then have item: "?xs ! k \<noteq> NULL" "drop k ?xs = ?xs ! k # drop (Suc k) ?xs"
    using Suc.prems(4) by (auto simp: Cons_nth_drop_Suc in_set_conv_nth)
  then obtain c u where u: "body (?xs ! k) a s = Some (c, u)" "run_body body (drop (Suc k) ?xs) c u = Some (b, t)"
    using Suc.prems(5) by (auto simp: bind_eq_Some_conv)
  have hu: "pipe_lists u = ?h" and qu: "quiet u" using body_keeps body_quiet Suc.prems(3) u(1) by blast+
  show ?case
  proof (cases "Suc k < length ?xs")
    case False
    then have "t = u" "b = c" using u(2) by simp_all
    moreover have "list_it_next it ?h = Some (False, Some NULL, ?h)"
      using list_it_next_spec [OF Suc.prems(1,2)] False by simp
    moreover have "?h\<lparr>its := (its ?h)(it \<mapsto> the (its ?h it))\<rparr> = ?h" "it_list (the (its ?h it)) = l"
      using Suc.prems(2) by (auto simp: it_at_def fun_upd_idem)
    ultimately show ?thesis
      using item(1) u(1) hu by (intro exI [of _ "the (its ?h it)"]) (simp add: loop_step loop_end pl_next_def)
  next
    case True
    with list_it_next_spec [OF Suc.prems(1,2)] obtain i where
      i: "list_it_next it ?h = Some (True, Some (?xs ! Suc k), ?h\<lparr>its := (its ?h)(it \<mapsto> i)\<rparr>)"
        "it_at (?h\<lparr>its := (its ?h)(it \<mapsto> i)\<rparr>) it l (Suc k)" by auto
    define h1 where "h1 = ?h\<lparr>its := (its ?h)(it \<mapsto> i)\<rparr>"
    have h1: "list_items h1 l = ?xs" "list_ok h1 l" using Suc.prems(1) by (simp_all add: h1_def)
    define s1 where "s1 = u\<lparr>pipe_lists := h1\<rparr>"
    have s1: "pipe_lists s1 = h1" "quiet s1" using qu by (simp_all add: s1_def)
    have run: "run_body body (drop (Suc k) ?xs) c s1 = Some (b, t\<lparr>pipe_lists := h1\<rparr>)"
      using run_lists [OF qu] u(2) by (simp add: s1_def)
    have "n = length (list_items (pipe_lists s1) l) - Suc k" using Suc.hyps(2) s1(1) h1(1) by simp
    from Suc.hyps(1) [OF this, unfolded s1(1) h1(1), OF h1(2) i(2) [folded h1_def] s1(2) Suc.prems(4) run]
    obtain j where "it_list j = l" "loop it (?xs ! Suc k) c s1 =
        Some (b, t\<lparr>pipe_lists := h1, pipe_lists := h1\<lparr>its := (its h1)(it \<mapsto> j)\<rparr>\<rparr>)" by blast
    then show ?thesis
      using item(1) u(1) hu i(1) by (intro exI [of _ j]) (simp add: loop_step pl_next_def h1_def s1_def)
  qed
qed

text \<open>A whole loop: open an iterator, run the body on every item, delete the iterator.\<close>

lemma whole_loop:
  assumes ok: "list_ok (pipe_lists s) l" and mem: "plenty 1 (pipe_lists s)" and q: "quiet s"
    and items: "NULL \<notin> set (list_items (pipe_lists s) l)"
    and run: "run_body body (list_items (pipe_lists s) l) a s = Some (b, t)"
  obtains it h r h' h'' where "on_pl (list_it_create l) s = Some (it, s\<lparr>pipe_lists := h\<rparr>)"
    "on_pl (list_it_get it) (s\<lparr>pipe_lists := h\<rparr>) = Some (r, s\<lparr>pipe_lists := h'\<rparr>)"
    "(case r of None \<Rightarrow> Some (a, s\<lparr>pipe_lists := h'\<rparr>) | Some p \<Rightarrow> loop it p a (s\<lparr>pipe_lists := h'\<rparr>)) =
       Some (b, t\<lparr>pipe_lists := h''\<rparr>)"
    "pl_done it (t\<lparr>pipe_lists := h''\<rparr>) = Some (t\<lparr>pipe_lists := (pipe_lists s)\<lparr>answers := tl (answers (pipe_lists s))\<rparr>\<rparr>)"
proof -
  let ?h = "pipe_lists s"
  have alloc: "answers ?h \<noteq> []" "its ?h (hd (answers ?h)) = None" "hd (answers ?h) \<noteq> NULL"
    using mem by (cases "answers ?h"; auto simp: plenty_def)+
  obtain it h where create: "list_it_create l ?h = Some (it, h)" and ok1: "list_ok h l"
    and items1: "list_items h l = list_items ?h l"
    and none: "list_items ?h l = [] \<Longrightarrow> \<exists>i. it_list i = l \<and> list_it_get it h = Some (None, h\<lparr>its := (its h)(it \<mapsto> i)\<rparr>)"
    and some: "list_items ?h l \<noteq> [] \<Longrightarrow> it_at h it l 0 \<and> list_it_get it h = Some (Some (list_items ?h l ! 0), h)"
    and del: "\<And>i. it_list i = l \<Longrightarrow> list_it_delete it (h\<lparr>its := (its h)(it \<mapsto> i)\<rparr>) = Some (?h\<lparr>answers := tl (answers ?h)\<rparr>)"
    using list_it_open [OF ok alloc] by blast
  have c: "on_pl (list_it_create l) s = Some (it, s\<lparr>pipe_lists := h\<rparr>)" using create by (simp add: on_pl_def)
  show ?thesis
  proof (cases "list_items ?h l = []")
    case True
    then obtain i where i: "it_list i = l" "list_it_get it h = Some (None, h\<lparr>its := (its h)(it \<mapsto> i)\<rparr>)" using none by blast
    have bt: "b = a" "t = s" using run True by simp_all
    have "pl_done it (s\<lparr>pipe_lists := h\<lparr>its := (its h)(it \<mapsto> i)\<rparr>\<rparr>) = Some (s\<lparr>pipe_lists := ?h\<lparr>answers := tl (answers ?h)\<rparr>\<rparr>)"
      using del [OF i(1)] by (simp add: pl_done_def)
    then show ?thesis 
      by (intro that [OF c, of None "h\<lparr>its := (its h)(it \<mapsto> i)\<rparr>" "h\<lparr>its := (its h)(it \<mapsto> i)\<rparr>"])
         (simp_all add: on_pl_def i(2) bt)
  next
    case False
    define s1 where "s1 = s\<lparr>pipe_lists := h\<rparr>"
    have s1: "pipe_lists s1 = h" "quiet s1" using q by (simp_all add: s1_def)
    have at: "it_at h it l 0" and get: "list_it_get it h = Some (Some (list_items ?h l ! 0), h)" using some False by auto
    have "run_body body (drop 0 (list_items ?h l)) a s1 = Some (b, t\<lparr>pipe_lists := h\<rparr>)"
      using run_lists [OF q] run by (simp add: s1_def)
    from loop_items [of s1 l it 0 a b, unfolded s1(1) items1, OF ok1 at s1(2) items this]
    obtain i where i: "it_list i = l" "loop it (list_items ?h l ! 0) a s1 =
        Some (b, t\<lparr>pipe_lists := h\<lparr>its := (its h)(it \<mapsto> i)\<rparr>\<rparr>)" by auto
    then show ?thesis using c del [of i] get s1_def
      by (intro that [of it h "Some (list_items ?h l ! 0)" h]) (auto simp: on_pl_def pl_done_def)
  qed
qed

end

end
