(* ===== verification/Pipe_Ops.thy ===== *)
theory Pipe_Ops
  imports Pipe_Loop
begin

section \<open>What the operations of pipes do\<close>

text \<open>
  The invariant of the pipes, the queue of messages of a pipe as its abstract view, and the effect of sending and
  receiving on it, for calls that do not block.
\<close>

subsection \<open>The loops\<close>

lemma pipe_upd_Some: "pipe_objs s p = Some x \<Longrightarrow> pipe_upd p f s = Some (s\<lparr>pipe_objs := (pipe_objs s)(p \<mapsto> f x)\<rparr>)"
  by (simp add: pipe_upd_def store_Some)

lemma rx_upd_Some:
  "pipe_objs s p = Some x \<Longrightarrow> rx_upd p f s = Some (s\<lparr>pipe_objs := (pipe_objs s)(p \<mapsto> x\<lparr>rx_data := f (rx_data x)\<rparr>)\<rparr>)"
  by (simp add: rx_upd_def pipe_upd_Some)

lemma pipe_receive_idle:
  assumes "pipe_objs s p = Some x" "blocked_owner (rx_data x) = NULL"
  shows "pipe_receive_message p m v s =
    Some (s\<lparr>ram := slot_write (write_msg_ptr (rx_data x)) m v (ram s), pipe_objs := (pipe_objs s)(p \<mapsto> ring_put x)\<rparr>)"
  using assms
  by (simp add: pipe_receive_message_def Let_def rx_upd_Some obj_thread_is_waiting_on_def ring_put_def next_pos_def
      next_ptr_def slot_write_def)

definition notify_body :: "ptr \<Rightarrow> unit \<Rightarrow> 'z pkern_scheme \<Rightarrow> (unit \<times> 'z pkern_scheme) option" where
  "notify_body q a s = do {
     x \<leftarrow> pipe_objs s q;
     (_, s) \<leftarrow> obj_set_thread_ready (sending_thread (tx_data x)) s;
     Some (a, s)
   }"

definition can_body :: "ptr \<Rightarrow> bool \<Rightarrow> 'z pkern_scheme \<Rightarrow> (bool \<times> 'z pkern_scheme) option" where
  "can_body q a s = do { c \<leftarrow> pipe_can_receive q s; Some (a \<and> c, s) }"

definition send_body :: "ptr \<Rightarrow> u32 \<Rightarrow> ptr \<Rightarrow> unit \<Rightarrow> 'z pkern_scheme \<Rightarrow> (unit \<times> 'z pkern_scheme) option" where
  "send_body m v q a s = do {
     c \<leftarrow> pipe_can_receive q s;
     s \<leftarrow> (if c then pipe_receive_message q m v s else Some s);
     Some (a, s)
   }"

lemma quiet_put: "quiet s \<Longrightarrow> pipe_objs s p = Some x \<Longrightarrow> quiet (s\<lparr>ram := r, pipe_objs := (pipe_objs s)(p \<mapsto> ring_put x)\<rparr>)"
  by (auto simp: quiet_def ring_put_def Let_def)

lemma notify_quiet: "quiet s \<Longrightarrow> notify_body q a s = (case pipe_objs s q of None \<Rightarrow> None | Some _ \<Rightarrow> Some (a, s))"
  by (auto simp: notify_body_def quiet_def obj_set_thread_ready_def split: option.splits)

lemma send_quiet:
  assumes "quiet s"
  shows "send_body m v q a s = do {
     c \<leftarrow> pipe_can_receive q s;
     if c then do {
       x \<leftarrow> pipe_objs s q;
       Some (a, s\<lparr>ram := slot_write (write_msg_ptr (rx_data x)) m v (ram s), pipe_objs := (pipe_objs s)(q \<mapsto> ring_put x)\<rparr>)
     }
     else Some (a, s)
   }"
proof (cases "pipe_objs s q")
  case None
  then show ?thesis by (cases "pipe_can_receive q s") (simp_all add: send_body_def pipe_receive_message_def)
next
  case (Some x)
  then have "blocked_owner (rx_data x) = NULL" using assms by (simp add: quiet_def)
  with Some show ?thesis by (cases "pipe_can_receive q s") (simp_all add: send_body_def pipe_receive_idle)
qed

lemma pipe_can_receive_lists [simp]: "pipe_can_receive q (s\<lparr>pipe_lists := h\<rparr>) = pipe_can_receive q s"
  by (simp add: pipe_can_receive_def)

interpretation notify: pl_loop "\<lambda>it q a s. map_option (Pair a) (pipe_notify_loop it q s)" notify_body
proof
  fix it p :: ptr and a b :: unit and s t :: "'z pkern_scheme" and h
  show "map_option (Pair a) (pipe_notify_loop it NULL s) = Some (a, s)" by (simp add: pipe_notify_loop.simps)
  show "map_option (Pair a) (pipe_notify_loop it p s) =
      do { (b, s) \<leftarrow> notify_body p a s; (q, s) \<leftarrow> pl_next it p s; map_option (Pair b) (pipe_notify_loop it q s) }"
    if "p \<noteq> NULL"
    using that by (subst pipe_notify_loop.simps) (auto simp: notify_body_def split: bind_splits)
  show "notify_body p a (s\<lparr>pipe_lists := h\<rparr>) = map_option (with_pl h) (notify_body p a s)" if "quiet s"
    using that by (simp add: notify_quiet split: option.splits)
  show "quiet t" if "quiet s" "notify_body p a s = Some (b, t)"
    using that by (simp add: notify_quiet split: option.splits)
qed

interpretation can: pl_loop "pipe_can_send_loop pipe False" can_body
proof
  fix it p :: ptr and a b :: bool and s t :: "'z pkern_scheme" and h
  show "pipe_can_send_loop pipe False it NULL a s = Some (a, s)" by (simp add: pipe_can_send_loop.simps)
  show "pipe_can_send_loop pipe False it p a s =
      do { (b, s) \<leftarrow> can_body p a s; (q, s) \<leftarrow> pl_next it p s; pipe_can_send_loop pipe False it q b s }" if "p \<noteq> NULL"
    using that by (subst pipe_can_send_loop.simps) (auto simp: can_body_def split: bind_splits)
  show "can_body p a (s\<lparr>pipe_lists := h\<rparr>) = map_option (with_pl h) (can_body p a s)" if "quiet s"
    by (cases "pipe_can_receive p s") (simp_all add: can_body_def)
  show "quiet t" if "quiet s" "can_body p a s = Some (b, t)"
    using that by (auto simp: can_body_def bind_eq_Some_conv)
qed

interpretation send: pl_loop "\<lambda>it q a s. map_option (Pair a) (pipe_send_loop it q m v s)" "send_body m v"
proof
  fix it p :: ptr and a b :: unit and s t :: "'z pkern_scheme" and h
  show "map_option (Pair a) (pipe_send_loop it NULL m v s) = Some (a, s)" by (simp add: pipe_send_loop.simps)
  show "map_option (Pair a) (pipe_send_loop it p m v s) =
      do { (b, s) \<leftarrow> send_body m v p a s; (q, s) \<leftarrow> pl_next it p s; map_option (Pair b) (pipe_send_loop it q m v s) }"
    if "p \<noteq> NULL"
    using that by (subst pipe_send_loop.simps) (auto simp: send_body_def split: bind_splits)
  show "send_body m v p a (s\<lparr>pipe_lists := h\<rparr>) = map_option (with_pl h) (send_body m v p a s)" if "quiet s"
    using that by (cases "pipe_can_receive p s"; cases "pipe_objs s p") (simp_all add: send_quiet)
  show "quiet t" if "quiet s" "send_body m v p a s = Some (b, t)"
    using that by (auto simp: send_quiet bind_eq_Some_conv quiet_put split: if_splits)
qed

subsection \<open>The invariant and the queues\<close>

definition pipes_ok :: "'z pkern_scheme \<Rightarrow> bool" where
  "pipes_ok s \<longleftrightarrow> quiet s \<and> pipe_objs s NULL = None \<and>
     (\<forall>p x. pipe_objs s p = Some x \<longrightarrow> pipe_is_receiver x \<longrightarrow> ring_ok x (ram s) \<and>
        list_ok (pipe_lists s) (senders (rx_data x)) \<and>
        set (list_items (pipe_lists s) (senders (rx_data x))) \<subseteq> dom (pipe_objs s)) \<and>
     (\<forall>p x. pipe_objs s p = Some x \<longrightarrow> pipe_is_sender x \<longrightarrow>
        list_ok (pipe_lists s) (readers (tx_data x)) \<and> distinct (list_items (pipe_lists s) (readers (tx_data x))) \<and>
        (\<forall>q\<in>set (list_items (pipe_lists s) (readers (tx_data x))). \<exists>y. pipe_objs s q = Some y \<and> pipe_is_receiver y)) \<and>
     (\<forall>p q x y. p \<noteq> q \<longrightarrow> pipe_objs s p = Some x \<longrightarrow> pipe_objs s q = Some y \<longrightarrow>
        pipe_is_receiver x \<longrightarrow> pipe_is_receiver y \<longrightarrow> buffer x \<inter> buffer y = {})"

definition pipe_queue :: "'z pkern_scheme \<Rightarrow> ptr \<Rightarrow> u8 list list" where
  "pipe_queue s p = (case pipe_objs s p of None \<Rightarrow> [] | Some x \<Rightarrow> if pipe_is_receiver x then pipe_msgs x (ram s) else [])"

definition pipe_buffers :: "'z pkern_scheme \<Rightarrow> ptr set" where
  "pipe_buffers s = {a. \<exists>p x. pipe_objs s p = Some x \<and> pipe_is_receiver x \<and> a \<in> buffer x}"

definition same_pipe :: "object_pipe_t \<Rightarrow> object_pipe_t \<Rightarrow> bool" where
  "same_pipe x y \<longleftrightarrow> direction y = direction x \<and> buffer y = buffer x \<and> tx_data y = tx_data x \<and>
     senders (rx_data y) = senders (rx_data x) \<and> blocked_owner (rx_data y) = blocked_owner (rx_data x)"

lemma same_pipe_ring [simp]: "same_pipe x (ring_put x)" "same_pipe x (ring_take x)"
  by (simp_all add: same_pipe_def) (simp_all add: ring_put_def ring_take_def Let_def)

lemma same_pipe_kind: "same_pipe x y \<Longrightarrow> pipe_is_receiver y = pipe_is_receiver x \<and> pipe_is_sender y = pipe_is_sender x"
  by (simp add: same_pipe_def pipe_is_receiver_def pipe_is_sender_def)

lemma pipes_okD:
  assumes "pipes_ok s" "pipe_objs s p = Some x"
  shows "p \<noteq> NULL" "quiet s" "pipe_is_receiver x \<Longrightarrow> ring_ok x (ram s)"
    "pipe_is_receiver x \<Longrightarrow> list_ok (pipe_lists s) (senders (rx_data x))"
    "pipe_is_receiver x \<Longrightarrow> set (list_items (pipe_lists s) (senders (rx_data x))) \<subseteq> dom (pipe_objs s)"
    "pipe_is_sender x \<Longrightarrow> list_ok (pipe_lists s) (readers (tx_data x))"
    "pipe_is_sender x \<Longrightarrow> distinct (list_items (pipe_lists s) (readers (tx_data x)))"
    "pipe_is_sender x \<Longrightarrow> q \<in> set (list_items (pipe_lists s) (readers (tx_data x))) \<Longrightarrow>
       \<exists>y. pipe_objs s q = Some y \<and> pipe_is_receiver y"
    "p \<noteq> q \<Longrightarrow> pipe_objs s q = Some y \<Longrightarrow> pipe_is_receiver x \<Longrightarrow> pipe_is_receiver y \<Longrightarrow> buffer x \<inter> buffer y = {}"
  using assms unfolding pipes_ok_def by (metis option.distinct(1))+

text \<open>One pipe and its buffer change.\<close>

lemma pipes_update:
  assumes ok: "pipes_ok s" and x: "pipe_objs s p = Some x" "pipe_is_receiver x" and same: "same_pipe x x'"
    and ring: "ring_ok x' r" and r: "\<And>a. a \<notin> buffer x \<Longrightarrow> r a = ram s a"
  shows "pipes_ok (s\<lparr>ram := r, pipe_objs := (pipe_objs s)(p \<mapsto> x')\<rparr>)"
    "pipe_queue (s\<lparr>ram := r, pipe_objs := (pipe_objs s)(p \<mapsto> x')\<rparr>) = (pipe_queue s)(p := pipe_msgs x' r)"
    "pipe_buffers (s\<lparr>ram := r, pipe_objs := (pipe_objs s)(p \<mapsto> x')\<rparr>) = pipe_buffers s"
proof -
  let ?o = "(pipe_objs s)(p \<mapsto> x')"
  note kind = same_pipe_kind [OF same]
  have other: "ring_ok y r" "pipe_msgs y r = pipe_msgs y (ram s)"
    if "q \<noteq> p" "pipe_objs s q = Some y" "pipe_is_receiver y" for q y
  proof -
    have "buffer x \<inter> buffer y = {}" using pipes_okD(9) [OF ok x(1)] that x(2) by metis
    then have "\<And>a. a \<in> buffer y \<Longrightarrow> r a = ram s a" using r by blast
    then show "ring_ok y r" "pipe_msgs y r = pipe_msgs y (ram s)" using ring_cong pipes_okD(3) [OF ok] that by metis+
  qed
  have at: "\<exists>z. pipe_objs s q = Some z \<and> same_pipe z y" if "?o q = Some y" for q y
    using that same x(1) by (auto simp: same_pipe_def split: if_splits)
  have "quiet (s\<lparr>ram := r, pipe_objs := ?o\<rparr>)"
    using pipes_okD(2) [OF ok x(1)] same x(1) by (auto simp: quiet_def same_pipe_def)
  moreover have "?o NULL = None" using ok pipes_okD(1) [OF ok x(1)] by (simp add: pipes_ok_def)
  moreover have "ring_ok y r" if "?o q = Some y" "pipe_is_receiver y" for q y
    using that ring other [of q y] by (auto split: if_splits)
  moreover have "list_ok (pipe_lists s) (senders (rx_data y)) \<and>
      set (list_items (pipe_lists s) (senders (rx_data y))) \<subseteq> dom ?o" if q: "?o q = Some y" "pipe_is_receiver y" for q y
  proof -
    obtain z where z: "pipe_objs s q = Some z" "same_pipe z y" using at [OF q(1)] by blast
    then show ?thesis using pipes_okD(4,5) [OF ok z(1)] that(2) same_pipe_kind [OF z(2)] by (auto simp: same_pipe_def)
  qed
  moreover have "list_ok (pipe_lists s) (readers (tx_data y)) \<and> distinct (list_items (pipe_lists s) (readers (tx_data y))) \<and>
      (\<forall>u\<in>set (list_items (pipe_lists s) (readers (tx_data y))). \<exists>z. ?o u = Some z \<and> pipe_is_receiver z)"
    if q: "?o q = Some y" "pipe_is_sender y" for q y
  proof -
    obtain z where z: "pipe_objs s q = Some z" "same_pipe z y" using at [OF q(1)] by blast
    then have "tx_data y = tx_data z" "pipe_is_sender z" using that(2) same_pipe_kind [OF z(2)] by (auto simp: same_pipe_def)
    then show ?thesis using pipes_okD(6-8) [OF ok z(1)] kind x by fastforce
  qed
  moreover have "buffer y \<inter> buffer z = {}"
    if uq: "u \<noteq> q" "?o u = Some y" "?o q = Some z" "pipe_is_receiver y" "pipe_is_receiver z" for u q y z
  proof -
    obtain y' z' where z: "pipe_objs s u = Some y'" "same_pipe y' y" "pipe_objs s q = Some z'" "same_pipe z' z"
      using at [OF uq(2)] at [OF uq(3)] by blast
    have "buffer y' \<inter> buffer z' = {}"
      using uq(4,5) same_pipe_kind [OF z(2)] same_pipe_kind [OF z(4)] by (intro pipes_okD(9) [OF ok z(1) uq(1) z(3)]) simp_all
    then show ?thesis using z(2,4) by (simp add: same_pipe_def)
  qed
  ultimately show "pipes_ok (s\<lparr>ram := r, pipe_objs := ?o\<rparr>)" unfolding pipes_ok_def by simp
  show "pipe_queue (s\<lparr>ram := r, pipe_objs := ?o\<rparr>) = (pipe_queue s)(p := pipe_msgs x' r)"
    using kind x(2) other by (auto simp: pipe_queue_def fun_eq_iff split: option.splits)
  show "pipe_buffers (s\<lparr>ram := r, pipe_objs := ?o\<rparr>) = pipe_buffers s"
  proof -
    have "(\<exists>y. ?o q = Some y \<and> pipe_is_receiver y \<and> a \<in> buffer y) =
        (\<exists>y. pipe_objs s q = Some y \<and> pipe_is_receiver y \<and> a \<in> buffer y)" for q a
      using kind x same by (simp add: same_pipe_def)
    then show ?thesis by (simp add: pipe_buffers_def)
  qed
qed

text \<open>The memory outside of the buffers changes, or answers of the allocator are used up.\<close>

lemma pipes_user_ram:
  assumes ok: "pipes_ok s" and r: "\<And>a. a \<in> pipe_buffers s \<Longrightarrow> r a = ram s a"
  shows "pipes_ok (s\<lparr>ram := r\<rparr>)" "pipe_queue (s\<lparr>ram := r\<rparr>) = pipe_queue s" "pipe_buffers (s\<lparr>ram := r\<rparr>) = pipe_buffers s"
proof -
  have *: "ring_ok x r" "pipe_msgs x r = pipe_msgs x (ram s)" if "pipe_objs s p = Some x" "pipe_is_receiver x" for p x
    using ring_cong [OF pipes_okD(3) [OF ok that], of r] r that by (auto simp: pipe_buffers_def)
  have "quiet (s\<lparr>ram := r\<rparr>) = quiet s" by (simp add: quiet_def)
  then show "pipes_ok (s\<lparr>ram := r\<rparr>)" using ok * unfolding pipes_ok_def by simp
  show "pipe_queue (s\<lparr>ram := r\<rparr>) = pipe_queue s" using * by (auto simp: pipe_queue_def fun_eq_iff split: option.splits)
  show "pipe_buffers (s\<lparr>ram := r\<rparr>) = pipe_buffers s" by (simp add: pipe_buffers_def)
qed

lemma pipes_answers:
  "pipes_ok (s\<lparr>pipe_lists := (pipe_lists s)\<lparr>answers := as\<rparr>\<rparr>) = pipes_ok s"
  by (simp add: pipes_ok_def)

lemma pipe_views_lists [simp]:
  "pipe_queue (s\<lparr>pipe_lists := h\<rparr>) = pipe_queue s" "pipe_buffers (s\<lparr>pipe_lists := h\<rparr>) = pipe_buffers s"
  by (simp_all add: pipe_queue_def pipe_buffers_def fun_eq_iff cong: option.case_cong if_cong)

subsection \<open>Sending\<close>

definition pipe_step :: "'z pkern_scheme \<Rightarrow> 'z pkern_scheme \<Rightarrow> bool" where
  "pipe_step s t \<longleftrightarrow> (\<exists>r ps. t = s\<lparr>ram := r, pipe_objs := ps\<rparr>) \<and> pipe_buffers t = pipe_buffers s \<and>
     (\<forall>a. a \<notin> pipe_buffers s \<longrightarrow> ram t a = ram s a)"

definition has_room :: "'z pkern_scheme \<Rightarrow> ptr \<Rightarrow> bool" where
  "has_room s p \<longleftrightarrow> (case pipe_objs s p of None \<Rightarrow> False | Some x \<Rightarrow> pipe_is_receiver x \<and> free_messages (rx_data x) > 0)"

definition fits :: "'z pkern_scheme \<Rightarrow> u32 \<Rightarrow> ptr \<Rightarrow> bool" where
  "fits s v p \<longleftrightarrow> (case pipe_objs s p of None \<Rightarrow> False | Some x \<Rightarrow> unat v \<le> slot_len x - 4)"

lemma pipe_step_refl: "pipe_step s s"
  unfolding pipe_step_def by (intro conjI exI [of _ "ram s"] exI [of _ "pipe_objs s"]) simp_all

lemma pipe_step_trans: "pipe_step s t \<Longrightarrow> pipe_step t u \<Longrightarrow> pipe_step s u"
  unfolding pipe_step_def by (elim conjE exE) (simp, blast)

lemma can_receive_room: "pipe_objs s p = Some x \<Longrightarrow> p \<noteq> NULL \<Longrightarrow> pipe_can_receive p s = Some (has_room s p)"
  by (simp add: pipe_can_receive_def has_room_def pipe_is_receiver_def)

lemma deliver:
  assumes ok: "pipes_ok s" and room: "has_room s p" and n: "fits s v p"
    and m: "region m (unat v) \<inter> pipe_buffers s = {}"
  shows "\<exists>t. send_body m v p a s = Some (a, t) \<and> pipes_ok t \<and> pipe_step s t \<and>
     (\<forall>q. q \<noteq> p \<longrightarrow> pipe_objs t q = pipe_objs s q) \<and>
     pipe_queue t = (pipe_queue s)(p := pipe_queue s p @ [ram_bytes m (unat v) (ram s)])"
proof -
  obtain x where x: "pipe_objs s p = Some x" "pipe_is_receiver x" and free: "free_messages (rx_data x) > 0"
    and n: "unat v \<le> slot_len x - 4"
    using room n by (auto simp: has_room_def fits_def split: option.splits)
  have sub: "buffer x \<subseteq> pipe_buffers s" using x by (auto simp: pipe_buffers_def)
  then have "region m (unat v) \<inter> buffer x = {}" using m by blast
  note put = ring_put_ok [OF pipes_okD(3) [OF ok x] free n this]
  let ?t = "s\<lparr>ram := slot_write (write_msg_ptr (rx_data x)) m v (ram s), pipe_objs := (pipe_objs s)(p \<mapsto> ring_put x)\<rparr>"
  note upd = pipes_update [OF ok x same_pipe_ring(1) put(1) put(3)]
  have "send_body m v p a s = Some (a, ?t)"
    using x room can_receive_room [OF x(1) pipes_okD(1) [OF ok x(1)]] by (simp add: send_quiet [OF pipes_okD(2) [OF ok x(1)]])
  moreover have "pipe_step s ?t" using upd(3) put(3) sub by (auto simp: pipe_step_def)
  moreover have "pipe_queue s p = pipe_msgs x (ram s)" using x by (simp add: pipe_queue_def)
  ultimately show ?thesis using upd(1,2) put(2) by (intro exI [of _ ?t]) simp
qed

lemma deliver_all:
  assumes "pipes_ok s" "distinct ps" "\<forall>p\<in>set ps. has_room s p \<and> fits s v p" "region m (unat v) \<inter> pipe_buffers s = {}"
  shows "\<exists>t. run_body (send_body m v) ps a s = Some (a, t) \<and> pipes_ok t \<and> pipe_step s t \<and>
     pipe_queue t = (\<lambda>p. if p \<in> set ps then pipe_queue s p @ [ram_bytes m (unat v) (ram s)] else pipe_queue s p)"
  using assms
proof (induction ps arbitrary: s)
  case Nil
  then show ?case using pipe_step_refl by (intro exI [of _ s]) simp
next
  case (Cons p ps)
  obtain u where u: "send_body m v p a s = Some (a, u)" "pipes_ok u" "pipe_step s u"
    "\<forall>q. q \<noteq> p \<longrightarrow> pipe_objs u q = pipe_objs s q"
    "pipe_queue u = (pipe_queue s)(p := pipe_queue s p @ [ram_bytes m (unat v) (ram s)])"
    using deliver [OF Cons.prems(1) _ _ Cons.prems(4), of p a] Cons.prems(3) by auto
  have "\<forall>q\<in>set ps. has_room u q \<and> fits u v q"
  proof
    fix q
    assume q: "q \<in> set ps"
    then have "pipe_objs u q = pipe_objs s q" using u(4) Cons.prems(2) by auto
    moreover have "has_room s q \<and> fits s v q" using q Cons.prems(3) by simp
    ultimately show "has_room u q \<and> fits u v q" by (simp add: has_room_def fits_def)
  qed
  moreover have "region m (unat v) \<inter> pipe_buffers u = {}" using Cons.prems(4) u(3) by (simp add: pipe_step_def)
  ultimately obtain t where t: "run_body (send_body m v) ps a u = Some (a, t)" "pipes_ok t" "pipe_step u t"
    "pipe_queue t = (\<lambda>p. if p \<in> set ps then pipe_queue u p @ [ram_bytes m (unat v) (ram u)] else pipe_queue u p)"
    using Cons.IH [OF u(2)] Cons.prems(2) by auto
  have "ram_bytes m (unat v) (ram u) = ram_bytes m (unat v) (ram s)"
  proof (rule ram_bytes_cong)
    show "unat v \<le> 2 ^ 32" using unsigned_less [of v, where 'a = nat] by simp
    show "ram u b = ram s b" if "b \<in> region m (unat v)" for b
      using that u(3) Cons.prems(4) by (auto simp: pipe_step_def)
  qed
  then show ?case
    using t u(1,5) pipe_step_trans [OF u(3) t(3)] Cons.prems(2) by (intro exI [of _ t]) (auto simp: fun_eq_iff)
qed

lemma can_send_run:
  assumes "pipe_objs s NULL = None" "set ps \<subseteq> dom (pipe_objs s)"
  shows "run_body can_body ps a s = Some (a \<and> (\<forall>p\<in>set ps. has_room s p), s)"
  using assms(2)
proof (induction ps arbitrary: a)
  case Nil
  then show ?case by simp
next
  case (Cons p ps)
  then obtain x where "pipe_objs s p = Some x" "p \<noteq> NULL" using assms(1) by (cases "p = NULL") auto
  then show ?case using Cons by (simp add: can_body_def can_receive_room conj_assoc)
qed

lemma plenty_tl: "plenty (Suc n) h \<Longrightarrow> plenty n (h\<lparr>answers := tl (answers h)\<rparr>)"
  by (cases "answers h") (auto simp: plenty_def)

lemma case_pair:
  "(case r of None \<Rightarrow> Some (a, s) | Some p \<Rightarrow> map_option (Pair a) (f p)) = Some (b, t) \<Longrightarrow>
   (case r of None \<Rightarrow> Some s | Some p \<Rightarrow> f p) = Some t"
  by (cases r) auto

lemma null_readers:
  assumes "pipes_ok s" "set ps \<subseteq> dom (pipe_objs s)"
  shows "NULL \<notin> set ps"
  using assms by (auto simp: pipes_ok_def)

lemma pipe_can_send_to_all_spec:
  assumes ok: "pipes_ok s" and x: "pipe_objs s q = Some x" "pipe_is_sender x" and mem: "plenty 1 (pipe_lists s)"
  shows "pipe_can_send_to_all q False s =
    Some (\<forall>p\<in>set (list_items (pipe_lists s) (readers (tx_data x))). has_room s p,
          s\<lparr>pipe_lists := (pipe_lists s)\<lparr>answers := tl (answers (pipe_lists s))\<rparr>\<rparr>)"
proof -
  let ?l = "readers (tx_data x)"
  have sub: "set (list_items (pipe_lists s) ?l) \<subseteq> dom (pipe_objs s)" using pipes_okD(8) [OF ok x(1,2)] by blast
  have "pipe_objs s NULL = None" using ok by (simp add: pipes_ok_def)
  from can_send_run [OF this sub, of True]
  have run: "run_body can_body (list_items (pipe_lists s) ?l) True s =
      Some (\<forall>p\<in>set (list_items (pipe_lists s) ?l). has_room s p, s)" by simp
  obtain it h r h' h'' where
    "on_pl (list_it_create ?l) s = Some (it, s\<lparr>pipe_lists := h\<rparr>)"
    "on_pl (list_it_get it) (s\<lparr>pipe_lists := h\<rparr>) = Some (r, s\<lparr>pipe_lists := h'\<rparr>)"
    "(case r of None \<Rightarrow> Some (True, s\<lparr>pipe_lists := h'\<rparr>)
      | Some p \<Rightarrow> pipe_can_send_loop q False it p True (s\<lparr>pipe_lists := h'\<rparr>)) =
       Some (\<forall>p\<in>set (list_items (pipe_lists s) ?l). has_room s p, s\<lparr>pipe_lists := h''\<rparr>)"
    "pl_done it (s\<lparr>pipe_lists := h''\<rparr>) = Some (s\<lparr>pipe_lists := (pipe_lists s)\<lparr>answers := tl (answers (pipe_lists s))\<rparr>\<rparr>)"
    by (rule can.whole_loop [OF pipes_okD(6) [OF ok x] mem pipes_okD(2) [OF ok x(1)] null_readers [OF ok sub] run, where pipe = q])
  then show ?thesis using x by (simp add: pipe_can_send_to_all_def)
qed

lemma send_to_all_spec:
  assumes ok: "pipes_ok s" and x: "pipe_objs s q = Some x" "pipe_is_sender x" and mem: "plenty 1 (pipe_lists s)"
    and run: "run_body (send_body m v) (list_items (pipe_lists s) (readers (tx_data x))) () s = Some ((), t)"
  shows "do {
      (it, s) \<leftarrow> on_pl (list_it_create (readers (tx_data x))) s;
      (r, s) \<leftarrow> on_pl (list_it_get it) s;
      s \<leftarrow> (case r of None \<Rightarrow> Some s | Some receiver \<Rightarrow> pipe_send_loop it receiver m v s);
      s \<leftarrow> pl_done it s;
      Some (result, s)
    } = Some (result, t\<lparr>pipe_lists := (pipe_lists s)\<lparr>answers := tl (answers (pipe_lists s))\<rparr>\<rparr>)"
proof -
  let ?l = "readers (tx_data x)"
  have sub: "set (list_items (pipe_lists s) ?l) \<subseteq> dom (pipe_objs s)" using pipes_okD(8) [OF ok x(1,2)] by blast
  obtain it h r h' h'' where
    "on_pl (list_it_create ?l) s = Some (it, s\<lparr>pipe_lists := h\<rparr>)"
    "on_pl (list_it_get it) (s\<lparr>pipe_lists := h\<rparr>) = Some (r, s\<lparr>pipe_lists := h'\<rparr>)"
    and loop: "(case r of None \<Rightarrow> Some ((), s\<lparr>pipe_lists := h'\<rparr>)
      | Some p \<Rightarrow> map_option (Pair ()) (pipe_send_loop it p m v (s\<lparr>pipe_lists := h'\<rparr>))) = Some ((), t\<lparr>pipe_lists := h''\<rparr>)"
    and "pl_done it (t\<lparr>pipe_lists := h''\<rparr>) = Some (t\<lparr>pipe_lists := (pipe_lists s)\<lparr>answers := tl (answers (pipe_lists s))\<rparr>\<rparr>)"
    by (rule send.whole_loop [OF pipes_okD(6) [OF ok x] mem pipes_okD(2) [OF ok x(1)] null_readers [OF ok sub] run])
  then show ?thesis using case_pair [OF loop] by simp
qed

subsection \<open>Receiving\<close>

lemma notify_run: "quiet s \<Longrightarrow> set ps \<subseteq> dom (pipe_objs s) \<Longrightarrow> run_body notify_body ps a s = Some (a, s)"
  by (induction ps) (auto simp: notify_quiet)

lemma obj_pipe_received_message_spec:
  assumes ok: "pipes_ok s" and x: "pipe_objs s p = Some x" "pipe_is_receiver x" and mem: "plenty 1 (pipe_lists s)"
    and u: "free_messages (rx_data x) < total_messages (rx_data x)"
  shows "\<exists>t. obj_pipe_received_message p s = Some (NO_ERROR, t) \<and> pipes_ok t \<and> ram t = ram s \<and>
    pipe_queue t = (pipe_queue s)(p := tl (pipe_queue s p))"
proof -
  let ?l = "senders (rx_data x)" and ?h = "pipe_lists s"
  define s2 where "s2 = s\<lparr>pipe_objs := (pipe_objs s)(p \<mapsto> ring_take x)\<rparr>"
  note take = ring_take_ok [OF pipes_okD(3) [OF ok x] u]
  have "s\<lparr>ram := ram s, pipe_objs := (pipe_objs s)(p \<mapsto> ring_take x)\<rparr> = s2" by (simp add: s2_def)
  with pipes_update [OF ok x same_pipe_ring(2) take(1)] take(2)
  have s2: "pipes_ok s2" "pipe_queue s2 = (pipe_queue s)(p := tl (pipe_queue s p))" using x by (simp_all add: pipe_queue_def)
  have lists: "pipe_lists s2 = ?h" and q: "quiet s2" using s2(1) by (simp_all add: s2_def pipes_ok_def)
  have sub: "set (list_items (pipe_lists s2) ?l) \<subseteq> dom (pipe_objs s2)"
    using pipes_okD(5) [OF ok x] by (auto simp: s2_def)
  have l: "list_ok (pipe_lists s2) ?l" and mem2: "plenty 1 (pipe_lists s2)"
    using pipes_okD(4) [OF ok x] mem by (simp_all add: lists)
  obtain it h r h' h'' where
    it: "on_pl (list_it_create ?l) s2 = Some (it, s2\<lparr>pipe_lists := h\<rparr>)"
    "on_pl (list_it_get it) (s2\<lparr>pipe_lists := h\<rparr>) = Some (r, s2\<lparr>pipe_lists := h'\<rparr>)"
    and loop: "(case r of None \<Rightarrow> Some ((), s2\<lparr>pipe_lists := h'\<rparr>)
      | Some p \<Rightarrow> map_option (Pair ()) (pipe_notify_loop it p (s2\<lparr>pipe_lists := h'\<rparr>))) = Some ((), s2\<lparr>pipe_lists := h''\<rparr>)"
    and fin: "pl_done it (s2\<lparr>pipe_lists := h''\<rparr>) =
      Some (s2\<lparr>pipe_lists := (pipe_lists s2)\<lparr>answers := tl (answers (pipe_lists s2))\<rparr>\<rparr>)"
    by (rule notify.whole_loop [OF l mem2 q null_readers [OF s2(1) sub] notify_run [OF q sub]])
  let ?t = "s2\<lparr>pipe_lists := (pipe_lists s2)\<lparr>answers := tl (answers (pipe_lists s2))\<rparr>\<rparr>"
  have "obj_pipe_received_message p s = do {
      (it, s) \<leftarrow> on_pl (list_it_create ?l) s2;
      (r, s) \<leftarrow> on_pl (list_it_get it) s;
      s \<leftarrow> (case r of None \<Rightarrow> Some s | Some sender \<Rightarrow> pipe_notify_loop it sender s);
      s \<leftarrow> pl_done it s;
      Some (NO_ERROR, s)
    }"
    using x pipes_okD(1) [OF ok x(1)]
    by (simp add: obj_pipe_received_message_def rx_upd_Some s2_def ring_take_def next_pos_def next_ptr_def Let_def pipe_slot_def)
  then have "obj_pipe_received_message p s = Some (NO_ERROR, ?t)" using it fin case_pair [OF loop] by simp
  moreover have "ram ?t = ram s" by (simp add: s2_def)
  ultimately show ?thesis using s2 by (intro exI [of _ ?t]) (simp add: pipes_answers)
qed

end
