(* ===== verification/Pipe_Props.thy ===== *)
theory Pipe_Props
  imports Pipe_Ops Sema_Props
begin

section \<open>Properties of pipes\<close>

text \<open>
  Sending to all readers is all or nothing, and every pipe is a queue of messages: what is
  sent is appended, what is received is the oldest.
\<close>

lemma pipe_send_full:
  assumes ok: "pipes_ok s" and x: "pipe_objs s q = Some x" "pipe_is_sender x" and mem: "plenty 1 (pipe_lists s)"
    and full: "\<not> (\<forall>p\<in>set (list_items (pipe_lists s) (readers (tx_data x))). has_room s p)"
  shows "obj_pipe_send_message q th PIPE_TX_SEND_ALL m v False s =
    Some (PIPE_RECEIVERS_FULL, s\<lparr>pipe_lists := (pipe_lists s)\<lparr>answers := tl (answers (pipe_lists s))\<rparr>\<rparr>)"
proof -
  have "q \<noteq> NULL" using pipes_okD(1) [OF ok x(1)] .
  then show ?thesis
    using x pipe_can_send_to_all_spec [OF ok x mem] full by (simp add: obj_pipe_send_message_def pipe_is_sender_def)
qed

lemma pipe_send_room:
  assumes ok: "pipes_ok s" and x: "pipe_objs s q = Some x" "pipe_is_sender x" and mem: "plenty 2 (pipe_lists s)"
    and room: "\<forall>p\<in>set (list_items (pipe_lists s) (readers (tx_data x))). has_room s p \<and> fits s v p"
    and m: "region m (unat v) \<inter> pipe_buffers s = {}"
  shows "\<exists>t. obj_pipe_send_message q th PIPE_TX_SEND_ALL m v False s = Some (NO_ERROR, t) \<and> pipes_ok t \<and>
    (\<forall>a. a \<notin> pipe_buffers s \<longrightarrow> ram t a = ram s a) \<and>
    pipe_queue t = (\<lambda>p. if p \<in> set (list_items (pipe_lists s) (readers (tx_data x)))
      then pipe_queue s p @ [ram_bytes m (unat v) (ram s)] else pipe_queue s p)"
proof -
  let ?h = "pipe_lists s" and ?l = "readers (tx_data x)"
  define s1 where "s1 = s\<lparr>pipe_lists := ?h\<lparr>answers := tl (answers ?h)\<rparr>\<rparr>"
  have ok1: "pipes_ok s1" and x1: "pipe_objs s1 q = Some x" and q: "q \<noteq> NULL"
    using ok x pipes_okD(1) [OF ok x(1)] by (simp_all add: s1_def pipes_answers)
  have mem1: "plenty 1 (pipe_lists s1)" using plenty_tl [of 1 ?h] mem by (simp add: s1_def numeral_2_eq_2)
  have views: "list_items (pipe_lists s1) ?l = list_items ?h ?l" "pipe_queue s1 = pipe_queue s"
    "pipe_buffers s1 = pipe_buffers s" "ram s1 = ram s" by (simp_all add: s1_def)
  have room1: "\<forall>p\<in>set (list_items ?h ?l). has_room s1 p \<and> fits s1 v p"
    using room by (simp add: has_room_def fits_def s1_def)
  obtain t where t: "run_body (send_body m v) (list_items (pipe_lists s1) ?l) () s1 = Some ((), t)" "pipes_ok t" "pipe_step s1 t"
    "pipe_queue t = (\<lambda>p. if p \<in> set (list_items ?h ?l) then pipe_queue s p @ [ram_bytes m (unat v) (ram s)] else pipe_queue s p)"
    using deliver_all [OF ok1 pipes_okD(7) [OF ok x], of v m "()"] room1 m unfolding views by blast
  let ?t = "t\<lparr>pipe_lists := (pipe_lists s1)\<lparr>answers := tl (answers (pipe_lists s1))\<rparr>\<rparr>"
  have "pipe_can_send_to_all q False s = Some (True, s1)"
    using pipe_can_send_to_all_spec [OF ok x plenty_mono [OF mem]] room by (simp add: s1_def)
  then have "obj_pipe_send_message q th PIPE_TX_SEND_ALL m v False s = Some (NO_ERROR, ?t)"
    using x x1 q send_to_all_spec [OF ok1 x1 x(2) mem1 t(1), of NO_ERROR]
    by (simp add: obj_pipe_send_message_def pipe_is_sender_def)
  moreover have "pipe_lists t = pipe_lists s1" "\<forall>a. a \<notin> pipe_buffers s \<longrightarrow> ram t a = ram s a"
    using t(3) by (auto simp: pipe_step_def views)
  moreover have "pipes_ok ?t" using t(2) calculation(2) pipes_answers [where s = t] by simp
  ultimately show ?thesis using t(4) by (intro exI [of _ ?t]) simp
qed

lemma ram_copy_32: "region dst 4 \<inter> region src 4 = {} \<Longrightarrow> ram_get32 dst (ram_copy 4 dst src r) = ram_get32 src r"
  by (intro ram_get32_bytes ram_copy_bytes) simp_all

text \<open>The first message of a buffer is where the read pointer is.\<close>

lemma first_message:
  assumes ok: "pipes_ok s" and x: "pipe_objs s p = Some x" "pipe_is_receiver x"
    and u: "free_messages (rx_data x) < total_messages (rx_data x)" and q: "pipe_queue s p = w # ws"
  shows "w = ram_bytes (read_msg_ptr (rx_data x) + 4) (length w) (ram s)"
    "unat (ram_get32 (read_msg_ptr (rx_data x)) (ram s)) = length w"
    "region (read_msg_ptr (rx_data x)) 4 \<subseteq> pipe_buffers s"
    "region (read_msg_ptr (rx_data x) + 4) (length w) \<subseteq> pipe_buffers s" "length w \<le> 2 ^ 32"
proof -
  let ?i = "unat (read_msg_position (rx_data x))" and ?p = "read_msg_ptr (rx_data x)"
  have ring: "ring_ok x (ram s)" using pipes_okD(3) [OF ok x] .
  then have s: "slots_ok x" and p: "?p = slot_at x ?i" and i: "?i < slots x" by (simp_all add: ring_ok_def)
  have "pipe_queue s p = pipe_msgs x (ram s)" using x by (simp add: pipe_queue_def)
  then have w: "w = slot_msg x ?i (ram s)" using ring_take_ok(3) [OF ring u] q by simp
  then show len: "unat (ram_get32 ?p (ram s)) = length w" by (simp add: slot_msg_def p)
  then show "w = ram_bytes (?p + 4) (length w) (ram s)" using w by (simp add: slot_msg_def p)
  have "0 < used x" "place x 0 = ?i" using u i by (simp_all add: used_def slots_def place_def word_less_nat_alt)
  then have n: "length w \<le> slot_len x - 4" using ring len by (auto simp: ring_ok_def p)
  then show "length w \<le> 2 ^ 32" using slots_okD(4) [OF s] by linarith
  have "region ?p (slot_len x) \<subseteq> pipe_buffers s" using slot_region(1) [OF s i] x by (auto simp: p pipe_buffers_def)
  then show "region ?p 4 \<subseteq> pipe_buffers s" "region (?p + 4) (length w) \<subseteq> pipe_buffers s"
    using slot_parts(1,2) [OF s n, of ?p] by blast+
qed

lemma queue_used:
  assumes "pipes_ok s" "pipe_objs s p = Some x" "pipe_is_receiver x"
  shows "free_messages (rx_data x) < total_messages (rx_data x) \<longleftrightarrow> pipe_queue s p \<noteq> []"
  using assms by (auto simp: pipe_queue_def pipe_msgs_def used_def slots_def word_less_nat_alt)

text \<open>The length is copied first, then the message.\<close>

lemma receive_copies:
  assumes ok: "pipes_ok s" and x: "pipe_objs s p = Some x" "pipe_is_receiver x"
    and u: "free_messages (rx_data x) < total_messages (rx_data x)" and q: "pipe_queue s p = w # ws"
    and sz: "region sz 4 \<inter> pipe_buffers s = {}" and m: "region m (length w) \<inter> pipe_buffers s = {}"
    and ms: "region m (length w) \<inter> region sz 4 = {}"
  shows "pipes_ok (s\<lparr>ram := ram_copy 4 sz (read_msg_ptr (rx_data x)) (ram s)\<rparr>)"
    "pipe_queue (s\<lparr>ram := ram_copy 4 sz (read_msg_ptr (rx_data x)) (ram s)\<rparr>) = pipe_queue s"
    "unat (ram_get32 sz (ram_copy 4 sz (read_msg_ptr (rx_data x)) (ram s))) = length w"
    "pipes_ok (s\<lparr>ram := ram_copy (length w) m (read_msg_ptr (rx_data x) + 4) (ram_copy 4 sz (read_msg_ptr (rx_data x)) (ram s))\<rparr>)"
    "pipe_queue (s\<lparr>ram := ram_copy (length w) m (read_msg_ptr (rx_data x) + 4) (ram_copy 4 sz (read_msg_ptr (rx_data x)) (ram s))\<rparr>)
       = pipe_queue s"
    "unat (ram_get32 sz (ram_copy (length w) m (read_msg_ptr (rx_data x) + 4)
       (ram_copy 4 sz (read_msg_ptr (rx_data x)) (ram s)))) = length w"
    "ram_bytes m (length w) (ram_copy (length w) m (read_msg_ptr (rx_data x) + 4)
       (ram_copy 4 sz (read_msg_ptr (rx_data x)) (ram s))) = w"
proof -
  let ?p = "read_msg_ptr (rx_data x)"
  define r1 where "r1 = ram_copy 4 sz ?p (ram s)"
  define r2 where "r2 = ram_copy (length w) m (?p + 4) r1"
  note fst = first_message [OF ok x u q]
  have d1: "region sz 4 \<inter> region ?p 4 = {}" and d2: "region m (length w) \<inter> region (?p + 4) (length w) = {}"
    using fst(3,4) sz m by blast+
  have o1: "r1 a = ram s a" if "a \<notin> region sz 4" for a using ram_copy_other [OF _ d1 that] by (simp add: r1_def)
  have o2: "r2 a = r1 a" if "a \<notin> region m (length w)" for a using ram_copy_other [OF fst(5) d2 that] by (simp add: r2_def)
  have b1: "r1 a = ram s a" if "a \<in> pipe_buffers s" for a using that sz by (intro o1) auto
  have b2: "r2 a = ram s a" if "a \<in> pipe_buffers s" for a
    using o2 [of a] b1 [OF that] m that by (metis disjoint_iff)
  note defs = r1_def r2_def
  show "pipes_ok (s\<lparr>ram := ram_copy 4 sz ?p (ram s)\<rparr>)" "pipe_queue (s\<lparr>ram := ram_copy 4 sz ?p (ram s)\<rparr>) = pipe_queue s"
    using pipes_user_ram [OF ok, of r1] b1 unfolding r1_def by blast+
  show "pipes_ok (s\<lparr>ram := ram_copy (length w) m (?p + 4) (ram_copy 4 sz ?p (ram s))\<rparr>)"
    "pipe_queue (s\<lparr>ram := ram_copy (length w) m (?p + 4) (ram_copy 4 sz ?p (ram s))\<rparr>) = pipe_queue s"
    using pipes_user_ram [OF ok, of r2] b2 unfolding defs by blast+
  show n: "unat (ram_get32 sz (ram_copy 4 sz ?p (ram s))) = length w" using ram_copy_32 [OF d1] fst(2) by simp
  have "ram_get32 sz r2 = ram_get32 sz r1" using ms by (intro ram_get32_cong o2) auto
  then show "unat (ram_get32 sz (ram_copy (length w) m (?p + 4) (ram_copy 4 sz ?p (ram s)))) = length w"
    using n by (simp add: defs)
  have "ram_bytes m (length w) r2 = ram_bytes (?p + 4) (length w) r1"
    unfolding r2_def using ram_copy_bytes [OF fst(5) d2] .
  also have "\<dots> = ram_bytes (?p + 4) (length w) (ram s)" using fst(4) b1 by (intro ram_bytes_cong [OF fst(5)]) auto
  also have "\<dots> = w" using fst(1) by simp
  finally show "ram_bytes m (length w) (ram_copy (length w) m (?p + 4) (ram_copy 4 sz ?p (ram s))) = w" by (simp add: defs)
qed

lemma pipe_receive_first:
  assumes ok: "pipes_ok s" and x: "pipe_objs s p = Some x" "pipe_is_receiver x" and mem: "plenty 1 (pipe_lists s)"
    and q: "pipe_queue s p = w # ws" and le: "length w \<le> unat mx" and nn: "m \<noteq> NULL" "sz \<noteq> NULL"
    and sz: "region sz 4 \<inter> pipe_buffers s = {}" and m: "region m (unat mx) \<inter> pipe_buffers s = {}"
    and ms: "region m (unat mx) \<inter> region sz 4 = {}"
  shows "\<exists>t. obj_pipe_receive_message p th m sz mx b s = Some (NO_ERROR, t) \<and> pipes_ok t \<and>
     pipe_queue t = (pipe_queue s)(p := ws) \<and> ram_bytes m (length w) (ram t) = w \<and>
     unat (ram_get32 sz (ram t)) = length w"
proof -
  have u: "free_messages (rx_data x) < total_messages (rx_data x)" using queue_used [OF ok x] q by simp
  have sub: "region m (length w) \<subseteq> region m (unat mx)" using le by (rule region_mono)
  then have m': "region m (length w) \<inter> pipe_buffers s = {}" and ms': "region m (length w) \<inter> region sz 4 = {}"
    using m ms by blast+
  note copies = receive_copies [OF ok x u q sz m' ms']
  let ?r1 = "ram_copy 4 sz (read_msg_ptr (rx_data x)) (ram s)"
  let ?s2 = "s\<lparr>ram := ram_copy (length w) m (read_msg_ptr (rx_data x) + 4) ?r1\<rparr>"
  obtain t where t: "obj_pipe_received_message p ?s2 = Some (NO_ERROR, t)" "pipes_ok t" "ram t = ram ?s2"
    "pipe_queue t = (pipe_queue ?s2)(p := tl (pipe_queue ?s2 p))"
    using obj_pipe_received_message_spec [OF copies(4), of p x] x u mem by auto
  have "obj_pipe_receive_message p th m sz mx b s = Some (NO_ERROR, t)"
    using x u nn le t(1) copies(3) pipes_okD(1) [OF ok x(1)]
    by (simp add: obj_pipe_receive_message_def Let_def word_less_nat_alt)
  then show ?thesis using t(2-4) copies(5-7) q by auto
qed

subsection \<open>A sender and two receivers\<close>

text \<open>
  The pipe \<open>0x10\<close> sends to \<open>0x20\<close>, which holds a message of the bytes 5 and 6, and to \<open>0x21\<close>, which is empty;
  each has room for two messages of four bytes.
\<close>

definition demo_receiver :: "ptr \<Rightarrow> u32 \<Rightarrow> ptr \<Rightarrow> object_pipe_t" where
  "demo_receiver mem n l = \<lparr>direction = PIPE_RECEIVE, pipe_pool = 9, memory = mem,
     rx_data = \<lparr>free_messages = 2 - n, total_messages = 2, read_msg_position = 0, write_msg_position = n, message_size = 4,
        blocked_owner = NULL, blocked_message = NULL, blocked_message_size = NULL, read_msg_ptr = mem,
        write_msg_ptr = mem + n * 8, senders = l\<rparr>,
     tx_data = \<lparr>sending_thread = NULL, readers = NULL\<rparr>, pipe_reg = NULL, pipe_name = []\<rparr>"

definition demo_sender :: object_pipe_t where
  "demo_sender = \<lparr>direction = PIPE_SEND, pipe_pool = 9, memory = NULL,
     rx_data = \<lparr>free_messages = 0, total_messages = 0, read_msg_position = 0, write_msg_position = 0, message_size = 0,
        blocked_owner = NULL, blocked_message = NULL, blocked_message_size = NULL, read_msg_ptr = NULL,
        write_msg_ptr = NULL, senders = NULL\<rparr>,
     tx_data = \<lparr>sending_thread = NULL, readers = 0x31\<rparr>, pipe_reg = NULL, pipe_name = []\<rparr>"

definition demo_pipe_lists :: lheap where
  "demo_pipe_lists = \<lparr>
     elems = [0x40 \<mapsto> \<lparr>le_item = 0x20, le_next = 0x41, le_prev = NULL\<rparr>,
              0x41 \<mapsto> \<lparr>le_item = 0x21, le_next = NULL, le_prev = 0x40\<rparr>,
              0x42 \<mapsto> \<lparr>le_item = 0x10, le_next = NULL, le_prev = NULL\<rparr>,
              0x43 \<mapsto> \<lparr>le_item = 0x10, le_next = NULL, le_prev = NULL\<rparr>],
     lists = [0x31 \<mapsto> \<lparr>l_size = 2, l_head = 0x40, l_tail = 0x41, l_pool = 9\<rparr>,
              0x32 \<mapsto> \<lparr>l_size = 1, l_head = 0x42, l_tail = 0x42, l_pool = 9\<rparr>,
              0x33 \<mapsto> \<lparr>l_size = 1, l_head = 0x43, l_tail = 0x43, l_pool = 9\<rparr>],
     its = Map.empty, answers = [0x300, 0x301]\<rparr>"

definition demo_pipes :: pkern where
  "demo_pipes = skern.extend demo_sema (pkern.fields
     [0x10 \<mapsto> demo_sender, 0x20 \<mapsto> demo_receiver 0x1000 1 0x32, 0x21 \<mapsto> demo_receiver 0x2000 0 0x33]
     demo_pipe_lists
     ((\<lambda>_. 0)(0x1000 := 2, 0x1004 := 5, 0x1005 := 6, 0x5000 := 7, 0x5001 := 8, 0x5002 := 9)))"

lemma demo_pipes_fields:
  "pipe_objs demo_pipes = [0x10 \<mapsto> demo_sender, 0x20 \<mapsto> demo_receiver 0x1000 1 0x32, 0x21 \<mapsto> demo_receiver 0x2000 0 0x33]"
  "pipe_lists demo_pipes = demo_pipe_lists"
  "ram demo_pipes = (\<lambda>_. 0)(0x1000 := 2, 0x1004 := 5, 0x1005 := 6, 0x5000 := 7, 0x5001 := 8, 0x5002 := 9)"
  by (simp_all add: demo_pipes_def skern.defs pkern.defs)

lemma demo_pipe_lists_view:
  "list_items demo_pipe_lists 0x31 = [0x20, 0x21]" "list_items demo_pipe_lists 0x32 = [0x10]"
  "list_items demo_pipe_lists 0x33 = [0x10]"
  "list_ok demo_pipe_lists 0x31" "list_ok demo_pipe_lists 0x32" "list_ok demo_pipe_lists 0x33" "plenty 2 demo_pipe_lists"
proof -
  have a: "list_addrs demo_pipe_lists 0x31 = [0x40, 0x41]" "list_addrs demo_pipe_lists 0x32 = [0x42]"
    "list_addrs demo_pipe_lists 0x33 = [0x43]" by code_simp+
  show "list_items demo_pipe_lists 0x31 = [0x20, 0x21]" "list_items demo_pipe_lists 0x32 = [0x10]"
    "list_items demo_pipe_lists 0x33 = [0x10]" unfolding list_items_def a by (simp_all add: demo_pipe_lists_def)
  show "list_ok demo_pipe_lists 0x31" "list_ok demo_pipe_lists 0x32" "list_ok demo_pipe_lists 0x33"
    unfolding list_ok_def a by (simp_all add: demo_pipe_lists_def wf_list_def)
  have "take 2 [0x300, 0x301 :: ptr] = [0x300, 0x301]" by simp
  then show "plenty 2 demo_pipe_lists" by (simp add: plenty_def demo_pipe_lists_def)
qed

lemma region_disjoint:
  assumes "n \<le> unat (q - p)" "k \<le> unat (p - q)"
  shows "region p n \<inter> region q k = {}"
proof -
  have False if a: "unat (a - p) < n" "unat (a - q) < k" for a
  proof (cases "a - q \<le> a - p")
    case True
    then have "unat (q - p) = unat (a - p) - unat (a - q)" using unat_sub [of "a - q" "a - p"] by simp
    then show False using a assms by simp
  next
    case False
    then have "unat (p - q) = unat (a - q) - unat (a - p)" using unat_sub [of "a - p" "a - q"] by simp
    then show False using a assms by simp
  qed
  then show ?thesis by (auto simp: region_def)
qed

lemma demo_pipes_view:
  "buffer (demo_receiver mem n l) = region mem 16" "slots_ok (demo_receiver mem n l)"
  "slot_len (demo_receiver mem n l) = 8" "slots (demo_receiver mem n l) = 2"
  "pipe_buffers demo_pipes = region 0x1000 16 \<union> region 0x2000 16"
  "pipes_ok demo_pipes" "pipe_queue demo_pipes 0x20 = [[5, 6]]" "pipe_queue demo_pipes 0x21 = []"
proof -
  show r: "buffer (demo_receiver mem n l) = region mem 16" "slots_ok (demo_receiver mem n l)"
    "slot_len (demo_receiver mem n l) = 8" "slots (demo_receiver mem n l) = 2" for mem n l
    by (simp_all add: buffer_def slots_ok_def slots_def slot_len_def pipe_slot_def align_def demo_receiver_def)
  have kind: "pipe_is_receiver (demo_receiver mem n l)" "\<not> pipe_is_sender (demo_receiver mem n l)"
    "\<not> pipe_is_receiver demo_sender" "pipe_is_sender demo_sender" for mem n l
    by (simp_all add: pipe_is_receiver_def pipe_is_sender_def demo_receiver_def demo_sender_def)
  show "pipe_buffers demo_pipes = region 0x1000 16 \<union> region 0x2000 16"
  proof (intro equalityI subsetI)
    fix a
    assume "a \<in> pipe_buffers demo_pipes"
    then show "a \<in> region 0x1000 16 \<union> region 0x2000 16"
      by (auto simp: pipe_buffers_def demo_pipes_fields kind r split: if_splits)
  next
    have o: "pipe_objs demo_pipes 0x20 = Some (demo_receiver 0x1000 1 0x32)"
      "pipe_objs demo_pipes 0x21 = Some (demo_receiver 0x2000 0 0x33)" by (simp_all add: demo_pipes_fields)
    fix a
    assume "a \<in> region 0x1000 16 \<union> region 0x2000 16"
    then show "a \<in> pipe_buffers demo_pipes" 
      using o kind(1) r(1) unfolding pipe_buffers_def by (elim UnE; intro CollectI) metis+
  qed
  show q: "pipe_queue demo_pipes 0x20 = [[5, 6]]" "pipe_queue demo_pipes 0x21 = []" by code_simp+
  have ring: "ring_ok (demo_receiver 0x1000 1 0x32) (ram demo_pipes)" "ring_ok (demo_receiver 0x2000 0 0x33) (ram demo_pipes)"
    by (simp_all add: ring_ok_def r used_def place_def slot_at_def demo_pipes_fields)
       (simp_all add: demo_receiver_def ram_get32_def)
  have "region 0x1000 16 \<inter> region 0x2000 16 = {}" by (rule region_disjoint) simp_all
  moreover have "quiet demo_pipes" by (simp add: quiet_def demo_pipes_fields demo_receiver_def demo_sender_def)
  moreover have "senders (rx_data (demo_receiver mem n l)) = l" "readers (tx_data demo_sender) = 0x31" for mem n l
    by (simp_all add: demo_receiver_def demo_sender_def)
  ultimately show "pipes_ok demo_pipes"
    using ring unfolding pipes_ok_def
    by (auto simp: demo_pipes_fields kind r demo_pipe_lists_view split: if_splits)
qed

subsection \<open>Properties\<close>



text \<open>
  C16: a receiver gets the messages of its pipe in the order in which they were sent.  Receiving without
  blocking from an empty pipe says so; otherwise the length of the oldest message is stored, and if
  it is at most the given size the message is copied and leaves the queue; if not, the queue stays as it is.
\<close>

theorem pipe_receive_oldest:
  assumes "pipes_ok s" "pipe_objs s p = Some x" "pipe_is_receiver x" "plenty 1 (pipe_lists s)" "m \<noteq> NULL" "sz \<noteq> NULL"
    and "region sz 4 \<inter> pipe_buffers s = {}" "region m (unat mx) \<inter> pipe_buffers s = {}" "region m (unat mx) \<inter> region sz 4 = {}"
  shows "case pipe_queue s p of
           [] \<Rightarrow> obj_pipe_receive_message p th m sz mx False s = Some (PIPE_EMPTY, s)
         | w # ws \<Rightarrow> \<exists>t. obj_pipe_receive_message p th m sz mx False s =
               Some (if length w \<le> unat mx then NO_ERROR else PARAMETERS_OUT_OF_RANGE, t) \<and> pipes_ok t \<and>
             unat (ram_get32 sz (ram t)) = length w \<and>
             (if length w \<le> unat mx then pipe_queue t = (pipe_queue s)(p := ws) \<and> ram_bytes m (length w) (ram t) = w
              else pipe_queue t = pipe_queue s)"
proof (cases "pipe_queue s p")
  case Nil
  then show ?thesis
    using queue_used [OF assms(1-3)] assms pipes_okD(1) [OF assms(1,2)] by (simp add: obj_pipe_receive_message_def Let_def)
next
  case (Cons w ws)
  show ?thesis
  proof (cases "length w \<le> unat mx")
    case True
    then show ?thesis using pipe_receive_first [OF assms(1-4) Cons True assms(5-9), of th False] Cons by auto
  next
    case False
    have u: "free_messages (rx_data x) < total_messages (rx_data x)" using queue_used [OF assms(1-3)] Cons by simp
    note fst = first_message [OF assms(1-3) u Cons]
    let ?r = "ram_copy 4 sz (read_msg_ptr (rx_data x)) (ram s)"
    have d: "region sz 4 \<inter> region (read_msg_ptr (rx_data x)) 4 = {}" using fst(3) assms(7) by blast
    have n: "unat (ram_get32 sz ?r) = length w" using ram_copy_32 [OF d] fst(2) by simp
    have "?r a = ram s a" if "a \<in> pipe_buffers s" for a using that assms(7) by (intro ram_copy_other [OF _ d]) auto
    note views = pipes_user_ram [OF assms(1) this]
    have "obj_pipe_receive_message p th m sz mx False s = Some (PARAMETERS_OUT_OF_RANGE, s\<lparr>ram := ?r\<rparr>)"
      using assms(2,3,5,6) u n False pipes_okD(1) [OF assms(1,2)]
      by (simp add: obj_pipe_receive_message_def Let_def word_less_nat_alt)
    then show ?thesis using Cons False n views by simp
  qed
qed

theorem pipe_receive_oldest_witness:
  "\<exists>t. obj_pipe_receive_message 0x20 NULL 0x6000 0x7000 4 False demo_pipes = Some (NO_ERROR, t) \<and>
     pipe_queue t 0x20 = [] \<and> ram_bytes 0x6000 2 (ram t) = [5, 6] \<and> unat (ram_get32 0x7000 (ram t)) = 2"
proof -
  have "region 0x7000 4 \<inter> region 0x1000 16 = {}" "region 0x7000 4 \<inter> region 0x2000 16 = {}"
    "region 0x6000 4 \<inter> region 0x1000 16 = {}" "region 0x6000 4 \<inter> region 0x2000 16 = {}"
    by (rule region_disjoint; simp)+
  then have d: "region 0x7000 4 \<inter> pipe_buffers demo_pipes = {}" "region 0x6000 (unat (4 :: u32)) \<inter> pipe_buffers demo_pipes = {}"
    by (simp_all add: demo_pipes_view(5) Int_Un_distrib)
  have e: "region 0x6000 (unat (4 :: u32)) \<inter> region 0x7000 4 = {}" by (rule region_disjoint; simp)
  have o: "pipe_objs demo_pipes 0x20 = Some (demo_receiver 0x1000 1 0x32)" "pipe_is_receiver (demo_receiver 0x1000 1 0x32)"
    "plenty 1 (pipe_lists demo_pipes)"
    using plenty_mono [OF demo_pipe_lists_view(7), of 1]
    by (simp_all add: demo_pipes_fields pipe_is_receiver_def demo_receiver_def)
  have two: "ram_bytes 0x6000 (Suc (Suc 0)) r = ram_bytes 0x6000 2 r" for r by (simp add: numeral_2_eq_2)
  from pipe_receive_oldest [OF demo_pipes_view(6) o _ _ d e, of NULL] show ?thesis by (auto simp: demo_pipes_view two)
qed

end
