(* ===== verification/Process_Mem.thy ===== *)
theory Process_Mem
  imports Obj_Thread
begin

section \<open>Sections and threads of a process (\<open>process.c\<close>, \<open>process_list.c\<close>)\<close>

text \<open>
  The chain of memory sections of a process, translation of addresses with it, allocation and release
  of virtual memory, and the table of threads.  The loops follow the chain in the heap, which need not end, so they are
  partial functions.
\<close>

definition on_vs :: "(vheap \<Rightarrow> vheap option) \<Rightarrow> 'z kern_scheme \<Rightarrow> 'z kern_scheme option" where
  "on_vs f s = do { v \<leftarrow> f (vm s); Some (s\<lparr>vm := v\<rparr>) }"

subsection \<open>Sections\<close>

partial_function (option) process_place_sec :: "ptr \<Rightarrow> ptr \<Rightarrow> ptr \<Rightarrow> ptr \<Rightarrow> 'z kern_scheme \<Rightarrow> 'z kern_scheme option" where
  "process_place_sec process section sec prev s =
     (if sec = NULL then on_vs (mem_sec_set_next prev section) s
      else do {
        v \<leftarrow> mem_sec_get_virt_addr section (vm s);
        w \<leftarrow> mem_sec_get_virt_addr sec (vm s);
        if v < w then do {
          s \<leftarrow> on_vs (mem_sec_set_next section sec) s;
          s \<leftarrow> (if prev \<noteq> NULL then on_vs (mem_sec_set_next prev section) s else Some s);
          x \<leftarrow> processes (ks s) process;
          if sec = first_section x then on_ks (process_update process (\<lambda>x. x\<lparr>first_section := section\<rparr>)) s else Some s
        }
        else do {
          next \<leftarrow> mem_sec_get_next sec (vm s);
          process_place_sec process section next sec s
        }
      })"

definition process_add_mem_sec :: "ptr \<Rightarrow> ptr \<Rightarrow> 'z kern_scheme \<Rightarrow> 'z kern_scheme option" where
  "process_add_mem_sec process section s =
     (if process = NULL then Some s
      else do {
        x \<leftarrow> processes (ks s) process;
        if first_section x = NULL then on_ks (process_update process (\<lambda>x. x\<lparr>first_section := section\<rparr>)) s
        else process_place_sec process section (first_section x) NULL s
      })"

text \<open>The search of \<open>process_virt_to_real\<close>: the real address, if a section has the virtual one.  The end of a section counts as
  part of it.\<close>

partial_function (option) process_find_real :: "ptr \<Rightarrow> u32 \<Rightarrow> vheap \<Rightarrow> u32 option option" where
  "process_find_real current virt v =
     (if current = NULL then Some None
      else do {
        vstart \<leftarrow> mem_sec_get_virt_addr current v;
        vsize \<leftarrow> mem_sec_get_size current v;
        vreal \<leftarrow> mem_sec_get_real_addr current v;
        if virt \<ge> vstart \<and> virt \<le> vstart + vsize then Some (Some (vreal + (virt - vstart)))
        else do { next \<leftarrow> mem_sec_get_next current v; process_find_real next virt v }
      })"

definition process_virt_to_real :: "ptr \<Rightarrow> u32 \<Rightarrow> 'z kern_scheme \<Rightarrow> u32 option" where
  "process_virt_to_real process virt s =
     (if process = NULL then Some virt
      else do {
        x \<leftarrow> processes (ks s) process;
        r \<leftarrow> process_find_real (first_section x) virt (vm s);
        let base = VIRTUAL_ADDRESS_SPACE (kernel_process x);
        Some (case r of Some real \<Rightarrow> real
              | None \<Rightarrow> (if virt \<ge> base then virt - base else virt) + memory_pool x)
      })"

definition page_pad :: "u32 \<Rightarrow> u32" where
  "page_pad a = a + a mod of_nat MMU_PAGE_SIZE"

text \<open>
  The search of \<open>process_allocate_vmem\<close> for a hole.  It ends in front of the section \<open>current\<close>,
  at the address \<open>vmem_start\<close> and behind the section \<open>prev\<close>.
\<close>

partial_function (option) process_find_hole ::
  "u32 \<Rightarrow> u32 \<Rightarrow> u32 \<Rightarrow> ptr \<Rightarrow> ptr \<Rightarrow> vheap \<Rightarrow> (u32 \<times> ptr \<times> ptr) option" where
  "process_find_hole base sz vmem_start current prev v =
     (if current = NULL then Some (vmem_start, current, prev)
      else do {
        svt \<leftarrow> mem_sec_get_virt_addr current v;
        if svt > base \<and> svt > vmem_start + sz then Some (vmem_start, current, prev)
        else do {
          n \<leftarrow> mem_sec_get_size current v;
          next \<leftarrow> mem_sec_get_next current v;
          process_find_hole base sz (page_pad (svt + n)) next current v
        }
      })"

definition process_allocate_vmem ::
  "ptr \<Rightarrow> u32 \<Rightarrow> u32 \<Rightarrow> mmu_memory_t \<Rightarrow> mmu_privilege_t \<Rightarrow> mmu_access_t \<Rightarrow> u8 list option \<Rightarrow> 'z kern_scheme \<Rightarrow>
     (return_t \<times> u32 \<times> 'z kern_scheme) option" where
  "process_allocate_vmem process real sz type priv acc name s =
     (if process = NULL then Some (PARAMETERS_NULL, 0, s)
      else do {
        x \<leftarrow> processes (ks s) process;
        let base = VIRTUAL_ADDRESS_SPACE (kernel_process x);
        (vmem_start, current, prev) \<leftarrow> process_find_hole base sz base (first_section x) NULL (vm s);
        if current \<noteq> NULL then do {
          (new, s) \<leftarrow> on_vm (mem_sec_create (private_pool x) real vmem_start sz type priv acc name) s;
          if new \<noteq> NULL then do {
            s \<leftarrow> (if prev \<noteq> NULL then on_vs (mem_sec_set_next prev new) s
                  else on_ks (process_update process (\<lambda>x. x\<lparr>first_section := new\<rparr>)) s);
            s \<leftarrow> on_vs (mem_sec_set_next new current) s;
            (result, s) \<leftarrow> tgt_map_memory process new s;
            Some (result, vmem_start, s)
          }
          else Some (NO_ERROR, 0, s)
        }
        else if prev \<noteq> NULL then do {
          let vmem_start = page_pad vmem_start;
          (new, s) \<leftarrow> on_vm (mem_sec_create (private_pool x) real vmem_start sz type priv acc name) s;
          s \<leftarrow> on_vs (mem_sec_set_next prev new) s;
          (result, s) \<leftarrow> tgt_map_memory process new s;
          Some (result, vmem_start, s)
        }
        else Some (NO_ERROR, 0, s)
      })"

text \<open>The first section of the process is not updated when it is the one released.\<close>

partial_function (option) process_drop_sec :: "ptr \<Rightarrow> u32 \<Rightarrow> ptr \<Rightarrow> ptr \<Rightarrow> 'z kern_scheme \<Rightarrow> 'z kern_scheme option" where
  "process_drop_sec process virt current prev s =
     (if current = NULL then Some s
      else do {
        v \<leftarrow> mem_sec_get_virt_addr current (vm s);
        next \<leftarrow> mem_sec_get_next current (vm s);
        if v = virt then do {
          s \<leftarrow> (if prev \<noteq> NULL then on_vs (mem_sec_set_next prev next) s else Some s);
          s \<leftarrow> tgt_unmap_memory process current s;
          on_vs (mem_sec_delete current) s
        }
        else process_drop_sec process virt next current s
      })"

definition process_free_vmem :: "ptr \<Rightarrow> u32 \<Rightarrow> 'z kern_scheme \<Rightarrow> 'z kern_scheme option" where
  "process_free_vmem process virt s =
     (if process = NULL then Some s
      else do {
        x \<leftarrow> processes (ks s) process;
        process_drop_sec process virt (first_section x) NULL s
      })"

subsection \<open>Threads\<close>

text \<open>The number of threads and the first free index.\<close>

primrec count_slots :: "ptr list \<Rightarrow> nat \<Rightarrow> u32 \<times> nat option" where
  "count_slots [] i = (0, None)"
| "count_slots (t # ts) i =
     (let (n, free) = count_slots ts (i + 1) in if t \<noteq> NULL then (n + 1, free) else (n, Some i))"

definition count_threads :: "ptr \<Rightarrow> kst \<Rightarrow> (u32 \<times> nat option) option" where
  "count_threads process s =
     (if process = NULL then Some (0, None)
      else do { x \<leftarrow> processes s process; Some (count_slots (p_threads x) 0) })"

definition process_get_thread_count :: "ptr \<Rightarrow> kst \<Rightarrow> u32 option" where
  "process_get_thread_count process s = do {
     _ \<leftarrow> kernel_assert (process \<noteq> NULL);
     (n, _) \<leftarrow> count_threads process s;
     Some n
   }"

text \<open>
  The result of \<open>obj_create_thread\<close> is taken for a truth value: every error but the one numbered 0 counts as
  success.  \<open>objno\<close> is the number in the variable of the caller.
\<close>

definition process_add_thread ::
  "ptr \<Rightarrow> ptr \<Rightarrow> object_number_t \<Rightarrow> 'z kern_scheme \<Rightarrow> (bool \<times> object_number_t \<times> 'z kern_scheme) option" where
  "process_add_thread process t objno s = do {
     _ \<leftarrow> kernel_assert (process \<noteq> NULL);
     (n, free) \<leftarrow> count_threads process (ks s);
     let thread_id = (case free of None \<Rightarrow> 0 | Some i \<Rightarrow> i);
     if n < of_nat MAX_THREADS then do {
       s \<leftarrow> on_ks (process_update process (\<lambda>x. if initial_thread x = NULL then x\<lparr>initial_thread := t\<rparr> else x)) s;
       s \<leftarrow> on_ks (thread_set_tid t (of_nat thread_id)) s;
       x \<leftarrow> processes (ks s) process;
       (result, no, s) \<leftarrow> obj_create_thread (private_pool x) (p_scheduler x) (p_alarm_manager x) (p_object_table x)
          (of_nat thread_id) t s;
       let objno = (case no of None \<Rightarrow> objno | Some i \<Rightarrow> i);
       if result \<noteq> UNKNOWN_ERROR then do {
         s \<leftarrow> on_ks (thread_set_oid t objno) s;
         s \<leftarrow> on_ks (process_update process (\<lambda>x. x\<lparr>p_threads := (p_threads x)[thread_id := t]\<rparr>)) s;
         Some (True, objno, s)
       }
       else Some (False, objno, s)
     }
     else Some (False, objno, s)
   }"

definition process_thread_exit :: "ptr \<Rightarrow> ptr \<Rightarrow> kst \<Rightarrow> kst option" where
  "process_thread_exit process t s = do {
     _ \<leftarrow> kernel_assert (process \<noteq> NULL);
     _ \<leftarrow> kernel_assert (t \<noteq> NULL);
     i \<leftarrow> thread_get_tid t s;
     x \<leftarrow> processes s process;
     u \<leftarrow> at (p_threads x) (unat i);
     if u \<noteq> NULL then process_update process (\<lambda>x. x\<lparr>p_threads := (p_threads x)[unat i := NULL]\<rparr>) s else Some s
   }"

text \<open>The result, the object of the thread and the thread, null when there is an error.\<close>

definition proc_create_thread ::
  "u32 \<Rightarrow> u32 \<Rightarrow> ptr \<Rightarrow> u8 list option \<Rightarrow> ptr \<Rightarrow> u8 \<Rightarrow> u32 \<Rightarrow> u32 \<Rightarrow> 'z kern_scheme \<Rightarrow>
     (return_t \<times> ptr \<times> ptr \<times> 'z kern_scheme) option" where
  "proc_create_thread arm_bootstrap thread_end process name entry pri stack flags s = do {
     pool \<leftarrow> process_get_mem_pool process (ks s);
     user_pool \<leftarrow> process_get_user_mem_pool process (ks s);
     (t, s) \<leftarrow> thread_create arm_bootstrap thread_end pool user_pool process pri entry flags stack name s;
     if t = NULL then Some (NO_ERROR, NULL, NULL, s)
     else do {
       (ok, objno, s) \<leftarrow> process_add_thread process t INVALID_OBJECT_ID s;
       state \<leftarrow> thread_get_state t (ks s);
       if ok \<and> state = THREAD_READY then do {
         table \<leftarrow> process_get_object_table process (ks s);
         obj \<leftarrow> obj_get_object table objno (oh s);
         Some (NO_ERROR, obj, t, s)
       }
       else Some (OUT_OF_MEMORY, NULL, NULL, s)
     }
   }"

end
