(* ===== verification/Process_Mem_Correct.thy ===== *)
theory Process_Mem_Correct
  imports Process_Mem Mmu_Props
begin

section \<open>The address space of a process\<close>

text \<open>
  The chain of sections as a list, its layout in the virtual address space, and what the searches for an
  address and for a hole find in it.
\<close>

subsection \<open>The chain\<close>

primrec sec_path :: "mem_section_t pheap \<Rightarrow> ptr \<Rightarrow> ptr list \<Rightarrow> bool" where
  "sec_path h p [] = (p = NULL)"
| "sec_path h p (a # as) = (p = a \<and> a \<noteq> NULL \<and> (case h a of None \<Rightarrow> False | Some x \<Rightarrow> sec_path h (sec_next x) as))"

definition sec_start :: "mem_section_t pheap \<Rightarrow> ptr \<Rightarrow> nat" where
  "sec_start h a = unat (virt_address (the (h a)))"

definition sec_end :: "mem_section_t pheap \<Rightarrow> ptr \<Rightarrow> nat" where
  "sec_end h a = sec_start h a + unat (sec_size (the (h a)))"

text \<open>The sections are sorted, do not overlap, and consist of whole pages below the top of the address space.\<close>

primrec sec_layout :: "mem_section_t pheap \<Rightarrow> nat \<Rightarrow> ptr list \<Rightarrow> bool" where
  "sec_layout h lo [] = True"
| "sec_layout h lo (a # as) = (lo \<le> sec_start h a \<and> sec_end h a < 2 ^ 32 \<and> sec_start h a mod 4096 = 0 \<and>
     sec_end h a mod 4096 = 0 \<and> sec_layout h (sec_end h a) as)"

lemma sec_path_cong: "(\<And>a. a \<in> set as \<Longrightarrow> h' a = h a) \<Longrightarrow> sec_path h' p as = sec_path h p as"
  by (induction as arbitrary: p) (auto split: option.splits)

lemma sec_path_upd [simp]: "n \<notin> set as \<Longrightarrow> sec_path (h(n \<mapsto> x)) p as = sec_path h p as"
  by (rule sec_path_cong) auto

lemma sec_layout_cong:
  "(\<And>a. a \<in> set as \<Longrightarrow> sec_start h' a = sec_start h a \<and> sec_end h' a = sec_end h a) \<Longrightarrow> sec_layout h' lo as = sec_layout h lo as"
  by (induction as arbitrary: lo) auto

lemma sec_path_alive: "sec_path h p as \<Longrightarrow> a \<in> set as \<Longrightarrow> a \<noteq> NULL \<and> (\<exists>x. h a = Some x)"
  by (induction as arbitrary: p) (auto split: option.splits)

lemma sec_path_head: "sec_path h p as \<Longrightarrow> p = (if as = [] then NULL else hd as)"
  by (cases as) auto

lemma sec_path_unique: "sec_path h p as \<Longrightarrow> sec_path h p bs \<Longrightarrow> as = bs"
proof (induction as arbitrary: p bs)
  case Nil
  then show ?case by (cases bs) auto
next
  case (Cons a as)
  then show ?case by (cases bs) (auto split: option.splits)
qed

lemma sec_path_suffix: "sec_path h p (us @ a # ws) \<Longrightarrow> sec_path h a (a # ws)"
proof (induction us arbitrary: p)
  case (Cons b us)
  then obtain x :: mem_section_t where "sec_path h (sec_next x) (us @ a # ws)" by (auto split: option.splits)
  then show ?case by (rule Cons.IH)
qed simp

lemma sec_path_distinct: "sec_path h p as \<Longrightarrow> distinct as"
proof (induction as arbitrary: p)
  case (Cons a as)
  then obtain x where x: "h a = Some x" "sec_path h (sec_next x) as" by (auto split: option.splits)
  have "a \<notin> set as"
  proof
    assume "a \<in> set as"
    then obtain us ws where as: "as = us @ a # ws" by (meson split_list)
    have "sec_path h (sec_next x) ws" using sec_path_suffix [of h _ us a ws] x unfolding as by simp
    then have "length as = length ws" using sec_path_unique [OF x(2)] by auto
    then show False by (simp add: as)
  qed
  then show ?case using Cons.IH [OF x(2)] by simp
qed simp

lemma sec_layout_append:
  "sec_layout h lo (as @ bs) \<longleftrightarrow> sec_layout h lo as \<and> sec_layout h (if as = [] then lo else sec_end h (last as)) bs"
  by (induction as arbitrary: lo) auto

lemma sec_layout_bounds:
  "sec_layout h lo as \<Longrightarrow> a \<in> set as \<Longrightarrow>
   lo \<le> sec_start h a \<and> sec_end h a < 2 ^ 32 \<and> sec_start h a mod 4096 = 0 \<and> sec_end h a mod 4096 = 0"
proof (induction as arbitrary: lo)
  case (Cons b as)
  have "sec_start h b \<le> sec_end h b" by (simp add: sec_end_def)
  then show ?case using Cons.prems Cons.IH [of "sec_end h b"] by auto
qed simp

lemma sec_layout_last:
  assumes "sec_layout h lo as" "a \<in> set as"
  shows "sec_end h a \<le> sec_end h (last as)"
proof -
  obtain us ws where as: "as = us @ a # ws" using assms(2) by (meson split_list)
  then have ws: "sec_layout h (sec_end h a) ws" using assms(1) by (simp add: sec_layout_append)
  show ?thesis
  proof (cases "ws = []")
    case False
    then have "sec_end h a \<le> sec_start h (last ws)" using sec_layout_bounds [OF ws] by simp
    then show ?thesis using False by (simp add: as sec_end_def)
  qed (simp add: as)
qed

subsection \<open>The searches\<close>

lemma find_real_found:
  assumes "sec_path (sections v) p (us @ a # ws)" "sections v a = Some x" "\<forall>b\<in>set us. sec_end (sections v) b < unat w"
    and "sec_layout (sections v) lo (us @ a # ws)" "virt_address x \<le> w" "unat w \<le> sec_end (sections v) a"
  shows "process_find_real p w v = Some (Some (real_address x + (w - virt_address x)))"
  using assms
proof (induction us arbitrary: p lo)
  case Nil
  have "unat (virt_address x + sec_size x) = sec_end (sections v) a"
    using Nil.prems(2,4) by (simp add: sec_end_def sec_start_def unat_word_ariths)
  then have "w \<le> virt_address x + sec_size x" using Nil.prems(6) by (simp add: word_le_nat_alt)
  then show ?case using Nil.prems
    by (subst process_find_real.simps)
       (simp add: mem_sec_get_virt_addr_def mem_sec_get_size_def mem_sec_get_real_addr_def)
next
  case (Cons b us)
  obtain y where y: "sections v b = Some y" "p = b" "b \<noteq> NULL" "sec_path (sections v) (sec_next y) (us @ a # ws)"
    using Cons.prems(1) by (auto split: option.splits)
  have "unat (virt_address y + sec_size y) = sec_end (sections v) b"
    using Cons.prems(4) y(1) by (simp add: sec_end_def sec_start_def unat_word_ariths)
  then have "\<not> w \<le> virt_address y + sec_size y" using Cons.prems(3) by (simp add: word_le_nat_alt)
  moreover have "process_find_real (sec_next y) w v = Some (Some (real_address x + (w - virt_address x)))"
    using Cons.prems y by (intro Cons.IH) auto
  ultimately show ?case using y
    by (subst process_find_real.simps)
       (simp add: mem_sec_get_virt_addr_def mem_sec_get_size_def mem_sec_get_real_addr_def mem_sec_get_next_def)
qed

lemma page_pad_aligned:
  assumes "unat a mod 4096 = 0"
  shows "page_pad a = a"
proof -
  have "unat (a mod 4096) = 0" using assms by (simp add: unat_mod)
  then have "a mod 4096 = 0" by (simp add: unat_eq_zero)
  then show ?thesis by (simp add: page_pad_def MMU_PAGE_SIZE_def)
qed

text \<open>The address behind the sections that were passed, and where the search stopped.\<close>

definition hole_start :: "mem_section_t pheap \<Rightarrow> u32 \<Rightarrow> ptr list \<Rightarrow> u32" where
  "hole_start h v us = (if us = [] then v else virt_address (the (h (last us))) + sec_size (the (h (last us))))"

lemma find_hole_found:
  assumes "sec_path (sections s) p ys" "sec_layout (sections s) lo ys" "\<forall>a\<in>set ys. sec_end (sections s) a + unat sz < 2 ^ 32"
    and "unat v + unat sz < 2 ^ 32"
  shows "\<exists>us ws. ys = us @ ws \<and>
    process_find_hole base sz v p prev s =
      Some (hole_start (sections s) v us, if ws = [] then NULL else hd ws, if us = [] then prev else last us) \<and>
    (ws \<noteq> [] \<longrightarrow> unat (hole_start (sections s) v us) + unat sz < sec_start (sections s) (hd ws))"
  using assms
proof (induction ys arbitrary: p lo v prev)
  case Nil
  then show ?case by (subst process_find_hole.simps) (simp add: hole_start_def)
next
  case (Cons b ys)
  let ?h = "sections s"
  obtain y where y: "?h b = Some y" "p = b" "b \<noteq> NULL" "sec_path ?h (sec_next y) ys"
    using Cons.prems(1) by (auto split: option.splits)
  have e: "unat (virt_address y + sec_size y) = sec_end ?h b"
    using Cons.prems(2) y(1) by (simp add: sec_end_def sec_start_def unat_word_ariths)
  have sum: "unat (v + sz) = unat v + unat sz" using Cons.prems(4) by (simp add: unat_word_ariths)
  show ?case
  proof (cases "virt_address y > base \<and> virt_address y > v + sz")
    case True
    then have "process_find_hole base sz v p prev s = Some (v, b, prev)"
      using y by (subst process_find_hole.simps) (simp add: mem_sec_get_virt_addr_def)
    moreover have "unat v + unat sz < sec_start ?h b"
      using True y(1) sum by (simp add: sec_start_def word_less_nat_alt)
    ultimately show ?thesis by (intro exI [of _ "[]"] exI [of _ "b # ys"]) (simp add: hole_start_def)
  next
    case False
    let ?v = "virt_address y + sec_size y"
    have "page_pad ?v = ?v" using Cons.prems(2) e by (intro page_pad_aligned) simp
    then have step: "process_find_hole base sz v p prev s = process_find_hole base sz ?v (sec_next y) b s"
      using y False by (subst process_find_hole.simps)
        (auto simp: mem_sec_get_virt_addr_def mem_sec_get_size_def mem_sec_get_next_def)
    obtain us ws where us: "ys = us @ ws"
      "process_find_hole base sz ?v (sec_next y) b s =
         Some (hole_start ?h ?v us, if ws = [] then NULL else hd ws, if us = [] then b else last us)"
      "ws \<noteq> [] \<longrightarrow> unat (hole_start ?h ?v us) + unat sz < sec_start ?h (hd ws)"
      using Cons.IH [OF y(4), of "sec_end ?h b" ?v b] Cons.prems(2,3) e by auto
    have "hole_start ?h ?v us = hole_start ?h v (b # us)" using y(1) by (simp add: hole_start_def)
    then show ?thesis using us step by (intro exI [of _ "b # us"] exI [of _ ws]) simp
  qed
qed

subsection \<open>Insertion\<close>

definition sec_link :: "mem_section_t pheap \<Rightarrow> ptr list \<Rightarrow> ptr \<Rightarrow> mem_section_t pheap" where
  "sec_link h us n = (if us = [] then h else h(last us \<mapsto> (the (h (last us)))\<lparr>sec_next := n\<rparr>))"

lemma sec_link_views [simp]:
  "h a \<noteq> None \<Longrightarrow> sec_start (sec_link h us n) a = sec_start h a" "h a \<noteq> None \<Longrightarrow> sec_end (sec_link h us n) a = sec_end h a"
  by (auto simp: sec_link_def sec_start_def sec_end_def)

lemma sec_path_link:
  assumes "sec_path h p (us @ ws)" "n \<notin> set (us @ ws)" "n \<noteq> NULL" "sec_next nx = (if ws = [] then NULL else hd ws)"
  shows "sec_path (sec_link (h(n \<mapsto> nx)) us n) (if us = [] then n else p) (us @ n # ws)"
  using assms(1,2)
proof (induction us arbitrary: p)
  case Nil
  have "sec_path (h(n \<mapsto> nx)) (sec_next nx) ws"
    using Nil assms(4) sec_path_head [of h p ws] by simp
  then show ?case using assms(3) by (simp add: sec_link_def fun_upd_def)
next
  case (Cons b us)
  obtain y where y: "h b = Some y" "p = b" "b \<noteq> NULL" "sec_path h (sec_next y) (us @ ws)"
    using Cons.prems(1) by (auto split: option.splits)
  have d: "b \<notin> set (us @ ws)" using sec_path_distinct [OF Cons.prems(1)] by simp
  show ?case
  proof (cases "us = []")
    case True
    define h' where "h' = h(n \<mapsto> nx, b \<mapsto> y\<lparr>sec_next := n\<rparr>)"
    have link: "sec_link (h(n \<mapsto> nx)) (b # us) n = h'" using y(1) True Cons.prems(2) by (auto simp: sec_link_def h'_def)
    have "h' b = Some (y\<lparr>sec_next := n\<rparr>)" "h' n = Some nx" using Cons.prems(2) by (auto simp: h'_def)
    moreover have "sec_path h' (sec_next nx) ws"
      using Cons.prems(2) d y(4) assms(4) sec_path_head [OF y(4)] unfolding True h'_def by auto
    ultimately show ?thesis unfolding link using y(2,3) True assms(3) by simp
  next
    case False
    then have l: "last us \<noteq> b" using d last_in_set [OF False] by auto
    have nin: "n \<notin> set (us @ ws)" using Cons.prems(2) by simp
    have "sec_path (sec_link (h(n \<mapsto> nx)) us n) (sec_next y) (us @ n # ws)"
      using Cons.IH [OF y(4) nin] unfolding if_not_P [OF False] .
    moreover have link: "sec_link (h(n \<mapsto> nx)) (b # us) n = sec_link (h(n \<mapsto> nx)) us n" using False by (simp add: sec_link_def)
    moreover have "sec_link (h(n \<mapsto> nx)) us n b = Some y" using y(1) l Cons.prems(2) by (auto simp: sec_link_def)
    ultimately show ?thesis unfolding link using y(2,3) by simp
  qed
qed

lemma sec_layout_insert:
  assumes "sec_layout h lo (us @ ws)" "us = [] \<longrightarrow> lo \<le> unat v" "us \<noteq> [] \<longrightarrow> sec_end h (last us) \<le> unat v"
    and "ws \<noteq> [] \<longrightarrow> unat v + unat sz \<le> sec_start h (hd ws)" "unat v + unat sz < 2 ^ 32"
    and "unat v mod 4096 = 0" "unat sz mod 4096 = 0" "virt_address nx = v" "sec_size nx = sz"
    and "n \<notin> set (us @ ws)" "\<forall>a\<in>set (us @ ws). h a \<noteq> None"
  shows "sec_layout (sec_link (h(n \<mapsto> nx)) us n) lo (us @ n # ws)"
proof -
  let ?h = "sec_link (h(n \<mapsto> nx)) us n"
  have n: "sec_start ?h n = unat v" "sec_end ?h n = unat v + unat sz"
    using assms(8,9) by (auto simp: sec_start_def sec_end_def sec_link_def)
  have o: "sec_start ?h a = sec_start h a" "sec_end ?h a = sec_end h a" if "a \<in> set (us @ ws)" for a
    using assms(10,11) that by (auto simp: sec_start_def sec_end_def sec_link_def)
  have us: "sec_layout ?h lo us" and ws: "sec_layout ?h (if us = [] then lo else sec_end h (last us)) ws"
    using assms(1) sec_layout_cong [of us ?h h lo] sec_layout_cong [of ws ?h h] o by (auto simp: sec_layout_append)
  have "sec_layout ?h (unat v + unat sz) ws"
    using ws assms(4) o by (cases ws) auto
  moreover have "(unat v + unat sz) mod 4096 = 0" using assms(6,7) by (simp add: mod_add_eq [symmetric])
  ultimately show ?thesis
    using us n assms(2,3,5-7) o [of "last us"] by (simp add: sec_layout_append)
qed

subsection \<open>Allocation\<close>

definition new_section :: "ptr \<Rightarrow> ptr \<Rightarrow> u32 \<Rightarrow> u32 \<Rightarrow> u32 \<Rightarrow> mmu_memory_t \<Rightarrow> mmu_privilege_t \<Rightarrow> mmu_access_t \<Rightarrow> u8 list \<Rightarrow> mem_section_t" where
  "new_section next pool real v sz type priv acc nm = \<lparr>sec_next = next, real_address = real, virt_address = v, sec_size = sz,
     memory_type = type, privilege = priv, access_rights = acc, sec_name = nm, sec_pool = pool\<rparr>"

lemma create_section:
  assumes "v_answers s = n # rest" "n \<noteq> NULL" "sections s n = None" "pool \<noteq> NULL" "util_strcpy (replicate 33 0) name 32 = Some nm"
  shows "mem_sec_create pool real v sz type priv acc name s =
    Some (n, s\<lparr>v_answers := rest, sections := (sections s)(n \<mapsto> new_section NULL pool real v sz type priv acc nm)\<rparr>)"
  using assms by (simp add: mem_sec_create_def mem_alloc_def mem_sec_initialise_def new_section_def)

text \<open>The section is linked into the chain before it is mapped.\<close>

lemma allocate_links:
  assumes p: "p \<noteq> NULL" "processes (ks s) p = Some x" "private_pool x \<noteq> NULL"
    and path: "sec_path (sections (vm s)) (first_section x) (us @ ws)" "us @ ws \<noteq> []"
    and hole: "process_find_hole (VIRTUAL_ADDRESS_SPACE (kernel_process x)) sz (VIRTUAL_ADDRESS_SPACE (kernel_process x))
      (first_section x) NULL (vm s) = Some (v, if ws = [] then NULL else hd ws, if us = [] then NULL else last us)"
    and v: "unat v mod 4096 = 0"
    and mem: "v_answers (vm s) = n # rest" "n \<noteq> NULL" "sections (vm s) n = None"
    and name: "util_strcpy (replicate 33 0) name 32 = Some nm"
  shows "process_allocate_vmem p real sz type priv acc name s = do {
    (result, t) \<leftarrow> tgt_map_memory p n (s\<lparr>
      ks := (ks s)\<lparr>processes := (processes (ks s))(p \<mapsto> (if us = [] then x\<lparr>first_section := n\<rparr> else x))\<rparr>,
      vm := (vm s)\<lparr>v_answers := rest,
        sections := sec_link ((sections (vm s))(n \<mapsto>
          new_section (if ws = [] then NULL else hd ws) (private_pool x) real v sz type priv acc nm)) us n\<rparr>\<rparr>);
    Some (result, v, t)
  }"
proof -
  let ?pool = "private_pool x"
  have alive: "\<forall>a\<in>set (us @ ws). a \<noteq> NULL \<and> (\<exists>y. sections (vm s) a = Some y)" and d: "n \<notin> set (us @ ws)"
    using sec_path_alive [OF path(1)] sec_path_alive [OF path(1), of n] mem(3) by auto
  note create = create_section [OF mem p(3) name, of real v sz type priv acc]
  have same: "(processes (ks s))(p \<mapsto> x) = processes (ks s)" using p(2) by auto
  have pad: "page_pad v = v" using v by (rule page_pad_aligned)
  show ?thesis
  proof (cases "us = []")
    case True
    then have ws: "ws \<noteq> []" "hd ws \<noteq> NULL" using path(2) alive by auto
    show ?thesis
      using p hole create True ws mem(2) d
      by (simp add: process_allocate_vmem_def on_vm_def on_vs_def mem_sec_set_next_def store_def on_ks_def process_update_def
          sec_link_def new_section_def)
  next
    case False
    then have l: "last us \<in> set (us @ ws)" by simp
    then obtain y where y: "last us \<noteq> NULL" "sections (vm s) (last us) = Some y" "n \<noteq> last us"
      using alive d by metis
    show ?thesis
    proof (cases "ws = []")
      case True
      show ?thesis
        using p hole create True False y mem(2) pad
        by (simp add: process_allocate_vmem_def on_vm_def on_vs_def mem_sec_set_next_def store_def sec_link_def new_section_def same)
    next
      case ws: False
      then have "hd ws \<noteq> NULL" using alive by auto
      then show ?thesis
        using p hole create ws False y mem(2)
        by (simp add: process_allocate_vmem_def on_vm_def on_vs_def mem_sec_set_next_def store_def sec_link_def new_section_def same
            fun_upd_twist)
    qed
  qed
qed

end
