(* ===== verification/Process_Mem_Props.thy ===== *)
theory Process_Mem_Props
  imports Process_Mem_Correct Object_Props Alarm_Props Sched_Demo
begin

section \<open>Properties of the address space of a process\<close>

text \<open>
  Allocation of virtual memory from the search for a hole to the page tables, and what
  \<open>process_virt_to_real\<close> makes of the new section.
\<close>

lemma hole_in_layout:
  assumes path: "sec_path h p (us @ ws)" and lay: "sec_layout h 0 (us @ ws)" and v: "v = hole_start h base us"
    and base: "unat base mod 4096 = 0" and room: "ws \<noteq> [] \<longrightarrow> unat v + unat sz < sec_start h (hd ws)"
  shows "unat v mod 4096 = 0" "\<forall>a\<in>set us. sec_end h a \<le> unat v" "\<forall>a\<in>set ws. unat v + unat sz < sec_start h a"
    "us \<noteq> [] \<Longrightarrow> unat v = sec_end h (last us)"
proof -
  have us: "sec_layout h 0 us" and ws: "sec_layout h (if us = [] then 0 else sec_end h (last us)) ws"
    using lay by (simp_all add: sec_layout_append)
  show e: "unat v = sec_end h (last us)" if "us \<noteq> []"
    using that sec_layout_bounds [OF us, of "last us"] by (simp add: v hole_start_def sec_end_def sec_start_def unat_word_ariths)
  show "unat v mod 4096 = 0"
    using base e sec_layout_bounds [OF us, of "last us"] by (cases "us = []") (simp_all add: v hole_start_def)
  show "\<forall>a\<in>set us. sec_end h a \<le> unat v" using e sec_layout_last [OF us] by fastforce
  show "\<forall>a\<in>set ws. unat v + unat sz < sec_start h a"
  proof
    fix a assume a: "a \<in> set ws"
    then obtain b bs where b: "ws = b # bs" by (cases ws) auto
    have "sec_start h b \<le> sec_start h a"
    proof (cases "a = b")
      case False
      then have "sec_end h b \<le> sec_start h a" using a ws sec_layout_bounds [of h "sec_end h b" bs a] by (simp add: b)
      then show ?thesis by (simp add: sec_end_def)
    qed simp
    then show "unat v + unat sz < sec_start h a" using room by (simp add: b)
  qed
qed

lemma mmu_views:
  "mmu_ok (s\<lparr>v_answers := r, sections := h\<rparr>) = mmu_ok s" "no_section (s\<lparr>v_answers := r, sections := h\<rparr>) = no_section s"
  by (simp_all add: mmu_ok_def no_section_def fun_eq_iff)

text \<open>A section that is in the chain of a process is mapped.\<close>

lemma tgt_map_memory_walk:
  assumes p: "p \<noteq> NULL" "processes (ks s) p = Some x" "private_pool x \<noteq> NULL" "page_table x \<noteq> NULL"
    and t: "l1_tables (vm s) (page_table x) = Some t" and n: "n \<noteq> NULL" "sections (vm s) n = Some sec"
    and fits: "section_fits sec pages" "unat (sec_size sec) = pages * 4096" "mmu_ok (vm s)" "lvl2_room (vm s) pages"
    and free: "\<forall>k < pages. no_section (vm s) (page_table x) ((unat (virt_address sec) + k * 4096) div 2 ^ 20)"
  obtains v where "tgt_map_memory p n s = Some (NO_ERROR, s\<lparr>vm := v\<rparr>)" "sections v = sections (vm s)" "mmu_ok v"
    "\<And>w. unat (virt_address sec) \<le> unat w \<Longrightarrow> unat w < unat (virt_address sec) + pages * 4096 \<Longrightarrow>
       arm_walk v (page_table x) w = Some (real_address sec + (w - virt_address sec))"
proof -
  have pages: "pages = (unat (sec_size sec) + 4095) div 4096" using fits(2) by simp
  obtain v where "arm_map_memory (private_pool x) (page_table x) n (vm s) = Some (NO_ERROR, v)" "sections v = sections (vm s)" "mmu_ok v"
    "\<And>w. arm_walk v (page_table x) w =
       (if unat (virt_address sec) \<le> unat w \<and> unat w < unat (virt_address sec) + pages * 4096
        then Some (real_address sec + (w - virt_address sec)) else arm_walk (vm s) (page_table x) w)"
    using map_memory_walk [OF fits(3) p(4,3) t n pages fits(1) free fits(4)] by auto
  then show ?thesis
    using p n(1) by (intro that [of v])
      (simp_all add: tgt_map_memory_def on_vm_def process_get_mem_pool_def process_get_page_table_def process_field_def)
qed

text \<open>The process \<open>p\<close>, with the state \<open>x\<close>, has the sections \<open>as\<close> in the heap.\<close>

definition space_ok :: "'z kern_scheme \<Rightarrow> ptr \<Rightarrow> process_t \<Rightarrow> ptr list \<Rightarrow> bool" where
  "space_ok s p x as \<longleftrightarrow> p \<noteq> NULL \<and> processes (ks s) p = Some x \<and> private_pool x \<noteq> NULL \<and> page_table x \<noteq> NULL \<and>
     l1_tables (vm s) (page_table x) \<noteq> None \<and> mmu_ok (vm s) \<and>
     sec_path (sections (vm s)) (first_section x) as \<and> sec_layout (sections (vm s)) 0 as"

lemma virt_to_real_found:
  assumes "space_ok s p x (us @ a # ws)" "sections (vm s) a = Some y" "\<forall>b\<in>set us. sec_end (sections (vm s)) b < unat w"
    and "unat (virt_address y) \<le> unat w" "unat w \<le> unat (virt_address y) + unat (sec_size y)"
  shows "process_virt_to_real p w s = Some (real_address y + (w - virt_address y))"
  using assms find_real_found [of "vm s" "first_section x" us a ws y w 0]
  by (simp add: space_ok_def process_virt_to_real_def sec_end_def sec_start_def word_le_nat_alt Let_def)

text \<open>The space after an allocation, before the section is mapped.\<close>

lemma space_ok_link:
  assumes ok: "space_ok s p x (us @ ws)" and n: "n \<notin> set (us @ ws)" "n \<noteq> NULL"
    and nx: "sec_next nx = (if ws = [] then NULL else hd ws)" "virt_address nx = v" "sec_size nx = sz"
    and v: "unat v mod 4096 = 0" "unat sz mod 4096 = 0" "unat v + unat sz < 2 ^ 32"
    and around: "\<forall>a\<in>set us. sec_end (sections (vm s)) a \<le> unat v"
      "\<forall>a\<in>set ws. unat v + unat sz < sec_start (sections (vm s)) a"
    and s': "ks s' = (ks s)\<lparr>processes := (processes (ks s))(p \<mapsto> (if us = [] then x\<lparr>first_section := n\<rparr> else x))\<rparr>"
      "sections (vm s') = sec_link ((sections (vm s))(n \<mapsto> nx)) us n" "mmu_ok (vm s')" "l1_tables (vm s') (page_table x) \<noteq> None"
  shows "space_ok s' p (if us = [] then x\<lparr>first_section := n\<rparr> else x) (us @ n # ws)"
proof -
  have path: "sec_path (sections (vm s)) (first_section x) (us @ ws)" and lay: "sec_layout (sections (vm s)) 0 (us @ ws)"
    using ok by (simp_all add: space_ok_def)
  have "sec_path (sections (vm s')) (if us = [] then n else first_section x) (us @ n # ws)"
    unfolding s'(2) by (rule sec_path_link [OF path n nx(1)])
  moreover have "sec_layout (sections (vm s')) 0 (us @ n # ws)"
    unfolding s'(2) using around v nx sec_path_alive [OF path] n
    by (intro sec_layout_insert [OF lay]) (auto simp: less_imp_le)
  ultimately show ?thesis using ok s' by (cases "us = []") (simp_all add: space_ok_def del: sec_path.simps)
qed

lemma walk_alive: "arm_walk v t w = Some r \<Longrightarrow> l1_tables v t \<noteq> None"
  by (cases "l1_tables v t") (simp_all add: arm_walk_def)

lemma allocate_in_hole:
  assumes ok: "space_ok s p x (us @ ws)" and ne: "us @ ws \<noteq> []"
    and hole: "process_find_hole (VIRTUAL_ADDRESS_SPACE (kernel_process x)) sz (VIRTUAL_ADDRESS_SPACE (kernel_process x))
      (first_section x) NULL (vm s) = Some (v, if ws = [] then NULL else hd ws, if us = [] then NULL else last us)"
    and v: "unat v mod 4096 = 0" "unat v + unat sz < 0xFFF00000" "\<forall>a\<in>set us. sec_end (sections (vm s)) a \<le> unat v"
      "\<forall>a\<in>set ws. unat v + unat sz < sec_start (sections (vm s)) a"
    and sz: "unat sz = pages * 4096" "0 < pages" "pages < 256" and real: "unat real mod 4096 = 0" "unat real + unat sz < 2 ^ 32"
    and mem: "v_answers (vm s) = n # rest" "n \<noteq> NULL" "sections (vm s) n = None" "lvl2_room ((vm s)\<lparr>v_answers := rest\<rparr>) pages"
    and name: "util_strcpy (replicate 33 0) name 32 = Some nm"
    and free: "\<forall>k < pages. no_section (vm s) (page_table x) ((unat v + k * 4096) div 2 ^ 20)"
  shows "\<exists>s' x'. process_allocate_vmem p real sz type priv acc name s = Some (NO_ERROR, v, s') \<and>
       space_ok s' p x' (us @ n # ws) \<and>
       (\<forall>w. unat v \<le> unat w \<and> unat w < unat v + unat sz \<longrightarrow>
          arm_walk (vm s') (page_table x) w = Some (real + (w - v))) \<and>
       (\<forall>w. unat v < unat w \<and> unat w \<le> unat v + unat sz \<longrightarrow> process_virt_to_real p w s' = Some (real + (w - v)))"
proof -
  let ?h = "sections (vm s)"
  define nx where "nx = new_section (if ws = [] then NULL else hd ws) (private_pool x) real v sz type priv acc nm"
  define x' where "x' = (if us = [] then x\<lparr>first_section := n\<rparr> else x)"
  define s1 where "s1 = s\<lparr>ks := (ks s)\<lparr>processes := (processes (ks s))(p \<mapsto> x')\<rparr>,
      vm := (vm s)\<lparr>v_answers := rest, sections := sec_link ((sections (vm s))(n \<mapsto> nx)) us n\<rparr>\<rparr>"
  have p: "p \<noteq> NULL" "processes (ks s) p = Some x" "private_pool x \<noteq> NULL"
    and path: "sec_path (sections (vm s)) (first_section x) (us @ ws)" using ok by (simp_all add: space_ok_def)
  have n: "n \<notin> set (us @ ws)" using sec_path_alive [OF path, of n] mem(3) by auto
  have nxs: "sec_next nx = (if ws = [] then NULL else hd ws)" "virt_address nx = v" "sec_size nx = sz" "real_address nx = real"
    by (simp_all add: nx_def new_section_def)
  have links: "process_allocate_vmem p real sz type priv acc name s = do {
      (result, t) \<leftarrow> tgt_map_memory p n s1; Some (result, v, t) }"
    using allocate_links [OF p path ne hole v(1) mem(1-3) name] by (simp add: s1_def x'_def nx_def)
  have sec: "sections (vm s1) n = Some nx" using n last_in_set [of us] by (auto simp: s1_def sec_link_def)
  have fits: "section_fits nx pages" using v(1,2) sz real by (simp add: section_fits_def nxs)
  obtain t where t: "l1_tables (vm s1) (page_table x') = Some t" using ok by (auto simp: space_ok_def s1_def x'_def)
  obtain vv where vv: "tgt_map_memory p n s1 = Some (NO_ERROR, s1\<lparr>vm := vv\<rparr>)" "sections vv = sections (vm s1)" "mmu_ok vv"
    and walk: "\<And>w. unat v \<le> unat w \<Longrightarrow> unat w < unat v + pages * 4096 \<Longrightarrow> arm_walk vv (page_table x') w = Some (real + (w - v))"
  proof (rule tgt_map_memory_walk [OF p(1) _ _ _ t mem(2) sec fits])
    show "processes (ks s1) p = Some x'" by (simp add: s1_def)
    show "private_pool x' \<noteq> NULL" "page_table x' \<noteq> NULL" using ok by (simp_all add: x'_def space_ok_def)
    show "unat (sec_size nx) = pages * 4096" by (simp only: nxs sz(1))
    show "mmu_ok (vm s1)" using ok by (simp add: s1_def mmu_views space_ok_def)
    show "lvl2_room (vm s1) pages" using mem(4) by (simp add: s1_def lvl2_room_def)
    show "\<forall>k < pages. no_section (vm s1) (page_table x') ((unat (virt_address nx) + k * 4096) div 2 ^ 20)"
      using free by (simp add: s1_def mmu_views nxs x'_def)
  qed (simp_all only: nxs)
  have tbl: "page_table x' = page_table x" by (simp add: x'_def)
  have "l1_tables vv (page_table x) \<noteq> None" using walk [of v] sz walk_alive by (auto simp: tbl)
  then have ok': "space_ok (s1\<lparr>vm := vv\<rparr>) p x' (us @ n # ws)"
    unfolding x'_def using v sz(1) vv by (intro space_ok_link [OF ok n mem(2) nxs(1-3)]) (auto simp: s1_def x'_def)
  have "process_virt_to_real p w (s1\<lparr>vm := vv\<rparr>) = Some (real + (w - v))"
    if "unat v < unat w" "unat w \<le> unat v + unat sz" for w
  proof -
    have "\<forall>b\<in>set us. sec_end (sections vv) b < unat w"
    proof
      fix b assume b: "b \<in> set us"
      then have "(?h(n \<mapsto> nx)) b \<noteq> None" using sec_path_alive [OF path, of b] by auto
      moreover have "sec_end (?h(n \<mapsto> nx)) b = sec_end ?h b" using n b by (auto simp: sec_end_def sec_start_def)
      ultimately have "sec_end (sections vv) b = sec_end ?h b" by (simp add: vv(2) s1_def)
      then show "sec_end (sections vv) b < unat w" using v(3) that(1) b by fastforce
    qed
    then show ?thesis
      using virt_to_real_found [OF ok', of nx w] that sec by (simp add: vv(2) nxs)
  qed
  then show ?thesis using ok' walk links vv(1) sz(1) tbl by (intro exI [of _ "s1\<lparr>vm := vv\<rparr>"] exI [of _ x']) simp
qed

subsection \<open>An example\<close>

text \<open>A process with two adjacent sections and one further up.\<close>

definition demo_sec :: "ptr \<Rightarrow> u32 \<Rightarrow> u32 \<Rightarrow> u32 \<Rightarrow> mem_section_t" where
  "demo_sec next real v sz = new_section next 9 real v sz MMU_RANDOM_ACCESS_MEMORY MMU_USER_ACCESS MMU_READ_WRITE []"

definition demo_process :: process_t where
  "demo_process = \<lparr>p_scheduler = 0x30, p_alarm_manager = NULL, process_id = 1, p_threads = [], private_pool = 9, memory_pool = 0x400000,
     p_object_table = NULL, p_object_number = 0, kernel_process = False, first_section = 0x10, p_image = [], initial_thread = NULL,
     parent_pool = 8, page_table = 0x20000\<rparr>"

definition demo_space :: kern where
  "demo_space = \<lparr>ks = \<lparr>cols = cols demo, threads = Map.empty, contexts = Map.empty, processes = [0x50 \<mapsto> demo_process],
       scheds = Map.empty, hw = [], k_answers = []\<rparr>,
     ah = demo_alarms, oh = demo_table,
     vm = \<lparr>sections = [0x10 \<mapsto> demo_sec 0x11 0x400000 0xC0000000 0x2000, 0x11 \<mapsto> demo_sec 0x12 0x500000 0xC0002000 0x1000,
         0x12 \<mapsto> demo_sec NULL 0x600000 0xC0010000 0x1000], l1_tables = [0x20000 \<mapsto> \<lparr>lvl1_entry = (\<lambda>_. 0)\<rparr>],
       l2_tables = Map.empty, tlb_flushes = 0, v_answers = [0x13, 0x1000, 0x2000, 0x3000]\<rparr>,
     blocks = Map.empty, b_answers = [], thread_objs = Map.empty\<rparr>"

lemma demo_space_vm:
  "sections (vm demo_space) 0x10 = Some (demo_sec 0x11 0x400000 0xC0000000 0x2000)"
  "sections (vm demo_space) 0x11 = Some (demo_sec 0x12 0x500000 0xC0002000 0x1000)"
  "sections (vm demo_space) 0x12 = Some (demo_sec NULL 0x600000 0xC0010000 0x1000)"
  "sections (vm demo_space) 0x13 = None" "v_answers (vm demo_space) = [0x13, 0x1000, 0x2000, 0x3000]"
  "no_section (vm demo_space) t i" "lvl2_room ((vm demo_space)\<lparr>v_answers := [0x1000, 0x2000, 0x3000]\<rparr>) 3"
  by (simp_all add: demo_space_def no_section_def lvl2_room_def)

lemma demo_space_ok: "space_ok demo_space 0x50 demo_process [0x10, 0x11, 0x12]"
proof -
  have "mmu_ok (vm demo_space)" by (auto simp: demo_space_def mmu_ok_def lvl2_entry_def)
  moreover have "sec_path (sections (vm demo_space)) 0x10 [0x10, 0x11, 0x12]"
    "sec_layout (sections (vm demo_space)) 0 [0x10, 0x11, 0x12]"
    by (simp_all add: demo_space_vm sec_start_def sec_end_def demo_sec_def new_section_def)
  ultimately show ?thesis by (simp add: space_ok_def del: sec_path.simps sec_layout.simps) (simp add: demo_space_def demo_process_def)
qed

subsection \<open>Properties\<close>

text \<open>
  C4: \<open>process_allocate_vmem\<close> finds a hole between the sections \<open>us\<close> and \<open>ws\<close> of the process, which overlaps none of
  them, and puts the new section there: when the sections are laid out in order without overlap and no address overflows,
  the memory is less than a megabyte of whole pages, the allocator has room and no entry of the range already maps a megabyte, the call
  succeeds, the sections of the process are still laid out in order, the page table translates every address of the hole
  to the same offset in the real block, and so does \<open>process_virt_to_real\<close> but for the first address.
\<close>

theorem process_allocate_vmem_maps:
  assumes "space_ok s p x as" "as \<noteq> []" "\<forall>a\<in>set as. sec_end (sections (vm s)) a + unat sz < 0xFFF00000"
    and "unat sz = pages * 4096" "0 < pages" "pages < 256" "unat real mod 4096 = 0" "unat real + unat sz < 2 ^ 32"
    and "v_answers (vm s) = n # rest" "n \<noteq> NULL" "sections (vm s) n = None" "lvl2_room ((vm s)\<lparr>v_answers := rest\<rparr>) pages"
    and "util_strcpy (replicate 33 0) name 32 = Some nm"
  shows "\<exists>v us ws. as = us @ ws \<and> (\<forall>a\<in>set us. sec_end (sections (vm s)) a \<le> unat v) \<and>
    (\<forall>a\<in>set ws. unat v + unat sz < sec_start (sections (vm s)) a) \<and>
    ((\<forall>k < pages. no_section (vm s) (page_table x) ((unat v + k * 4096) div 2 ^ 20)) \<longrightarrow>
     (\<exists>s' x'. process_allocate_vmem p real sz type priv acc name s = Some (NO_ERROR, v, s') \<and>
       space_ok s' p x' (us @ n # ws) \<and>
       (\<forall>w. unat v \<le> unat w \<and> unat w < unat v + unat sz \<longrightarrow>
          arm_walk (vm s') (page_table x) w = Some (real + (w - v))) \<and>
       (\<forall>w. unat v < unat w \<and> unat w \<le> unat v + unat sz \<longrightarrow> process_virt_to_real p w s' = Some (real + (w - v)))))"
proof -
  let ?h = "sections (vm s)" and ?base = "VIRTUAL_ADDRESS_SPACE (kernel_process x)"
  have path: "sec_path ?h (first_section x) as" and lay: "sec_layout ?h 0 as" using assms(1) by (simp_all add: space_ok_def)
  have base: "unat ?base mod 4096 = 0" "unat ?base + unat sz < 0xFFF00000" using assms(4,6) by (simp_all add: VIRTUAL_ADDRESS_SPACE_def)
  have low: "\<forall>a\<in>set as. sec_end ?h a + unat sz < 2 ^ 32"
  proof
    fix a assume "a \<in> set as"
    then have "sec_end ?h a + unat sz < 0xFFF00000" by (rule bspec [OF assms(3)])
    then show "sec_end ?h a + unat sz < 2 ^ 32" by simp
  qed
  obtain us ws where as: "as = us @ ws" and hole: "process_find_hole ?base sz ?base (first_section x) NULL (vm s) =
      Some (hole_start ?h ?base us, if ws = [] then NULL else hd ws, if us = [] then NULL else last us)"
    and room: "ws \<noteq> [] \<longrightarrow> unat (hole_start ?h ?base us) + unat sz < sec_start ?h (hd ws)"
    using find_hole_found [OF path lay low, of ?base ?base NULL] base(2) by auto
  define v where "v = hole_start ?h ?base us"
  note v = hole_in_layout [OF path [unfolded as] lay [unfolded as] v_def base(1) room [folded v_def]]
  have top: "unat v + unat sz < 0xFFF00000"
    using v(4) base(2) bspec [OF assms(3), of "last us"] by (cases "us = []") (simp_all add: as v_def hole_start_def)
  show ?thesis
    using v(2,3) allocate_in_hole [OF assms(1,2) [unfolded as] hole [folded v_def] v(1) top v(2,3) assms(4-13)]
    by (intro exI [of _ v] exI [of _ us] exI [of _ ws]) (simp add: as)
qed

theorem process_allocate_vmem_maps_witness:
  "\<exists>v s'. process_allocate_vmem 0x50 0x700000 0x3000 MMU_RANDOM_ACCESS_MEMORY MMU_USER_ACCESS MMU_READ_WRITE (Some [65, 0]) demo_space =
       Some (NO_ERROR, v, s') \<and> arm_walk (vm s') 0x20000 v = Some 0x700000"
proof -
  have nm: "util_strcpy (replicate 33 0) (Some [65, 0]) 32 = Some ([65] @ replicate 32 0)" by code_simp
  have "\<forall>a\<in>set [0x10, 0x11, 0x12]. sec_end (sections (vm demo_space)) a + unat (0x3000 :: u32) < 0xFFF00000"
    by (simp add: demo_space_vm sec_start_def sec_end_def demo_sec_def new_section_def)
  from process_allocate_vmem_maps [OF demo_space_ok _ this, of 3 "0x700000", OF _ _ _ _ _ _ demo_space_vm(5) _ demo_space_vm(4,7) nm,
      of MMU_RANDOM_ACCESS_MEMORY MMU_USER_ACCESS MMU_READ_WRITE]
  obtain v s' where "process_allocate_vmem 0x50 0x700000 0x3000 MMU_RANDOM_ACCESS_MEMORY MMU_USER_ACCESS MMU_READ_WRITE (Some [65, 0]) demo_space =
       Some (NO_ERROR, v, s')"
    "\<forall>w. unat v \<le> unat w \<and> unat w < unat v + unat (0x3000 :: u32) \<longrightarrow> arm_walk (vm s') (page_table demo_process) w = Some (0x700000 + (w - v))"
    using demo_space_vm(6) by auto
  then show ?thesis by (intro exI [of _ v] exI [of _ s']) (auto simp: demo_process_def)
qed

text \<open>
  The first address of a section that follows another one without a gap, as every section placed by
  \<open>process_allocate_vmem\<close> does, is not translated by \<open>process_virt_to_real\<close> to the memory of the section: the end of a section counts
  as part of it, and the result is the address behind the memory of the section before.
\<close>

lemma process_virt_to_real_boundary:
  assumes "space_ok s p x (us @ a # b # ws)" "sections (vm s) a = Some y" "sections (vm s) b = Some z"
    and "virt_address z = virt_address y + sec_size y" "sec_size y \<noteq> 0"
  shows "process_virt_to_real p (virt_address z) s = Some (real_address y + sec_size y)"
proof -
  have lay: "sec_layout (sections (vm s)) 0 (us @ a # b # ws)" using assms(1) by (simp add: space_ok_def)
  have e: "sec_end (sections (vm s)) a < 2 ^ 32" using sec_layout_bounds [OF lay, of a] by simp
  then have w: "unat (virt_address z) = unat (virt_address y) + unat (sec_size y)"
    using assms(2,4) by (simp add: sec_end_def sec_start_def unat_word_ariths)
  have "sec_end (sections (vm s)) c < unat (virt_address z)" if "c \<in> set us" for c
  proof -
    have us: "sec_layout (sections (vm s)) 0 us" "us \<noteq> []" "sec_end (sections (vm s)) (last us) \<le> sec_start (sections (vm s)) a"
      using lay that by (auto simp: sec_layout_append split: if_splits)
    have "0 < unat (sec_size y)" using assms(5) by (simp add: unat_gt_0)
    then show ?thesis using sec_layout_last [OF us(1) that] us(3) w assms(2) by (simp add: sec_start_def)
  qed
  then have "process_virt_to_real p (virt_address z) s = Some (real_address y + (virt_address z - virt_address y))"
    using virt_to_real_found [OF assms(1,2), of "virt_address z"] w by simp
  then show ?thesis using assms(4) by simp
qed

end
