(* ===== verification/Elf.thy ===== *)
theory Elf
  imports Pipe
begin

section \<open>Reading ELF files (\<open>libelf\<close>)\<close>

text \<open>
  The file is in the byte memory, at the address \<open>d\<close>; the reader's call back \<open>pread\<close> copies from
  there and never fails, so the reader gets structures out of the memory.  The model is the
  one for 32-bit little-endian ARM.  Reading a structure into a local variable is decoding it; segments are copied within the
  byte memory.
\<close>

unbundle bit_operations_syntax

subsection \<open>Structures\<close>

datatype el_status =
    EL_OK | EL_EIO | EL_ENOMEM | EL_NOTELF | EL_WRONGBITS | EL_WRONGENDIAN | EL_WRONGARCH | EL_WRONGOS | EL_NOTEXEC
  | EL_NODYN | EL_BADREL

record Elf_Ehdr =
  e_ident :: "u8 list"
  e_type :: u16
  e_machine :: u16
  e_version :: u32
  e_entry :: u32
  e_phoff :: u32
  e_phentsize :: u16
  e_phnum :: u16

record Elf_Phdr =
  p_type :: u32
  p_offset :: u32
  p_vaddr :: u32
  p_paddr :: u32
  p_filesz :: u32
  p_memsz :: u32
  p_flags :: u32
  p_align :: u32

record Elf_Dyn =
  d_tag :: u32
  d_un :: u32

record Elf_Rela =
  r_offset :: u32
  r_info :: u32
  r_addend :: u32

record el_ctx =
  el_data :: ptr
  base_load_paddr :: u32
  base_load_vaddr :: u32
  el_memsz :: u32
  el_align :: u32
  ehdr :: Elf_Ehdr
  dynoff :: u32
  dynsize :: u32

definition ram_get16 :: "ptr \<Rightarrow> ram_t \<Rightarrow> u16" where
  "ram_get16 p r = ucast (r p) OR push_bit 8 (ucast (r (p + 1)))"

definition get_ehdr :: "ptr \<Rightarrow> ram_t \<Rightarrow> Elf_Ehdr" where
  "get_ehdr p r = \<lparr>e_ident = map (\<lambda>i. r (p + of_nat i)) [0..<16], e_type = ram_get16 (p + 16) r, e_machine = ram_get16 (p + 18) r,
     e_version = ram_get32 (p + 20) r, e_entry = ram_get32 (p + 24) r, e_phoff = ram_get32 (p + 28) r,
     e_phentsize = ram_get16 (p + 42) r, e_phnum = ram_get16 (p + 44) r\<rparr>"

definition get_phdr :: "ptr \<Rightarrow> ram_t \<Rightarrow> Elf_Phdr" where
  "get_phdr p r = \<lparr>p_type = ram_get32 p r, p_offset = ram_get32 (p + 4) r, p_vaddr = ram_get32 (p + 8) r, p_paddr = ram_get32 (p + 12) r,
     p_filesz = ram_get32 (p + 16) r, p_memsz = ram_get32 (p + 20) r, p_flags = ram_get32 (p + 24) r, p_align = ram_get32 (p + 28) r\<rparr>"

definition get_dyn :: "ptr \<Rightarrow> ram_t \<Rightarrow> Elf_Dyn" where
  "get_dyn p r = \<lparr>d_tag = ram_get32 p r, d_un = ram_get32 (p + 4) r\<rparr>"

definition PT_LOAD :: u32 where "PT_LOAD = 1"
definition PT_DYNAMIC :: u32 where "PT_DYNAMIC = 2"
definition ET_EXEC :: u16 where "ET_EXEC = 2"
definition ET_DYN :: u16 where "ET_DYN = 3"
definition EM_ARM :: u16 where "EM_ARM = 40"
definition DT_NULL :: u32 where "DT_NULL = 0"
definition DT_RELA :: u32 where "DT_RELA = 7"
definition DT_REL :: u32 where "DT_REL = 17"

definition IS_ELF :: "Elf_Ehdr \<Rightarrow> bool" where
  "IS_ELF h \<longleftrightarrow> take 4 (e_ident h) = [0x7F, 0x45, 0x4C, 0x46]"

definition EL_PHOFF :: "el_ctx \<Rightarrow> u32 \<Rightarrow> u32" where
  "EL_PHOFF ctx num = e_phoff (ehdr ctx) + num * ucast (e_phentsize (ehdr ctx))"

subsection \<open>Program headers\<close>

text \<open>The last header read and its number, \<open>-1\<close> when there is none of the type.\<close>

primrec el_findphdr_loop :: "nat \<Rightarrow> el_ctx \<Rightarrow> Elf_Phdr \<Rightarrow> u32 \<Rightarrow> u32 \<Rightarrow> ram_t \<Rightarrow> Elf_Phdr \<times> u32" where
  "el_findphdr_loop 0 ctx phdr type i r = (phdr, - 1)"
| "el_findphdr_loop (Suc n) ctx phdr type i r =
     (let ph = get_phdr (el_data ctx + EL_PHOFF ctx i) r
      in if p_type ph = type then (ph, i) else el_findphdr_loop n ctx ph type (i + 1) r)"

definition el_findphdr :: "el_ctx \<Rightarrow> Elf_Phdr \<Rightarrow> u32 \<Rightarrow> u32 \<Rightarrow> ram_t \<Rightarrow> Elf_Phdr \<times> u32" where
  "el_findphdr ctx phdr type i r = el_findphdr_loop (unat (e_phnum (ehdr ctx)) - unat i) ctx phdr type i r"

lemma el_findphdr_loop_range:
  "el_findphdr_loop n ctx phdr type i r = (ph, j) \<Longrightarrow> unat i + n < 2 ^ 32 \<Longrightarrow> j \<noteq> - 1 \<Longrightarrow> unat i \<le> unat j \<and> unat j < unat i + n"
proof (induction n arbitrary: phdr i)
  case (Suc n)
  let ?ph = "get_phdr (el_data ctx + EL_PHOFF ctx i) r"
  show ?case
  proof (cases "p_type ?ph = type")
    case True
    then show ?thesis using Suc.prems by (simp add: Let_def)
  next
    case False
    have i: "unat (i + 1) = Suc (unat i)" using Suc.prems(2) by (simp add: unat_word_ariths)
    then show ?thesis using Suc.IH [of ?ph "i + 1"] Suc.prems False by (simp add: Let_def)
  qed
qed simp

lemma phnum_small: "unat (n :: u16) < 2 ^ 16"
  using unsigned_less [of n, where 'a = nat] by simp

lemma el_findphdr_range:
  assumes "el_findphdr ctx phdr type i r = (ph, j)" "j \<noteq> - 1"
  shows "unat i \<le> unat j \<and> unat j < unat (e_phnum (ehdr ctx))"
proof (cases "unat i < unat (e_phnum (ehdr ctx))")
  case True
  then show ?thesis
    using assms phnum_small [of "e_phnum (ehdr ctx)"] el_findphdr_loop_range [of "unat (e_phnum (ehdr ctx)) - unat i" ctx phdr type i r ph j]
    by (simp add: el_findphdr_def)
next
  case False
  then show ?thesis using assms by (simp add: el_findphdr_def)
qed

lemma el_findphdr_next:
  assumes "(ph, j) = el_findphdr ctx phdr type i r" "j \<noteq> - 1"
  shows "unat (e_phnum (ehdr ctx)) - unat (j + 1) < unat (e_phnum (ehdr ctx)) - unat i"
proof -
  have j: "unat i \<le> unat j" "unat j < unat (e_phnum (ehdr ctx))" using el_findphdr_range [OF assms(1) [symmetric] assms(2)] by simp_all
  then have "unat (j + 1) = Suc (unat j)" using phnum_small [of "e_phnum (ehdr ctx)"] by (simp add: unat_word_ariths)
  then show ?thesis using j by simp
qed

text \<open>The first loop of \<open>el_init\<close>: the size in memory and the alignment.\<close>

function el_extents :: "el_ctx \<Rightarrow> Elf_Phdr \<Rightarrow> u32 \<Rightarrow> ram_t \<Rightarrow> el_ctx" where
  "el_extents ctx phdr i r =
     (let (ph, j) = el_findphdr ctx phdr PT_LOAD i r
      in if j = - 1 then ctx
         else let phend = p_vaddr ph + p_memsz ph;
                  ctx = (if phend > el_memsz ctx then ctx\<lparr>el_memsz := phend\<rparr> else ctx);
                  ctx = (if p_align ph > el_align ctx then ctx\<lparr>el_align := p_align ph\<rparr> else ctx)
              in el_extents ctx ph (j + 1) r)"
  by pat_completeness auto

termination
  by (relation "measure (\<lambda>(ctx, _, i, _). unat (e_phnum (ehdr ctx)) - unat i)") (auto dest: el_findphdr_next)

declare el_extents.simps [simp del]

definition no_phdr :: Elf_Phdr where
  "no_phdr = \<lparr>p_type = 0, p_offset = 0, p_vaddr = 0, p_paddr = 0, p_filesz = 0, p_memsz = 0, p_flags = 0, p_align = 0\<rparr>"

definition el_init :: "el_ctx \<Rightarrow> ram_t \<Rightarrow> el_status \<times> el_ctx" where
  "el_init ctx r =
     (let h = get_ehdr (el_data ctx) r; ctx = ctx\<lparr>ehdr := h\<rparr>
      in if \<not> IS_ELF h then (EL_NOTELF, ctx)
         else if e_ident h ! 4 \<noteq> 1 then (EL_WRONGBITS, ctx)
         else if e_ident h ! 5 \<noteq> 1 then (EL_WRONGENDIAN, ctx)
         else if e_ident h ! 6 \<noteq> 1 then (EL_NOTELF, ctx)
         else if e_type h \<noteq> ET_EXEC \<and> e_type h \<noteq> ET_DYN then (EL_NOTEXEC, ctx)
         else if e_machine h \<noteq> EM_ARM then (EL_WRONGARCH, ctx)
         else if e_version h \<noteq> 1 then (EL_NOTELF, ctx)
         else
           let ctx = el_extents (ctx\<lparr>base_load_paddr := 0, base_load_vaddr := 0, el_align := 1, el_memsz := 0\<rparr>) no_phdr 0 r
           in if e_type h = ET_DYN
              then let (ph, j) = el_findphdr ctx no_phdr PT_DYNAMIC 0 r
                   in if j = - 1 then (EL_NODYN, ctx) else (EL_OK, ctx\<lparr>dynoff := p_offset ph, dynsize := p_filesz ph\<rparr>)
              else (EL_OK, ctx\<lparr>dynoff := 0, dynsize := 0\<rparr>))"

subsection \<open>Loading\<close>

text \<open>The allocation call back of the kernel's loader returns the virtual address it is given.\<close>

definition alloccb :: "u32 \<Rightarrow> u32 \<Rightarrow> u32 \<Rightarrow> ptr" where
  "alloccb phys virt sz = virt"

function el_load_loop :: "el_ctx \<Rightarrow> Elf_Phdr \<Rightarrow> u32 \<Rightarrow> ram_t \<Rightarrow> el_status \<times> ram_t" where
  "el_load_loop ctx phdr i r =
     (let (ph, j) = el_findphdr ctx phdr PT_LOAD i r
      in if j = - 1 then (EL_OK, r)
         else let dest = alloccb (p_paddr ph + base_load_paddr ctx) (p_vaddr ph + base_load_vaddr ctx) (p_memsz ph)
              in if dest = NULL then (EL_ENOMEM, r)
                 else let r = ram_copy (unat (p_filesz ph)) dest (el_data ctx + p_offset ph) r;
                          r = ram_clear (dest + p_filesz ph) (p_memsz ph - p_filesz ph) r
                      in el_load_loop ctx ph (j + 1) r)"
  by pat_completeness auto

termination
  by (relation "measure (\<lambda>(ctx, _, i, _). unat (e_phnum (ehdr ctx)) - unat i)") (auto dest: el_findphdr_next)

declare el_load_loop.simps [simp del]

definition el_load :: "el_ctx \<Rightarrow> ram_t \<Rightarrow> el_status \<times> ram_t" where
  "el_load ctx r = el_load_loop ctx no_phdr 0 r"

subsection \<open>Relocation\<close>

primrec el_finddyn_loop :: "nat \<Rightarrow> el_ctx \<Rightarrow> u32 \<Rightarrow> Elf_Dyn \<Rightarrow> u32 \<Rightarrow> ram_t \<Rightarrow> Elf_Dyn" where
  "el_finddyn_loop 0 ctx i dyn tag r = dyn\<lparr>d_tag := DT_NULL\<rparr>"
| "el_finddyn_loop (Suc n) ctx i dyn tag r =
     (let dyn = get_dyn (el_data ctx + dynoff ctx + i * 8) r
      in if d_tag dyn = tag then dyn else el_finddyn_loop n ctx (i + 1) dyn tag r)"

definition el_finddyn :: "el_ctx \<Rightarrow> u32 \<Rightarrow> ram_t \<Rightarrow> Elf_Dyn" where
  "el_finddyn ctx tag r = el_finddyn_loop (unat (dynsize ctx div 8)) ctx 0 \<lparr>d_tag = 0, d_un = 0\<rparr> tag r"

text \<open>The offset, the size of the table and the size of an entry.\<close>

definition el_findrelocs :: "el_ctx \<Rightarrow> u32 \<Rightarrow> ram_t \<Rightarrow> u32 \<times> u32 \<times> u32" where
  "el_findrelocs ctx type r =
     (let rel = el_finddyn ctx type r; relsz = el_finddyn ctx (type + 1) r; relent = el_finddyn ctx (type + 2) r
      in if d_tag rel = DT_NULL \<or> d_tag relsz = DT_NULL \<or> d_tag relent = DT_NULL then (0, 0, 0)
         else (d_un rel, d_un relsz, d_un relent))"

text \<open>The type of a relocation is a byte on 32-bit machines, the number of the relative relocation is the one of 64-bit ARM.\<close>

definition ELF_R_SYM :: "u32 \<Rightarrow> u32" where "ELF_R_SYM i = drop_bit 8 i"
definition ELF_R_TYPE :: "u32 \<Rightarrow> u32" where "ELF_R_TYPE i = ucast (ucast i :: u8)"
definition R_AARCH64_NONE :: u32 where "R_AARCH64_NONE = 0"
definition R_AARCH64_RELATIVE :: u32 where "R_AARCH64_RELATIVE = 1027"

definition el_applyrela :: "el_ctx \<Rightarrow> Elf_Rela \<Rightarrow> ram_t \<Rightarrow> el_status \<times> ram_t" where
  "el_applyrela ctx rel r =
     (let p = r_offset rel + base_load_paddr ctx; type = ELF_R_TYPE (r_info rel); sym = ELF_R_SYM (r_info rel)
      in if type = R_AARCH64_NONE then (EL_OK, r)
         else if type = R_AARCH64_RELATIVE
         then if sym \<noteq> 0 then (EL_BADREL, r) else (EL_OK, ram_put32 p (r_addend rel + base_load_vaddr ctx) r)
         else (EL_BADREL, r))"

definition el_applyrel :: "el_ctx \<Rightarrow> Elf_Rela \<Rightarrow> ram_t \<Rightarrow> el_status \<times> ram_t" where
  "el_applyrel ctx rel r =
     (let p = r_offset rel + base_load_paddr ctx; type = ELF_R_TYPE (r_info rel); sym = ELF_R_SYM (r_info rel)
      in if type = R_AARCH64_NONE then (EL_OK, r)
         else if type = R_AARCH64_RELATIVE
         then if sym \<noteq> 0 then (EL_BADREL, r) else (EL_OK, ram_put32 p (ram_get32 p r + base_load_vaddr ctx) r)
         else (EL_BADREL, r))"

text \<open>The entries of the tables, read from the memory; an entry without addend has 8 bytes.\<close>

definition get_rel :: "ptr \<Rightarrow> ram_t \<Rightarrow> Elf_Rela" where
  "get_rel p r = \<lparr>r_offset = ram_get32 p r, r_info = ram_get32 (p + 4) r, r_addend = 0\<rparr>"

definition get_rela :: "ptr \<Rightarrow> ram_t \<Rightarrow> Elf_Rela" where
  "get_rela p r = \<lparr>r_offset = ram_get32 p r, r_info = ram_get32 (p + 4) r, r_addend = ram_get32 (p + 8) r\<rparr>"

primrec el_rel_loop :: "(el_ctx \<Rightarrow> Elf_Rela \<Rightarrow> ram_t \<Rightarrow> el_status \<times> ram_t) \<Rightarrow> (ptr \<Rightarrow> ram_t \<Rightarrow> Elf_Rela) \<Rightarrow> u32 \<Rightarrow>
    nat \<Rightarrow> el_ctx \<Rightarrow> ptr \<Rightarrow> ram_t \<Rightarrow> el_status \<times> ram_t" where
  "el_rel_loop app get sz 0 ctx p r = (EL_OK, r)"
| "el_rel_loop app get sz (Suc n) ctx p r =
     (let (rv, r) = app ctx (get p r) r
      in if rv \<noteq> EL_OK then (rv, r) else el_rel_loop app get sz n ctx (p + sz) r)"

definition el_relocate :: "el_ctx \<Rightarrow> ram_t \<Rightarrow> el_status \<times> ram_t" where
  "el_relocate ctx r =
     (if e_type (ehdr ctx) \<noteq> ET_DYN then (EL_OK, r)
      else let (off, tsz, esz) = el_findrelocs ctx DT_REL r
      in if esz \<noteq> 8 \<and> tsz \<noteq> 0 then (EL_BADREL, r)
      else let (rv, r) = el_rel_loop el_applyrel get_rel 8 (unat (tsz div 8)) ctx (base_load_paddr ctx + off) r
      in if rv \<noteq> EL_OK then (rv, r)
      else let (off, tsz, esz) = el_findrelocs ctx DT_RELA r
      in if esz \<noteq> 12 \<and> tsz \<noteq> 0 then (EL_BADREL, r)
      else el_rel_loop el_applyrela get_rela 12 (unat (tsz div 12)) ctx (base_load_paddr ctx + off) r)"

end
