(* ===== verification/Elf_Props.thy ===== *)
theory Elf_Props
  imports Elf Pipe_Props
begin

section \<open>Loading of ELF files\<close>

text \<open>
  The segments of a file as a list, the extents as the largest end and alignment of that list, and what the loader leaves in memory:
  every segment in its place and nothing outside of the buffer, as long as no end of a segment exceeds the address space.
\<close>

subsection \<open>Segments\<close>

definition seg_at :: "el_ctx \<Rightarrow> ram_t \<Rightarrow> nat \<Rightarrow> Elf_Phdr" where
  "seg_at ctx r k = get_phdr (el_data ctx + EL_PHOFF ctx (of_nat k)) r"

definition segs_from :: "el_ctx \<Rightarrow> ram_t \<Rightarrow> nat \<Rightarrow> Elf_Phdr list" where
  "segs_from ctx r i = filter (\<lambda>ph. p_type ph = PT_LOAD) (map (seg_at ctx r) [i..<unat (e_phnum (ehdr ctx))])"

definition load_segs :: "el_ctx \<Rightarrow> ram_t \<Rightarrow> Elf_Phdr list" where
  "load_segs ctx r = segs_from ctx r 0"

lemma segs_from_step:
  "i < unat (e_phnum (ehdr ctx)) \<Longrightarrow>
     segs_from ctx r i = (if p_type (seg_at ctx r i) = PT_LOAD then [seg_at ctx r i] else []) @ segs_from ctx r (Suc i)"
  by (simp add: segs_from_def upt_conv_Cons)

lemma segs_from_end: "unat (e_phnum (ehdr ctx)) \<le> i \<Longrightarrow> segs_from ctx r i = []"
  by (simp add: segs_from_def)

lemma findphdr_loop_segs:
  assumes "unat i + n = unat (e_phnum (ehdr ctx))" "el_findphdr_loop n ctx phdr PT_LOAD i r = (ph, j)"
  shows "if j = - 1 then segs_from ctx r (unat i) = [] else segs_from ctx r (unat i) = ph # segs_from ctx r (unat (j + 1))"
  using assms
proof (induction n arbitrary: phdr i)
  case 0
  then show ?case by (simp add: segs_from_end)
next
  case (Suc n)
  have small: "unat i < 2 ^ 16" using Suc.prems(1) phnum_small [of "e_phnum (ehdr ctx)"] by linarith
  then have i: "unat (i + 1) = Suc (unat i)" "i \<noteq> - 1"
    by (auto simp: unat_word_ariths unsigned_minus_1_eq_mask mask_eq_exp_minus_1)
  have seg: "seg_at ctx r (unat i) = get_phdr (el_data ctx + EL_PHOFF ctx i) r" by (simp add: seg_at_def)
  have step: "segs_from ctx r (unat i) =
      (if p_type (seg_at ctx r (unat i)) = PT_LOAD then [seg_at ctx r (unat i)] else []) @ segs_from ctx r (Suc (unat i))"
    using Suc.prems(1) by (intro segs_from_step) simp
  show ?case
  proof (cases "p_type (seg_at ctx r (unat i)) = PT_LOAD")
    case True
    then have "ph = seg_at ctx r (unat i)" "j = i" using Suc.prems(2) unfolding seg by (auto simp: Let_def)
    then show ?thesis using True step i by simp
  next
    case False
    then have "el_findphdr_loop n ctx (seg_at ctx r (unat i)) PT_LOAD (i + 1) r = (ph, j)"
      using Suc.prems(2) by (simp add: seg Let_def)
    from Suc.IH [OF _ this] show ?thesis using Suc.prems(1) step i False by (simp split: if_splits)
  qed
qed

lemma findphdr_segs:
  assumes "el_findphdr ctx phdr PT_LOAD i r = (ph, j)"
  shows "if j = - 1 then segs_from ctx r (unat i) = [] else segs_from ctx r (unat i) = ph # segs_from ctx r (unat (j + 1))"
proof (cases "unat i \<le> unat (e_phnum (ehdr ctx))")
  case True
  then show ?thesis using assms by (intro findphdr_loop_segs [where phdr = phdr]) (simp_all add: el_findphdr_def)
next
  case False
  then show ?thesis using assms by (simp add: el_findphdr_def segs_from_end)
qed

lemma segs_from_fields [simp]:
  "segs_from (ctx\<lparr>el_memsz := m\<rparr>) r i = segs_from ctx r i" "segs_from (ctx\<lparr>el_align := m\<rparr>) r i = segs_from ctx r i"
  "segs_from (ctx\<lparr>base_load_paddr := m\<rparr>) r i = segs_from ctx r i" "segs_from (ctx\<lparr>base_load_vaddr := m\<rparr>) r i = segs_from ctx r i"
  "segs_from (ctx\<lparr>dynoff := m\<rparr>) r i = segs_from ctx r i" "segs_from (ctx\<lparr>dynsize := m\<rparr>) r i = segs_from ctx r i"
  by (simp_all add: segs_from_def seg_at_def [abs_def] EL_PHOFF_def)

subsection \<open>Extents\<close>

definition highest :: "u32 \<Rightarrow> u32 list \<Rightarrow> u32" where
  "highest m xs = foldl max m xs"

lemma highest_simps [simp]: "highest m [] = m" "highest m (x # xs) = highest (max m x) xs"
  by (simp_all add: highest_def)

lemma highest_ge: "m \<le> highest m xs \<and> (\<forall>x \<in> set xs. x \<le> highest m xs)"
proof (induction xs arbitrary: m)
  case (Cons x xs)
  have "max m x \<le> highest (max m x) xs" using Cons.IH by blast
  then show ?case using Cons.IH [of "max m x"] by simp
qed simp

lemma raise_extents:
  "(if v > el_memsz c then c\<lparr>el_memsz := v\<rparr> else c) = c\<lparr>el_memsz := max (el_memsz c) v\<rparr>"
  "(if v > el_align c then c\<lparr>el_align := v\<rparr> else c) = c\<lparr>el_align := max (el_align c) v\<rparr>"
  by (auto simp: max_def)

lemma el_extents_highest:
  "el_extents ctx phdr i r =
     ctx\<lparr>el_memsz := highest (el_memsz ctx) (map (\<lambda>ph. p_vaddr ph + p_memsz ph) (segs_from ctx r (unat i))),
         el_align := highest (el_align ctx) (map p_align (segs_from ctx r (unat i)))\<rparr>"
proof (induction ctx phdr i r rule: el_extents.induct)
  case (1 ctx phdr i r)
  obtain ph j where f: "el_findphdr ctx phdr PT_LOAD i r = (ph, j)" by fastforce
  show ?case
  proof (cases "j = - 1")
    case True
    then show ?thesis using f findphdr_segs [OF f] by (simp add: el_extents.simps [of ctx])
  next
    case False
    let ?c = "ctx\<lparr>el_memsz := max (el_memsz ctx) (p_vaddr ph + p_memsz ph), el_align := max (el_align ctx) (p_align ph)\<rparr>"
    have run: "el_extents ctx phdr i r = el_extents ?c ph (j + 1) r"
      by (subst el_extents.simps, simp only: f prod.case False if_False Let_def raise_extents) simp
    have "el_extents ?c ph (j + 1) r = ?c\<lparr>el_memsz := highest (el_memsz ?c) (map (\<lambda>ph. p_vaddr ph + p_memsz ph) (segs_from ?c r (unat (j + 1)))),
         el_align := highest (el_align ?c) (map p_align (segs_from ?c r (unat (j + 1))))\<rparr>"
      using 1 [OF f [symmetric] HOL.refl False HOL.refl HOL.refl HOL.refl] unfolding raise_extents by simp
    then show ?thesis using findphdr_segs [OF f] False by (simp add: run)
  qed
qed

subsection \<open>Memory\<close>

definition load_buffer :: "el_ctx \<Rightarrow> ptr set" where
  "load_buffer ctx = region (base_load_vaddr ctx) (unat (el_memsz ctx))"

definition seg_place :: "el_ctx \<Rightarrow> Elf_Phdr \<Rightarrow> ptr set" where
  "seg_place ctx ph = region (base_load_vaddr ctx + p_vaddr ph) (unat (p_memsz ph))"

text \<open>What a segment shall be in memory: its bytes of the file, and zeroes.\<close>

definition seg_bytes :: "el_ctx \<Rightarrow> ram_t \<Rightarrow> Elf_Phdr \<Rightarrow> u8 list" where
  "seg_bytes ctx r ph =
     ram_bytes (el_data ctx + p_offset ph) (unat (p_filesz ph)) r @ replicate (unat (p_memsz ph) - unat (p_filesz ph)) 0"

text \<open>A segment that does not exceed the buffer, and whose bytes in the file are not part of it.\<close>

definition seg_fits :: "el_ctx \<Rightarrow> Elf_Phdr \<Rightarrow> bool" where
  "seg_fits ctx ph \<longleftrightarrow> p_filesz ph \<le> p_memsz ph \<and> unat (p_vaddr ph) + unat (p_memsz ph) \<le> unat (el_memsz ctx) \<and>
     region (el_data ctx + p_offset ph) (unat (p_filesz ph)) \<inter> load_buffer ctx = {}"

definition headers_apart :: "el_ctx \<Rightarrow> bool" where
  "headers_apart ctx \<longleftrightarrow>
     (\<forall>k < unat (e_phnum (ehdr ctx)). region (el_data ctx + EL_PHOFF ctx (of_nat k)) 32 \<inter> load_buffer ctx = {})"

definition put_seg :: "el_ctx \<Rightarrow> Elf_Phdr \<Rightarrow> ram_t \<Rightarrow> ram_t" where
  "put_seg ctx ph r =
     ram_clear (p_vaddr ph + base_load_vaddr ctx + p_filesz ph) (p_memsz ph - p_filesz ph)
       (ram_copy (unat (p_filesz ph)) (p_vaddr ph + base_load_vaddr ctx) (el_data ctx + p_offset ph) r)"

lemma u32_bound: "unat (x :: u32) < 2 ^ 32"
  using unsigned_less [of x, where 'a = nat] by simp

lemma window_minus: "(f :: u32) \<le> m \<Longrightarrow> d - f < m - f \<longleftrightarrow> f \<le> d \<and> d < m"
  using u32_bound [of m] u32_bound [of f] by (auto simp: word_less_nat_alt word_le_nat_alt unat_sub_if')

lemma seg_place_offset:
  assumes "seg_fits ctx ph" "a \<in> seg_place ctx ph"
  shows "unat (a - base_load_vaddr ctx) = unat (p_vaddr ph) + unat (a - (base_load_vaddr ctx + p_vaddr ph))"
    "a \<in> load_buffer ctx"
proof -
  have le: "unat (p_vaddr ph) + unat (p_memsz ph) \<le> 2 ^ 32"
    using assms(1) u32_bound [of "el_memsz ctx"] by (simp add: seg_fits_def)
  have a: "a \<in> region (base_load_vaddr ctx + of_nat (unat (p_vaddr ph))) (unat (p_memsz ph))"
    using assms(2) by (simp add: seg_place_def)
  from region_inner [OF le a] show "unat (a - base_load_vaddr ctx) = unat (p_vaddr ph) + unat (a - (base_load_vaddr ctx + p_vaddr ph))"
    by simp
  show "a \<in> load_buffer ctx"
    using region_inner(2) [OF le a] assms(1) unfolding load_buffer_def seg_fits_def by (auto simp: region_def)
qed

lemma put_seg_effect:
  assumes fits: "seg_fits ctx ph"
  shows "put_seg ctx ph r a =
     (let d = a - (base_load_vaddr ctx + p_vaddr ph) in
      if a \<in> seg_place ctx ph then (if d < p_filesz ph then r (el_data ctx + p_offset ph + d) else 0) else r a)"
proof -
  let ?dest = "base_load_vaddr ctx + p_vaddr ph" and ?src = "el_data ctx + p_offset ph" and ?n = "unat (p_filesz ph)"
  have sub: "region ?dest ?n \<subseteq> seg_place ctx ph"
    using fits unfolding seg_place_def seg_fits_def by (intro region_mono) (simp add: word_le_nat_alt)
  have dis: "region ?dest ?n \<inter> region ?src ?n = {}"
    using sub seg_place_offset(2) [OF fits] fits unfolding seg_fits_def by fast
  have copy: "ram_copy ?n ?dest ?src r = (\<lambda>a. if a \<in> region ?dest ?n then r (?src + (a - ?dest)) else r a)"
    using u32_bound [of "p_filesz ph"] dis by (intro ram_copy_eq) simp_all
  have clear: "a - (?dest + p_filesz ph) < p_memsz ph - p_filesz ph \<longleftrightarrow> p_filesz ph \<le> a - ?dest \<and> a \<in> seg_place ctx ph"
    using window_minus [of "p_filesz ph" "p_memsz ph" "a - ?dest"] fits
    by (simp add: seg_fits_def seg_place_def region_def word_less_nat_alt diff_diff_eq)
  have "a \<in> region ?dest ?n \<longleftrightarrow> a - ?dest < p_filesz ph" by (simp add: region_def word_less_nat_alt)
  then show ?thesis using sub clear unfolding put_seg_def ram_clear_def
    by (auto simp: copy Let_def add.commute [of "p_vaddr ph"] not_less)
qed

lemma put_seg_outside: "seg_fits ctx ph \<Longrightarrow> a \<notin> load_buffer ctx \<Longrightarrow> put_seg ctx ph r a = r a"
  using seg_place_offset(2) [of ctx ph a] by (auto simp: put_seg_effect Let_def)

lemma put_seg_bytes:
  assumes "seg_fits ctx ph"
  shows "ram_bytes (base_load_vaddr ctx + p_vaddr ph) (unat (p_memsz ph)) (put_seg ctx ph r) = seg_bytes ctx r ph"
proof (rule nth_equalityI)
  have le: "unat (p_filesz ph) \<le> unat (p_memsz ph)" using assms by (simp add: seg_fits_def word_le_nat_alt)
  then show "length (ram_bytes (base_load_vaddr ctx + p_vaddr ph) (unat (p_memsz ph)) (put_seg ctx ph r)) = length (seg_bytes ctx r ph)"
    by (simp add: seg_bytes_def)
  fix k
  assume "k < length (ram_bytes (base_load_vaddr ctx + p_vaddr ph) (unat (p_memsz ph)) (put_seg ctx ph r))"
  then have k: "k < unat (p_memsz ph)" by simp
  have u: "unat (of_nat k :: u32) = k" using k u32_bound [of "p_memsz ph"] by (intro unat_of_nat_u32) linarith
  have "base_load_vaddr ctx + p_vaddr ph + of_nat k \<in> seg_place ctx ph" using k u by (simp add: seg_place_def region_def)
  then show "ram_bytes (base_load_vaddr ctx + p_vaddr ph) (unat (p_memsz ph)) (put_seg ctx ph r) ! k = seg_bytes ctx r ph ! k"
    using k u le by (simp add: ram_bytes_def seg_bytes_def put_seg_effect [OF assms] nth_append word_less_nat_alt)
qed

subsection \<open>All segments\<close>

definition before :: "Elf_Phdr \<Rightarrow> Elf_Phdr \<Rightarrow> bool" where
  "before p q \<longleftrightarrow> unat (p_vaddr p) + unat (p_memsz p) \<le> unat (p_vaddr q)"

lemma before_disjoint:
  assumes "seg_fits ctx p" "seg_fits ctx q" "before p q" "a \<in> seg_place ctx p"
  shows "a \<notin> seg_place ctx q"
proof
  assume q: "a \<in> seg_place ctx q"
  have "unat (a - (base_load_vaddr ctx + p_vaddr p)) < unat (p_memsz p)" using assms(4) by (simp add: seg_place_def region_def)
  then show False using seg_place_offset(1) [OF assms(1,4)] seg_place_offset(1) [OF assms(2) q] assms(3) by (simp add: before_def)
qed

lemma seg_bytes_cong:
  assumes "seg_fits ctx ph" "\<And>a. a \<notin> load_buffer ctx \<Longrightarrow> r' a = r a"
  shows "seg_bytes ctx r' ph = seg_bytes ctx r ph"
proof -
  have "ram_bytes (el_data ctx + p_offset ph) (unat (p_filesz ph)) r' = ram_bytes (el_data ctx + p_offset ph) (unat (p_filesz ph)) r"
    using assms u32_bound [of "p_filesz ph"] by (intro ram_bytes_cong) (auto simp: seg_fits_def)
  then show ?thesis by (simp add: seg_bytes_def)
qed

lemma put_segs_outside: "\<forall>ph \<in> set ps. seg_fits ctx ph \<Longrightarrow> a \<notin> load_buffer ctx \<Longrightarrow> fold (put_seg ctx) ps r a = r a"
  by (induction ps arbitrary: r) (simp_all add: put_seg_outside)

lemma put_segs_other:
  "\<forall>ph \<in> set ps. seg_fits ctx ph \<Longrightarrow> \<forall>ph \<in> set ps. a \<notin> seg_place ctx ph \<Longrightarrow> fold (put_seg ctx) ps r a = r a"
  by (induction ps arbitrary: r) (simp_all add: put_seg_effect Let_def)

lemma put_segs_bytes:
  assumes "\<forall>ph \<in> set ps. seg_fits ctx ph" "sorted_wrt before ps" "ph \<in> set ps"
  shows "ram_bytes (base_load_vaddr ctx + p_vaddr ph) (unat (p_memsz ph)) (fold (put_seg ctx) ps r) = seg_bytes ctx r ph"
  using assms
proof (induction ps arbitrary: r)
  case (Cons p ps)
  have fits: "seg_fits ctx p" "\<forall>ph \<in> set ps. seg_fits ctx ph" using Cons.prems by simp_all
  show ?case
  proof (cases "ph \<in> set ps")
    case True
    then have "seg_bytes ctx (put_seg ctx p r) ph = seg_bytes ctx r ph"
      using fits by (intro seg_bytes_cong) (simp_all add: put_seg_outside)
    then show ?thesis using Cons.IH [OF fits(2) _ True] Cons.prems by simp
  next
    case False
    then have ph: "ph = p" using Cons.prems by simp
    have "fold (put_seg ctx) ps (put_seg ctx p r) a = put_seg ctx p r a" if "a \<in> seg_place ctx p" for a
    proof (rule put_segs_other [OF fits(2)])
      show "\<forall>q \<in> set ps. a \<notin> seg_place ctx q"
        using Cons.prems(2) fits before_disjoint [OF fits(1) _ _ that] by simp
    qed
    then have "ram_bytes (base_load_vaddr ctx + p_vaddr p) (unat (p_memsz p)) (fold (put_seg ctx) ps (put_seg ctx p r)) =
        ram_bytes (base_load_vaddr ctx + p_vaddr p) (unat (p_memsz p)) (put_seg ctx p r)"
      using u32_bound [of "p_memsz p"] by (intro ram_bytes_cong) (simp_all add: seg_place_def)
    then show ?thesis using put_seg_bytes [OF fits(1)] ph by simp
  qed
qed simp

lemma get_phdr_cong:
  assumes "\<And>a. a \<in> region p 32 \<Longrightarrow> r' a = r a"
  shows "get_phdr p r' = get_phdr p r"
proof -
  have "ram_get32 (p + of_nat k) r' = ram_get32 (p + of_nat k) r" if "k \<le> 28" for k
  proof (intro ram_get32_cong assms)
    fix a
    assume "a \<in> region (p + of_nat k) 4"
    then have "a \<in> region p (k + 4)" using that by (intro region_inner(2)) simp_all
    then show "a \<in> region p 32" using that by (simp add: region_def)
  qed
  from this [of 0] this [of 4] this [of 8] this [of 12] this [of 16] this [of 20] this [of 24] this [of 28]
  show ?thesis by (simp add: get_phdr_def)
qed

lemma segs_from_cong:
  assumes "headers_apart ctx" "\<And>a. a \<notin> load_buffer ctx \<Longrightarrow> r' a = r a"
  shows "segs_from ctx r' i = segs_from ctx r i"
proof -
  have "seg_at ctx r' k = seg_at ctx r k" if "k < unat (e_phnum (ehdr ctx))" for k
    using assms that unfolding seg_at_def headers_apart_def by (intro get_phdr_cong) blast
  then have "map (seg_at ctx r') [i..<unat (e_phnum (ehdr ctx))] = map (seg_at ctx r) [i..<unat (e_phnum (ehdr ctx))]" by simp
  then show ?thesis unfolding segs_from_def by (rule arg_cong)
qed

lemma el_load_loop_segs:
  assumes "headers_apart ctx" "\<forall>ph \<in> set (segs_from ctx r (unat i)). seg_fits ctx ph"
    "base_load_vaddr ctx \<noteq> 0" "unat (base_load_vaddr ctx) + unat (el_memsz ctx) < 2 ^ 32"
  shows "el_load_loop ctx phdr i r = (EL_OK, fold (put_seg ctx) (segs_from ctx r (unat i)) r)"
  using assms
proof (induction ctx phdr i r rule: el_load_loop.induct)
  case (1 ctx phdr i r)
  obtain ph j where f: "el_findphdr ctx phdr PT_LOAD i r = (ph, j)" by fastforce
  show ?case
  proof (cases "j = - 1")
    case True
    then show ?thesis using f findphdr_segs [OF f] by (simp add: el_load_loop.simps [of ctx])
  next
    case False
    then have segs: "segs_from ctx r (unat i) = ph # segs_from ctx r (unat (j + 1))" using findphdr_segs [OF f] by simp
    then have fits: "seg_fits ctx ph" using 1 by simp
    let ?r = "put_seg ctx ph r"
    note put = put_seg_def [of ctx ph r, symmetric]
    have same: "segs_from ctx ?r (unat (j + 1)) = segs_from ctx r (unat (j + 1))"
      using 1 fits by (intro segs_from_cong) (simp_all add: put_seg_outside)
    have "unat (p_vaddr ph + base_load_vaddr ctx) = unat (p_vaddr ph) + unat (base_load_vaddr ctx)"
      using 1 fits by (intro unat_add_lem [THEN iffD1]) (simp add: seg_fits_def)
    then have dest: "alloccb (p_paddr ph + base_load_paddr ctx) (p_vaddr ph + base_load_vaddr ctx) (p_memsz ph) \<noteq> NULL"
      using 1 by (auto simp: alloccb_def unat_eq_0)
    have "el_load_loop ctx ph (j + 1) ?r = (EL_OK, fold (put_seg ctx) (segs_from ctx ?r (unat (j + 1))) ?r)"
      using 1(1) [OF f [symmetric] HOL.refl False HOL.refl dest HOL.refl HOL.refl] 1(2-) segs same unfolding alloccb_def put by simp
    then show ?thesis using f False dest segs same unfolding alloccb_def
      by (simp add: el_load_loop.simps [of ctx phdr] put alloccb_def Let_def)
  qed
qed

lemma el_init_extents:
  assumes "el_init ctx0 r = (EL_OK, ctx)"
  shows "el_memsz ctx = highest 0 (map (\<lambda>ph. p_vaddr ph + p_memsz ph) (load_segs ctx r))"
    "el_align ctx = highest 1 (map p_align (load_segs ctx r))"
  using assms unfolding el_init_def load_segs_def
  by (auto simp: Let_def el_extents_highest split: if_splits prod.splits)

lemma load_segs_base [simp]:
  "load_segs (ctx\<lparr>base_load_paddr := b, base_load_vaddr := b'\<rparr>) r = load_segs ctx r"
  by (simp add: load_segs_def)

lemma seg_end_memsz:
  assumes "el_init ctx0 r = (EL_OK, ctx)" "ph \<in> set (load_segs ctx r)" "unat (p_vaddr ph) + unat (p_memsz ph) < 2 ^ 32"
  shows "unat (p_vaddr ph) + unat (p_memsz ph) \<le> unat (el_memsz ctx)"
proof -
  have "p_vaddr ph + p_memsz ph \<le> el_memsz ctx" using assms(2) highest_ge unfolding el_init_extents(1) [OF assms(1)] by auto
  moreover have "unat (p_vaddr ph + p_memsz ph) = unat (p_vaddr ph) + unat (p_memsz ph)"
    using assms(3) by (intro unat_add_lem [THEN iffD1]) simp
  ultimately show ?thesis by (simp add: word_le_nat_alt)
qed

text \<open>The first byte of a segment, whatever the order of the addresses.\<close>

lemma ram_copy_outside: "n \<le> 2 ^ 32 \<Longrightarrow> a \<notin> region dst n \<Longrightarrow> ram_copy n dst src r a = r a"
proof (induction n arbitrary: dst src r)
  case (Suc n)
  then show ?case using region_shift [of n dst] by simp
qed simp

lemma put_seg_first:
  assumes "0 < p_filesz ph" "p_filesz ph \<le> p_memsz ph"
  shows "put_seg ctx ph r (p_vaddr ph + base_load_vaddr ctx) = r (el_data ctx + p_offset ph)"
proof -
  let ?dest = "p_vaddr ph + base_load_vaddr ctx"
  have "0 < unat (p_filesz ph)" using assms(1) by (simp add: word_less_nat_alt)
  then obtain n where n: "unat (p_filesz ph) = Suc n" using gr0_implies_Suc by blast
  then have le: "Suc n \<le> 2 ^ 32" using u32_bound [of "p_filesz ph"] by linarith
  have copy: "ram_copy (Suc n) ?dest (el_data ctx + p_offset ph) r ?dest = r (el_data ctx + p_offset ph)"
    using region_shift(2) [OF le, of ?dest] le by (simp add: ram_copy_outside)
  have "\<not> ?dest - (?dest + p_filesz ph) < p_memsz ph - p_filesz ph"
    using window_minus [OF assms(2), of 0] assms(1) by (auto simp: diff_diff_eq [symmetric])
  then show ?thesis using copy by (simp add: put_seg_def ram_clear_def n)
qed

lemma el_load_single:
  assumes "e_phnum (ehdr ctx) = 1" "p_type (seg_at ctx r 0) = PT_LOAD" "p_vaddr (seg_at ctx r 0) + base_load_vaddr ctx \<noteq> 0"
  shows "el_load ctx r = (EL_OK, put_seg ctx (seg_at ctx r 0) r)"
proof -
  have f: "el_findphdr ctx no_phdr PT_LOAD 0 r = (seg_at ctx r 0, 0)"
    using assms(1,2) by (simp add: el_findphdr_def seg_at_def Let_def)
  have g: "el_findphdr ctx ph PT_LOAD 1 r' = (ph, - 1)" for ph r' using assms(1) by (simp add: el_findphdr_def)
  have "el_load_loop ctx ph 1 r' = (EL_OK, r')" for ph r' by (simp add: el_load_loop.simps [of ctx] g)
  then show ?thesis
    using assms(3) unfolding el_load_def by (subst el_load_loop.simps) (simp add: f Let_def alloccb_def put_seg_def)
qed

subsection \<open>A file\<close>

definition le32 :: "u32 \<Rightarrow> u8 list" where
  "le32 v = [ucast v, ucast (drop_bit 8 v), ucast (drop_bit 16 v), ucast (drop_bit 24 v)]"

definition demo_elf :: "u32 \<Rightarrow> u32 \<Rightarrow> u32 \<Rightarrow> u8 list" where
  "demo_elf vaddr filesz memsz =
     [0x7F, 0x45, 0x4C, 0x46, 1, 1, 1, 0, 0, 0, 0, 0, 0, 0, 0, 0, 2, 0, 40, 0, 1, 0, 0, 0] @ le32 vaddr @ le32 52 @ le32 0 @ le32 0 @
     [52, 0, 32, 0, 1, 0, 0, 0, 0, 0, 0, 0] @
     le32 1 @ le32 84 @ le32 vaddr @ le32 vaddr @ le32 filesz @ le32 memsz @ le32 5 @ le32 4 @ [11, 22, 33]"

definition demo_file :: "u32 \<Rightarrow> u32 \<Rightarrow> u32 \<Rightarrow> ram_t" where
  "demo_file vaddr filesz memsz = (\<lambda>a. let k = unat (a - 0x8000); f = demo_elf vaddr filesz memsz in if k < length f then f ! k else 7)"

definition demo_ehdr :: "u32 \<Rightarrow> Elf_Ehdr" where
  "demo_ehdr v = \<lparr>e_ident = [0x7F, 0x45, 0x4C, 0x46, 1, 1, 1, 0, 0, 0, 0, 0, 0, 0, 0, 0], e_type = 2, e_machine = 40, e_version = 1,
     e_entry = v, e_phoff = 52, e_phentsize = 32, e_phnum = 1\<rparr>"

definition demo_ctx :: "u32 \<Rightarrow> u32 \<Rightarrow> u32 \<Rightarrow> el_ctx" where
  "demo_ctx v memsz b = \<lparr>el_data = 0x8000, base_load_paddr = b, base_load_vaddr = b, el_memsz = memsz, el_align = 4,
     ehdr = demo_ehdr v, dynoff = 0, dynsize = 0\<rparr>"

definition demo_phdr :: "u32 \<Rightarrow> u32 \<Rightarrow> u32 \<Rightarrow> Elf_Phdr" where
  "demo_phdr v f m = \<lparr>p_type = 1, p_offset = 84, p_vaddr = v, p_paddr = v, p_filesz = f, p_memsz = m, p_flags = 5, p_align = 4\<rparr>"

lemma demo_headers:
  "get_ehdr 0x8000 (demo_file v f m) = demo_ehdr v" "get_phdr 0x8034 (demo_file v f m) = demo_phdr v f m"
  by (simp_all add: get_ehdr_def get_phdr_def demo_file_def demo_elf_def le32_def ram_get32_def ram_get16_def bytes32 Let_def upt_conv_Cons
    demo_ehdr_def demo_phdr_def)

lemma demo_segs: "load_segs (demo_ctx v n b) (demo_file v f m) = [demo_phdr v f m]"
proof -
  have "seg_at (demo_ctx v n b) (demo_file v f m) 0 = demo_phdr v f m"
    by (simp add: seg_at_def demo_ctx_def EL_PHOFF_def demo_ehdr_def demo_headers)
  then show ?thesis by (simp add: load_segs_def segs_from_def demo_ctx_def demo_ehdr_def demo_phdr_def PT_LOAD_def)
qed

lemma demo_init:
  "v + m > 0 \<Longrightarrow> el_init (demo_ctx 0 0 0) (demo_file v f m) = (EL_OK, demo_ctx v (v + m) 0)"
  using demo_segs [of v 0 0 f m] segs_from_fields(2) [where ctx = "demo_ctx v 0 0" and r = "demo_file v f m" and i = 0]
  by (simp add: el_init_def demo_ctx_def demo_headers Let_def el_extents_highest load_segs_def)
     (simp add: demo_ehdr_def demo_phdr_def IS_ELF_def ET_EXEC_def ET_DYN_def EM_ARM_def max_def)

subsection \<open>Properties\<close>

text \<open>
  C15: A file that the reader accepts is loaded within the buffer.  Let every segment of a file end below the end of the address
  space, have no more bytes in the file than in memory and follow the one before, and let the buffer of the size that the reader has
  calculated neither contain a part of the file nor reach the end of the address space.  Then loading reports
  success, every segment is in its place with its bytes of the file and zeroes behind them, and no byte
  outside of the buffer is changed.
\<close>

theorem el_load_segments:
  assumes init: "el_init ctx0 r = (EL_OK, ctx1)"
    and ctx: "ctx = ctx1\<lparr>base_load_paddr := b, base_load_vaddr := b\<rparr>"
    and buffer: "b \<noteq> 0" "unat b + unat (el_memsz ctx1) < 2 ^ 32"
    and segs: "\<forall>ph \<in> set (load_segs ctx1 r). p_filesz ph \<le> p_memsz ph \<and> unat (p_vaddr ph) + unat (p_memsz ph) < 2 ^ 32 \<and>
        region (el_data ctx + p_offset ph) (unat (p_filesz ph)) \<inter> load_buffer ctx = {}"
    and order: "sorted_wrt before (load_segs ctx1 r)"
    and apart: "headers_apart ctx"
  shows "\<exists>r'. el_load ctx r = (EL_OK, r') \<and> (\<forall>a. a \<notin> load_buffer ctx \<longrightarrow> r' a = r a) \<and>
    (\<forall>ph \<in> set (load_segs ctx1 r). ram_bytes (b + p_vaddr ph) (unat (p_memsz ph)) r' = seg_bytes ctx r ph)"
proof -
  have same: "segs_from ctx r (unat 0) = load_segs ctx1 r" by (simp add: load_segs_def ctx)
  have fits: "\<forall>ph \<in> set (load_segs ctx1 r). seg_fits ctx ph"
    using segs seg_end_memsz [OF init] by (simp add: seg_fits_def ctx)
  have "el_load ctx r = (EL_OK, fold (put_seg ctx) (load_segs ctx1 r) r)"
    unfolding el_load_def using apart fits buffer same by (subst el_load_loop_segs) (simp_all add: ctx)
  then show ?thesis
    using put_segs_outside [OF fits] put_segs_bytes [OF fits order] by (simp add: ctx)
qed

theorem el_load_segments_witness:
  "\<exists>r'. el_load (demo_ctx 0x40 0x48 0x10000) (demo_file 0x40 3 8) = (EL_OK, r') \<and>
    (\<forall>a. a \<notin> load_buffer (demo_ctx 0x40 0x48 0x10000) \<longrightarrow> r' a = demo_file 0x40 3 8 a) \<and>
    ram_bytes 0x10040 8 r' = seg_bytes (demo_ctx 0x40 0x48 0x10000) (demo_file 0x40 3 8) (demo_phdr 0x40 3 8)"
proof -
  have "el_init (demo_ctx 0 0 0) (demo_file 0x40 3 8) = (EL_OK, demo_ctx 0x40 0x48 0)" by (simp add: demo_init)
  moreover have "region 0x8054 3 \<inter> region 0x10000 72 = {}" "region 0x8034 32 \<inter> region 0x10000 72 = {}"
    by (intro region_disjoint; simp)+
  ultimately show ?thesis
    using el_load_segments [of "demo_ctx 0 0 0" "demo_file 0x40 3 8" "demo_ctx 0x40 0x48 0" "demo_ctx 0x40 0x48 0x10000" "0x10000"]
    by (simp add: demo_segs)
       (simp add: demo_ctx_def demo_phdr_def load_buffer_def headers_apart_def demo_ehdr_def EL_PHOFF_def)
qed

text \<open>
  A segment whose end exceeds the address space is accepted and loaded outside of the buffer.  The
  reader calculates the end of a segment without regard for overflow, so that a file with one segment
  that ends beyond the address space is given a buffer smaller than the offset of the segment; the loader reports success,
  and the first byte of the segment has been written behind the buffer.
\<close>

lemma el_load_escapes:
  assumes init: "el_init ctx0 r = (EL_OK, ctx1)"
    and ctx: "ctx = ctx1\<lparr>base_load_paddr := b, base_load_vaddr := b\<rparr>"
    and one: "e_phnum (ehdr ctx1) = 1" "seg_at ctx1 r 0 = ph" "p_type ph = PT_LOAD"
    and size: "2 ^ 32 \<le> unat (p_vaddr ph) + unat (p_memsz ph)" "0 < p_filesz ph" "p_filesz ph \<le> p_memsz ph"
    and dest: "b + p_vaddr ph \<noteq> 0"
  shows "el_memsz ctx1 < p_vaddr ph \<and> b + p_vaddr ph \<notin> load_buffer ctx \<and>
    (\<exists>r'. el_load ctx r = (EL_OK, r') \<and> r' (b + p_vaddr ph) = r (el_data ctx + p_offset ph))"
proof -
  have segs: "load_segs ctx1 r = [ph]" using one by (simp add: load_segs_def segs_from_def)
  have "unat (p_vaddr ph + p_memsz ph) = unat (p_vaddr ph) + unat (p_memsz ph) - 2 ^ 32"
    using size(1) u32_bound [of "p_vaddr ph"] u32_bound [of "p_memsz ph"] by (simp add: unat_word_ariths mod_if)
  then have "p_vaddr ph + p_memsz ph < p_vaddr ph"
    using size(1) u32_bound [of "p_vaddr ph"] u32_bound [of "p_memsz ph"] by (simp add: word_less_nat_alt)
  then have small: "el_memsz ctx1 < p_vaddr ph" using el_init_extents(1) [OF init] by (simp add: segs)
  have at: "seg_at ctx r 0 = ph" using one by (simp add: seg_at_def EL_PHOFF_def ctx)
  then have "el_load ctx r = (EL_OK, put_seg ctx ph r)"
    using one dest el_load_single [of ctx r] by (simp add: ctx add.commute [of b])
  moreover have "put_seg ctx ph r (b + p_vaddr ph) = r (el_data ctx + p_offset ph)"
    using put_seg_first [OF size(2,3), of ctx r] by (simp add: ctx add.commute [of b])
  moreover have "b + p_vaddr ph \<notin> load_buffer ctx"
    using small by (simp add: load_buffer_def ctx region_def word_less_nat_alt)
  ultimately show ?thesis using small by blast
qed

end
