(* ===== verification/Obj_Shm.thy ===== *)
theory Obj_Shm
  imports Pipe Process_Mem
begin

section \<open>Shared memory (\<open>obj_shared_mem.c\<close>)\<close>

text \<open>
  A shared memory object owns a block of the user's memory, mapped into the process that created
  it, and a list of the objects by which other processes have mapped the same block.  The
  lists live in a heap of their own.  Results are written through pointers of the caller into the byte memory.
\<close>

subsection \<open>State\<close>

record object_shm_t =
  shm_pool :: ptr
  shm_reg :: ptr
  shm_process :: ptr
  real_addr :: u32
  virt_addr :: u32
  shm_size :: u32
  client_list :: ptr
  parent_shm :: ptr
  shm_name :: "u8 list"

record hkern = pkern +
  shm_objs :: "object_shm_t pheap"
  shm_lists :: lheap

text \<open>Writing a result of 16 or 32 bits through a pointer.\<close>

definition out16 :: "ptr \<Rightarrow> u16 \<Rightarrow> 'z pkern_scheme \<Rightarrow> 'z pkern_scheme option" where
  "out16 p v s = (if p = NULL then None else Some (s\<lparr>ram := (ram s)(p := ucast v, p + 1 := ucast (drop_bit 8 v))\<rparr>))"

definition out32 :: "ptr \<Rightarrow> u32 \<Rightarrow> 'z pkern_scheme \<Rightarrow> 'z pkern_scheme option" where
  "out32 p v s = (if p = NULL then None else Some (s\<lparr>ram := ram_put32 p v (ram s)\<rparr>))"

definition on_sl :: "(lheap \<Rightarrow> ('a \<times> lheap) option) \<Rightarrow> 'z hkern_scheme \<Rightarrow> ('a \<times> 'z hkern_scheme) option" where
  "on_sl f s = do { (r, h) \<leftarrow> f (shm_lists s); Some (r, s\<lparr>shm_lists := h\<rparr>) }"

text \<open>The names of the sections.\<close>

definition c_string :: "string \<Rightarrow> u8 list option" where
  "c_string x = Some (map (\<lambda>c. of_nat (of_char c)) x @ [0])"

subsection \<open>Creation and opening\<close>

definition obj_cast_shm :: "ptr \<Rightarrow> 'z hkern_scheme \<Rightarrow> ptr option" where
  "obj_cast_shm o' s = obj_cast SHARED_MEMORY_OBJ o' (oh s)"

definition obj_shm_get_oid :: "ptr \<Rightarrow> 'z hkern_scheme \<Rightarrow> object_number_t option" where
  "obj_shm_get_oid o' s = obj_oid o' (oh s)"

definition obj_create_shm ::
  "ptr \<Rightarrow> ptr \<Rightarrow> ptr \<Rightarrow> u8 list option \<Rightarrow> u32 \<Rightarrow> ptr \<Rightarrow> 'z hkern_scheme \<Rightarrow> (return_t \<times> 'z hkern_scheme) option" where
  "obj_create_shm reg process objectno name sz address s =
     (if process \<noteq> NULL \<and> objectno \<noteq> NULL \<and> address \<noteq> NULL \<and> sz \<noteq> 0 \<and> name \<noteq> None then do {
        table \<leftarrow> process_get_object_table process (ks s);
        pool \<leftarrow> process_get_mem_pool process (ks s);
        (no, s) \<leftarrow> on_oh (obj_alloc pool) s;
        if no = NULL then Some (OUT_OF_MEMORY, s)
        else do {
          user_pool \<leftarrow> process_get_user_mem_pool process (ks s);
          (mem, s) \<leftarrow> pipe_memory_alloc user_pool sz s;
          if mem = NULL then do { h \<leftarrow> obj_free pool no (oh s); Some (OUT_OF_MEMORY, s\<lparr>oh := h\<rparr>) }
          else do {
            let s = s\<lparr>ram := ram_clear mem sz (ram s)\<rparr>;
            (result, objno, h) \<leftarrow> obj_add_object table no (oh s);
            let s = s\<lparr>oh := h\<rparr>;
            case objno of
              None \<Rightarrow> Some (result, s)
            | Some i \<Rightarrow> do {
                (result, virt, s) \<leftarrow> process_allocate_vmem process mem sz MMU_RANDOM_ACCESS_MEMORY MMU_USER_ACCESS
                  MMU_READ_WRITE (c_string ''OBJ_SHM'') s;
                if result = NO_ERROR then do {
                  h \<leftarrow> obj_initialise_object no i SHARED_MEMORY_OBJ (oh s);
                  let s = s\<lparr>oh := h\<rparr>;
                  (l, s) \<leftarrow> on_sl (list_create pool) s;
                  n \<leftarrow> registry_key name;
                  let s = s\<lparr>shm_objs := (shm_objs s)(no \<mapsto> \<lparr>shm_pool = pool, shm_reg = reg, shm_process = process,
                    real_addr = mem, virt_addr = virt, shm_size = sz, client_list = l, parent_shm = NULL, shm_name = n\<rparr>)\<rparr>;
                  (_, s) \<leftarrow> regsitery_add reg name process i s;
                  s \<leftarrow> out16 objectno i s;
                  s \<leftarrow> out32 address virt s;
                  Some (result, s)
                }
                else Some (OUT_OF_MEMORY, s)
              }
          }
        }
      }
      else Some (PARAMETERS_NULL, s))"

text \<open>
  At most four characters of the name are copied: the size is the one of a pointer.  On an error the block of the
  object is not released.
\<close>

definition shm_view_name :: "u8 list option \<Rightarrow> u8 list option" where
  "shm_view_name name = do {
     n \<leftarrow> util_strlen name 4;
     util_memcpy (replicate 64 0) (case name of None \<Rightarrow> [] | Some x \<Rightarrow> x) (unat n)
   }"

definition obj_open_shm ::
  "ptr \<Rightarrow> ptr \<Rightarrow> ptr \<Rightarrow> u8 list option \<Rightarrow> u32 \<Rightarrow> ptr \<Rightarrow> 'z hkern_scheme \<Rightarrow> (return_t \<times> 'z hkern_scheme) option" where
  "obj_open_shm reg process objectno name sz address s =
     (if process \<noteq> NULL \<and> objectno \<noteq> NULL \<and> name \<noteq> None \<and> sz \<noteq> 0 then do {
        table \<leftarrow> process_get_object_table process (ks s);
        pool \<leftarrow> process_get_mem_pool process (ks s);
        (no, s) \<leftarrow> on_oh (obj_alloc pool) s;
        if no = NULL then Some (OUT_OF_MEMORY, s)
        else do {
          (_, found) \<leftarrow> registry_get reg name s;
          case found of
            None \<Rightarrow> Some (OBJECT_NOT_IN_REGISTRY, s)
          | Some (other_process, other_no) \<Rightarrow> do {
              other_table \<leftarrow> process_get_object_table other_process (ks s);
              other_obj \<leftarrow> obj_get_object other_table other_no (oh s);
              if other_obj = NULL then Some (INVALID_OBJECT, s)
              else do {
                other \<leftarrow> obj_cast_shm other_obj s;
                if other = NULL then Some (WRONG_OBJ_TYPE, s)
                else do {
                  x \<leftarrow> shm_objs s other;
                  if sz \<noteq> shm_size x then Some (SHM_WRONG_SIZE, s)
                  else do {
                    (result, virt, s) \<leftarrow> process_allocate_vmem process (real_addr x) (shm_size x) MMU_RANDOM_ACCESS_MEMORY
                      MMU_USER_ACCESS MMU_READ_WRITE (c_string ''OBJ_SHM_VIEW'') s;
                    if result \<noteq> NO_ERROR then Some (OUT_OF_MEMORY, s)
                    else do {
                      (result, objno, h) \<leftarrow> obj_add_object table no (oh s);
                      let s = s\<lparr>oh := h\<rparr>;
                      case objno of
                        None \<Rightarrow> Some (OUT_OF_MEMORY, s)
                      | Some i \<Rightarrow> do {
                          h \<leftarrow> obj_initialise_object no i SHARED_MEMORY_OBJ (oh s);
                          let s = s\<lparr>oh := h\<rparr>;
                          (_, s) \<leftarrow> on_sl (list_add (client_list x) no) s;
                          n \<leftarrow> shm_view_name name;
                          let s = s\<lparr>shm_objs := (shm_objs s)(no \<mapsto> \<lparr>shm_pool = pool, shm_reg = reg, shm_process = process,
                            real_addr = real_addr x, virt_addr = virt, shm_size = sz, client_list = NULL, parent_shm = other,
                            shm_name = n\<rparr>)\<rparr>;
                          (_, s) \<leftarrow> regsitery_add reg name process i s;
                          s \<leftarrow> out16 objectno i s;
                          s \<leftarrow> out32 address virt s;
                          Some (result, s)
                        }
                    }
                  }
                }
              }
            }
        }
      }
      else Some (PARAMETERS_NULL, s))"

subsection \<open>Deletion\<close>

definition shm_release :: "ptr \<Rightarrow> object_shm_t \<Rightarrow> 'z hkern_scheme \<Rightarrow> 'z hkern_scheme option" where
  "shm_release shm x s = do {
     h \<leftarrow> obj_free (shm_pool x) shm (oh s);
     Some (s\<lparr>oh := h, shm_objs := (shm_objs s)(shm := None)\<rparr>)
   }"

text \<open>
  Deletion and its loop over the clients call each other: \<open>shm_delete_step True\<close> is the loop.  The
  block is released into the private pool of the process although it comes from the user's.
\<close>

partial_function (option) shm_delete_step :: "bool \<Rightarrow> ptr \<Rightarrow> 'z hkern_scheme \<Rightarrow> 'z hkern_scheme option" where
  "shm_delete_step loop shm s = do {
     x \<leftarrow> shm_objs s shm;
     if loop then do {
       n \<leftarrow> list_size (client_list x) (shm_lists s);
       if n = 0 then Some s
       else do {
         r \<leftarrow> list_get (client_list x) 0 (shm_lists s);
         let attached = (case r of None \<Rightarrow> NULL | Some a \<Rightarrow> a);
         s \<leftarrow> (if attached \<noteq> NULL \<and> attached \<noteq> shm then shm_delete_step False attached s else Some s);
         (_, s) \<leftarrow> on_sl (list_remove (client_list x) 0) s;
         shm_delete_step True shm s
       }
     }
     else if client_list x \<noteq> NULL then do {
       s \<leftarrow> shm_delete_step True shm s;
       h \<leftarrow> list_delete (client_list x) (shm_lists s);
       let s = s\<lparr>shm_lists := h\<rparr>;
       s \<leftarrow> process_free_vmem (shm_process x) (virt_addr x) s;
       b \<leftarrow> mem_free (shm_pool x) (real_addr x) (blocks s);
       let s = s\<lparr>blocks := b\<rparr>;
       (_, s) \<leftarrow> registry_remove (shm_reg x) (Some (shm_name x)) s;
       shm_release shm x s
     }
     else do {
       s \<leftarrow> process_free_vmem (shm_process x) (virt_addr x) s;
       s \<leftarrow> (if parent_shm x \<noteq> NULL then do {
               p \<leftarrow> shm_objs s (parent_shm x);
               (_, s) \<leftarrow> on_sl (list_remove_item (client_list p) shm) s;
               Some s
             } else Some s);
       shm_release shm x s
     }
   }"

definition obj_delete_shm :: "ptr \<Rightarrow> 'z hkern_scheme \<Rightarrow> (return_t \<times> 'z hkern_scheme) option" where
  "obj_delete_shm shm s =
     (if shm = NULL then Some (INVALID_OBJECT, s)
      else do { s \<leftarrow> shm_delete_step False shm s; Some (NO_ERROR, s) })"

end
