(* ===== verification/Obj_Timer.thy ===== *)
theory Obj_Timer
  imports Obj_Shm
begin

section \<open>Timer objects (\<open>obj_timer.c\<close>)\<close>

text \<open>
  A timer has a thread of its own, which waits until the alarm of the timer fires and then runs the
  callback of the user.  The addresses of \<open>obj_timer_thread\<close>, the entry point of the thread, and of
  \<open>obj_timer_timeout\<close>, the callback of the alarm, are parameters, as are the two addresses
  \<open>thread_create\<close> needs.
\<close>

subsection \<open>State\<close>

record object_timer_t =
  tm_pool :: ptr
  tm_scheduler :: ptr
  tm_alarm_manager :: ptr
  tm_callback :: ptr
  tm_timeout :: tinker_time_t
  tm_parameter :: ptr
  tm_alarm_id :: u32
  callback_thread :: ptr
  thread_obj :: ptr

record tkern = hkern +
  timer_objs :: "object_timer_t pheap"

text \<open>Addresses that are fixed by the linker and the board.\<close>

record code_addrs =
  a_bootstrap :: u32
  a_thread_end :: u32
  a_timer_thread :: u32
  a_timer_timeout :: u32
  a_sleep_callback :: u32
  a_api :: u32
  a_api_end :: u32
  usable_memory_end :: u32

definition THREAD_FLAG_TIMER :: u32 where "THREAD_FLAG_TIMER = 2"
definition TIMER_STACK_SIZE :: u32 where "TIMER_STACK_SIZE = 1024"

definition obj_cast_timer :: "ptr \<Rightarrow> 'z tkern_scheme \<Rightarrow> ptr option" where
  "obj_cast_timer o' s = obj_cast TIMER_OBJ o' (oh s)"

definition obj_timer_get_oid :: "ptr \<Rightarrow> 'z tkern_scheme \<Rightarrow> object_number_t option" where
  "obj_timer_get_oid o' s = obj_oid o' (oh s)"

definition timer_upd :: "ptr \<Rightarrow> (object_timer_t \<Rightarrow> object_timer_t) \<Rightarrow> 'z tkern_scheme \<Rightarrow> 'z tkern_scheme option" where
  "timer_upd t f s = do { h \<leftarrow> store t f (timer_objs s); Some (s\<lparr>timer_objs := h\<rparr>) }"

subsection \<open>The callback of the alarm\<close>

definition obj_timer_timeout :: "ptr \<Rightarrow> u32 \<Rightarrow> ptr \<Rightarrow> 'z tkern_scheme \<Rightarrow> 'z tkern_scheme option" where
  "obj_timer_timeout am ident timer s =
     (if timer = NULL then Some s
      else do {
        x \<leftarrow> timer_objs s timer;
        if ident = tm_alarm_id x then do {
          s \<leftarrow> on_ks (thread_set_state (callback_thread x) THREAD_READY) s;
          s \<leftarrow> on_ks (thread_set_waiting_on (callback_thread x) NULL) s;
          s \<leftarrow> on_ks (sch_notify_resume_thread (tm_scheduler x) (callback_thread x)) s;
          s \<leftarrow> on_ks (thread_set_context_param (callback_thread x) 0 (tm_callback x)) s;
          s \<leftarrow> on_ks (thread_set_context_param (callback_thread x) 1 (tm_parameter x)) s;
          s \<leftarrow> timer_upd timer (\<lambda>x. x\<lparr>tm_callback := NULL\<rparr>) s;
          (_, s) \<leftarrow> on_ah (alarm_unset_alarm am ident) s;
          Some s
        }
        else Some s
      })"

text \<open>The callbacks that are put into alarms, by their addresses.\<close>

definition alarm_callback :: "code_addrs \<Rightarrow> ptr \<Rightarrow> ptr \<Rightarrow> u32 \<Rightarrow> ptr \<Rightarrow> 'z tkern_scheme \<Rightarrow> 'z tkern_scheme option" where
  "alarm_callback c cb am ident usr s =
     (if cb = a_timer_timeout c then obj_timer_timeout am ident usr s
      else if cb = a_sleep_callback c then obj_thread_sleep_callback am ident usr s
      else None)"

subsection \<open>Creation\<close>

text \<open>
  When \<open>proc_create_thread\<close> has no memory for the thread it reports no error and leaves the fields of the
  timer unwritten, and the code goes on with them; the model ends there.  When it reports an
  error the object stays in the table.  The number of the alarm is left unwritten when no alarm could be set; the model
  has 0 for it.
\<close>

definition obj_create_timer ::
  "code_addrs \<Rightarrow> ptr \<Rightarrow> ptr \<Rightarrow> ptr \<Rightarrow> ptr \<Rightarrow> u8 \<Rightarrow> u32 \<Rightarrow> u32 \<Rightarrow> ptr \<Rightarrow> ptr \<Rightarrow> 'z tkern_scheme \<Rightarrow>
     (return_t \<times> 'z tkern_scheme) option" where
  "obj_create_timer c scheduler alarm_manager process objectno pri secs nsecs callback parameter s =
     (if process \<noteq> NULL \<and> objectno \<noteq> NULL \<and> (secs \<noteq> 0 \<or> nsecs \<noteq> 0) \<and> callback \<noteq> NULL then do {
        table \<leftarrow> process_get_object_table process (ks s);
        pool \<leftarrow> process_get_mem_pool process (ks s);
        (no, s) \<leftarrow> on_oh (obj_alloc pool) s;
        if no = NULL then Some (OUT_OF_MEMORY, s)
        else do {
          (result, objno, h) \<leftarrow> obj_add_object table no (oh s);
          let s = s\<lparr>oh := h\<rparr>;
          case objno of
            None \<Rightarrow> do { h \<leftarrow> obj_free pool no (oh s); Some (result, s\<lparr>oh := h\<rparr>) }
          | Some i \<Rightarrow> do {
              (result, tobj, t, s) \<leftarrow> proc_create_thread (a_bootstrap c) (a_thread_end c) process (c_string ''timer'')
                 (a_timer_thread c) pri TIMER_STACK_SIZE THREAD_FLAG_TIMER s;
              if result \<noteq> NO_ERROR then Some (result, s)
              else if t = NULL then None
              else do {
                s \<leftarrow> on_ks (thread_set_state t THREAD_WAITING) s;
                s \<leftarrow> on_ks (thread_set_waiting_on t no) s;
                h \<leftarrow> obj_initialise_object no i TIMER_OBJ (oh s);
                let s = s\<lparr>oh := h\<rparr>;
                s \<leftarrow> on_ks (sch_notify_pause_thread scheduler t) s;
                let timeout = \<lparr>seconds = secs, nanoseconds = nsecs\<rparr>;
                let s = s\<lparr>timer_objs := (timer_objs s)(no \<mapsto> \<lparr>tm_pool = pool, tm_scheduler = scheduler,
                  tm_alarm_manager = alarm_manager, tm_callback = callback, tm_timeout = timeout,
                  tm_parameter = parameter, tm_alarm_id = 0, callback_thread = t, thread_obj = tobj\<rparr>)\<rparr>;
                s \<leftarrow> out16 objectno i s;
                (result, ident, a) \<leftarrow> alarm_set_alarm alarm_manager (Some timeout) (a_timer_timeout c) no (ah s);
                let s = s\<lparr>ah := a\<rparr>;
                s \<leftarrow> (case ident of None \<Rightarrow> Some s | Some n \<Rightarrow> timer_upd no (\<lambda>x. x\<lparr>tm_alarm_id := n\<rparr>) s);
                Some (result, s)
              }
            }
        }
      }
      else Some (PARAMETERS_INVALID, s))"

subsection \<open>Cancelling and deletion\<close>

text \<open>
  The thread has been released by \<open>obj_exit_thread\<close> when \<open>obj_timer_delete_thread\<close> reads its process at the
  end: a read of released memory.
\<close>

definition obj_timer_delete_thread :: "ptr \<Rightarrow> 'z tkern_scheme \<Rightarrow> 'z tkern_scheme option" where
  "obj_timer_delete_thread timer s = do {
     x \<leftarrow> timer_objs s timer;
     t \<leftarrow> obj_get_thread (thread_obj x) s;
     state \<leftarrow> thread_get_state t (ks s);
     oid \<leftarrow> obj_thread_get_oid (thread_obj x) s;
     s \<leftarrow> (if state \<noteq> THREAD_TERMINATED \<and> state \<noteq> THREAD_NOT_CREATED
           then on_ks (sch_notify_exit_thread (tm_scheduler x) t) s else Some s);
     parent \<leftarrow> thread_get_parent t (ks s);
     s \<leftarrow> on_ks (process_thread_exit parent t) s;
     (_, s) \<leftarrow> obj_exit_thread (thread_obj x) s;
     parent \<leftarrow> thread_get_parent (callback_thread x) (ks s);
     table \<leftarrow> process_get_object_table parent (ks s);
     (_, h) \<leftarrow> obj_remove_object table oid (oh s);
     Some (s\<lparr>oh := h\<rparr>)
   }"

definition obj_cancel_timer :: "ptr \<Rightarrow> 'z tkern_scheme \<Rightarrow> (return_t \<times> 'z tkern_scheme) option" where
  "obj_cancel_timer timer s =
     (if timer = NULL then Some (PARAMETERS_NULL, s)
      else do {
        x \<leftarrow> timer_objs s timer;
        if tm_callback x \<noteq> NULL then do {
          (_, s) \<leftarrow> on_ah (alarm_unset_alarm (tm_alarm_manager x) (tm_alarm_id x)) s;
          s \<leftarrow> timer_upd timer (\<lambda>x. x\<lparr>tm_alarm_id := 0, tm_callback := NULL\<rparr>) s;
          s \<leftarrow> obj_timer_delete_thread timer s;
          Some (NO_ERROR, s)
        }
        else Some (ALARM_ALREADY_CANCELLED, s)
      })"

text \<open>The number of the alarm is written after the timer has been released.\<close>

definition obj_delete_timer :: "ptr \<Rightarrow> 'z tkern_scheme \<Rightarrow> (return_t \<times> 'z tkern_scheme) option" where
  "obj_delete_timer timer s =
     (if timer = NULL then Some (PARAMETERS_NULL, s)
      else do {
        x \<leftarrow> timer_objs s timer;
        s \<leftarrow> (if tm_callback x \<noteq> NULL then do {
                (_, s) \<leftarrow> on_ah (alarm_unset_alarm (tm_alarm_manager x) (tm_alarm_id x)) s;
                s \<leftarrow> timer_upd timer (\<lambda>x. x\<lparr>tm_alarm_id := 0\<rparr>) s;
                obj_timer_delete_thread timer s
              } else Some s);
        h \<leftarrow> obj_free (tm_pool x) timer (oh s);
        let s = s\<lparr>oh := h, timer_objs := (timer_objs s)(timer := None)\<rparr>;
        s \<leftarrow> timer_upd timer (\<lambda>x. x\<lparr>tm_alarm_id := 0\<rparr>) s;
        Some (NO_ERROR, s)
      })"

end
