(* ===== verification/Process_Life.thy ===== *)
theory Process_Life
  imports Obj_Timer
begin

section \<open>Creation and end of processes (\<open>process.c\<close>, \<open>obj_process.c\<close>, \<open>mem_pool.c\<close>)\<close>

text \<open>
  A process is created with a pool of its own, a page table, an object table and a chain of
  sections that is then mapped; its end releases every object in its table and every section.  The
  description of the memory of a new process lies in the memory of its creator.
\<close>

subsection \<open>State\<close>

record tinker_mempart_t =
  mp_real :: u32
  mp_virt :: u32
  mp_size :: u32
  mp_mem_type :: mmu_memory_t
  mp_priv :: mmu_privilege_t
  mp_access :: mmu_access_t
  mp_name :: "u8 list"
  mp_next :: ptr

record tinker_meminfo_t =
  heap_size :: u32
  stack_size :: u32
  first_part :: ptr

record object_process_t =
  op_pid :: u32
  op_pool :: ptr
  op_process :: ptr
  op_proc_list :: ptr

record proc_list_t =
  pl_scheduler :: ptr
  process_list :: ptr
  pl_alarm_manager :: ptr
  last_pid :: u32
  pl_kernel_process :: ptr

text \<open>\<open>pools\<close> has the sizes of the pools, \<open>mem_memory_pool\<close> is the pool of all of the memory.\<close>

record lkern = tkern +
  pools :: "u32 pheap"
  mem_memory_pool :: ptr
  process_objs :: "object_process_t pheap"
  proc_lists :: "proc_list_t pheap"
  proc_lh :: lheap
  meminfos :: "tinker_meminfo_t pheap"
  memparts :: "tinker_mempart_t pheap"
  l_answers :: "ptr list"

subsection \<open>Pools (\<open>mem_pool.c\<close>, \<open>memory_manager.c\<close>)\<close>

text \<open>
  The head of a pool is written to the start of its memory; making the space behind it is the allocator's part.
\<close>

definition mem_init_memory_pool :: "ptr \<Rightarrow> u32 \<Rightarrow> 'z lkern_scheme \<Rightarrow> (ptr \<times> 'z lkern_scheme) option" where
  "mem_init_memory_pool base_addr pool_size s =
     (if base_addr = NULL then None else Some (base_addr, s\<lparr>pools := (pools s)(base_addr \<mapsto> pool_size)\<rparr>))"

definition block_alloc :: "ptr \<Rightarrow> u32 \<Rightarrow> 'z kern_scheme \<Rightarrow> (ptr \<times> 'z kern_scheme) option" where
  "block_alloc pool bytes s = do {
     (m, as) \<leftarrow> mem_alloc pool (blocks s) (b_answers s);
     let s = s\<lparr>b_answers := as\<rparr>;
     Some (m, if m \<noteq> NULL then s\<lparr>blocks := (blocks s)(m \<mapsto> bytes)\<rparr> else s)
   }"

definition block_free :: "ptr \<Rightarrow> ptr \<Rightarrow> 'z kern_scheme \<Rightarrow> 'z kern_scheme option" where
  "block_free pool m s = do { b \<leftarrow> mem_free pool m (blocks s); Some (s\<lparr>blocks := b\<rparr>) }"

definition mem_init_process_memory :: "ptr \<Rightarrow> u32 \<Rightarrow> 'z lkern_scheme \<Rightarrow> (bool \<times> ptr \<times> 'z lkern_scheme) option" where
  "mem_init_process_memory pool sz s = do {
     (m, s) \<leftarrow> pipe_memory_alloc pool (sz + of_nat MMU_PAGE_SIZE) s;
     if m \<noteq> NULL then do {
       (p, s) \<leftarrow> mem_init_memory_pool m (sz - of_nat MMU_PAGE_SIZE) s;
       Some (True, p, s)
     }
     else Some (False, NULL, s)
   }"

definition mem_get_start_addr :: "ptr \<Rightarrow> u32" where "mem_get_start_addr pool = pool"

definition mem_get_alloc_size :: "ptr \<Rightarrow> 'z lkern_scheme \<Rightarrow> u32 option" where
  "mem_get_alloc_size pool s = (if pool = NULL then Some 0 else pools s pool)"

definition mem_get_default_pool :: "'z lkern_scheme \<Rightarrow> ptr" where "mem_get_default_pool s = mem_memory_pool s"

definition mem_initialise :: "u32 \<Rightarrow> u32 \<Rightarrow> 'z lkern_scheme \<Rightarrow> (bool \<times> 'z lkern_scheme) option" where
  "mem_initialise start end_addr s = do {
     (p, s) \<leftarrow> mem_init_memory_pool start (end_addr - start) s;
     Some (True, s\<lparr>mem_memory_pool := p\<rparr>)
   }"

subsection \<open>Creation\<close>

definition PRIVATE_POOL_SIZE :: u32 where "PRIVATE_POOL_SIZE = 256 * 1024"
definition PAGE_TABLE_SIZE :: u32 where "PAGE_TABLE_SIZE = 16384"

text \<open>A section is made from the private pool and put into the chain.\<close>

definition process_new_sec ::
  "ptr \<Rightarrow> ptr \<Rightarrow> u32 \<Rightarrow> u32 \<Rightarrow> u32 \<Rightarrow> mmu_memory_t \<Rightarrow> mmu_privilege_t \<Rightarrow> mmu_access_t \<Rightarrow> u8 list option \<Rightarrow>
     'z kern_scheme \<Rightarrow> 'z kern_scheme option" where
  "process_new_sec process pool real virt sz type priv acc name s = do {
     (sec, s) \<leftarrow> on_vm (mem_sec_create pool real virt sz type priv acc name) s;
     process_add_mem_sec process sec s
   }"

text \<open>The sections of the kernel behind the end of the memory are put into the new process, too.\<close>

partial_function (option) process_kernel_secs :: "ptr \<Rightarrow> ptr \<Rightarrow> u32 \<Rightarrow> ptr \<Rightarrow> 'z kern_scheme \<Rightarrow> 'z kern_scheme option" where
  "process_kernel_secs process pool end_of_ram ksection s =
     (if ksection = NULL then Some s
      else do {
        x \<leftarrow> sections (vm s) ksection;
        s \<leftarrow> (if real_address x > end_of_ram
              then process_new_sec process pool (real_address x) (virt_address x) (sec_size x) (memory_type x) (privilege x)
                     (access_rights x) (Some (sec_name x)) s
              else Some s);
        next \<leftarrow> mem_sec_get_next ksection (vm s);
        process_kernel_secs process pool end_of_ram next s
      })"

partial_function (option) process_part_secs :: "ptr \<Rightarrow> ptr \<Rightarrow> ptr \<Rightarrow> 'z lkern_scheme \<Rightarrow> 'z lkern_scheme option" where
  "process_part_secs process pool part s =
     (if part = NULL then Some s
      else do {
        m \<leftarrow> memparts s part;
        s \<leftarrow> process_new_sec process pool (mp_real m) (mp_virt m) (mp_size m) (mp_mem_type m) (mp_priv m) (mp_access m)
               (Some (mp_name m)) s;
        process_part_secs process pool (mp_next m) s
      })"

text \<open>\<open>tgt_initialise_process\<close> of \<open>arm.c\<close>: the sections of a process other than the kernel's are mapped.\<close>

partial_function (option) tgt_map_sections :: "ptr \<Rightarrow> ptr \<Rightarrow> 'z kern_scheme \<Rightarrow> 'z kern_scheme option" where
  "tgt_map_sections process section s =
     (if section = NULL then Some s
      else do {
        (_, s) \<leftarrow> tgt_map_memory process section s;
        next \<leftarrow> mem_sec_get_next section (vm s);
        tgt_map_sections process next s
      })"

definition tgt_initialise_process :: "ptr \<Rightarrow> 'z kern_scheme \<Rightarrow> (return_t \<times> 'z kern_scheme) option" where
  "tgt_initialise_process process s = do {
     kernel \<leftarrow> process_is_kernel process (ks s);
     if kernel then Some (NO_ERROR, s)
     else do {
       sec \<leftarrow> process_get_first_section process (ks s);
       s \<leftarrow> tgt_map_sections process sec s;
       Some (NO_ERROR, s)
     }
   }"

text \<open>The name of the image, cut to its length.\<close>

definition process_image :: "u8 list option \<Rightarrow> u8 list option" where
  "process_image name = do {
     n \<leftarrow> util_strlen name 255;
     img \<leftarrow> util_memcpy (replicate 256 0) (case name of None \<Rightarrow> [] | Some x \<Rightarrow> x) (unat n);
     Some (img[unat n := 0])
   }"

text \<open>The private pool, the page table and the object table of a new process.\<close>

definition process_create_parts :: "ptr \<Rightarrow> 'z lkern_scheme \<Rightarrow> (ptr \<times> ptr \<times> ptr \<times> 'z lkern_scheme) option" where
  "process_create_parts mempool s = do {
     (m, s) \<leftarrow> block_alloc mempool PRIVATE_POOL_SIZE s;
     (pool, s) \<leftarrow> mem_init_memory_pool m PRIVATE_POOL_SIZE s;
     (table, s) \<leftarrow> on_vm (tgt_initialise_page_table pool) s;
     _ \<leftarrow> kernel_assert (table \<noteq> NULL);
     (objs, s) \<leftarrow> on_oh (obj_table_create pool) s;
     Some (pool, table, objs, s)
   }"

text \<open>The sections every process has.\<close>

definition process_create_secs :: "code_addrs \<Rightarrow> ptr \<Rightarrow> ptr \<Rightarrow> ptr \<Rightarrow> bool \<Rightarrow> tinker_meminfo_t \<Rightarrow> ptr \<Rightarrow> 'z lkern_scheme \<Rightarrow> 'z lkern_scheme option" where
  "process_create_secs c p pool user_pool is_kernel meminfo ksection s = do {
     let end_of_ram = usable_memory_end c;
     (ram_sec, s) \<leftarrow> on_vm (mem_sec_create pool 4096 0 end_of_ram MMU_RANDOM_ACCESS_MEMORY MMU_KERNEL_ACCESS MMU_READ_WRITE
        (c_string ''RAM'')) s;
     (_, s) \<leftarrow> tgt_map_memory p ram_sec s;
     s \<leftarrow> process_kernel_secs p pool end_of_ram ksection s;
     n \<leftarrow> mem_get_alloc_size pool s;
     s \<leftarrow> process_new_sec p pool (mem_get_start_addr pool) (VIRTUAL_ADDRESS_SPACE is_kernel) n MMU_RANDOM_ACCESS_MEMORY
        MMU_KERNEL_ACCESS MMU_READ_WRITE (c_string ''POOL (PRIVATE)'') s;
     n \<leftarrow> mem_get_alloc_size user_pool s;
     s \<leftarrow> process_new_sec p pool (mem_get_start_addr user_pool) (VIRTUAL_ADDRESS_SPACE is_kernel + PRIVATE_POOL_SIZE) n
        MMU_RANDOM_ACCESS_MEMORY MMU_ALL_ACCESS MMU_READ_WRITE (c_string ''POOL (PUBLIC)'') s;
     s \<leftarrow> process_part_secs p pool (first_part meminfo) s;
     process_new_sec p pool (a_api c) (a_api c) (a_api_end c - a_api c) MMU_RANDOM_ACCESS_MEMORY MMU_ALL_ACCESS MMU_READ_ONLY
        (c_string ''SYSCALL API'') s
   }"

definition process_create ::
  "code_addrs \<Rightarrow> ptr \<Rightarrow> ptr \<Rightarrow> ptr \<Rightarrow> u32 \<Rightarrow> u8 list option \<Rightarrow> bool \<Rightarrow> tinker_meminfo_t \<Rightarrow> ptr \<Rightarrow> ptr \<Rightarrow> 'z lkern_scheme \<Rightarrow>
     (return_t \<times> ptr \<times> 'z lkern_scheme) option" where
  "process_create c scheduler alarm_manager mempool pid name is_kernel meminfo pool ksection s = do {
     (p, as) \<leftarrow> mem_alloc mempool (processes (ks s)) (k_answers (ks s));
     let s = s\<lparr>ks := (ks s)\<lparr>k_answers := as\<rparr>\<rparr>;
     if p = NULL then Some (OUT_OF_MEMORY, NULL, s)
     else do {
       (private, table, objs, s) \<leftarrow> process_create_parts mempool s;
       img \<leftarrow> process_image name;
       let x = \<lparr>p_scheduler = scheduler, p_alarm_manager = alarm_manager, process_id = pid, p_threads = replicate MAX_THREADS NULL,
         private_pool = private, memory_pool = pool, p_object_table = objs, p_object_number = 0, kernel_process = is_kernel,
         first_section = NULL, p_image = img, initial_thread = NULL, parent_pool = mempool, page_table = table\<rparr>;
       let s = s\<lparr>ks := (ks s)\<lparr>processes := (processes (ks s))(p \<mapsto> x)\<rparr>\<rparr>;
       s \<leftarrow> process_create_secs c p private pool is_kernel meminfo ksection s;
       (ret, s) \<leftarrow> tgt_initialise_process p s;
       Some (ret, if ret = NO_ERROR then p else NULL, s)
     }
   }"

end
