(* ===== verification/Process_List.thy ===== *)
theory Process_List
  imports Process_Life
begin

section \<open>Process objects and the list of processes (\<open>obj_process.c\<close>, \<open>process.c\<close>, \<open>process_list.c\<close>)\<close>

text \<open>
  The end of a process, the objects that stand for processes, and the list that hands out process
  numbers and creates processes with their first thread.
\<close>

subsection \<open>Process objects\<close>

definition obj_cast_process :: "ptr \<Rightarrow> 'z lkern_scheme \<Rightarrow> ptr option" where
  "obj_cast_process o' s = obj_cast PROCESS_OBJ o' (oh s)"

definition obj_process_get_oid :: "ptr \<Rightarrow> 'z lkern_scheme \<Rightarrow> object_number_t option" where
  "obj_process_get_oid o' s = obj_oid o' (oh s)"

definition obj_process_pid :: "ptr \<Rightarrow> 'z lkern_scheme \<Rightarrow> u32 option" where
  "obj_process_pid o' s = map_option op_pid (process_objs s o')"

text \<open>The block is cleared before it is known that there is one.\<close>

definition obj_create_process ::
  "ptr \<Rightarrow> ptr \<Rightarrow> ptr \<Rightarrow> u32 \<Rightarrow> ptr \<Rightarrow> 'z lkern_scheme \<Rightarrow> (return_t \<times> ptr \<times> 'z lkern_scheme) option" where
  "obj_create_process proc_list pool table pid process s =
     (if table = NULL then Some (PARAMETERS_OUT_OF_RANGE, NULL, s)
      else do {
        (no, s) \<leftarrow> on_oh (obj_alloc pool) s;
        if no = NULL then None
        else do {
          (result, objno, h) \<leftarrow> obj_add_object table no (oh s);
          let s = s\<lparr>oh := h\<rparr>;
          case objno of
            None \<Rightarrow> do { h \<leftarrow> obj_free pool no (oh s); Some (result, NULL, s\<lparr>oh := h\<rparr>) }
          | Some i \<Rightarrow> do {
              h \<leftarrow> obj_initialise_object no i PROCESS_OBJ (oh s);
              Some (result, no, s\<lparr>oh := h, process_objs := (process_objs s)(no \<mapsto>
                \<lparr>op_pid = pid, op_pool = pool, op_process = process, op_proc_list = proc_list\<rparr>)\<rparr>)
            }
        }
      })"

definition obj_delete_process :: "ptr \<Rightarrow> 'z lkern_scheme \<Rightarrow> 'z lkern_scheme option" where
  "obj_delete_process o' s = do {
     x \<leftarrow> process_objs s o';
     h \<leftarrow> obj_free (op_pool x) o' (oh s);
     Some (s\<lparr>oh := h, process_objs := (process_objs s)(o' := None)\<rparr>)
   }"

subsection \<open>The end of a process\<close>

definition obj_remove :: "ptr \<Rightarrow> object_number_t \<Rightarrow> 'z kern_scheme \<Rightarrow> 'z kern_scheme option" where
  "obj_remove table oid s = do { (_, h) \<leftarrow> obj_remove_object table oid (oh s); Some (s\<lparr>oh := h\<rparr>) }"

text \<open>The threads of timers are left to their timers.\<close>

definition process_exit_object :: "ptr \<Rightarrow> ptr \<Rightarrow> 'z lkern_scheme \<Rightarrow> 'z lkern_scheme option" where
  "process_exit_object table object s = do {
     t \<leftarrow> obj_cast_thread object s;
     sema \<leftarrow> obj_cast_semaphore object s;
     proc \<leftarrow> obj_cast_process object s;
     pipe \<leftarrow> obj_cast_pipe object s;
     shm \<leftarrow> obj_cast_shm object s;
     timer \<leftarrow> obj_cast_timer object s;
     oid \<leftarrow> obj_oid object (oh s);
     if t \<noteq> NULL then do {
       thread \<leftarrow> obj_get_thread t s;
       flags \<leftarrow> thread_get_flags thread (ks s);
       if flags AND THREAD_FLAG_TIMER = 0 then do { (_, s) \<leftarrow> obj_exit_thread t s; obj_remove table oid s }
       else Some s
     }
     else if sema \<noteq> NULL then do { (_, s) \<leftarrow> object_delete_semaphore sema s; obj_remove table oid s }
     else if proc \<noteq> NULL then do { s \<leftarrow> obj_delete_process proc s; obj_remove table oid s }
     else if pipe \<noteq> NULL then do { (_, s) \<leftarrow> obj_delete_pipe pipe s; obj_remove table oid s }
     else if shm \<noteq> NULL then do { (_, s) \<leftarrow> obj_delete_shm shm s; obj_remove table oid s }
     else if timer \<noteq> NULL then do { (_, s) \<leftarrow> obj_delete_timer timer s; obj_remove table oid s }
     else Some s
   }"

partial_function (option) process_exit_objects :: "ptr \<Rightarrow> ptr \<Rightarrow> ptr option \<Rightarrow> 'z lkern_scheme \<Rightarrow> 'z lkern_scheme option" where
  "process_exit_objects table it object s =
     (case object of
        None \<Rightarrow> Some s
      | Some o' \<Rightarrow> do {
          s \<leftarrow> process_exit_object table o' s;
          (next, s) \<leftarrow> on_mh (map_it_next it) s;
          process_exit_objects table it next s
        })"

partial_function (option) process_exit_secs :: "ptr \<Rightarrow> ptr \<Rightarrow> 'z kern_scheme \<Rightarrow> 'z kern_scheme option" where
  "process_exit_secs process section s =
     (if section = NULL then Some s
      else do {
        s \<leftarrow> tgt_unmap_memory process section s;
        next \<leftarrow> mem_sec_get_next section (vm s);
        s \<leftarrow> on_vs (mem_sec_delete section) s;
        process_exit_secs process next s
      })"

definition mh_do :: "(mheap \<Rightarrow> mheap option) \<Rightarrow> 'z kern_scheme \<Rightarrow> 'z kern_scheme option" where
  "mh_do f s = do { h \<leftarrow> f (mh (oh s)); Some (s\<lparr>oh := (oh s)\<lparr>mh := h\<rparr>\<rparr>) }"

definition pool_free :: "ptr \<Rightarrow> ptr \<Rightarrow> 'z lkern_scheme \<Rightarrow> 'z lkern_scheme option" where
  "pool_free parent pool s = do { s \<leftarrow> block_free parent pool s; Some (s\<lparr>pools := (pools s)(pool := None)\<rparr>) }"

definition process_exit :: "ptr \<Rightarrow> 'z lkern_scheme \<Rightarrow> 'z lkern_scheme option" where
  "process_exit process s = do {
     _ \<leftarrow> kernel_assert (process \<noteq> NULL);
     s \<leftarrow> on_ks (process_update process (\<lambda>x. x\<lparr>p_threads := replicate MAX_THREADS NULL\<rparr>)) s;
     table \<leftarrow> process_get_object_table process (ks s);
     (it, s) \<leftarrow> on_oh (obj_iterator table) s;
     s \<leftarrow> (if it \<noteq> NULL then do {
             object \<leftarrow> map_it_get it (mh (oh s));
             s \<leftarrow> process_exit_objects table it object s;
             s \<leftarrow> mh_do (map_it_reset it) s;
             object \<leftarrow> map_it_get it (mh (oh s));
             _ \<leftarrow> kernel_assert (object = None);
             mh_do (map_it_delete it) s
           } else Some s);
     h \<leftarrow> obj_table_delete table (oh s);
     let s = s\<lparr>oh := h\<rparr>;
     section \<leftarrow> process_get_first_section process (ks s);
     s \<leftarrow> process_exit_secs process section s;
     x \<leftarrow> processes (ks s) process;
     l1 \<leftarrow> mem_free (private_pool x) (page_table x) (l1_tables (vm s));
     let s = s\<lparr>vm := (vm s)\<lparr>l1_tables := l1\<rparr>\<rparr>;
     s \<leftarrow> pool_free (parent_pool x) (private_pool x) s;
     s \<leftarrow> pool_free (parent_pool x) (memory_pool x) s;
     ps \<leftarrow> mem_free (parent_pool x) process (processes (ks s));
     Some (s\<lparr>ks := (ks s)\<lparr>processes := ps\<rparr>\<rparr>)
   }"

subsection \<open>The list of processes\<close>

definition proc_create :: "ptr \<Rightarrow> ptr \<Rightarrow> ptr \<Rightarrow> 'z lkern_scheme \<Rightarrow> (ptr \<times> 'z lkern_scheme) option" where
  "proc_create pool scheduler alarm_manager s = do {
     (list, as) \<leftarrow> mem_alloc pool (proc_lists s) (l_answers s);
     let s = s\<lparr>l_answers := as\<rparr>;
     if list = NULL then Some (list, s)
     else do {
       (l, h) \<leftarrow> list_create pool (proc_lh s);
       Some (list, s\<lparr>proc_lh := h, proc_lists := (proc_lists s)(list \<mapsto>
         \<lparr>pl_scheduler = scheduler, process_list = l, pl_alarm_manager = alarm_manager, last_pid = 1, pl_kernel_process = NULL\<rparr>)\<rparr>)
     }
   }"

definition pl_upd :: "ptr \<Rightarrow> (proc_list_t \<Rightarrow> proc_list_t) \<Rightarrow> 'z lkern_scheme \<Rightarrow> 'z lkern_scheme option" where
  "pl_upd l f s = do { h \<leftarrow> store l f (proc_lists s); Some (s\<lparr>proc_lists := h\<rparr>) }"

definition proc_set_kernel_process :: "ptr \<Rightarrow> ptr \<Rightarrow> 'z lkern_scheme \<Rightarrow> 'z lkern_scheme option" where
  "proc_set_kernel_process list proc s = (if list = NULL then Some s else pl_upd list (\<lambda>x. x\<lparr>pl_kernel_process := proc\<rparr>) s)"

definition proc_get_kernel_process :: "ptr \<Rightarrow> 'z lkern_scheme \<Rightarrow> ptr option" where
  "proc_get_kernel_process list s = (if list = NULL then Some NULL else map_option pl_kernel_process (proc_lists s list))"

definition get_parent_pool :: "ptr \<Rightarrow> ptr \<Rightarrow> 'z lkern_scheme \<Rightarrow> ptr option" where
  "get_parent_pool list current s =
     (if current = NULL then Some (mem_get_default_pool s)
      else do {
        parent \<leftarrow> thread_get_parent current (ks s);
        x \<leftarrow> proc_lists s list;
        if pl_kernel_process x = NULL \<or> parent = pl_kernel_process x then Some (mem_get_default_pool s)
        else process_get_mem_pool parent (ks s)
      })"

definition MAX_PROCESSES :: nat where "MAX_PROCESSES = 1024"
definition INVALID_PROC_ID :: u32 where "INVALID_PROC_ID = 0"

text \<open>The search for a process number: the first index from the last number on that the list does not have.\<close>

primrec find_proc_id :: "nat \<Rightarrow> u32 \<Rightarrow> ptr \<Rightarrow> lheap \<Rightarrow> u32 option option" where
  "find_proc_id 0 i l h = Some None"
| "find_proc_id (Suc n) i l h = do {
     r \<leftarrow> list_get l i h;
     if r = None then Some (Some i) else find_proc_id n (i + 1) l h
   }"

definition get_proc_id :: "ptr \<Rightarrow> 'z lkern_scheme \<Rightarrow> (u32 \<times> 'z lkern_scheme) option" where
  "get_proc_id list s = do {
     x \<leftarrow> proc_lists s list;
     r \<leftarrow> find_proc_id (MAX_PROCESSES - unat (last_pid x)) (last_pid x) (process_list x) (proc_lh s);
     case r of
       None \<Rightarrow> Some (INVALID_PROC_ID, s)
     | Some i \<Rightarrow> do { s \<leftarrow> pl_upd list (\<lambda>x. x\<lparr>last_pid := i\<rparr>) s; Some (i, s) }
   }"

definition create_process_object :: "ptr \<Rightarrow> ptr \<Rightarrow> 'z lkern_scheme \<Rightarrow> (return_t \<times> 'z lkern_scheme) option" where
  "create_process_object list proc s = do {
     pool \<leftarrow> process_get_mem_pool proc (ks s);
     table \<leftarrow> process_get_object_table proc (ks s);
     pid \<leftarrow> process_get_pid proc (ks s);
     (ret, obj, s) \<leftarrow> obj_create_process list pool table pid proc s;
     number \<leftarrow> obj_get_number obj (oh s);
     s \<leftarrow> on_ks (process_set_oid proc (ucast number)) s;
     Some (ret, s)
   }"

text \<open>The part of \<open>proc_create_process\<close> that follows the allocation of the pool: the result and the process.\<close>

definition proc_create_body ::
  "code_addrs \<Rightarrow> ptr \<Rightarrow> u8 list option \<Rightarrow> u8 list option \<Rightarrow> ptr \<Rightarrow> u8 \<Rightarrow> tinker_meminfo_t \<Rightarrow> u32 \<Rightarrow> u32 \<Rightarrow> bool \<Rightarrow> ptr \<Rightarrow> ptr \<Rightarrow>
     'z lkern_scheme \<Rightarrow> (return_t \<times> ptr \<times> 'z lkern_scheme) option" where
  "proc_create_body c list img task entry pri meminfo flags pid is_kernel ppool new_pool s = do {
     x \<leftarrow> proc_lists s list;
     ksection \<leftarrow> process_get_first_section (pl_kernel_process x) (ks s);
     (ret, proc, s) \<leftarrow> process_create c (pl_scheduler x) (pl_alarm_manager x) ppool pid img is_kernel meminfo new_pool
        ksection s;
     if ret \<noteq> NO_ERROR then Some (ret, proc, s)
     else do {
       (ret, s) \<leftarrow> create_process_object list proc s;
       if ret \<noteq> NO_ERROR then Some (ret, proc, s)
       else do {
         (ret, _, _, s) \<leftarrow> proc_create_thread (a_bootstrap c) (a_thread_end c) proc task entry pri (stack_size meminfo) flags s;
         if ret \<noteq> NO_ERROR then Some (OBJECT_ADD_FAILED, proc, s)
         else do {
           (ok, h) \<leftarrow> list_add (process_list x) proc (proc_lh s);
           Some (if ok then NO_ERROR else OUT_OF_MEMORY, proc, s\<lparr>proc_lh := h\<rparr>)
         }
       }
     }
   }"

definition proc_create_process ::
  "code_addrs \<Rightarrow> ptr \<Rightarrow> u8 list option \<Rightarrow> u8 list option \<Rightarrow> ptr \<Rightarrow> u8 \<Rightarrow> tinker_meminfo_t \<Rightarrow> u32 \<Rightarrow> 'z lkern_scheme \<Rightarrow>
     (return_t \<times> ptr \<times> 'z lkern_scheme) option" where
  "proc_create_process c list img task entry pri meminfo flags s = do {
     (pid, s) \<leftarrow> get_proc_id list s;
     if pid = INVALID_PROC_ID then Some (OUT_OF_PROCESS_IDS, NULL, s)
     else do {
       x \<leftarrow> proc_lists s list;
       current \<leftarrow> sch_get_current_thread (pl_scheduler x) (ks s);
       ppool \<leftarrow> get_parent_pool list current s;
       (allocated, new_pool, s) \<leftarrow> mem_init_process_memory ppool
          (heap_size meminfo + stack_size meminfo + PAGE_TABLE_SIZE + PRIVATE_POOL_SIZE) s;
       if \<not> allocated then Some (OUT_OF_MEMORY, NULL, s)
       else do {
         (ret, proc, s) \<leftarrow> proc_create_body c list img task entry pri meminfo flags pid (current = NULL) ppool
            new_pool s;
         if ret = NO_ERROR then Some (ret, proc, s)
         else do {
           s \<leftarrow> (if proc \<noteq> NULL then process_exit proc s else Some s);
           s \<leftarrow> pool_free ppool new_pool s;
           Some (ret, NULL, s)
         }
       }
     }
   }"

definition proc_delete_proc :: "ptr \<Rightarrow> ptr \<Rightarrow> 'z lkern_scheme \<Rightarrow> 'z lkern_scheme option" where
  "proc_delete_proc list process s =
     (if list = NULL then Some s
      else do {
        x \<leftarrow> proc_lists s list;
        (_, h) \<leftarrow> list_remove_item (process_list x) process (proc_lh s);
        Some (s\<lparr>proc_lh := h\<rparr>)
      })"

definition proc_list_procs :: "ptr \<Rightarrow> 'z lkern_scheme \<Rightarrow> (ptr \<times> 'z lkern_scheme) option" where
  "proc_list_procs list s =
     (if list = NULL then Some (NULL, s)
      else do {
        x \<leftarrow> proc_lists s list;
        (it, h) \<leftarrow> list_it_create (process_list x) (proc_lh s);
        Some (it, s\<lparr>proc_lh := h\<rparr>)
      })"

subsection \<open>The end of a thread or process as an object\<close>

text \<open>The list of processes is read from the object after it has been released.\<close>

definition obj_process_exit :: "ptr \<Rightarrow> 'z lkern_scheme \<Rightarrow> 'z lkern_scheme option" where
  "obj_process_exit o' s = do {
     _ \<leftarrow> kernel_assert (o' \<noteq> NULL);
     x \<leftarrow> process_objs s o';
     table \<leftarrow> process_get_object_table (op_process x) (ks s);
     oid \<leftarrow> obj_oid o' (oh s);
     s \<leftarrow> obj_remove table oid s;
     s \<leftarrow> obj_delete_process o' s;
     y \<leftarrow> process_objs s o';
     s \<leftarrow> proc_delete_proc (op_proc_list y) (op_process x) s;
     process_exit (op_process x) s
   }"

definition obj_process_thread_exit :: "ptr \<Rightarrow> ptr \<Rightarrow> 'z lkern_scheme \<Rightarrow> (return_t \<times> 'z lkern_scheme) option" where
  "obj_process_thread_exit o' t s = do {
     _ \<leftarrow> kernel_assert (o' \<noteq> NULL);
     _ \<leftarrow> kernel_assert (t \<noteq> NULL);
     x \<leftarrow> process_objs s o';
     thread \<leftarrow> obj_get_thread t s;
     s \<leftarrow> on_ks (process_thread_exit (op_process x) thread) s;
     table \<leftarrow> process_get_object_table (op_process x) (ks s);
     oid \<leftarrow> obj_thread_get_oid t s;
     s \<leftarrow> obj_remove table oid s;
     (ret, s) \<leftarrow> obj_exit_thread t s;
     n \<leftarrow> process_get_thread_count (op_process x) (ks s);
     s \<leftarrow> (if n = 0 then obj_process_exit o' s else Some s);
     Some (ret, s)
   }"

end
