(* ===== verification/Loader.thy ===== *)
theory Loader
  imports Process_List Elf
begin

section \<open>The ELF loader (\<open>loader.c\<close>)\<close>

text \<open>
  \<open>load_elf\<close> copies the segments of a file into a buffer and starts a process whose sections lie
  in this buffer.
\<close>

record loader_t =
  ld_pool :: ptr
  ld_list :: ptr
  current_data :: ptr

record ekern = lkern +
  loaders :: "loader_t pheap"

definition loader_create :: "ptr \<Rightarrow> ptr \<Rightarrow> 'z ekern_scheme \<Rightarrow> (ptr \<times> 'z ekern_scheme) option" where
  "loader_create pool list s = do {
     (l, as) \<leftarrow> mem_alloc pool (loaders s) (l_answers s);
     let s = s\<lparr>l_answers := as\<rparr>;
     Some (l, if l \<noteq> NULL then s\<lparr>loaders := (loaders s)(l \<mapsto> \<lparr>ld_pool = pool, ld_list = list, current_data = NULL\<rparr>)\<rparr> else s)
   }"

text \<open>The headers of the segments to load, in order.\<close>

function el_phdrs :: "el_ctx \<Rightarrow> u32 \<Rightarrow> ram_t \<Rightarrow> Elf_Phdr list" where
  "el_phdrs ctx i r =
     (let (ph, j) = el_findphdr ctx no_phdr PT_LOAD i r
      in if j = - 1 then [] else ph # el_phdrs ctx (j + 1) r)"
  by pat_completeness auto

termination
  by (relation "measure (\<lambda>(ctx, i, _). unat (e_phnum (ehdr ctx)) - unat i)") (auto dest: el_findphdr_next)

definition PF_X :: u32 where "PF_X = 1"
definition PF_W :: u32 where "PF_W = 2"
definition PF_R :: u32 where "PF_R = 4"

definition elf_access :: "u32 \<Rightarrow> mmu_access_t" where
  "elf_access flags =
     (if flags AND PF_X \<noteq> 0 then MMU_READ_WRITE
      else if flags AND PF_W \<noteq> 0 then MMU_READ_WRITE
      else if flags AND PF_R \<noteq> 0 then MMU_READ_ONLY
      else MMU_NO_ACCESS)"

definition elf_part :: "ptr \<Rightarrow> Elf_Phdr \<Rightarrow> u8 list \<Rightarrow> tinker_mempart_t" where
  "elf_part buffer ph name = \<lparr>mp_real = buffer + p_offset ph, mp_virt = p_vaddr ph, mp_size = p_memsz ph,
     mp_mem_type = MMU_RANDOM_ACCESS_MEMORY, mp_priv = MMU_ALL_ACCESS, mp_access = elf_access (p_flags ph), mp_name = name,
     mp_next = NULL\<rparr>"

definition part_upd :: "ptr \<Rightarrow> (tinker_mempart_t \<Rightarrow> tinker_mempart_t) \<Rightarrow> 'z lkern_scheme \<Rightarrow> 'z lkern_scheme option" where
  "part_upd p f s = do { h \<leftarrow> store p f (memparts s); Some (s\<lparr>memparts := h\<rparr>) }"

text \<open>The chain of parts: its first and its last element.  A part that cannot be allocated is left out.\<close>

primrec load_parts :: "ptr \<Rightarrow> ptr \<Rightarrow> Elf_Phdr list \<Rightarrow> ptr \<Rightarrow> ptr \<Rightarrow> 'z lkern_scheme \<Rightarrow> (ptr \<times> 'z lkern_scheme) option" where
  "load_parts pool buffer [] first current s = Some (first, s)"
| "load_parts pool buffer (ph # phs) first current s = do {
     (new, as) \<leftarrow> mem_alloc pool (memparts s) (l_answers s);
     let s = s\<lparr>l_answers := as\<rparr>;
     if new = NULL then load_parts pool buffer phs first current s
     else do {
       s \<leftarrow> (if current \<noteq> NULL then part_upd current (\<lambda>p. p\<lparr>mp_next := new\<rparr>) s else Some s);
       name \<leftarrow> util_strcpy (replicate 33 0) (c_string ''ELF'') 32;
       load_parts pool buffer phs (if first = NULL then new else first) new
         (s\<lparr>memparts := (memparts s)(new \<mapsto> elf_part buffer ph name)\<rparr>)
     }
   }"

partial_function (option) free_parts :: "ptr \<Rightarrow> ptr \<Rightarrow> 'z lkern_scheme \<Rightarrow> 'z lkern_scheme option" where
  "free_parts pool part s =
     (if part = NULL then Some s
      else do {
        p \<leftarrow> memparts s part;
        h \<leftarrow> mem_free pool part (memparts s);
        free_parts pool (mp_next p) (s\<lparr>memparts := h\<rparr>)
      })"

definition new_ctx :: "ptr \<Rightarrow> ram_t \<Rightarrow> el_ctx" where
  "new_ctx data r = \<lparr>el_data = data, base_load_paddr = 0, base_load_vaddr = 0, el_memsz = 0, el_align = 0, ehdr = get_ehdr data r,
     dynoff = 0, dynsize = 0\<rparr>"

definition load_elf ::
  "code_addrs \<Rightarrow> ptr \<Rightarrow> ptr \<Rightarrow> u8 list option \<Rightarrow> u8 \<Rightarrow> u32 \<Rightarrow> 'z ekern_scheme \<Rightarrow> (return_t \<times> 'z ekern_scheme) option" where
  "load_elf c loader data img pri flags s = do {
     l \<leftarrow> loaders s loader;
     let s = s\<lparr>loaders := (loaders s)(loader \<mapsto> l\<lparr>current_data := data\<rparr>)\<rparr>;
     let (status, ctx) = el_init (new_ctx data (ram s)) (ram s);
     if status \<noteq> EL_OK then Some (INVALID_ELF, s)
     else do {
       (buffer, as) \<leftarrow> mem_alloc_aligned (ld_pool l) (unat (el_align ctx)) (blocks s) (b_answers s);
       let s = s\<lparr>b_answers := as\<rparr>;
       if buffer = NULL then Some (OUT_OF_MEMORY, s)
       else do {
         let s = s\<lparr>blocks := (blocks s)(buffer \<mapsto> el_memsz ctx)\<rparr>;
         let ctx = ctx\<lparr>base_load_paddr := buffer, base_load_vaddr := buffer\<rparr>;
         let (status, r) = el_load ctx (ram s);
         let s = s\<lparr>ram := r\<rparr>;
         if status \<noteq> EL_OK then Some (INVALID_ELF, s)
         else do {
           (first, s) \<leftarrow> load_parts (ld_pool l) buffer (el_phdrs ctx 0 (ram s)) NULL NULL s;
           if first = NULL then Some (INVALID_ELF, s)
           else do {
             (ret, _, s) \<leftarrow> proc_create_process c (ld_list l) img (c_string ''main'') (e_entry (ehdr ctx)) pri
                \<lparr>heap_size = 4096 * 4, stack_size = 4096, first_part = first\<rparr> flags s;
             s \<leftarrow> free_parts (ld_pool l) first s;
             Some (ret, s)
           }
         }
       }
     }
   }"

end
