(* ===== verification/Syscall.thy ===== *)
theory Syscall
  imports Loader
begin

section \<open>System calls (\<open>syscall_handler.c\<close>)\<close>

text \<open>
  A system call finds its number and its parameters in the registers of the context, translates
  the pointers among them with the sections of the calling process, and runs the operation of the object concerned.  Afterwards
  the result is put into the context, and another thread is chosen when the caller does not run any more.  The names in the memory of
  the caller are read when the call starts.
\<close>

subsection \<open>State\<close>

record syscall_handler_t =
  sh_process_list :: ptr
  sh_reg :: ptr
  sh_scheduler :: ptr
  sh_time_manager :: ptr
  sh_alarm_manager :: ptr
  sh_loader :: ptr

text \<open>Calls of the console and of the processor.\<close>

datatype board_call = Print_Out ptr u32 | Wait_For_Interrupt

record ykern = ekern +
  handlers :: "syscall_handler_t pheap"
  board :: "board_call list"

subsection \<open>Numbers\<close>

datatype syscall_function_t =
    SYSCALL_UNKNOWN | SYSCALL_TEST | SYSCALL_CREATE_PROCESS | SYSCALL_CREATE_THREAD | SYSCALL_THREAD_PRIORITY
  | SYSCALL_THREAD_OBJECT | SYSCALL_EXIT_THREAD | SYSCALL_CREATE_SEMAPHORE | SYSCALL_OPEN_SEMAPHORE
  | SYSCALL_GET_SEMAPHORE | SYSCALL_RELEASE_SEMAPHORE | SYSCALL_CLOSE_SEMAPHORE | SYSCALL_CREATE_PIPE
  | SYSCALL_DELETE_PIPE | SYSCALL_OPEN_PIPE | SYSCALL_CLOSE_PIPE | SYSCALL_SEND_MESSAGE | SYSCALL_RECEIVE_MESSAGE
  | SYSCALL_RECEIVED_MESSAGE_NOT_USED | SYSCALL_CREATE_SHM | SYSCALL_OPEN_SHM | SYSCALL_DESTROY_SHM
  | SYSCALL_GET_TIME | SYSCALL_SLEEP | SYSCALL_CREATE_TIMER | SYSCALL_CANCEL_TIMER | SYSCALL_DELETE_TIMER
  | SYSCALL_DEBUG | SYSCALL_LOAD_THREAD | SYSCALL_WFI | SYSCALL_WAIT_THREAD | SYSCALL_MMAP | SYSCALL_SBRK
  | SYSCALL_LOAD_ELF | SYSCALL_GET_PID | MAX_SYSCALL

definition syscall_functions :: "syscall_function_t list" where
  "syscall_functions =
    [SYSCALL_UNKNOWN, SYSCALL_TEST, SYSCALL_CREATE_PROCESS, SYSCALL_CREATE_THREAD, SYSCALL_THREAD_PRIORITY,
     SYSCALL_THREAD_OBJECT, SYSCALL_EXIT_THREAD, SYSCALL_CREATE_SEMAPHORE, SYSCALL_OPEN_SEMAPHORE,
     SYSCALL_GET_SEMAPHORE, SYSCALL_RELEASE_SEMAPHORE, SYSCALL_CLOSE_SEMAPHORE, SYSCALL_CREATE_PIPE,
     SYSCALL_DELETE_PIPE, SYSCALL_OPEN_PIPE, SYSCALL_CLOSE_PIPE, SYSCALL_SEND_MESSAGE, SYSCALL_RECEIVE_MESSAGE,
     SYSCALL_RECEIVED_MESSAGE_NOT_USED, SYSCALL_CREATE_SHM, SYSCALL_OPEN_SHM, SYSCALL_DESTROY_SHM,
     SYSCALL_GET_TIME, SYSCALL_SLEEP, SYSCALL_CREATE_TIMER, SYSCALL_CANCEL_TIMER, SYSCALL_DELETE_TIMER,
     SYSCALL_DEBUG, SYSCALL_LOAD_THREAD, SYSCALL_WFI, SYSCALL_WAIT_THREAD, SYSCALL_MMAP, SYSCALL_SBRK,
     SYSCALL_LOAD_ELF, SYSCALL_GET_PID]"

text \<open>Every number from \<open>MAX_SYSCALL\<close> on is treated alike.\<close>

definition syscall_of :: "u32 \<Rightarrow> syscall_function_t" where
  "syscall_of n = (if unat n < length syscall_functions then syscall_functions ! unat n else MAX_SYSCALL)"

definition return_codes :: "return_t list" where
  "return_codes =
    [UNKNOWN_ERROR, NO_ERROR, OUT_OF_MEMORY, SIZE_TOO_SMALL, BLOCKED_RETRY, MEM_NOT_ALIGNED,
     PARAMETERS_NULL, PARAMETERS_INVALID, PARAMETERS_OUT_OF_RANGE, INVALID_CONTEXT,
     OBJECT_TABLE_FULL, INVALID_OBJECT, WRONG_OBJ_TYPE, OBJECT_ADD_FAILED,
     OBJECT_IN_INVALID_STATE, SEMAPHORE_EMPTY, TIMER_CALLBACK_MISSING, SHM_WRONG_SIZE, ALARM_ID_UNKNOWN, UNKNOWN_PIPE,
     PIPE_FULL, PIPE_POLARITY_WRONG, PIPE_RECEIVERS_FULL, PIPE_EMPTY,
     ALARM_ALREADY_CANCELLED, DEVICE_ID_INVALID, DEVICE_USER_DATA_INVALID, DEVICE_REGISTER_INVALID, DEVICE_READ_BAD_ADDRESS,
     DEVICE_WRITE_BAD_ADDRESS, DEVICE_OPERATION_NOT_SUPPORTED,
     OBJECT_NAME_EXISTS_IN_REGISTRY, OBJECT_NOT_ADDED_TO_REGISTRY, OBJECT_NOT_IN_REGISTRY,
     OBJECT_NOT_RETRIEVED_FROM_REGISTRY, OBJECT_NOT_REMOVED_FROM_REGISTRY,
     NO_ROOT_INTERRUPT_HANDLER, UNEXPECTED_INTERRUPT, UNKNOWN_INTERRUPT_CAUSE,
     UNKNOWN_EXTERNAL_INTERRUPT_VECTOR, INTERRUPT_NO_EXT_VECTOR_SPECIFIED,
     PIPE_MESSAGE_SIZE_NOT_ALIGNED, MMAP_NOT_ALLOWED_AT_ZERO, OUT_OF_PROCESS_IDS, INVALID_ELF, ERROR_UNKNOWN_SYSCALL]"

primrec index_of :: "'a \<Rightarrow> 'a list \<Rightarrow> nat" where
  "index_of x [] = 0"
| "index_of x (y # ys) = (if x = y then 0 else Suc (index_of x ys))"

definition return_code :: "return_t \<Rightarrow> u32" where
  "return_code r = of_nat (index_of r return_codes)"

subsection \<open>Parameters\<close>

definition virtual_to_real :: "ptr \<Rightarrow> u32 \<Rightarrow> 'z kern_scheme \<Rightarrow> u32 option" where
  "virtual_to_real process address s = do {
     is_kernel \<leftarrow> process_is_kernel process (ks s);
     if is_kernel then (if address \<ge> VIRTUAL_ADDRESS_SPACE is_kernel then process_virt_to_real process address s else Some address)
     else process_virt_to_real process address s
   }"

definition param :: "ptr \<Rightarrow> u8 \<Rightarrow> 'z kern_scheme \<Rightarrow> u32 option" where
  "param context n s = tgt_get_syscall_param context n (ks s)"

definition param_ptr :: "ptr \<Rightarrow> ptr \<Rightarrow> u8 \<Rightarrow> 'z kern_scheme \<Rightarrow> ptr option" where
  "param_ptr context process n s = do { v \<leftarrow> param context n s; virtual_to_real process v s }"

text \<open>The string at an address; the longest one the kernel looks at has 255 characters.\<close>

definition ram_string :: "ptr \<Rightarrow> ram_t \<Rightarrow> u8 list option" where
  "ram_string p r = (if p = NULL then None else Some (map (\<lambda>i. r (p + of_nat i)) [0..<257]))"

definition param_name :: "ptr \<Rightarrow> ptr \<Rightarrow> u8 \<Rightarrow> 'z pkern_scheme \<Rightarrow> u8 list option option" where
  "param_name context process n s = do { p \<leftarrow> param_ptr context process n s; Some (ram_string p (ram s)) }"


subsection \<open>Processes and threads\<close>

definition syscall_get_thread_oid :: "ptr \<Rightarrow> 'z kern_scheme \<Rightarrow> object_number_t option" where
  "syscall_get_thread_oid t s = thread_get_object_no t (ks s)"

definition syscall_get_thread_object :: "ptr \<Rightarrow> ptr \<Rightarrow> 'z kern_scheme \<Rightarrow> ptr option" where
  "syscall_get_thread_object process t s = do {
     table \<leftarrow> process_get_object_table process (ks s);
     oid \<leftarrow> syscall_get_thread_oid t s;
     obj_get_object table oid (oh s)
   }"

definition syscall_delete_object :: "ptr \<Rightarrow> object_number_t \<Rightarrow> 'z kern_scheme \<Rightarrow> (return_t \<times> 'z kern_scheme) option" where
  "syscall_delete_object process objno s = do {
     table \<leftarrow> process_get_object_table process (ks s);
     (r, h) \<leftarrow> obj_remove_object table objno (oh s);
     Some (r, s\<lparr>oh := h\<rparr>)
   }"

definition syscall_tst :: "ptr \<Rightarrow> 'z kern_scheme \<Rightarrow> return_t option" where
  "syscall_tst context s = do {
     a \<leftarrow> param context 1 s; b \<leftarrow> param context 2 s; c \<leftarrow> param context 3 s; d \<leftarrow> param context 4 s;
     e \<leftarrow> param context 5 s; f \<leftarrow> param context 6 s; g \<leftarrow> param context 7 s;
     if [a, b, c, d, e, f, g] \<noteq> [0x11111111, 0x22222222, 0x33333333, 0x44444444, 0x55555555, 0x66666666, 0x77777777]
     then None else Some NO_ERROR
   }"

text \<open>The object number of the process is read through a null pointer when the process could not be created.\<close>

definition syscall_create_process :: "code_addrs \<Rightarrow> syscall_handler_t \<Rightarrow> ptr \<Rightarrow> ptr \<Rightarrow> 'z ykern_scheme \<Rightarrow> (return_t \<times> 'z ykern_scheme) option" where
  "syscall_create_process c h context parent s = do {
     img \<leftarrow> param_name context parent 1 s;
     entry \<leftarrow> param_ptr context parent 2 s;
     pri \<leftarrow> param context 3 s;
     mi \<leftarrow> param_ptr context parent 4 s;
     meminfo \<leftarrow> meminfos s mi;
     flags \<leftarrow> param context 5 s;
     (ret, proc, s) \<leftarrow> proc_create_process c (sh_process_list h) img (c_string ''main'') entry (ucast pri) meminfo flags s;
     out \<leftarrow> param_ptr context parent 6 s;
     oid \<leftarrow> process_get_oid proc (ks s);
     s \<leftarrow> out16 out oid s;
     Some (ret, s)
   }"

definition syscall_create_thread :: "code_addrs \<Rightarrow> ptr \<Rightarrow> ptr \<Rightarrow> 'z ykern_scheme \<Rightarrow> (return_t \<times> 'z ykern_scheme) option" where
  "syscall_create_thread c context process s = do {
     name \<leftarrow> param_name context process 1 s;
     entry \<leftarrow> param_ptr context process 2 s;
     pri \<leftarrow> param context 3 s;
     stack \<leftarrow> param context 4 s;
     flags \<leftarrow> param context 5 s;
     (ret, _, t, s) \<leftarrow> proc_create_thread (a_bootstrap c) (a_thread_end c) process name entry (ucast pri) stack flags s;
     out \<leftarrow> param_ptr context process 6 s;
     oid \<leftarrow> thread_get_object_no t (ks s);
     s \<leftarrow> out16 out oid s;
     Some (ret, s)
   }"

text \<open>A privilege that is no element of the enumeration makes the code read behind the table of access bits.\<close>

definition mmu_memory_of :: "u32 \<Rightarrow> mmu_memory_t" where
  "mmu_memory_of n = (if n = 1 then MMU_RANDOM_ACCESS_MEMORY else MMU_DEVICE_MEMORY)"

definition mmu_privilege_of :: "u32 \<Rightarrow> mmu_privilege_t option" where
  "mmu_privilege_of n = at [MMU_NO_PRIVILEGE, MMU_USER_ACCESS, MMU_KERNEL_ACCESS, MMU_ALL_ACCESS] (unat n)"

definition syscall_mmap :: "ptr \<Rightarrow> ptr \<Rightarrow> 'z ykern_scheme \<Rightarrow> (return_t \<times> 'z ykern_scheme) option" where
  "syscall_mmap context process s = do {
     real \<leftarrow> param_ptr context process 1 s;
     (ret, virtual, s) \<leftarrow>
       (if real = 0 then Some (MMAP_NOT_ALLOWED_AT_ZERO, 0, s)
        else do {
          sz \<leftarrow> param context 2 s;
          type \<leftarrow> param context 3 s;
          p \<leftarrow> param context 4 s;
          priv \<leftarrow> mmu_privilege_of p;
          process_allocate_vmem process real sz (mmu_memory_of type) priv MMU_READ_WRITE (c_string ''MMAP'') s
        });
     out \<leftarrow> param_ptr context process 5 s;
     s \<leftarrow> out32 out virtual s;
     Some (ret, s)
   }"

text \<open>
  \<open>mem_realloc\<close> of \<open>mem_pool.c\<close>: the block is resized where it is or moved to the next block the allocator
  answers with, and keeps its contents; when there is none it stays as it is.
\<close>

definition mem_realloc :: "ptr \<Rightarrow> ptr \<Rightarrow> u32 \<Rightarrow> 'z pkern_scheme \<Rightarrow> (ptr \<times> 'z pkern_scheme) option" where
  "mem_realloc pool mem sz s =
     (if pool = NULL \<or> mem \<noteq> NULL \<and> blocks s mem = None then None
      else let a = (case b_answers s of [] \<Rightarrow> NULL | a # _ \<Rightarrow> if a = mem \<or> blocks s a = None then a else NULL);
               s = s\<lparr>b_answers := tl (b_answers s)\<rparr>
      in if a = NULL then Some (NULL, s)
         else let n = (case blocks s mem of None \<Rightarrow> 0 | Some old \<Rightarrow> min (unat old) (unat sz))
         in Some (a, s\<lparr>blocks := (blocks s)(mem := None, a \<mapsto> sz),
                      ram := (if a = mem then ram s else ram_copy n a mem (ram s))\<rparr>))"

definition syscall_sbrk :: "ptr \<Rightarrow> ptr \<Rightarrow> 'z ykern_scheme \<Rightarrow> (return_t \<times> 'z ykern_scheme) option" where
  "syscall_sbrk context t s = do {
     process \<leftarrow> thread_get_parent t (ks s);
     base \<leftarrow> param_ptr context process 1 s;
     _ \<leftarrow> (if base = NULL then None else Some ());
     sz \<leftarrow> param context 2 s;
     pool \<leftarrow> process_get_user_mem_pool process (ks s);
     (m, s) \<leftarrow> mem_realloc pool (ram_get32 base (ram s)) sz s;
     s \<leftarrow> out32 base m s;
     Some (if m \<noteq> NULL then NO_ERROR else OUT_OF_MEMORY, s)
   }"

definition syscall_debug :: "ptr \<Rightarrow> ptr \<Rightarrow> 'z ykern_scheme \<Rightarrow> (return_t \<times> 'z ykern_scheme) option" where
  "syscall_debug context t s = do {
     process \<leftarrow> thread_get_parent t (ks s);
     msg \<leftarrow> param_ptr context process 1 s;
     n \<leftarrow> param context 2 s;
     Some (NO_ERROR, if msg \<noteq> NULL then s\<lparr>board := board s @ [Print_Out msg n]\<rparr> else s)
   }"

definition syscall_thread_priority :: "ptr \<Rightarrow> ptr \<Rightarrow> 'z ykern_scheme \<Rightarrow> (return_t \<times> 'z ykern_scheme) option" where
  "syscall_thread_priority context t s = do {
     process \<leftarrow> thread_get_parent t (ks s);
     n \<leftarrow> param context 1 s;
     let thread_no = (ucast n :: object_number_t);
     out \<leftarrow> param_ptr context process 2 s;
     if thread_no \<noteq> 0 \<and> out \<noteq> NULL then do {
       table \<leftarrow> process_get_object_table process (ks s);
       obj \<leftarrow> obj_get_object table thread_no (oh s);
       tobj \<leftarrow> obj_cast_thread obj s;
       if tobj \<noteq> NULL then do {
         (ret, p) \<leftarrow> obj_get_thread_priority tobj True s;
         Some (ret, case p of None \<Rightarrow> s | Some p \<Rightarrow> s\<lparr>ram := (ram s)(out := p)\<rparr>)
       }
       else Some (INVALID_OBJECT, s)
     }
     else Some (INVALID_OBJECT, s)
   }"

definition syscall_get_thread_id :: "ptr \<Rightarrow> ptr \<Rightarrow> 'z ykern_scheme \<Rightarrow> (return_t \<times> 'z ykern_scheme) option" where
  "syscall_get_thread_id context t s = do {
     objno \<leftarrow> syscall_get_thread_oid t s;
     process \<leftarrow> thread_get_parent t (ks s);
     out \<leftarrow> param_ptr context process 1 s;
     s \<leftarrow> (if out \<noteq> NULL then out16 out objno s else Some s);
     Some (NO_ERROR, s)
   }"

definition syscall_exit_thread :: "ptr \<Rightarrow> 'z ykern_scheme \<Rightarrow> (return_t \<times> 'z ykern_scheme) option" where
  "syscall_exit_thread t s = do {
     parent \<leftarrow> thread_get_parent t (ks s);
     table \<leftarrow> process_get_object_table parent (ks s);
     oid \<leftarrow> syscall_get_thread_oid t s;
     obj \<leftarrow> obj_get_object table oid (oh s);
     tobj \<leftarrow> obj_cast_thread obj s;
     if tobj = NULL then Some (INVALID_OBJECT, s)
     else do {
       poid \<leftarrow> process_get_oid parent (ks s);
       obj \<leftarrow> obj_get_object table poid (oh s);
       pobj \<leftarrow> obj_cast_process obj s;
       if pobj = NULL then Some (INVALID_OBJECT, s) else obj_process_thread_exit pobj tobj s
     }
   }"

definition syscall_wait_thread :: "syscall_handler_t \<Rightarrow> ptr \<Rightarrow> 'z ykern_scheme \<Rightarrow> (return_t \<times> 'z ykern_scheme) option" where
  "syscall_wait_thread h t s = do {
     s \<leftarrow> on_ks (thread_set_state t THREAD_WAITING) s;
     s \<leftarrow> on_ks (sch_notify_pause_thread (sh_scheduler h) t) s;
     Some (NO_ERROR, s)
   }"

definition syscall_load_thread :: "ptr \<Rightarrow> ptr \<Rightarrow> 'z ykern_scheme \<Rightarrow> (return_t \<times> 'z ykern_scheme) option" where
  "syscall_load_thread context t s = do { s \<leftarrow> on_ks (tgt_prepare_context context t NULL) s; Some (NO_ERROR, s) }"

definition syscall_load_elf :: "code_addrs \<Rightarrow> syscall_handler_t \<Rightarrow> ptr \<Rightarrow> ptr \<Rightarrow> 'z ykern_scheme \<Rightarrow> (return_t \<times> 'z ykern_scheme) option" where
  "syscall_load_elf c h context t s = do {
     process \<leftarrow> thread_get_parent t (ks s);
     data \<leftarrow> param_ptr context process 1 s;
     img \<leftarrow> param_name context process 2 s;
     pri \<leftarrow> param context 3 s;
     flags \<leftarrow> param context 4 s;
     load_elf c (sh_loader h) data img (ucast pri) flags s
   }"

definition syscall_get_pid :: "ptr \<Rightarrow> ptr \<Rightarrow> 'z ykern_scheme \<Rightarrow> (return_t \<times> 'z ykern_scheme) option" where
  "syscall_get_pid context t s = do {
     process \<leftarrow> thread_get_parent t (ks s);
     out \<leftarrow> param_ptr context process 1 s;
     pid \<leftarrow> process_get_pid process (ks s);
     s \<leftarrow> out32 out pid s;
     Some (NO_ERROR, s)
   }"

end
