(* ===== verification/Syscall_Handler.thy ===== *)
theory Syscall_Handler
  imports Syscall
begin

section \<open>System calls on objects, and the dispatcher (\<open>syscall_handler.c\<close>)\<close>

text \<open>
  The system calls that create and use semaphores, pipes, shared memory and timers, and
  \<open>syscall_handle_system_call\<close>, which runs one of them.
\<close>

subsection \<open>Semaphores\<close>

text \<open>The number of the first parameter, and the object of the calling process with that number.\<close>

definition syscall_object :: "ptr \<Rightarrow> ptr \<Rightarrow> 'z kern_scheme \<Rightarrow> (object_number_t \<times> ptr) option" where
  "syscall_object context process s = do {
     n \<leftarrow> param context 1 s;
     table \<leftarrow> process_get_object_table process (ks s);
     obj \<leftarrow> obj_get_object table (ucast n) (oh s);
     Some (ucast n, obj)
   }"

definition syscall_get_sema_obj :: "ptr \<Rightarrow> object_number_t \<Rightarrow> 'z skern_scheme \<Rightarrow> ptr option" where
  "syscall_get_sema_obj process objno s = do {
     table \<leftarrow> process_get_object_table process (ks s);
     obj \<leftarrow> obj_get_object table objno (oh s);
     obj_cast_semaphore obj s
   }"

text \<open>The number of a new object is written through the pointer of the caller.\<close>

definition out_objno :: "ptr \<Rightarrow> (return_t \<times> object_number_t option \<times> 'z pkern_scheme) \<Rightarrow> (return_t \<times> 'z pkern_scheme) option" where
  "out_objno out res = (case res of
     (ret, None, s) \<Rightarrow> Some (ret, s)
   | (ret, Some i, s) \<Rightarrow> do { s \<leftarrow> out16 out i s; Some (ret, s) })"

definition syscall_create_sema :: "syscall_handler_t \<Rightarrow> ptr \<Rightarrow> ptr \<Rightarrow> 'z ykern_scheme \<Rightarrow> (return_t \<times> 'z ykern_scheme) option" where
  "syscall_create_sema h context t s = do {
     proc \<leftarrow> thread_get_parent t (ks s);
     out \<leftarrow> param_ptr context proc 1 s;
     if out = NULL then Some (PARAMETERS_INVALID, s)
     else do {
       name \<leftarrow> param_name context proc 2 s;
       count \<leftarrow> param context 3 s;
       res \<leftarrow> obj_create_semaphore (sh_reg h) proc name count s;
       out_objno out res
     }
   }"

definition syscall_open_sema :: "syscall_handler_t \<Rightarrow> ptr \<Rightarrow> ptr \<Rightarrow> 'z ykern_scheme \<Rightarrow> (return_t \<times> 'z ykern_scheme) option" where
  "syscall_open_sema h context t s = do {
     proc \<leftarrow> thread_get_parent t (ks s);
     out \<leftarrow> param_ptr context proc 1 s;
     name \<leftarrow> param_name context proc 2 s;
     if out = NULL then Some (PARAMETERS_NULL, s)
     else do {
       res \<leftarrow> obj_open_semaphore (sh_reg h) proc name s;
       out_objno out res
     }
   }"

definition syscall_get_sema :: "ptr \<Rightarrow> ptr \<Rightarrow> 'z ykern_scheme \<Rightarrow> (return_t \<times> 'z ykern_scheme) option" where
  "syscall_get_sema context t s = do {
     proc \<leftarrow> thread_get_parent t (ks s);
     tobj \<leftarrow> syscall_get_thread_object proc t s;
     n \<leftarrow> param context 1 s;
     sema \<leftarrow> syscall_get_sema_obj proc (ucast n) s;
     if sema \<noteq> NULL \<and> tobj \<noteq> NULL then obj_get_semaphore tobj sema s else Some (INVALID_OBJECT, s)
   }"

definition syscall_release_sema :: "ptr \<Rightarrow> ptr \<Rightarrow> 'z ykern_scheme \<Rightarrow> (return_t \<times> 'z ykern_scheme) option" where
  "syscall_release_sema context t s = do {
     proc \<leftarrow> thread_get_parent t (ks s);
     tobj \<leftarrow> syscall_get_thread_object proc t s;
     n \<leftarrow> param context 1 s;
     sema \<leftarrow> syscall_get_sema_obj proc (ucast n) s;
     if sema \<noteq> NULL \<and> tobj \<noteq> NULL then obj_release_semaphore tobj sema s else Some (INVALID_OBJECT, s)
   }"

definition syscall_close_sema :: "ptr \<Rightarrow> ptr \<Rightarrow> 'z ykern_scheme \<Rightarrow> (return_t \<times> 'z ykern_scheme) option" where
  "syscall_close_sema context t s = do {
     proc \<leftarrow> thread_get_parent t (ks s);
     n \<leftarrow> param context 1 s;
     let sema_id = ucast n;
     sema \<leftarrow> syscall_get_sema_obj proc sema_id s;
     if sema \<noteq> NULL then do {
       (ret, s) \<leftarrow> object_delete_semaphore sema s;
       if ret = NO_ERROR then syscall_delete_object proc sema_id s else Some (ret, s)
     }
     else Some (INVALID_OBJECT, s)
   }"

subsection \<open>Pipes\<close>

definition pipe_direction_of :: "u32 \<Rightarrow> tinker_pipe_direction_t" where
  "pipe_direction_of n = (if n = 1 then PIPE_SEND_RECEIVE else if n = 2 then PIPE_SEND else if n = 3 then PIPE_RECEIVE
     else PIPE_DIRECTION_UNKNOWN)"

definition pipe_send_kind_of :: "u32 \<Rightarrow> tinker_pipe_send_kind_t" where
  "pipe_send_kind_of n = (if n = 0 then PIPE_TX_SEND_ALL else PIPE_TX_SEND_AVAILABLE)"

definition syscall_create_pipe :: "syscall_handler_t \<Rightarrow> ptr \<Rightarrow> ptr \<Rightarrow> 'z ykern_scheme \<Rightarrow> (return_t \<times> 'z ykern_scheme) option" where
  "syscall_create_pipe h context t s = do {
     proc \<leftarrow> thread_get_parent t (ks s);
     out \<leftarrow> param_ptr context proc 1 s;
     name \<leftarrow> param_name context proc 2 s;
     dir \<leftarrow> param context 3 s;
     sz \<leftarrow> param context 4 s;
     n \<leftarrow> param context 5 s;
     if proc = NULL \<or> out = NULL then Some (PARAMETERS_NULL, s)
     else do {
       (ret, i, s) \<leftarrow> obj_create_pipe (sh_reg h) proc name (pipe_direction_of dir) sz n s;
       out_objno out (ret, Some i, s)
     }
   }"

text \<open>The pointer for the number is tested after the registry, together with the process.\<close>

definition syscall_open_pipe :: "syscall_handler_t \<Rightarrow> ptr \<Rightarrow> ptr \<Rightarrow> 'z ykern_scheme \<Rightarrow> (return_t \<times> 'z ykern_scheme) option" where
  "syscall_open_pipe h context t s = do {
     proc \<leftarrow> thread_get_parent t (ks s);
     tobj \<leftarrow> syscall_get_thread_object proc t s;
     out \<leftarrow> param_ptr context proc 1 s;
     name \<leftarrow> param_name context proc 2 s;
     dir \<leftarrow> param context 3 s;
     sz \<leftarrow> param context 4 s;
     n \<leftarrow> param context 5 s;
     res \<leftarrow> obj_open_pipe (sh_reg h) (if out = NULL then NULL else proc) tobj name (pipe_direction_of dir) sz n s;
     out_objno out res
   }"

text \<open>Deletion and closing of a pipe are the same.\<close>

definition syscall_delete_pipe :: "ptr \<Rightarrow> ptr \<Rightarrow> 'z ykern_scheme \<Rightarrow> (return_t \<times> 'z ykern_scheme) option" where
  "syscall_delete_pipe context t s = do {
     proc \<leftarrow> thread_get_parent t (ks s);
     (oid, obj) \<leftarrow> syscall_object context proc s;
     pipe \<leftarrow> obj_cast_pipe obj s;
     (ret, s) \<leftarrow> obj_delete_pipe pipe s;
     if ret = NO_ERROR then syscall_delete_object proc oid s else Some (ret, s)
   }"

definition syscall_close_pipe :: "ptr \<Rightarrow> ptr \<Rightarrow> 'z ykern_scheme \<Rightarrow> (return_t \<times> 'z ykern_scheme) option" where
  "syscall_close_pipe context t s = do {
     proc \<leftarrow> thread_get_parent t (ks s);
     (oid, obj) \<leftarrow> syscall_object context proc s;
     pipe \<leftarrow> obj_cast_pipe obj s;
     (ret, s) \<leftarrow> obj_delete_pipe pipe s;
     if ret = NO_ERROR then syscall_delete_object proc oid s else Some (ret, s)
   }"

definition syscall_send_message :: "ptr \<Rightarrow> ptr \<Rightarrow> 'z ykern_scheme \<Rightarrow> (return_t \<times> 'z ykern_scheme) option" where
  "syscall_send_message context t s = do {
     proc \<leftarrow> thread_get_parent t (ks s);
     (_, obj) \<leftarrow> syscall_object context proc s;
     pipe \<leftarrow> obj_cast_pipe obj s;
     tobj \<leftarrow> syscall_get_thread_object proc t s;
     kind \<leftarrow> param context 2 s;
     msg \<leftarrow> param_ptr context proc 3 s;
     n \<leftarrow> param context 4 s;
     block \<leftarrow> param context 5 s;
     obj_pipe_send_message pipe tobj (pipe_send_kind_of kind) msg n (block \<noteq> 0) s
   }"

definition syscall_receive_message :: "ptr \<Rightarrow> ptr \<Rightarrow> 'z ykern_scheme \<Rightarrow> (return_t \<times> 'z ykern_scheme) option" where
  "syscall_receive_message context t s = do {
     proc \<leftarrow> thread_get_parent t (ks s);
     (_, obj) \<leftarrow> syscall_object context proc s;
     pipe \<leftarrow> obj_cast_pipe obj s;
     msg \<leftarrow> param_ptr context proc 2 s;
     msg_size \<leftarrow> param_ptr context proc 3 s;
     max_size \<leftarrow> param context 4 s;
     tobj \<leftarrow> syscall_get_thread_object proc t s;
     block \<leftarrow> param context 5 s;
     obj_pipe_receive_message pipe tobj msg msg_size max_size (block \<noteq> 0) s
   }"

subsection \<open>Shared memory and timers\<close>

definition syscall_create_shm :: "syscall_handler_t \<Rightarrow> ptr \<Rightarrow> ptr \<Rightarrow> 'z ykern_scheme \<Rightarrow> (return_t \<times> 'z ykern_scheme) option" where
  "syscall_create_shm h context t s = do {
     proc \<leftarrow> thread_get_parent t (ks s);
     out \<leftarrow> param_ptr context proc 1 s;
     name \<leftarrow> param_name context proc 2 s;
     sz \<leftarrow> param context 3 s;
     address \<leftarrow> param_ptr context proc 4 s;
     obj_create_shm (sh_reg h) proc out name sz address s
   }"

definition syscall_open_shm :: "syscall_handler_t \<Rightarrow> ptr \<Rightarrow> ptr \<Rightarrow> 'z ykern_scheme \<Rightarrow> (return_t \<times> 'z ykern_scheme) option" where
  "syscall_open_shm h context t s = do {
     proc \<leftarrow> thread_get_parent t (ks s);
     out \<leftarrow> param_ptr context proc 1 s;
     name \<leftarrow> param_name context proc 2 s;
     sz \<leftarrow> param context 3 s;
     address \<leftarrow> param_ptr context proc 4 s;
     obj_open_shm (sh_reg h) proc out name sz address s
   }"

definition syscall_destroy_shm :: "ptr \<Rightarrow> ptr \<Rightarrow> 'z ykern_scheme \<Rightarrow> (return_t \<times> 'z ykern_scheme) option" where
  "syscall_destroy_shm context t s = do {
     proc \<leftarrow> thread_get_parent t (ks s);
     (oid, obj) \<leftarrow> syscall_object context proc s;
     shm \<leftarrow> obj_cast_shm obj s;
     (ret, s) \<leftarrow> obj_delete_shm shm s;
     if ret = NO_ERROR then syscall_delete_object proc oid s else Some (ret, s)
   }"

definition syscall_create_timer :: "code_addrs \<Rightarrow> syscall_handler_t \<Rightarrow> ptr \<Rightarrow> ptr \<Rightarrow> 'z ykern_scheme \<Rightarrow> (return_t \<times> 'z ykern_scheme) option" where
  "syscall_create_timer c h context t s = do {
     proc \<leftarrow> thread_get_parent t (ks s);
     out \<leftarrow> param_ptr context proc 1 s;
     pri \<leftarrow> param context 2 s;
     secs \<leftarrow> param context 3 s;
     nsecs \<leftarrow> param context 4 s;
     callback \<leftarrow> param_ptr context proc 5 s;
     parameter \<leftarrow> param_ptr context proc 6 s;
     obj_create_timer c (sh_scheduler h) (sh_alarm_manager h) proc out (ucast pri) secs nsecs callback parameter s
   }"

definition syscall_cancel_timer :: "ptr \<Rightarrow> ptr \<Rightarrow> 'z ykern_scheme \<Rightarrow> (return_t \<times> 'z ykern_scheme) option" where
  "syscall_cancel_timer context t s = do {
     proc \<leftarrow> thread_get_parent t (ks s);
     (_, obj) \<leftarrow> syscall_object context proc s;
     timer \<leftarrow> obj_cast_timer obj s;
     obj_cancel_timer timer s
   }"

definition syscall_delete_timer :: "ptr \<Rightarrow> ptr \<Rightarrow> 'z ykern_scheme \<Rightarrow> (return_t \<times> 'z ykern_scheme) option" where
  "syscall_delete_timer context t s = do {
     proc \<leftarrow> thread_get_parent t (ks s);
     (oid, obj) \<leftarrow> syscall_object context proc s;
     timer \<leftarrow> obj_cast_timer obj s;
     (ret, s) \<leftarrow> obj_delete_timer timer s;
     if ret = NO_ERROR then syscall_delete_object proc oid s else Some (ret, s)
   }"

definition get_time :: "ptr \<Rightarrow> ram_t \<Rightarrow> tinker_time_t" where
  "get_time p r = \<lparr>seconds = ram_get32 p r, nanoseconds = ram_get32 (p + 4) r\<rparr>"

definition put_time :: "ptr \<Rightarrow> tinker_time_t \<Rightarrow> ram_t \<Rightarrow> ram_t" where
  "put_time p x r = ram_put32 (p + 4) (nanoseconds x) (ram_put32 p (seconds x) r)"

definition syscall_get_time :: "syscall_handler_t \<Rightarrow> ptr \<Rightarrow> ptr \<Rightarrow> 'z ykern_scheme \<Rightarrow> (return_t \<times> 'z ykern_scheme) option" where
  "syscall_get_time h context t s = do {
     proc \<leftarrow> thread_get_parent t (ks s);
     p \<leftarrow> param_ptr context proc 1 s;
     if p = NULL then Some (PARAMETERS_NULL, s)
     else do {
       x \<leftarrow> time_get_system_time (sh_time_manager h) (get_time p (ram s)) (ah s);
       Some (NO_ERROR, s\<lparr>ram := put_time p x (ram s)\<rparr>)
     }
   }"

definition syscall_sleep :: "code_addrs \<Rightarrow> ptr \<Rightarrow> ptr \<Rightarrow> 'z ykern_scheme \<Rightarrow> (return_t \<times> 'z ykern_scheme) option" where
  "syscall_sleep c context t s = do {
     proc \<leftarrow> thread_get_parent t (ks s);
     p \<leftarrow> param_ptr context proc 1 s;
     tobj \<leftarrow> syscall_get_thread_object proc t s;
     obj_thread_sleep (a_sleep_callback c) tobj (if p = NULL then None else Some (get_time p (ram s))) s
   }"

definition syscall_wfi :: "'z ykern_scheme \<Rightarrow> (return_t \<times> 'z ykern_scheme) option" where
  "syscall_wfi s = Some (NO_ERROR, s\<lparr>board := board s @ [Wait_For_Interrupt]\<rparr>)"

subsection \<open>The dispatcher\<close>

definition create_handler ::
  "ptr \<Rightarrow> ptr \<Rightarrow> ptr \<Rightarrow> ptr \<Rightarrow> ptr \<Rightarrow> ptr \<Rightarrow> ptr \<Rightarrow> 'z ykern_scheme \<Rightarrow> (ptr \<times> 'z ykern_scheme) option" where
  "create_handler pool proc_list reg scheduler tm am loader s = do {
     (h, as) \<leftarrow> mem_alloc pool (handlers s) (l_answers s);
     let s = s\<lparr>l_answers := as\<rparr>;
     Some (h, if h \<noteq> NULL then s\<lparr>handlers := (handlers s)(h \<mapsto> \<lparr>sh_process_list = proc_list, sh_reg = reg,
       sh_scheduler = scheduler, sh_time_manager = tm, sh_alarm_manager = am, sh_loader = loader\<rparr>)\<rparr> else s)
   }"

definition syscall_dispatch ::
  "code_addrs \<Rightarrow> syscall_handler_t \<Rightarrow> syscall_function_t \<Rightarrow> ptr \<Rightarrow> ptr \<Rightarrow> 'z ykern_scheme \<Rightarrow> (return_t \<times> 'z ykern_scheme) option" where
  "syscall_dispatch c h api context t s =
     (case api of
        SYSCALL_TEST \<Rightarrow> do { ret \<leftarrow> syscall_tst context s; Some (ret, s) }
      | SYSCALL_CREATE_PROCESS \<Rightarrow> do { p \<leftarrow> thread_get_parent t (ks s); syscall_create_process c h context p s }
      | SYSCALL_CREATE_THREAD \<Rightarrow> do { p \<leftarrow> thread_get_parent t (ks s); syscall_create_thread c context p s }
      | SYSCALL_MMAP \<Rightarrow> do { p \<leftarrow> thread_get_parent t (ks s); syscall_mmap context p s }
      | SYSCALL_SBRK \<Rightarrow> syscall_sbrk context t s
      | SYSCALL_DEBUG \<Rightarrow> syscall_debug context t s
      | SYSCALL_THREAD_PRIORITY \<Rightarrow> syscall_thread_priority context t s
      | SYSCALL_THREAD_OBJECT \<Rightarrow> syscall_get_thread_id context t s
      | SYSCALL_EXIT_THREAD \<Rightarrow> syscall_exit_thread t s
      | SYSCALL_WAIT_THREAD \<Rightarrow> syscall_wait_thread h t s
      | SYSCALL_CREATE_SEMAPHORE \<Rightarrow> syscall_create_sema h context t s
      | SYSCALL_OPEN_SEMAPHORE \<Rightarrow> syscall_open_sema h context t s
      | SYSCALL_GET_SEMAPHORE \<Rightarrow> syscall_get_sema context t s
      | SYSCALL_RELEASE_SEMAPHORE \<Rightarrow> syscall_release_sema context t s
      | SYSCALL_CLOSE_SEMAPHORE \<Rightarrow> syscall_close_sema context t s
      | SYSCALL_CREATE_PIPE \<Rightarrow> syscall_create_pipe h context t s
      | SYSCALL_DELETE_PIPE \<Rightarrow> syscall_delete_pipe context t s
      | SYSCALL_OPEN_PIPE \<Rightarrow> syscall_open_pipe h context t s
      | SYSCALL_CLOSE_PIPE \<Rightarrow> syscall_close_pipe context t s
      | SYSCALL_SEND_MESSAGE \<Rightarrow> syscall_send_message context t s
      | SYSCALL_RECEIVE_MESSAGE \<Rightarrow> syscall_receive_message context t s
      | SYSCALL_CREATE_SHM \<Rightarrow> syscall_create_shm h context t s
      | SYSCALL_OPEN_SHM \<Rightarrow> syscall_open_shm h context t s
      | SYSCALL_DESTROY_SHM \<Rightarrow> syscall_destroy_shm context t s
      | SYSCALL_CREATE_TIMER \<Rightarrow> syscall_create_timer c h context t s
      | SYSCALL_CANCEL_TIMER \<Rightarrow> syscall_cancel_timer context t s
      | SYSCALL_DELETE_TIMER \<Rightarrow> syscall_delete_timer context t s
      | SYSCALL_GET_TIME \<Rightarrow> syscall_get_time h context t s
      | SYSCALL_SLEEP \<Rightarrow> syscall_sleep c context t s
      | SYSCALL_WFI \<Rightarrow> syscall_wfi s
      | SYSCALL_LOAD_THREAD \<Rightarrow> syscall_load_thread context t s
      | SYSCALL_LOAD_ELF \<Rightarrow> syscall_load_elf c h context t s
      | SYSCALL_GET_PID \<Rightarrow> syscall_get_pid context t s
      | _ \<Rightarrow> Some (ERROR_UNKNOWN_SYSCALL, s))"

text \<open>The end of a system call: the result, a switch of threads when the caller is not running, and the timer of the scheduler.\<close>

definition syscall_finish ::
  "syscall_handler_t \<Rightarrow> syscall_function_t \<Rightarrow> ptr \<Rightarrow> ptr \<Rightarrow> return_t \<Rightarrow> 'z kern_scheme \<Rightarrow> 'z kern_scheme option" where
  "syscall_finish h api context t ret s = do {
     state \<leftarrow> (if api = SYSCALL_EXIT_THREAD then Some THREAD_DEAD else thread_get_state t (ks s));
     let switch = (state \<noteq> THREAD_SYSTEM \<and> state \<noteq> THREAD_RUNNING);
     s \<leftarrow> (if switch then do {
             s \<leftarrow> on_ks (tgt_set_syscall_return context (return_code ret)) s;
             on_ks (sch_set_context_for_next_thread (sh_scheduler h) context state) s
           } else Some s);
     if api = SYSCALL_LOAD_THREAD \<or> api = SYSCALL_EXIT_THREAD
     then Some (s\<lparr>ks := (ks s)\<lparr>hw := hw (ks s) @ [Enable_Schedule_Timer]\<rparr>\<rparr>)
     else if \<not> switch then on_ks (tgt_set_syscall_return context (return_code ret)) s
     else Some s
   }"

definition syscall_handle_system_call :: "code_addrs \<Rightarrow> ptr \<Rightarrow> ptr \<Rightarrow> 'z ykern_scheme \<Rightarrow> 'z ykern_scheme option" where
  "syscall_handle_system_call c handler context s = do {
     h \<leftarrow> handlers s handler;
     n \<leftarrow> param context 0 s;
     t \<leftarrow> sch_get_current_thread (sh_scheduler h) (ks s);
     (ret, s) \<leftarrow> syscall_dispatch c h (syscall_of n) context t s;
     syscall_finish h (syscall_of n) context t ret s
   }"

end
