(* ===== verification/Interrupts.thy ===== *)
theory Interrupts
  imports Syscall_Handler
begin

section \<open>Interrupts (\<open>intc.c\<close>, \<open>interrupt_manager.c\<close>)\<close>

text \<open>
  A controller maps the causes of interrupts to handlers: a device, a pipe, a timer or another controller.  The functions of a driver are called
  through pointers; they are arguments of the model (\<open>drivers\<close>), each on the state of the whole kernel.  A table of handlers is
  a list of \<open>MAX_ISRS\<close> pointers, and an access behind its end is illegal.
\<close>

subsection \<open>State\<close>

datatype intc_device_type = EMPTY_DEVICE | CHILD_INTC | DEVICE_INTC | PIPE_INTC | TIMER_INTC

text \<open>The pointer is the member of the union that belongs to the type.\<close>

record intc_internal_t =
  intc_type :: intc_device_type
  intc_dev :: ptr

definition MAX_ISRS :: u32 where
  "MAX_ISRS = 256"

record intc_t =
  intc_pool :: ptr
  isrs :: "ptr list"
  kernel_intc :: ptr

record interrupt_controller_t =
  interrupt_manager_root :: ptr
  is_external :: bool
  ic_handler :: ptr
  ic_scheduler :: ptr

record ikern = ykern +
  intcs :: "intc_t pheap"
  internals :: "intc_internal_t pheap"
  int_ctls :: "interrupt_controller_t pheap"

datatype intc_detection_type = INTC_UNKNOWN_DETECT | INTC_EDGE | INTC_LEVEL

datatype intc_active_type = INTC_UNKNOWN_ACTIVE | INTC_ACTIVE_HIGH | INTC_ACTIVE_LOW

text \<open>
  The functions of an interrupt controller, with its user data already applied.  \<open>get_cause\<close> gets the value of the variable for
  the cause and returns the new one.
\<close>

record 's kernel_intc_t =
  setup_cause :: "u32 \<Rightarrow> u32 \<Rightarrow> intc_detection_type \<Rightarrow> intc_active_type \<Rightarrow> 's \<Rightarrow> 's option"
  get_cause :: "u32 \<Rightarrow> 's \<Rightarrow> (bool \<times> u32 \<times> 's) option"
  ack_cause :: "u32 \<Rightarrow> 's \<Rightarrow> 's option"
  enable_cause :: "u32 \<Rightarrow> 's \<Rightarrow> 's option"
  mask_cause :: "u32 \<Rightarrow> 's \<Rightarrow> 's option"

text \<open>
  The drivers by the addresses of their structures: the controllers, the service routines of the devices, and those of the timers, of which
  the function can be missing.  \<open>cause_var\<close> is the address of the variable with the cause on the stack of the kernel.
\<close>

record 's drivers =
  kernel_intcs :: "ptr \<Rightarrow> 's kernel_intc_t option"
  device_isr :: "ptr \<Rightarrow> (u32 \<Rightarrow> 's \<Rightarrow> (return_t \<times> 's) option) option"
  timer_isr :: "ptr \<Rightarrow> (ptr \<Rightarrow> 's \<Rightarrow> (return_t \<times> 's) option) option option"
  cause_var :: ptr

subsection \<open>Controllers\<close>

definition intc_create :: "ptr \<Rightarrow> ptr \<Rightarrow> 'z ikern_scheme \<Rightarrow> (ptr \<times> 'z ikern_scheme) option" where
  "intc_create pool device s = do {
     (i, as) \<leftarrow> mem_alloc pool (intcs s) (l_answers s);
     let s = s\<lparr>l_answers := as\<rparr>;
     Some (i, if i \<noteq> NULL then s\<lparr>intcs := (intcs s)(i \<mapsto> \<lparr>intc_pool = pool, isrs = replicate (unat MAX_ISRS) NULL,
       kernel_intc = device\<rparr>)\<rparr> else s)
   }"

fun free_isrs :: "ptr \<Rightarrow> ptr list \<Rightarrow> intc_internal_t pheap \<Rightarrow> intc_internal_t pheap option" where
  "free_isrs pool [] h = Some h"
| "free_isrs pool (p # ps) h =
     (if p \<noteq> NULL then do { h \<leftarrow> mem_free pool p h; free_isrs pool ps h } else free_isrs pool ps h)"

definition intc_delete :: "ptr \<Rightarrow> 'z ikern_scheme \<Rightarrow> 'z ikern_scheme option" where
  "intc_delete i s =
     (if i = NULL then Some s
      else do {
        x \<leftarrow> intcs s i;
        if intc_pool x = NULL then Some s
        else do {
          h \<leftarrow> free_isrs (intc_pool x) (isrs x) (internals s);
          h' \<leftarrow> mem_free (intc_pool x) i (intcs s);
          Some (s\<lparr>internals := h, intcs := h'\<rparr>)
        }
      })"

text \<open>The entry of the table; the cause \<open>MAX_ISRS\<close> is one behind the last.\<close>

definition isr_at :: "intc_t \<Rightarrow> u32 \<Rightarrow> ptr option" where
  "isr_at x cause = (if unat cause < length (isrs x) then Some (isrs x ! unat cause) else None)"

text \<open>The four operations that add a handler have the same body, with the type and the member of the union of each.\<close>

definition intc_add :: "intc_device_type \<Rightarrow> ptr \<Rightarrow> u32 \<Rightarrow> ptr \<Rightarrow> 'z ikern_scheme \<Rightarrow> 'z ikern_scheme option" where
  "intc_add kind i cause dev s = do {
     kernel_assert (\<not> cause > MAX_ISRS);
     if i = NULL then Some s
     else do {
       x \<leftarrow> intcs s i;
       (p, as) \<leftarrow> mem_alloc (intc_pool x) (internals s) (l_answers s);
       let s = s\<lparr>l_answers := as\<rparr>;
       if p = NULL then Some s
       else do {
         old \<leftarrow> isr_at x cause;
         kernel_assert (old = NULL);
         Some (s\<lparr>internals := (internals s)(p \<mapsto> \<lparr>intc_type = kind, intc_dev = dev\<rparr>),
                 intcs := (intcs s)(i \<mapsto> x\<lparr>isrs := (isrs x)[unat cause := p]\<rparr>)\<rparr>)
       }
     }
   }"

definition intc_add_child :: "ptr \<Rightarrow> u32 \<Rightarrow> ptr \<Rightarrow> 'z ikern_scheme \<Rightarrow> 'z ikern_scheme option" where
  "intc_add_child = intc_add CHILD_INTC"

definition intc_add_device :: "ptr \<Rightarrow> u32 \<Rightarrow> ptr \<Rightarrow> 'z ikern_scheme \<Rightarrow> 'z ikern_scheme option" where
  "intc_add_device = intc_add DEVICE_INTC"

definition intc_add_pipe :: "ptr \<Rightarrow> u32 \<Rightarrow> ptr \<Rightarrow> 'z ikern_scheme \<Rightarrow> 'z ikern_scheme option" where
  "intc_add_pipe = intc_add PIPE_INTC"

definition intc_add_timer :: "ptr \<Rightarrow> u32 \<Rightarrow> ptr \<Rightarrow> 'z ikern_scheme \<Rightarrow> 'z ikern_scheme option" where
  "intc_add_timer = intc_add TIMER_INTC"

text \<open>A handler that is not a controller.\<close>

definition intc_run ::
  "('z ikern_scheme) drivers \<Rightarrow> intc_internal_t \<Rightarrow> u32 \<Rightarrow> ptr \<Rightarrow> 'z ikern_scheme \<Rightarrow> (return_t \<times> 'z ikern_scheme) option" where
  "intc_run d y cause context s =
     (case intc_type y of
        DEVICE_INTC \<Rightarrow> do { f \<leftarrow> device_isr d (intc_dev y); f cause s }
      | PIPE_INTC \<Rightarrow>
          obj_pipe_send_message (intc_dev y) NULL PIPE_TX_SEND_AVAILABLE (cause_var d) 4 False
            (s\<lparr>ram := ram_put32 (cause_var d) cause (ram s)\<rparr>)
      | TIMER_INTC \<Rightarrow>
          if intc_dev y = NULL then Some (UNKNOWN_INTERRUPT_CAUSE, s)
          else do {
            f \<leftarrow> timer_isr d (intc_dev y);
            case f of None \<Rightarrow> Some (UNKNOWN_INTERRUPT_CAUSE, s) | Some f \<Rightarrow> f context s
          }
      | _ \<Rightarrow> Some (UNKNOWN_INTERRUPT_CAUSE, s))"

text \<open>Controllers in a cycle would call one another for ever.\<close>

partial_function (option) intc_handle ::
  "('z ikern_scheme) drivers \<Rightarrow> ptr \<Rightarrow> ptr \<Rightarrow> 'z ikern_scheme \<Rightarrow> (return_t \<times> 'z ikern_scheme) option" where
  "intc_handle d i context s =
     (if i = NULL then Some (NO_ROOT_INTERRUPT_HANDLER, s)
      else do {
        x \<leftarrow> intcs s i;
        k \<leftarrow> kernel_intcs d (kernel_intc x);
        (fired, cause, s) \<leftarrow> get_cause k 0 s;
        if \<not> fired then Some (UNKNOWN_INTERRUPT_CAUSE, s)
        else do {
          (ret, s) \<leftarrow>
            (if cause > MAX_ISRS then Some (UNKNOWN_INTERRUPT_CAUSE, s)
             else do {
               x \<leftarrow> intcs s i;
               p \<leftarrow> isr_at x cause;
               if p = NULL then Some (UNKNOWN_INTERRUPT_CAUSE, s)
               else do {
                 y \<leftarrow> internals s p;
                 if intc_type y = CHILD_INTC then intc_handle d (intc_dev y) context s
                 else intc_run d y cause context s
               }
             });
          x \<leftarrow> intcs s i;
          k \<leftarrow> kernel_intcs d (kernel_intc x);
          s \<leftarrow> ack_cause k cause s;
          Some (ret, s)
        }
      })"

definition intc_call ::
  "('z ikern_scheme) drivers \<Rightarrow> ptr \<Rightarrow> (('z ikern_scheme) kernel_intc_t \<Rightarrow> 'z ikern_scheme \<Rightarrow> 'z ikern_scheme option) \<Rightarrow>
     'z ikern_scheme \<Rightarrow> (return_t \<times> 'z ikern_scheme) option" where
  "intc_call d i f s =
     (if i = NULL then Some (NO_ROOT_INTERRUPT_HANDLER, s)
      else do {
        x \<leftarrow> intcs s i;
        k \<leftarrow> kernel_intcs d (kernel_intc x);
        s \<leftarrow> f k s;
        Some (NO_ERROR, s)
      })"

definition intc_setup ::
  "('z ikern_scheme) drivers \<Rightarrow> ptr \<Rightarrow> u32 \<Rightarrow> u32 \<Rightarrow> intc_detection_type \<Rightarrow> intc_active_type \<Rightarrow> 'z ikern_scheme \<Rightarrow>
     (return_t \<times> 'z ikern_scheme) option" where
  "intc_setup d i cause pri detection edge = intc_call d i (\<lambda>k. setup_cause k cause pri detection edge)"

definition intc_enable ::
  "('z ikern_scheme) drivers \<Rightarrow> ptr \<Rightarrow> u32 \<Rightarrow> 'z ikern_scheme \<Rightarrow> (return_t \<times> 'z ikern_scheme) option" where
  "intc_enable d i cause = intc_call d i (\<lambda>k. enable_cause k cause)"

definition intc_mask ::
  "('z ikern_scheme) drivers \<Rightarrow> ptr \<Rightarrow> u32 \<Rightarrow> 'z ikern_scheme \<Rightarrow> (return_t \<times> 'z ikern_scheme) option" where
  "intc_mask d i cause = intc_call d i (\<lambda>k. mask_cause k cause)"

subsection \<open>The interrupt manager\<close>

definition int_create :: "ptr \<Rightarrow> ptr \<Rightarrow> ptr \<Rightarrow> 'z ikern_scheme \<Rightarrow> (ptr \<times> 'z ikern_scheme) option" where
  "int_create pool handler scheduler s = do {
     (i, as) \<leftarrow> mem_alloc pool (int_ctls s) (l_answers s);
     let s = s\<lparr>l_answers := as\<rparr>;
     Some (i, if i \<noteq> NULL then s\<lparr>int_ctls := (int_ctls s)(i \<mapsto> \<lparr>interrupt_manager_root = NULL, is_external = False,
       ic_handler = handler, ic_scheduler = scheduler\<rparr>)\<rparr> else s)
   }"

definition int_upd :: "ptr \<Rightarrow> (interrupt_controller_t \<Rightarrow> interrupt_controller_t) \<Rightarrow> 'z ikern_scheme \<Rightarrow> 'z ikern_scheme option" where
  "int_upd i f s = do { x \<leftarrow> int_ctls s i; Some (s\<lparr>int_ctls := (int_ctls s)(i \<mapsto> f x)\<rparr>) }"

definition int_install_isr :: "ptr \<Rightarrow> ptr \<Rightarrow> 'z ikern_scheme \<Rightarrow> 'z ikern_scheme option" where
  "int_install_isr i root s = (if i = NULL then Some s else int_upd i (\<lambda>x. x\<lparr>interrupt_manager_root := root\<rparr>) s)"

text \<open>The state of the thread is read after the handler has run; the thread is the one from before.\<close>

definition int_handle_external_vector ::
  "('z ikern_scheme) drivers \<Rightarrow> ptr \<Rightarrow> ptr \<Rightarrow> 'z ikern_scheme \<Rightarrow> (return_t \<times> 'z ikern_scheme) option" where
  "int_handle_external_vector d i context s =
     (if i = NULL then Some (PARAMETERS_NULL, s)
      else do {
        s \<leftarrow> int_upd i (\<lambda>x. x\<lparr>is_external := True\<rparr>) s;
        x \<leftarrow> int_ctls s i;
        t \<leftarrow> sch_get_current_thread (ic_scheduler x) (ks s);
        (ret, s) \<leftarrow> intc_handle d (interrupt_manager_root x) context s;
        state \<leftarrow> thread_get_state t (ks s);
        s \<leftarrow> on_ks (sch_set_context_for_next_thread (ic_scheduler x) context state) s;
        s \<leftarrow> int_upd i (\<lambda>x. x\<lparr>is_external := False\<rparr>) s;
        Some (ret, s)
      })"

definition int_context_switch_interrupt :: "ptr \<Rightarrow> ptr \<Rightarrow> 'z ikern_scheme \<Rightarrow> 'z ikern_scheme option" where
  "int_context_switch_interrupt i context s =
     (if i = NULL then Some s
      else do {
        kernel_assert (context \<noteq> NULL);
        x \<leftarrow> int_ctls s i;
        t \<leftarrow> sch_get_current_thread (ic_scheduler x) (ks s);
        state \<leftarrow> thread_get_state t (ks s);
        on_ks (sch_set_context_for_next_thread (ic_scheduler x) context state) s
      })"

definition tgt_get_pc :: "ptr \<Rightarrow> kst \<Rightarrow> u32 option" where
  "tgt_get_pc context s = (if context = NULL then Some 0 else do { c \<leftarrow> contexts s context; Some (c_pc c) })"

text \<open>The name of the process, the name of the thread and the real address of the instruction are printed.\<close>

definition int_fatal_program_error_interrupt :: "ptr \<Rightarrow> ptr \<Rightarrow> 'z ikern_scheme \<Rightarrow> 'z ikern_scheme option" where
  "int_fatal_program_error_interrupt i context s = do {
     kernel_assert (context \<noteq> NULL);
     x \<leftarrow> int_ctls s i;
     t \<leftarrow> sch_get_current_thread (ic_scheduler x) (ks s);
     parent \<leftarrow> thread_get_parent t (ks s);
     _ \<leftarrow> process_get_image parent (ks s);
     pc \<leftarrow> tgt_get_pc context (ks s);
     _ \<leftarrow> virtual_to_real parent pc s;
     s \<leftarrow> on_ks (sch_terminate_current_thread (ic_scheduler x) context) s;
     on_ks (sch_set_context_for_next_thread (ic_scheduler x) context THREAD_TERMINATED) s
   }"

definition int_syscall_request_interrupt :: "code_addrs \<Rightarrow> ptr \<Rightarrow> ptr \<Rightarrow> 'z ikern_scheme \<Rightarrow> 'z ikern_scheme option" where
  "int_syscall_request_interrupt c i context s =
     (if i = NULL then Some s
      else do {
        kernel_assert (context \<noteq> NULL);
        x \<leftarrow> int_ctls s i;
        syscall_handle_system_call c (ic_handler x) context s
      })"

end
