(* ===== verification/Devices.thy ===== *)
theory Devices
  imports Interrupts Time
begin

section \<open>Devices (\<open>kernel_device.c\<close>, \<open>bcm2835_intc.c\<close>, \<open>bcm2835_timer.c\<close>)\<close>

text \<open>
  What drivers may ask of the kernel, and the interrupt controller, the timers and the clock of the BCM2835.  The registers of a
  device are an argument: \<open>io a\<close> is what a read of the address \<open>a\<close> returns during the call, and the writes
  are collected in order.  The clock is read more than once in a call, so that its readings are a list.
\<close>

subsection \<open>State\<close>

record bcm2835_timer_usr_data_t =
  tu_callback :: ptr
  tu_instance :: u8
  tu_base :: ptr
  tu_param :: ptr

text \<open>A timer of the BCM2835 has its three functions once it is set up; \<open>NO_TIMER_PARAM\<close> is 0.\<close>

record timer_t =
  t_set_up :: bool
  t_usr_data :: ptr

record dkern = ikern +
  dev_list :: ptr
  dev_process :: ptr
  dev_registry :: ptr
  timer_data :: "bcm2835_timer_usr_data_t pheap"
  timers :: "timer_t pheap"
  io_writes :: "(u32 \<times> u32) list"

definition out_u32 :: "u32 \<Rightarrow> u32 \<Rightarrow> 'z dkern_scheme \<Rightarrow> 'z dkern_scheme" where
  "out_u32 a v s = s\<lparr>io_writes := io_writes s @ [(a, v)]\<rparr>"

subsection \<open>Services of the kernel for drivers\<close>

definition kernel_device_init :: "ptr \<Rightarrow> ptr \<Rightarrow> ptr \<Rightarrow> 'z dkern_scheme \<Rightarrow> 'z dkern_scheme" where
  "kernel_device_init kproc reg list s = s\<lparr>dev_list := list, dev_process := kproc, dev_registry := reg\<rparr>"

definition DEVICE_NAME :: "u8 list" where
  "DEVICE_NAME = [68, 69, 86, 73, 67, 69]"

text \<open>The other processes get a section of their own, and the address of the last one is returned.\<close>

partial_function (option) device_map_procs ::
  "ptr \<Rightarrow> u32 \<Rightarrow> u32 \<Rightarrow> mmu_memory_t \<Rightarrow> ptr \<Rightarrow> u32 \<Rightarrow> 'z dkern_scheme \<Rightarrow> (u32 \<times> 'z dkern_scheme) option" where
  "device_map_procs it addr sz type proc virt s =
     (if proc = NULL then Some (virt, s)
      else do {
        (virt, s) \<leftarrow>
          (if proc \<noteq> dev_process s then do {
             (_, virt, s) \<leftarrow> process_allocate_vmem proc addr sz type MMU_KERNEL_ACCESS MMU_READ_WRITE (Some DEVICE_NAME) s;
             Some (virt, s)
           } else Some (virt, s));
        (_, item, h) \<leftarrow> list_it_next it (proc_lh s);
        device_map_procs it addr sz type (case item of None \<Rightarrow> proc | Some p \<Rightarrow> p) virt (s\<lparr>proc_lh := h\<rparr>)
      })"

definition kernel_device_map_memory ::
  "u32 \<Rightarrow> u32 \<Rightarrow> mmu_memory_t \<Rightarrow> 'z dkern_scheme \<Rightarrow> (return_t \<times> u32 \<times> 'z dkern_scheme) option" where
  "kernel_device_map_memory addr sz type s = do {
     (result, virt, s) \<leftarrow>
       process_allocate_vmem (dev_process s) addr sz type MMU_KERNEL_ACCESS MMU_READ_WRITE (Some DEVICE_NAME) s;
     if result \<noteq> NO_ERROR then Some (result, virt, s)
     else do {
       (it, s) \<leftarrow> proc_list_procs (dev_list s) s;
       (item, h) \<leftarrow> list_it_get it (proc_lh s);
       let s = s\<lparr>proc_lh := h\<rparr>;
       case item of
         None \<Rightarrow> Some (result, virt, s)
       | Some proc \<Rightarrow> do {
           (virt, s) \<leftarrow> device_map_procs it addr sz type proc virt s;
           h \<leftarrow> list_it_delete it (proc_lh s);
           Some (result, virt, s\<lparr>proc_lh := h\<rparr>)
         }
     }
   }"

definition kernel_device_malloc :: "u32 \<Rightarrow> 'z dkern_scheme \<Rightarrow> (ptr \<times> 'z dkern_scheme) option" where
  "kernel_device_malloc sz s = block_alloc (mem_get_default_pool s) sz s"

definition kernel_isr_get_pipe :: "u8 list option \<Rightarrow> 'z dkern_scheme \<Rightarrow> (ptr \<times> 'z dkern_scheme) option" where
  "kernel_isr_get_pipe name s = do {
     (result, n, s) \<leftarrow> obj_create_pipe (dev_registry s) (dev_process s) name PIPE_SEND 4 256 s;
     if result \<noteq> NO_ERROR then Some (NULL, s)
     else do {
       table \<leftarrow> process_get_object_table (dev_process s) (ks s);
       obj \<leftarrow> obj_get_object table n (oh s);
       pipe \<leftarrow> obj_cast_pipe obj s;
       Some (pipe, s)
     }
   }"

definition kernel_isr_write_pipe :: "ptr \<Rightarrow> ptr \<Rightarrow> u32 \<Rightarrow> 'z dkern_scheme \<Rightarrow> (return_t \<times> 'z dkern_scheme) option" where
  "kernel_isr_write_pipe pipe buffer sz s = obj_pipe_send_message pipe NULL PIPE_TX_SEND_AVAILABLE buffer sz False s"

subsection \<open>The interrupt controller\<close>

unbundle bit_operations_syntax

definition IRQ_PENDING_BASIC :: u32 where "IRQ_PENDING_BASIC = 0x200"
definition IRQ_PENDING_1 :: u32 where "IRQ_PENDING_1 = 0x204"
definition IRQ_PENDING_2 :: u32 where "IRQ_PENDING_2 = 0x208"
definition ENABLE_IRQ_1 :: u32 where "ENABLE_IRQ_1 = 0x210"
definition ENABLE_IRQ_2 :: u32 where "ENABLE_IRQ_2 = 0x214"
definition ENABLE_IRQ_BASIC :: u32 where "ENABLE_IRQ_BASIC = 0x218"
definition DISABLE_IRQ_1 :: u32 where "DISABLE_IRQ_1 = 0x21c"
definition DISABLE_IRQ_2 :: u32 where "DISABLE_IRQ_2 = 0x220"
definition DISABLE_IRQ_BASIC :: u32 where "DISABLE_IRQ_BASIC = 0x224"
definition MAX_IRQS_BASIC :: nat where "MAX_IRQS_BASIC = 21"
definition MAX_IRQS_PER_REQ :: u32 where "MAX_IRQS_PER_REQ = 32"
definition INTERRUPT_PENDING1 :: u32 where "INTERRUPT_PENDING1 = 72"
definition INTERRUPT_PENDING2 :: u32 where "INTERRUPT_PENDING2 = 73"
definition ARM_IRQ0_BASE :: u32 where "ARM_IRQ0_BASE = 64"
definition ARM_IRQ1_BASE :: u32 where "ARM_IRQ1_BASE = 0"
definition ARM_IRQ2_BASE :: u32 where "ARM_IRQ2_BASE = 32"

text \<open>
  The table has a bit and a cause per entry: the causes are numbered from the base of the bank, and the last bit of the banks
  1 and 2 is written \<open>0x8000000\<close>.  The rest of the row of the basic bank is filled with zeroes.
\<close>

definition cause_row :: "u32 \<Rightarrow> (u32 \<times> u32) list" where
  "cause_row base = map (\<lambda>i. (push_bit i 1, base + of_nat i)) [0 ..< 31] @ [(0x8000000, base + 31)]"

definition CAUSE_TABLE :: "nat \<Rightarrow> (u32 \<times> u32) list" where
  "CAUSE_TABLE bank =
     (if bank = 0 then map (\<lambda>i. (push_bit i 1, ARM_IRQ0_BASE + of_nat i)) [0 ..< MAX_IRQS_BASIC] @ replicate 11 (0, 0)
      else if bank = 1 then cause_row ARM_IRQ1_BASE
      else cause_row ARM_IRQ2_BASE)"

text \<open>The first entry with its bit set.\<close>

fun first_cause :: "u32 \<Rightarrow> (u32 \<times> u32) list \<Rightarrow> u32 option" where
  "first_cause pending [] = None"
| "first_cause pending ((b, cause) # es) = (if pending AND b \<noteq> 0 then Some cause else first_cause pending es)"

definition bcm2835_get :: "(u32 \<Rightarrow> u32) \<Rightarrow> ptr \<Rightarrow> u32 \<Rightarrow> bool \<times> u32" where
  "bcm2835_get io base cause =
     (if base = NULL then (False, cause)
      else case first_cause (io (base + IRQ_PENDING_BASIC)) (take MAX_IRQS_BASIC (CAUSE_TABLE 0)) of
        None \<Rightarrow> (False, cause)
      | Some c \<Rightarrow>
          let c = (if c = INTERRUPT_PENDING1
                   then (case first_cause (io (base + IRQ_PENDING_1)) (CAUSE_TABLE 1) of None \<Rightarrow> c | Some c' \<Rightarrow> c')
                   else c);
              c = (if c = INTERRUPT_PENDING2
                   then (case first_cause (io (base + IRQ_PENDING_2)) (CAUSE_TABLE 2) of None \<Rightarrow> c | Some c' \<Rightarrow> c')
                   else c)
          in (True, c))"

definition bcm2835_bit :: "nat \<Rightarrow> u32 \<Rightarrow> u32" where
  "bcm2835_bit bank cause = fst (CAUSE_TABLE bank ! unat (cause mod MAX_IRQS_PER_REQ))"

text \<open>The number of the bank is cut to a byte.\<close>

definition bcm2835_mask :: "(u32 \<Rightarrow> u32) \<Rightarrow> ptr \<Rightarrow> u32 \<Rightarrow> 'z dkern_scheme \<Rightarrow> 'z dkern_scheme option" where
  "bcm2835_mask io base cause s =
     (if cause = 0 \<or> base = NULL then Some s
      else let bank = (ucast (cause div MAX_IRQS_PER_REQ) :: u8) in
        if bank = 2 then Some (out_u32 (base + DISABLE_IRQ_BASIC) (io (base + DISABLE_IRQ_BASIC) OR bcm2835_bit 0 cause) s)
        else if bank = 0 then Some (out_u32 (base + DISABLE_IRQ_1) (io (base + DISABLE_IRQ_1) OR bcm2835_bit 1 cause) s)
        else if bank = 1 then Some (out_u32 (base + DISABLE_IRQ_2) (io (base + DISABLE_IRQ_2) OR bcm2835_bit 2 cause) s)
        else None)"

definition bcm2835_enable :: "(u32 \<Rightarrow> u32) \<Rightarrow> ptr \<Rightarrow> u32 \<Rightarrow> 'z dkern_scheme \<Rightarrow> 'z dkern_scheme option" where
  "bcm2835_enable io base cause s =
     (if cause = 0 \<or> base = NULL then Some s
      else let bank = (ucast (cause div MAX_IRQS_PER_REQ) :: u8) in
        if bank = 2 then Some (out_u32 (base + ENABLE_IRQ_BASIC) (io (base + ENABLE_IRQ_BASIC) OR bcm2835_bit 0 cause) s)
        else if bank = 0 then Some (out_u32 (base + ENABLE_IRQ_1) (io (base + ENABLE_IRQ_1) OR bcm2835_bit 1 cause) s)
        else if bank = 1 then Some (out_u32 (base + ENABLE_IRQ_2) (io (base + ENABLE_IRQ_2) OR bcm2835_bit 2 cause) s)
        else None)"

text \<open>The functions of the controller as the interrupt manager calls them; acknowledging and setting up do nothing.\<close>

definition bcm2835_intc :: "(u32 \<Rightarrow> u32) \<Rightarrow> ptr \<Rightarrow> ('z dkern_scheme) kernel_intc_t" where
  "bcm2835_intc io base =
     \<lparr>setup_cause = \<lambda>_ _ _ _ s. Some s,
      get_cause = \<lambda>cause s. let (fired, cause) = bcm2835_get io base cause in Some (fired, cause, s),
      ack_cause = \<lambda>_ s. Some s,
      enable_cause = bcm2835_enable io base,
      mask_cause = bcm2835_mask io base\<rparr>"

text \<open>The structure with the functions is a block; the result is the controller and the base of its registers.\<close>

definition bcm2835_intc_create :: "ptr \<Rightarrow> u32 \<Rightarrow> 'z dkern_scheme \<Rightarrow> (ptr \<times> u32 \<times> 'z dkern_scheme) option" where
  "bcm2835_intc_create pool base_address s = do {
     (device, s) \<leftarrow> block_alloc pool 24 s;
     if device = NULL then Some (NULL, 0, s)
     else do {
       (_, base, s) \<leftarrow> kernel_device_map_memory base_address 0x1000 MMU_DEVICE_MEMORY s;
       (i, s) \<leftarrow> intc_create pool device s;
       Some (i, base, s)
     }
   }"

subsection \<open>The timers and the clock\<close>

definition CONTROL_OFFSET :: u32 where "CONTROL_OFFSET = 0"
definition CLOCK_OFFSET :: u32 where "CLOCK_OFFSET = 4"

definition compare_offset :: "u8 \<Rightarrow> u32" where
  "compare_offset i = (if i = 0 then 0x0c else if i = 1 then 0x10 else if i = 2 then 0x14 else if i = 3 then 0x18 else 0)"

text \<open>Clearing the bit of an instance that has matched.\<close>

definition timer_clear :: "(u32 \<Rightarrow> u32) \<Rightarrow> ptr \<Rightarrow> u8 \<Rightarrow> 'z dkern_scheme \<Rightarrow> 'z dkern_scheme" where
  "timer_clear io base i s =
     (let b = push_bit (unat i) 1 in
      if io (base + CONTROL_OFFSET) AND b \<noteq> 0 then out_u32 (base + CONTROL_OFFSET) b s else s)"

definition bcm2835_timer_setup ::
  "(u32 \<Rightarrow> u32) \<Rightarrow> ptr \<Rightarrow> tinker_time_t \<Rightarrow> ptr \<Rightarrow> ptr \<Rightarrow> 'z dkern_scheme \<Rightarrow> 'z dkern_scheme option" where
  "bcm2835_timer_setup io p timeout cb parameter s =
     (if p = NULL then Some s
      else do {
        x \<leftarrow> timer_data s p;
        let s = s\<lparr>timer_data := (timer_data s)(p \<mapsto> x\<lparr>tu_callback := cb, tu_param := parameter\<rparr>)\<rparr>;
        let offset = compare_offset (tu_instance x);
        kernel_assert (offset \<noteq> 0);
        let s = timer_clear io (tu_base x) (tu_instance x) s;
        Some (out_u32 (tu_base x + offset) (tinker_timer_get_microseconds timeout) s)
      })"

definition bcm2835_timer_cancel :: "(u32 \<Rightarrow> u32) \<Rightarrow> ptr \<Rightarrow> 'z dkern_scheme \<Rightarrow> 'z dkern_scheme option" where
  "bcm2835_timer_cancel io p s =
     (if p = NULL then Some s
      else do {
        x \<leftarrow> timer_data s p;
        kernel_assert (compare_offset (tu_instance x) \<noteq> 0);
        Some (timer_clear io (tu_base x) (tu_instance x) s)
      })"

text \<open>The function that is called back is found by its address.\<close>

definition bcm2835_timer_isr ::
  "(u32 \<Rightarrow> u32) \<Rightarrow> (ptr \<Rightarrow> ptr \<Rightarrow> ptr \<Rightarrow> 'z dkern_scheme \<Rightarrow> 'z dkern_scheme option) \<Rightarrow> ptr \<Rightarrow> ptr \<Rightarrow> 'z dkern_scheme \<Rightarrow>
     (return_t \<times> 'z dkern_scheme) option" where
  "bcm2835_timer_isr io call p context s = do {
     s \<leftarrow> bcm2835_timer_cancel io p s;
     if p = NULL then Some (PARAMETERS_INVALID, s)
     else do {
       x \<leftarrow> timer_data s p;
       if tu_callback x = NULL then Some (TIMER_CALLBACK_MISSING, s)
       else do { s \<leftarrow> call (tu_callback x) context (tu_param x) s; Some (NO_ERROR, s) }
     }
   }"

text \<open>The function to call back is left as the allocator returned the memory (\<open>garbage\<close>).\<close>

definition bcm2835_get_timer ::
  "(u32 \<Rightarrow> u32) \<Rightarrow> bcm2835_timer_usr_data_t \<Rightarrow> ptr \<Rightarrow> ptr \<Rightarrow> u32 \<Rightarrow> u8 \<Rightarrow> 'z dkern_scheme \<Rightarrow> 'z dkern_scheme option" where
  "bcm2835_get_timer io garbage pool timer base inst s =
     (if pool = NULL \<or> timer = NULL then Some s
      else do {
        (p, as) \<leftarrow> mem_alloc pool (timer_data s) (l_answers s);
        let s = s\<lparr>l_answers := as, timers := (timers s)(timer \<mapsto> \<lparr>t_set_up = True, t_usr_data = p\<rparr>)\<rparr>;
        if p = NULL then Some s
        else do {
          (_, vbase, s) \<leftarrow> kernel_device_map_memory base 0x1000 MMU_DEVICE_MEMORY s;
          let s = s\<lparr>timer_data := (timer_data s)(p \<mapsto> garbage\<lparr>tu_instance := inst, tu_base := vbase\<rparr>)\<rparr>;
          Some (timer_clear io vbase inst s)
        }
      })"

text \<open>
  The upper half is read before and after the lower one, until both readings agree.  The readings are triples in the order of the
  reads; there is no result when they run out.
\<close>

fun bcm2835_read_clock :: "(u32 \<times> u32 \<times> u32) list \<Rightarrow> (u32 \<times> u32) option" where
  "bcm2835_read_clock [] = None"
| "bcm2835_read_clock ((upper1, lower, upper2) # rs) =
     (if upper1 \<noteq> upper2 then bcm2835_read_clock rs else Some (upper1, lower))"

definition bcm2835_get_time :: "(u32 \<times> u32 \<times> u32) list \<Rightarrow> u64 option" where
  "bcm2835_get_time rs = do {
     (upper, lower) \<leftarrow> bcm2835_read_clock rs;
     Some ((push_bit 32 (ucast upper) + ucast lower) * 1000)
   }"

definition bcm2835_get_clock :: "ptr \<Rightarrow> u32 \<Rightarrow> 'z dkern_scheme \<Rightarrow> (ptr \<times> u32 \<times> 'z dkern_scheme) option" where
  "bcm2835_get_clock pool base_address s = do {
     (clock, s) \<leftarrow> block_alloc pool 8 s;
     if clock = NULL then Some (NULL, 0, s)
     else do {
       (_, vbase, s) \<leftarrow> kernel_device_map_memory base_address 0x1000 MMU_DEVICE_MEMORY s;
       Some (clock, vbase, s)
     }
   }"

end
