(* ===== verification/Empty_Kernel.thy ===== *)
theory Empty_Kernel
  imports Devices
begin

section \<open>A kernel without objects\<close>

text \<open>
  The state with nothing allocated, from which the states of examples are built by updates of the heaps concerned.
\<close>

definition no_lists :: lheap where
  "no_lists = \<lparr>elems = Map.empty, lists = Map.empty, its = Map.empty, answers = []\<rparr>"

definition no_kst :: kst where
  "no_kst = \<lparr>cols = \<lparr>clh = no_lists, queues = Map.empty, stacks = Map.empty, c_answers = []\<rparr>, threads = Map.empty, contexts = Map.empty,
     processes = Map.empty, scheds = Map.empty, hw = [], k_answers = []\<rparr>"

definition no_alarms :: aheap where
  "no_alarms = \<lparr>alh = no_lists, alarms = Map.empty, alarm_mgrs = Map.empty, time_mgrs = Map.empty, clock_ns = 0, timer_calls = [],
     al_answers = []\<rparr>"

definition no_objects :: oheap where
  "no_objects = \<lparr>mh = \<lparr>entries = Map.empty, buckets = Map.empty, maps = Map.empty, map_its = Map.empty, m_answers = []\<rparr>,
     objs = Map.empty, tables = Map.empty, o_answers = []\<rparr>"

definition no_sections :: vheap where
  "no_sections = \<lparr>sections = Map.empty, l1_tables = Map.empty, l2_tables = Map.empty, tlb_flushes = 0, v_answers = []\<rparr>"

definition empty_kernel :: dkern where
  "empty_kernel = \<lparr>ks = no_kst, ah = no_alarms, oh = no_objects, vm = no_sections, blocks = Map.empty, b_answers = [],
     thread_objs = Map.empty, registries = Map.empty, reg_entries = Map.empty, r_answers = [], sema_objs = Map.empty,
     pipe_objs = Map.empty, pipe_lists = no_lists, ram = (\<lambda>_. 0), shm_objs = Map.empty, shm_lists = no_lists,
     timer_objs = Map.empty, pools = Map.empty, mem_memory_pool = NULL, process_objs = Map.empty, proc_lists = Map.empty,
     proc_lh = no_lists, meminfos = Map.empty, memparts = Map.empty, l_answers = [], loaders = Map.empty, handlers = Map.empty,
     board = [], intcs = Map.empty, internals = Map.empty, int_ctls = Map.empty, dev_list = NULL, dev_process = NULL,
     dev_registry = NULL, timer_data = Map.empty, timers = Map.empty, io_writes = []\<rparr>"

lemmas empty_kernel_defs = empty_kernel_def no_kst_def no_alarms_def no_objects_def no_sections_def no_lists_def

end
