(* ===== verification/Device_Props.thy ===== *)
theory Device_Props
  imports Empty_Kernel
begin

section \<open>Interrupts and the clock\<close>

text \<open>
  An interrupt of the controller runs the handler that has been added for its cause, with two exceptions: the last line of a bank, and the cause
  behind the end of the table.  The clock returns a time it has had during the call.
\<close>

subsection \<open>The table of causes\<close>

lemma and_bit_iff: "(x :: u32) AND 2 ^ k = 0 \<longleftrightarrow> \<not> bit x k"
proof -
  have "bit (x AND push_bit k 1) n \<longleftrightarrow> bit x k \<and> n = k" for n by (auto simp: bit_simps dest: bit_imp_le_length)
  moreover have "bit x k \<Longrightarrow> k < 32" using bit_imp_le_length [of x k] by simp
  ultimately have "x AND push_bit k 1 = 0 \<longleftrightarrow> \<not> bit x k" unfolding bit_eq_iff [of "x AND push_bit k 1" 0] by (simp, blast)
  then show ?thesis by simp
qed

lemma first_cause_append: "first_cause x (es @ es') = (case first_cause x es of None \<Rightarrow> first_cause x es' | Some c \<Rightarrow> Some c)"
  by (induction x es rule: first_cause.induct) simp_all

lemma first_cause_none:
  assumes "\<forall>k. a \<le> k \<and> k < m \<longrightarrow> \<not> bit x k"
  shows "first_cause x (map (\<lambda>i. (push_bit i 1, base + of_nat i)) [a..<m]) = None"
  using assms
proof (induction "m - a" arbitrary: a)
  case (Suc n)
  then have "a < m" by simp
  then show ?case using Suc(1) [of "Suc a"] Suc(2,3) by (simp add: upt_conv_Cons and_bit_iff)
qed simp

lemma first_cause_lowest:
  assumes "n < m" "bit x n" "\<forall>k < n. \<not> bit x k"
  shows "first_cause x (map (\<lambda>i. (push_bit i 1, base + of_nat i)) [0..<m]) = Some (base + of_nat n)"
proof -
  have "[0..<m] = [0..<n] @ n # [Suc n..<m]" 
    using assms(1) upt_add_eq_append [of 0 n "m - n"] by (simp add: upt_conv_Cons)
  then show ?thesis using assms first_cause_none [of 0 n x base] by (simp add: first_cause_append and_bit_iff)
qed

lemma basic_lowest:
  assumes "n < 21" "bit x n" "\<forall>k < n. \<not> bit x k"
  shows "first_cause x (take MAX_IRQS_BASIC (CAUSE_TABLE 0)) = Some (64 + of_nat n)"
  using first_cause_lowest [OF assms, of 64] by (simp add: CAUSE_TABLE_def MAX_IRQS_BASIC_def ARM_IRQ0_BASE_def)

lemma row_lowest:
  assumes "n < 31" "bit x n" "\<forall>k < n. \<not> bit x k"
  shows "first_cause x (cause_row base) = Some (base + of_nat n)"
  using first_cause_lowest [OF assms, of base] by (simp add: cause_row_def first_cause_append)

lemma row_last:
  assumes "\<forall>k < 31. \<not> bit x k"
  shows "first_cause x (cause_row base) = None"
proof -
  have "(0x8000000 :: u32) = 2 ^ 27" by simp
  then have "x AND 0x8000000 = 0" using assms and_bit_iff [of x 27] by simp
  then show ?thesis using first_cause_none [of 0 31 x base] assms by (simp add: cause_row_def first_cause_append)
qed

text \<open>Only the bank 1 is pending, with the given line.\<close>

definition bank1_pending :: "(u32 \<Rightarrow> u32) \<Rightarrow> ptr \<Rightarrow> nat \<Rightarrow> bool" where
  "bank1_pending io base n \<longleftrightarrow> base \<noteq> NULL \<and>
     bit (io (base + IRQ_PENDING_BASIC)) 8 \<and> (\<forall>k < 8. \<not> bit (io (base + IRQ_PENDING_BASIC)) k) \<and>
     bit (io (base + IRQ_PENDING_1)) n \<and> (\<forall>k < n. \<not> bit (io (base + IRQ_PENDING_1)) k)"

lemma bcm2835_get_bank1:
  assumes "bank1_pending io base n"
  shows "n < 31 \<Longrightarrow> bcm2835_get io base c = (True, of_nat n)" "n = 31 \<Longrightarrow> bcm2835_get io base c = (True, INTERRUPT_PENDING1)"
proof -
  have basic: "first_cause (io (base + IRQ_PENDING_BASIC)) (take MAX_IRQS_BASIC (CAUSE_TABLE 0)) = Some 72"
    using assms basic_lowest [of 8 "io (base + IRQ_PENDING_BASIC)"] by (simp add: bank1_pending_def)
  note simps = bcm2835_get_def CAUSE_TABLE_def INTERRUPT_PENDING1_def INTERRUPT_PENDING2_def ARM_IRQ1_BASE_def Let_def
  show "bcm2835_get io base c = (True, of_nat n)" if "n < 31"
  proof -
    have "unat (of_nat n :: u32) = n" using that by (simp add: unsigned_of_nat take_bit_nat_eq_self)
    then have "(of_nat n :: u32) \<noteq> 73" using that by auto
    moreover have "first_cause (io (base + IRQ_PENDING_1)) (CAUSE_TABLE 1) = Some (of_nat n)"
      using assms row_lowest [OF that, of "io (base + IRQ_PENDING_1)" 0] by (simp add: bank1_pending_def CAUSE_TABLE_def ARM_IRQ1_BASE_def)
    ultimately show ?thesis using assms basic by (simp add: simps bank1_pending_def)
  qed
  show "bcm2835_get io base c = (True, INTERRUPT_PENDING1)" if "n = 31"
  proof -
    have "first_cause (io (base + IRQ_PENDING_1)) (CAUSE_TABLE 1) = None"
      using assms that row_last [of "io (base + IRQ_PENDING_1)" 0] by (simp add: bank1_pending_def CAUSE_TABLE_def ARM_IRQ1_BASE_def)
    then show ?thesis using assms basic by (simp add: simps bank1_pending_def)
  qed
qed

subsection \<open>Handlers\<close>

lemma intc_add_spec:
  assumes "i \<noteq> NULL" "intcs s i = Some x" "cause < MAX_ISRS" "length (isrs x) = unat MAX_ISRS" "isrs x ! unat cause = NULL"
    "mem_alloc (intc_pool x) (internals s) (l_answers s) = Some (p, as)" "p \<noteq> NULL"
  shows "intc_add kind i cause dev s =
    Some (s\<lparr>l_answers := as, internals := (internals s)(p \<mapsto> \<lparr>intc_type = kind, intc_dev = dev\<rparr>),
      intcs := (intcs s)(i \<mapsto> x\<lparr>isrs := (isrs x)[unat cause := p]\<rparr>)\<rparr>)"
  using assms by (auto simp: intc_add_def isr_at_def kernel_assert_def word_less_nat_alt)

text \<open>A cause that is reported and has a handler other than a controller.\<close>

lemma intc_handle_run:
  assumes "i \<noteq> NULL" "intcs s i = Some x" "kernel_intcs d (kernel_intc x) = Some k" "get_cause k 0 s = Some (True, cause, s)"
    "cause < MAX_ISRS" "length (isrs x) = unat MAX_ISRS" "isrs x ! unat cause = p" "p \<noteq> NULL" "internals s p = Some y"
    "intc_type y \<noteq> CHILD_INTC" "intc_run d y cause context s = Some (ret, s')" "intcs s' i = Some x"
  shows "intc_handle d i context s = do { s \<leftarrow> ack_cause k cause s'; Some (ret, s) }"
proof -
  have "\<not> cause > MAX_ISRS" "isr_at x cause = Some p" using assms(5-7) by (simp_all add: isr_at_def word_less_nat_alt)
  then show ?thesis using assms by (simp add: intc_handle.simps [of d i])
qed

subsection \<open>The clock\<close>

text \<open>The halves of a counter, read one after the other at the given times.\<close>

definition clock_reading :: "(nat \<Rightarrow> u64) \<Rightarrow> nat \<times> nat \<times> nat \<Rightarrow> u32 \<times> u32 \<times> u32" where
  "clock_reading c t = (case t of (t1, t2, t3) \<Rightarrow> (ucast (drop_bit 32 (c t1)), ucast (c t2), ucast (drop_bit 32 (c t3))))"

lemma read_clock_agrees:
  "(\<exists>(u1, l, u2) \<in> set rs. u1 = u2) \<longleftrightarrow> (\<exists>r. bcm2835_read_clock rs = Some r)"
  "bcm2835_read_clock rs = Some (u, l) \<Longrightarrow> (u, l, u) \<in> set rs"
  by (induction rs rule: bcm2835_read_clock.induct) (auto split: if_splits)

lemma halves_join: "push_bit 32 (ucast (ucast (drop_bit 32 x) :: u32)) + ucast (ucast x :: u32) = (x :: u64)"
proof -
  have "push_bit 32 (ucast (ucast (drop_bit 32 x) :: u32)) + ucast (ucast x :: u32) =
      (push_bit 32 (ucast (ucast (drop_bit 32 x) :: u32)) OR ucast (ucast x :: u32) :: u64)"
    by (rule disjunctive_add_eq_or) (auto simp: bit_eq_iff bit_simps)
  also have "\<dots> = x" by (rule bit_word_eqI) (auto simp: bit_simps)
  finally show ?thesis .
qed

lemma upper_inj:
  assumes "ucast (drop_bit 32 (x :: u64)) = (ucast (drop_bit 32 y) :: u32)"
  shows "drop_bit 32 x = drop_bit 32 y"
proof (rule bit_word_eqI)
  fix n
  assume "n < LENGTH(64)"
  have "bit (ucast (drop_bit 32 x) :: u32) n = bit (ucast (drop_bit 32 y) :: u32) n" using assms by simp
  then show "bit (drop_bit 32 x) n = bit (drop_bit 32 y) n" by (cases "n < 32") (auto simp: bit_simps dest: bit_imp_le_length)
qed

lemma upper_between:
  assumes "x \<le> y" "y \<le> z" "drop_bit 32 x = drop_bit 32 (z :: u64)"
  shows "drop_bit 32 y = drop_bit 32 x"
proof -
  have u: "unat (drop_bit 32 w) = unat w div 2 ^ 32" for w :: u64
    using unsigned_drop_bit_eq [of 32 w, where 'a = nat]
    by (simp only: drop_bit_eq_div take_bit_nat_eq_self_iff [THEN iffD2, OF unsigned_less [of w, where 'a = nat]])
  have "unat x div 2 ^ 32 \<le> unat y div 2 ^ 32" "unat y div 2 ^ 32 \<le> unat z div 2 ^ 32"
    using assms(1,2) by (simp_all add: div_le_mono word_le_nat_alt)
  moreover have "unat x div 2 ^ 32 = unat z div 2 ^ 32" using assms(3) u [of x] u [of z] by simp
  ultimately have "unat (drop_bit 32 y) = unat (drop_bit 32 x)" unfolding u by linarith
  then show ?thesis by (simp add: word_unat_eq_iff)
qed

subsection \<open>Properties\<close>

text \<open>
  C19: An interrupt reaches the handler of its cause.  Let a device be added to a controller for a cause
  below 31 that is free, with memory for the entry, and let the registers of the BCM2835 say that the line of this
  cause is the lowest one that is pending in bank 1.  Then the addition succeeds, and handling the interrupt runs
  the service routine of this device with this cause; its result is the result of the controller.
\<close>

theorem intc_routes_interrupt:
  assumes ctl: "i \<noteq> NULL" "intcs s i = Some x" "length (isrs x) = unat MAX_ISRS" "isrs x ! n = NULL" "n < 31"
    and alloc: "mem_alloc (intc_pool x) (internals s) (l_answers s) = Some (p, as)" "p \<noteq> NULL"
    and dev: "kernel_intcs d (kernel_intc x) = Some (bcm2835_intc io base)" "device_isr d dev = Some f"
    and pending: "bank1_pending io base n"
  shows "\<exists>s1. intc_add_device i (of_nat n) dev s = Some s1 \<and>
    (\<forall>ret s2. f (of_nat n) s1 = Some (ret, s2) \<and> intcs s2 = intcs s1 \<longrightarrow> intc_handle d i context s1 = Some (ret, s2))"
proof -
  let ?x = "x\<lparr>isrs := (isrs x)[n := p]\<rparr>"
  let ?s = "s\<lparr>l_answers := as, internals := (internals s)(p \<mapsto> \<lparr>intc_type = DEVICE_INTC, intc_dev = dev\<rparr>),
      intcs := (intcs s)(i \<mapsto> ?x)\<rparr>"
  have n: "unat (of_nat n :: u32) = n" using ctl(5) by (simp add: unsigned_of_nat take_bit_nat_eq_self)
  then have c: "(of_nat n :: u32) < MAX_ISRS" using ctl(5) by (simp add: MAX_ISRS_def word_less_nat_alt)
  have "intc_add_device i (of_nat n) dev s = Some ?s"
    using intc_add_spec [OF ctl(1,2) c ctl(3) _ alloc] ctl(4) by (simp add: intc_add_device_def n)
  moreover have "intc_handle d i context ?s = Some (ret, s2)" if "f (of_nat n) ?s = Some (ret, s2)" "intcs s2 = intcs ?s" for ret s2
  proof -
    have len: "n < length (isrs x)" using ctl(3,5) by (simp add: MAX_ISRS_def)
    have get: "get_cause (bcm2835_intc io base) 0 ?s = Some (True, of_nat n, ?s)"
      using bcm2835_get_bank1(1) [OF pending ctl(5)] by (simp add: bcm2835_intc_def)
    have "intc_handle d i context ?s = do { s \<leftarrow> ack_cause (bcm2835_intc io base) (of_nat n) s2; Some (ret, s) }"
      by (rule intc_handle_run [where x = ?x and p = p and y = "\<lparr>intc_type = DEVICE_INTC, intc_dev = dev\<rparr>", OF ctl(1) _ _ get c])
         (use that ctl(3) dev alloc(2) n len in \<open>simp_all add: intc_run_def\<close>)
    then show ?thesis by (simp add: bcm2835_intc_def)
  qed
  ultimately show ?thesis by blast
qed

definition demo_intc :: dkern where
  "demo_intc = empty_kernel\<lparr>intcs := [4 \<mapsto> \<lparr>intc_pool = 8, isrs = replicate 256 NULL, kernel_intc = 12\<rparr>], l_answers := [16]\<rparr>"

definition demo_io :: "nat \<Rightarrow> u32 \<Rightarrow> u32" where
  "demo_io n a = (if a = 0x1000 + IRQ_PENDING_BASIC then 2 ^ 8 else if a = 0x1000 + IRQ_PENDING_1 then 2 ^ n else 0)"

definition demo_drivers :: "nat \<Rightarrow> dkern drivers" where
  "demo_drivers n = \<lparr>kernel_intcs = [12 \<mapsto> bcm2835_intc (demo_io n) 0x1000],
     device_isr = [20 \<mapsto> \<lambda>c s. Some (NO_ERROR, s\<lparr>io_writes := [(0, c)]\<rparr>)], timer_isr = Map.empty, cause_var = 0x100\<rparr>"

definition demo_bad_drivers :: "dkern drivers" where
  "demo_bad_drivers = \<lparr>kernel_intcs = [12 \<mapsto> (bcm2835_intc (demo_io 3) 0x1000)\<lparr>get_cause := \<lambda>_ s. Some (True, 256, s)\<rparr>],
     device_isr = Map.empty, timer_isr = Map.empty, cause_var = 0x100\<rparr>"

lemma bit_256: "bit (256 :: u32) k \<longleftrightarrow> k = 8"
  using bit_exp_iff [of 8 k, where 'a = u32] by auto

lemma demo_pending: "n < 32 \<Longrightarrow> bank1_pending (demo_io n) 0x1000 n"
proof -
  have "\<not> bit (256 :: u32) k" if "k < 8" for k using that bit_256 [of k] by simp
  then show "n < 32 \<Longrightarrow> bank1_pending (demo_io n) 0x1000 n"
    by (simp add: bank1_pending_def demo_io_def IRQ_PENDING_BASIC_def IRQ_PENDING_1_def bit_simps)
qed

theorem intc_routes_interrupt_witness:
  "\<exists>s1. intc_add_device 4 3 20 demo_intc = Some s1 \<and>
    intc_handle (demo_drivers 3) 4 24 s1 = Some (NO_ERROR, s1\<lparr>io_writes := [(0, 3)]\<rparr>)"
  using intc_routes_interrupt [of 4 demo_intc "\<lparr>intc_pool = 8, isrs = replicate 256 NULL, kernel_intc = 12\<rparr>" 3 16 "[]"
      "demo_drivers 3" "demo_io 3" "0x1000" 20 "\<lambda>c s. Some (NO_ERROR, s\<lparr>io_writes := [(0, c)]\<rparr>)" 24] demo_pending [of 3]
  by (auto simp: demo_intc_def demo_drivers_def MAX_ISRS_def empty_kernel_def mem_alloc_def)

text \<open>
  The last line of a bank is lost.  The bit of the last entry of the table is 27 instead of 31: when only
  the line 31 of bank 1 is pending, the controller reports the cause 72, which says that something is pending in
  bank 1, and enabling the cause 31 enables the line 27.
\<close>

lemma bcm2835_last_line_lost:
  assumes "bank1_pending io base 31"
  shows "bcm2835_get io base cause = (True, INTERRUPT_PENDING1) \<and>
    bcm2835_enable io base 31 s = Some (out_u32 (base + ENABLE_IRQ_1) (io (base + ENABLE_IRQ_1) OR 2 ^ 27) s)"
proof -
  have "bcm2835_bit 1 31 = 2 ^ 27"
    by (simp add: bcm2835_bit_def CAUSE_TABLE_def cause_row_def nth_append MAX_IRQS_PER_REQ_def)
  then show ?thesis using assms bcm2835_get_bank1(2) [OF assms]
    by (simp add: bank1_pending_def bcm2835_enable_def MAX_IRQS_PER_REQ_def)
qed

text \<open>
  The cause behind the table is not refused.  When a driver reports the cause \<open>MAX_ISRS\<close>, which
  is one behind the last entry of the table, handling the interrupt reads behind the table, and so does the addition of a
  handler for this cause; the larger causes are refused as the code means to do.
\<close>

lemma intc_cause_behind_table:
  assumes "i \<noteq> NULL" "intcs s i = Some x" "length (isrs x) = unat MAX_ISRS" "kernel_intcs d (kernel_intc x) = Some k"
    and "get_cause k 0 s = Some (True, cause, s)" "ack_cause k cause s = Some s"
    and "mem_alloc (intc_pool x) (internals s) (l_answers s) = Some (p, as)" "p \<noteq> NULL"
  shows "(cause = MAX_ISRS \<longrightarrow> intc_handle d i context s = None \<and> intc_add_device i cause dev s = None) \<and>
    (cause > MAX_ISRS \<longrightarrow> intc_handle d i context s = Some (UNKNOWN_INTERRUPT_CAUSE, s))"
  using assms by (auto simp: intc_handle.simps [of d i] isr_at_def intc_add_device_def intc_add_def)

text \<open>
  C30: The clock returns a time of the counter.  The two halves of the counter are read in three steps.  When the
  counter never runs backwards and some attempt finds the upper half unchanged, the clock has a
  result, and it is a value that the counter had at the time of some read of the lower half, in nanoseconds.
\<close>

theorem bcm2835_get_time_consistent:
  assumes "mono c" "\<forall>(t1, t2, t3) \<in> set ts. t1 \<le> t2 \<and> t2 \<le> t3"
    and "(t1', t2', t3') \<in> set ts" "drop_bit 32 (c t1') = drop_bit 32 (c t3')"
  shows "\<exists>(t1, t2, t3) \<in> set ts. bcm2835_get_time (map (clock_reading c) ts) = Some (c t2 * 1000)"
proof -
  have "clock_reading c (t1', t2', t3') \<in> set (map (clock_reading c) ts)" using assms(3) by (simp add: image_iff) blast
  then have "\<exists>(u1, l, u2) \<in> set (map (clock_reading c) ts). u1 = u2" using assms(4) by (force simp: clock_reading_def)
  then obtain u l where r: "bcm2835_read_clock (map (clock_reading c) ts) = Some (u, l)" using read_clock_agrees(1) by fastforce
  from read_clock_agrees(2) [OF this] obtain t where read: "t \<in> set ts" "clock_reading c t = (u, l, u)" by auto
  obtain t1 t2 t3 where t123: "t = (t1, t2, t3)" by (cases t)
  have t: "(t1, t2, t3) \<in> set ts" "u = ucast (drop_bit 32 (c t1))" "l = ucast (c t2)" "u = ucast (drop_bit 32 (c t3))"
    using read by (simp_all add: t123 clock_reading_def)
  have le: "c t1 \<le> c t2" "c t2 \<le> c t3" using assms(1,2) t(1) by (auto intro: monoD)
  have "drop_bit 32 (c t1) = drop_bit 32 (c t3)" using t(2,4) by (intro upper_inj) simp
  then have "drop_bit 32 (c t2) = drop_bit 32 (c t1)" by (rule upper_between [OF le])
  then have "push_bit 32 (ucast u) + ucast l = c t2" using halves_join [of "c t2"] t by simp
  then have "bcm2835_get_time (map (clock_reading c) ts) = Some (c t2 * 1000)"
    unfolding bcm2835_get_time_def r by (simp del: distrib_right_numeral)
  then show ?thesis using t(1) by blast
qed

definition demo_counter :: "nat \<Rightarrow> u64" where
  "demo_counter t = (if t < 2 then 0xFFFFFFFF else 0x100000007)"

theorem bcm2835_get_time_consistent_witness:
  "\<exists>(t1, t2, t3) \<in> {(0 :: nat, 1, 2 :: nat), (3, 4, 5)}.
     bcm2835_get_time (map (clock_reading demo_counter) [(0, 1, 2), (3, 4, 5)]) = Some (demo_counter t2 * 1000)"
proof -
  have "mono demo_counter" by (simp add: mono_def demo_counter_def)
  moreover have "drop_bit 32 (demo_counter 3) = drop_bit 32 (demo_counter 5)" by (simp add: demo_counter_def)
  ultimately show ?thesis using bcm2835_get_time_consistent [of demo_counter "[(0, 1, 2), (3, 4, 5)]" 3 4 5] by simp
qed

end
