(* ===== verification/Timer_Props.thy ===== *)
theory Timer_Props
  imports Empty_Kernel
begin

section \<open>Cancelling timers\<close>

text \<open>
  Cancelling a timer that has not fired releases its thread and then reads the released memory.  The lemmas before say which operations leave
  the threads as they are.
\<close>

subsection \<open>Threads\<close>

lemma on_cols_threads: "on_cols f s = Some (r, s') \<Longrightarrow> threads s' = threads s"
  by (auto simp: on_cols_def bind_eq_Some_conv split: prod.splits)

lemma sch_upd_threads: "sch_upd sch f s = Some s' \<Longrightarrow> threads s' = threads s"
  by (auto simp: sch_upd_def bind_eq_Some_conv)

lemma sch_stack_threads:
  "sch_stack_pop sch s = Some (r, s') \<Longrightarrow> threads s' = threads s" "sch_stack_front sch s = Some (r, s') \<Longrightarrow> threads s' = threads s"
  by (auto simp: sch_stack_pop_def sch_stack_front_def bind_eq_Some_conv split: prod.splits option.splits
      dest!: on_cols_threads sch_upd_threads)

lemma sch_find_next_threads: "sch_priority_find_next_queue sch t s = Some s' \<Longrightarrow> threads s' = threads s"
  by (auto simp: sch_priority_find_next_queue_def bind_eq_Some_conv split: prod.splits dest!: on_cols_threads sch_upd_threads)

lemma sch_exit_threads: "sch_notify_exit_thread sch t s = Some s' \<Longrightarrow> threads s' = threads s"
  by (clarsimp simp: sch_notify_exit_thread_def bind_eq_Some_conv split: if_splits)
     (metis on_cols_threads sch_upd_threads sch_stack_threads sch_find_next_threads)+

lemma sch_terminated_threads: "sch_notify_terminated sch t s = Some s' \<Longrightarrow> threads s' = threads s"
  by (auto simp: sch_notify_terminated_def bind_eq_Some_conv split: if_splits dest: sch_upd_threads)

lemma process_exit_threads: "process_thread_exit p t s = Some s' \<Longrightarrow> threads s' = threads s"
  by (auto simp: process_thread_exit_def process_update_def bind_eq_Some_conv split: if_splits)

lemma on_ks_Some: "on_ks f s = Some s' \<Longrightarrow> \<exists>k. f (ks s) = Some k \<and> s' = s\<lparr>ks := k\<rparr>"
  by (auto simp: on_ks_def bind_eq_Some_conv)

lemma mem_free_gone: "mem_free pool p h = Some h' \<Longrightarrow> p \<noteq> NULL \<Longrightarrow> h' p = None"
  by (auto simp: mem_free_def split: if_splits option.splits)

lemma thread_exit_frees: "t \<noteq> NULL \<Longrightarrow> thread_exit t s = Some s' \<Longrightarrow> threads (ks s') t = None"
  by (clarsimp simp: thread_exit_def bind_eq_Some_conv) (erule (1) mem_free_gone)

lemma delete_thread_ks: "obj_delete_thread o' s = Some s' \<Longrightarrow> ks s' = ks s"
  by (auto simp: obj_delete_thread_def bind_eq_Some_conv split: if_splits)

text \<open>The end of a thread that has not ended before releases it.\<close>

lemma obj_exit_thread_frees:
  assumes "obj_exit_thread o' s = Some (r, s')" "o' \<noteq> NULL" "thread_objs s o' = Some ob" "ot_thread ob \<noteq> NULL"
    "threads (ks s) (ot_thread ob) = Some t" "t_state t \<noteq> THREAD_TERMINATED" "t_state t \<noteq> THREAD_NOT_CREATED"
  shows "threads (ks s') (ot_thread ob) = None"
proof -
  obtain s1 s2 where "thread_exit (ot_thread ob) s1 = Some s2" "obj_delete_thread o' s2 = Some s'"
    using assms by (auto simp: obj_exit_thread_def thread_get_state_def thread_field_def Let_def bind_eq_Some_conv)
  then show ?thesis using thread_exit_frees [OF assms(4)] delete_thread_ks by metis
qed

text \<open>The thread of a timer is the one of its object, and has not ended.\<close>

definition timer_waits :: "ptr \<Rightarrow> 'z tkern_scheme \<Rightarrow> bool" where
  "timer_waits timer s \<longleftrightarrow> (\<exists>x ob t. timer_objs s timer = Some x \<and> thread_obj x \<noteq> NULL \<and> thread_objs s (thread_obj x) = Some ob \<and>
     ot_thread ob = callback_thread x \<and> callback_thread x \<noteq> NULL \<and> threads (ks s) (callback_thread x) = Some t \<and>
     t_state t \<noteq> THREAD_TERMINATED \<and> t_state t \<noteq> THREAD_NOT_CREATED)"

lemma delete_thread_faults:
  assumes "timer_waits timer s"
  shows "obj_timer_delete_thread timer s = None"
proof (rule ccontr)
  assume "obj_timer_delete_thread timer s \<noteq> None"
  then obtain s' where run: "obj_timer_delete_thread timer s = Some s'" by blast
  obtain x ob t where x: "timer_objs s timer = Some x" "thread_obj x \<noteq> NULL" "thread_objs s (thread_obj x) = Some ob"
      "ot_thread ob = callback_thread x" "callback_thread x \<noteq> NULL" "threads (ks s) (callback_thread x) = Some t"
      "t_state t \<noteq> THREAD_TERMINATED" "t_state t \<noteq> THREAD_NOT_CREATED"
    using assms by (auto simp: timer_waits_def)
  obtain s1 s2 r s3 q where steps: "on_ks (sch_notify_exit_thread (tm_scheduler x) (callback_thread x)) s = Some s1"
      "on_ks (process_thread_exit q (callback_thread x)) s1 = Some s2" "obj_exit_thread (thread_obj x) s2 = Some (r, s3)"
      "thread_get_parent (callback_thread x) (ks s3) \<noteq> None"
    using run x by (auto simp: obj_timer_delete_thread_def obj_get_thread_def thread_get_state_def thread_field_def bind_eq_Some_conv)
  have "threads (ks s2) = threads (ks s)" "thread_objs s2 = thread_objs s"
    using on_ks_Some [OF steps(1)] on_ks_Some [OF steps(2)] by (auto dest!: sch_exit_threads process_exit_threads)
  then have "threads (ks s3) (callback_thread x) = None"
    using obj_exit_thread_frees [OF steps(3) x(2), of ob t] x by simp
  then show False using steps(4) x(5) by (simp add: thread_get_parent_def thread_field_def)
qed

lemma timer_waits_upd:
  assumes "timer_waits timer s" "on_ah g s = Some (r, s1)" "timer_upd timer f s1 = Some s2"
    "\<And>x. callback_thread (f x) = callback_thread x \<and> thread_obj (f x) = thread_obj x"
  shows "timer_waits timer s2"
  using assms by (auto simp: timer_waits_def on_ah_def timer_upd_def store_def bind_eq_Some_conv split: prod.splits option.splits)

subsection \<open>An example\<close>

text \<open>
  A process \<open>0x20\<close> with a timer \<open>0x80\<close>, whose thread \<open>0x100\<close> waits; the object of the thread is \<open>0xA0\<close>.  The scheduler has
  an empty queue for every priority.
\<close>

definition demo_timer :: dkern where
  "demo_timer = empty_kernel\<lparr>
     ks := no_kst\<lparr>
       cols := \<lparr>clh = \<lparr>elems = [0x212 \<mapsto> \<lparr>le_item = 0x1005, le_next = NULL, le_prev = NULL\<rparr>],
           lists = [0x1005 \<mapsto> \<lparr>l_size = 0, l_head = NULL, l_tail = NULL, l_pool = 9\<rparr>,
                    0x40 \<mapsto> \<lparr>l_size = 1, l_head = 0x212, l_tail = 0x212, l_pool = 9\<rparr>], its = Map.empty, answers = []\<rparr>,
         queues = [0x1005 \<mapsto> \<lparr>q_list = 0x1005, q_pool = 9\<rparr>], stacks = [0x40 \<mapsto> \<lparr>s_list = 0x40, s_pool = 9\<rparr>], c_answers = []\<rparr>,
       threads := [0x100 \<mapsto> \<lparr>thread_id = 1, t_stack = 0x600, r_stack_base = 0, v_stack_base = 0, t_stack_size = 0, priority = 5,
         t_flags = 2, t_parent = 0x20, t_state = THREAD_WAITING, waiting_on = 0x80, entry_point = NULL, t_object_number = 1,
         t_context = NULL, t_name = []\<rparr>],
       processes := [0x20 \<mapsto> \<lparr>p_scheduler = 0x30, p_alarm_manager = 0x50, process_id = 1, p_threads = [NULL, 0x100],
         private_pool = 9, memory_pool = 10, p_object_table = 0x60, p_object_number = 0, kernel_process = False,
         first_section = NULL, p_image = [], initial_thread = NULL, parent_pool = NULL, page_table = NULL\<rparr>],
       scheds := [0x30 \<mapsto> \<lparr>curr_thread = NULL, curr_queue = 0x1005, priority_queues = (\<lambda>_. 0x1005), curr_priority = 5,
         queue_stack = 0x40, idle_thread = NULL, eval_new_thread = False\<rparr>]\<rparr>,
     ah := no_alarms\<lparr>
       alh := \<lparr>elems = [0x700 \<mapsto> \<lparr>le_item = 0x710, le_next = NULL, le_prev = NULL\<rparr>],
         lists = [0x720 \<mapsto> \<lparr>l_size = 1, l_head = 0x700, l_tail = 0x700, l_pool = 9\<rparr>], its = Map.empty, answers = []\<rparr>,
       alarms := [0x710 \<mapsto> \<lparr>al_id = 0, call_back = 7, usr_data = 0x80, alarm_time = \<lparr>seconds = 3, nanoseconds = 0\<rparr>, al_pool = 9\<rparr>],
       alarm_mgrs := [0x50 \<mapsto> \<lparr>alarm_list = 0x720, next_alarm = 0x710, alarm_timer = 0x730, am_pool = 9, am_time_manager = 0x740\<rparr>],
       time_mgrs := [0x740 \<mapsto> \<lparr>time_system_clock = 0x750\<rparr>]\<rparr>,
     oh := no_objects\<lparr>objs := [0x80 \<mapsto> \<lparr>object_number = 2, obj_type = TIMER_OBJ\<rparr>, 0xA0 \<mapsto> \<lparr>object_number = 1, obj_type = THREAD_OBJ\<rparr>]\<rparr>,
     blocks := [0x600 \<mapsto> 1024],
     thread_objs := [0xA0 \<mapsto> \<lparr>tid = 1, ot_thread = 0x100, priority_inheritance = 0, original_priority = 5, oth_pool = 9,
       alarm_id = 0, oth_scheduler = 0x30, oth_alarm_manager = 0x50\<rparr>],
     timer_objs := [0x80 \<mapsto> \<lparr>tm_pool = 9, tm_scheduler = 0x30, tm_alarm_manager = 0x50, tm_callback = 0x900,
       tm_timeout = \<lparr>seconds = 3, nanoseconds = 0\<rparr>, tm_parameter = NULL, tm_alarm_id = 0, callback_thread = 0x100,
       thread_obj = 0xA0\<rparr>]\<rparr>"

lemma demo_timer_run:
  "(do { (r, s1) \<leftarrow> on_ah (alarm_unset_alarm 0x50 0) demo_timer;
         s2 \<leftarrow> on_ks (sch_notify_exit_thread 0x30 0x100) s1;
         s3 \<leftarrow> on_ks (process_thread_exit 0x20 0x100) s2;
         (r', s4) \<leftarrow> obj_exit_thread 0xA0 s3;
         Some (r, r', threads (ks s4) 0x100) }) = Some (NO_ERROR, NO_ERROR, None)"
  by code_simp

subsection \<open>Properties\<close>

text \<open>
  C39: A timer can not be cancelled or deleted without an access to released memory.  Let the thread of a timer be alive, as
  it is from the creation of the timer on, and let the timer not have fired.  Then cancelling it reads the process of
  the thread after the thread has been released.  Deleting a timer, fired or not, writes the number of its alarm after the timer has been
  released.
\<close>

theorem obj_cancel_timer_faults:
  assumes "timer \<noteq> NULL" "timer_waits timer s" "timer_objs s timer = Some x"
  shows "(tm_callback x \<noteq> NULL \<longrightarrow> obj_cancel_timer timer s = None) \<and> obj_delete_timer timer s = None"
proof -
  have faults: "obj_timer_delete_thread timer s2 = None"
    if "on_ah g s = Some (r, s1)" "timer_upd timer f s1 = Some s2"
      "\<And>x. callback_thread (f x) = callback_thread x \<and> thread_obj (f x) = thread_obj x" for g r s1 s2 and f
    by (rule delete_thread_faults, rule timer_waits_upd [OF assms(2)]) (fact that)+
  have "False" if "tm_callback x \<noteq> NULL" "obj_cancel_timer timer s = Some y" for y
    using that assms by (auto simp: obj_cancel_timer_def bind_eq_Some_conv dest: faults)
  then have "tm_callback x \<noteq> NULL \<longrightarrow> obj_cancel_timer timer s = None" by (metis option.exhaust)
  moreover have "obj_delete_timer timer s = None"
    using assms by (auto simp: obj_delete_timer_def timer_upd_def store_def bind_eq_None_conv)
  ultimately show ?thesis by blast
qed

theorem obj_cancel_timer_faults_witness:
  "obj_cancel_timer 0x80 demo_timer = None \<and> obj_delete_timer 0x80 demo_timer = None"
  using obj_cancel_timer_faults [of "0x80" demo_timer "the (timer_objs demo_timer 0x80)"]
  by (simp add: demo_timer_def timer_waits_def empty_kernel_def no_kst_def)

end
