(* ===== verification/Proc_Props.thy ===== *)
theory Proc_Props
  imports Empty_Kernel Process_Mem_Correct
begin

section \<open>Sections and numbers of processes\<close>

text \<open>
  Adding a section is insertion into a list sorted by virtual address, and the number of a new process depends on the length of
  the list of processes only.
\<close>

subsection \<open>Insertion of a section\<close>

definition sec_virt :: "mem_section_t pheap \<Rightarrow> ptr \<Rightarrow> u32" where
  "sec_virt h a = virt_address (the (h a))"

text \<open>The chain with a new section behind all that do not start after it.\<close>

definition sec_insert :: "mem_section_t pheap \<Rightarrow> ptr \<Rightarrow> ptr list \<Rightarrow> ptr list" where
  "sec_insert h n as = takeWhile (\<lambda>a. sec_virt h a \<le> sec_virt h n) as @ n # dropWhile (\<lambda>a. sec_virt h a \<le> sec_virt h n) as"

definition secs_sorted :: "mem_section_t pheap \<Rightarrow> ptr list \<Rightarrow> bool" where
  "secs_sorted h as \<longleftrightarrow> sorted_wrt (\<lambda>a b. sec_virt h a \<le> sec_virt h b) as"

lemma secs_sorted_insert:
  assumes "secs_sorted h as"
  shows "secs_sorted h (sec_insert h n as)"
proof -
  let ?P = "\<lambda>a. sec_virt h a \<le> sec_virt h n"
  have low: "?P a" if "a \<in> set (takeWhile ?P as)" for a using that by (rule set_takeWhileD [THEN conjunct2])
  have parts: "sorted_wrt (\<lambda>a b. sec_virt h a \<le> sec_virt h b) (takeWhile ?P as @ dropWhile ?P as)" using assms by (simp add: secs_sorted_def)
  have high: "sec_virt h n \<le> sec_virt h a" if "a \<in> set (dropWhile ?P as)" for a
  proof -
    have "dropWhile ?P as \<noteq> []" using that by (metis empty_iff list.set(1))
    then obtain b bs where b: "dropWhile ?P as = b # bs" by (meson neq_Nil_conv)
    then have "\<not> ?P b" using hd_dropWhile [of ?P as] by simp
    moreover have "sec_virt h b \<le> sec_virt h a" using parts that unfolding b by (auto simp: sorted_wrt_append)
    ultimately show ?thesis by simp
  qed
  show ?thesis using parts low high by (fastforce simp: secs_sorted_def sec_insert_def sorted_wrt_append)
qed

text \<open>The heap in which only the links have been changed.\<close>

definition unlinked :: "mem_section_t pheap \<Rightarrow> ptr \<Rightarrow> mem_section_t option" where
  "unlinked h a = map_option (\<lambda>x. x\<lparr>sec_next := NULL\<rparr>) (h a)"

lemma unlinked_virt: "unlinked h' = unlinked h \<Longrightarrow> sec_virt h' a = sec_virt h a"
proof -
  assume "unlinked h' = unlinked h"
  then have "unlinked h' a = unlinked h a" by simp
  then have "map_option virt_address (unlinked h' a) = map_option virt_address (unlinked h a)" by simp
  then have "map_option virt_address (h' a) = map_option virt_address (h a)" by (simp add: unlinked_def option.map_comp comp_def)
  then show ?thesis by (cases "h' a"; cases "h a") (auto simp: sec_virt_def)
qed

lemma unlinked_link: "h n = Some y \<Longrightarrow> h (last us) \<noteq> None \<or> us = [] \<Longrightarrow> unlinked (sec_link (h(n \<mapsto> y\<lparr>sec_next := q\<rparr>)) us r) = unlinked h"
  by (auto simp: unlinked_def sec_link_def fun_eq_iff)

definition placed :: "ptr \<Rightarrow> ptr \<Rightarrow> process_t \<Rightarrow> mem_section_t \<Rightarrow> ptr list \<Rightarrow> ptr list \<Rightarrow> 'z kern_scheme \<Rightarrow> 'z kern_scheme option \<Rightarrow> bool" where
  "placed p n x y vs zs s res \<longleftrightarrow> (\<exists>s' x'. res = Some s' \<and>
     sections (vm s') = sec_link ((sections (vm s))(n \<mapsto> y\<lparr>sec_next := (if zs = [] then NULL else hd zs)\<rparr>)) vs n \<and>
     processes (ks s') p = Some x' \<and> first_section x' = (if vs = [] then n else first_section x))"

lemma place_sec_end:
  assumes "processes (ks s) p = Some x" "us \<noteq> []" "sections (vm s) (last us) = Some z" "last us \<noteq> NULL" "last us \<noteq> n"
    and "sections (vm s) n = Some y" "sec_next y = NULL"
  shows "placed p n x y us [] s (process_place_sec p n NULL (last us) s)"
proof -
  have same: "(sections (vm s))(n \<mapsto> y\<lparr>sec_next := NULL\<rparr>) = sections (vm s)" using assms(6,7) by (intro fun_upd_idem) simp
  have "process_place_sec p n NULL (last us) s = on_vs (mem_sec_set_next (last us) n) s" by (simp add: process_place_sec.simps)
  then show ?thesis unfolding placed_def using assms(1-5)
    by (simp add: same on_vs_def mem_sec_set_next_def store_def sec_link_def)
qed

lemma place_sec_here:
  assumes "processes (ks s) p = Some x" "sections (vm s) w = Some z" "w \<noteq> NULL" "w \<noteq> n" "n \<noteq> NULL" "sections (vm s) n = Some y"
    and "us \<noteq> [] \<Longrightarrow> last us \<noteq> NULL \<and> last us \<noteq> n \<and> (\<exists>u. sections (vm s) (last us) = Some u)"
    and "w = first_section x \<longleftrightarrow> us = []" "virt_address y < virt_address z"
  shows "placed p n x y us (w # ws) s (process_place_sec p n w (if us = [] then NULL else last us) s)"
  using assms unfolding placed_def
  by (subst process_place_sec.simps, cases "us = []")
     (auto simp: mem_sec_get_virt_addr_def on_vs_def on_ks_def mem_sec_set_next_def store_def
       sec_link_def process_update_def)

lemma place_sec:
  assumes "processes (ks s) p = Some x" "sec_path (sections (vm s)) (first_section x) (us @ ws)" "us @ ws \<noteq> []"
    and "sections (vm s) n = Some y" "sec_next y = NULL" "n \<notin> set (us @ ws)" "n \<noteq> NULL"
  shows "let P = (\<lambda>a. sec_virt (sections (vm s)) a \<le> virt_address y) in
    placed p n x y (us @ takeWhile P ws) (dropWhile P ws) s
      (process_place_sec p n (if ws = [] then NULL else hd ws) (if us = [] then NULL else last us) s)"
  using assms
proof (induction ws arbitrary: us)
  case Nil
  have us: "us \<noteq> []" "last us \<in> set us" using Nil.prems by simp_all
  then have "last us \<noteq> n" using Nil.prems(6) by auto
  moreover have "last us \<noteq> NULL \<and> (\<exists>z. sections (vm s) (last us) = Some z)" using sec_path_alive [OF Nil.prems(2), of "last us"] us by simp
  ultimately show ?case using place_sec_end [OF Nil.prems(1) us(1) _ _ _ Nil.prems(4,5)] us by auto
next
  case (Cons w ws)
  have w: "w \<noteq> NULL" "w \<noteq> n" using sec_path_alive [OF Cons.prems(2), of w] Cons.prems(6) by auto
  obtain z where z: "sections (vm s) w = Some z" using sec_path_alive [OF Cons.prems(2), of w] by auto
  have "sec_path (sections (vm s)) w (w # ws)" using Cons.prems(2) by (rule sec_path_suffix)
  then have next_w: "sec_next z = (if ws = [] then NULL else hd ws)" using z sec_path_head [of "sections (vm s)" "sec_next z" ws] by simp
  have P: "sec_virt (sections (vm s)) w \<le> virt_address y \<longleftrightarrow> \<not> virt_address y < virt_address z"
    using z by (simp add: sec_virt_def not_less)
  show ?case
  proof (cases "virt_address y < virt_address z")
    case False
    have "process_place_sec p n w (if us = [] then NULL else last us) s =
        process_place_sec p n (if ws = [] then NULL else hd ws) w s"
      using w z False Cons.prems(4) next_w
      by (simp add: process_place_sec.simps [of p n w] mem_sec_get_virt_addr_def mem_sec_get_next_def)
    then show ?thesis
      using Cons.IH [of "us @ [w]"] Cons.prems False P by (simp add: Let_def)
  next
    case True
    have "w = first_section x \<longleftrightarrow> us = []"
      using sec_path_head [OF Cons.prems(2)] sec_path_distinct [OF Cons.prems(2)] by (cases us) auto
    moreover have "last us \<noteq> NULL \<and> last us \<noteq> n \<and> (\<exists>u. sections (vm s) (last us) = Some u)" if "us \<noteq> []"
      using sec_path_alive [OF Cons.prems(2), of "last us"] last_in_set [OF that] Cons.prems(6) by auto
    ultimately show ?thesis
      using place_sec_here [OF Cons.prems(1) z w Cons.prems(7,4) _ _ True, of us ws] True P by (simp add: Let_def)
  qed
qed

lemma secs_sorted_unlinked: "unlinked h' = unlinked h \<Longrightarrow> secs_sorted h' as = secs_sorted h as"
proof -
  assume "unlinked h' = unlinked h"
  then have "sec_virt h' a = sec_virt h a" for a by (rule unlinked_virt)
  then show ?thesis by (simp add: secs_sorted_def)
qed

lemma takeWhile_nonempty_alive: "sec_path h p as \<Longrightarrow> h (last (takeWhile P as)) \<noteq> None \<or> takeWhile P as = []"
  using sec_path_alive [of h p as "last (takeWhile P as)"] set_takeWhileD [of "last (takeWhile P as)" P as] by (metis last_in_set option.distinct(1))

subsection \<open>Numbers of processes\<close>

lemma find_proc_id_spec:
  assumes "list_ok h l" "unat i + n < 2 ^ 32"
  shows "find_proc_id n i l h =
    Some (if max (unat i) (length (list_items h l)) < unat i + n then Some (of_nat (max (unat i) (length (list_items h l)))) else None)"
  using assms(2)
proof (induction n arbitrary: i)
  case (Suc n)
  have i: "unat (i + 1) = Suc (unat i)" using Suc.prems by (simp add: unat_word_ariths)
  show ?case
  proof (cases "unat i < length (list_items h l)")
    case True
    then have "max (unat (i + 1)) (length (list_items h l)) = max (unat i) (length (list_items h l))" using i by simp
    then show ?thesis using True Suc.IH [of "i + 1"] Suc.prems i by (simp add: list_get_spec [OF assms(1)])
  qed (simp add: list_get_spec [OF assms(1)] max_def)
qed simp

lemma get_proc_id_spec:
  assumes "proc_lists s list = Some x" "list_ok (proc_lh s) (process_list x)"
    and "max (unat (last_pid x)) (length (list_items (proc_lh s) (process_list x))) < MAX_PROCESSES"
  shows "get_proc_id list s = (let i = of_nat (max (unat (last_pid x)) (length (list_items (proc_lh s) (process_list x))))
    in Some (i, s\<lparr>proc_lists := (proc_lists s)(list \<mapsto> x\<lparr>last_pid := i\<rparr>)\<rparr>))"
proof -
  have "unat (last_pid x) + (MAX_PROCESSES - unat (last_pid x)) = MAX_PROCESSES" using assms(3) by simp
  then show ?thesis
    using assms find_proc_id_spec [OF assms(2), of "last_pid x" "MAX_PROCESSES - unat (last_pid x)"]
    by (simp add: get_proc_id_def pl_upd_def store_def Let_def MAX_PROCESSES_def)
qed

subsection \<open>Properties\<close>

text \<open>
  C17: Adding a section to a process is insertion into a sorted list.  Let the sections of the process be chained in the order
  of their virtual addresses, and let the new one be none of them.  Then the addition returns, the chain is the old one
  with the new section behind all that do not start after it, it is sorted, and nothing but the links of sections has been changed.
\<close>

theorem process_add_mem_sec_inserts:
  assumes p: "p \<noteq> NULL" "processes (ks s) p = Some x"
    and path: "sec_path (sections (vm s)) (first_section x) as" "secs_sorted (sections (vm s)) as"
    and n: "sections (vm s) n = Some y" "sec_next y = NULL" "n \<notin> set as" "n \<noteq> NULL"
  shows "\<exists>s' x'. process_add_mem_sec p n s = Some s' \<and> processes (ks s') p = Some x' \<and>
    sec_path (sections (vm s')) (first_section x') (sec_insert (sections (vm s)) n as) \<and>
    secs_sorted (sections (vm s')) (sec_insert (sections (vm s)) n as) \<and> unlinked (sections (vm s')) = unlinked (sections (vm s))"
proof (cases "as = []")
  case True
  then have first: "first_section x = NULL" using path(1) by simp
  have "process_add_mem_sec p n s = Some (s\<lparr>ks := (ks s)\<lparr>processes := (processes (ks s))(p \<mapsto> x\<lparr>first_section := n\<rparr>)\<rparr>\<rparr>)"
    using p first by (simp add: process_add_mem_sec_def on_ks_def process_update_def store_def)
  then show ?thesis using n by (simp add: True sec_insert_def secs_sorted_def)
next
  case False
  let ?h = "sections (vm s)"
  let ?P = "\<lambda>a. sec_virt ?h a \<le> virt_address y"
  have ins: "sec_insert ?h n as = takeWhile ?P as @ n # dropWhile ?P as" using n(1) by (simp add: sec_insert_def sec_virt_def)
  have first: "first_section x = hd as" "first_section x \<noteq> NULL"
    using sec_path_head [OF path(1)] sec_path_alive [OF path(1), of "hd as"] False by auto
  have "placed p n x y (takeWhile ?P as) (dropWhile ?P as) s (process_place_sec p n (hd as) NULL s)"
    using place_sec [OF p(2), of "[]" as n y] path n False by (simp add: Let_def)
  moreover have "process_add_mem_sec p n s = process_place_sec p n (hd as) NULL s"
    using p first by (simp add: process_add_mem_sec_def)
  ultimately obtain s' x' where s': "process_add_mem_sec p n s = Some s'" "processes (ks s') p = Some x'"
      "sections (vm s') = sec_link (?h(n \<mapsto> y\<lparr>sec_next := (if dropWhile ?P as = [] then NULL else hd (dropWhile ?P as))\<rparr>)) (takeWhile ?P as) n"
      "first_section x' = (if takeWhile ?P as = [] then n else first_section x)"
    unfolding placed_def by auto
  have "sec_path (sections (vm s')) (first_section x') (takeWhile ?P as @ n # dropWhile ?P as)"
    unfolding s'(3,4) using path(1) n by (intro sec_path_link) simp_all
  moreover have "unlinked (sections (vm s')) = unlinked ?h"
    unfolding s'(3) by (rule unlinked_link [OF n(1) takeWhile_nonempty_alive [OF path(1)]])
  ultimately show ?thesis
    using s'(1,2) secs_sorted_insert [OF path(2), of n] secs_sorted_unlinked [of "sections (vm s')" ?h] by (auto simp: ins)
qed

definition demo_chain :: dkern where
  "demo_chain = empty_kernel\<lparr>
     ks := no_kst\<lparr>processes := [0x20 \<mapsto> \<lparr>p_scheduler = NULL, p_alarm_manager = NULL, process_id = 1, p_threads = [],
         private_pool = 9, memory_pool = 10, p_object_table = NULL, p_object_number = 0, kernel_process = False,
         first_section = 0x40, p_image = [], initial_thread = NULL, parent_pool = NULL, page_table = NULL\<rparr>]\<rparr>,
     vm := no_sections\<lparr>sections :=
       [0x40 \<mapsto> new_section 0x41 9 0 0x1000 0x1000 MMU_RANDOM_ACCESS_MEMORY MMU_ALL_ACCESS MMU_READ_WRITE [],
        0x41 \<mapsto> new_section NULL 9 0 0x8000 0x1000 MMU_RANDOM_ACCESS_MEMORY MMU_ALL_ACCESS MMU_READ_WRITE [],
        0x42 \<mapsto> new_section NULL 9 0 0x4000 0x1000 MMU_RANDOM_ACCESS_MEMORY MMU_ALL_ACCESS MMU_READ_WRITE []]\<rparr>\<rparr>"

theorem process_add_mem_sec_inserts_witness:
  "\<exists>s' x'. process_add_mem_sec 0x20 0x42 demo_chain = Some s' \<and> processes (ks s') 0x20 = Some x' \<and>
    sec_path (sections (vm s')) (first_section x') [0x40, 0x42, 0x41]"
  using process_add_mem_sec_inserts [of "0x20" demo_chain "the (processes (ks demo_chain) 0x20)" "[0x40, 0x41]" "0x42"
      "the (sections (vm demo_chain) 0x42)"]
  by (auto simp: demo_chain_def no_kst_def no_sections_def new_section_def sec_insert_def secs_sorted_def sec_virt_def)

text \<open>
  Two processes get the same number.  The number of a new process is the last number that was given or the length of
  the list of processes, whichever is larger, whatever numbers the processes in the list have; when neither is below
  \<open>MAX_PROCESSES\<close> there is none.  In particular the first process of a new list has the number 1, and
  so does the second one.
\<close>

lemma process_ids_repeat:
  assumes x: "proc_lists s list = Some x" "lheap_ok (proc_lh s)" "lists (proc_lh s) (process_list x) \<noteq> None"
    and last: "0 < last_pid x"
  shows "(let m = max (unat (last_pid x)) (length (list_items (proc_lh s) (process_list x))) in
      \<exists>s1. get_proc_id list s = Some (if m < MAX_PROCESSES then of_nat m else INVALID_PROC_ID, s1)) \<and>
    (last_pid x = 1 \<and> list_items (proc_lh s) (process_list x) = [] \<and> alloc_ok (proc_lh s) \<longrightarrow>
      (\<exists>s1 h s2. get_proc_id list s = Some (1, s1) \<and> list_add (process_list x) proc (proc_lh s1) = Some (True, h) \<and>
         get_proc_id list (s1\<lparr>proc_lh := h\<rparr>) = Some (1, s2)))"
proof -
  let ?n = "length (list_items (proc_lh s) (process_list x))"
  have ok: "list_ok (proc_lh s) (process_list x)" using x(2,3) by (intro list_live_ok) (simp_all add: list_live_def)
  have "\<exists>s1. get_proc_id list s = Some (if max (unat (last_pid x)) ?n < MAX_PROCESSES then of_nat (max (unat (last_pid x)) ?n)
      else INVALID_PROC_ID, s1)"
  proof (cases "max (unat (last_pid x)) ?n < MAX_PROCESSES")
    case True
    then show ?thesis using get_proc_id_spec [OF x(1) ok] by (simp add: Let_def)
  next
    case False
    have "unat (last_pid x) + (MAX_PROCESSES - unat (last_pid x)) < 2 ^ 32"
      using unsigned_less [of "last_pid x", where 'a = nat] by (simp add: MAX_PROCESSES_def)
    then show ?thesis using find_proc_id_spec [OF ok, of "last_pid x" "MAX_PROCESSES - unat (last_pid x)"] x(1) False
      by (auto simp: get_proc_id_def)
  qed
  moreover have "\<exists>s1 h s2. get_proc_id list s = Some (1, s1) \<and> list_add (process_list x) proc (proc_lh s1) = Some (True, h) \<and>
      get_proc_id list (s1\<lparr>proc_lh := h\<rparr>) = Some (1, s2)"
    if new: "last_pid x = 1" "list_items (proc_lh s) (process_list x) = []" "alloc_ok (proc_lh s)"
  proof -
    let ?s1 = "s\<lparr>proc_lists := (proc_lists s)(list \<mapsto> x\<lparr>last_pid := 1\<rparr>)\<rparr>"
    have first: "get_proc_id list s = Some (1, ?s1)"
      using get_proc_id_spec [OF x(1) ok] new by (simp add: Let_def MAX_PROCESSES_def)
    obtain h where h: "list_add (process_list x) proc (proc_lh s) = Some (True, h)"
        "list_becomes (process_list x) (proc_lh s) h [proc]"
      using list_add_spec [OF ok, of proc] new by auto
    have "list_ok h (process_list x)" "list_items h (process_list x) = [proc]"
      using h(2) list_becomes_upd [OF x(2) _ h(2)] x(3) ok by (auto simp: list_live_def seq_upd_def list_becomes_def)
    then have "\<exists>s2. get_proc_id list (?s1\<lparr>proc_lh := h\<rparr>) = Some (1, s2)"
      using get_proc_id_spec [of "?s1\<lparr>proc_lh := h\<rparr>" list "x\<lparr>last_pid := 1\<rparr>"] by (simp add: Let_def MAX_PROCESSES_def)
    then show ?thesis using first h(1) by auto
  qed
  ultimately show ?thesis by (simp add: Let_def)
qed

definition demo_procs :: dkern where
  "demo_procs = empty_kernel\<lparr>
     proc_lists := [0x20 \<mapsto> \<lparr>pl_scheduler = NULL, process_list = 0x30, pl_alarm_manager = NULL, last_pid = 1, pl_kernel_process = NULL\<rparr>],
     proc_lh := \<lparr>elems = Map.empty, lists = [0x30 \<mapsto> \<lparr>l_size = 0, l_head = NULL, l_tail = NULL, l_pool = 9\<rparr>], its = Map.empty,
       answers = [0x40]\<rparr>\<rparr>"

end
