(* ===== verification/Syscall_Props.thy ===== *)
theory Syscall_Props
  imports Empty_Kernel Process_Mem_Props Object_Props Sched_Props
begin

section \<open>System calls: properties\<close>

text \<open>
  What a caller gets from \<open>syscall_handle_system_call\<close>: an object only under its own type, an error for an unknown
  number, and its result in the saved context when the call blocks.
\<close>

subsection \<open>The caller\<close>

text \<open>
  The current thread \<open>t\<close> of the handler's scheduler, its process \<open>p\<close> with well-formed sections and a
  well-formed object table, and the registers \<open>cx\<close> of the exception.
\<close>

definition caller :: "ptr \<Rightarrow> ptr \<Rightarrow> 'z ykern_scheme \<Rightarrow> syscall_handler_t \<Rightarrow> ptr \<Rightarrow> thread_t \<Rightarrow> process_t \<Rightarrow> tgt_context_t \<Rightarrow> bool" where
  "caller handler context s h t x px cx \<longleftrightarrow> handlers s handler = Some h \<and>
     sch_get_current_thread (sh_scheduler h) (ks s) = Some t \<and> t \<noteq> NULL \<and> threads (ks s) t = Some x \<and>
     (\<exists>as. space_ok s (t_parent x) px as) \<and> table_ok (oh s) (p_object_table px) \<and>
     contexts (ks s) context = Some cx \<and> length (c_gpr cx) = 13"

text \<open>The state in which only the result register of the caller has changed.\<close>

definition returned :: "ptr \<Rightarrow> tgt_context_t \<Rightarrow> return_t \<Rightarrow> 'z kern_scheme \<Rightarrow> 'z kern_scheme" where
  "returned context cx ret s = s\<lparr>ks := (ks s)\<lparr>contexts := (contexts (ks s))(context \<mapsto> cx\<lparr>c_gpr := (c_gpr cx)[0 := return_code ret]\<rparr>)\<rparr>\<rparr>"

lemma find_real_total: "sec_path (sections v) p as \<Longrightarrow> \<exists>r. process_find_real p w v = Some r"
proof (induction as arbitrary: p)
  case Nil
  then show ?case by (subst process_find_real.simps) simp
next
  case (Cons a as)
  then obtain y where y: "p = a" "a \<noteq> NULL" "sections v a = Some y" "sec_path (sections v) (sec_next y) as" by (auto split: option.splits)
  then show ?case using Cons.IH [OF y(4)]
    by (subst process_find_real.simps)
       (auto simp: mem_sec_get_virt_addr_def mem_sec_get_size_def mem_sec_get_real_addr_def mem_sec_get_next_def)
qed

lemma virtual_to_real_total:
  assumes "space_ok s p x as"
  shows "\<exists>r. virtual_to_real p w s = Some r"
proof -
  have "p \<noteq> NULL" "processes (ks s) p = Some x" "\<exists>r. process_find_real (first_section x) w (vm s) = Some r"
    using assms find_real_total [of "vm s" "first_section x" as w] by (simp_all add: space_ok_def)
  then show ?thesis
    by (auto simp: virtual_to_real_def process_is_kernel_def process_field_def process_virt_to_real_def Let_def)
qed

lemma caller_params:
  assumes "caller handler context s h t x px cx"
  shows "unat n < 13 \<Longrightarrow> param context n s = Some (c_gpr cx ! unat n)"
    and "unat n < 13 \<Longrightarrow> \<exists>r. param_ptr context (t_parent x) n s = Some r"
    and "thread_get_parent t (ks s) = Some (t_parent x)"
    and "process_get_object_table (t_parent x) (ks s) = Some (p_object_table px)"
    and "\<exists>o'. syscall_get_thread_object (t_parent x) t s = Some o'"
    and "thread_get_state t (ks s) = Some (t_state x)"
proof -
  obtain as where sp: "space_ok s (t_parent x) px as" using assms by (auto simp: caller_def)
  show p: "param context n s = Some (c_gpr cx ! unat n)" if "unat n < 13"
    using assms that by (simp add: caller_def param_def tgt_get_syscall_param_def)
  show "\<exists>r. param_ptr context (t_parent x) n s = Some r" if "unat n < 13"
    using p that virtual_to_real_total [OF sp] by (simp add: param_ptr_def)
  show parent: "thread_get_parent t (ks s) = Some (t_parent x)" and "thread_get_state t (ks s) = Some (t_state x)"
    using assms by (simp_all add: caller_def thread_get_parent_def thread_get_state_def thread_field_def)
  show tbl: "process_get_object_table (t_parent x) (ks s) = Some (p_object_table px)"
    using sp by (simp add: space_ok_def process_get_object_table_def process_field_def)
  show "\<exists>o'. syscall_get_thread_object (t_parent x) t s = Some o'"
    using assms tbl get_object_at [of "oh s" "p_object_table px"]
    by (simp add: syscall_get_thread_object_def caller_def syscall_get_thread_oid_def thread_get_object_no_def thread_field_def)
qed

lemma handle_returns:
  assumes c: "caller handler context s h t x px cx" and run: "t_state x = THREAD_RUNNING \<or> t_state x = THREAD_SYSTEM"
    and api: "syscall_of (c_gpr cx ! 0) = api" "api \<noteq> SYSCALL_LOAD_THREAD" "api \<noteq> SYSCALL_EXIT_THREAD"
    and d: "syscall_dispatch c h api context t s = Some (ret, s)"
  shows "syscall_handle_system_call c handler context s = Some (returned context cx ret s)"
proof -
  have "syscall_finish h api context t ret s = Some (returned context cx ret s)"
    using run api(2,3) c caller_params(6) [OF c]
    by (auto simp: syscall_finish_def returned_def caller_def on_ks_def tgt_set_syscall_return_def store_def)
  moreover have "param context 0 s = Some (c_gpr cx ! 0)" using caller_params(1) [OF c, of 0] by simp
  ultimately show ?thesis using c d api(1) by (simp add: syscall_handle_system_call_def caller_def)
qed

subsection \<open>Objects under their own type\<close>

text \<open>The type of the object that a system call takes by the number in its first parameter.\<close>

fun call_object_type :: "syscall_function_t \<Rightarrow> object_type_t option" where
  "call_object_type SYSCALL_GET_SEMAPHORE = Some SEMAPHORE_OBJ"
| "call_object_type SYSCALL_RELEASE_SEMAPHORE = Some SEMAPHORE_OBJ"
| "call_object_type SYSCALL_CLOSE_SEMAPHORE = Some SEMAPHORE_OBJ"
| "call_object_type SYSCALL_DELETE_PIPE = Some PIPE_OBJ"
| "call_object_type SYSCALL_CLOSE_PIPE = Some PIPE_OBJ"
| "call_object_type SYSCALL_SEND_MESSAGE = Some PIPE_OBJ"
| "call_object_type SYSCALL_RECEIVE_MESSAGE = Some PIPE_OBJ"
| "call_object_type SYSCALL_DESTROY_SHM = Some SHARED_MEMORY_OBJ"
| "call_object_type SYSCALL_CANCEL_TIMER = Some TIMER_OBJ"
| "call_object_type SYSCALL_DELETE_TIMER = Some TIMER_OBJ"
| "call_object_type _ = None"

text \<open>The table has no object of the type under the number.\<close>

definition no_such_object :: "object_type_t \<Rightarrow> ptr \<Rightarrow> object_number_t \<Rightarrow> oheap \<Rightarrow> bool" where
  "no_such_object ty table i s = (case obj_at s table i of None \<Rightarrow> True
     | Some p \<Rightarrow> p = NULL \<or> (case objs s p of None \<Rightarrow> False | Some y \<Rightarrow> obj_type y \<noteq> ty))"

lemma no_such_cast:
  assumes "table_ok s table" "no_such_object ty table i s"
  shows "\<exists>o'. obj_get_object table i s = Some o' \<and> obj_cast ty o' s = Some NULL"
  using assms get_object_at [OF assms(1), of i]
  by (auto simp: no_such_object_def obj_cast_def split: option.splits)

lemma caller_object:
  assumes "caller handler context s h t x px cx" "no_such_object ty (p_object_table px) (ucast (c_gpr cx ! 1)) (oh s)"
  shows "\<exists>o'. syscall_object context (t_parent x) s = Some (ucast (c_gpr cx ! 1), o') \<and> obj_cast ty o' (oh s) = Some NULL"
  using no_such_cast [OF _ assms(2)] assms(1) caller_params(1) [OF assms(1), of 1] caller_params(4) [OF assms(1)]
  by (auto simp: syscall_object_def caller_def)

lemma dispatch_no_such_object:
  assumes c: "caller handler context s h t x px cx" and ty: "call_object_type api = Some ty"
    and no: "no_such_object ty (p_object_table px) (ucast (c_gpr cx ! 1)) (oh s)"
  shows "syscall_dispatch c h api context t s = Some (if ty = TIMER_OBJ then PARAMETERS_NULL else INVALID_OBJECT, s)"
proof -
  obtain o' where o': "syscall_object context (t_parent x) s = Some (ucast (c_gpr cx ! 1), o')" "obj_cast ty o' (oh s) = Some NULL"
    using caller_object [OF c no] by blast
  then have sema: "ty = SEMAPHORE_OBJ \<Longrightarrow> syscall_get_sema_obj (t_parent x) (ucast (c_gpr cx ! 1)) s = Some NULL"
    using caller_params(1) [OF c, of 1]
    by (auto simp: syscall_object_def syscall_get_sema_obj_def obj_cast_semaphore_def bind_eq_Some_conv)
  obtain p2 p3 tobj where p: "param_ptr context (t_parent x) 2 s = Some p2" "param_ptr context (t_parent x) 3 s = Some p3"
      "syscall_get_thread_object (t_parent x) t s = Some tobj"
    using caller_params(2) [OF c, of 2] caller_params(2) [OF c, of 3] caller_params(5) [OF c] by auto
  have q: "param context 1 s = Some (c_gpr cx ! 1)" "param context 2 s = Some (c_gpr cx ! 2)"
      "param context 4 s = Some (c_gpr cx ! 4)" "param context 5 s = Some (c_gpr cx ! 5)"
    using caller_params(1) [OF c, of 1] caller_params(1) [OF c, of 2] caller_params(1) [OF c, of 4] caller_params(1) [OF c, of 5]
    by simp_all
  note par = caller_params(3) [OF c]
  show ?thesis using ty o' sema p q par
    by (cases api)
       (auto simp: syscall_dispatch_def syscall_get_sema_def syscall_release_sema_def syscall_close_sema_def
        syscall_delete_pipe_def syscall_close_pipe_def syscall_send_message_def syscall_receive_message_def
        syscall_destroy_shm_def syscall_cancel_timer_def syscall_delete_timer_def obj_cast_pipe_def obj_cast_shm_def
        obj_cast_timer_def obj_delete_pipe_def obj_delete_shm_def obj_cancel_timer_def obj_delete_timer_def
        obj_pipe_send_message_def obj_pipe_receive_message_def)
qed


definition demo_code :: code_addrs where
  "demo_code = \<lparr>a_bootstrap = 0x8000, a_thread_end = 0x8100, a_timer_thread = 0x8200, a_timer_timeout = 0x8300, a_sleep_callback = 0x8400,
     a_api = 0x9000, a_api_end = 0xA000, usable_memory_end = 0x1000000\<rparr>"

text \<open>A process with a pipe under the number 1, and a running thread that asks for it as a semaphore.\<close>

definition demo_pipe_table :: oheap where
  "demo_pipe_table = (snd (snd (the (obj_add_object 2 99 demo_table))))\<lparr>objs := [99 \<mapsto> \<lparr>object_number = 1, obj_type = PIPE_OBJ\<rparr>]\<rparr>"

definition demo_call :: "thread_state_t \<Rightarrow> u32 list \<Rightarrow> dkern" where
  "demo_call st regs = empty_kernel\<lparr>
     ks := demo\<lparr>threads := (threads demo)(0x103 \<mapsto> (demo_thread 7 0x603)\<lparr>t_parent := 0x50, t_state := st\<rparr>),
       contexts := (contexts demo)(0x700 \<mapsto> (demo_context 3)\<lparr>c_gpr := regs\<rparr>),
       processes := [0x50 \<mapsto> demo_process\<lparr>p_object_table := 2\<rparr>]\<rparr>,
     oh := demo_pipe_table, vm := vm demo_space,
     handlers := [0x60 \<mapsto> \<lparr>sh_process_list = NULL, sh_reg = NULL, sh_scheduler = 0x30, sh_time_manager = NULL, sh_alarm_manager = NULL,
       sh_loader = NULL\<rparr>]\<rparr>"

lemma demo_pipe_table_ok: "table_ok demo_pipe_table 2" "obj_at demo_pipe_table 2 1 = Some 99"
proof -
  let ?x = "\<lparr>ot_pool = 1, the_map = 4, next_id = 1\<rparr>"
  have ok: "table_ok demo_table 2" by (simp add: table_ok_def demo_table_def demo_map_ok obj_key_def)
  have "obj_key 1 = [1, 0]" by (simp add: obj_key_def)
  then have r: "map_room (the_map ?x) (obj_key 1) (mh demo_table)" "obj_at demo_table 2 1 = None"
    using demo_map_room by (simp_all add: demo_table_def obj_at_def demo_map_ok)
  have "\<exists>s'. obj_add_object 2 99 demo_table = Some (NO_ERROR, Some 1, s') \<and> table_ok s' 2 \<and> obj_at s' 2 = (obj_at demo_table 2)(1 \<mapsto> 99) \<and>
      tables s' 2 = Some (?x\<lparr>next_id := 1 + 1\<rparr>)"
    by (rule add_object_stores [OF ok]) (use r in \<open>auto simp: demo_table_def\<close>)
  then obtain s' where s': "obj_add_object 2 99 demo_table = Some (NO_ERROR, Some 1, s')" "table_ok s' 2" "obj_at s' 2 1 = Some 99"
    by auto
  have "table_ok (s'\<lparr>objs := f\<rparr>) 2 = table_ok s' 2" "obj_at (s'\<lparr>objs := f\<rparr>) 2 1 = obj_at s' 2 1" for f
    by (simp_all add: table_ok_def obj_at_def split: option.split)
  then show "table_ok demo_pipe_table 2" "obj_at demo_pipe_table 2 1 = Some 99"
    using s' by (simp_all add: demo_pipe_table_def)
qed

lemma demo_call_space: "space_ok (demo_call st regs) 0x50 (demo_process\<lparr>p_object_table := 2\<rparr>) [0x10, 0x11, 0x12]"
  using demo_space_ok unfolding space_ok_def
  by (simp add: demo_call_def empty_kernel_def)

lemma demo_call_caller:
  "length regs = 13 \<Longrightarrow> caller 0x60 0x700 (demo_call st regs) (the (handlers (demo_call st regs) 0x60)) 0x103
     ((demo_thread 7 0x603)\<lparr>t_parent := 0x50, t_state := st\<rparr>) (demo_process\<lparr>p_object_table := 2\<rparr>) ((demo_context 3)\<lparr>c_gpr := regs\<rparr>)"
  using demo_call_space [of st regs] demo_pipe_table_ok(1)
  by (auto simp: caller_def) (auto simp: demo_call_def empty_kernel_def sch_get_current_thread_def demo_def demo_sc_def)


subsection \<open>Unknown numbers and blocking calls\<close>

text \<open>
  A number that is not the one of a system call (0, 18, which is no longer used, and every number from 35 on) gives
  the caller \<open>ERROR_UNKNOWN_SYSCALL\<close>, and nothing else in the kernel changes.
\<close>

lemma syscall_unknown_rejected:
  assumes "caller handler context s h t x px cx" "t_state x = THREAD_RUNNING \<or> t_state x = THREAD_SYSTEM"
    and "c_gpr cx ! 0 = 0 \<or> c_gpr cx ! 0 = 18 \<or> 35 \<le> c_gpr cx ! 0"
  shows "syscall_handle_system_call c handler context s = Some (returned context cx ERROR_UNKNOWN_SYSCALL s)"
proof -
  have l: "length syscall_functions = 35" by code_simp
  have "syscall_of 0 = SYSCALL_UNKNOWN" "syscall_of 18 = SYSCALL_RECEIVED_MESSAGE_NOT_USED" by code_simp+
  moreover have "syscall_of n = MAX_SYSCALL" if "35 \<le> n" for n
    using that l by (simp add: syscall_of_def word_le_nat_alt)
  ultimately have api: "syscall_of (c_gpr cx ! 0) \<in> {SYSCALL_UNKNOWN, SYSCALL_RECEIVED_MESSAGE_NOT_USED, MAX_SYSCALL}"
    using assms(3) by auto
  then have "syscall_dispatch c h (syscall_of (c_gpr cx ! 0)) context t s = Some (ERROR_UNKNOWN_SYSCALL, s)"
    by (auto simp: syscall_dispatch_def)
  then show ?thesis using handle_returns [OF assms(1,2) HOL.refl] api by auto
qed

text \<open>
  C10: a system call that blocks.  When the caller \<open>cur\<close> is neither running nor a system thread once the call is done (it waits, say), its
  result is in the registers saved for it, to be found when it runs again, and the processor goes on with
  the registers saved for the first thread of the current queue, which becomes the current thread; no other
  saved context changes.
\<close>

theorem syscall_blocking_switches:
  assumes call: "handlers s handler = Some h" "param context 0 s = Some n" "sch_get_current_thread (sh_scheduler h) (ks s) = Some cur"
      "syscall_of n \<noteq> SYSCALL_LOAD_THREAD" "syscall_of n \<noteq> SYSCALL_EXIT_THREAD"
      "syscall_dispatch c h (syscall_of n) context cur s = Some (ret, s1)"
    and sched: "sched_wf (ks s1) sc" "scheds (ks s1) (sh_scheduler h) = Some sc" "curr_queue sc = priority_queues sc p"
      "ready (ks s1) sc p = t # ts" "length (ready (ks s1) sc p) \<noteq> 2" "queue_back (cols (ks s1)) (curr_queue sc)"
      "threads (ks s1) t = Some x" "runnable (t_state x)" "idle_thread sc \<noteq> NULL"
    and cur: "curr_thread sc = cur" "cur \<noteq> NULL" "cur \<noteq> t" "threads (ks s1) cur = Some y"
      "t_state y \<notin> {THREAD_RUNNING, THREAD_SYSTEM, THREAD_DEAD}"
    and ctx: "context \<noteq> NULL" "contexts (ks s1) context = Some now" "contexts (ks s1) (t_context y) \<noteq> None"
      "t_context y \<noteq> NULL" "t_context y \<noteq> context" "contexts (ks s1) (t_context x) = Some saved"
      "t_context x \<noteq> t_context y" "t_context x \<noteq> context"
    and proc: "t_parent x \<noteq> NULL \<Longrightarrow> processes (ks s1) (t_parent x) \<noteq> None"
  shows "\<exists>s' sc'. syscall_handle_system_call c handler context s = Some s' \<and>
    scheds (ks s') (sh_scheduler h) = Some sc' \<and> curr_thread sc' = t \<and> sched_wf (ks s') sc' \<and>
    threads (ks s') = (threads (ks s1))(t \<mapsto> x\<lparr>t_state := THREAD_RUNNING\<rparr>) \<and>
    contexts (ks s') = (contexts (ks s1))(t_context y \<mapsto> now\<lparr>c_gpr := (c_gpr now)[0 := return_code ret]\<rparr>, context \<mapsto> saved)"
proof -
  define k where "k = (ks s1)\<lparr>contexts := (contexts (ks s1))(context \<mapsto> now\<lparr>c_gpr := (c_gpr now)[0 := return_code ret]\<rparr>)\<rparr>"
  have k: "tgt_set_syscall_return context (return_code ret) (ks s1) = Some k"
    using ctx(2) by (simp add: tgt_set_syscall_return_def store_def k_def)
  have same: "sched_wf k sc" "ready k sc = ready (ks s1) sc"
    using sched_wf_threads [OF sched(1), of k sc] by (auto simp: k_def ready_def)
  have nd: "t_state y \<noteq> THREAD_DEAD" using cur(5) by simp
  have "\<exists>k' sc'. sch_set_context_for_next_thread (sh_scheduler h) context (t_state y) k = Some k' \<and>
      scheds k' (sh_scheduler h) = Some sc' \<and> curr_thread sc' = t \<and> sched_wf k' sc' \<and>
      ready k' sc' = (ready k sc)(p := swapped (ready k sc p)) \<and>
      threads k' = (threads k)(t \<mapsto> x\<lparr>t_state := THREAD_RUNNING\<rparr>, cur \<mapsto> stopped (t_state y) y) \<and>
      contexts k' = (contexts k)(t_context y \<mapsto> now\<lparr>c_gpr := (c_gpr now)[0 := return_code ret]\<rparr>, context \<mapsto> saved) \<and>
      hw k' = hw k @ parent_switch y x k @ (if ts = [] then [] else [Enable_Schedule_Timer])"
    by (rule sch_switch_spec [OF same(1)]) (use sched cur ctx proc same(2) in \<open>simp_all add: k_def\<close>)
  then obtain k' sc' where k': "sch_set_context_for_next_thread (sh_scheduler h) context (t_state y) k = Some k'"
      "scheds k' (sh_scheduler h) = Some sc'" "curr_thread sc' = t" "sched_wf k' sc'"
      "threads k' = (threads k)(t \<mapsto> x\<lparr>t_state := THREAD_RUNNING\<rparr>, cur \<mapsto> stopped (t_state y) y)"
      "contexts k' = (contexts k)(t_context y \<mapsto> now\<lparr>c_gpr := (c_gpr now)[0 := return_code ret]\<rparr>, context \<mapsto> saved)"
    by blast
  have "stopped (t_state y) y = y" using cur(5) by (simp add: stopped_def)
  then have t: "threads k' = (threads (ks s1))(t \<mapsto> x\<lparr>t_state := THREAD_RUNNING\<rparr>)"
    using k'(5) cur(3,4) by (simp add: k_def fun_upd_idem)
  have c: "contexts k' = (contexts (ks s1))(t_context y \<mapsto> now\<lparr>c_gpr := (c_gpr now)[0 := return_code ret]\<rparr>, context \<mapsto> saved)"
    using k'(6) ctx(5) by (simp add: k_def fun_upd_twist)
  have "thread_get_state cur (ks s1) = Some (t_state y)" using cur(2,4) by (simp add: thread_get_state_def thread_field_def)
  then have "syscall_finish h (syscall_of n) context cur ret s1 = Some (s1\<lparr>ks := k'\<rparr>)"
    using call(4,5) cur(5) k k'(1) by (simp add: syscall_finish_def on_ks_def)
  then show ?thesis using call k' t c
    by (intro exI [of _ "s1\<lparr>ks := k'\<rparr>"] exI [of _ sc']) (simp add: syscall_handle_system_call_def)
qed

theorem syscall_blocking_switches_witness:
  "\<exists>s' sc' cx'. syscall_handle_system_call demo_code 0x60 0x700 (demo_call THREAD_WAITING [29, 0, 0, 0, 0, 0, 0, 0, 0, 0, 0, 0, 0]) = Some s' \<and>
     scheds (ks s') 0x30 = Some sc' \<and> curr_thread sc' = 0x100 \<and> contexts (ks s') 0x700 = Some (demo_context 1) \<and>
     contexts (ks s') 0x603 = Some cx' \<and> c_gpr cx' ! 0 = 1"
proof -
  let ?s = "demo_call THREAD_WAITING [29, 0, 0, 0, 0, 0, 0, 0, 0, 0, 0, 0, 0]"
  let ?y = "(demo_thread 7 0x603)\<lparr>t_parent := 0x50, t_state := THREAD_WAITING\<rparr>"
  let ?cx = "(demo_context 3)\<lparr>c_gpr := [29, 0, 0, 0, 0, 0, 0, 0, 0, 0, 0, 0, 0 :: u32]\<rparr>"
  let ?s1 = "?s\<lparr>board := board ?s @ [Wait_For_Interrupt]\<rparr>"
  have c: "caller 0x60 0x700 ?s (the (handlers ?s 0x60)) 0x103 ?y (demo_process\<lparr>p_object_table := 2\<rparr>) ?cx"
    by (rule demo_call_caller) simp
  have api: "syscall_of 29 = SYSCALL_WFI" "return_code NO_ERROR = 1" by code_simp+
  have "threads demo 0x103 = Some (demo_thread 7 0x603)" by (simp add: demo_def)
  then have "sched_wf (ks ?s) demo_sc"
    by (intro sched_wf_threads [OF demo_wf(1)]) (auto simp: demo_call_def empty_kernel_def)
  moreover have "ready (ks ?s) demo_sc = ready demo demo_sc" by (simp add: ready_def demo_call_def empty_kernel_def fun_eq_iff)
  moreover have "queue_back (cols demo) 0x1005"
    using demo_lists_view(4) pq5(3) by (auto simp: queue_back_def demo_def demo_own)
  moreover have "curr_queue demo_sc = 0x1005" "priority_queues demo_sc 5 = 0x1005" "idle_thread demo_sc = 0x10F"
    "curr_thread demo_sc = 0x103" by (simp_all add: demo_sc_def pq5)
  moreover have "cols (ks ?s) = cols demo" "scheds (ks ?s) 0x30 = Some demo_sc" "threads (ks ?s) 0x103 = Some ?y"
    "threads (ks ?s) 0x100 = Some (demo_thread 5 0x600)" "contexts (ks ?s) 0x700 = Some ?cx" "contexts (ks ?s) 0x600 = Some (demo_context 1)"
    "contexts (ks ?s) 0x603 = Some (demo_context 2)" "sh_scheduler (the (handlers ?s 0x60)) = 0x30"
    by (simp_all add: demo_call_def empty_kernel_def demo_def)
  moreover have "syscall_dispatch demo_code (the (handlers ?s 0x60)) SYSCALL_WFI 0x700 0x103 ?s = Some (NO_ERROR, ?s1)"
    by (simp add: syscall_dispatch_def syscall_wfi_def)
  moreover have "param 0x700 0 ?s = Some 29" using caller_params(1) [OF c, of 0] by simp
  moreover have "t_context (demo_thread q a) = a" "t_parent (demo_thread q a) = NULL" "runnable (t_state (demo_thread q a))"
    for q a by (simp_all add: demo_thread_def runnable_def)
  ultimately show ?thesis
    using syscall_blocking_switches [of ?s "0x60" "the (handlers ?s 0x60)" "0x700" 29 "0x103" demo_code NO_ERROR ?s1 demo_sc 5 "0x100" "[0x101, 0x102]"
        "demo_thread 5 0x600" ?y ?cx "demo_context 1"] c api
    by (auto simp: caller_def demo_ready)
qed

end
