(* ===== verification/Arm_Vec.thy ===== *)
theory Arm_Vec
  imports Thread
begin

section \<open>Exceptions of the processor (\<open>arm_vec.c\<close>, \<open>arm_cpsr.c\<close>)\<close>

text \<open>
  The code in front of and behind a handler is a sequence of instructions on the registers of the processor.  The
  stack pointer and the link register exist once for the user and the system mode and once for the mode of the exception; the memory
  is a function from addresses to words.
\<close>

unbundle bit_operations_syntax

subsection \<open>Registers\<close>

record arm_state =
  a_r :: "u32 list"
  sp_user :: u32
  lr_user :: u32
  sp_exc :: u32
  lr_exc :: u32
  a_cpsr :: u32
  a_spsr :: u32
  a_pc :: u32
  a_mem :: "u32 \<Rightarrow> u32"

datatype psr_mode_t = PSR_MODE_USER | PSR_MODE_FIQ | PSR_MODE_IRQ | PSR_MODE_SUPERVISOR | PSR_MODE_ABORT | PSR_MODE_UNDEFINED
  | PSR_MODE_SYSTEM

fun psr_mode :: "psr_mode_t \<Rightarrow> u32" where
  "psr_mode PSR_MODE_USER = 0x10"
| "psr_mode PSR_MODE_FIQ = 0x11"
| "psr_mode PSR_MODE_IRQ = 0x12"
| "psr_mode PSR_MODE_SUPERVISOR = 0x13"
| "psr_mode PSR_MODE_ABORT = 0x17"
| "psr_mode PSR_MODE_UNDEFINED = 0x1B"
| "psr_mode PSR_MODE_SYSTEM = 0x1F"

text \<open>The status register and the two interrupt bits.\<close>

definition arm_get_psr_mode :: "u32 \<Rightarrow> u32" where
  "arm_get_psr_mode cpsr = cpsr AND 0x1F"

definition arm_enable_irq :: "u32 \<Rightarrow> u32" where
  "arm_enable_irq cpsr = cpsr AND NOT (push_bit 7 1)"

definition arm_disable_irq :: "u32 \<Rightarrow> u32" where
  "arm_disable_irq cpsr = cpsr OR push_bit 7 1"

definition arm_disable_fiq :: "u32 \<Rightarrow> u32" where
  "arm_disable_fiq cpsr = cpsr OR push_bit 6 1"

definition user_bank :: "arm_state \<Rightarrow> bool" where
  "user_bank st \<longleftrightarrow> arm_get_psr_mode (a_cpsr st) = psr_mode PSR_MODE_USER \<or> arm_get_psr_mode (a_cpsr st) = psr_mode PSR_MODE_SYSTEM"

definition reg_sp :: "arm_state \<Rightarrow> u32" where
  "reg_sp st = (if user_bank st then sp_user st else sp_exc st)"

definition reg_lr :: "arm_state \<Rightarrow> u32" where
  "reg_lr st = (if user_bank st then lr_user st else lr_exc st)"

definition set_sp :: "u32 \<Rightarrow> arm_state \<Rightarrow> arm_state" where
  "set_sp v st = (if user_bank st then st\<lparr>sp_user := v\<rparr> else st\<lparr>sp_exc := v\<rparr>)"

definition set_lr :: "u32 \<Rightarrow> arm_state \<Rightarrow> arm_state" where
  "set_lr v st = (if user_bank st then st\<lparr>lr_user := v\<rparr> else st\<lparr>lr_exc := v\<rparr>)"

definition set_r :: "nat \<Rightarrow> u32 \<Rightarrow> arm_state \<Rightarrow> arm_state" where
  "set_r i v st = st\<lparr>a_r := (a_r st)[i := v]\<rparr>"

subsection \<open>The stack\<close>

primrec store_words :: "u32 \<Rightarrow> u32 list \<Rightarrow> (u32 \<Rightarrow> u32) \<Rightarrow> (u32 \<Rightarrow> u32)" where
  "store_words a [] m = m"
| "store_words a (w # ws) m = store_words (a + 4) ws (m(a := w))"

primrec load_words :: "nat \<Rightarrow> u32 \<Rightarrow> (u32 \<Rightarrow> u32) \<Rightarrow> u32 list" where
  "load_words 0 a m = []"
| "load_words (Suc n) a m = m a # load_words n (a + 4) m"

text \<open>The first word of a push ends up at the lowest address.\<close>

definition arm_push :: "u32 list \<Rightarrow> arm_state \<Rightarrow> arm_state" where
  "arm_push ws st =
     (let a = reg_sp st - of_nat (4 * length ws)
      in set_sp a (st\<lparr>a_mem := store_words a ws (a_mem st)\<rparr>))"

definition arm_pop :: "nat \<Rightarrow> arm_state \<Rightarrow> u32 list \<times> arm_state" where
  "arm_pop n st = (load_words n (reg_sp st) (a_mem st), set_sp (reg_sp st + of_nat (4 * n)) st)"

subsection \<open>Entry and return\<close>

definition SWITCH_TO_SYSTEM_MODE :: "arm_state \<Rightarrow> arm_state" where
  "SWITCH_TO_SYSTEM_MODE st =
     (let st = set_r 0 (a_cpsr st) st;
          st = set_r 2 (a_r st ! 0) st;
          st = set_r 1 0xFFFFFF80 st;
          st = set_r 0 (a_r st ! 0 AND a_r st ! 1) st;
          st = set_r 1 0xDF st;
          st = set_r 0 (a_r st ! 0 OR a_r st ! 1) st
      in st\<lparr>a_cpsr := a_r st ! 0\<rparr>)"

definition SWITCH_BACK :: "arm_state \<Rightarrow> arm_state" where
  "SWITCH_BACK st = st\<lparr>a_cpsr := a_r st ! 2\<rparr>"

definition EXCEPTION_START_COMMON :: "arm_state \<Rightarrow> arm_state" where
  "EXCEPTION_START_COMMON st =
     (let st = arm_push (a_r st @ [reg_lr st]) st;
          st = set_r 0 (a_spsr st) st;
          st = arm_push [a_r st ! 0] st;
          st = SWITCH_TO_SYSTEM_MODE st;
          st = set_r 3 (reg_sp st) st;
          st = set_r 4 (reg_lr st) st;
          st = SWITCH_BACK st;
          st = arm_push [a_r st ! 3, a_r st ! 4] st
      in set_r 1 (reg_sp st) st)"

definition EXCEPTION_START_VECTOR :: "arm_state \<Rightarrow> arm_state" where
  "EXCEPTION_START_VECTOR st = EXCEPTION_START_COMMON (set_lr (reg_lr st - 4) st)"

text \<open>The last instruction also moves the saved status register into the status register.\<close>

definition EXCEPTION_END :: "arm_state \<Rightarrow> arm_state" where
  "EXCEPTION_END st =
     (let (ws, st) = arm_pop 2 st;
          st = set_r 3 (ws ! 0) st;
          st = set_r 4 (ws ! 1) st;
          st = SWITCH_TO_SYSTEM_MODE st;
          st = set_sp (a_r st ! 3) st;
          st = set_lr (a_r st ! 4) st;
          st = SWITCH_BACK st;
          (ws, st) = arm_pop 1 st;
          st = set_r 0 (ws ! 0) st;
          st = st\<lparr>a_spsr := a_r st ! 0\<rparr>;
          (ws, st) = arm_pop 14 st
      in st\<lparr>a_r := take 13 ws, a_pc := ws ! 13, a_cpsr := a_spsr st\<rparr>)"

text \<open>The structure that the handlers see.\<close>

definition get_context :: "u32 \<Rightarrow> (u32 \<Rightarrow> u32) \<Rightarrow> tgt_context_t" where
  "get_context p m = \<lparr>c_sp = m p, c_lr = m (p + 4), c_cpsr = m (p + 8), c_gpr = load_words 13 (p + 12) m, c_pc = m (p + 64)\<rparr>"

text \<open>
  An exception: the system call does not correct the return address, the others do.  The handler gets the address of the context.
  The fast interrupt has registers 8 to 12 of its own and is not covered.
\<close>

definition arm_vector :: "bool \<Rightarrow> (u32 \<Rightarrow> arm_state \<Rightarrow> arm_state) \<Rightarrow> arm_state \<Rightarrow> arm_state" where
  "arm_vector system_call handler st =
     (let st = (if system_call then EXCEPTION_START_COMMON st else EXCEPTION_START_VECTOR st)
      in EXCEPTION_END (handler (a_r st ! 1) st))"

definition arm_vector_system_call :: "(u32 \<Rightarrow> arm_state \<Rightarrow> arm_state) \<Rightarrow> arm_state \<Rightarrow> arm_state" where
  "arm_vector_system_call handler st = arm_vector True handler st"

subsection \<open>The table of vectors\<close>

datatype arm_vec_t = VECTOR_RESET | VECTOR_UNDEFINED | VECTOR_SYSTEM_CALL | VECTOR_PRETECH_ABORT | VECTOR_DATA_ABORT
  | VECTOR_RESERVED | VECTOR_IRQ | VECTOR_FIQ

fun vector_no :: "arm_vec_t \<Rightarrow> u32" where
  "vector_no VECTOR_RESET = 0"
| "vector_no VECTOR_UNDEFINED = 1"
| "vector_no VECTOR_SYSTEM_CALL = 2"
| "vector_no VECTOR_PRETECH_ABORT = 3"
| "vector_no VECTOR_DATA_ABORT = 4"
| "vector_no VECTOR_RESERVED = 5"
| "vector_no VECTOR_IRQ = 6"
| "vector_no VECTOR_FIQ = 7"

definition OFFSET_FOR_PREFETCH :: u32 where "OFFSET_FOR_PREFETCH = 8"
definition ALIGNMENT_SHIFT :: nat where "ALIGNMENT_SHIFT = 2"
definition BRANCH_INSTRUCTION :: u32 where "BRANCH_INSTRUCTION = 0xEA000000"

definition GET_BRANCH_FOR_VECTOR :: "u32 \<Rightarrow> u32 \<Rightarrow> u32" where
  "GET_BRANCH_FOR_VECTOR v i = drop_bit ALIGNMENT_SHIFT (v - i * 4 - OFFSET_FOR_PREFETCH) OR BRANCH_INSTRUCTION"

subsection \<open>The first code of a thread\<close>

text \<open>
  The first code of a thread (\<open>arm.c\<close>).  A program in user mode writes only the flags of the status register.  \<open>blx a\<close> is the code at the address \<open>a\<close> up to its return.
\<close>

definition arm_msr_cpsr :: "u32 \<Rightarrow> arm_state \<Rightarrow> arm_state" where
  "arm_msr_cpsr v st =
     st\<lparr>a_cpsr := if arm_get_psr_mode (a_cpsr st) = psr_mode PSR_MODE_USER then (a_cpsr st AND 0x00FFFFFF) OR (v AND 0xFF000000)
       else (a_cpsr st AND 0x00FFFF00) OR (v AND 0xFF0000FF)\<rparr>"

definition arm_str :: "nat \<Rightarrow> u32 \<Rightarrow> arm_state \<Rightarrow> arm_state" where
  "arm_str i a st = st\<lparr>a_mem := (a_mem st)(a := a_r st ! i)\<rparr>"

text \<open>Its parts: the frame with the three parameters, user mode, the parameters again, and the end.\<close>

definition bootstrap_frame :: "arm_state \<Rightarrow> arm_state" where
  "bootstrap_frame st =
     (let st = arm_push [a_r st ! 11, reg_lr st] st;
          st = set_r 11 (reg_sp st + 4) st;
          st = set_sp (reg_sp st - 16) st
      in arm_str 2 (a_r st ! 11 - 16) (arm_str 1 (a_r st ! 11 - 12) (arm_str 0 (a_r st ! 11 - 8) st)))"

definition bootstrap_mode :: "arm_state \<Rightarrow> arm_state" where
  "bootstrap_mode st =
     (let st = set_r 7 (a_cpsr st) st;
          st = set_r 8 0xFFFFFF20 st;
          st = set_r 7 (a_r st ! 7 AND a_r st ! 8) st;
          st = set_r 7 (a_r st ! 7 OR 0x10) st
      in arm_msr_cpsr (a_r st ! 7) st)"

definition bootstrap_params :: "arm_state \<Rightarrow> arm_state" where
  "bootstrap_params st =
     (let st = set_r 0 (a_mem st (a_r st ! 11 - 8)) st;
          st = set_r 1 (a_mem st (a_r st ! 11 - 12)) st;
          st = set_r 2 (a_mem st (a_r st ! 11 - 16)) st
      in set_r 3 (a_mem st (a_r st ! 11 - 8)) st)"

definition bootstrap_end :: "arm_state \<Rightarrow> arm_state" where
  "bootstrap_end st = (let (ws, st) = arm_pop 2 (set_sp (a_r st ! 11 - 4) st) in set_lr (ws ! 1) (set_r 11 (ws ! 0) st))"

definition arm_bootstrap :: "(u32 \<Rightarrow> arm_state \<Rightarrow> arm_state) \<Rightarrow> arm_state \<Rightarrow> arm_state" where
  "arm_bootstrap blx st =
     (let st = bootstrap_params (bootstrap_mode (bootstrap_frame st));
          st = blx (a_r st ! 3) st;
          st = set_r 3 (a_mem st (a_r st ! 11 - 12)) st;
          st = blx (a_r st ! 3) st
      in bootstrap_end st)"

subsection \<open>Exceptions of the processor: properties\<close>

text \<open>
  An exception saves the registers of the interrupted program where its handler sees them as a context, and returns to what the context
  says then; the branches in the table of vectors lead to the code of each exception.
\<close>

unbundle bit_operations_syntax

subsubsection \<open>Modes\<close>

lemma system_mode_banks:
  "user_bank (st\<lparr>a_cpsr := (c AND 0xFFFFFF80) OR 0xDF\<rparr>)"
proof -
  have "((c AND 0xFFFFFF80) OR 0xDF) AND 0x1F = (0x1F :: u32)" for c :: u32
    by (simp add: bit.conj_disj_distrib2 and.assoc)
  then show ?thesis by (simp add: user_bank_def arm_get_psr_mode_def)
qed

subsubsection \<open>Words on the stack\<close>

text \<open>The words of a frame are named by their number above its lowest address \<open>p\<close>.\<close>

lemma frame_inj: "j < 2 ^ 30 \<Longrightarrow> k < 2 ^ 30 \<Longrightarrow> p + of_nat (4 * j) = p + (of_nat (4 * k) :: u32) \<longleftrightarrow> j = k"
proof -
  assume "j < 2 ^ 30" "k < 2 ^ 30"
  then have "unat (of_nat (4 * j) :: u32) = 4 * j" "unat (of_nat (4 * k) :: u32) = 4 * k"
    by (simp_all only: unat_of_nat) (simp_all add: take_bit_nat_eq_self)
  then show ?thesis by (metis add_left_cancel mult_cancel1 zero_neq_numeral)
qed

lemma store_words_at:
  "j < 2 ^ 30 \<Longrightarrow> k + length ws < 2 ^ 30 \<Longrightarrow> store_words (p + of_nat (4 * k)) ws m (p + of_nat (4 * j)) =
    (if k \<le> j \<and> j < k + length ws then ws ! (j - k) else m (p + of_nat (4 * j)))"
proof (induction ws arbitrary: k m)
  case (Cons w ws)
  have "p + of_nat (4 * k) + 4 = p + (of_nat (4 * Suc k) :: u32)" by (simp add: algebra_simps)
  then have "store_words (p + of_nat (4 * k)) (w # ws) m (p + of_nat (4 * j)) =
      store_words (p + of_nat (4 * Suc k)) ws (m(p + of_nat (4 * k) := w)) (p + of_nat (4 * j))" by (simp only: store_words.simps)
  also have "\<dots> = (if Suc k \<le> j \<and> j < Suc k + length ws then ws ! (j - Suc k)
      else (m(p + of_nat (4 * k) := w)) (p + of_nat (4 * j)))"
    using Cons.prems by (intro Cons.IH) simp_all
  also have "\<dots> = (if k \<le> j \<and> j < k + length (w # ws) then (w # ws) ! (j - k) else m (p + of_nat (4 * j)))"
    using Cons.prems frame_inj [of j k p] by (auto simp: nth_Cons' simp del: of_nat_mult)
  finally show ?case .
qed auto

lemma load_words_map: "load_words n (p + of_nat (4 * k)) m = map (\<lambda>j. m (p + of_nat (4 * j))) [k ..< k + n]"
proof (induction n arbitrary: k)
  case (Suc n)
  have "p + of_nat (4 * k) + 4 = p + (of_nat (4 * Suc k) :: u32)" by (simp add: algebra_simps)
  then have "load_words (Suc n) (p + of_nat (4 * k)) m = m (p + of_nat (4 * k)) # load_words n (p + of_nat (4 * Suc k)) m" by (simp only: load_words.simps)
  also have "\<dots> = m (p + of_nat (4 * k)) # map (\<lambda>j. m (p + of_nat (4 * j))) [Suc k ..< Suc k + n]" by (simp only: Suc)
  also have "\<dots> = map (\<lambda>j. m (p + of_nat (4 * j))) [k ..< k + Suc n]" using upt_conv_Cons [of k "k + Suc n"] by (simp del: upt_Suc of_nat_mult)
  finally show ?case .
qed simp

definition frame_word :: "u32 \<Rightarrow> (u32 \<Rightarrow> u32) \<Rightarrow> nat \<Rightarrow> u32" where
  "frame_word p m j = m (p + of_nat (4 * j))"

lemma get_context_words:
  "get_context p m = \<lparr>c_sp = frame_word p m 0, c_lr = frame_word p m 1, c_cpsr = frame_word p m 2,
     c_gpr = map (frame_word p m) [3 ..< 16], c_pc = frame_word p m 16\<rparr>"
  using load_words_map [of 13 p 3 m] by (simp add: get_context_def frame_word_def [abs_def])

subsubsection \<open>Entry and return\<close>

lemma bank_steps [simp]:
  "user_bank (st\<lparr>a_r := r\<rparr>) = user_bank st" "user_bank (st\<lparr>a_mem := m\<rparr>) = user_bank st" "user_bank (st\<lparr>sp_exc := v\<rparr>) = user_bank st"
  "user_bank (st\<lparr>sp_user := v\<rparr>) = user_bank st" "user_bank (st\<lparr>lr_user := v\<rparr>) = user_bank st" "user_bank (st\<lparr>lr_exc := v\<rparr>) = user_bank st"
  "user_bank (st\<lparr>a_spsr := v\<rparr>) = user_bank st"
  by (simp_all add: user_bank_def)

lemma exc_push:
  "\<not> user_bank st \<Longrightarrow> arm_push ws st = st\<lparr>a_mem := store_words (sp_exc st - of_nat (4 * length ws)) ws (a_mem st),
     sp_exc := sp_exc st - of_nat (4 * length ws)\<rparr>"
  by (simp add: arm_push_def reg_sp_def set_sp_def Let_def)

text \<open>In between the stack pointer and the link register are those of the user.\<close>

lemma to_system_mode:
  assumes "length (a_r st) = 13"
  obtains R C where "SWITCH_TO_SYSTEM_MODE st = st\<lparr>a_r := R, a_cpsr := C\<rparr>" "length R = 13" "R ! 2 = a_cpsr st"
    "R ! 3 = a_r st ! 3" "R ! 4 = a_r st ! 4" "\<forall>x. user_bank (x\<lparr>a_cpsr := C\<rparr>)"
  using assms system_mode_banks [where c = "a_cpsr st"]
  by (simp add: SWITCH_TO_SYSTEM_MODE_def set_r_def Let_def)

lemma start_common:
  assumes st: "\<not> user_bank st" "length (a_r st) = 13"
  obtains R where "length R = 13" "R ! 1 = sp_exc st - 68"
    "EXCEPTION_START_COMMON st = st\<lparr>a_r := R, sp_exc := sp_exc st - 68,
       a_mem := store_words (sp_exc st - 68) [sp_user st, lr_user st] (store_words (sp_exc st - 60) [a_spsr st]
         (store_words (sp_exc st - 56) (a_r st @ [lr_exc st]) (a_mem st)))\<rparr>"
proof -
  let ?m1 = "store_words (sp_exc st - 56) (a_r st @ [lr_exc st]) (a_mem st)"
  let ?m2 = "store_words (sp_exc st - 60) [a_spsr st] ?m1"
  define s1 where "s1 = arm_push (a_r st @ [reg_lr st]) st"
  define s2 where "s2 = set_r 0 (a_spsr s1) s1"
  define s3 where "s3 = arm_push [a_r s2 ! 0] s2"
  define s4 where "s4 = SWITCH_TO_SYSTEM_MODE s3"
  define s5 where "s5 = set_r 3 (reg_sp s4) s4"
  define s6 where "s6 = set_r 4 (reg_lr s5) s5"
  define s7 where "s7 = SWITCH_BACK s6"
  define s8 where "s8 = arm_push [a_r s7 ! 3, a_r s7 ! 4] s7"
  have s1: "s1 = st\<lparr>a_mem := ?m1, sp_exc := sp_exc st - 56\<rparr>"
    using st by (simp add: s1_def exc_push reg_lr_def)
  have s3: "s3 = st\<lparr>a_r := (a_r st)[0 := a_spsr st], a_mem := ?m2, sp_exc := sp_exc st - 60\<rparr>"
    using st by (simp add: s3_def s2_def s1 set_r_def exc_push)
  obtain R C where R: "s4 = s3\<lparr>a_r := R, a_cpsr := C\<rparr>" "length R = 13" "R ! 2 = a_cpsr s3" "\<forall>x. user_bank (x\<lparr>a_cpsr := C\<rparr>)"
    unfolding s4_def by (rule to_system_mode [of s3]) (use st(2) in \<open>simp_all add: s3\<close>)
  let ?R = "R[3 := sp_user st, 4 := lr_user st]"
  have s6: "s6 = s3\<lparr>a_r := ?R, a_cpsr := C\<rparr>"
    using R(2,4) by (simp add: s6_def s5_def R(1) set_r_def reg_sp_def reg_lr_def s3)
  have s7: "s7 = s3\<lparr>a_r := ?R\<rparr>" using R(2,3) by (simp add: s7_def s6 SWITCH_BACK_def)
  have s8: "s8 = s3\<lparr>a_r := ?R, a_mem := store_words (sp_exc st - 68) [sp_user st, lr_user st] ?m2, sp_exc := sp_exc st - 68\<rparr>"
    using st R(2) by (simp add: s8_def s7 s3 exc_push del: store_words.simps)
  have "EXCEPTION_START_COMMON st = set_r 1 (reg_sp s8) s8"
    by (simp only: EXCEPTION_START_COMMON_def Let_def s8_def s7_def s6_def s5_def s4_def s3_def s2_def s1_def)
  then show ?thesis using R(2) st
    by (intro that [of "?R[1 := sp_exc st - 68]"]) (simp_all add: s8 s3 set_r_def reg_sp_def del: store_words.simps)
qed

lemma start_context:
  assumes st: "length (a_r st) = 13"
  defines "p \<equiv> sp_exc st - 68"
  shows "get_context p (store_words p [sp_user st, lr_user st] (store_words (p + 8) [a_spsr st]
      (store_words (p + 12) (a_r st @ [lr_exc st]) m))) =
    \<lparr>c_sp = sp_user st, c_lr = lr_user st, c_cpsr = a_spsr st, c_gpr = a_r st, c_pc = lr_exc st\<rparr>"
proof -
  define w where "w = frame_word p (store_words p [sp_user st, lr_user st] (store_words (p + 8) [a_spsr st]
      (store_words (p + 12) (a_r st @ [lr_exc st]) m)))"
  have w: "w j = (if j < 2 then [sp_user st, lr_user st] ! j else if j = 2 then a_spsr st else (a_r st @ [lr_exc st]) ! (j - 3))"
    if "j < 17" for j
  proof -
    have j: "j < 2 ^ 30" using that by simp
    show ?thesis
      using store_words_at [OF j, of 0 "[sp_user st, lr_user st]" p] store_words_at [OF j, of 2 "[a_spsr st]" p]
        store_words_at [OF j, of 3 "a_r st @ [lr_exc st]" p] that st
      by (auto simp: w_def frame_word_def simp del: store_words.simps of_nat_mult)
  qed
  have w': "w (3 + i) = a_r st ! i" if "i < length (a_r st)" for i
    using w [of "3 + i"] that st by (simp add: nth_append)
  have "map w [3 ..< 3 + length (a_r st)] = a_r st" by (rule nth_equalityI) (simp_all add: w')
  then have "map w [3 ..< 16] = a_r st" by (simp only: st) simp
  then show ?thesis using st w [of 0] w [of 1] w [of 2] w [of 16]
    unfolding get_context_words w_def [symmetric] by (simp add: nth_append del: upt_Suc)
qed

lemma exc_pop:
  "\<not> user_bank st \<Longrightarrow> arm_pop n st = (load_words n (sp_exc st) (a_mem st), st\<lparr>sp_exc := sp_exc st + of_nat (4 * n)\<rparr>)"
  by (simp add: arm_pop_def reg_sp_def set_sp_def)

lemma end_context:
  assumes st: "\<not> user_bank st" "length (a_r st) = 13"
  defines "cx \<equiv> get_context (sp_exc st) (a_mem st)"
  shows "EXCEPTION_END st = st\<lparr>a_r := c_gpr cx, sp_user := c_sp cx, lr_user := c_lr cx, sp_exc := sp_exc st + 68, a_cpsr := c_cpsr cx,
     a_spsr := c_cpsr cx, a_pc := c_pc cx\<rparr>"
proof -
  let ?p = "sp_exc st"
  define s1 where "s1 = snd (arm_pop 2 st)"
  define s2 where "s2 = set_r 4 (fst (arm_pop 2 st) ! 1) (set_r 3 (fst (arm_pop 2 st) ! 0) s1)"
  define s3 where "s3 = SWITCH_TO_SYSTEM_MODE s2"
  define s4 where "s4 = set_sp (a_r s3 ! 3) s3"
  define s5 where "s5 = set_lr (a_r s4 ! 4) s4"
  define s6 where "s6 = SWITCH_BACK s5"
  define s7 where "s7 = set_r 0 (fst (arm_pop 1 s6) ! 0) (snd (arm_pop 1 s6))"
  define s8 where "s8 = s7\<lparr>a_spsr := a_r s7 ! 0\<rparr>"
  define s9 where "s9 = snd (arm_pop 14 s8)"
  have cx: "c_sp cx = a_mem st ?p" "c_lr cx = a_mem st (?p + 4)" "c_cpsr cx = a_mem st (?p + 8)"
      "c_gpr cx = load_words 13 (?p + 12) (a_mem st)" "c_pc cx = a_mem st (?p + 64)"
    by (simp_all add: cx_def get_context_def)
  have s2: "s2 = st\<lparr>sp_exc := ?p + 8, a_r := (a_r st)[3 := c_sp cx, 4 := c_lr cx]\<rparr>"
    using st(1) by (simp add: s2_def s1_def exc_pop set_r_def cx eval_nat_numeral)
  obtain R C where R: "s3 = s2\<lparr>a_r := R, a_cpsr := C\<rparr>" "length R = 13" "R ! 2 = a_cpsr s2" "R ! 3 = a_r s2 ! 3" "R ! 4 = a_r s2 ! 4"
      "\<forall>x. user_bank (x\<lparr>a_cpsr := C\<rparr>)"
    unfolding s3_def by (rule to_system_mode [of s2]) (use st(2) in \<open>simp_all add: s2\<close>)
  have "R ! 3 = c_sp cx" "R ! 4 = c_lr cx" using R(4,5) st(2) by (simp_all add: s2)
  then have s6: "s6 = st\<lparr>sp_exc := ?p + 8, a_r := R, sp_user := c_sp cx, lr_user := c_lr cx\<rparr>"
    using R(3,6) by (simp add: s6_def s5_def s4_def R(1) SWITCH_BACK_def set_sp_def set_lr_def s2)
  have s8: "s8 = st\<lparr>sp_exc := ?p + 12, a_r := R[0 := c_cpsr cx], sp_user := c_sp cx, lr_user := c_lr cx, a_spsr := c_cpsr cx\<rparr>"
    using st(1) R(2) by (simp add: s8_def s7_def s6 exc_pop set_r_def cx)
  have "load_words 14 (?p + 12) (a_mem st) = c_gpr cx @ [c_pc cx]" "length (c_gpr cx) = 13"
    using load_words_map [of 14 ?p 3 "a_mem st"] load_words_map [of 13 ?p 3 "a_mem st"] by (simp_all add: cx)
  moreover have "EXCEPTION_END st = s9\<lparr>a_r := take 13 (fst (arm_pop 14 s8)), a_pc := fst (arm_pop 14 s8) ! 13, a_cpsr := a_spsr s9\<rparr>"
    by (simp only: EXCEPTION_END_def Let_def case_prod_beta s9_def s8_def s7_def s6_def s5_def s4_def s3_def s2_def s1_def)
  ultimately show ?thesis using st(1) by (simp add: s9_def s8 exc_pop nth_append)
qed

subsubsection \<open>Properties\<close>

text \<open>
  C7: an exception is transparent.  Its handler finds the registers of the interrupted program in the context it is given: the stack
  pointer and link register of the user, the status, the registers 0 to 12 and the address to return to, which is corrected by one instruction but for
  a system call.  When the handler is done, in the same mode and with the same stack pointer, the processor has exactly what the context says
  then, whatever the handler wrote there or left in its own registers, and the stack of the exception is empty again.
\<close>

theorem arm_vector_context:
  fixes system_call :: bool and handler :: "u32 \<Rightarrow> arm_state \<Rightarrow> arm_state"
  assumes st: "\<not> user_bank st" "length (a_r st) = 13"
  defines "p \<equiv> sp_exc st - 68"
  defines "entered \<equiv> (if system_call then EXCEPTION_START_COMMON st else EXCEPTION_START_VECTOR st)"
  assumes h: "sp_exc (handler p entered) = p" "a_cpsr (handler p entered) = a_cpsr st" "length (a_r (handler p entered)) = 13"
  defines "cx \<equiv> get_context p (a_mem (handler p entered))" and "left \<equiv> arm_vector system_call handler st"
  shows "get_context p (a_mem entered) = \<lparr>c_sp = sp_user st, c_lr = lr_user st, c_cpsr = a_spsr st, c_gpr = a_r st,
      c_pc = lr_exc st - (if system_call then 0 else 4)\<rparr> \<and>
    a_r left = c_gpr cx \<and> sp_user left = c_sp cx \<and> lr_user left = c_lr cx \<and> a_cpsr left = c_cpsr cx \<and> a_pc left = c_pc cx \<and>
    sp_exc left = sp_exc st \<and> a_mem left = a_mem (handler p entered)"
proof -
  define st0 where "st0 = (if system_call then st else st\<lparr>lr_exc := lr_exc st - 4\<rparr>)"
  have st0: "\<not> user_bank st0" "length (a_r st0) = 13" using st by (simp_all add: st0_def)
  have f: "sp_user st0 = sp_user st" "lr_user st0 = lr_user st" "a_spsr st0 = a_spsr st" "a_r st0 = a_r st" "sp_exc st0 = sp_exc st"
      "lr_exc st0 = lr_exc st - (if system_call then 0 else 4)" "p = sp_exc st0 - 68"
    by (simp_all add: st0_def p_def)
  have e: "entered = EXCEPTION_START_COMMON st0"
    using st(1) by (simp add: entered_def st0_def EXCEPTION_START_VECTOR_def set_lr_def reg_lr_def)
  obtain R where R: "length R = 13" "R ! 1 = sp_exc st0 - 68"
    "EXCEPTION_START_COMMON st0 = st0\<lparr>a_r := R, sp_exc := sp_exc st0 - 68,
       a_mem := store_words (sp_exc st0 - 68) [sp_user st0, lr_user st0] (store_words (sp_exc st0 - 60) [a_spsr st0]
         (store_words (sp_exc st0 - 56) (a_r st0 @ [lr_exc st0]) (a_mem st0)))\<rparr>"
    using start_common [OF st0] by blast
  have "get_context p (a_mem entered) = \<lparr>c_sp = sp_user st0, c_lr = lr_user st0, c_cpsr = a_spsr st0, c_gpr = a_r st0, c_pc = lr_exc st0\<rparr>"
    using start_context [OF st0(2), of "a_mem st0"] by (simp add: e R(3) f(7) del: store_words.simps)
  moreover have "a_r entered ! 1 = p" using R(2,3) by (simp add: e f(7))
  then have "left = EXCEPTION_END (handler p entered)" by (simp add: left_def arm_vector_def entered_def Let_def)
  moreover have "\<not> user_bank (handler p entered)" using st(1) h(2) by (simp add: user_bank_def)
  ultimately show ?thesis using end_context [OF _ h(3)] by (simp add: h(1) cx_def f(1-6)) (simp add: p_def)
qed

text \<open>A supervisor that replaces the context on the stack by that of another thread, whose registers are all 7.\<close>

definition demo_cpu :: arm_state where
  "demo_cpu = \<lparr>a_r = replicate 13 1, sp_user = 2, lr_user = 3, sp_exc = 0x1000, lr_exc = 0x8004, a_cpsr = 0x13, a_spsr = 0x10, a_pc = 8,
     a_mem = (\<lambda>_. 0)\<rparr>"

definition demo_switch :: "u32 \<Rightarrow> arm_state \<Rightarrow> arm_state" where
  "demo_switch p st = st\<lparr>a_mem := store_words p (replicate 17 7) (a_mem st), a_r := replicate 13 9\<rparr>"

theorem arm_vector_context_witness:
  "a_r (arm_vector True demo_switch demo_cpu) = replicate 13 7 \<and> a_pc (arm_vector True demo_switch demo_cpu) = 7 \<and>
   get_context 0xFBC (a_mem (EXCEPTION_START_COMMON demo_cpu)) =
     \<lparr>c_sp = 2, c_lr = 3, c_cpsr = 0x10, c_gpr = replicate 13 1, c_pc = 0x8004\<rparr>"
proof -
  have nb: "\<not> user_bank demo_cpu" "length (a_r demo_cpu) = 13" by (simp_all add: demo_cpu_def user_bank_def arm_get_psr_mode_def)
  obtain R where R: "EXCEPTION_START_COMMON demo_cpu = demo_cpu\<lparr>a_r := R, sp_exc := sp_exc demo_cpu - 68,
       a_mem := store_words (sp_exc demo_cpu - 68) [sp_user demo_cpu, lr_user demo_cpu] (store_words (sp_exc demo_cpu - 60) [a_spsr demo_cpu]
         (store_words (sp_exc demo_cpu - 56) (a_r demo_cpu @ [lr_exc demo_cpu]) (a_mem demo_cpu)))\<rparr>"
    using start_common [OF nb] by blast
  have sp: "sp_exc demo_cpu - 68 = 0xFBC" by (simp add: demo_cpu_def)
  have seven: "get_context 0xFBC (store_words 0xFBC (replicate 17 7) m) = \<lparr>c_sp = 7, c_lr = 7, c_cpsr = 7, c_gpr = replicate 13 7, c_pc = 7\<rparr>" for m
  proof -
    have "frame_word 0xFBC (store_words 0xFBC (replicate 17 7) m) j = 7" if "j < 17" for j
      using store_words_at [of j 0 "replicate 17 7" "0xFBC" m] that by (simp add: frame_word_def del: of_nat_mult)
    then show ?thesis unfolding get_context_words by (simp add: eval_nat_numeral)
  qed
  show ?thesis
    using arm_vector_context [OF nb, of demo_switch True] seven
    by (simp add: R sp demo_switch_def del: store_words.simps replicate.simps replicate_Suc) (simp add: demo_cpu_def)
qed

subsubsection \<open>The table of vectors\<close>

text \<open>Where the processor goes when it executes the instruction \<open>w\<close>, a branch, at the address \<open>a\<close>.\<close>

definition arm_branch_target :: "u32 \<Rightarrow> u32 \<Rightarrow> u32" where
  "arm_branch_target a w = a + 8 + push_bit 2 (signed_take_bit 23 w)"

lemma bit_small: "unat (y :: u32) < 2 ^ k \<Longrightarrow> bit y n \<Longrightarrow> n < k"
proof -
  assume "unat y < 2 ^ k" and n: "bit y n"
  then have "take_bit k y = y" by (simp add: word_unat_eq_iff unsigned_take_bit_eq take_bit_nat_eq_self)
  then show "n < k" using n by (metis bit_take_bit_iff)
qed

lemma branch_bits: "bit (0xEA000000 :: u32) n \<longleftrightarrow> n \<in> {25, 27, 29, 30, 31}"
proof (cases "n < 32")
  case True
  then have "n \<in> {0 ..< 32}" by simp
  then show ?thesis by (auto simp: eval_nat_numeral atLeast0_lessThan_Suc)
next
  case False
  then show ?thesis using bit_imp_le_length [of "0xEA000000 :: u32" n] by auto
qed

lemma signed_branch:
  assumes "unat y < 2 ^ 23"
  shows "signed_take_bit 23 (y OR 0xEA000000) = (y :: u32)" "drop_bit 24 (y OR 0xEA000000) = (0xEA :: u32)"
proof -
  have b: "\<not> bit y n" if "n \<ge> 23" for n using bit_small [OF assms, of n] that by auto
  have c: "\<not> bit (0xEA000000 :: u32) n" if "n \<le> 23" for n using that unfolding branch_bits by auto
  show "signed_take_bit 23 (y OR 0xEA000000) = y"
  proof (rule bit_word_eqI)
    fix n
    show "bit (signed_take_bit 23 (y OR 0xEA000000)) n = bit y n"
      using b [of n] b [of 23] c [of n] c [of 23] by (cases "23 \<le> n") (auto simp: bit_signed_take_bit_iff bit_or_iff min_def)
  qed
  have "drop_bit 24 y = 0" by (rule bit_word_eqI) (simp add: bit_drop_bit_eq b)
  then show "drop_bit 24 (y OR 0xEA000000) = (0xEA :: u32)" by (simp add: drop_bit_or)
qed

lemma push_drop: "unat (x :: u32) mod 4 = 0 \<Longrightarrow> push_bit 2 (drop_bit 2 x) = x"
proof -
  assume "unat x mod 4 = 0"
  then have "take_bit 2 x = 0" by (simp add: word_unat_eq_iff take_bit_eq_mod unat_mod_distrib)
  then show ?thesis using bits_ident [of 2 x] by simp
qed

text \<open>
  C26: the word that \<open>arm_vec_install\<close> writes for an exception is an unconditional branch from its place in the table to the code of the
  exception, for code at a word address behind the table and below 32 megabytes.
\<close>

theorem arm_branch_reaches:
  assumes "unat stub mod 4 = 0" "vector_no v * 4 + 8 \<le> stub" "stub < 0x2000000"
  shows "drop_bit 24 (GET_BRANCH_FOR_VECTOR stub (vector_no v)) = 0xEA \<and>
    arm_branch_target (vector_no v * 4) (GET_BRANCH_FOR_VECTOR stub (vector_no v)) = stub"
proof -
  let ?a = "vector_no v * 4 + 8"
  define x where "x = stub - vector_no v * 4 - 8"
  have a: "unat ?a mod 4 = 0" by (cases v) simp_all
  have "x = stub - ?a" by (simp add: x_def)
  then have x: "unat x = unat stub - unat ?a" using unat_sub [OF assms(2)] by simp
  then have m: "unat x mod 4 = 0" using assms(1,2) a by (simp add: word_le_nat_alt mod_eq_0_iff_dvd)
  have "unat stub < 0x2000000" using assms(3) by (simp add: word_less_nat_alt)
  then have "unat (drop_bit 2 x) < 2 ^ 23" using x by (simp add: drop_bit_eq_div unat_div)
  from signed_branch [OF this] push_drop [OF m] show ?thesis
    by (simp add: GET_BRANCH_FOR_VECTOR_def arm_branch_target_def ALIGNMENT_SHIFT_def OFFSET_FOR_PREFETCH_def BRANCH_INSTRUCTION_def flip: x_def)
       (simp add: x_def)
qed

theorem arm_branch_reaches_witness:
  "arm_branch_target 0x18 (GET_BRANCH_FOR_VECTOR 0x8A40 6) = 0x8A40"
  using arm_branch_reaches [of "0x8A40" VECTOR_IRQ] by simp

subsubsection \<open>The first code of a thread\<close>

text \<open>
  A thread that starts with the registers of a new context runs its entry point in user mode with both interrupts on, with the registers it was given, and after it the function for its end, if
  the entry point keeps the frame pointer and the words of the frame as the calling convention asks.
\<close>

definition keeps_frame :: "(arm_state \<Rightarrow> arm_state) \<Rightarrow> bool" where
  "keeps_frame f \<longleftrightarrow> (\<forall>x. length (a_r x) = 13 \<longrightarrow> length (a_r (f x)) = 13 \<and> a_r (f x) ! 11 = a_r x ! 11 \<and> a_mem (f x) (a_r x ! 11 - 12) = a_mem x (a_r x ! 11 - 12))"

lemma arm_bootstrap_runs:
  assumes st: "length (a_r st) = 13" "a_cpsr st = 0x10" and keep: "keeps_frame (blx (a_r st ! 0))"
  obtains x where "take 3 (a_r x) = take 3 (a_r st)" "a_cpsr x = 0x10" "sp_user x = sp_user st - 24"
    "arm_bootstrap blx st = bootstrap_end (blx (a_r st ! 1) (set_r 3 (a_r st ! 1) (blx (a_r st ! 0) x)))"
proof -
  let ?p = "sp_user st"
  let ?m = "(store_words (?p - 8) [a_r st ! 11, lr_user st] (a_mem st))(?p - 12 := a_r st ! 0, ?p - 16 := a_r st ! 1, ?p - 20 := a_r st ! 2)"
  define x where "x = st\<lparr>a_mem := ?m, sp_user := ?p - 24, a_r := (a_r st)[11 := ?p - 4, 7 := 0x10, 8 := 0xFFFFFF20, 3 := a_r st ! 0]\<rparr>"
  have u: "user_bank st" using st(2) by (simp add: user_bank_def arm_get_psr_mode_def)
  define s1 where "s1 = arm_push [a_r st ! 11, reg_lr st] st"
  define s2 where "s2 = (let st = set_r 11 (reg_sp s1 + 4) s1 in set_sp (reg_sp st - 16) st)"
  have s1: "s1 = st\<lparr>a_mem := store_words (?p - 8) [a_r st ! 11, lr_user st] (a_mem st), sp_user := ?p - 8\<rparr>"
    using u by (simp add: s1_def arm_push_def reg_sp_def reg_lr_def set_sp_def Let_def)
  have s2: "s2 = s1\<lparr>a_r := (a_r st)[11 := ?p - 4], sp_user := ?p - 24\<rparr>"
    using u by (simp add: s2_def s1 set_r_def reg_sp_def set_sp_def Let_def del: store_words.simps)
  have "bootstrap_frame st = arm_str 2 (a_r s2 ! 11 - 16) (arm_str 1 (a_r s2 ! 11 - 12) (arm_str 0 (a_r s2 ! 11 - 8) s2))"
    by (simp add: bootstrap_frame_def s2_def s1_def Let_def)
  also have "\<dots> = st\<lparr>a_mem := ?m, sp_user := ?p - 24, a_r := (a_r st)[11 := ?p - 4]\<rparr>" (is "_ = ?s3")
    using st(1) by (simp add: s2 s1 arm_str_def nth_list_update del: store_words.simps)
  finally have s3: "bootstrap_frame st = ?s3" .
  have s4: "bootstrap_mode ?s3 = ?s3\<lparr>a_r := (a_r st)[11 := ?p - 4, 7 := 0x10, 8 := 0xFFFFFF20]\<rparr>" (is "_ = ?s4")
    using st by (simp add: bootstrap_mode_def set_r_def arm_msr_cpsr_def arm_get_psr_mode_def list_update_swap Let_def del: store_words.simps)
  have "R[0 := a_r st ! 0, 1 := a_r st ! 1, 2 := a_r st ! 2, 3 := v] = R[3 := v]" if "R = (a_r st)[11 := ?p - 4, 7 := 0x10, 8 := 0xFFFFFF20]" for R v
    by (intro nth_equalityI) (use st(1) in \<open>simp_all add: that nth_list_update\<close>)
  then have s5: "bootstrap_params ?s4 = x"
    using st(1) by (simp add: bootstrap_params_def x_def set_r_def nth_list_update Let_def del: store_words.simps)
  have x: "a_r x ! 3 = a_r st ! 0" "length (a_r x) = 13" "a_r x ! 11 = ?p - 4" "a_mem x (?p - 16) = a_r st ! 1"
    using st(1) by (simp_all add: x_def)
  then have y: "length (a_r (blx (a_r st ! 0) x)) = 13" "a_r (blx (a_r st ! 0) x) ! 11 = ?p - 4" "a_mem (blx (a_r st ! 0) x) (?p - 16) = a_r st ! 1"
    using keep unfolding keeps_frame_def by (auto dest!: spec [of _ x])
  have "arm_bootstrap blx st = bootstrap_end (blx (a_r st ! 1) (set_r 3 (a_r st ! 1) (blx (a_r st ! 0) x)))"
    using y by (simp only: arm_bootstrap_def s3 s4 s5 x(1) Let_def) (simp add: set_r_def)
  moreover have "take 3 (a_r x) = take 3 (a_r st)" by (simp add: x_def)
  ultimately show thesis using that [of x] st(2) by (simp add: x_def)
qed

end
