(* ===== verification/Api.thy ===== *)
theory Api
  imports Interrupts Arm_Vec
begin

section \<open>The functions of the user (\<open>tinker_api_*.c\<close>, \<open>arm_syscall.c\<close>)\<close>

text \<open>
  Every function puts the number of a system call and its parameters into the registers and executes \<open>svc 0\<close>.  The
  instruction is an argument of the functions, \<open>svc\<close>: it gets the registers 0 to 7 and returns the register 0.  Two of
  the functions repeat the call as long as the result is \<open>BLOCKED_RETRY\<close>, and may do so for ever.
\<close>

type_synonym 's svc = "u32 list \<Rightarrow> 's \<Rightarrow> (u32 \<times> 's) option"

definition syscall_no :: "syscall_function_t \<Rightarrow> u32" where
  "syscall_no api = of_nat (index_of api syscall_functions)"

definition TINKER_API_CALL_7 ::
  "'s svc \<Rightarrow> syscall_function_t \<Rightarrow> u32 \<Rightarrow> u32 \<Rightarrow> u32 \<Rightarrow> u32 \<Rightarrow> u32 \<Rightarrow> u32 \<Rightarrow> u32 \<Rightarrow> 's \<Rightarrow> (u32 \<times> 's) option" where
  "TINKER_API_CALL_7 svc api param_1 param_2 param_3 param_4 param_5 param_6 param_7 s =
     svc [syscall_no api, param_1, param_2, param_3, param_4, param_5, param_6, param_7] s"

definition TINKER_API_CALL_0 :: "'s svc \<Rightarrow> syscall_function_t \<Rightarrow> 's \<Rightarrow> (u32 \<times> 's) option" where
  "TINKER_API_CALL_0 svc api = TINKER_API_CALL_7 svc api 0 0 0 0 0 0 0"

definition TINKER_API_CALL_1 :: "'s svc \<Rightarrow> syscall_function_t \<Rightarrow> u32 \<Rightarrow> 's \<Rightarrow> (u32 \<times> 's) option" where
  "TINKER_API_CALL_1 svc api a = TINKER_API_CALL_7 svc api a 0 0 0 0 0 0"

definition TINKER_API_CALL_2 :: "'s svc \<Rightarrow> syscall_function_t \<Rightarrow> u32 \<Rightarrow> u32 \<Rightarrow> 's \<Rightarrow> (u32 \<times> 's) option" where
  "TINKER_API_CALL_2 svc api a b = TINKER_API_CALL_7 svc api a b 0 0 0 0 0"

definition TINKER_API_CALL_3 :: "'s svc \<Rightarrow> syscall_function_t \<Rightarrow> u32 \<Rightarrow> u32 \<Rightarrow> u32 \<Rightarrow> 's \<Rightarrow> (u32 \<times> 's) option" where
  "TINKER_API_CALL_3 svc api a b c = TINKER_API_CALL_7 svc api a b c 0 0 0 0"

definition TINKER_API_CALL_4 :: "'s svc \<Rightarrow> syscall_function_t \<Rightarrow> u32 \<Rightarrow> u32 \<Rightarrow> u32 \<Rightarrow> u32 \<Rightarrow> 's \<Rightarrow> (u32 \<times> 's) option" where
  "TINKER_API_CALL_4 svc api a b c d = TINKER_API_CALL_7 svc api a b c d 0 0 0"

definition TINKER_API_CALL_5 :: "'s svc \<Rightarrow> syscall_function_t \<Rightarrow> u32 \<Rightarrow> u32 \<Rightarrow> u32 \<Rightarrow> u32 \<Rightarrow> u32 \<Rightarrow> 's \<Rightarrow> (u32 \<times> 's) option" where
  "TINKER_API_CALL_5 svc api a b c d e = TINKER_API_CALL_7 svc api a b c d e 0 0"

definition TINKER_API_CALL_6 ::
  "'s svc \<Rightarrow> syscall_function_t \<Rightarrow> u32 \<Rightarrow> u32 \<Rightarrow> u32 \<Rightarrow> u32 \<Rightarrow> u32 \<Rightarrow> u32 \<Rightarrow> 's \<Rightarrow> (u32 \<times> 's) option" where
  "TINKER_API_CALL_6 svc api a b c d e f = TINKER_API_CALL_7 svc api a b c d e f 0"

lemmas api_call_defs = TINKER_API_CALL_0_def TINKER_API_CALL_1_def TINKER_API_CALL_2_def TINKER_API_CALL_3_def TINKER_API_CALL_4_def
  TINKER_API_CALL_5_def TINKER_API_CALL_6_def TINKER_API_CALL_7_def

subsection \<open>Semaphores\<close>

definition tinker_sem_create :: "'s svc \<Rightarrow> ptr \<Rightarrow> u32 \<Rightarrow> ptr \<Rightarrow> 's \<Rightarrow> (u32 \<times> 's) option" where
  "tinker_sem_create svc semaphore initial_count name = TINKER_API_CALL_3 svc SYSCALL_CREATE_SEMAPHORE semaphore name initial_count"

definition tinker_sem_open :: "'s svc \<Rightarrow> ptr \<Rightarrow> ptr \<Rightarrow> 's \<Rightarrow> (u32 \<times> 's) option" where
  "tinker_sem_open svc semaphore name = TINKER_API_CALL_2 svc SYSCALL_OPEN_SEMAPHORE semaphore name"

definition tinker_sem_get :: "'s svc \<Rightarrow> object_number_t \<Rightarrow> 's \<Rightarrow> (u32 \<times> 's) option" where
  "tinker_sem_get svc semaphore = TINKER_API_CALL_1 svc SYSCALL_GET_SEMAPHORE (ucast semaphore)"

definition tinker_sem_release :: "'s svc \<Rightarrow> object_number_t \<Rightarrow> 's \<Rightarrow> (u32 \<times> 's) option" where
  "tinker_sem_release svc semaphore = TINKER_API_CALL_1 svc SYSCALL_RELEASE_SEMAPHORE (ucast semaphore)"

definition tinker_sem_close :: "'s svc \<Rightarrow> object_number_t \<Rightarrow> 's \<Rightarrow> (u32 \<times> 's) option" where
  "tinker_sem_close svc semaphore = TINKER_API_CALL_1 svc SYSCALL_CLOSE_SEMAPHORE (ucast semaphore)"

subsection \<open>Pipes\<close>

fun pipe_direction_no :: "tinker_pipe_direction_t \<Rightarrow> u32" where
  "pipe_direction_no PIPE_DIRECTION_UNKNOWN = 0"
| "pipe_direction_no PIPE_SEND_RECEIVE = 1"
| "pipe_direction_no PIPE_SEND = 2"
| "pipe_direction_no PIPE_RECEIVE = 3"

fun pipe_send_kind_no :: "tinker_pipe_send_kind_t \<Rightarrow> u32" where
  "pipe_send_kind_no PIPE_TX_SEND_ALL = 0"
| "pipe_send_kind_no PIPE_TX_SEND_AVAILABLE = 1"

definition tinker_create_pipe :: "'s svc \<Rightarrow> ptr \<Rightarrow> ptr \<Rightarrow> tinker_pipe_direction_t \<Rightarrow> u32 \<Rightarrow> u32 \<Rightarrow> 's \<Rightarrow> (u32 \<times> 's) option" where
  "tinker_create_pipe svc pipe name dir msg_sz messages =
     TINKER_API_CALL_5 svc SYSCALL_CREATE_PIPE pipe name (pipe_direction_no dir) msg_sz messages"

partial_function (option) tinker_open_pipe ::
  "'s svc \<Rightarrow> ptr \<Rightarrow> ptr \<Rightarrow> tinker_pipe_direction_t \<Rightarrow> u32 \<Rightarrow> u32 \<Rightarrow> 's \<Rightarrow> (u32 \<times> 's) option" where
  "tinker_open_pipe svc pipe name dir msg_sz messages s =
     Option.bind (TINKER_API_CALL_5 svc SYSCALL_OPEN_PIPE pipe name (pipe_direction_no dir) msg_sz messages s)
       (\<lambda>(result, s). if result = return_code BLOCKED_RETRY then tinker_open_pipe svc pipe name dir msg_sz messages s
          else Some (result, s))"

definition tinker_close_pipe :: "'s svc \<Rightarrow> object_number_t \<Rightarrow> 's \<Rightarrow> (u32 \<times> 's) option" where
  "tinker_close_pipe svc pipe = TINKER_API_CALL_1 svc SYSCALL_CLOSE_PIPE (ucast pipe)"

definition tinker_delete_pipe :: "'s svc \<Rightarrow> object_number_t \<Rightarrow> 's \<Rightarrow> (u32 \<times> 's) option" where
  "tinker_delete_pipe svc pipe = TINKER_API_CALL_1 svc SYSCALL_DELETE_PIPE (ucast pipe)"

text \<open>An unknown error is tried again too.\<close>

partial_function (option) tinker_send_message ::
  "'s svc \<Rightarrow> object_number_t \<Rightarrow> tinker_pipe_send_kind_t \<Rightarrow> ptr \<Rightarrow> u32 \<Rightarrow> bool \<Rightarrow> 's \<Rightarrow> (u32 \<times> 's) option" where
  "tinker_send_message svc pipe send_kind message msg_sz block s =
     Option.bind (TINKER_API_CALL_5 svc SYSCALL_SEND_MESSAGE (ucast pipe) (pipe_send_kind_no send_kind) message msg_sz (of_bool block) s)
       (\<lambda>(result, s). if result = return_code BLOCKED_RETRY \<or> result = return_code UNKNOWN_ERROR
          then tinker_send_message svc pipe send_kind message msg_sz block s else Some (result, s))"

definition tinker_receive_message :: "'s svc \<Rightarrow> object_number_t \<Rightarrow> ptr \<Rightarrow> ptr \<Rightarrow> u32 \<Rightarrow> bool \<Rightarrow> 's \<Rightarrow> (u32 \<times> 's) option" where
  "tinker_receive_message svc pipe message msg_sz max_size block =
     TINKER_API_CALL_5 svc SYSCALL_RECEIVE_MESSAGE (ucast pipe) message msg_sz max_size (of_bool block)"

subsection \<open>Shared memory, timers and time\<close>

definition tinker_shm_create :: "'s svc \<Rightarrow> ptr \<Rightarrow> ptr \<Rightarrow> u32 \<Rightarrow> ptr \<Rightarrow> 's \<Rightarrow> (u32 \<times> 's) option" where
  "tinker_shm_create svc shm name sz addr = TINKER_API_CALL_4 svc SYSCALL_CREATE_SHM shm name sz addr"

definition tinker_shm_open :: "'s svc \<Rightarrow> ptr \<Rightarrow> ptr \<Rightarrow> u32 \<Rightarrow> ptr \<Rightarrow> 's \<Rightarrow> (u32 \<times> 's) option" where
  "tinker_shm_open svc shm name sz addr = TINKER_API_CALL_4 svc SYSCALL_OPEN_SHM shm name sz addr"

definition tinker_shm_destroy :: "'s svc \<Rightarrow> object_number_t \<Rightarrow> 's \<Rightarrow> (u32 \<times> 's) option" where
  "tinker_shm_destroy svc shm = TINKER_API_CALL_1 svc SYSCALL_DESTROY_SHM (ucast shm)"

definition tinker_timer_create :: "'s svc \<Rightarrow> ptr \<Rightarrow> u8 \<Rightarrow> tinker_time_t \<Rightarrow> ptr \<Rightarrow> ptr \<Rightarrow> 's \<Rightarrow> (u32 \<times> 's) option" where
  "tinker_timer_create svc timer pri timeout callback data =
     TINKER_API_CALL_6 svc SYSCALL_CREATE_TIMER timer (ucast pri) (seconds timeout) (nanoseconds timeout) callback data"

definition tinker_timer_cancel :: "'s svc \<Rightarrow> object_number_t \<Rightarrow> 's \<Rightarrow> (u32 \<times> 's) option" where
  "tinker_timer_cancel svc timer = TINKER_API_CALL_1 svc SYSCALL_CANCEL_TIMER (ucast timer)"

definition tinker_timer_delete :: "'s svc \<Rightarrow> object_number_t \<Rightarrow> 's \<Rightarrow> (u32 \<times> 's) option" where
  "tinker_timer_delete svc timer = TINKER_API_CALL_1 svc SYSCALL_DELETE_TIMER (ucast timer)"

definition tinker_get_time :: "'s svc \<Rightarrow> ptr \<Rightarrow> 's \<Rightarrow> (u32 \<times> 's) option" where
  "tinker_get_time svc time = TINKER_API_CALL_1 svc SYSCALL_GET_TIME time"

definition tinker_sleep :: "'s svc \<Rightarrow> ptr \<Rightarrow> 's \<Rightarrow> (u32 \<times> 's) option" where
  "tinker_sleep svc time = TINKER_API_CALL_1 svc SYSCALL_SLEEP time"

subsection \<open>Processes and threads\<close>

definition tinker_create_process :: "'s svc \<Rightarrow> ptr \<Rightarrow> ptr \<Rightarrow> u8 \<Rightarrow> ptr \<Rightarrow> u32 \<Rightarrow> ptr \<Rightarrow> 's \<Rightarrow> (u32 \<times> 's) option" where
  "tinker_create_process svc image_name entry pri meminfo flags process =
     TINKER_API_CALL_6 svc SYSCALL_CREATE_PROCESS image_name entry (ucast pri) meminfo flags process"

definition tinker_create_thread :: "'s svc \<Rightarrow> ptr \<Rightarrow> ptr \<Rightarrow> u8 \<Rightarrow> u32 \<Rightarrow> u32 \<Rightarrow> ptr \<Rightarrow> 's \<Rightarrow> (u32 \<times> 's) option" where
  "tinker_create_thread svc thread_name entry pri stack flags thread =
     TINKER_API_CALL_6 svc SYSCALL_CREATE_THREAD thread_name entry (ucast pri) stack flags thread"

definition tinker_get_thread_object :: "'s svc \<Rightarrow> ptr \<Rightarrow> 's \<Rightarrow> (u32 \<times> 's) option" where
  "tinker_get_thread_object svc thread = TINKER_API_CALL_1 svc SYSCALL_THREAD_OBJECT thread"

definition tinker_get_thread_priority :: "'s svc \<Rightarrow> object_number_t \<Rightarrow> ptr \<Rightarrow> 's \<Rightarrow> (u32 \<times> 's) option" where
  "tinker_get_thread_priority svc thread pri = TINKER_API_CALL_2 svc SYSCALL_THREAD_PRIORITY (ucast thread) pri"

definition tinker_thread_wait :: "'s svc \<Rightarrow> 's \<Rightarrow> 's option" where
  "tinker_thread_wait svc s = map_option snd (TINKER_API_CALL_0 svc SYSCALL_WAIT_THREAD s)"

definition tinker_exit_thread :: "'s svc \<Rightarrow> 's \<Rightarrow> (u32 \<times> 's) option" where
  "tinker_exit_thread svc = TINKER_API_CALL_0 svc SYSCALL_EXIT_THREAD"

definition tinker_debug :: "'s svc \<Rightarrow> ptr \<Rightarrow> u32 \<Rightarrow> 's \<Rightarrow> 's option" where
  "tinker_debug svc str len s = map_option snd (TINKER_API_CALL_2 svc SYSCALL_DEBUG str len s)"

definition tinker_wait_for_interrupt :: "'s svc \<Rightarrow> 's \<Rightarrow> 's option" where
  "tinker_wait_for_interrupt svc s = map_option snd (TINKER_API_CALL_0 svc SYSCALL_WFI s)"

definition tinker_map_mempry :: "'s svc \<Rightarrow> ptr \<Rightarrow> u32 \<Rightarrow> u32 \<Rightarrow> u32 \<Rightarrow> ptr \<Rightarrow> 's \<Rightarrow> (u32 \<times> 's) option" where
  "tinker_map_mempry svc real sz type acc virtual = TINKER_API_CALL_5 svc SYSCALL_MMAP real sz type acc virtual"

definition tinker_load_elf :: "'s svc \<Rightarrow> ptr \<Rightarrow> ptr \<Rightarrow> u8 \<Rightarrow> u32 \<Rightarrow> 's \<Rightarrow> (u32 \<times> 's) option" where
  "tinker_load_elf svc elf_data img pri flags = TINKER_API_CALL_4 svc SYSCALL_LOAD_ELF elf_data img (ucast pri) flags"

text \<open>
  The kernel answers through a variable on the stack of the caller, at \<open>var\<close>; \<open>rd32\<close> and \<open>wr32\<close> are the loads and stores
  of the user.
\<close>

definition tinker_sbrk ::
  "'s svc \<Rightarrow> (ptr \<Rightarrow> 's \<Rightarrow> u32) \<Rightarrow> (ptr \<Rightarrow> u32 \<Rightarrow> 's \<Rightarrow> 's) \<Rightarrow> ptr \<Rightarrow> ptr \<Rightarrow> u32 \<Rightarrow> 's \<Rightarrow> (ptr \<times> 's) option" where
  "tinker_sbrk svc rd32 wr32 var mem sz s = do {
     (_, s) \<leftarrow> TINKER_API_CALL_2 svc SYSCALL_SBRK var sz (wr32 var mem s);
     Some (rd32 var s, s)
   }"

definition tinker_get_pid ::
  "'s svc \<Rightarrow> (ptr \<Rightarrow> 's \<Rightarrow> u32) \<Rightarrow> (ptr \<Rightarrow> u32 \<Rightarrow> 's \<Rightarrow> 's) \<Rightarrow> ptr \<Rightarrow> 's \<Rightarrow> (u32 \<times> 's) option" where
  "tinker_get_pid svc rd32 wr32 var s = do {
     (_, s) \<leftarrow> TINKER_API_CALL_1 svc SYSCALL_GET_PID var (wr32 var (- 1) s);
     Some (rd32 var s, s)
   }"

subsection \<open>The kernel behind the instruction\<close>

text \<open>
  What \<open>svc\<close> does: the exception saves the registers in the context, the interrupt manager \<open>i\<close> handles the call, and the
  register 0 of the context is what the thread finds that runs next, which is the caller unless the call has blocked.
\<close>

definition load_regs :: "ptr \<Rightarrow> u32 list \<Rightarrow> 'z kern_scheme \<Rightarrow> 'z kern_scheme option" where
  "load_regs context regs s = do {
     cx \<leftarrow> contexts (ks s) context;
     Some (s\<lparr>ks := (ks s)\<lparr>contexts := (contexts (ks s))(context \<mapsto> cx\<lparr>c_gpr := regs @ drop (length regs) (c_gpr cx)\<rparr>)\<rparr>\<rparr>)
   }"

definition kernel_svc :: "code_addrs \<Rightarrow> ptr \<Rightarrow> ptr \<Rightarrow> ('z ikern_scheme) svc" where
  "kernel_svc c i context regs s = do {
     s \<leftarrow> load_regs context regs s;
     s \<leftarrow> int_syscall_request_interrupt c i context s;
     cx \<leftarrow> contexts (ks s) context;
     Some (c_gpr cx ! 0, s)
   }"

end
