(* ===== verification/Api_Props.thy ===== *)
theory Api_Props
  imports Api Syscall_Props
begin

section \<open>The functions of the user: properties\<close>

text \<open>
  The number and the parameters of a system call arrive in the kernel as they were given, the result comes back, and the functions that
  repeat a call return the first result that is not a request to try again.
\<close>

lemma index_of_nth: "x \<in> set xs \<Longrightarrow> index_of x xs < length xs \<and> xs ! index_of x xs = x"
  by (induction xs) auto

lemma syscall_no_of:
  assumes "api \<in> set syscall_functions"
  shows "syscall_of (syscall_no api) = api"
proof -
  have l: "length syscall_functions = 35" by code_simp
  have i: "index_of api syscall_functions < 35" "syscall_functions ! index_of api syscall_functions = api"
    using index_of_nth [OF assms] l by simp_all
  then have "unat (syscall_no api) = index_of api syscall_functions"
    unfolding syscall_no_def unat_of_nat by (simp add: take_bit_nat_eq_self)
  then show ?thesis using i l by (simp add: syscall_of_def)
qed

lemma caller_load_regs:
  assumes "caller handler context s h t x px cx" "length regs = 8"
  shows "\<exists>s1. load_regs context regs s = Some s1 \<and>
    caller handler context s1 h t x px (cx\<lparr>c_gpr := regs @ drop 8 (c_gpr cx)\<rparr>)"
  using assms
  by (auto simp: load_regs_def caller_def space_ok_def sch_get_current_thread_def)

text \<open>
  C8: a system call from the function of the user to the kernel and back.  The kernel handles the call that was meant, with the seven
  parameters where the function put them, and the function returns the result of the call, when the call is a known one other
  than the two that start or end a thread and leaves its caller running; apart from the result register the state is the one in which
  the call left the kernel.
\<close>

theorem api_call_returns:
  assumes c: "caller (ic_handler y) context s h t x px cx" and i: "int_ctls s i = Some y" "i \<noteq> NULL" "context \<noteq> NULL"
    and api: "api \<in> set syscall_functions" "api \<noteq> SYSCALL_LOAD_THREAD" "api \<noteq> SYSCALL_EXIT_THREAD"
    and s1: "load_regs context [syscall_no api, p1, p2, p3, p4, p5, p6, p7] s = Some s1"
    and d: "syscall_dispatch c h api context t s1 = Some (ret, s2)"
    and run: "thread_get_state t (ks s2) \<in> {Some THREAD_RUNNING, Some THREAD_SYSTEM}"
    and cx2: "contexts (ks s2) context = Some cx2" "c_gpr cx2 \<noteq> []"
  shows "map (\<lambda>n. param context n s1) [1, 2, 3, 4, 5, 6, 7] = map Some [p1, p2, p3, p4, p5, p6, p7] \<and>
    TINKER_API_CALL_7 (kernel_svc c i context) api p1 p2 p3 p4 p5 p6 p7 s = Some (return_code ret, returned context cx2 ret s2)"
proof -
  let ?regs = "[syscall_no api, p1, p2, p3, p4, p5, p6, p7]"
  let ?cx = "cx\<lparr>c_gpr := ?regs @ drop 8 (c_gpr cx)\<rparr>"
  have "\<exists>s1. load_regs context ?regs s = Some s1 \<and> caller (ic_handler y) context s1 h t x px ?cx"
    by (rule caller_load_regs [OF c]) simp
  then have c1: "caller (ic_handler y) context s1 h t x px ?cx" using s1 by auto
  have p: "param context n s1 = Some (c_gpr ?cx ! unat n)" if "unat n < 13" for n by (rule caller_params(1) [OF c1 that])
  have y: "int_ctls s1 i = Some y" using i(1) s1 by (auto simp: load_regs_def bind_eq_Some_conv)
  have "syscall_finish h api context t ret s2 = Some (returned context cx2 ret s2)"
    using run api(2,3) cx2(1) by (auto simp: syscall_finish_def returned_def on_ks_def tgt_set_syscall_return_def store_def)
  then have "syscall_handle_system_call c (ic_handler y) context s1 = Some (returned context cx2 ret s2)"
    using c1 d p [of 0] syscall_no_of [OF api(1)] by (simp add: syscall_handle_system_call_def caller_def)
  then have "kernel_svc c i context ?regs s = Some (return_code ret, returned context cx2 ret s2)"
    using i y s1 cx2(2) by (simp add: kernel_svc_def int_syscall_request_interrupt_def kernel_assert_def returned_def)
  then show ?thesis
    using p [of 1] p [of 2] p [of 3] p [of 4] p [of 5] p [of 6] p [of 7] by (simp add: TINKER_API_CALL_7_def)
qed

text \<open>The call by which \<open>kernel_main\<close> tests the path, from a running thread.\<close>

definition demo_user :: dkern where
  "demo_user = (demo_call THREAD_RUNNING (replicate 13 0))\<lparr>int_ctls := [0x90 \<mapsto> \<lparr>interrupt_manager_root = NULL, is_external = False,
     ic_handler = 0x60, ic_scheduler = 0x30\<rparr>]\<rparr>"

theorem api_call_returns_witness:
  "\<exists>s'. TINKER_API_CALL_7 (kernel_svc demo_code 0x90 0x700) SYSCALL_TEST 0x11111111 0x22222222 0x33333333 0x44444444 0x55555555
     0x66666666 0x77777777 demo_user = Some (1, s')"
proof -
  let ?y = "\<lparr>interrupt_manager_root = NULL, is_external = False, ic_handler = 0x60, ic_scheduler = 0x30\<rparr>"
  let ?h = "the (handlers demo_user 0x60)"
  let ?x = "(demo_thread 7 0x603)\<lparr>t_parent := 0x50, t_state := THREAD_RUNNING\<rparr>"
  let ?px = "demo_process\<lparr>p_object_table := 2\<rparr>" and ?cx = "(demo_context 3)\<lparr>c_gpr := replicate 13 (0 :: u32)\<rparr>"
  have "caller 0x60 0x700 (demo_call THREAD_RUNNING (replicate 13 0)) (the (handlers (demo_call THREAD_RUNNING (replicate 13 0)) 0x60)) 0x103 ?x ?px ?cx"
    by (rule demo_call_caller) simp
  then have c: "caller 0x60 0x700 demo_user ?h 0x103 ?x ?px ?cx" by (simp add: demo_user_def caller_def space_ok_def)
  let ?regs = "[syscall_no SYSCALL_TEST, 0x11111111, 0x22222222, 0x33333333, 0x44444444, 0x55555555, 0x66666666, 0x77777777]"
  have "\<exists>s1. load_regs 0x700 ?regs demo_user = Some s1 \<and> caller 0x60 0x700 s1 ?h 0x103 ?x ?px (?cx\<lparr>c_gpr := ?regs @ drop 8 (c_gpr ?cx)\<rparr>)"
    by (rule caller_load_regs [OF c]) simp
  then obtain s1 where s1: "load_regs 0x700 ?regs demo_user = Some s1"
      "caller 0x60 0x700 s1 ?h 0x103 ?x ?px (?cx\<lparr>c_gpr := ?regs @ drop 8 (c_gpr ?cx)\<rparr>)" by blast
  have p: "param 0x700 n s1 = Some ((?regs @ drop 8 (c_gpr ?cx)) ! unat n)" if "unat n < 13" for n
    using caller_params(1) [OF s1(2) that] by simp
  have d: "syscall_dispatch demo_code ?h SYSCALL_TEST 0x700 0x103 s1 = Some (NO_ERROR, s1)"
    using p [of 1] p [of 2] p [of 3] p [of 4] p [of 5] p [of 6] p [of 7] by (simp add: syscall_dispatch_def syscall_tst_def)
  have st: "thread_get_state 0x103 (ks s1) \<in> {Some THREAD_RUNNING, Some THREAD_SYSTEM}" using caller_params(6) [OF s1(2)] by simp
  have cx: "contexts (ks s1) 0x700 = Some (?cx\<lparr>c_gpr := ?regs @ drop 8 (c_gpr ?cx)\<rparr>)" using s1(2) by (simp add: caller_def)
  have api: "SYSCALL_TEST \<in> set syscall_functions" "return_code NO_ERROR = 1" by code_simp+
  have y: "int_ctls demo_user 0x90 = Some ?y" by (simp add: demo_user_def)
  have "caller (ic_handler ?y) 0x700 demo_user ?h 0x103 ?x ?px ?cx" using c by simp
  from api_call_returns [OF this y _ _ api(1) _ _ s1(1) d st cx] api(2) show ?thesis by auto
qed

text \<open>
  C27: sending a message tries again and ends.  When the call asks \<open>k\<close> times to be repeated, with an answer of \<open>BLOCKED_RETRY\<close> or an unknown
  error, and then has another result, \<open>tinker_send_message\<close> makes \<open>k + 1\<close> calls and returns this result.
\<close>

theorem tinker_send_message_retries:
  assumes "\<And>j. j < k \<Longrightarrow> \<exists>r. r \<in> {return_code BLOCKED_RETRY, return_code UNKNOWN_ERROR} \<and>
      svc [syscall_no SYSCALL_SEND_MESSAGE, ucast pipe, pipe_send_kind_no kind, message, n, of_bool block, 0, 0] (\<sigma> j) = Some (r, \<sigma> (Suc j))"
    and "svc [syscall_no SYSCALL_SEND_MESSAGE, ucast pipe, pipe_send_kind_no kind, message, n, of_bool block, 0, 0] (\<sigma> k) = Some (result, s')"
    and "result \<notin> {return_code BLOCKED_RETRY, return_code UNKNOWN_ERROR}"
  shows "tinker_send_message svc pipe kind message n block (\<sigma> 0) = Some (result, s')"
  using assms
proof (induction k arbitrary: \<sigma>)
  case 0
  then show ?case by (subst tinker_send_message.simps) (simp add: api_call_defs)
next
  case (Suc k)
  have "tinker_send_message svc pipe kind message n block (\<sigma> (Suc 0)) = Some (result, s')"
    by (rule Suc.IH [of "\<lambda>j. \<sigma> (Suc j)"]) (use Suc.prems in auto)
  moreover obtain r where "r \<in> {return_code BLOCKED_RETRY, return_code UNKNOWN_ERROR}"
      "svc [syscall_no SYSCALL_SEND_MESSAGE, ucast pipe, pipe_send_kind_no kind, message, n, of_bool block, 0, 0] (\<sigma> 0) = Some (r, \<sigma> (Suc 0))"
    using Suc.prems(1) [of 0] by auto
  ultimately show ?case by (subst tinker_send_message.simps) (auto simp: api_call_defs)
qed

text \<open>A kernel that counts the calls and answers \<open>BLOCKED_RETRY\<close> three times.\<close>

definition demo_busy :: "nat svc" where
  "demo_busy regs s = Some (if s < 3 then return_code BLOCKED_RETRY else return_code NO_ERROR, Suc s)"

theorem tinker_send_message_retries_witness:
  "tinker_send_message demo_busy 5 PIPE_TX_SEND_ALL 0x1000 4 True 0 = Some (1, 4)"
proof -
  have r: "return_code NO_ERROR = 1" "return_code BLOCKED_RETRY = 4" "return_code UNKNOWN_ERROR = 0" by code_simp+
  show ?thesis
    using tinker_send_message_retries [of 3 demo_busy 5 PIPE_TX_SEND_ALL "0x1000" 4 True "\<lambda>j. j" 1 4]
    by (simp add: demo_busy_def r)
qed

end
