(* ===== verification/Console.thy ===== *)
theory Console
  imports Text_Util Time Process_Mem Pipe
begin

section \<open>Output of the kernel (\<open>console/print_out.c\<close>, \<open>console/stack_trace.c\<close>)\<close>

text \<open>
  What is printed is the result of a function: the bytes handed to \<open>bsp_write_debug_char\<close>, in order.  The variable arguments
  of a format are a list; reading one that is missing or has the other type is an illegal access, as is running off the end of
  a format or of the buffer for the padding.  The debugging output is compiled out of the release build.
\<close>

datatype print_arg = Arg_Str "u8 list option" | Arg_Num u32

definition MAX_INTEGER_LENGTH :: u32 where "MAX_INTEGER_LENGTH = 10"
definition MAX_HEX_INTEGER_LENGTH :: u32 where "MAX_HEX_INTEGER_LENGTH = 8"
definition MAX_PADDING :: u32 where "MAX_PADDING = 256"
definition MAX_PADDING_CHARS :: nat where "MAX_PADDING_CHARS = 9"
definition ISR_PRINT_STACKTRACE_LIMIT :: nat where "ISR_PRINT_STACKTRACE_LIMIT = 6"

text \<open>A string of the program with its terminating zero, and two characters that literals do not have.\<close>

definition c_str :: "string \<Rightarrow> u8 list" where
  "c_str cs = map of_char cs @ [0]"

definition NL :: string where "NL = [CHR 0x0A]"
definition TAB :: string where "TAB = [CHR 0x09]"

subsection \<open>Strings and numbers\<close>

text \<open>The bytes of a string up to its terminating zero.\<close>

primrec print_chars :: "u8 list \<Rightarrow> u8 list option" where
  "print_chars [] = None"
| "print_chars (c # cs) = (if c = 0 then Some [] else do { r \<leftarrow> print_chars cs; Some (c # r) })"

definition print_out_print_string :: "u32 \<Rightarrow> u8 list option \<Rightarrow> u8 list option" where
  "print_out_print_string padding string = do {
     n \<leftarrow> util_strlen string MAX_PADDING;
     str \<leftarrow> string;
     cs \<leftarrow> print_chars str;
     Some ((if n < padding then replicate (unat (padding - n)) 48 else []) @ cs)
   }"

definition print_out :: "u8 list option \<Rightarrow> u8 list option" where
  "print_out msg = print_out_print_string 0 msg"

primrec print_out_len_loop :: "nat \<Rightarrow> u8 list \<Rightarrow> u8 list option" where
  "print_out_len_loop 0 m = Some []"
| "print_out_len_loop (Suc n) m = (case m of [] \<Rightarrow> None | c # cs \<Rightarrow> do { r \<leftarrow> print_out_len_loop n cs; Some (c # r) })"

definition print_out_len :: "u8 list \<Rightarrow> u32 \<Rightarrow> u8 list option" where
  "print_out_len msg len = print_out_len_loop (nat (sint len)) msg"

definition print_out_print_signed :: "u32 \<Rightarrow> u32 \<Rightarrow> u8 list option" where
  "print_out_print_signed padding i = do {
     number \<leftarrow> util_i_to_a i (Some (replicate 11 0)) MAX_INTEGER_LENGTH;
     print_out_print_string padding number
   }"

definition print_out_print_hex :: "u32 \<Rightarrow> u32 \<Rightarrow> bool \<Rightarrow> u8 list option" where
  "print_out_print_hex padding i upper_case = do {
     hex_number \<leftarrow> util_i_to_h i (Some (replicate 9 0)) MAX_HEX_INTEGER_LENGTH;
     hex_number \<leftarrow> (if upper_case then util_to_upper hex_number else util_to_lower hex_number);
     print_out_print_string padding hex_number
   }"

subsection \<open>Formats\<close>

text \<open>
  The conversion behind a percent sign: every character up to one of \<open>s\<close>, \<open>d\<close>, \<open>x\<close> and \<open>X\<close> is kept as padding.  The
  result is what is printed, the format behind the conversion and the arguments left.
\<close>

fun print_out_process ::
  "u8 list \<Rightarrow> u8 list \<Rightarrow> nat \<Rightarrow> print_arg list \<Rightarrow> (u8 list \<times> u8 list \<times> print_arg list) option" where
  "print_out_process [] pad padp args = None"
| "print_out_process (c # cs) pad padp args =
     (if c = 115 then
        (case args of
           Arg_Str str # args \<Rightarrow> do {
             w \<leftarrow> util_a_to_i (Some pad) (of_nat padp);
             r \<leftarrow> print_out_print_string w str;
             Some (r, cs, args)
           }
         | _ \<Rightarrow> None)
      else if c = 100 \<or> c = 120 \<or> c = 88 then
        (case args of
           Arg_Num i # args \<Rightarrow> do {
             w \<leftarrow> util_a_to_i (Some pad) (of_nat padp);
             r \<leftarrow> (if c = 100 then print_out_print_signed w i else print_out_print_hex w i (c = 88));
             Some (r, cs, args)
           }
         | _ \<Rightarrow> None)
      else do { pad \<leftarrow> wr pad padp c; print_out_process cs pad (padp + 1) args })"

lemma print_out_process_shorter:
  "print_out_process cs pad padp args = Some (r, rest, args') \<Longrightarrow> length rest < length cs"
  by (induction cs arbitrary: pad padp)
     (fastforce simp: bind_eq_Some_conv split: if_splits list.splits print_arg.splits)+

function print_loop :: "u8 list \<Rightarrow> print_arg list \<Rightarrow> u8 list option" where
  "print_loop fmt args =
     (case fmt of
        [] \<Rightarrow> None
      | c # cs \<Rightarrow>
          if c = 0 then Some []
          else if c = 37 then
            Option.bind (print_out_process cs (replicate MAX_PADDING_CHARS 0) 0 args)
              (\<lambda>(r, rest, args). Option.bind (print_loop rest args) (\<lambda>out. Some (r @ out)))
          else Option.bind (print_loop cs args) (\<lambda>out. Some (c # out)))"
  by pat_completeness auto

termination
  by (relation "measure (\<lambda>(fmt, args). length fmt)") (auto dest: print_out_process_shorter)

declare print_loop.simps [simp del]

definition printp_out :: "u8 list \<Rightarrow> print_arg list \<Rightarrow> u8 list option" where
  "printp_out msg args = print_loop msg args"

subsection \<open>The time, errors and the stack\<close>

text \<open>The time is printed only once the clock has started; \<open>tm\<close> is the time manager given to \<open>print_set_time_manager\<close>.\<close>

definition print_time :: "ptr \<Rightarrow> aheap \<Rightarrow> u8 list option" where
  "print_time tm s = do {
     now \<leftarrow> time_get_system_time tm \<lparr>seconds = 0, nanoseconds = 0\<rparr> s;
     if tinker_time_eq now \<lparr>seconds = 0, nanoseconds = 0\<rparr> then Some []
     else do {
       a \<leftarrow> util_i_to_a (seconds now) (Some (replicate 20 0)) 20;
       a \<leftarrow> print_out a;
       b \<leftarrow> util_i_to_a (nanoseconds now) (Some (replicate 20 0)) 20;
       b \<leftarrow> print_out b;
       Some (a @ [46] @ b @ [58, 32])
     }
   }"

definition error_print :: "ptr \<Rightarrow> u8 list \<Rightarrow> print_arg list \<Rightarrow> aheap \<Rightarrow> u8 list option" where
  "error_print tm msg args s = do {
     a \<leftarrow> print_time tm s;
     b \<leftarrow> print_loop msg args;
     Some (a @ b)
   }"

text \<open>The formats \<open>0x%X -> 0x%X: \<close> and \<open>0x%X\<close> with a new line.\<close>

definition FRAME_FORMAT :: "u8 list" where
  "FRAME_FORMAT = [48, 120, 37, 88, 32, 45, 62, 32, 48, 120, 37, 88, 58, 32, 0]"

definition PC_FORMAT :: "u8 list" where
  "PC_FORMAT = [48, 120, 37, 88, 10, 0]"

text \<open>The chain of frames, at most \<open>n\<close> of them; a pointer counts in words.\<close>

primrec stack_trace_loop :: "nat \<Rightarrow> ptr \<Rightarrow> ptr \<Rightarrow> u32 \<Rightarrow> 'z pkern_scheme \<Rightarrow> u8 list option" where
  "stack_trace_loop 0 tm proc fp s = Some []"
| "stack_trace_loop (Suc n) tm proc fp s =
     (if ram_get32 fp (ram s) = 0 then Some []
      else do {
        let fp = ram_get32 fp (ram s);
        kernel \<leftarrow> process_is_kernel proc (ks s);
        (out, fp) \<leftarrow>
          (if fp \<ge> VIRTUAL_ADDRESS_SPACE kernel then do {
             real \<leftarrow> process_virt_to_real proc fp s;
             out \<leftarrow> error_print tm FRAME_FORMAT [Arg_Num fp, Arg_Num real] (ah s);
             Some (out, real)
           } else Some ([], fp));
        out2 \<leftarrow> error_print tm PC_FORMAT [Arg_Num (ram_get32 (fp + 16) (ram s))] (ah s);
        rest \<leftarrow> stack_trace_loop n tm proc fp s;
        Some (out @ out2 @ rest)
      })"

definition print_stack_trace :: "ptr \<Rightarrow> ptr \<Rightarrow> u32 \<Rightarrow> 'z pkern_scheme \<Rightarrow> u8 list option" where
  "print_stack_trace tm proc frame_pointer s = stack_trace_loop (ISR_PRINT_STACKTRACE_LIMIT - 1) tm proc frame_pointer s"

end
