(* ===== verification/Console_Props.thy ===== *)
theory Console_Props
  imports Console Text_Props
begin

section \<open>Output of the kernel: properties\<close>

text \<open>
  The specification of a format is a list of characters and conversions; \<open>render\<close> says what is to be printed for it.
\<close>

subsection \<open>Hexadecimal numbers\<close>

fun hexd :: "nat \<Rightarrow> nat list" where
  "hexd n = (if n < 16 then [n] else hexd (n div 16) @ [n mod 16])"

declare hexd.simps [simp del] util_hex_loop.simps [simp del]

definition hex_char :: "bool \<Rightarrow> nat \<Rightarrow> u8" where
  "hex_char upper d = (if d < 10 then 48 + of_nat d else (if upper then 65 else 97) + of_nat (d - 10))"

lemma hexd_digits: "d \<in> set (hexd n) \<Longrightarrow> d < 16"
proof (induction n rule: hexd.induct)
  case (1 n)
  then show ?case by (subst (asm) (2) hexd.simps) (auto split: if_splits)
qed

lemma hexd_length: "n < 16 ^ k \<Longrightarrow> 0 < k \<Longrightarrow> length (hexd n) \<le> k"
proof (induction k arbitrary: n)
  case (Suc k)
  then show ?case
    by (cases "n < 16"; cases "k = 0") (subst hexd.simps, force simp: less_mult_imp_div_less)+
qed simp

lemma util_hex_loop_eq:
  "0 < n \<Longrightarrow> length rems + length (hexd n) \<le> L \<Longrightarrow> util_hex_loop n rems L = Some (rems @ rev (hexd n))"
proof (induction n arbitrary: rems rule: hexd.induct)
  case (1 n)
  show ?case
  proof (cases "n < 16")
    case True
    then show ?thesis using 1(2,3) by (simp add: util_hex_loop.simps [of n] util_hex_loop.simps [of 0] hexd.simps [of n])
  next
    case False
    then have h: "hexd n = hexd (n div 16) @ [n mod 16]" by (simp add: hexd.simps [of n])
    have "util_hex_loop (n div 16) (rems @ [n mod 16]) L = Some ((rems @ [n mod 16]) @ rev (hexd (n div 16)))"
      using False 1(3) h by (intro 1(1)) auto
    then show ?thesis using 1(2,3) h by (simp add: util_hex_loop.simps [of n])
  qed
qed

lemma util_hex_write_eq:
  "p + length ds \<le> length buf \<Longrightarrow> util_hex_write ds p buf = Some (take p buf @ map (hex_char True) ds @ drop (p + length ds) buf)"
proof (induction ds arbitrary: p buf)
  case (Cons d ds)
  let ?buf = "take p buf @ hex_char True d # drop (Suc p) buf"
  have "wr buf p (hex_char True d) = Some ?buf" using Cons.prems by (simp add: wr_at)
  moreover have "(if d < 10 then 48 + of_nat d else 65 + of_nat (d - 10)) = hex_char True d" by (simp add: hex_char_def)
  ultimately have "util_hex_write (d # ds) p buf = util_hex_write ds (Suc p) ?buf" by (simp only: util_hex_write.simps) simp
  also have "\<dots> = Some (take (Suc p) ?buf @ map (hex_char True) ds @ drop (Suc p + length ds) ?buf)"
    using Cons.prems by (intro Cons.IH) simp
  also have "\<dots> = Some (take p buf @ map (hex_char True) (d # ds) @ drop (p + length (d # ds)) buf)"
    using Cons.prems by (simp add: min_def add.commute)
  finally show ?case .
qed simp

lemma hex_char_cases:
  assumes "d < 16"
  shows "hex_char u d \<noteq> 0" "(if 97 \<le> hex_char True d \<and> hex_char True d \<le> 122 then hex_char True d - 32 else hex_char True d) = hex_char True d"
    "(if 65 \<le> hex_char True d \<and> hex_char True d \<le> 90 then hex_char True d + 32 else hex_char True d) = hex_char False d"
proof -
  have "\<forall>d\<in>set [0 ..< 16]. hex_char True d \<noteq> 0 \<and> hex_char False d \<noteq> 0 \<and>
    (if 97 \<le> hex_char True d \<and> hex_char True d \<le> 122 then hex_char True d - 32 else hex_char True d) = hex_char True d \<and>
    (if 65 \<le> hex_char True d \<and> hex_char True d \<le> 90 then hex_char True d + 32 else hex_char True d) = hex_char False d"
    by code_simp
  then have t: "hex_char True d \<noteq> 0 \<and> hex_char False d \<noteq> 0 \<and>
    (if 97 \<le> hex_char True d \<and> hex_char True d \<le> 122 then hex_char True d - 32 else hex_char True d) = hex_char True d \<and>
    (if 65 \<le> hex_char True d \<and> hex_char True d \<le> 90 then hex_char True d + 32 else hex_char True d) = hex_char False d"
    by (rule bspec) (simp only: set_upt atLeastLessThan_iff assms le0 simp_thms)
  show "hex_char u d \<noteq> 0" using t by (cases u) simp_all
  show "(if 97 \<le> hex_char True d \<and> hex_char True d \<le> 122 then hex_char True d - 32 else hex_char True d) = hex_char True d"
    "(if 65 \<le> hex_char True d \<and> hex_char True d \<le> 90 then hex_char True d + 32 else hex_char True d) = hex_char False d"
    using t by blast+
qed

lemma util_case_loop_eq: "0 \<notin> set cs \<Longrightarrow> util_case_loop f (cs @ 0 # rest) = Some (map f cs @ 0 # rest)"
  by (induction cs) auto

subsection \<open>Strings\<close>

definition padded :: "nat \<Rightarrow> u8 list \<Rightarrow> u8 list" where
  "padded w t = replicate (w - length t) 48 @ t"

lemma print_chars_eq: "0 \<notin> set t \<Longrightarrow> print_chars (t @ 0 # rest) = Some t"
  by (induction t) auto

lemma print_string_eq:
  assumes "0 \<notin> set t" "unat w \<le> 256"
  shows "print_out_print_string w (Some (t @ 0 # rest)) = Some (padded (unat w) t)"
proof -
  let ?n = "of_nat (min (length t) 256) :: u32"
  have n: "unat ?n = min (length t) 256" unfolding unat_of_nat by (simp add: take_bit_nat_eq_self)
  have "util_strlen (Some (t @ 0 # rest)) MAX_PADDING = Some ?n" using util_strlen_eq [OF assms(1)] by (simp add: MAX_PADDING_def)
  moreover have "unat (w - ?n) = unat w - length t" if "?n < w"
    using that n assms(2) by (simp add: unat_sub word_less_nat_alt word_le_nat_alt min_def split: if_splits)
  moreover have "unat w \<le> length t" if "\<not> ?n < w" using that n assms(2) by (simp add: word_less_nat_alt min_def split: if_splits)
  ultimately show ?thesis using print_chars_eq [OF assms(1)] by (auto simp: print_out_print_string_def padded_def)
qed

lemma print_signed_eq:
  assumes "unat w \<le> 256" "sint i \<noteq> - (2 ^ 31)" "length (dec_int (sint i)) < 10"
  shows "print_out_print_signed w i = Some (padded (unat w) (dec_int (sint i)))"
proof -
  let ?t = "dec_int (sint i)"
  have z: "0 \<notin> set ?t" using dec_not_zero by (auto simp: dec_int_def)
  obtain n where n: "11 - length ?t = Suc n" using assms(3) by (cases "11 - length ?t") auto
  have "util_i_to_a i (Some (replicate 11 0)) MAX_INTEGER_LENGTH = Some (Some (?t @ replicate (11 - length ?t) 0))"
  proof (cases "i = 0")
    case True
    then show ?thesis by (simp add: util_i_to_a_def wr_def dec_int_def dec.simps eval_nat_numeral)
  next
    case False
    then show ?thesis using util_i_to_a_eq [of i MAX_INTEGER_LENGTH "replicate 11 0"] assms by (simp add: MAX_INTEGER_LENGTH_def)
  qed
  then show ?thesis using print_string_eq [OF z assms(1)] n by (simp add: print_out_print_signed_def)
qed

lemma print_hex_eq:
  assumes "unat w \<le> 256"
  shows "print_out_print_hex w i upper = Some (padded (unat w) (map (hex_char upper) (hexd (unat i))))"
proof -
  let ?h = "hexd (unat i)"
  have "unat i < 16 ^ 8" using unsigned_less [of i, where 'a = nat] by simp
  then have len: "length ?h \<le> 8" using hexd_length by simp
  then obtain n where n: "9 - length ?h = Suc n" by (cases "9 - length ?h") auto
  have d: "d < 16" if "d \<in> set ?h" for d using hexd_digits that .
  have z: "0 \<notin> set (map (hex_char u) ?h)" for u using hex_char_cases(1) [OF d] by fastforce
  have "util_i_to_h i (Some (replicate 9 0)) MAX_HEX_INTEGER_LENGTH = Some (Some (map (hex_char True) ?h @ replicate (9 - length ?h) 0))"
  proof (cases "i = 0")
    case True
    then show ?thesis by (simp add: util_i_to_h_def wr_def hexd.simps hex_char_def eval_nat_numeral)
  next
    case False
    then have "util_hex_loop (unat i) [] 8 = Some (rev ?h)" using util_hex_loop_eq [of "unat i" "[]" 8] len
      by (simp add: unat_gt_0)
    moreover have "util_hex_write ?h 0 (replicate 9 0) = Some (map (hex_char True) ?h @ replicate (9 - length ?h) 0)"
      using util_hex_write_eq [of 0 ?h "replicate 9 0"] len by simp
    ultimately show ?thesis using False by (simp add: util_i_to_h_def MAX_HEX_INTEGER_LENGTH_def)
  qed
  moreover have "map (\<lambda>v. if 97 \<le> v \<and> v \<le> 122 then v - 32 else v) (map (hex_char True) ?h) = map (hex_char True) ?h"
    "map (\<lambda>v. if 65 \<le> v \<and> v \<le> 90 then v + 32 else v) (map (hex_char True) ?h) = map (hex_char False) ?h"
    using hex_char_cases(2,3) [OF d] by auto
  ultimately show ?thesis using z [of True] print_string_eq [OF z [of upper] assms] n
    by (cases upper)
       (simp_all add: print_out_print_hex_def util_to_upper_def util_to_lower_def util_case_loop_eq del: map_map split del: if_split)
qed

subsection \<open>Formats\<close>

datatype fitem = Lit u8 | Conv "u8 list" u8

primrec item_text :: "fitem \<Rightarrow> u8 list" where
  "item_text (Lit c) = [c]"
| "item_text (Conv ds k) = 37 # ds @ [k]"

primrec item_ok :: "fitem \<Rightarrow> bool" where
  "item_ok (Lit c) = (c \<noteq> 0 \<and> c \<noteq> 37)"
| "item_ok (Conv ds k) = (k \<in> {115, 100, 120, 88} \<and> length ds \<le> 2 \<and> list_all (\<lambda>c. 48 \<le> c \<and> c \<le> 57) ds)"

fun width :: "u8 list \<Rightarrow> nat" where
  "width [a] = unat (a - 48)"
| "width [a, b] = 10 * unat (a - 48) + unat (b - 48)"
| "width _ = 0"

fun conv_text :: "u8 \<Rightarrow> print_arg \<Rightarrow> u8 list option" where
  "conv_text k (Arg_Str (Some t)) = (if k = 115 \<and> 0 \<in> set t then Some (takeWhile (\<lambda>c. c \<noteq> 0) t) else None)"
| "conv_text k (Arg_Num i) =
     (if k = 100 \<and> sint i \<noteq> - (2 ^ 31) \<and> length (dec_int (sint i)) < 10 then Some (dec_int (sint i))
      else if k = 120 \<or> k = 88 then Some (map (hex_char (k = 88)) (hexd (unat i)))
      else None)"
| "conv_text _ _ = None"

fun render :: "fitem list \<Rightarrow> print_arg list \<Rightarrow> u8 list option" where
  "render [] args = Some []"
| "render (Lit c # is) args = do { r \<leftarrow> render is args; Some (c # r) }"
| "render (Conv ds k # is) (a # args) = do { t \<leftarrow> conv_text k a; r \<leftarrow> render is args; Some (padded (width ds) t @ r) }"
| "render (Conv ds k # is) [] = None"

text \<open>The padding is read by \<open>util_a_to_i\<close>, which is right for numbers of at most two digits.\<close>

lemma a_to_i_pad:
  assumes "length ds \<le> 2" "list_all (\<lambda>c. 48 \<le> c \<and> c \<le> 57) ds"
  shows "\<exists>w. util_a_to_i (Some (ds @ replicate (9 - length ds) 0)) (of_nat (length ds)) = Some w \<and> unat w = width ds \<and> unat w \<le> 99"
proof -
  have digit: "c - 48 \<le> 9" "unat (c - 48) \<le> 9" "c \<noteq> 0" if "48 \<le> c" "c \<le> 57" for c :: u8
    using that by (auto simp: word_le_nat_alt unat_sub)
  have "util_strlen (Some (ds @ 0 # replicate (8 - length ds) 0)) (of_nat (length ds)) = Some (of_nat (length ds))"
    using util_strlen_eq [of ds "replicate (8 - length ds) 0" "of_nat (length ds)"] assms digit(3)
    by (auto simp: list_all_iff unat_of_nat take_bit_nat_eq_self)
  moreover have "9 - length ds = Suc (8 - length ds)" using assms(1) by simp
  ultimately have eq: "util_a_to_i (Some (ds @ replicate (9 - length ds) 0)) (of_nat (length ds)) =
      util_a_to_i_loop (ds @ replicate (9 - length ds) 0) (of_nat (length ds)) 0 0"
    by (simp add: util_a_to_i_def)
  consider "ds = []" | a where "ds = [a]" | a b where "ds = [a, b]"
    using assms(1) by (cases ds; cases "tl ds"; cases "tl (tl ds)") auto
  then show ?thesis
  proof cases
    case 1
    then show ?thesis unfolding eq by (simp add: util_a_to_i_loop.simps)
  next
    case 2
    then show ?thesis unfolding eq using digit [of a] assms(2)
      by (simp add: util_a_to_i_loop.simps [of _ _ 0] util_a_to_i_loop.simps [of _ _ 1] rd_def unat_u8_u32)
  next
    case 3
    then have d: "a - 48 \<le> 9" "unat (a - 48) \<le> 9" "b - 48 \<le> 9" "unat (b - 48) \<le> 9"
      using digit [of a] digit [of b] assms(2) by auto
    have "util_a_to_i_loop (ds @ replicate (9 - length ds) 0) (of_nat (length ds)) 0 0 =
        Some (ucast (b - 48) + ucast (a - 48) * 10)"
      using 3 d by (simp add: util_a_to_i_loop.simps [of _ _ 0] util_a_to_i_loop.simps [of _ _ 1] util_a_to_i_loop.simps [of _ _ 2] rd_def)
    moreover have "unat (ucast (b - 48) + ucast (a - 48) * 10 :: u32) = 10 * unat (a - 48) + unat (b - 48)"
      using d by (simp add: unat_word_ariths unat_u8_u32)
    ultimately show ?thesis unfolding eq using 3 d by simp
  qed
qed

lemma process_pad:
  "length done + length ds < 9 \<Longrightarrow> list_all (\<lambda>c. 48 \<le> c \<and> c \<le> 57) ds \<Longrightarrow>
   print_out_process (ds @ rest) (done @ replicate (9 - length done) 0) (length done) args =
   print_out_process rest (done @ ds @ replicate (9 - length done - length ds) 0) (length done + length ds) args"
proof (induction ds arbitrary: "done")
  case (Cons c ds)
  have c: "c \<noteq> 115" "c \<noteq> 100" "c \<noteq> 120" "c \<noteq> 88" using Cons.prems(2) by auto
  have "9 - length done = Suc (8 - length done)" using Cons.prems(1) by simp
  then have "wr (done @ replicate (9 - length done) 0) (length done) c = Some ((done @ [c]) @ replicate (9 - length (done @ [c])) 0)"
    by (simp add: wr_def list_update_append)
  then show ?case using Cons.IH [of "done @ [c]"] Cons.prems c by simp
qed simp

lemma process_conv:
  assumes "item_ok (Conv ds k)" "conv_text k a = Some t"
  shows "print_out_process (ds @ k # rest) (replicate 9 0) 0 (a # args) = Some (padded (width ds) t, rest, args)"
proof -
  obtain w where w: "util_a_to_i (Some (ds @ replicate (9 - length ds) 0)) (of_nat (length ds)) = Some w"
    "unat w = width ds" "unat w \<le> 256"
    using a_to_i_pad [of ds] assms(1) by fastforce
  have "print_out_process (ds @ k # rest) (replicate 9 0) 0 (a # args) =
      print_out_process (k # rest) (ds @ replicate (9 - length ds) 0) (length ds) (a # args)"
    using process_pad [of "[]" ds "k # rest" "a # args"] assms(1) by simp
  also have "\<dots> = Some (padded (width ds) t, rest, args)"
  proof (cases a)
    case (Arg_Str str)
    then obtain cs where cs: "str = Some cs" "k = 115" "0 \<in> set cs" "t = takeWhile (\<lambda>c. c \<noteq> 0) cs"
      using assms(2) by (cases str) (auto split: if_splits)
    have "cs = t @ 0 # tl (dropWhile (\<lambda>c. c \<noteq> 0) cs)" unfolding cs(4) using cs(3)
      by (metis (mono_tags, lifting) dropWhile_eq_Nil_conv hd_dropWhile list.collapse takeWhile_dropWhile_id)
    moreover have "0 \<notin> set t" unfolding cs(4) by (auto dest: set_takeWhileD)
    ultimately have "print_out_print_string w str = Some (padded (width ds) t)" using print_string_eq w(2,3) cs(1) by metis
    then show ?thesis using Arg_Str cs(2) w(1) by simp
  next
    case (Arg_Num i)
    then show ?thesis using assms w print_signed_eq [OF w(3), of i] print_hex_eq [OF w(3), of i]
      by (auto split: if_splits)
  qed
  finally show ?thesis .
qed

lemma print_loop_renders:
  "list_all item_ok is \<Longrightarrow> render is args = Some out \<Longrightarrow> print_loop (concat (map item_text is) @ 0 # rest) args = Some out"
proof (induction "is" args arbitrary: out rule: render.induct)
  case (3 ds k "is" a args)
  then obtain t r where t: "conv_text k a = Some t" "render is args = Some r" "out = padded (width ds) t @ r"
    by (auto simp: bind_eq_Some_conv)
  then show ?case using 3 process_conv [OF _ t(1), of ds] by (subst print_loop.simps) (simp add: MAX_PADDING_CHARS_def)
qed (subst print_loop.simps, auto simp: bind_eq_Some_conv)+

text \<open>
  C25: a format is printed as it says: the characters as they are, a string up to its zero, a number in decimal with its sign
  or in hexadecimal with small or capital letters, filled up with zeros to the width in front of the conversion.  It holds for
  widths of at most two digits and for decimal numbers of fewer than ten characters.
\<close>

theorem printp_out_renders:
  assumes "list_all item_ok is" "render is args = Some out"
  shows "printp_out (concat (map item_text is) @ 0 # rest) args = Some out"
  unfolding printp_out_def by (rule print_loop_renders [OF assms])

theorem printp_out_renders_witness:
  "let is = [Lit 65, Conv [56] 120, Lit 58, Conv [] 100, Lit 32, Conv [] 115];
       args = [Arg_Num 0xBEEF, Arg_Num (- 42), Arg_Str (Some [104, 105, 0])];
       out = [65, 48, 48, 48, 48, 98, 101, 101, 102, 58, 45, 52, 50, 32, 104, 105] in
   list_all item_ok is \<and> render is args = Some out \<and> printp_out (concat (map item_text is) @ [0]) args = Some out"
proof -
  let ?is = "[Lit 65, Conv [56] 120, Lit 58, Conv [] 100, Lit 32, Conv [] 115]"
  let ?args = "[Arg_Num 0xBEEF, Arg_Num (- 42), Arg_Str (Some [104, 105, 0])]"
  let ?out = "[65, 48, 48, 48, 48, 98, 101, 101, 102, 58, 45, 52, 50, 32, 104, 105]"
  have i: "list_all item_ok ?is" by code_simp
  have d: "hexd 48879 = [11, 14, 14, 15]" "dec 42 = [52, 50]" by (simp_all add: hexd.simps dec.simps)
  have "replicate 4 48 = [48, 48, 48, 48 :: u8]" by (simp add: eval_nat_numeral)
  then have r: "render ?is ?args = Some ?out" by (simp add: padded_def hex_char_def dec_int_def d)
  show ?thesis unfolding Let_def using printp_out_renders [OF i r, of "[]"] i r by blast
qed

end
