(* ===== verification/Uart.thy ===== *)
theory Uart
  imports Devices
begin

section \<open>The serial line (\<open>bcm2835_uart.c\<close>)\<close>

text \<open>
  Before every character the flag register is read until the line is ready.  Its readings are a list, threaded through
  the calls; there is no result while they say that the line is busy and no further one is left.  The delays of the initialisation are
  not visible.
\<close>

unbundle bit_operations_syntax

definition GPPUD :: u32 where "GPPUD = 0x94"
definition GPPUDCLK0 :: u32 where "GPPUDCLK0 = 0x98"
definition UART0_DR :: u32 where "UART0_DR = 0"
definition UART0_FR :: u32 where "UART0_FR = 0x18"
definition UART0_IBRD :: u32 where "UART0_IBRD = 0x24"
definition UART0_FBRD :: u32 where "UART0_FBRD = 0x28"
definition UART0_LCRH :: u32 where "UART0_LCRH = 0x2C"
definition UART0_CR :: u32 where "UART0_CR = 0x30"
definition UART0_IFLS :: u32 where "UART0_IFLS = 0x34"
definition UART0_IMSC :: u32 where "UART0_IMSC = 0x38"
definition UART0_ICR :: u32 where "UART0_ICR = 0x44"

record bcm2835_user_data_t =
  ud_base :: u32
  input_pipe :: ptr

text \<open>
  A device whose functions are those of the serial line once \<open>kd_uart\<close> is set, that is \<open>write_register\<close> and \<open>isr\<close>; the
  other functions are missing.
\<close>

record kernel_device_t =
  kd_uart :: bool
  kd_user_data :: ptr

text \<open>The static variables of the driver and the data of the devices.\<close>

record ukern = dkern +
  early_available :: bool
  early_base :: u32
  uart_data :: "bcm2835_user_data_t pheap"
  kernel_devices :: "kernel_device_t pheap"

subsection \<open>Characters\<close>

text \<open>Reading the flag register until the bit is clear.\<close>

primrec uart_wait :: "nat \<Rightarrow> u32 list \<Rightarrow> u32 list option" where
  "uart_wait n [] = None"
| "uart_wait n (v # vs) = (if v AND push_bit n 1 = 0 then Some vs else uart_wait n vs)"

definition bcm2835_uart_putc :: "u32 \<Rightarrow> u8 \<Rightarrow> u32 list \<Rightarrow> 'z dkern_scheme \<Rightarrow> (u32 list \<times> 'z dkern_scheme) option" where
  "bcm2835_uart_putc base byte fr s = do {
     fr \<leftarrow> uart_wait 5 fr;
     Some (fr, out_u32 (base + UART0_DR) (ucast byte) s)
   }"

definition bcm2835_uart_getc :: "(u32 \<Rightarrow> u32) \<Rightarrow> u32 \<Rightarrow> u32 list \<Rightarrow> (u8 \<times> u32 list) option" where
  "bcm2835_uart_getc io base fr = do {
     fr \<leftarrow> uart_wait 4 fr;
     Some (ucast (io (base + UART0_DR)), fr)
   }"

subsection \<open>The line before the kernel is up\<close>

definition early_uart_init :: "(u32 \<Rightarrow> u32) \<Rightarrow> u32 \<Rightarrow> 'z ukern_scheme \<Rightarrow> 'z ukern_scheme" where
  "early_uart_init io base s =
     (let s = out_u32 (base + UART0_CR) 0 s;
          gpio_base = base - 0x1000;
          s = out_u32 (gpio_base + GPPUD) 0 s;
          s = out_u32 (gpio_base + GPPUDCLK0) (push_bit 14 1 OR push_bit 15 1) s;
          s = out_u32 (gpio_base + GPPUDCLK0) 0 s;
          s = out_u32 (base + UART0_ICR) 0x7FF s;
          new_lcrh = push_bit 5 1 OR push_bit 6 1;
          s = (if new_lcrh \<noteq> io (base + UART0_LCRH) then out_u32 (base + UART0_LCRH) new_lcrh s else s);
          s = out_u32 (base + UART0_IBRD) 1 s;
          s = out_u32 (base + UART0_FBRD) 40 s;
          s = out_u32 (base + UART0_IFLS) 0 s;
          s = out_u32 (base + UART0_IMSC) (push_bit 4 1) s;
          s = out_u32 (base + UART0_CR) (1 OR push_bit 8 1 OR push_bit 9 1) s
      in s\<lparr>early_base := base, early_available := True\<rparr>)"

definition early_uart_putc :: "u8 \<Rightarrow> u32 list \<Rightarrow> 'z ukern_scheme \<Rightarrow> (u32 list \<times> 'z ukern_scheme) option" where
  "early_uart_putc c fr s = (if early_available s then bcm2835_uart_putc (early_base s) c fr s else Some (fr, s))"

primrec early_uart_put_loop :: "u8 list \<Rightarrow> u32 list \<Rightarrow> 'z ukern_scheme \<Rightarrow> (u32 list \<times> 'z ukern_scheme) option" where
  "early_uart_put_loop [] fr s = None"
| "early_uart_put_loop (c # cs) fr s =
     (if c = 0 then Some (fr, s) else do { (fr, s) \<leftarrow> early_uart_putc c fr s; early_uart_put_loop cs fr s })"

definition early_uart_put :: "u8 list option \<Rightarrow> u32 list \<Rightarrow> 'z ukern_scheme \<Rightarrow> (u32 list \<times> 'z ukern_scheme) option" where
  "early_uart_put str fr s = (case str of None \<Rightarrow> Some (fr, s) | Some cs \<Rightarrow> early_uart_put_loop cs fr s)"

subsection \<open>The device\<close>

definition bcm2835_uart_write :: "ptr \<Rightarrow> u32 \<Rightarrow> u32 \<Rightarrow> u32 list \<Rightarrow> 'z ukern_scheme \<Rightarrow> (return_t \<times> u32 list \<times> 'z ukern_scheme) option" where
  "bcm2835_uart_write udata reg val fr s = do {
     base \<leftarrow> (if udata = NULL then Some (early_base s) else map_option ud_base (uart_data s udata));
     (fr, s) \<leftarrow> bcm2835_uart_putc base (ucast val) fr s;
     Some (NO_ERROR, fr, s)
   }"

text \<open>The character goes through a buffer of two bytes on the stack of the interrupt, whose address is \<open>buffer\<close>.\<close>

definition bcm2835_uart_isr ::
  "(u32 \<Rightarrow> u32) \<Rightarrow> ptr \<Rightarrow> ptr \<Rightarrow> u32 \<Rightarrow> u32 list \<Rightarrow> 'z ukern_scheme \<Rightarrow> (return_t \<times> 'z ukern_scheme) option" where
  "bcm2835_uart_isr io buffer udata vector fr s =
     (if udata = NULL then Some (DEVICE_REGISTER_INVALID, s)
      else do {
        x \<leftarrow> uart_data s udata;
        if ud_base x = 0 then Some (DEVICE_REGISTER_INVALID, s)
        else do {
          (c, _) \<leftarrow> bcm2835_uart_getc io (ud_base x) fr;
          let s = s\<lparr>ram := (ram s)(buffer := c, buffer + 1 := 0)\<rparr>;
          if input_pipe x \<noteq> NULL then kernel_isr_write_pipe (input_pipe x) buffer 1 s
          else Some (DEVICE_REGISTER_INVALID, s)
        }
      })"

text \<open>The data of the device is written without a test that the allocation succeeded.\<close>

definition bcm2835_uart_get_device :: "u32 \<Rightarrow> ptr \<Rightarrow> u8 list option \<Rightarrow> 'z ukern_scheme \<Rightarrow> 'z ukern_scheme option" where
  "bcm2835_uart_get_device base_address device name s =
     (if device = NULL then Some s
      else do {
        let s = s\<lparr>early_available := False\<rparr>;
        (_, base, s) \<leftarrow> kernel_device_map_memory base_address 0x1000 MMU_DEVICE_MEMORY s;
        (p, s) \<leftarrow> kernel_device_malloc 8 s;
        if p = NULL then None
        else do {
          let s = s\<lparr>uart_data := (uart_data s)(p \<mapsto> \<lparr>ud_base = base, input_pipe = NULL\<rparr>)\<rparr>;
          (pipe, s) \<leftarrow> kernel_isr_get_pipe name s;
          Some (s\<lparr>uart_data := (uart_data s)(p \<mapsto> \<lparr>ud_base = base, input_pipe = pipe\<rparr>),
            kernel_devices := (kernel_devices s)(device \<mapsto> \<lparr>kd_uart = True, kd_user_data = p\<rparr>)\<rparr>)
        }
      })"

subsection \<open>The serial line: properties\<close>

text \<open>What is written to the line, and that writing ends as often as the line gets ready.\<close>

definition ready :: "nat \<Rightarrow> u32 list \<Rightarrow> nat" where
  "ready n fr = length (filter (\<lambda>v. v AND push_bit n 1 = 0) fr)"

lemma uart_wait_ready: "0 < ready n fr \<Longrightarrow> \<exists>fr'. uart_wait n fr = Some fr' \<and> ready n fr' = ready n fr - 1"
  by (induction fr) (auto simp: ready_def)

lemma uart_wait_busy: "ready n fr = 0 \<Longrightarrow> uart_wait n fr = None"
  by (induction fr) (auto simp: ready_def split: if_splits)

lemma out_u32_more [simp]: "early_available (out_u32 a v s) = early_available s" "early_base (out_u32 a v s) = early_base s"
  "io_writes (out_u32 a v s) = io_writes s @ [(a, v)]"
  by (simp_all add: out_u32_def)

lemma early_uart_put_loop_writes:
  "early_available s \<Longrightarrow> 0 \<notin> set cs \<Longrightarrow> length cs \<le> ready 5 fr \<Longrightarrow>
   \<exists>fr' s'. early_uart_put_loop (cs @ 0 # rest) fr s = Some (fr', s') \<and>
     io_writes s' = io_writes s @ map (\<lambda>c. (early_base s + UART0_DR, ucast c)) cs \<and> ready 5 fr' = ready 5 fr - length cs"
proof (induction cs arbitrary: fr s)
  case (Cons c cs)
  have "0 < ready 5 fr" using Cons.prems(3) by (cases "ready 5 fr") simp_all
  then obtain fr1 where fr1: "uart_wait 5 fr = Some fr1" "ready 5 fr1 = ready 5 fr - 1" using uart_wait_ready by blast
  have le: "length cs \<le> ready 5 fr1" using Cons.prems(3) fr1(2) by simp
  let ?s = "out_u32 (early_base s + UART0_DR) (ucast c) s"
  have "early_uart_putc c fr s = Some (fr1, ?s)"
    using Cons.prems(1) fr1(1) by (simp add: early_uart_putc_def bcm2835_uart_putc_def)
  moreover obtain fr' s' where "early_uart_put_loop (cs @ 0 # rest) fr1 ?s = Some (fr', s')"
    "io_writes s' = io_writes ?s @ map (\<lambda>c. (early_base ?s + UART0_DR, ucast c)) cs" "ready 5 fr' = ready 5 fr1 - length cs"
    using Cons.IH [of ?s fr1] Cons.prems le by (auto simp del: map_eq_conv)
  ultimately show ?case using Cons.prems(2) fr1(2) by auto
qed simp

text \<open>
  C28: once the early line is set up, a string is written to the data register of the line character by character, in order and
  each only once, as soon as the flag register has said often enough that the line is ready; until then the call does not return.
\<close>

theorem early_uart_put_writes:
  fixes io :: "u32 \<Rightarrow> u32" and base :: u32 and s :: "'z ukern_scheme"
  defines "s1 \<equiv> early_uart_init io base s"
  assumes "0 \<notin> set cs"
  shows "if length cs \<le> ready 5 fr
    then \<exists>fr' s'. early_uart_put (Some (cs @ 0 # rest)) fr s1 = Some (fr', s') \<and>
      io_writes s' = io_writes s1 @ map (\<lambda>c. (base + UART0_DR, ucast c)) cs
    else early_uart_put (Some (cs @ 0 # rest)) fr s1 = None"
proof -
  have a: "early_available s1" "early_base s1 = base" by (simp_all add: s1_def early_uart_init_def Let_def)
  have busy: "early_uart_put_loop (cs @ 0 # rest) fr t = None"
    if "early_available t" "0 \<notin> set cs" "ready 5 fr < length cs" for cs fr and t :: "'z ukern_scheme"
    using that
  proof (induction cs arbitrary: fr t)
    case (Cons c cs)
    show ?case
    proof (cases "ready 5 fr = 0")
      case True
      then show ?thesis using Cons.prems by (simp add: early_uart_putc_def bcm2835_uart_putc_def uart_wait_busy)
    next
      case False
      then obtain fr1 where "uart_wait 5 fr = Some fr1" "ready 5 fr1 = ready 5 fr - 1" using uart_wait_ready by blast
      then show ?thesis using Cons False by (auto simp: early_uart_putc_def bcm2835_uart_putc_def)
    qed
  qed simp
  show ?thesis
    using early_uart_put_loop_writes [OF a(1) assms(2), of fr rest] busy [OF a(1) assms(2), of fr] a(2)
    by (auto simp: early_uart_put_def not_le)
qed

theorem early_uart_put_writes_witness:
  "\<forall>s :: ukern. \<exists>fr' s'. early_uart_put (Some [104, 105, 0]) [32, 0, 0] (early_uart_init (\<lambda>a. 0) 0x20201000 s) = Some (fr', s') \<and>
     io_writes s' = io_writes (early_uart_init (\<lambda>a. 0) 0x20201000 s) @ [(0x20201000, 104), (0x20201000, 105)]"
proof -
  have "2 \<le> ready 5 [32, 0, 0]" by (simp add: ready_def)
  then show ?thesis using early_uart_put_writes [of "[104, 105]" "[32, 0, 0]" "[]" "\<lambda>a. 0" "0x20201000"]
    by (auto simp: UART0_DR_def)
qed

end
