(* ===== verification/Kshell.thy ===== *)
theory Kshell
  imports Api Console Uart
begin

section \<open>The shell of the kernel (\<open>shell/kshell.c\<close>)\<close>

text \<open>
  The shell reads characters from a pipe, collects them into a line and answers four commands with a listing.  What it prints is
  returned as bytes.  It runs as a thread of the kernel process: it reads the data of the kernel directly and receives messages by system calls, which
  are the argument \<open>svc\<close>.  \<open>mem_get_allocd_size\<close> asks the allocator and is the argument \<open>allocd\<close>.
\<close>

subsection \<open>State\<close>

definition MAX_LINE_INPUT :: u32 where "MAX_LINE_INPUT = 256"

record kshell_t =
  ksh_proc_list :: ptr
  ksh_input_pointer :: u16
  ksh_input_buffer :: "u8 list"

record jkern = ukern +
  kshell :: ptr
  kshells :: "kshell_t pheap"

definition ksh_thread_states :: "string list" where
  "ksh_thread_states = [''ERROR  '', ''NCREATE'', ''IDLE   '', ''READY  '', ''RUNNING'', ''SYSTEM '', ''PAUSED '', ''WAITING'', ''TERMATE'',
     ''DEAD   '']"

definition ksh_object_types :: "string list" where
  "ksh_object_types = [''UNKNOWN'', ''OBJECT '', ''PROCESS'', ''THREAD '', ''PIPE   '', ''SEMAPHR'', ''SHRMEM '', ''CLOCK  '', ''TIMER  '']"

definition ksh_pipe_dir :: "string list" where
  "ksh_pipe_dir = [''UNKN'', ''BOTH'', ''TX  '', ''RX  '']"

definition ksh_mem_type :: "string list" where "ksh_mem_type = [''DEV'', ''MEM'']"
definition ksh_mem_priv :: "string list" where "ksh_mem_priv = [''NONE'', ''USER'', ''KERN'', ''ALL '']"
definition ksh_mem_acc :: "string list" where "ksh_mem_acc = [''N/A'', ''RO '', ''RW '']"

text \<open>The numbers of the enumerations that index these tables.\<close>

fun thread_state_no :: "thread_state_t \<Rightarrow> nat" where
  "thread_state_no THREAD_UNKNOWN = 0"
| "thread_state_no THREAD_NOT_CREATED = 1"
| "thread_state_no THREAD_IDLE = 2"
| "thread_state_no THREAD_READY = 3"
| "thread_state_no THREAD_RUNNING = 4"
| "thread_state_no THREAD_SYSTEM = 5"
| "thread_state_no THREAD_PAUSED = 6"
| "thread_state_no THREAD_WAITING = 7"
| "thread_state_no THREAD_TERMINATED = 8"
| "thread_state_no THREAD_DEAD = 9"

fun object_type_no :: "object_type_t \<Rightarrow> nat" where
  "object_type_no UNKNOWN_OBJ = 0"
| "object_type_no OBJECT = 1"
| "object_type_no PROCESS_OBJ = 2"
| "object_type_no THREAD_OBJ = 3"
| "object_type_no PIPE_OBJ = 4"
| "object_type_no SEMAPHORE_OBJ = 5"
| "object_type_no SHARED_MEMORY_OBJ = 6"
| "object_type_no TIMER_OBJ = 7"

fun mem_type_no :: "mmu_memory_t \<Rightarrow> nat" where
  "mem_type_no MMU_DEVICE_MEMORY = 0"
| "mem_type_no MMU_RANDOM_ACCESS_MEMORY = 1"

fun mem_priv_no :: "mmu_privilege_t \<Rightarrow> nat" where
  "mem_priv_no MMU_NO_PRIVILEGE = 0"
| "mem_priv_no MMU_USER_ACCESS = 1"
| "mem_priv_no MMU_KERNEL_ACCESS = 2"
| "mem_priv_no MMU_ALL_ACCESS = 3"

fun mem_acc_no :: "mmu_access_t \<Rightarrow> nat" where
  "mem_acc_no MMU_NO_ACCESS = 0"
| "mem_acc_no MMU_READ_ONLY = 1"
| "mem_acc_no MMU_READ_WRITE = 2"

subsection \<open>Set-up\<close>

text \<open>The fields other than the list of processes are left as the allocator returned the memory (\<open>garbage\<close>).\<close>

definition kshell_setup :: "kshell_t \<Rightarrow> ptr \<Rightarrow> ptr \<Rightarrow> 'z jkern_scheme \<Rightarrow> 'z jkern_scheme option" where
  "kshell_setup garbage pool plist s = do {
     (k, as) \<leftarrow> mem_alloc pool (kshells s) (l_answers s);
     let s = s\<lparr>l_answers := as, kshell := k\<rparr>;
     Some (if k \<noteq> NULL then s\<lparr>kshells := (kshells s)(k \<mapsto> garbage\<lparr>ksh_proc_list := plist\<rparr>)\<rparr> else s)
   }"

primrec put_bytes :: "ptr \<Rightarrow> u8 list \<Rightarrow> ram_t \<Rightarrow> ram_t" where
  "put_bytes p [] r = r"
| "put_bytes p (c # cs) r = put_bytes (p + 1) cs (r(p := c))"

text \<open>\<open>dev_name\<close> is the address of the static array \<open>kshell_dev_name\<close>.\<close>

definition kshell_set_input_device :: "ptr \<Rightarrow> u8 list \<Rightarrow> 'z jkern_scheme \<Rightarrow> 'z jkern_scheme option" where
  "kshell_set_input_device dev_name dev s = do {
     n \<leftarrow> util_strlen (Some dev) MAX_SHARED_OBJECT_NAME_LENGTH;
     Some (s\<lparr>ram := put_bytes dev_name (take (unat n) dev)
       (put_bytes dev_name (replicate (unat MAX_SHARED_OBJECT_NAME_LENGTH) 0) (ram s))\<rparr>)
   }"

primrec kshell_strcmp_loop :: "nat \<Rightarrow> u8 list \<Rightarrow> u8 list \<Rightarrow> bool option" where
  "kshell_strcmp_loop 0 a b = Some True"
| "kshell_strcmp_loop (Suc n) a b =
     (case (a, b) of (x # xs, y # ys) \<Rightarrow> if x \<noteq> y then Some False else kshell_strcmp_loop n xs ys | _ \<Rightarrow> None)"

definition kshell_strcmp :: "u8 list \<Rightarrow> u8 list \<Rightarrow> bool option" where
  "kshell_strcmp a b = do {
     length_a \<leftarrow> util_strlen (Some a) MAX_LINE_INPUT;
     length_b \<leftarrow> util_strlen (Some b) MAX_LINE_INPUT;
     if length_a \<noteq> length_b then Some False
     else kshell_strcmp_loop (min (unat length_a) (unat MAX_LINE_INPUT)) a b
   }"

subsection \<open>Walking the processes\<close>

text \<open>The loop over the processes, which every listing has, with what is printed for one of them.\<close>

partial_function (option) kshell_procs_loop ::
  "(ptr \<Rightarrow> 'z jkern_scheme \<Rightarrow> (u8 list \<times> 'z jkern_scheme) option) \<Rightarrow> ptr \<Rightarrow> ptr \<Rightarrow> 'z jkern_scheme \<Rightarrow>
     (u8 list \<times> 'z jkern_scheme) option" where
  "kshell_procs_loop body it proc s =
     (if proc = NULL then Some ([], s)
      else do {
        (out, s) \<leftarrow> body proc s;
        (ok, item, h) \<leftarrow> list_it_next it (proc_lh s);
        (rest, s) \<leftarrow> kshell_procs_loop body it (if \<not> ok then NULL else case item of None \<Rightarrow> proc | Some p \<Rightarrow> p) (s\<lparr>proc_lh := h\<rparr>);
        Some (out @ rest, s)
      })"

definition kshell_procs ::
  "(ptr \<Rightarrow> 'z jkern_scheme \<Rightarrow> (u8 list \<times> 'z jkern_scheme) option) \<Rightarrow> 'z jkern_scheme \<Rightarrow> (u8 list \<times> 'z jkern_scheme) option" where
  "kshell_procs body s = do {
     k \<leftarrow> kshells s (kshell s);
     (it, s) \<leftarrow> proc_list_procs (ksh_proc_list k) s;
     (item, h) \<leftarrow> list_it_get it (proc_lh s);
     (out, s) \<leftarrow> kshell_procs_loop body it (case item of None \<Rightarrow> NULL | Some p \<Rightarrow> p) (s\<lparr>proc_lh := h\<rparr>);
     h \<leftarrow> list_it_delete it (proc_lh s);
     Some (out, s\<lparr>proc_lh := h\<rparr>)
   }"

subsection \<open>Processes and threads\<close>

definition kshell_process_row :: "ptr \<Rightarrow> 'z jkern_scheme \<Rightarrow> (u8 list \<times> 'z jkern_scheme) option" where
  "kshell_process_row proc s = do {
     pid \<leftarrow> process_get_pid proc (ks s);
     a \<leftarrow> printp_out (c_str ''%8d'') [Arg_Num pid];
     n \<leftarrow> process_get_thread_count proc (ks s);
     b \<leftarrow> printp_out (c_str (TAB @ ''%8d'')) [Arg_Num n];
     img \<leftarrow> process_get_image proc (ks s);
     c \<leftarrow> printp_out (c_str (TAB @ ''%s'' @ NL)) [Arg_Str img];
     Some (a @ b @ c, s)
   }"

definition kshell_process_list :: "'z jkern_scheme \<Rightarrow> (u8 list \<times> 'z jkern_scheme) option" where
  "kshell_process_list s = do {
     a \<leftarrow> print_out (Some (c_str (''Proc. Id'' @ TAB @ ''Threads '' @ TAB @ ''Name'' @ NL)));
     b \<leftarrow> print_out (Some (c_str (''--------'' @ TAB @ ''--------'' @ TAB @ ''----'' @ NL)));
     (rows, s) \<leftarrow> kshell_procs kshell_process_row s;
     c \<leftarrow> print_out (Some (c_str (''Complete'' @ NL)));
     Some (a @ b @ rows @ c, s)
   }"

definition tgt_get_context_stack_pointer :: "ptr \<Rightarrow> kst \<Rightarrow> u32 option" where
  "tgt_get_context_stack_pointer context s =
     (if context = NULL then Some 0 else do { c \<leftarrow> contexts s context; at (c_gpr c) 11 })"

definition thread_get_name :: "ptr \<Rightarrow> kst \<Rightarrow> u8 list option option" where
  "thread_get_name t = thread_field t None (\<lambda>x. Some (t_name x))"

definition kshell_task_row :: "ptr \<Rightarrow> kst \<Rightarrow> u8 list option" where
  "kshell_task_row t s = do {
     tid \<leftarrow> thread_get_tid t s;
     a \<leftarrow> printp_out (c_str ''%8d'') [Arg_Num tid];
     sz \<leftarrow> thread_get_stack_size t s;
     b \<leftarrow> printp_out (c_str (TAB @ ''0x%8X'')) [Arg_Num sz];
     context \<leftarrow> thread_get_context t s;
     sp \<leftarrow> tgt_get_context_stack_pointer context s;
     c \<leftarrow> printp_out (c_str (TAB @ ''0x%8X'')) [Arg_Num sp];
     pri \<leftarrow> thread_get_priority t s;
     d \<leftarrow> printp_out (c_str (TAB @ ''%3d'')) [Arg_Num (ucast pri)];
     entry \<leftarrow> thread_get_entry_point t s;
     e \<leftarrow> printp_out (c_str (TAB @ ''%8x'')) [Arg_Num entry];
     state \<leftarrow> thread_get_state t s;
     f \<leftarrow> printp_out (c_str (TAB @ ''%s'')) [Arg_Str (Some (c_str (ksh_thread_states ! thread_state_no state)))];
     pc \<leftarrow> tgt_get_pc context s;
     g \<leftarrow> printp_out (c_str (TAB @ ''%8x'')) [Arg_Num pc];
     name \<leftarrow> thread_get_name t s;
     h \<leftarrow> printp_out (c_str (TAB @ ''%s'')) [Arg_Str name];
     i \<leftarrow> print_out (Some (c_str NL));
     Some (a @ b @ c @ d @ e @ f @ g @ h @ i)
   }"

primrec kshell_task_rows :: "nat list \<Rightarrow> ptr \<Rightarrow> kst \<Rightarrow> u8 list option" where
  "kshell_task_rows [] proc s = Some []"
| "kshell_task_rows (i # is) proc s = do {
     t \<leftarrow> thread_by_index proc (of_nat i) s;
     out \<leftarrow> (if t \<noteq> NULL then kshell_task_row t s else Some []);
     rest \<leftarrow> kshell_task_rows is proc s;
     Some (out @ rest)
   }"

definition kshell_tasks_of :: "ptr \<Rightarrow> 'z jkern_scheme \<Rightarrow> (u8 list \<times> 'z jkern_scheme) option" where
  "kshell_tasks_of proc s = do {
     img \<leftarrow> process_get_image proc (ks s);
     a \<leftarrow> printp_out (c_str (''Process:'' @ TAB @ ''%s'' @ NL)) [Arg_Str img];
     b \<leftarrow> print_out (Some (c_str (''ThreadID'' @ TAB @ ''Stack Sz  '' @ TAB @ ''Stack Pt  '' @ TAB @ ''Pri'' @ TAB @ ''Entry   '' @ TAB @
       ''State'' @ TAB @ ''Pc'' @ TAB @ TAB @ ''Name'' @ NL)));
     c \<leftarrow> print_out (Some (c_str (''--------'' @ TAB @ ''----------'' @ TAB @ ''----------'' @ TAB @ ''---'' @ TAB @ ''--------'' @ TAB @
       ''-----'' @ TAB @ ''--'' @ TAB @ TAB @ ''----'' @ NL)));
     rows \<leftarrow> kshell_task_rows [0 ..< MAX_THREADS] proc (ks s);
     d \<leftarrow> print_out (Some (c_str NL));
     Some (a @ b @ c @ rows @ d, s)
   }"

definition kshell_task_list :: "'z jkern_scheme \<Rightarrow> (u8 list \<times> 'z jkern_scheme) option" where
  "kshell_task_list s = do {
     (out, s) \<leftarrow> kshell_procs kshell_tasks_of s;
     a \<leftarrow> print_out (Some (c_str (''Complete'' @ NL)));
     Some (out @ a, s)
   }"

subsection \<open>Objects\<close>

definition INVALID_OBJECT_TEXT :: "u8 list option" where
  "INVALID_OBJECT_TEXT = print_out (Some (c_str ''Invalid Object''))"

definition kshell_thread_text :: "ptr \<Rightarrow> 'z jkern_scheme \<Rightarrow> u8 list option" where
  "kshell_thread_text obj s = do {
     t \<leftarrow> obj_cast_thread obj s;
     if t = NULL then INVALID_OBJECT_TEXT
     else do {
       thread \<leftarrow> obj_get_thread t s;
       if thread = NULL then Some []
       else do {
         tid \<leftarrow> thread_get_tid thread (ks s);
         a \<leftarrow> printp_out (c_str (''Tid:'' @ TAB @ ''%d'' @ TAB)) [Arg_Num tid];
         pri \<leftarrow> thread_get_priority thread (ks s);
         b \<leftarrow> printp_out (c_str ''PriInherit: %d'') [Arg_Num (ucast pri)];
         Some (a @ b)
       }
     }
   }"

definition kshell_pipe_text :: "ptr \<Rightarrow> 'z jkern_scheme \<Rightarrow> u8 list option" where
  "kshell_pipe_text obj s = do {
     p \<leftarrow> obj_cast_pipe obj s;
     if p = NULL then INVALID_OBJECT_TEXT
     else do {
       name \<leftarrow> obj_pipe_get_name p s;
       a \<leftarrow> printp_out (c_str (''Name:'' @ TAB @ ''%s, '')) [Arg_Str name];
       dir \<leftarrow> obj_pipe_get_direction p s;
       b \<leftarrow> printp_out (c_str ''%s, '') [Arg_Str (Some (c_str (ksh_pipe_dir ! unat (pipe_direction_no dir))))];
       if dir = PIPE_SEND then Some (a @ b)
       else if dir = PIPE_SEND_RECEIVE \<or> dir = PIPE_RECEIVE then do {
         total \<leftarrow> obj_pipe_get_total_messages p s;
         c \<leftarrow> printp_out (c_str ''Total: %d, '') [Arg_Num total];
         free \<leftarrow> obj_pipe_get_free_messages p s;
         d \<leftarrow> printp_out (c_str ''Free: %d, '') [Arg_Num free];
         sz \<leftarrow> obj_pipe_get_msg_size p s;
         e \<leftarrow> printp_out (c_str ''Sz: %d, '') [Arg_Num sz];
         rpos \<leftarrow> obj_pipe_get_read_msg_pos p s;
         f \<leftarrow> printp_out (c_str ''Rd Pos: %d, '') [Arg_Num rpos];
         wpos \<leftarrow> obj_pipe_get_write_msg_pos p s;
         g \<leftarrow> printp_out (c_str ''Wr Pos: %d'') [Arg_Num wpos];
         Some (a @ b @ c @ d @ e @ f @ g)
       }
       else do {
         c \<leftarrow> printp_out (c_str ''Invalid object type: %d '') [Arg_Num (pipe_direction_no dir)];
         Some (a @ b @ c)
       }
     }
   }"

definition kshell_sema_text :: "ptr \<Rightarrow> 'z jkern_scheme \<Rightarrow> u8 list option" where
  "kshell_sema_text obj s = do {
     x \<leftarrow> obj_cast_semaphore obj s;
     if x = NULL then INVALID_OBJECT_TEXT
     else do {
       n \<leftarrow> obj_get_sema_count x s;
       a \<leftarrow> printp_out (c_str (''Count:'' @ TAB @ ''%d'' @ TAB)) [Arg_Num n];
       m \<leftarrow> obj_get_sema_alloc x s;
       b \<leftarrow> printp_out (c_str (''Alloc:'' @ TAB @ ''%d'' @ TAB)) [Arg_Num m];
       pri \<leftarrow> obj_get_sema_highest_priority x s;
       c \<leftarrow> printp_out (c_str ''HighPri:%d'') [Arg_Num (ucast pri)];
       Some (a @ b @ c)
     }
   }"

definition kshell_process_text :: "ptr \<Rightarrow> 'z jkern_scheme \<Rightarrow> u8 list option" where
  "kshell_process_text obj s = do {
     p \<leftarrow> obj_cast_process obj s;
     if p = NULL then INVALID_OBJECT_TEXT
     else do {
       pid \<leftarrow> obj_process_pid p s;
       printp_out (c_str (''PId:'' @ TAB @ ''%d'')) [Arg_Num pid]
     }
   }"

fun kshell_object_text :: "object_type_t \<Rightarrow> ptr \<Rightarrow> 'z jkern_scheme \<Rightarrow> u8 list option" where
  "kshell_object_text PROCESS_OBJ obj s = kshell_process_text obj s"
| "kshell_object_text THREAD_OBJ obj s = kshell_thread_text obj s"
| "kshell_object_text PIPE_OBJ obj s = kshell_pipe_text obj s"
| "kshell_object_text SEMAPHORE_OBJ obj s = kshell_sema_text obj s"
| "kshell_object_text SHARED_MEMORY_OBJ obj s = print_out (Some (c_str ''SHM''))"
| "kshell_object_text TIMER_OBJ obj s = print_out (Some (c_str ''TIMER''))"
| "kshell_object_text UNKNOWN_OBJ obj s = print_out (Some (c_str ''UNKNOWN OBJECT''))"
| "kshell_object_text OBJECT obj s = print_out (Some (c_str ''UNSUPPORTED OBJECT''))"

definition kshell_object_row :: "ptr \<Rightarrow> 'z jkern_scheme \<Rightarrow> u8 list option" where
  "kshell_object_row obj s = do {
     type \<leftarrow> obj_get_type obj (oh s);
     n \<leftarrow> obj_get_number obj (oh s);
     a \<leftarrow> printp_out (c_str (''%8d'' @ TAB)) [Arg_Num n];
     b \<leftarrow> printp_out (c_str (''%s'' @ TAB)) [Arg_Str (Some (c_str (ksh_object_types ! object_type_no type)))];
     c \<leftarrow> kshell_object_text type obj s;
     d \<leftarrow> print_out (Some (c_str NL));
     Some (a @ b @ c @ d)
   }"

partial_function (option) kshell_objects_loop :: "ptr \<Rightarrow> ptr \<Rightarrow> 'z jkern_scheme \<Rightarrow> (u8 list \<times> 'z jkern_scheme) option" where
  "kshell_objects_loop it obj s =
     (if obj = NULL then Some ([], s)
      else do {
        row \<leftarrow> kshell_object_row obj s;
        (item, s) \<leftarrow> on_mh (map_it_next it) s;
        (rest, s) \<leftarrow> kshell_objects_loop it (case item of None \<Rightarrow> NULL | Some p \<Rightarrow> p) s;
        Some (row @ rest, s)
      })"

definition kshell_objects_of :: "ptr \<Rightarrow> 'z jkern_scheme \<Rightarrow> (u8 list \<times> 'z jkern_scheme) option" where
  "kshell_objects_of proc s = do {
     table \<leftarrow> process_get_object_table proc (ks s);
     (it, s) \<leftarrow> on_oh (obj_iterator table) s;
     img \<leftarrow> process_get_image proc (ks s);
     a \<leftarrow> printp_out (c_str (''Process:'' @ TAB @ ''%s'' @ NL)) [Arg_Str img];
     b \<leftarrow> print_out (Some (c_str (''Obj No. '' @ TAB @ ''Type'' @ TAB @ NL)));
     c \<leftarrow> print_out (Some (c_str (''--------'' @ TAB @ ''----'' @ TAB @ NL)));
     if it = NULL then Some (a @ b @ c, s)
     else do {
       obj \<leftarrow> map_it_get it (mh (oh s));
       (rows, s) \<leftarrow> kshell_objects_loop it (case obj of None \<Rightarrow> NULL | Some p \<Rightarrow> p) s;
       d \<leftarrow> print_out (Some (c_str NL));
       m \<leftarrow> map_it_delete it (mh (oh s));
       Some (a @ b @ c @ rows @ d, s\<lparr>oh := (oh s)\<lparr>mh := m\<rparr>\<rparr>)
     }
   }"

definition kshell_object_table :: "'z jkern_scheme \<Rightarrow> (u8 list \<times> 'z jkern_scheme) option" where
  "kshell_object_table s = do {
     (out, s) \<leftarrow> kshell_procs kshell_objects_of s;
     a \<leftarrow> print_out (Some (c_str (''Complete'' @ NL)));
     Some (out @ a, s)
   }"

subsection \<open>Memory\<close>

definition mem_get_allocd_size :: "(ptr \<Rightarrow> u32) \<Rightarrow> ptr \<Rightarrow> u32 option" where
  "mem_get_allocd_size allocd pool = (if pool = NULL then None else Some (allocd pool))"

definition kshell_pools_of :: "(ptr \<Rightarrow> u32) \<Rightarrow> ptr \<Rightarrow> 'z jkern_scheme \<Rightarrow> (u8 list \<times> 'z jkern_scheme) option" where
  "kshell_pools_of allocd proc s = do {
     img \<leftarrow> process_get_image proc (ks s);
     a \<leftarrow> printp_out (c_str (''%s'' @ TAB)) [Arg_Str img];
     pool \<leftarrow> process_get_user_mem_pool proc (ks s);
     prv_pool \<leftarrow> process_get_mem_pool proc (ks s);
     n1 \<leftarrow> mem_get_alloc_size pool s;
     n2 \<leftarrow> mem_get_allocd_size allocd pool;
     n3 \<leftarrow> mem_get_alloc_size prv_pool s;
     n4 \<leftarrow> mem_get_allocd_size allocd prv_pool;
     b \<leftarrow> printp_out (c_str (''0x%8x 0x%8x 0x%8x 0x%8x'' @ NL)) [Arg_Num n1, Arg_Num n2, Arg_Num n3, Arg_Num n4];
     Some (a @ b, s)
   }"

definition kshell_section_row :: "ptr \<Rightarrow> vheap \<Rightarrow> u8 list option" where
  "kshell_section_row sec s = do {
     real \<leftarrow> mem_sec_get_real_addr sec s;
     virt \<leftarrow> mem_sec_get_virt_addr sec s;
     sz \<leftarrow> mem_sec_get_size sec s;
     type \<leftarrow> mem_sec_get_mem_type sec s;
     priv \<leftarrow> mem_sec_get_priv sec s;
     acc \<leftarrow> mem_sec_get_access sec s;
     name \<leftarrow> mem_sec_get_name sec s;
     printp_out (c_str (''0x%8x 0x%8x 0x%8x %s %s %s     %s'' @ NL))
       [Arg_Num real, Arg_Num virt, Arg_Num sz, Arg_Str (Some (c_str (ksh_mem_type ! mem_type_no type))),
        Arg_Str (Some (c_str (ksh_mem_priv ! mem_priv_no priv))), Arg_Str (Some (c_str (ksh_mem_acc ! mem_acc_no acc))), Arg_Str (Some name)]
   }"

partial_function (option) kshell_sections_loop :: "ptr \<Rightarrow> vheap \<Rightarrow> u8 list option" where
  "kshell_sections_loop sec s =
     (if sec = NULL then Some []
      else do {
        row \<leftarrow> kshell_section_row sec s;
        next \<leftarrow> mem_sec_get_next sec s;
        rest \<leftarrow> kshell_sections_loop next s;
        Some (row @ rest)
      })"

definition kshell_sections_of :: "ptr \<Rightarrow> 'z jkern_scheme \<Rightarrow> (u8 list \<times> 'z jkern_scheme) option" where
  "kshell_sections_of proc s = do {
     img \<leftarrow> process_get_image proc (ks s);
     a \<leftarrow> printp_out (c_str (''%s'' @ NL)) [Arg_Str img];
     sec \<leftarrow> process_get_first_section proc (ks s);
     rows \<leftarrow> kshell_sections_loop sec (vm s);
     Some (a @ rows, s)
   }"

definition kshell_memory_info :: "(ptr \<Rightarrow> u32) \<Rightarrow> 'z jkern_scheme \<Rightarrow> (u8 list \<times> 'z jkern_scheme) option" where
  "kshell_memory_info allocd s = do {
     a \<leftarrow> print_out (Some (c_str (''mem:'' @ NL @ NL)));
     b \<leftarrow> print_out (Some (c_str (''Proc'' @ TAB @ ''Pool Sz    Pool Usd   P.Pool Sz  P.Pool Usd'' @ NL)));
     c \<leftarrow> print_out (Some (c_str (''----'' @ TAB @ ''---------- ---------- ---------- ----------'' @ NL)));
     (pools, s) \<leftarrow> kshell_procs (kshell_pools_of allocd) s;
     d \<leftarrow> print_out (Some (c_str (NL @ ''Memory mappings:'' @ NL)));
     e \<leftarrow> print_out (Some (c_str (''Real       Virt       Size       Typ Priv Access Name'' @ NL)));
     f \<leftarrow> print_out (Some (c_str (''---------- ---------- ---------- --- ---- ------ ----'' @ NL)));
     (secs, s) \<leftarrow> kshell_procs kshell_sections_of s;
     g \<leftarrow> print_out (Some (c_str (''Complete'' @ NL)));
     Some (a @ b @ c @ pools @ d @ e @ f @ secs @ g, s)
   }"

subsection \<open>Commands\<close>

definition kshell_execute_command :: "(ptr \<Rightarrow> u32) \<Rightarrow> u8 list \<Rightarrow> 'z jkern_scheme \<Rightarrow> (u8 list \<times> 'z jkern_scheme) option" where
  "kshell_execute_command allocd command s = do {
     procs \<leftarrow> kshell_strcmp command (c_str ''procs'');
     if procs then kshell_process_list s
     else do {
       tasks \<leftarrow> kshell_strcmp command (c_str ''tasks'');
       if tasks then kshell_task_list s
       else do {
         objects \<leftarrow> kshell_strcmp command (c_str ''objects'');
         if objects then kshell_object_table s
         else do {
           mem \<leftarrow> kshell_strcmp command (c_str ''mem'');
           if mem then kshell_memory_info allocd s
           else do { out \<leftarrow> printp_out (c_str (''%s?'' @ NL)) [Arg_Str (Some command)]; Some (out, s) }
         }
       }
     }
   }"

text \<open>Characters are put behind the last one; an access behind the end of the buffer is illegal.\<close>

primrec kshell_put :: "u8 list \<Rightarrow> kshell_t \<Rightarrow> kshell_t option" where
  "kshell_put [] k = Some k"
| "kshell_put (c # cs) k = do {
     buf \<leftarrow> wr (ksh_input_buffer k) (unat (ksh_input_pointer k)) c;
     kshell_put cs (k\<lparr>ksh_input_buffer := buf, ksh_input_pointer := ksh_input_pointer k + 1\<rparr>)
   }"

text \<open>What the shell does with a message: whether it goes on, what it prints and the new state.\<close>

definition kshell_input ::
  "(ptr \<Rightarrow> u32) \<Rightarrow> u8 list \<Rightarrow> 'z jkern_scheme \<Rightarrow> (bool \<times> u8 list \<times> 'z jkern_scheme) option" where
  "kshell_input allocd bytes s = do {
     k \<leftarrow> kshells s (kshell s);
     k \<leftarrow> kshell_put bytes k;
     let p = ksh_input_pointer k - 1;
     c \<leftarrow> rd (ksh_input_buffer k) (unat p);
     if c = 13 \<or> c = 10 then do {
       buf \<leftarrow> wr (ksh_input_buffer k) (unat p) 0;
       let s = s\<lparr>kshells := (kshells s)(kshell s \<mapsto> k\<lparr>ksh_input_pointer := p, ksh_input_buffer := buf\<rparr>)\<rparr>;
       if p = 0 then Some (True, [], s)
       else do {
         stop \<leftarrow> kshell_strcmp buf (c_str ''exit'');
         if stop then Some (False, [], s)
         else do {
           (out, s) \<leftarrow> kshell_execute_command allocd buf s;
           k \<leftarrow> kshells s (kshell s);
           buf \<leftarrow> util_memset (ksh_input_buffer k) 0 (unat MAX_LINE_INPUT);
           prompt \<leftarrow> print_out (Some (c_str ''> ''));
           Some (True, out @ prompt,
             s\<lparr>kshells := (kshells s)(kshell s \<mapsto> k\<lparr>ksh_input_pointer := 0, ksh_input_buffer := buf\<rparr>)\<rparr>)
         }
       }
     }
     else Some (True, [], s\<lparr>kshells := (kshells s)(kshell s \<mapsto> k)\<rparr>)
   }"

text \<open>
  The variables on the stack of the shell: their addresses, and \<open>real\<close>, which gives the place of an address in memory.  The message
  goes into two bytes, of which a longer message reaches behind.
\<close>

record shell_vars =
  sv_pipe :: ptr
  sv_received :: ptr
  sv_bytes :: ptr
  sv_name :: ptr

partial_function (option) kshell_loop ::
  "('z jkern_scheme) svc \<Rightarrow> (ptr \<Rightarrow> ptr) \<Rightarrow> shell_vars \<Rightarrow> (ptr \<Rightarrow> u32) \<Rightarrow> object_number_t \<Rightarrow> 'z jkern_scheme \<Rightarrow>
     (u8 list \<times> 'z jkern_scheme) option" where
  "kshell_loop svc real v allocd pipe s =
     (let r = real (sv_received v);
          s = s\<lparr>ram := ram_put32 (real (sv_bytes v)) 0 ((ram s)(r := 0, r + 1 := 0))\<rparr>
      in do {
        (status, s) \<leftarrow> tinker_receive_message svc pipe (sv_received v) (sv_bytes v) MAX_LINE_INPUT True s;
        if status \<noteq> return_code NO_ERROR then kshell_loop svc real v allocd pipe s
        else do {
          let n = unat (ram_get32 (real (sv_bytes v)) (ram s));
          if n > 2 then None
          else do {
            (running, out, s) \<leftarrow> kshell_input allocd (take n [ram s r, ram s (r + 1)]) s;
            if \<not> running then Some (out, s)
            else do { (rest, s) \<leftarrow> kshell_loop svc real v allocd pipe s; Some (out @ rest, s) }
          }
        }
      })"

definition kshell_start ::
  "('z jkern_scheme) svc \<Rightarrow> (ptr \<Rightarrow> ptr) \<Rightarrow> shell_vars \<Rightarrow> (ptr \<Rightarrow> u32) \<Rightarrow> 'z jkern_scheme \<Rightarrow> (u8 list \<times> 'z jkern_scheme) option" where
  "kshell_start svc real v allocd s = do {
     k \<leftarrow> kshells s (kshell s);
     let s = s\<lparr>kshells := (kshells s)(kshell s \<mapsto> k\<lparr>ksh_input_pointer := 0\<rparr>)\<rparr>;
     a \<leftarrow> print_out (Some (c_str (''Tinker Shell: Starting...'' @ NL)));
     b \<leftarrow> print_out (Some (c_str (''Commands: procs, tasks, objects, mem'' @ NL)));
     (input_result, s) \<leftarrow> tinker_open_pipe svc (sv_pipe v) (sv_name v) PIPE_RECEIVE 1 MAX_LINE_INPUT s;
     if input_result \<noteq> return_code NO_ERROR then do {
       c \<leftarrow> printp_out (c_str (''KSHELL failed to open input pipe, error was %d'' @ NL)) [Arg_Num input_result];
       Some (a @ b @ c, s)
     }
     else do {
       k \<leftarrow> kshells s (kshell s);
       buf \<leftarrow> util_memset (ksh_input_buffer k) 0 (unat MAX_LINE_INPUT);
       let s = s\<lparr>kshells := (kshells s)(kshell s \<mapsto> k\<lparr>ksh_input_buffer := buf\<rparr>)\<rparr>;
       c \<leftarrow> print_out (Some (c_str (''Tinker Shell: Ready'' @ NL)));
       let p = real (sv_pipe v);
       (out, s) \<leftarrow> kshell_loop svc real v allocd (ucast (ram s p) OR push_bit 8 (ucast (ram s (p + 1)))) s;
       Some (a @ b @ c @ out, s)
     }
   }"

end
