(* ===== verification/Board.thy ===== *)
theory Board
  imports Kshell
begin

section \<open>The boards (\<open>bsp_pi.c\<close>, \<open>bsp_pi2.c\<close>, \<open>arm_vec.c\<close>, \<open>arm.c\<close>)\<close>

text \<open>
  The two boards differ in the addresses of their devices and in a few calls; a record \<open>board_t\<close> has what differs.  The addresses
  that the linker gives to functions and static variables are an argument \<open>board_addrs\<close>.  The functions that are called through pointers
  are found by their addresses: the handlers of the table of vectors, the service routines of the devices and what the timers call back.
\<close>

subsection \<open>State\<close>

text \<open>
  \<open>cp15_control\<close> and \<open>cp15_domain\<close> are the control register and the domain access register of the memory management unit,
  \<open>b_intc_base\<close> is the user data of the structure of the interrupt controller, \<open>console\<close> what has been printed by the handlers
  of exceptions, \<open>vector_table\<close> the addresses of these handlers.
\<close>

record bkern = jkern +
  scheduler_time :: tinker_time_t
  scheduler_period :: tinker_time_t
  b_intc :: ptr
  b_intc_base :: u32
  b_interrupt_controller :: ptr
  b_time_manager :: ptr
  vector_table :: "arm_vec_t \<Rightarrow> ptr"
  b_cpsr :: u32
  cp15_control :: u32
  cp15_domain :: u32
  console :: "u8 list"

record board_t =
  bd_devices :: u32
  bd_uart :: u32
  bd_intc :: u32
  bd_timer :: u32
  bd_both_uarts :: bool
  bd_banner :: bool

definition rasp_pi :: board_t where
  "rasp_pi = \<lparr>bd_devices = 0x20000000, bd_uart = 0x20201000, bd_intc = 0x2000B000, bd_timer = 0x20003000, bd_both_uarts = True,
     bd_banner = True\<rparr>"

definition rasp_pi2 :: board_t where
  "rasp_pi2 = \<lparr>bd_devices = 0x3f000000, bd_uart = 0x3f201000, bd_intc = 0x3f00B000, bd_timer = 0x3f003000, bd_both_uarts = False,
     bd_banner = False\<rparr>"

text \<open>Static variables and a variable on the stack; the entry code of an exception; functions; the end of the program.\<close>

record board_addrs =
  v_section :: ptr
  v_scheduler_timer :: ptr
  v_system_timer :: ptr
  v_uart :: ptr
  v_dev_name :: ptr
  v_isr_buffer :: ptr
  f_vector :: "arm_vec_t \<Rightarrow> u32"
  f_vec_handler :: ptr
  f_scheduler_timeout :: ptr
  f_alarm_timeout :: ptr
  end_of_program :: u32

definition UART_DEVICE_NAME :: "u8 list" where "UART_DEVICE_NAME = c_str ''/dev/char/bcm2835_uart''"
definition SCHEDULER_HERTZ :: int where "SCHEDULER_HERTZ = 10"
definition INTERRUPT_TIMER1 :: u32 where "INTERRUPT_TIMER1 = ARM_IRQ1_BASE + 1"
definition INTERRUPT_TIMER3 :: u32 where "INTERRUPT_TIMER3 = ARM_IRQ1_BASE + 3"
definition INTERRUPT_VC_UART :: u32 where "INTERRUPT_VC_UART = ARM_IRQ2_BASE + 25"
definition INTERRUPT_UART :: u32 where "INTERRUPT_UART = ARM_IRQ0_BASE + 19"

subsection \<open>The processor\<close>

unbundle bit_operations_syntax

definition hw_calls :: "hw_call list \<Rightarrow> 'z kern_scheme \<Rightarrow> 'z kern_scheme" where
  "hw_calls cs s = s\<lparr>ks := (ks s)\<lparr>hw := hw (ks s) @ cs\<rparr>\<rparr>"

definition arm_disable_mmu :: "'z bkern_scheme \<Rightarrow> 'z bkern_scheme" where
  "arm_disable_mmu s = s\<lparr>cp15_control := cp15_control s AND NOT 0x1005\<rparr>"

definition arm_enable_mmu :: "bool \<Rightarrow> 'z bkern_scheme \<Rightarrow> 'z bkern_scheme" where
  "arm_enable_mmu cache s = s\<lparr>cp15_domain := 3, cp15_control := cp15_control s OR (if cache then 0x1005 else 1)\<rparr>"

definition arm_set_domain_access_register :: "u32 \<Rightarrow> 'z bkern_scheme \<Rightarrow> 'z bkern_scheme" where
  "arm_set_domain_access_register dar s = s\<lparr>cp15_domain := dar\<rparr>"

definition tgt_initialise :: "'z bkern_scheme \<Rightarrow> 'z bkern_scheme" where
  "tgt_initialise s = hw_calls [Invalidate_TLBs] (arm_disable_mmu s)"

definition tgt_disable_external_interrupts :: "'z bkern_scheme \<Rightarrow> 'z bkern_scheme" where
  "tgt_disable_external_interrupts s = s\<lparr>b_cpsr := arm_disable_fiq (arm_disable_irq (b_cpsr s))\<rparr>"

definition tgt_enter_usermode :: "'z bkern_scheme \<Rightarrow> 'z bkern_scheme" where
  "tgt_enter_usermode s = s\<lparr>b_cpsr := arm_enable_irq (b_cpsr s)\<rparr>"

text \<open>The table of the processor starts at the address 0.\<close>

definition arm_vec_install :: "board_addrs \<Rightarrow> arm_vec_t \<Rightarrow> ptr \<Rightarrow> 'z bkern_scheme \<Rightarrow> 'z bkern_scheme" where
  "arm_vec_install A v handler s =
     s\<lparr>vector_table := (vector_table s)(v := handler),
       ram := ram_put32 (4 * vector_no v) (GET_BRANCH_FOR_VECTOR (f_vector A v) (vector_no v)) (ram s)\<rparr>"

definition ivt_initialise :: "board_addrs \<Rightarrow> 'z bkern_scheme \<Rightarrow> 'z bkern_scheme" where
  "ivt_initialise A s =
     (let s = arm_vec_install A VECTOR_RESET (f_vec_handler A) s;
          s = arm_vec_install A VECTOR_UNDEFINED (f_vec_handler A) s;
          s = arm_vec_install A VECTOR_SYSTEM_CALL (f_vec_handler A) s;
          s = arm_vec_install A VECTOR_PRETECH_ABORT (f_vec_handler A) s;
          s = arm_vec_install A VECTOR_DATA_ABORT (f_vec_handler A) s;
          s = arm_vec_install A VECTOR_RESERVED (f_vec_handler A) s;
          s = arm_vec_install A VECTOR_IRQ (f_vec_handler A) s
      in arm_vec_install A VECTOR_FIQ (f_vec_handler A) s)"

subsection \<open>Start of the board\<close>

text \<open>The first translation table is at a fixed address; memory and devices are mapped to themselves.\<close>

definition BOOT_TABLE :: ptr where "BOOT_TABLE = 0x02000000"

definition bsp_initialise :: "(u32 \<Rightarrow> u32) \<Rightarrow> board_t \<Rightarrow> board_addrs \<Rightarrow> 'z bkern_scheme \<Rightarrow> 'z bkern_scheme option" where
  "bsp_initialise io bd A s = do {
     let s = tgt_disable_external_interrupts s;
     let s = early_uart_init io (bd_uart bd) s;
     let s = tgt_initialise s;
     let s = ivt_initialise A s;
     let s = s\<lparr>vm := (vm s)\<lparr>l1_tables := (l1_tables (vm s))(BOOT_TABLE \<mapsto> \<lparr>lvl1_entry = (\<lambda>_. 0)\<rparr>)\<rparr>\<rparr>;
     s \<leftarrow> on_vs (mem_sec_initialise (v_section A) NULL 0 0 0x08000000 MMU_RANDOM_ACCESS_MEMORY MMU_ALL_ACCESS MMU_READ_WRITE
            (Some (c_str ''RAM''))) s;
     (_, s) \<leftarrow> on_vm (arm_map_memory NULL BOOT_TABLE (v_section A)) s;
     s \<leftarrow> on_vs (mem_sec_initialise (v_section A) NULL (bd_devices bd) (bd_devices bd) 0x01000000 MMU_DEVICE_MEMORY MMU_ALL_ACCESS
            MMU_READ_WRITE (Some (c_str ''RAM (UART)''))) s;
     (_, s) \<leftarrow> on_vm (arm_map_memory NULL BOOT_TABLE (v_section A)) s;
     let s = arm_set_domain_access_register 0 s;
     let s = hw_calls [Set_Translation_Table BOOT_TABLE] s;
     let s = arm_enable_mmu False s;
     Some (hw_calls [Invalidate_TLBs] s)
   }"

subsection \<open>Interrupts\<close>

definition bsp_scheduler_timeout :: "ptr \<Rightarrow> 'z bkern_scheme \<Rightarrow> 'z bkern_scheme option" where
  "bsp_scheduler_timeout context s = int_context_switch_interrupt (b_interrupt_controller s) context s"

text \<open>What the two timers call back.\<close>

definition timer_callback ::
  "code_addrs \<Rightarrow> board_addrs \<Rightarrow> ptr \<Rightarrow> ptr \<Rightarrow> ptr \<Rightarrow> 'z bkern_scheme \<Rightarrow> 'z bkern_scheme option" where
  "timer_callback c A f context parameter s =
     (if f = f_scheduler_timeout A then bsp_scheduler_timeout context s
      else if f = f_alarm_timeout A then alarm_handle_timer_timeout (alarm_callback c) parameter s
      else None)"

text \<open>
  The drivers of the board.  \<open>fr\<close> are the readings of the flag register of the serial line, and the address of the variable for a
  cause is that of the buffer of the interrupt.
\<close>

definition bsp_drivers :: "(u32 \<Rightarrow> u32) \<Rightarrow> u32 list \<Rightarrow> code_addrs \<Rightarrow> board_addrs \<Rightarrow> ('z bkern_scheme) drivers" where
  "bsp_drivers io fr c A =
     \<lparr>kernel_intcs = \<lambda>p. if p = NULL then None else Some
        \<lparr>setup_cause = \<lambda>_ _ _ _ s. Some s,
         get_cause = \<lambda>cause s. let (fired, cause) = bcm2835_get io (b_intc_base s) cause in Some (fired, cause, s),
         ack_cause = \<lambda>_ s. Some s,
         enable_cause = \<lambda>cause s. bcm2835_enable io (b_intc_base s) cause s,
         mask_cause = \<lambda>cause s. bcm2835_mask io (b_intc_base s) cause s\<rparr>,
      device_isr = \<lambda>dev. Some (\<lambda>cause s. do {
        d \<leftarrow> kernel_devices s dev;
        if kd_uart d then bcm2835_uart_isr io (v_isr_buffer A) (kd_user_data d) cause fr s else None
      }),
      timer_isr = \<lambda>t. Some (Some (\<lambda>context s. do {
        x \<leftarrow> timers s t;
        if t_set_up x then bcm2835_timer_isr io (timer_callback c A) (t_usr_data x) context s else Some (UNKNOWN_INTERRUPT_CAUSE, s)
      })),
      cause_var = v_isr_buffer A\<rparr>"

subsection \<open>Set-up of the devices\<close>

definition bsp_setup ::
  "(u32 \<Rightarrow> u32) \<Rightarrow> u32 list \<Rightarrow> code_addrs \<Rightarrow> board_t \<Rightarrow> board_addrs \<Rightarrow> bcm2835_timer_usr_data_t \<Rightarrow> ptr \<Rightarrow> ptr \<Rightarrow> ptr \<Rightarrow> ptr \<Rightarrow>
     'z bkern_scheme \<Rightarrow> 'z bkern_scheme option" where
  "bsp_setup io fr c bd A garbage controller tm am kproc s = do {
     let d = bsp_drivers io fr c A;
     let s = s\<lparr>b_interrupt_controller := controller, b_time_manager := tm\<rparr>;
     table \<leftarrow> process_get_page_table kproc (ks s);
     let s = hw_calls [Set_Translation_Table table, Invalidate_TLBs] s;
     s \<leftarrow> bcm2835_uart_get_device (bd_uart bd) (v_uart A) (Some UART_DEVICE_NAME) s;
     s \<leftarrow> kshell_set_input_device (v_dev_name A) UART_DEVICE_NAME s;
     (i, base, s) \<leftarrow> bcm2835_intc_create (mem_get_default_pool s) (bd_intc bd) s;
     let s = s\<lparr>b_intc := i, b_intc_base := base\<rparr>;
     s \<leftarrow> int_install_isr controller i s;
     s \<leftarrow> bcm2835_get_timer io garbage (mem_get_default_pool s) (v_scheduler_timer A) (bd_timer bd) 1 s;
     s \<leftarrow> bcm2835_get_timer io garbage (mem_get_default_pool s) (v_system_timer A) (bd_timer bd) 3 s;
     (clock, _, s) \<leftarrow> bcm2835_get_clock (mem_get_default_pool s) (bd_timer bd) s;
     a \<leftarrow> time_set_system_clock tm clock (ah s);
     a \<leftarrow> alarm_set_timer am (v_system_timer A) a;
     let s = s\<lparr>ah := a\<rparr>;
     s \<leftarrow> intc_add_timer i INTERRUPT_TIMER1 (v_scheduler_timer A) s;
     s \<leftarrow> intc_add_timer i INTERRUPT_TIMER3 (v_system_timer A) s;
     s \<leftarrow> intc_add_device i INTERRUPT_VC_UART (v_uart A) s;
     s \<leftarrow> (if bd_both_uarts bd then intc_add_device i INTERRUPT_UART (v_uart A) s else Some s);
     (_, s) \<leftarrow> intc_enable d i INTERRUPT_TIMER1 s;
     (_, s) \<leftarrow> intc_enable d i INTERRUPT_TIMER3 s;
     (_, s) \<leftarrow> intc_enable d i INTERRUPT_VC_UART s;
     Some (hw_calls [Set_Translation_Table table, Invalidate_TLBs] s)
   }"

subsection \<open>Exceptions\<close>

text \<open>A fault ends the thread that caused it.  What \<open>int_fatal_program_error_interrupt\<close> prints itself is not part of \<open>console\<close>.\<close>

definition bsp_banner :: "board_t \<Rightarrow> string \<Rightarrow> 'z bkern_scheme \<Rightarrow> u8 list option" where
  "bsp_banner bd x s =
     (if bd_banner bd
      then error_print (b_time_manager s) (c_str (''## ------------------'' @ x @ ''------------------------- ##'' @ NL)) [] (ah s)
      else Some [])"

definition bsp_fatal :: "board_t \<Rightarrow> string \<Rightarrow> ptr \<Rightarrow> 'z bkern_scheme \<Rightarrow> 'z bkern_scheme option" where
  "bsp_fatal bd name context s = do {
     first \<leftarrow> bsp_banner bd ''S'' s;
     cx \<leftarrow> contexts (ks s) context;
     text \<leftarrow> error_print (b_time_manager s) (c_str (name @ '' sp=[%x] pc=[%x], lr=[%x]'' @ NL))
       [Arg_Num (c_sp cx), Arg_Num (c_pc cx), Arg_Num (c_lr cx)] (ah s);
     s \<leftarrow> int_fatal_program_error_interrupt (b_interrupt_controller s) context s;
     last \<leftarrow> bsp_banner bd ''E'' s;
     Some (s\<lparr>console := console s @ first @ text @ last\<rparr>)
   }"

definition arm_vec_handler ::
  "(u32 \<Rightarrow> u32) \<Rightarrow> u32 list \<Rightarrow> code_addrs \<Rightarrow> board_t \<Rightarrow> board_addrs \<Rightarrow> arm_vec_t \<Rightarrow> ptr \<Rightarrow> 'z bkern_scheme \<Rightarrow> 'z bkern_scheme option" where
  "arm_vec_handler io fr c bd A type context s = do {
     kernel_assert (b_interrupt_controller s \<noteq> NULL);
     (case type of
        VECTOR_DATA_ABORT \<Rightarrow> bsp_fatal bd ''Data Abort'' context s
      | VECTOR_RESET \<Rightarrow> bsp_fatal bd ''Reset'' context s
      | VECTOR_UNDEFINED \<Rightarrow> bsp_fatal bd ''Undefined'' context s
      | VECTOR_PRETECH_ABORT \<Rightarrow> bsp_fatal bd ''Prefetch'' context s
      | VECTOR_RESERVED \<Rightarrow> bsp_fatal bd ''Reserved'' context s
      | VECTOR_SYSTEM_CALL \<Rightarrow> int_syscall_request_interrupt c (b_interrupt_controller s) context s
      | _ \<Rightarrow> do {
          (_, s) \<leftarrow> int_handle_external_vector (bsp_drivers io fr c A) (b_interrupt_controller s) context s;
          Some s
        })
   }"

text \<open>
  The timer of the scheduler is set for one period from now on.  Without a clock the time is what was on the stack (\<open>garbage\<close>); a timer that is not
  set up has no function to call.
\<close>

definition bsp_enable_schedule_timer ::
  "(u32 \<Rightarrow> u32) \<Rightarrow> board_addrs \<Rightarrow> tinker_time_t \<Rightarrow> 'z bkern_scheme \<Rightarrow> 'z bkern_scheme option" where
  "bsp_enable_schedule_timer io A garbage s = do {
     now \<leftarrow> time_get_system_time (b_time_manager s) garbage (ah s);
     let s = s\<lparr>scheduler_period := tinker_time_milliseconds (of_int (1000 div SCHEDULER_HERTZ))\<rparr>;
     let s = s\<lparr>scheduler_time := tinker_time_add now (scheduler_period s)\<rparr>;
     t \<leftarrow> timers s (v_scheduler_timer A);
     kernel_assert (t_set_up t);
     bcm2835_timer_setup io (t_usr_data t) (scheduler_time s) (f_scheduler_timeout A) NULL s
   }"

subsection \<open>Memory and output\<close>

definition bsp_get_usable_memory_start :: "board_addrs \<Rightarrow> u32" where
  "bsp_get_usable_memory_start A = end_of_program A"

definition bsp_get_usable_memory_end :: u32 where
  "bsp_get_usable_memory_end = 32 * 1024 * 1024 - 1"

definition bsp_write_debug_char ::
  "board_addrs \<Rightarrow> u8 \<Rightarrow> u32 list \<Rightarrow> 'z bkern_scheme \<Rightarrow> (u32 list \<times> 'z bkern_scheme) option" where
  "bsp_write_debug_char A c fr s = do {
     d \<leftarrow> kernel_devices s (v_uart A);
     if kd_user_data d \<noteq> NULL then do {
       kernel_assert (kd_uart d);
       (_, fr, s) \<leftarrow> bcm2835_uart_write (kd_user_data d) 0 (ucast c) fr s;
       Some (fr, s)
     }
     else early_uart_putc c fr s
   }"

subsection \<open>The second board\<close>

definition bsp_pi2_initialise :: "(u32 \<Rightarrow> u32) \<Rightarrow> board_addrs \<Rightarrow> 'z bkern_scheme \<Rightarrow> 'z bkern_scheme option" where
  "bsp_pi2_initialise io A s = bsp_initialise io rasp_pi2 A s"

definition bsp_pi2_setup ::
  "(u32 \<Rightarrow> u32) \<Rightarrow> u32 list \<Rightarrow> code_addrs \<Rightarrow> board_addrs \<Rightarrow> bcm2835_timer_usr_data_t \<Rightarrow> ptr \<Rightarrow> ptr \<Rightarrow> ptr \<Rightarrow> ptr \<Rightarrow>
     'z bkern_scheme \<Rightarrow> 'z bkern_scheme option" where
  "bsp_pi2_setup io fr c A garbage controller tm am kproc s = bsp_setup io fr c rasp_pi2 A garbage controller tm am kproc s"

definition bsp_pi2_vec_handler ::
  "(u32 \<Rightarrow> u32) \<Rightarrow> u32 list \<Rightarrow> code_addrs \<Rightarrow> board_addrs \<Rightarrow> arm_vec_t \<Rightarrow> ptr \<Rightarrow> 'z bkern_scheme \<Rightarrow> 'z bkern_scheme option" where
  "bsp_pi2_vec_handler io fr c A type context s = arm_vec_handler io fr c rasp_pi2 A type context s"

end
