(* ===== verification/Kernel_Start.thy ===== *)
theory Kernel_Start
  imports Board
begin

section \<open>Start of the kernel (\<open>boot.c\<close>, \<open>kernel_initialise.c\<close>, \<open>kernel_main.c\<close>, \<open>kernel_idle.c\<close>)\<close>

text \<open>
  Behind the kernel in memory is a table of words that ends with a zero, and behind the table are the programs to start.
  Addresses of the linker and of variables on the stack are an argument \<open>start_addrs\<close>; a panic is the missing result.
\<close>

record start_addrs =
  l_text :: u32
  l_text_end :: u32
  l_data_end :: u32
  v_data_part :: ptr
  v_code_part :: ptr
  f_kernel_idle :: ptr
  f_kshell_start :: ptr

definition KERNEL_HEAP :: u32 where "KERNEL_HEAP = 0x100000"
definition KERNEL_IDLE_STACK :: u32 where "KERNEL_IDLE_STACK = 0x400"
definition KERNEL_IDLE_PRIORITY :: u8 where "KERNEL_IDLE_PRIORITY = 0"

subsection \<open>The programs behind the kernel\<close>

text \<open>The words of the table are taken for the sizes of the programs; the result is the sum that the code returns the address for.\<close>

partial_function (option) pool_start_loop :: "u32 \<Rightarrow> u32 \<Rightarrow> ram_t \<Rightarrow> u32 option" where
  "pool_start_loop size_ptr sizes r =
     (let sz = ram_get32 size_ptr r in if sz = 0 then Some sizes else pool_start_loop (size_ptr + 4) (sizes + sz) r)"

definition calculate_start_of_pool :: "u32 \<Rightarrow> ram_t \<Rightarrow> u32 option" where
  "calculate_start_of_pool end_of_bin r = do {
     sizes \<leftarrow> pool_start_loop (end_of_bin + 4) 4 r;
     Some (end_of_bin + sizes)
   }"

text \<open>The same words are the offsets of the programs here.\<close>

partial_function (option) load_processes_loop ::
  "code_addrs \<Rightarrow> u32 \<Rightarrow> ptr \<Rightarrow> u32 \<Rightarrow> 'z ekern_scheme \<Rightarrow> 'z ekern_scheme option" where
  "load_processes_loop c end_of_bin loader app_start s =
     (let app = ram_get32 app_start (ram s) in
      if app = 0 then Some s
      else do {
        (elf_error, s) \<leftarrow> load_elf c loader (end_of_bin + app) (Some (c_str ''app'')) 128 0 s;
        kernel_assert (elf_error = NO_ERROR);
        load_processes_loop c end_of_bin loader (app_start + 4) s
      })"

definition load_processes :: "code_addrs \<Rightarrow> u32 \<Rightarrow> ptr \<Rightarrow> 'z ekern_scheme \<Rightarrow> 'z ekern_scheme option" where
  "load_processes c end_of_bin loader s = load_processes_loop c end_of_bin loader (end_of_bin + 4) s"

subsection \<open>The memory of the kernel\<close>

text \<open>The address is rounded up to a page one byte at a time; a page has 4096 bytes.\<close>

primrec page_align :: "nat \<Rightarrow> u32 \<Rightarrow> u32" where
  "page_align 0 a = a"
| "page_align (Suc n) a = (if a mod of_nat MMU_PAGE_SIZE \<noteq> 0 then page_align n (a + 1) else a)"

definition kernel_memory :: "board_addrs \<Rightarrow> 'z lkern_scheme \<Rightarrow> 'z lkern_scheme option" where
  "kernel_memory A s = do {
     let end_of_bin = bsp_get_usable_memory_start A;
     memory_start \<leftarrow> calculate_start_of_pool end_of_bin (ram s);
     let memory_end = bsp_get_usable_memory_end - of_nat MMU_PAGE_SIZE;
     let aligned_start = page_align MMU_PAGE_SIZE memory_start;
     kernel_assert (memory_end > 0);
     kernel_assert (memory_end > aligned_start);
     let s = s\<lparr>ram := ram_clear aligned_start (memory_end - aligned_start) (ram s)\<rparr>;
     (mem_init_ok, s) \<leftarrow> mem_initialise aligned_start memory_end s;
     kernel_assert mem_init_ok;
     Some s
   }"

subsection \<open>The kernel process\<close>

definition kernel_parts :: "start_addrs \<Rightarrow> 'z lkern_scheme \<Rightarrow> 'z lkern_scheme option" where
  "kernel_parts L s = do {
     data_name \<leftarrow> util_strcpy (replicate 33 0) (Some (c_str ''KERNEL (DATA)'')) 32;
     code_name \<leftarrow> util_strcpy (replicate 33 0) (Some (c_str ''KERNEL (CODE)'')) 32;
     Some (s\<lparr>memparts := (memparts s)
       (v_data_part L \<mapsto> \<lparr>mp_real = 0, mp_virt = 0, mp_size = l_data_end L, mp_mem_type = MMU_RANDOM_ACCESS_MEMORY,
          mp_priv = MMU_ALL_ACCESS, mp_access = MMU_READ_WRITE, mp_name = data_name, mp_next = NULL\<rparr>,
        v_code_part L \<mapsto> \<lparr>mp_real = l_text L, mp_virt = l_text L, mp_size = l_text_end L - l_text L,
          mp_mem_type = MMU_RANDOM_ACCESS_MEMORY, mp_priv = MMU_ALL_ACCESS, mp_access = MMU_READ_ONLY, mp_name = code_name,
          mp_next = v_data_part L\<rparr>)\<rparr>)
   }"

text \<open>The section of the private pool of the kernel is mapped again after the board is set up.\<close>

partial_function (option) map_private_pool :: "ptr \<Rightarrow> ptr \<Rightarrow> 'z kern_scheme \<Rightarrow> 'z kern_scheme option" where
  "map_private_pool kproc b s =
     (if b = NULL then Some s
      else do {
        virt \<leftarrow> mem_sec_get_virt_addr b (vm s);
        s \<leftarrow> (if virt = VIRTUAL_ADDRESS_SPACE True + PRIVATE_POOL_SIZE
              then do { (_, s) \<leftarrow> tgt_map_memory kproc b s; Some s } else Some s);
        next \<leftarrow> mem_sec_get_next b (vm s);
        map_private_pool kproc next s
      })"

subsection \<open>Initialisation\<close>

text \<open>
  The managers, in the order of the code: time and alarms, the registry, the scheduler, the list of processes, the loader, the system calls
  and the interrupts.  The result has the pointers that the rest of the initialisation uses.
\<close>

record managers =
  mg_time :: ptr
  mg_alarm :: ptr
  mg_registry :: ptr
  mg_scheduler :: ptr
  mg_procs :: ptr
  mg_loader :: ptr
  mg_intc :: ptr

definition kernel_managers :: "'z bkern_scheme \<Rightarrow> (managers \<times> 'z bkern_scheme) option" where
  "kernel_managers s = do {
     let pool = mem_get_default_pool s;
     (tm, s) \<leftarrow> on_ah (time_initialise pool) s;
     (am, s) \<leftarrow> on_ah (alarm_initialse pool tm) s;
     (reg, s) \<leftarrow> registry_create pool s;
     (sch, k) \<leftarrow> sch_create_scheduler pool (mem_get_default_pool s) (ks s);
     let s = s\<lparr>ks := k\<rparr>;
     (procs, s) \<leftarrow> proc_create pool sch am s;
     (loader, s) \<leftarrow> loader_create pool procs s;
     (handler, s) \<leftarrow> create_handler pool procs reg sch tm am loader s;
     (intc, s) \<leftarrow> int_create pool handler sch s;
     Some (\<lparr>mg_time = tm, mg_alarm = am, mg_registry = reg, mg_scheduler = sch, mg_procs = procs, mg_loader = loader, mg_intc = intc\<rparr>, s)
   }"

definition kernel_process_start ::
  "code_addrs \<Rightarrow> start_addrs \<Rightarrow> kshell_t \<Rightarrow> managers \<Rightarrow> 'z bkern_scheme \<Rightarrow> (ptr \<times> ptr \<times> 'z bkern_scheme) option" where
  "kernel_process_start c L garbage m s = do {
     s \<leftarrow> kernel_parts L s;
     (_, kproc, s) \<leftarrow> proc_create_process c (mg_procs m) (Some (c_str ''kernel'')) (Some (c_str ''kernel_idle'')) (f_kernel_idle L)
       KERNEL_IDLE_PRIORITY \<lparr>heap_size = KERNEL_HEAP, stack_size = KERNEL_IDLE_STACK, first_part = v_code_part L\<rparr> 0 s;
     let s = kernel_device_init kproc (mg_registry m) (mg_procs m) s;
     s \<leftarrow> proc_set_kernel_process (mg_procs m) kproc s;
     idle \<leftarrow> process_get_main_thread kproc (ks s);
     s \<leftarrow> on_ks (sch_set_kernel_idle_thread (mg_scheduler m) idle) s;
     kernel_assert (kproc \<noteq> NULL);
     kernel_assert (idle \<noteq> NULL);
     s \<leftarrow> on_ks (thread_set_state idle THREAD_SYSTEM) s;
     s \<leftarrow> kshell_setup garbage (mem_get_default_pool s) (mg_procs m) s;
     (sec, s) \<leftarrow> on_vm (mem_sec_create (mem_get_default_pool s) 0 0 (32 * (1024 * 1024)) MMU_RANDOM_ACCESS_MEMORY MMU_ALL_ACCESS MMU_READ_WRITE
       (Some (c_str ''RAM (Kernel)''))) s;
     (_, s) \<leftarrow> tgt_map_memory kproc sec s;
     s \<leftarrow> on_ks (sch_set_current_thread (mg_scheduler m) idle) s;
     Some (kproc, idle, s)
   }"

definition kernel_initialise ::
  "(u32 \<Rightarrow> u32) \<Rightarrow> u32 list \<Rightarrow> code_addrs \<Rightarrow> board_t \<Rightarrow> board_addrs \<Rightarrow> start_addrs \<Rightarrow> bcm2835_timer_usr_data_t \<Rightarrow> kshell_t \<Rightarrow>
     'z bkern_scheme \<Rightarrow> 'z bkern_scheme option" where
  "kernel_initialise io fr c bd A L timer_garbage shell_garbage s = do {
     let end_of_bin = bsp_get_usable_memory_start A;
     s \<leftarrow> kernel_memory A s;
     (m, s) \<leftarrow> kernel_managers s;
     (kproc, _, s) \<leftarrow> kernel_process_start c L shell_garbage m s;
     s \<leftarrow> bsp_setup io fr c bd A timer_garbage (mg_intc m) (mg_time m) (mg_alarm m) kproc s;
     b \<leftarrow> process_get_first_section kproc (ks s);
     s \<leftarrow> map_private_pool kproc b s;
     (_, _, _, s) \<leftarrow> proc_create_thread (a_bootstrap c) (a_thread_end c) kproc (Some (c_str ''kernel_shell'')) (f_kshell_start L) 1 0x400 0 s;
     load_processes c end_of_bin (mg_loader m) s
   }"

subsection \<open>The main program\<close>

definition kernel_main ::
  "('z bkern_scheme) svc \<Rightarrow> ('z bkern_scheme \<Rightarrow> 'z bkern_scheme option) \<Rightarrow> 'z bkern_scheme \<Rightarrow> 'z bkern_scheme option" where
  "kernel_main svc initialise s = do {
     s \<leftarrow> initialise s;
     (_, s) \<leftarrow> TINKER_API_CALL_7 svc SYSCALL_TEST 0x11111111 0x22222222 0x33333333 0x44444444 0x55555555 0x66666666 0x77777777 s;
     let s = tgt_enter_usermode s;
     (_, s) \<leftarrow> TINKER_API_CALL_0 svc SYSCALL_LOAD_THREAD s;
     Some s
   }"

text \<open>
  The call of the kernel at its virtual address follows only if the first one comes back.  \<open>kmain\<close> is the code there.
\<close>

definition kernel_boot ::
  "('z bkern_scheme) svc \<Rightarrow> (u32 \<Rightarrow> u32) \<Rightarrow> u32 list \<Rightarrow> code_addrs \<Rightarrow> board_t \<Rightarrow> board_addrs \<Rightarrow> start_addrs \<Rightarrow>
     bcm2835_timer_usr_data_t \<Rightarrow> kshell_t \<Rightarrow> ('z bkern_scheme \<Rightarrow> 'z bkern_scheme option) \<Rightarrow> 'z bkern_scheme \<Rightarrow> 'z bkern_scheme option" where
  "kernel_boot svc io fr c bd A L timer_garbage shell_garbage kmain s = do {
     s \<leftarrow> bsp_initialise io bd A s;
     s \<leftarrow> kernel_main svc (kernel_initialise io fr c bd A L timer_garbage shell_garbage) s;
     kmain s
   }"

text \<open>The idle thread waits for interrupts for ever.\<close>

partial_function (option) kernel_idle :: "'s svc \<Rightarrow> 's \<Rightarrow> 's option" where
  "kernel_idle svc s = Option.bind (tinker_wait_for_interrupt svc s) (\<lambda>s. kernel_idle svc s)"

end
