(* ===== verification/Board_Props.thy ===== *)
theory Board_Props
  imports Board Sched_Props Device_Props Syscall_Props Mmu_Props Pipe_Correct
begin

section \<open>Properties of the boards\<close>

text \<open>
  What the interrupt of the scheduler's timer does on a board, from the entry of the exception to the registers that are loaded on the way back,
  and what is mapped when the memory management unit is switched on.
\<close>

subsection \<open>A board without devices\<close>

text \<open>The state of a board with nothing allocated, and addresses that a linker could have chosen, from which the examples are built.\<close>

definition demo_board :: board_addrs where
  "demo_board = \<lparr>v_section = 0x100, v_scheduler_timer = 0x200, v_system_timer = 0x300, v_uart = 0x400, v_dev_name = 0x500, v_isr_buffer = 0x600,
     f_vector = (\<lambda>_. 0x8000), f_vec_handler = 0x8100, f_scheduler_timeout = 0x8200, f_alarm_timeout = 0x8300, end_of_program = 0x8064\<rparr>"

definition empty_board :: bkern where
  "empty_board = \<lparr>ks = no_kst, ah = no_alarms, oh = no_objects, vm = no_sections, blocks = Map.empty, b_answers = [],
     thread_objs = Map.empty, registries = Map.empty, reg_entries = Map.empty, r_answers = [], sema_objs = Map.empty,
     pipe_objs = Map.empty, pipe_lists = no_lists, ram = (\<lambda>_. 0), shm_objs = Map.empty, shm_lists = no_lists,
     timer_objs = Map.empty, pools = Map.empty, mem_memory_pool = NULL, process_objs = Map.empty, proc_lists = Map.empty,
     proc_lh = no_lists, meminfos = Map.empty, memparts = Map.empty, l_answers = [], loaders = Map.empty, handlers = Map.empty,
     board = [], intcs = Map.empty, internals = Map.empty, int_ctls = Map.empty, dev_list = NULL, dev_process = NULL,
     dev_registry = NULL, timer_data = Map.empty, timers = Map.empty, io_writes = [], early_available = False, early_base = 0,
     uart_data = Map.empty, kernel_devices = Map.empty, kshell = NULL, kshells = Map.empty, scheduler_time = \<lparr>seconds = 0, nanoseconds = 0\<rparr>,
     scheduler_period = \<lparr>seconds = 0, nanoseconds = 0\<rparr>, b_intc = NULL, b_intc_base = 0, b_interrupt_controller = NULL, b_time_manager = NULL,
     vector_table = (\<lambda>_. NULL), b_cpsr = 0x13, cp15_control = 0, cp15_domain = 0, console = []\<rparr>"

subsection \<open>The tick of the scheduler\<close>

text \<open>Two switches in a row, the second with the state that the first left the thread in.\<close>

lemma sch_switch_twice:
  assumes wf: "sched_wf s sc" and sc: "scheds s sch = Some sc"
    and q: "curr_queue sc = priority_queues sc p" and r: "ready s sc p = a # ms @ [b]" "ms \<noteq> []"
    and bk: "queue_back (cols s) (curr_queue sc)"
    and x: "threads s a = Some x" "runnable (t_state x)" and idle: "idle_thread sc \<noteq> NULL"
    and cur: "curr_thread sc = b" "a \<noteq> b" "threads s b = Some y" "t_state y = THREAD_RUNNING"
    and ctx: "context \<noteq> NULL" "contexts s context = Some now" "contexts s (t_context x) = Some saved" "contexts s (t_context y) \<noteq> None"
      "t_context x \<noteq> NULL" "t_context y \<noteq> NULL" "t_context x \<noteq> context" "t_context y \<noteq> context" "t_context x \<noteq> t_context y"
    and proc: "\<And>z. z \<in> {x, y} \<Longrightarrow> t_parent z \<noteq> NULL \<Longrightarrow> processes s (t_parent z) \<noteq> None"
  obtains s1 s2 sc2 where "sch_set_context_for_next_thread sch context THREAD_RUNNING s = Some s1"
    "thread_get_state b s1 = Some THREAD_READY" "sch_set_context_for_next_thread sch context THREAD_READY s1 = Some s2"
    "scheds s2 sch = Some sc2" "curr_thread sc2 = b" "ready s2 sc2 = ready s sc" "sched_wf s2 sc2"
    "contexts s2 = (contexts s)(t_context y \<mapsto> now)"
proof -
  have n: "a \<noteq> NULL" "b \<noteq> NULL" using sched_wf_thread [OF wf, of _ p] r by auto
  have len: "length (ready s sc p) \<noteq> 2" using r by (cases ms) simp_all
  obtain s1 sc1 where s1: "sch_set_context_for_next_thread sch context THREAD_RUNNING s = Some s1" "scheds s1 sch = Some sc1" "sched_wf s1 sc1"
      "ready s1 sc1 = (ready s sc)(p := swapped (ready s sc p))"
      "threads s1 = (threads s)(a \<mapsto> x\<lparr>t_state := THREAD_RUNNING\<rparr>, b \<mapsto> stopped THREAD_RUNNING y)"
      "contexts s1 = (contexts s)(t_context y \<mapsto> now, context \<mapsto> saved)"
      "sc1 = sc\<lparr>curr_thread := a, eval_new_thread := False\<rparr>" "processes s1 = processes s" "queue_back (cols s1) (curr_queue sc)"
    using sch_switch_full [OF wf sc q r(1) len bk x idle cur(1) n(2) cur(2) [symmetric] cur(3) ctx(1,2,4,6,8,3,9) proc [of x], of THREAD_RUNNING]
    by auto
  have r1: "ready s1 sc1 p = b # ms @ [a]" using s1(4) r by (simp add: swapped_def butlast_append)
  have "\<exists>s2 sc2. sch_set_context_for_next_thread sch context THREAD_READY s1 = Some s2 \<and> scheds s2 sch = Some sc2 \<and> curr_thread sc2 = b \<and>
      sched_wf s2 sc2 \<and> ready s2 sc2 = (ready s1 sc1)(p := swapped (ready s1 sc1 p)) \<and>
      threads s2 = (threads s1)(b \<mapsto> (y\<lparr>t_state := THREAD_READY\<rparr>)\<lparr>t_state := THREAD_RUNNING\<rparr>, a \<mapsto> stopped THREAD_READY (x\<lparr>t_state := THREAD_RUNNING\<rparr>)) \<and>
      contexts s2 = (contexts s1)(t_context (x\<lparr>t_state := THREAD_RUNNING\<rparr>) \<mapsto> saved, context \<mapsto> now) \<and>
      hw s2 = hw s1 @ parent_switch (x\<lparr>t_state := THREAD_RUNNING\<rparr>) (y\<lparr>t_state := THREAD_READY\<rparr>) s1 @ (if ms @ [a] = [] then [] else [Enable_Schedule_Timer])"
    by (rule sch_switch_spec [OF s1(3,2) _ r1])
      (use s1 q r cur n ctx idle proc [of y] in \<open>auto simp: r1 stopped_def runnable_def\<close>)
  then obtain s2 sc2 where s2: "sch_set_context_for_next_thread sch context THREAD_READY s1 = Some s2" "scheds s2 sch = Some sc2"
    "curr_thread sc2 = b" "sched_wf s2 sc2" "ready s2 sc2 = (ready s1 sc1)(p := swapped (ready s1 sc1 p))"
    "contexts s2 = (contexts s1)(t_context x \<mapsto> saved, context \<mapsto> now)" by auto
  show thesis
  proof (rule that [OF s1(1) _ s2(1,2,3) _ s2(4)])
    show "thread_get_state b s1 = Some THREAD_READY" using s1(5) n by (simp add: thread_get_state_def thread_field_def stopped_def)
    show "ready s2 sc2 = ready s sc" using s2(5) s1(4) r by (auto simp: swapped_def butlast_append)
    show "contexts s2 = (contexts s)(t_context y \<mapsto> now)" using s2(6) s1(6) ctx by (auto simp: fun_eq_iff)
  qed
qed

lemma timer_clear_fields [simp]:
  fixes s :: "'z bkern_scheme"
  shows "ks (timer_clear io base n s) = ks s" "int_ctls (timer_clear io base n s) = int_ctls s"
    "intcs (timer_clear io base n s) = intcs s" "timer_data (timer_clear io base n s) = timer_data s"
    "b_interrupt_controller (timer_clear io base n s) = b_interrupt_controller s"
  by (simp_all add: timer_clear_def out_u32_def Let_def)

text \<open>
  C34: the tick of the scheduler does not switch.  When the timer of the scheduler interrupts the thread at the back of a queue of three or
  more, its handler switches to the thread at the front, and the code that handles every interrupt switches again afterwards.  The
  thread that was interrupted is the current one again, the registers loaded are its own, and the order of the
  queue is the one from before: the tick leaves the processor with the thread it interrupted.
\<close>

theorem scheduler_tick_resumes:
  assumes sched: "sched_wf (ks s) sc" "scheds (ks s) sch = Some sc" "curr_queue sc = priority_queues sc p"
      "ready (ks s) sc p = a # ms @ [b]" "ms \<noteq> []" "queue_back (cols (ks s)) (curr_queue sc)"
      "threads (ks s) a = Some x" "runnable (t_state x)" "idle_thread sc \<noteq> NULL"
      "curr_thread sc = b" "a \<noteq> b" "threads (ks s) b = Some y" "t_state y = THREAD_RUNNING"
    and ctx: "context \<noteq> NULL" "contexts (ks s) context = Some now" "contexts (ks s) (t_context x) = Some saved"
      "contexts (ks s) (t_context y) \<noteq> None" "t_context x \<noteq> NULL" "t_context y \<noteq> NULL" "t_context x \<noteq> context" "t_context y \<noteq> context"
      "t_context x \<noteq> t_context y"
    and proc: "\<And>z. z \<in> {x, y} \<Longrightarrow> t_parent z \<noteq> NULL \<Longrightarrow> processes (ks s) (t_parent z) \<noteq> None"
    and ctl: "b_interrupt_controller s \<noteq> NULL" "int_ctls s (b_interrupt_controller s) = Some ic" "ic_scheduler ic = sch"
      "interrupt_manager_root ic = i" "i \<noteq> NULL" "intcs s i = Some t" "kernel_intc t \<noteq> NULL"
      "isr_at t INTERRUPT_TIMER1 = Some isr" "isr \<noteq> NULL" "internals s isr = Some \<lparr>intc_type = TIMER_INTC, intc_dev = tm\<rparr>" "tm \<noteq> NULL"
    and tick: "bank1_pending io (b_intc_base s) 1" "timers s tm = Some \<lparr>t_set_up = True, t_usr_data = u\<rparr>" "u \<noteq> NULL"
      "timer_data s u = Some td" "compare_offset (tu_instance td) \<noteq> 0" "tu_callback td = f_scheduler_timeout A" "f_scheduler_timeout A \<noteq> NULL"
  shows "\<exists>s' sc'. arm_vec_handler io fr c bd A VECTOR_IRQ context s = Some s' \<and> scheds (ks s') sch = Some sc' \<and> curr_thread sc' = b \<and>
    contexts (ks s') = (contexts (ks s))(t_context y \<mapsto> now) \<and> ready (ks s') sc' = ready (ks s) sc \<and> sched_wf (ks s') sc'"
proof -
  let ?ic = "b_interrupt_controller s"
  obtain k1 k2 sc2 where k: "sch_set_context_for_next_thread sch context THREAD_RUNNING (ks s) = Some k1"
    "thread_get_state b k1 = Some THREAD_READY" "sch_set_context_for_next_thread sch context THREAD_READY k1 = Some k2"
    "scheds k2 sch = Some sc2" "curr_thread sc2 = b" "ready k2 sc2 = ready (ks s) sc" "sched_wf k2 sc2"
    "contexts k2 = (contexts (ks s))(t_context y \<mapsto> now)"
    by (rule sch_switch_twice [OF sched ctx proc])
  define s0 where "s0 = s\<lparr>int_ctls := (int_ctls s)(?ic \<mapsto> ic\<lparr>is_external := True\<rparr>)\<rparr>"
  define s1 where "s1 = (timer_clear io (tu_base td) (tu_instance td) s0)\<lparr>ks := k1\<rparr>"
  have s0: "ks s0 = ks s" "intcs s0 = intcs s" "internals s0 = internals s" "timers s0 = timers s" "timer_data s0 = timer_data s"
    "b_interrupt_controller s0 = ?ic" "int_ctls s0 ?ic = Some (ic\<lparr>is_external := True\<rparr>)" "b_intc_base s0 = b_intc_base s"
    by (simp_all add: s0_def)
  have st: "thread_get_state b (ks s) = Some THREAD_RUNNING"
    using sched(12,13) sched_wf_thread [OF sched(1), of b p] sched(4) by (simp add: thread_get_state_def thread_field_def)
  have call: "timer_callback c A (f_scheduler_timeout A) context v (timer_clear io (tu_base td) (tu_instance td) s0) = Some s1" for v
    using ctl(1,3) ctx(1) s0 st k(1) sched(2,10)
    by (simp add: timer_callback_def bsp_scheduler_timeout_def int_context_switch_interrupt_def kernel_assert_def sch_get_current_thread_def
      on_ks_def s1_def)
  have tisr: "bcm2835_timer_isr io (timer_callback c A) u context s0 = Some (NO_ERROR, s1)"
    using tick(3-7) s0 call by (simp add: bcm2835_timer_isr_def bcm2835_timer_cancel_def kernel_assert_def)
  have get: "bcm2835_get io (b_intc_base s0) 0 = (True, INTERRUPT_TIMER1)"
    using bcm2835_get_bank1(1) [OF tick(1), of 0] by (simp add: s0 INTERRUPT_TIMER1_def ARM_IRQ1_BASE_def)
  have h: "intc_handle (bsp_drivers io fr c A) i context s0 = Some (NO_ERROR, s1)"
    using ctl(5-11) tick(2) s0 tisr get
    by (subst intc_handle.simps) (simp add: bsp_drivers_def intc_run_def INTERRUPT_TIMER1_def ARM_IRQ1_BASE_def MAX_ISRS_def s1_def)
  have "int_upd ?ic (\<lambda>x. x\<lparr>is_external := True\<rparr>) s = Some s0" using ctl(2) by (simp add: int_upd_def s0_def)
  then have "\<exists>s'. int_handle_external_vector (bsp_drivers io fr c A) ?ic context s = Some (NO_ERROR, s') \<and> ks s' = k2"
    using ctl(1,3,4) s0 sched(2,10) h k(2,3)
    by (simp add: int_handle_external_vector_def sch_get_current_thread_def on_ks_def int_upd_def s1_def)
  then show ?thesis using ctl(1) k by (auto simp: arm_vec_handler_def kernel_assert_def)
qed

definition tick_kst :: kst where
  "tick_kst = demo\<lparr>threads := (threads demo)(0x102 \<mapsto> (demo_thread 5 0x602)\<lparr>t_state := THREAD_RUNNING\<rparr>),
     contexts := (contexts demo)(0x602 \<mapsto> demo_context 2), scheds := [0x30 \<mapsto> demo_sc\<lparr>curr_thread := 0x102\<rparr>]\<rparr>"

definition tick_kernel :: bkern where
  "tick_kernel = empty_board\<lparr>ks := tick_kst, b_interrupt_controller := 0x50, b_intc_base := 0x2000B000,
     int_ctls := [0x50 \<mapsto> \<lparr>interrupt_manager_root = 0x60, is_external = False, ic_handler = NULL, ic_scheduler = 0x30\<rparr>],
     intcs := [0x60 \<mapsto> \<lparr>intc_pool = 9, isrs = (replicate 256 NULL)[1 := 0x70], kernel_intc = 0x68\<rparr>],
     internals := [0x70 \<mapsto> \<lparr>intc_type = TIMER_INTC, intc_dev = 0x200\<rparr>],
     timers := [0x200 \<mapsto> \<lparr>t_set_up = True, t_usr_data = 0x78\<rparr>],
     timer_data := [0x78 \<mapsto> \<lparr>tu_callback = 0x8200, tu_instance = 1, tu_base = 0x20003000, tu_param = NULL\<rparr>]\<rparr>"

definition tick_io :: "u32 \<Rightarrow> u32" where
  "tick_io a = (if a = 0x2000B000 + IRQ_PENDING_BASIC then 2 ^ 8 else if a = 0x2000B000 + IRQ_PENDING_1 then 2 else 0)"

lemma tick_wf: "sched_wf tick_kst (demo_sc\<lparr>curr_thread := 0x102\<rparr>)"
    "ready tick_kst (demo_sc\<lparr>curr_thread := 0x102\<rparr>) = ready demo demo_sc"
proof -
  show r: "ready tick_kst (demo_sc\<lparr>curr_thread := 0x102\<rparr>) = ready demo demo_sc"
    by (simp add: fun_eq_iff ready_def tick_kst_def)
  have "sched_stack tick_kst (demo_sc\<lparr>curr_thread := 0x102\<rparr>) = sched_stack demo demo_sc" by (simp add: sched_stack_def tick_kst_def)
  then show "sched_wf tick_kst (demo_sc\<lparr>curr_thread := 0x102\<rparr>)" using demo_wf(1) unfolding sched_wf_def r
    by (auto simp: tick_kst_def demo_thread_def demo_ready split: if_splits)
qed

theorem scheduler_tick_resumes_witness:
  "\<exists>s' sc'. arm_vec_handler tick_io [] demo_code rasp_pi demo_board VECTOR_IRQ 0x700 tick_kernel = Some s' \<and> scheds (ks s') 0x30 = Some sc' \<and>
     curr_thread sc' = 0x102 \<and> contexts (ks s') 0x700 = Some (demo_context 3) \<and> ready (ks s') sc' 5 = [0x100, 0x101, 0x102]"
proof -
  let ?sc = "demo_sc\<lparr>curr_thread := 0x102\<rparr>" and ?y = "(demo_thread 5 0x602)\<lparr>t_state := THREAD_RUNNING\<rparr>"
  let ?ic = "\<lparr>interrupt_manager_root = 0x60, is_external = False, ic_handler = NULL, ic_scheduler = 0x30\<rparr>"
    and ?t = "\<lparr>intc_pool = 9, isrs = (replicate 256 NULL)[1 := 0x70], kernel_intc = 0x68\<rparr>"
    and ?td = "\<lparr>tu_callback = 0x8200, tu_instance = 1, tu_base = 0x20003000, tu_param = NULL\<rparr>"
  have k: "ks tick_kernel = tick_kst" by (simp add: tick_kernel_def)
  have b: "queue_back (cols tick_kst) (curr_queue ?sc)"
    using demo_lists_view(4) pq5(3) by (auto simp: queue_back_def tick_kst_def demo_def demo_own demo_sc_def)
  have kst: "scheds tick_kst 0x30 = Some ?sc" "threads tick_kst 0x100 = Some (demo_thread 5 0x600)" "threads tick_kst 0x102 = Some ?y"
    "contexts tick_kst 0x700 = Some (demo_context 3)" "contexts tick_kst 0x600 = Some (demo_context 1)" "contexts tick_kst 0x602 = Some (demo_context 2)"
    by (simp_all add: tick_kst_def demo_def)
  have sc: "curr_queue demo_sc = priority_queues demo_sc 5" "idle_thread demo_sc \<noteq> NULL" by (simp_all add: demo_sc_def pq5)
  have th: "t_context (demo_thread p a) = a" "t_parent (demo_thread p a) = NULL" "runnable (t_state (demo_thread p a))" for p a
    by (simp_all add: demo_thread_def runnable_def)
  have ctl: "b_interrupt_controller tick_kernel = 0x50" "b_intc_base tick_kernel = 0x2000B000"
    "int_ctls tick_kernel 0x50 = Some ?ic" "intcs tick_kernel 0x60 = Some ?t"
    "internals tick_kernel 0x70 = Some \<lparr>intc_type = TIMER_INTC, intc_dev = 0x200\<rparr>"
    "timers tick_kernel 0x200 = Some \<lparr>t_set_up = True, t_usr_data = 0x78\<rparr>"
    "timer_data tick_kernel 0x78 = Some ?td"
    by (simp_all add: tick_kernel_def)
  have "\<not> bit (256 :: u32) n" if "n < 8" for n using that bit_exp_iff [of 8 n, where 'a = "32 word"] by simp
  then have tick: "bank1_pending tick_io 0x2000B000 (Suc 0)" "f_scheduler_timeout demo_board = 0x8200" "compare_offset 1 \<noteq> 0"
    "isr_at ?t INTERRUPT_TIMER1 = Some 0x70"
    by (simp_all add: bank1_pending_def tick_io_def IRQ_PENDING_BASIC_def IRQ_PENDING_1_def demo_board_def compare_offset_def isr_at_def
      INTERRUPT_TIMER1_def ARM_IRQ1_BASE_def bit_simps)
  have "\<exists>s' sc'. arm_vec_handler tick_io [] demo_code rasp_pi demo_board VECTOR_IRQ 0x700 tick_kernel = Some s' \<and>
    scheds (ks s') 0x30 = Some sc' \<and> curr_thread sc' = 0x102 \<and>
    contexts (ks s') = (contexts (ks tick_kernel))(t_context ?y \<mapsto> demo_context 3) \<and>
    ready (ks s') sc' = ready (ks tick_kernel) ?sc \<and> sched_wf (ks s') sc'"
    by (rule scheduler_tick_resumes [where p = 5 and a = "0x100" and ms = "[0x101]" and x = "demo_thread 5 0x600" and saved = "demo_context 1"
        and i = "0x60" and isr = "0x70" and tm = "0x200" and u = "0x78" and ic = ?ic and t = ?t and td = ?td])
      (unfold k, use b in \<open>auto simp: tick_wf demo_ready kst sc th ctl tick [simplified]\<close>)
  then show ?thesis unfolding k tick_wf by (auto simp: demo_ready kst th)
qed

subsection \<open>Start of the board\<close>

declare arm_map_loop.simps [simp del]

text \<open>A section of whole megabytes, for which no memory is allocated.\<close>

lemma map_megabyte:
  assumes "mmu_ok s" "l1_tables s table = Some t" "sections s section = Some x"
    and al: "unat v mod 2 ^ 20 = 0" "unat r mod 2 ^ 20 = 0" and f: "f = (\<lambda>w. r + (w - v))"
  obtains s' t' where "arm_map_section section v r table s = Some s'" "mmu_ok s'"
    "l1_tables s' table = Some t'" "sections s' = sections s" "map_window s table (unat v) (unat v + 1048576) f s'"
proof -
  let ?ram = "memory_type x = MMU_RANDOM_ACCESS_MEMORY"
  let ?e = "arm_generate_lvl1_section r 1 0 (access_rights x = MMU_READ_ONLY) 1 (ap_bits (privilege x)) 0 0 0 ?ram ?ram"
  note e = lvl1_section_fields [of r "access_rights x = MMU_READ_ONLY" "privilege x" ?ram]
  define s' where "s' = s\<lparr>l1_tables := (l1_tables s)(table \<mapsto>
       t\<lparr>lvl1_entry := (lvl1_entry t)(ARM_GET_LVL1_SECTION_INDEX v := ?e)\<rparr>)\<rparr>"
  note ss = set_section [OF assms(1,2) e(2), where v = v, folded s'_def]
  have "arm_map_section section v r table s = Some s'"
    using assms(2,3)
    by (simp add: arm_map_section_def mem_sec_get_priv_def mem_sec_get_access_def mem_sec_get_mem_type_def Let_def s'_def)
  moreover have "sections s' = sections s" "\<exists>t'. l1_tables s' table = Some t'" by (simp_all add: s'_def)
  moreover have "map_window s table (unat v) (unat v + 1048576) f s'"
    using window_addr [OF al] window [OF al(1)] unfolding map_window_def ss(3) e(1) unfolding masks f by auto
  ultimately show thesis using that ss(1) by blast
qed

lemma map_megabytes_loop:
  assumes "mmu_ok s" "l1_tables s table = Some t" "sections s section = Some x" "i \<le> n"
    and fits: "section_fits x (256 * n)" "unat (virt_address x) mod 2 ^ 20 = 0" "unat (real_address x) mod 2 ^ 20 = 0"
  shows "\<exists>s'. arm_map_loop (256 * n) (256 * i) pool table section s = Some (NO_ERROR, s') \<and> mmu_ok s' \<and> sections s' = sections s \<and>
    l1_tables s' table \<noteq> None \<and>
    map_window s table (unat (virt_address x) + i * 1048576) (unat (virt_address x) + n * 1048576) (section_map x) s'"
  using assms(1-4)
proof (induction "n - i" arbitrary: i s t)
  case 0
  have "arm_walk (s\<lparr>tlb_flushes := n\<rparr>) = arm_walk s" "mmu_ok (s\<lparr>tlb_flushes := n\<rparr>) = mmu_ok s" for n
    by (simp_all add: arm_walk_def mmu_ok_def fun_eq_iff cong: if_cong)
  then show ?case using 0 by (subst arm_map_loop.simps) (auto simp: map_window_def)
next
  case (Suc k)
  then have lt: "256 * i < 256 * n" by simp
  define v where "v = virt_address x + of_nat (256 * i * MMU_PAGE_SIZE)"
  define r where "r = real_address x + of_nat (256 * i * MMU_PAGE_SIZE)"
  note sp = section_page [OF fits(1) lt, folded v_def r_def]
  note step = map_loop_step [OF lt Suc.prems(3), folded v_def r_def]
  have al: "unat v mod 2 ^ 20 = 0" "unat r mod 2 ^ 20 = 0" using fits(2,3) by (simp_all add: sp(1,2) mod_add_eq)
  obtain s1 t1 where s1: "arm_map_section section v r table s = Some s1" "mmu_ok s1" "l1_tables s1 table = Some t1"
    "sections s1 = sections s" "map_window s table (unat v) (unat v + 1048576) (section_map x) s1"
    by (rule map_megabyte [OF Suc.prems(1-3) al sp(6)])
  obtain s' where s': "arm_map_loop (256 * n) (256 * Suc i) pool table section s1 = Some (NO_ERROR, s')" "mmu_ok s'" "sections s' = sections s1"
      "l1_tables s' table \<noteq> None"
      "map_window s1 table (unat (virt_address x) + Suc i * 1048576) (unat (virt_address x) + n * 1048576) (section_map x) s'"
    using Suc.hyps(1) [of "Suc i" s1 t1] Suc.hyps(2) Suc.prems(3,4) s1 lt by force
  have "256 \<le> 256 * n - 256 * i" using lt by (simp flip: diff_mult_distrib2)
  then have "arm_map_loop (256 * n) (256 * i) pool table section s = Some (NO_ERROR, s')"
    using s'(1) step(1) [OF _ s1(1), of pool] al sp(7) by (simp add: add.commute)
  moreover have uv: "unat v = unat (virt_address x) + i * 1048576" using sp(1) by simp
  moreover have "map_window s table (unat (virt_address x) + i * 1048576) (unat (virt_address x) + n * 1048576) (section_map x) s'"
    by (rule map_window_trans [OF s1(5) [unfolded uv]]) (use s'(5) lt in \<open>auto simp: algebra_simps\<close>)
  ultimately show ?case using s' s1 by auto
qed

lemma map_megabytes:
  assumes "mmu_ok s" "l1_tables s table = Some t" "table \<noteq> NULL" "section \<noteq> NULL" "sections s section = Some x"
    and n: "unat (sec_size x) = n * 1048576" and al: "unat (virt_address x) mod 2 ^ 20 = 0" "real_address x = virt_address x"
      "unat (virt_address x) + n * 1048576 < 0xFFF00000"
  obtains s' t' where "arm_map_memory pool table section s = Some (NO_ERROR, s')" "mmu_ok s'" "l1_tables s' table = Some t'"
    "\<And>t w. arm_walk s' t w = (if t = table \<and> unat (virt_address x) \<le> unat w \<and> unat w < unat (virt_address x) + n * 1048576
       then Some w else arm_walk s t w)"
proof -
  have "unat (virt_address x) mod 2 ^ 12 = 0" using al(1) mod_mod_cancel [of "2 ^ 12" "2 ^ 20" "unat (virt_address x)"] by simp
  then have fits: "section_fits x (256 * n)" using al by (simp add: section_fits_def)
  have "unat (sec_size x) = 256 * n * MMU_PAGE_SIZE" "MMU_PAGE_SIZE \<noteq> 0" using n by (simp_all add: MMU_PAGE_SIZE_def)
  then have "arm_map_memory pool table section s = arm_map_loop (256 * n) (256 * 0) pool table section s"
    using assms(3-5) by (simp add: arm_map_memory_def mem_sec_get_size_def)
  then show thesis
    using map_megabytes_loop [OF assms(1,2,5) _ fits al(1), of 0 pool] al that
    by (force simp: map_window_def section_map_def)
qed

text \<open>The steps that do not touch the tables.\<close>

lemma early_uart_init_fields [simp]:
  fixes s :: "'z bkern_scheme"
  shows "ks (early_uart_init io base s) = ks s" "vm (early_uart_init io base s) = vm s" "b_cpsr (early_uart_init io base s) = b_cpsr s"
  by (simp_all add: early_uart_init_def out_u32_def Let_def)

lemma ivt_initialise_fields [simp]:
  fixes s :: "'z bkern_scheme"
  shows "ks (ivt_initialise A s) = ks s" "vm (ivt_initialise A s) = vm s" "b_cpsr (ivt_initialise A s) = b_cpsr s"
    "vector_table (ivt_initialise A s) v = f_vec_handler A"
    "ram_get32 (4 * vector_no v) (ram (ivt_initialise A s)) = GET_BRANCH_FOR_VECTOR (f_vector A v) (vector_no v)"
proof -
  show "ks (ivt_initialise A s) = ks s" "vm (ivt_initialise A s) = vm s" "b_cpsr (ivt_initialise A s) = b_cpsr s"
    by (simp_all add: ivt_initialise_def arm_vec_install_def Let_def)
  show "vector_table (ivt_initialise A s) v = f_vec_handler A"
    by (cases v) (simp_all add: ivt_initialise_def arm_vec_install_def Let_def)
  show "ram_get32 (4 * vector_no v) (ram (ivt_initialise A s)) = GET_BRANCH_FOR_VECTOR (f_vector A v) (vector_no v)"
    by (cases v) (simp_all add: ivt_initialise_def arm_vec_install_def Let_def ram_put32_def ram_get32_def bytes32)
qed

lemma mmu_ok_boot_table:
  assumes "mmu_ok s"
  shows "mmu_ok (s\<lparr>l1_tables := (l1_tables s)(table \<mapsto> \<lparr>lvl1_entry = (\<lambda>_. 0)\<rparr>)\<rparr>)" (is "mmu_ok ?s")
proof -
  have e: "\<not> lvl2_entry 0" by (simp add: lvl2_entry_def)
  show ?thesis
  proof (rule mmu_okI)
    show "l2_tables ?s NULL = None" using assms by (simp add: mmu_ok_def)
    show "lvl1_entry tb i = 0 \<or> lvl1_entry tb i AND 3 = 2 \<or> lvl2_entry (lvl1_entry tb i) \<and> l2_tables ?s (lvl1_entry tb i AND 0xFFFFF000) \<noteq> None"
      if "l1_tables ?s t = Some tb" for t tb i
      using that mmu_entry [OF assms, of t tb i] by (auto split: if_splits)
    show "t = t' \<and> i = i'" if "l1_tables ?s t = Some tb" "l1_tables ?s t' = Some tb'" "lvl2_entry (lvl1_entry tb i)" "lvl2_entry (lvl1_entry tb' i')"
      "lvl1_entry tb i AND 0xFFFFF000 = lvl1_entry tb' i' AND 0xFFFFF000" for t tb i t' tb' i'
      using that e mmu_inj [OF assms, of t tb t' tb' i i'] by (auto split: if_splits)
  qed
qed

lemma mmu_ok_section [simp]: "mmu_ok (s\<lparr>sections := h\<rparr>) = mmu_ok s" "arm_walk (s\<lparr>sections := h\<rparr>) = arm_walk s"
  by (simp_all add: mmu_ok_def arm_walk_def fun_eq_iff cong: if_cong)

lemma boot_names:
  "\<exists>n1. util_strcpy (replicate 33 0) (Some (c_str ''RAM'')) 32 = Some n1" "\<exists>n2. util_strcpy (replicate 33 0) (Some (c_str ''RAM (UART)'')) 32 = Some n2"
proof -
  have "util_strcpy (replicate 33 0) (Some (c_str ''RAM'')) 32 \<noteq> None" "util_strcpy (replicate 33 0) (Some (c_str ''RAM (UART)'')) 32 \<noteq> None"
    by code_simp+
  then show "\<exists>n1. util_strcpy (replicate 33 0) (Some (c_str ''RAM'')) 32 = Some n1"
    "\<exists>n2. util_strcpy (replicate 33 0) (Some (c_str ''RAM (UART)'')) 32 = Some n2" by auto
qed

text \<open>
  C5: the start of a board.  After \<open>bsp_initialise\<close> interrupts are off and the memory management unit is on, with a table that translates every address of
  the 128 megabytes of memory and of the 16 megabytes of devices to itself and no other address.  Each of the eight words of the table of exceptions
  is the branch to the code of its exception, and the handler of every exception is that of the board.
\<close>

theorem bsp_initialise_boots:
  assumes ok: "mmu_ok (vm s)" and sec: "v_section A \<noteq> NULL" and bd: "bd = rasp_pi \<or> bd = rasp_pi2"
  shows "\<exists>s'. bsp_initialise io bd A s = Some s' \<and>
    (\<forall>w. arm_walk (vm s') BOOT_TABLE w = (if w < 0x08000000 \<or> bd_devices bd \<le> w \<and> w < bd_devices bd + 0x01000000 then Some w else None)) \<and>
    (\<forall>v. vector_table s' v = f_vec_handler A \<and> ram_get32 (4 * vector_no v) (ram s') = GET_BRANCH_FOR_VECTOR (f_vector A v) (vector_no v)) \<and>
    bit (b_cpsr s') 6 \<and> bit (b_cpsr s') 7 \<and> bit (cp15_control s') 0 \<and>
    hw (ks s') = hw (ks s) @ [Invalidate_TLBs, Set_Translation_Table BOOT_TABLE, Invalidate_TLBs]"
proof -
  let ?d = "bd_devices bd"
  obtain n1 n2 where n: "util_strcpy (replicate 33 0) (Some (c_str ''RAM'')) 32 = Some n1"
    "util_strcpy (replicate 33 0) (Some (c_str ''RAM (UART)'')) 32 = Some n2"
    by (metis boot_names)
  define v0 where "v0 = (vm s)\<lparr>l1_tables := (l1_tables (vm s))(BOOT_TABLE \<mapsto> \<lparr>lvl1_entry = (\<lambda>_. 0)\<rparr>)\<rparr>"
  define x1 where "x1 = \<lparr>sec_next = NULL, real_address = 0, virt_address = 0, sec_size = 0x08000000, memory_type = MMU_RANDOM_ACCESS_MEMORY,
    privilege = MMU_ALL_ACCESS, access_rights = MMU_READ_WRITE, sec_name = n1, sec_pool = NULL\<rparr>"
  define x2 where "x2 = \<lparr>sec_next = NULL, real_address = ?d, virt_address = ?d, sec_size = 0x01000000, memory_type = MMU_DEVICE_MEMORY,
    privilege = MMU_ALL_ACCESS, access_rights = MMU_READ_WRITE, sec_name = n2, sec_pool = NULL\<rparr>"
  let ?s1 = "v0\<lparr>sections := (sections v0)(v_section A \<mapsto> x1)\<rparr>"
  have b: "BOOT_TABLE \<noteq> NULL" by (simp add: BOOT_TABLE_def)
  have v0: "mmu_ok v0" "l1_tables v0 BOOT_TABLE = Some \<lparr>lvl1_entry = (\<lambda>_. 0)\<rparr>" "arm_walk v0 BOOT_TABLE w = None" for w
    using mmu_ok_boot_table [OF ok] by (simp_all add: v0_def arm_walk_def)
  obtain v1 t1 where v1: "arm_map_memory NULL BOOT_TABLE (v_section A) ?s1 = Some (NO_ERROR, v1)" "mmu_ok v1" "l1_tables v1 BOOT_TABLE = Some t1"
    "\<And>t w. arm_walk v1 t w = (if t = BOOT_TABLE \<and> unat (virt_address x1) \<le> unat w \<and> unat w < unat (virt_address x1) + 128 * 1048576
       then Some w else arm_walk ?s1 t w)"
    by (rule map_megabytes [of ?s1 BOOT_TABLE _ "v_section A" x1 128 NULL, OF _ _ b sec]) (simp_all add: v0 x1_def)
  let ?s2 = "v1\<lparr>sections := (sections v1)(v_section A \<mapsto> x2)\<rparr>"
  have ud: "unat ?d mod 2 ^ 20 = 0" "unat ?d + 16 * 1048576 < 0xFFF00000" "unat (?d + 0x1000000) = unat ?d + 16 * 1048576"
    using bd by (auto simp: rasp_pi_def rasp_pi2_def)
  obtain v2 t2 where v2: "arm_map_memory NULL BOOT_TABLE (v_section A) ?s2 = Some (NO_ERROR, v2)" "mmu_ok v2" "l1_tables v2 BOOT_TABLE = Some t2"
    "\<And>t w. arm_walk v2 t w = (if t = BOOT_TABLE \<and> unat (virt_address x2) \<le> unat w \<and> unat w < unat (virt_address x2) + 16 * 1048576
       then Some w else arm_walk ?s2 t w)"
    by (rule map_megabytes [of ?s2 BOOT_TABLE _ "v_section A" x2 16 NULL, OF _ _ b sec]) (use v1 ud in \<open>simp_all add: x2_def\<close>)
  have "arm_walk v2 BOOT_TABLE w = (if w < 0x08000000 \<or> ?d \<le> w \<and> w < ?d + 0x01000000 then Some w else None)" for w
    unfolding v2(4) mmu_ok_section v1(4) v0(3) using ud(3) by (simp add: x1_def x2_def word_le_nat_alt word_less_nat_alt)
  moreover have "\<exists>s'. bsp_initialise io bd A s = Some s' \<and> vm s' = v2 \<and>
    (\<forall>v. vector_table s' v = f_vec_handler A \<and> ram_get32 (4 * vector_no v) (ram s') = GET_BRANCH_FOR_VECTOR (f_vector A v) (vector_no v)) \<and>
    bit (b_cpsr s') 6 \<and> bit (b_cpsr s') 7 \<and> bit (cp15_control s') 0 \<and>
    hw (ks s') = hw (ks s) @ [Invalidate_TLBs, Set_Translation_Table BOOT_TABLE, Invalidate_TLBs]"
    using v1(1) v2(1) n sec
    by (simp add: bsp_initialise_def tgt_disable_external_interrupts_def tgt_initialise_def arm_disable_mmu_def hw_calls_def on_vs_def on_vm_def
      mem_sec_initialise_def v0_def x1_def x2_def arm_set_domain_access_register_def arm_enable_mmu_def arm_disable_irq_def arm_disable_fiq_def bit_simps Let_def)
  ultimately show ?thesis by auto
qed

theorem bsp_initialise_boots_witness:
  "\<exists>s'. bsp_initialise (\<lambda>_. 0) rasp_pi demo_board empty_board = Some s' \<and> arm_walk (vm s') BOOT_TABLE 0x20201000 = Some 0x20201000 \<and>
     arm_walk (vm s') BOOT_TABLE 0x08000000 = None \<and> vector_table s' VECTOR_IRQ = 0x8100 \<and> bit (b_cpsr s') 7"
  using bsp_initialise_boots [of empty_board demo_board rasp_pi "\<lambda>_. 0"]
  by (auto simp: empty_board_def no_sections_def mmu_ok_def demo_board_def rasp_pi_def)

end
