(* ===== verification/Payload.thy ===== *)
theory Payload
  imports Kernel_Start Elf_Props Board_Props
begin

section \<open>The builder of the image (\<open>utilBuilder\<close>: \<open>Payload.java\<close>, \<open>IntToByte.java\<close>, \<open>Endian.java\<close>)\<close>

text \<open>
  The file that the board loads: the kernel, a table of words that ends with a zero, and the programs, each at the start of a page of the file.  Numbers are
  those of the type \<open>int\<close> of Java, of 32 bits with a sign; a file is the list of its bytes.  The result is missing when an
  exception is thrown.  Whether a program is a valid ELF file is asked of an external tool and is the argument \<open>valid\<close>.
\<close>

definition jint :: "int \<Rightarrow> int" where
  "jint x = (x + 2 ^ 31) mod 2 ^ 32 - 2 ^ 31"

text \<open>Division of Java rounds towards zero.\<close>

definition jdiv :: "int \<Rightarrow> int \<Rightarrow> int" where
  "jdiv x y = (if (x < 0) = (y < 0) then abs x div abs y else - (abs x div abs y))"

datatype endian = BIG | SMALL

definition endian_fromString :: "string option \<Rightarrow> endian option" where
  "endian_fromString e = (if e = Some ''big'' then Some BIG else if e = Some ''small'' then Some SMALL else None)"

subsection \<open>Numbers as bytes\<close>

definition intToByteArrayBigEndian :: "int \<Rightarrow> u8 list" where
  "intToByteArrayBigEndian value =
     (let w = (word_of_int value :: u32) in [ucast (drop_bit 24 w), ucast (drop_bit 16 w), ucast (drop_bit 8 w), ucast w])"

definition intToByteArrayLittleEndian :: "int \<Rightarrow> u8 list" where
  "intToByteArrayLittleEndian value =
     (let w = (word_of_int value :: u32) in [ucast w, ucast (drop_bit 8 w), ucast (drop_bit 16 w), ucast (drop_bit 24 w)])"

fun intToByteArray :: "int \<Rightarrow> endian \<Rightarrow> u8 list" where
  "intToByteArray value BIG = intToByteArrayBigEndian value"
| "intToByteArray value SMALL = intToByteArrayLittleEndian value"

subsection \<open>The file\<close>

definition payload_align :: "int \<Rightarrow> int" where
  "payload_align value =
     (let whole = jdiv value 4096; up = jint (whole * 4096) in if up \<ge> value then up else jint (up + 4096))"

text \<open>The offsets behind the kernel and the positions in the file of the programs, and the end of the last one.\<close>

primrec payload_offsets :: "(u8 list \<Rightarrow> bool) \<Rightarrow> u8 list list \<Rightarrow> int \<Rightarrow> int \<Rightarrow> (int list \<times> int list \<times> int) option" where
  "payload_offsets valid [] kernelLength aligned = Some ([], [], aligned)"
| "payload_offsets valid (app # apps) kernelLength aligned =
     (if \<not> valid app then None
      else do {
        (offs, poss, end') \<leftarrow> payload_offsets valid apps kernelLength
          (jint (aligned + payload_align (jint (aligned + int (length app)))));
        Some (jint (aligned - kernelLength) # offs, aligned # poss, end')
      })"

text \<open>Writing the programs; an array of a negative length can not be made.\<close>

fun payload_apps :: "(u8 list \<times> int) list \<Rightarrow> u8 list \<Rightarrow> u8 list option" where
  "payload_apps [] buf = Some buf"
| "payload_apps ((app, pos) # apps) buf =
     (let fill = jint (pos - jint (int (length buf))) in
      if fill < 0 then None else payload_apps apps (buf @ replicate (nat fill) 0 @ app))"

definition writeToDisk :: "endian \<Rightarrow> (u8 list \<Rightarrow> bool) \<Rightarrow> u8 list \<Rightarrow> u8 list list \<Rightarrow> u8 list option" where
  "writeToDisk e valid krnl apps = do {
     let kernelLength = jint (int (length krnl));
     let afterLengths = jint (kernelLength + jint (4 * jint (int (length apps) + 1)));
     (offs, poss, end') \<leftarrow> payload_offsets valid apps kernelLength (payload_align afterLengths);
     let buf = krnl @ intToByteArray (jint (end' - kernelLength)) e @ concat (map (\<lambda>off. intToByteArray off e) offs) @ [0, 0, 0, 0];
     buf \<leftarrow> payload_apps (zip apps poss) buf;
     Some (buf @ replicate 128 0)
   }"

text \<open>The arguments of the program: the file, the prefix of the tools, the byte order, the kernel and the programs.\<close>

definition TinkerBuilder_main ::
  "string list \<Rightarrow> (string \<Rightarrow> u8 list option) \<Rightarrow> (u8 list \<Rightarrow> u8 list option) \<Rightarrow> (u8 list \<Rightarrow> bool) \<Rightarrow> u8 list option" where
  "TinkerBuilder_main args files objcopy valid =
     (if length args < 4 \<or> args ! 1 = [] then None
      else do {
        e \<leftarrow> endian_fromString (Some (args ! 2));
        kernelElf \<leftarrow> files (args ! 3);
        krnl \<leftarrow> objcopy kernelElf;
        let names = drop 4 args;
        if list_all (\<lambda>n. files n \<noteq> None) names
        then writeToDisk e valid krnl (map (\<lambda>n. the (files n)) names)
        else None
      })"

subsection \<open>The image and the start of the kernel: properties\<close>

text \<open>
  What the builder writes is found by the kernel, and which memory the kernel clears.  The specification of the file are the positions of the
  programs, computed without the limits of the type \<open>int\<close>.
\<close>

subsubsection \<open>The numbers of the builder\<close>

definition up :: "int \<Rightarrow> int" where
  "up v = 4096 * ((v + 4095) div 4096)"

lemma up_bounds: "v \<le> up v" "up v < v + 4096" "up v mod 4096 = 0"
  by (simp_all add: up_def)

lemma jint_small: "- (2 ^ 31) \<le> x \<Longrightarrow> x < 2 ^ 31 \<Longrightarrow> jint x = x"
  by (simp add: jint_def)

lemma payload_align_up:
  assumes "0 \<le> v" "up v < 2 ^ 31"
  shows "payload_align v = up v"
proof -
  have d: "jdiv v 4096 = v div 4096" using assms(1) by (simp add: jdiv_def)
  have "4096 * (v div 4096) \<le> v" by simp
  also have "\<dots> \<le> up v" by (rule up_bounds)
  finally have j: "jint (v div 4096 * 4096) = v div 4096 * 4096" using assms by (intro jint_small) auto
  show ?thesis
  proof (cases "v mod 4096 = 0")
    case True
    then have "up v = v" "v div 4096 * 4096 = v" by (auto simp: up_def)
    then show ?thesis using j by (simp add: payload_align_def d Let_def)
  next
    case False
    define q m where "q = v div 4096" and "m = v mod 4096"
    have m: "v = q * 4096 + m" "0 < m" "m < 4096"
      using False div_mult_mod_eq [of v 4096] pos_mod_bound [of 4096 v] pos_mod_sign [of 4096 v] by (auto simp: q_def m_def)
    have "(v + 4095) div 4096 = ((m - 1) + (q + 1) * 4096) div 4096" by (subst m(1)) (simp add: algebra_simps)
    also have "\<dots> = (q + 1) + (m - 1) div 4096" by (subst div_mult_self1) simp_all
    also have "(m - 1) div 4096 = 0" using m(2,3) by (intro div_pos_pos_trivial) auto
    finally have "(v + 4095) div 4096 = q + 1" by simp
    then have "up v = q * 4096 + 4096" "q * 4096 < v" using m(2) by (simp_all add: up_def m(1))
    then have u: "up v = v div 4096 * 4096 + 4096" "v div 4096 * 4096 < v" by (simp_all only: q_def)
    have "jint (v div 4096 * 4096 + 4096) = up v" using assms u by (subst jint_small) auto
    then show ?thesis using u by (simp add: payload_align_def d j Let_def)
  qed
qed

primrec positions :: "int \<Rightarrow> u8 list list \<Rightarrow> int list" where
  "positions a [] = []"
| "positions a (app # apps) = a # positions (a + up (a + int (length app))) apps"

primrec pos_end :: "int \<Rightarrow> u8 list list \<Rightarrow> int" where
  "pos_end a [] = a"
| "pos_end a (app # apps) = pos_end (a + up (a + int (length app))) apps"

lemma length_positions [simp]: "length (positions a apps) = length apps"
  by (induction apps arbitrary: a) auto

lemma pos_end_ge: "0 \<le> a \<Longrightarrow> a \<le> pos_end a apps"
proof (induction apps arbitrary: a)
  case (Cons app apps)
  have "a \<le> a + up (a + int (length app))" using up_bounds(1) [of "a + int (length app)"] Cons.prems by simp
  also have "\<dots> \<le> pos_end (a + up (a + int (length app))) apps" using calculation Cons.prems by (intro Cons.IH) simp
  finally show ?case by simp
qed simp

lemma positions_ge: "0 \<le> a \<Longrightarrow> p \<in> set (positions a apps) \<Longrightarrow> a \<le> p \<and> p \<le> pos_end a apps"
proof (induction apps arbitrary: a)
  case (Cons app apps)
  let ?b = "a + up (a + int (length app))"
  have b: "a \<le> ?b" using up_bounds(1) [of "a + int (length app)"] Cons.prems(1) by simp
  show ?case
  proof (cases "p = a")
    case True
    then show ?thesis using pos_end_ge [OF Cons.prems(1), of "app # apps"] by simp
  next
    case False
    then show ?thesis using Cons.IH [of ?b] Cons.prems b by auto
  qed
qed simp

lemma payload_offsets_eq:
  "0 \<le> k \<Longrightarrow> k \<le> a \<Longrightarrow> pos_end a apps < 2 ^ 31 \<Longrightarrow> list_all valid apps \<Longrightarrow>
   payload_offsets valid apps k a = Some (map (\<lambda>p. p - k) (positions a apps), positions a apps, pos_end a apps)"
proof (induction apps arbitrary: a)
  case (Cons app apps)
  let ?v = "a + int (length app)" and ?b = "a + up (a + int (length app))"
  have a: "0 \<le> a" "0 \<le> ?v" "?v \<le> up ?v" using Cons.prems(1,2) up_bounds(1) [of ?v] by auto
  have "?b \<le> pos_end ?b apps" using a by (intro pos_end_ge) simp
  then have b: "?b < 2 ^ 31" using Cons.prems(3) by simp
  then have j: "jint ?v = ?v" "jint (a - k) = a - k" "jint ?b = ?b" "payload_align ?v = up ?v"
    using a Cons.prems(1,2) by (auto intro!: jint_small payload_align_up)
  have "payload_offsets valid apps k ?b = Some (map (\<lambda>p. p - k) (positions ?b apps), positions ?b apps, pos_end ?b apps)"
    using a Cons.prems by (intro Cons.IH) auto
  then show ?case using Cons.prems(4) j by simp
qed simp

subsubsection \<open>The programs in the file\<close>

definition cut :: "int \<Rightarrow> nat \<Rightarrow> 'a list \<Rightarrow> 'a list" where
  "cut p n xs = take n (drop (nat p) xs)"

lemma cut_prefix:
  assumes "take (length xs) ys = xs" "0 \<le> p" "nat p + n \<le> length xs"
  shows "cut p n ys = cut p n xs"
proof -
  obtain zs where "ys = xs @ zs" using assms(1) by (metis append_take_drop_id)
  then show ?thesis using assms(2,3) by (simp add: cut_def)
qed

lemma payload_apps_eq:
  "int (length buf) \<le> a \<Longrightarrow> pos_end a apps < 2 ^ 31 \<Longrightarrow>
   \<exists>img. payload_apps (zip apps (positions a apps)) buf = Some img \<and> length buf \<le> length img \<and> take (length buf) img = buf \<and>
     int (length img) \<le> pos_end a apps \<and>
     (\<forall>i<length apps. cut (positions a apps ! i) (length (apps ! i)) img = apps ! i \<and>
        nat (positions a apps ! i) + length (apps ! i) \<le> length img)"
proof (induction apps arbitrary: a buf)
  case (Cons app apps)
  let ?b = "a + up (a + int (length app))"
  let ?buf = "buf @ replicate (nat (a - int (length buf))) 0 @ app"
  have a: "0 \<le> a" using Cons.prems(1) by simp
  have v: "a + int (length app) \<le> up (a + int (length app))" by (rule up_bounds)
  have b: "?b \<le> pos_end ?b apps" using a v by (intro pos_end_ge) simp
  have len: "int (length ?buf) = a + int (length app)" using Cons.prems(1) by simp
  have "int (length ?buf) \<le> ?b" using a v unfolding len by simp
  moreover have "pos_end ?b apps < 2 ^ 31" using Cons.prems(2) by simp
  ultimately obtain img where img: "payload_apps (zip apps (positions ?b apps)) ?buf = Some img" "length ?buf \<le> length img"
      "take (length ?buf) img = ?buf" "int (length img) \<le> pos_end ?b apps"
      "\<forall>i<length apps. cut (positions ?b apps ! i) (length (apps ! i)) img = apps ! i \<and>
        nat (positions ?b apps ! i) + length (apps ! i) \<le> length img"
    using Cons.IH [of ?buf ?b] by blast
  have small: "jint (int (length buf)) = int (length buf)" "jint (a - int (length buf)) = a - int (length buf)"
    using Cons.prems a v b by (auto intro!: jint_small)
  have run: "payload_apps (zip (app # apps) (positions a (app # apps))) buf = Some img"
    using img(1) Cons.prems(1) by (simp add: small Let_def)
  have first: "cut a (length app) img = app"
  proof -
    have "cut a (length app) img = cut a (length app) ?buf" using len a by (intro cut_prefix [OF img(3)]) auto
    also have "\<dots> = app" using Cons.prems(1) a by (simp add: cut_def)
    finally show ?thesis .
  qed
  have pre: "take (length buf) img = buf" using arg_cong [OF img(3), of "take (length buf)"] by (simp add: min_def)
  have fits: "nat a + length app \<le> length img" using img(2) len a by simp
  show ?case
    using run pre img(2,4,5) first fits by (intro exI [of _ img]) (auto simp: nth_Cons split: nat.splits)
qed simp

subsubsection \<open>The image in memory\<close>

definition loaded :: "u32 \<Rightarrow> u8 list \<Rightarrow> ram_t \<Rightarrow> bool" where
  "loaded L img r \<longleftrightarrow> ram_bytes L (length img) r = img"

lemma loaded_slice:
  assumes "loaded L img r" "0 \<le> p" "nat p + n \<le> length img"
  shows "ram_bytes (L + word_of_int p) n r = cut p n img"
proof (rule nth_equalityI)
  fix j assume "j < length (ram_bytes (L + word_of_int p) n r)"
  then have j: "j < n" by simp
  have "ram_bytes (L + word_of_int p) n r ! j = r (L + word_of_int p + of_nat j)" using j by (simp add: ram_bytes_def)
  also have "L + word_of_int p + of_nat j = L + of_nat (nat p + j)" using assms(2) by (simp add: of_nat_nat)
  also have "r (L + of_nat (nat p + j)) = ram_bytes L (length img) r ! (nat p + j)" using j assms(3) by (simp add: ram_bytes_def del: of_nat_add)
  also have "\<dots> = img ! (nat p + j)" using assms(1) by (simp add: loaded_def)
  finally show "ram_bytes (L + word_of_int p) n r ! j = cut p n img ! j" using j assms(3) by (simp add: cut_def)
qed (use assms in \<open>simp add: cut_def\<close>)

lemma ram_get32_little:
  assumes "ram_bytes p 4 r = intToByteArrayLittleEndian v"
  shows "ram_get32 p r = word_of_int v"
proof -
  let ?w = "word_of_int v :: u32"
  have "r p = ucast ?w" "r (p + 1) = ucast (drop_bit 8 ?w)" "r (p + 2) = ucast (drop_bit 16 ?w)" "r (p + 3) = ucast (drop_bit 24 ?w)"
    using assms by (simp_all add: ram_bytes_def intToByteArrayLittleEndian_def Let_def numeral_eq_Suc)
  then show ?thesis using bytes32 [of ?w] by (simp only: ram_get32_def)
qed

definition app_table :: "u32 \<Rightarrow> u32 list \<Rightarrow> ram_t \<Rightarrow> bool" where
  "app_table end_of_bin offs r \<longleftrightarrow>
     (\<forall>i<length offs. ram_get32 (end_of_bin + 4 + 4 * of_nat i) r = offs ! i) \<and> 0 \<notin> set offs \<and>
     ram_get32 (end_of_bin + 4 + 4 * of_nat (length offs)) r = 0"

definition app_offsets :: "u8 list \<Rightarrow> u8 list list \<Rightarrow> int list" where
  "app_offsets krnl apps = map (\<lambda>p. p - int (length krnl)) (positions (up (int (length krnl) + 4 * (int (length apps) + 1))) apps)"

lemma length_app_offsets [simp]: "length (app_offsets krnl apps) = length apps"
  by (simp add: app_offsets_def)

lemma length_little [simp]: "length (intToByteArrayLittleEndian v) = 4"
  by (simp add: intToByteArrayLittleEndian_def Let_def)

lemma cut_words: "i < length xs \<Longrightarrow> cut (4 * int i) 4 (concat (map intToByteArrayLittleEndian xs) @ ys) = intToByteArrayLittleEndian (xs ! i)"
proof (induction xs arbitrary: i)
  case (Cons x xs)
  show ?case
  proof (cases i)
    case 0
    then show ?thesis by (simp add: cut_def)
  next
    case (Suc j)
    then have "nat (4 * int i) = 4 + nat (4 * int j)" by simp
    then show ?thesis using Cons Suc by (simp add: cut_def)
  qed
qed simp

lemma length_words [simp]: "length (concat (map intToByteArrayLittleEndian xs)) = 4 * length xs"
  by (induction xs) simp_all

lemma cut_behind: "int (length xs) \<le> p \<Longrightarrow> cut p n (xs @ ys) = cut (p - int (length xs)) n ys"
  by (simp add: cut_def nat_diff_distrib)

lemma cut_before: "0 \<le> p \<Longrightarrow> nat p + n \<le> length xs \<Longrightarrow> cut p n (xs @ ys) = cut p n xs"
  by (simp add: cut_def)

text \<open>The image: its head with the table, and the programs.\<close>

lemma writeToDisk_image:
  assumes v: "list_all valid apps" and room: "int (length krnl) + 4 * (int (length apps) + 2) \<le> up (int (length krnl) + 4 * (int (length apps) + 1))"
    and fits: "pos_end (up (int (length krnl) + 4 * (int (length apps) + 1))) apps < 2 ^ 31"
  obtains img w where "writeToDisk SMALL valid krnl apps = Some img"
    "take (length krnl + 4 * (length apps + 2)) img =
       krnl @ intToByteArrayLittleEndian w @ concat (map intToByteArrayLittleEndian (app_offsets krnl apps)) @ [0, 0, 0, 0]"
    "\<And>i. i < length apps \<Longrightarrow> cut (int (length krnl) + app_offsets krnl apps ! i) (length (apps ! i)) img = apps ! i \<and>
       nat (int (length krnl) + app_offsets krnl apps ! i) + length (apps ! i) \<le> length img"
    "length krnl + 4 * (length apps + 2) \<le> length img"
    "int (length img) \<le> pos_end (up (int (length krnl) + 4 * (int (length apps) + 1))) apps + 128"
proof -
  let ?k = "int (length krnl)" and ?n = "int (length apps)"
  let ?a = "up (?k + 4 * (?n + 1))"
  let ?w = "pos_end ?a apps - ?k"
  let ?head = "krnl @ intToByteArrayLittleEndian ?w @ concat (map intToByteArrayLittleEndian (app_offsets krnl apps)) @ [0, 0, 0, 0]"
  have a: "?k + 4 * (?n + 1) \<le> ?a" by (rule up_bounds)
  then have e: "?a \<le> pos_end ?a apps" by (intro pos_end_ge) simp
  have len: "length ?head = length krnl + 4 * (length apps + 2)" by simp
  have "int (length ?head) \<le> ?a" using room by simp
  from payload_apps_eq [OF this fits] obtain img where img: "payload_apps (zip apps (positions ?a apps)) ?head = Some img"
      "length ?head \<le> length img" "take (length ?head) img = ?head"
      "\<And>i. i < length apps \<Longrightarrow> cut (positions ?a apps ! i) (length (apps ! i)) img = apps ! i \<and>
        nat (positions ?a apps ! i) + length (apps ! i) \<le> length img"
      "int (length img) \<le> pos_end ?a apps"
    by blast
  have j: "jint ?k = ?k" "jint (?n + 1) = ?n + 1" "jint (4 * (?n + 1)) = 4 * (?n + 1)" "jint (?k + 4 * (?n + 1)) = ?k + 4 * (?n + 1)"
      "jint ?w = ?w" "payload_align (?k + 4 * (?n + 1)) = ?a"
    using a e fits by (auto intro!: jint_small payload_align_up)
  have o: "payload_offsets valid apps ?k ?a = Some (app_offsets krnl apps, positions ?a apps, pos_end ?a apps)"
    using a fits v by (subst payload_offsets_eq) (auto simp: app_offsets_def)
  have "writeToDisk SMALL valid krnl apps = Some (img @ replicate 128 0)"
    by (simp only: writeToDisk_def Let_def j o intToByteArray.simps img(1) Option.bind.simps prod.case)
  moreover have "cut (?k + app_offsets krnl apps ! i) (length (apps ! i)) (img @ replicate 128 0) = apps ! i \<and>
       nat (?k + app_offsets krnl apps ! i) + length (apps ! i) \<le> length (img @ replicate 128 0)" if i: "i < length apps" for i
  proof -
    have "?k + app_offsets krnl apps ! i = positions ?a apps ! i" using i by (simp add: app_offsets_def)
    moreover have "0 \<le> positions ?a apps ! i" using positions_ge [of ?a "positions ?a apps ! i" apps] i a by simp
    ultimately show ?thesis using img(4) [OF i] by (simp only: cut_before length_append trans_le_add1 simp_thms)
  qed
  moreover have "take (length krnl + 4 * (length apps + 2)) (img @ replicate 128 0) = ?head" using img(2,3) unfolding len by simp
  moreover have "length krnl + 4 * (length apps + 2) \<le> length (img @ replicate 128 0)" using img(2) unfolding len by simp
  moreover have "int (length (img @ replicate 128 0)) \<le> pos_end ?a apps + 128" using img(5) by simp
  ultimately show thesis using that [of "img @ replicate 128 0" ?w] by blast
qed

lemma image_table:
  assumes v: "list_all valid apps" and room: "int (length krnl) + 4 * (int (length apps) + 2) \<le> up (int (length krnl) + 4 * (int (length apps) + 1))"
    and fits: "pos_end (up (int (length krnl) + 4 * (int (length apps) + 1))) apps < 2 ^ 31"
    and img: "writeToDisk SMALL valid krnl apps = Some img" and mem: "loaded L img r"
  shows "app_table (L + of_nat (length krnl)) (map word_of_int (app_offsets krnl apps)) r"
    "i < length apps \<Longrightarrow> ram_bytes (L + of_nat (length krnl) + word_of_int (app_offsets krnl apps ! i)) (length (apps ! i)) r = apps ! i"
proof -
  let ?k = "length krnl" and ?os = "app_offsets krnl apps"
  let ?a = "up (int ?k + 4 * (int (length apps) + 1))"
  obtain w where t: "take (?k + 4 * (length apps + 2)) img = krnl @ intToByteArrayLittleEndian w @ concat (map intToByteArrayLittleEndian ?os) @ [0, 0, 0, 0]"
    and app: "\<And>i. i < length apps \<Longrightarrow> cut (int ?k + ?os ! i) (length (apps ! i)) img = apps ! i \<and> nat (int ?k + ?os ! i) + length (apps ! i) \<le> length img"
    and len: "?k + 4 * (length apps + 2) \<le> length img"
    using writeToDisk_image [OF v room fits] img by (metis option.inject)
  let ?head = "krnl @ intToByteArrayLittleEndian w @ concat (map intToByteArrayLittleEndian ?os) @ [0, 0, 0, 0]"
  have a: "int ?k + 4 * (int (length apps) + 1) \<le> ?a" by (rule up_bounds)
  have pos: "int ?k < p" "p < 2 ^ 31" if "p \<in> set (positions ?a apps)" for p
    using positions_ge [OF _ that] a fits by auto
  have off: "0 < ?os ! i" "?os ! i < 2 ^ 31" if "i < length apps" for i
    using pos [of "positions ?a apps ! i"] that by (simp_all add: app_offsets_def)
  have word: "ram_bytes (L + word_of_int p) 4 r = cut p 4 ?head" if "int ?k \<le> p" "nat p + 4 \<le> ?k + 4 * (length apps + 2)" for p
    using loaded_slice [OF mem, of p 4] cut_prefix [of ?head img p 4] t len that by (simp del: append.simps)
  show "app_table (L + of_nat ?k) (map word_of_int ?os) r"
    unfolding app_table_def
  proof (intro conjI allI impI)
    fix i assume i: "i < length (map word_of_int ?os :: u32 list)"
    let ?p = "int ?k + 4 + 4 * int i"
    have "cut ?p 4 ?head = intToByteArrayLittleEndian (?os ! i)" using i by (simp add: cut_behind cut_words)
    then have "ram_get32 (L + word_of_int ?p) r = word_of_int (?os ! i)" using word [of ?p] i by (intro ram_get32_little) simp
    then show "ram_get32 (L + of_nat ?k + 4 + 4 * of_nat i) r = map word_of_int ?os ! i" using i by (simp add: add.assoc)
  next
    show "0 \<notin> set (map word_of_int ?os :: u32 list)"
    proof
      assume "0 \<in> set (map word_of_int ?os :: u32 list)"
      then obtain i where i: "i < length apps" "word_of_int (?os ! i) = (0 :: u32)" by (auto simp: in_set_conv_nth)
      then show False using off [OF i(1)] by (simp add: word_of_int_eq_0_iff zdvd_not_zless)
    qed
  next
    let ?p = "int ?k + 4 + 4 * int (length apps)"
    have "cut ?p 4 ?head = intToByteArrayLittleEndian 0"
      by (simp add: cut_behind) (simp add: cut_def intToByteArrayLittleEndian_def)
    then have "ram_get32 (L + word_of_int ?p) r = word_of_int 0" using word [of ?p] by (intro ram_get32_little) simp
    then show "ram_get32 (L + of_nat ?k + 4 + 4 * of_nat (length (map word_of_int ?os :: u32 list))) r = 0" by (simp add: add.assoc)
  qed
  show "ram_bytes (L + of_nat ?k + word_of_int (?os ! i)) (length (apps ! i)) r = apps ! i" if i: "i < length apps"
    using loaded_slice [OF mem, of "int ?k + ?os ! i" "length (apps ! i)"] app [OF i] off(1) [OF i] by (simp add: add.assoc)
qed

text \<open>
  C6: the programs that the builder puts into an image are found by the kernel.  When the image is in memory, the words behind the kernel are the
  offsets of the programs, none of them zero, with a zero behind the last one, and at the offset of a program from the end of the kernel
  are its bytes.  It holds when the table fits in front of the first page and the file is smaller than two gigabytes.
\<close>

theorem image_programs_found:
  assumes "list_all valid apps"
    and "int (length krnl) + 4 * (int (length apps) + 2) \<le> up (int (length krnl) + 4 * (int (length apps) + 1))"
    and "pos_end (up (int (length krnl) + 4 * (int (length apps) + 1))) apps < 2 ^ 31"
  shows "\<exists>img. writeToDisk SMALL valid krnl apps = Some img \<and>
    (\<forall>L r. loaded L img r \<longrightarrow> app_table (L + of_nat (length krnl)) (map word_of_int (app_offsets krnl apps)) r \<and>
      (\<forall>i<length apps. ram_bytes (L + of_nat (length krnl) + word_of_int (app_offsets krnl apps ! i)) (length (apps ! i)) r = apps ! i))"
proof -
  obtain img where "writeToDisk SMALL valid krnl apps = Some img" using writeToDisk_image [OF assms] by metis
  then show ?thesis using image_table [OF assms] by blast
qed

theorem image_programs_found_witness:
  "\<exists>img. writeToDisk SMALL (\<lambda>_. True) (replicate 100 1) [[2, 3], [4]] = Some img \<and>
    (\<forall>L r. loaded L img r \<longrightarrow> app_table (L + 100) [3996, 12188] r \<and> ram_bytes (L + 100 + 3996) 2 r = [2, 3] \<and> ram_bytes (L + 100 + 12188) 1 r = [4])"
proof -
  have u: "up 112 = 4096" "up 4098 = 8192" "up 12289 = 16384" by (simp_all add: up_def)
  have o: "app_offsets (replicate 100 1) [[2, 3], [4]] = [3996, 12188]" by (simp add: app_offsets_def u)
  have l: "(\<forall>i<length [[2, 3], [4 :: u8]]. P i) \<longleftrightarrow> P 0 \<and> P 1" for P by (auto simp: less_Suc_eq)
  have "\<exists>img. writeToDisk SMALL (\<lambda>_. True) (replicate 100 1) [[2, 3], [4]] = Some img \<and>
    (\<forall>L r. loaded L img r \<longrightarrow> app_table (L + of_nat (length (replicate 100 (1 :: u8)))) (map word_of_int [3996, 12188]) r \<and>
      (\<forall>i<length [[2, 3], [4 :: u8]]. ram_bytes (L + of_nat (length (replicate 100 (1 :: u8))) + word_of_int ([3996, 12188] ! i))
        (length ([[2, 3], [4 :: u8]] ! i)) r = [[2, 3], [4]] ! i))"
    unfolding o [symmetric] by (rule image_programs_found) (simp_all add: u)
  then show ?thesis unfolding l by (simp only: length_replicate list.map nth_Cons_0 nth_Cons_Suc One_nat_def list.size of_nat_numeral
    of_int_numeral add_0_right) (simp add: numeral_2_eq_2)
qed

subsubsection \<open>The memory that the kernel clears\<close>

lemma pool_start_table:
  assumes t: "app_table e offs r"
  shows "calculate_start_of_pool e r = Some (e + 4 + sum_list offs)"
proof -
  have "pool_start_loop (e + 4 + 4 * of_nat i) acc r = Some (acc + sum_list (drop i offs))" if "i \<le> length offs" for i acc
    using that
  proof (induction "length offs - i" arbitrary: i acc)
    case 0
    then have "i = length offs" by simp
    then show ?case using t by (subst pool_start_loop.simps) (simp add: app_table_def)
  next
    case (Suc n)
    then have i: "i < length offs" by simp
    then have w: "ram_get32 (e + 4 + 4 * of_nat i) r = offs ! i" "offs ! i \<noteq> 0" using t nth_mem [OF i] unfolding app_table_def by metis+
    have "pool_start_loop (e + 4 + 4 * of_nat (Suc i)) (acc + offs ! i) r = Some (acc + offs ! i + sum_list (drop (Suc i) offs))"
      using Suc i by (intro Suc.hyps) auto
    moreover have "e + 4 + 4 * of_nat (Suc i) = e + 4 + 4 * of_nat i + 4" by (simp add: algebra_simps)
    ultimately show ?case using w Cons_nth_drop_Suc [OF i, symmetric]
      by (subst pool_start_loop.simps) (simp add: add.assoc)
  qed
  from this [of 0] show ?thesis by (simp add: calculate_start_of_pool_def add.assoc)
qed

lemma page_align_near: "\<exists>d\<le>n. page_align n a = a + of_nat d"
proof (induction n arbitrary: a)
  case (Suc n)
  obtain d where "d \<le> n" "page_align n (a + 1) = a + 1 + of_nat d" using Suc.IH [of "a + 1"] by blast
  then show ?case by (cases "a mod of_nat MMU_PAGE_SIZE = 0") (auto intro: exI [of _ 0] exI [of _ "Suc d"])
qed simp

lemma sum_word_of_int: "sum_list (map word_of_int xs) = word_of_int (sum_list xs)"
  by (induction xs) simp_all

lemma app_offsets_nonneg: "p \<in> set (app_offsets krnl apps) \<Longrightarrow> 0 \<le> p"
proof -
  let ?v = "int (length krnl) + 4 * (int (length apps) + 1)"
  assume "p \<in> set (app_offsets krnl apps)"
  then obtain q where "q \<in> set (positions (up ?v) apps)" "p = q - int (length krnl)" by (auto simp: app_offsets_def)
  then show "0 \<le> p" using positions_ge [of "up ?v" q apps] up_bounds(1) [of ?v] by simp
qed

lemma uint_exact: "0 \<le> x \<Longrightarrow> x < 2 ^ 32 \<Longrightarrow> uint (word_of_int x :: u32) = x"
  by (simp add: uint_word_of_int)

lemma kernel_memory_pool:
  assumes t: "app_table (end_of_program A) offs (ram s)"
  obtains d where "d \<le> 4096"
    "kernel_memory A s = (let a = end_of_program A + 4 + sum_list offs + of_nat d in
       if a < 0x1FFEFFF \<and> a \<noteq> 0
       then Some (s\<lparr>ram := ram_clear a (0x1FFEFFF - a) (ram s), pools := (pools s)(a \<mapsto> 0x1FFEFFF - a), mem_memory_pool := a\<rparr>)
       else None)"
proof -
  let ?b = "end_of_program A + 4 + sum_list offs"
  obtain d where d: "d \<le> MMU_PAGE_SIZE" "page_align MMU_PAGE_SIZE ?b = ?b + of_nat d" using page_align_near by blast
  have e: "bsp_get_usable_memory_end - of_nat MMU_PAGE_SIZE = 0x1FFEFFF" by (simp add: bsp_get_usable_memory_end_def MMU_PAGE_SIZE_def)
  have "kernel_memory A s = (let a = ?b + of_nat d in
       if a < 0x1FFEFFF \<and> a \<noteq> 0
       then Some (s\<lparr>ram := ram_clear a (0x1FFEFFF - a) (ram s), pools := (pools s)(a \<mapsto> 0x1FFEFFF - a), mem_memory_pool := a\<rparr>)
       else None)"
    by (simp add: kernel_memory_def bsp_get_usable_memory_start_def pool_start_table [OF t] d(2) e kernel_assert_def mem_initialise_def
      mem_init_memory_pool_def Let_def)
  then show thesis using that [of d] d(1) by (simp add: MMU_PAGE_SIZE_def)
qed

text \<open>
  C33: the kernel clears the last of the programs it is to start.  The words of the table are offsets from the end of the kernel, but the start
  of the memory pool is computed as if they were sizes, so that it lies behind the start of the last program by no more than the offsets of
  the programs in front of it and 4100 bytes.  Every byte of the last program from there is zero after the memory is set up, although the
  image had the program's byte there.
\<close>

theorem kernel_memory_clears_program:
  assumes img: "list_all valid apps"
      "int (length krnl) + 4 * (int (length apps) + 2) \<le> up (int (length krnl) + 4 * (int (length apps) + 1))"
      "pos_end (up (int (length krnl) + 4 * (int (length apps) + 1))) apps < 2 ^ 31"
      "writeToDisk SMALL valid krnl apps = Some img"
    and L: "loaded L img (ram s)" "end_of_program A = L + of_nat (length krnl)"
    and apps: "app_offsets krnl apps = os @ [off]"
    and j: "j < length (last apps)" "sum_list os + 4100 \<le> int j" "uint (end_of_program A) + off + int j < 0x1FFEFFF"
    and ok: "kernel_memory A s = Some s'"
  shows "ram s (end_of_program A + word_of_int off + of_nat j) = last apps ! j \<and>
    ram s' (end_of_program A + word_of_int off + of_nat j) = 0"
proof -
  let ?e = "end_of_program A" and ?offs = "map word_of_int (app_offsets krnl apps) :: u32 list"
  let ?q = "?e + word_of_int off + of_nat j"
  have n: "length apps = Suc (length os)" using arg_cong [OF apps, of length] by simp
  have t: "app_table ?e ?offs (ram s)"
    and b: "ram_bytes (?e + word_of_int (app_offsets krnl apps ! length os)) (length (apps ! length os)) (ram s) = apps ! length os"
    using image_table [OF img L(1)] n unfolding L(2) by auto
  have l: "last apps = apps ! length os" using n by (metis diff_Suc_1 last_conv_nth length_0_conv nat.distinct(1))
  have "ram s ?q = last apps ! j" using arg_cong [OF b, of "\<lambda>xs. xs ! j"] j(1) by (simp add: l apps ram_bytes_def)
  obtain d where d: "d \<le> 4096"
    and k: "kernel_memory A s = (let a = ?e + 4 + sum_list ?offs + of_nat d in
       if a < 0x1FFEFFF \<and> a \<noteq> 0
       then Some (s\<lparr>ram := ram_clear a (0x1FFEFFF - a) (ram s), pools := (pools s)(a \<mapsto> 0x1FFEFFF - a), mem_memory_pool := a\<rparr>)
       else None)"
    by (rule kernel_memory_pool [OF t])
  define a where "a = ?e + 4 + sum_list ?offs + of_nat d"
  have nn: "0 \<le> off" "0 \<le> sum_list os" using app_offsets_nonneg [of _ krnl apps] unfolding apps by (auto intro: sum_list_nonneg)
  have "a = word_of_int (uint ?e + 4 + (sum_list os + off) + int d)" by (simp add: a_def sum_word_of_int apps)
  then have ua: "uint a = uint ?e + 4 + (sum_list os + off) + int d"
    using nn j d uint_exact [of "uint ?e + 4 + (sum_list os + off) + int d"] by simp
  have "?q = word_of_int (uint ?e + off + int j)" by simp
  then have uq: "uint ?q = uint ?e + off + int j" using nn j uint_exact [of "uint ?e + off + int j"] by simp
  have le: "a \<le> ?q" unfolding word_le_def ua uq using j d by simp
  have lt: "?q < 0x1FFEFFF" unfolding word_less_def uq using j by simp
  have "?q - a < 0x1FFEFFF - a" using le lt by (simp add: word_less_def word_le_def uint_minus_simple_alt[THEN iffD1] uint_sub_if')
  then have "ram_clear a (0x1FFEFFF - a) (ram s) ?q = 0" by (simp add: ram_clear_def)
  moreover have "ram s' = ram_clear a (0x1FFEFFF - a) (ram s)" using ok k unfolding a_def [symmetric] by (auto simp: Let_def split: if_splits)
  ultimately show ?thesis using \<open>ram s ?q = last apps ! j\<close> by simp
qed

text \<open>The memory that holds an image.\<close>

definition ram_of :: "u32 \<Rightarrow> u8 list \<Rightarrow> ram_t" where
  "ram_of L img a = (if unat (a - L) < length img then img ! unat (a - L) else 0)"

lemma loaded_ram_of: "length img \<le> 2 ^ 32 \<Longrightarrow> loaded L img (ram_of L img)"
proof -
  assume l: "length img \<le> 2 ^ 32"
  have "ram_of L img (L + of_nat k) = img ! k" if "k < length img" for k
  proof -
    have "k < 2 ^ LENGTH(32)" using that l by simp
    then have "unat (L + of_nat k - L) = k" by (simp only: add_diff_cancel_left' unat_of_nat mod_less)
    then show ?thesis using that by (simp only: ram_of_def if_True)
  qed
  then show ?thesis unfolding loaded_def by (intro nth_equalityI) (simp_all add: ram_bytes_def)
qed

theorem kernel_memory_clears_program_witness:
  "\<exists>img s'. writeToDisk SMALL (\<lambda>_. True) (replicate 100 1) [replicate 5000 7] = Some img \<and>
    kernel_memory demo_board (empty_kernel\<lparr>ram := ram_of 0x8000 img\<rparr>) = Some s' \<and> ram_of 0x8000 img 0xA194 = 7 \<and> ram s' 0xA194 = 0"
proof -
  let ?k = "replicate 100 1 :: u8 list" and ?x = "[replicate 5000 7] :: u8 list list"
  have u: "up 108 = 4096" "up 9096 = 12288" by (simp_all add: up_def)
  have o: "app_offsets ?k ?x = [] @ [3996]" by (simp add: app_offsets_def u)
  have h: "list_all (\<lambda>_. True) ?x" "int (length ?k) + 4 * (int (length ?x) + 2) \<le> up (int (length ?k) + 4 * (int (length ?x) + 1))"
    "pos_end (up (int (length ?k) + 4 * (int (length ?x) + 1))) ?x < 2 ^ 31"
    by (simp_all add: u)
  obtain img where i: "writeToDisk SMALL (\<lambda>_. True) ?k ?x = Some img"
    "int (length img) \<le> pos_end (up (int (length ?k) + 4 * (int (length ?x) + 1))) ?x + 128"
    by (rule writeToDisk_image [OF h])
  then have l: "loaded 0x8000 img (ram_of 0x8000 img)" by (intro loaded_ram_of) (simp add: u)
  let ?s = "empty_kernel\<lparr>ram := ram_of 0x8000 img\<rparr>"
  have e: "end_of_program demo_board = 0x8000 + of_nat (length ?k)" by (simp add: demo_board_def)
  have t: "app_table (end_of_program demo_board) [3996] (ram ?s)"
    using image_table [OF h i(1) l] unfolding e o by simp
  obtain d where d: "d \<le> 4096" "kernel_memory demo_board ?s = (let a = end_of_program demo_board + 4 + sum_list [3996] + of_nat d in
       if a < 0x1FFEFFF \<and> a \<noteq> 0
       then Some (?s\<lparr>ram := ram_clear a (0x1FFEFFF - a) (ram ?s), pools := (pools ?s)(a \<mapsto> 0x1FFEFFF - a), mem_memory_pool := a\<rparr>)
       else None)"
    by (rule kernel_memory_pool [OF t])
  have "uint (0x9004 + of_nat d :: u32) = 0x9004 + int d" using d(1) uint_exact [of "0x9004 + int d"] by simp
  then have "0x9004 + of_nat d < (0x1FFEFFF :: u32)" "0x9004 + of_nat d \<noteq> (0 :: u32)" using d(1) by (auto simp: word_less_def)
  then obtain s' where s': "kernel_memory demo_board ?s = Some s'" using d(2) by (simp add: demo_board_def Let_def)
  have "ram ?s (end_of_program demo_board + word_of_int 3996 + of_nat 4500) = last ?x ! 4500 \<and>
    ram s' (end_of_program demo_board + word_of_int 3996 + of_nat 4500) = 0"
    by (rule kernel_memory_clears_program [OF h i(1) _ e o _ _ _ s']) (simp_all add: l demo_board_def)
  then show ?thesis using i(1) s' by (auto simp: demo_board_def)
qed

end
