(* ===== verification/Kshell_Props.thy ===== *)
theory Kshell_Props
  imports Console_Props Board_Props
begin

section \<open>Properties of the shell\<close>

text \<open>
  How the shell collects a line from the characters that the serial line sends one at a time, finds the command and answers.
\<close>

subsection \<open>Strings\<close>

lemma kshell_strcmp_loop_eq:
  "length xs = length ys \<Longrightarrow> kshell_strcmp_loop (length xs) (xs @ r) (ys @ r') = Some (xs = ys)"
  by (induction xs ys rule: list_induct2) auto

lemma kshell_strcmp_eq:
  assumes "0 \<notin> set xs" "0 \<notin> set ys" "length xs \<le> 256" "length ys \<le> 256"
  shows "kshell_strcmp (xs @ 0 # r) (ys @ 0 # r') = Some (xs = ys)"
proof -
  have m: "unat MAX_LINE_INPUT = 256" by (simp add: MAX_LINE_INPUT_def)
  have u: "unat (of_nat n :: u32) = n" if "n \<le> 256" for n using that by (simp add: unat_of_nat)
  have "(of_nat (length xs) :: u32) = of_nat (length ys) \<longleftrightarrow> length xs = length ys" using u assms(3,4) by metis
  then show ?thesis
    using assms kshell_strcmp_loop_eq [of xs ys "0 # r" "0 # r'"]
    by (auto simp: kshell_strcmp_def util_strlen_eq m u)
qed

lemma util_memset_zero: "length xs = n \<Longrightarrow> util_memset xs 0 n = Some (replicate n 0)"
  by (induction n arbitrary: xs) (auto split: list.splits)

subsection \<open>A line\<close>

text \<open>Messages of one character each, as the serial line sends them.\<close>

primrec kshell_feed :: "(ptr \<Rightarrow> u32) \<Rightarrow> u8 list \<Rightarrow> 'z jkern_scheme \<Rightarrow> (bool \<times> u8 list \<times> 'z jkern_scheme) option" where
  "kshell_feed allocd [] s = Some (True, [], s)"
| "kshell_feed allocd (c # cs) s = do {
     (running, out, s) \<leftarrow> kshell_input allocd [c] s;
     if \<not> running then Some (False, out, s)
     else do { (running, rest, s) \<leftarrow> kshell_feed allocd cs s; Some (running, out @ rest, s) }
   }"

text \<open>The shell with the first characters of a line.\<close>

definition shell_line :: "u8 list \<Rightarrow> kshell_t \<Rightarrow> kshell_t" where
  "shell_line cs k = k\<lparr>ksh_input_pointer := of_nat (length cs), ksh_input_buffer := cs @ replicate (256 - length cs) 0\<rparr>"

definition with_shell :: "kshell_t \<Rightarrow> 'z jkern_scheme \<Rightarrow> 'z jkern_scheme" where
  "with_shell k s = s\<lparr>kshells := (kshells s)(kshell s \<mapsto> k)\<rparr>"

lemma with_shell_simps [simp]:
  "kshells (with_shell k s) (kshell (with_shell k s)) = Some k" "with_shell k (with_shell k' s) = with_shell k s"
  "kshell (with_shell k s) = kshell s" "kshells (with_shell k s) = (kshells s)(kshell s \<mapsto> k)"
  by (simp_all add: with_shell_def)

lemma line_pointer: "n < 65536 \<Longrightarrow> unat (of_nat n :: u16) = n"
  by (simp add: unat_of_nat)

lemma shell_line_put:
  assumes "length cs < 256"
  shows "kshell_put [c] (shell_line cs k) = Some (shell_line (cs @ [c]) k)"
proof -
  have r: "replicate (256 - length cs) (0 :: u8) = 0 # replicate (256 - Suc (length cs)) 0"
    using assms by (metis Suc_diff_Suc replicate_Suc)
  show ?thesis using assms unfolding shell_line_def r by (simp add: line_pointer wr_def)
qed

lemma kshell_put_full: "256 \<le> length cs \<Longrightarrow> length cs < 65536 \<Longrightarrow> kshell_put [c] (k\<lparr>ksh_input_pointer := of_nat (length cs), ksh_input_buffer := buf\<rparr>) = None"
  if "length buf = 256"
  using that by (simp add: line_pointer wr_def)

lemma kshell_char:
  assumes "length cs < 256" "c \<noteq> 10" "c \<noteq> 13"
  shows "kshell_input allocd [c] (with_shell (shell_line cs k) s) = Some (True, [], with_shell (shell_line (cs @ [c]) k) s)"
proof -
  have "rd (ksh_input_buffer (shell_line (cs @ [c]) k)) (unat (ksh_input_pointer (shell_line (cs @ [c]) k) - 1)) = Some c"
    using assms(1) by (simp add: shell_line_def rd_def line_pointer)
  then show ?thesis using assms(2,3) shell_line_put [OF assms(1)]
    by (simp add: kshell_input_def with_shell_def Let_def del: kshell_put.simps)
qed

lemma kshell_feed_line:
  assumes "length cs + length ds \<le> 256" "10 \<notin> set ds" "13 \<notin> set ds"
  shows "kshell_feed allocd ds (with_shell (shell_line cs k) s) = Some (True, [], with_shell (shell_line (cs @ ds) k) s)"
  using assms
proof (induction ds arbitrary: cs)
  case (Cons d ds)
  then show ?case using kshell_char [of cs d allocd k s] Cons.IH [of "cs @ [d]"] by simp
qed simp

lemma kshell_feed_append:
  "kshell_feed allocd cs s = Some (True, out, s') \<Longrightarrow>
     kshell_feed allocd (cs @ ds) s = do { (running, rest, s'') \<leftarrow> kshell_feed allocd ds s'; Some (running, out @ rest, s'') }"
proof (induction cs arbitrary: s out)
  case (Cons c cs)
  then obtain o1 s1 o2 where "kshell_input allocd [c] s = Some (True, o1, s1)" "kshell_feed allocd cs s1 = Some (True, o2, s')" "out = o1 @ o2"
    by (auto simp: bind_eq_Some_conv split: if_splits)
  then show ?case using Cons.IH [of s1 o2] by (cases "kshell_feed allocd ds s'") auto
qed (cases "kshell_feed allocd ds s'", auto)

text \<open>A carriage return or a line feed ends the line; the command is what was collected, and the buffer is empty again afterwards.\<close>

definition shell_ended :: "u8 list \<Rightarrow> kshell_t \<Rightarrow> kshell_t" where
  "shell_ended cs k = (shell_line cs k)\<lparr>ksh_input_buffer := cs @ 0 # replicate (255 - length cs) 0\<rparr>"

lemma kshell_return:
  assumes "0 < length cs" "length cs < 256" "0 \<notin> set cs" "c = 10 \<or> c = 13"
  shows "kshell_input allocd [c] (with_shell (shell_line cs k) s) =
    (if cs = map of_char ''exit'' then Some (False, [], with_shell (shell_ended cs k) s)
     else do {
       (out, s') \<leftarrow> kshell_execute_command allocd (cs @ 0 # replicate (255 - length cs) 0) (with_shell (shell_ended cs k) s);
       k \<leftarrow> kshells s' (kshell s');
       buf \<leftarrow> util_memset (ksh_input_buffer k) 0 256;
       Some (True, out @ map of_char ''> '', with_shell (k\<lparr>ksh_input_pointer := 0, ksh_input_buffer := buf\<rparr>) s')
     })"
proof -
  let ?k = "shell_line (cs @ [c]) k"
  have p: "ksh_input_pointer ?k - 1 = of_nat (length cs)" "ksh_input_buffer ?k = cs @ c # replicate (255 - length cs) 0"
    using assms(2) by (simp_all add: shell_line_def)
  have u: "unat (of_nat (length cs) :: u16) = length cs" using assms(2) by (simp add: line_pointer)
  then have nz: "(of_nat (length cs) :: u16) \<noteq> 0" using assms(1) by (metis unat_0 less_numeral_extra(3))
  then have nz': "ksh_input_pointer ?k \<noteq> 1" using p(1) by auto
  have r: "rd (ksh_input_buffer ?k) (length cs) = Some c" by (simp add: p rd_def)
  have w: "wr (ksh_input_buffer ?k) (length cs) 0 = Some (cs @ 0 # replicate (255 - length cs) 0)" by (simp add: p wr_def)
  have x: "kshell_strcmp (cs @ 0 # replicate (255 - length cs) 0) (c_str ''exit'') = Some (cs = map of_char ''exit'')"
    using kshell_strcmp_eq [of cs "map of_char ''exit''"] assms by (simp add: c_str_def)
  have pr: "print_out (Some (c_str ''> '')) = Some (map of_char ''> '')" by (simp add: print_out_def c_str_def print_string_eq [of "[62, 32]" 0 "[]", simplified] padded_def)
  have e: "?k\<lparr>ksh_input_pointer := of_nat (length cs), ksh_input_buffer := cs @ 0 # replicate (255 - length cs) 0\<rparr> = shell_ended cs k"
    by (simp add: shell_ended_def shell_line_def)
  have m: "unat MAX_LINE_INPUT = 256" by (simp add: MAX_LINE_INPUT_def)
  have ws: "s\<lparr>kshells := (kshells s)(kshell s \<mapsto> k)\<rparr> = with_shell k s" for k and s :: "'a jkern_scheme" by (simp add: with_shell_def)
  have ws': "(with_shell k' s)\<lparr>kshells := (kshells s)(kshell s \<mapsto> k)\<rparr> = with_shell k s" for k k' and s :: "'a jkern_scheme"
    by (simp add: with_shell_def)
  have cc: "(c = 13 \<or> c = 10) = True" using assms(4) by auto
  define b where "b \<longleftrightarrow> cs = map of_char ''exit''"
  show ?thesis unfolding b_def [symmetric]
    by (simp add: kshell_input_def shell_line_put [OF assms(2)] p(1) u r w x [folded b_def] e pr m ws ws' nz nz' cc Let_def cong: if_cong
      del: kshell_put.simps)
qed

text \<open>A command that is none of the four is printed with a question mark.\<close>

lemma kshell_unknown:
  assumes "0 \<notin> set cs" "length cs \<le> 256" "cs \<notin> set (map (map of_char) [''procs'', ''tasks'', ''objects'', ''mem''])"
  shows "kshell_execute_command allocd (cs @ 0 # r) s = Some (cs @ map of_char (''?'' @ NL), s)"
proof -
  have n: "kshell_strcmp (cs @ 0 # r) (c_str w) = Some False" if "w \<in> set [''procs'', ''tasks'', ''objects'', ''mem'']" for w
    using kshell_strcmp_eq [of cs "map of_char w" r "[]"] assms that by (auto simp: c_str_def)
  let ?is = "[Conv [] 115, Lit 63, Lit 10]"
  have f: "c_str (''%s?'' @ NL) = concat (map item_text ?is) @ 0 # []" by (simp add: c_str_def NL_def)
  have "takeWhile (\<lambda>c. c \<noteq> 0) (cs @ 0 # r) = cs" using assms(1) by (induction cs) auto
  then have "printp_out (c_str (''%s?'' @ NL)) [Arg_Str (Some (cs @ 0 # r))] = Some (cs @ map of_char (''?'' @ NL))"
    unfolding f printp_out_def by (intro print_loop_renders) (simp_all add: padded_def NL_def)
  then show ?thesis using n by (simp add: kshell_execute_command_def)
qed

text \<open>
  C24: the shell answers a line.  When the characters of a line of 1 to 255 characters come in one at a time and then a carriage return or a
  line feed, the shell stops if the line is \<open>exit\<close>; if it is no command, the shell prints the line with a
  question mark and the prompt, once, and is ready for the next line, with nothing but its buffer changed.
\<close>

theorem kshell_answers_line:
  assumes k: "kshells s (kshell s) = Some k" "ksh_input_pointer k = 0" "ksh_input_buffer k = replicate 256 0"
    and line: "line \<noteq> []" "length line < 256" "0 \<notin> set line" "10 \<notin> set line" "13 \<notin> set line" and c: "c = 10 \<or> c = 13"
    and cmd: "line \<notin> set (map (map of_char) [''procs'', ''tasks'', ''objects'', ''mem''])"
  shows "\<exists>s'. kshell_feed allocd (line @ [c]) s =
    Some (if line = map of_char ''exit'' then (False, [], s') else (True, line @ map of_char (''?'' @ NL @ ''> ''), s))"
proof -
  have l: "with_shell (shell_line [] k) s = s"
    using k by (simp add: with_shell_def shell_line_def fun_upd_idem)
  have f: "kshell_feed allocd line s = Some (True, [], with_shell (shell_line line k) s)"
    using kshell_feed_line [of "[]" line allocd k s] line l by simp
  note r = kshell_return [of line c allocd k s, OF _ line(2,3) c]
  have 1: "\<exists>s'. kshell_feed allocd (line @ [c]) s = Some (False, [], s')" if "line = map of_char ''exit''"
    using kshell_feed_append [OF f, of "[c]"] r line(1) that by simp
  have b: "util_memset (line @ 0 # replicate (255 - length line) 0) 0 256 = Some (replicate 256 0)"
    using line(2) by (intro util_memset_zero) simp
  have e: "(shell_ended line k)\<lparr>ksh_input_pointer := 0, ksh_input_buffer := replicate 256 0\<rparr> = k" "ksh_input_buffer (shell_ended line k) = line @ 0 # replicate (255 - length line) 0"
    using k by (simp_all add: shell_ended_def shell_line_def)
  have w: "with_shell k s = s" using k(1) by (simp add: with_shell_def fun_upd_idem)
  have 2: "kshell_feed allocd (line @ [c]) s = Some (True, line @ map of_char (''?'' @ NL @ ''> ''), s)" if "line \<noteq> map of_char ''exit''"
    using kshell_feed_append [OF f, of "[c]"] r line(1,2) that b e w
    by (simp add: kshell_unknown [OF line(3) _ cmd])
  show ?thesis using 1 2 by (cases "line = map of_char ''exit''") simp_all
qed

theorem kshell_answers_line_witness:
  "kshell_feed (\<lambda>_. 0) [104, 105, 13] (empty_board\<lparr>kshell := 0x10, kshells := [0x10 \<mapsto> \<lparr>ksh_proc_list = 0x20, ksh_input_pointer = 0,
       ksh_input_buffer = replicate 256 0\<rparr>]\<rparr>) =
   Some (True, [104, 105, 63, 10, 62, 32], empty_board\<lparr>kshell := 0x10, kshells := [0x10 \<mapsto> \<lparr>ksh_proc_list = 0x20, ksh_input_pointer = 0,
       ksh_input_buffer = replicate 256 0\<rparr>]\<rparr>)"
  using kshell_answers_line [of "empty_board\<lparr>kshell := 0x10, kshells := [0x10 \<mapsto> \<lparr>ksh_proc_list = 0x20, ksh_input_pointer = 0,
       ksh_input_buffer = replicate 256 0\<rparr>]\<rparr>" _ "[104, 105]" 13 "\<lambda>_. 0"]
  by (simp add: NL_def)

text \<open>The buffer is not protected: the first character behind it is written outside of it.\<close>

lemma kshell_line_overflow:
  assumes k: "kshells s (kshell s) = Some k" "ksh_input_pointer k = 0" "ksh_input_buffer k = replicate 256 0"
    and line: "length line = 256" "10 \<notin> set line" "13 \<notin> set line"
  shows "kshell_feed allocd (line @ c # cs) s = None"
proof -
  have l: "with_shell (shell_line [] k) s = s" using k by (simp add: with_shell_def shell_line_def fun_upd_idem)
  have f: "kshell_feed allocd line s = Some (True, [], with_shell (shell_line line k) s)"
    using kshell_feed_line [of "[]" line allocd k s] line l by simp
  have "kshell_put [c] (shell_line line k) = None"
    using kshell_put_full [of "line @ replicate (256 - length line) 0" line c k] line by (simp add: shell_line_def)
  then show ?thesis using kshell_feed_append [OF f, of "c # cs"] by (simp add: kshell_input_def del: kshell_put.simps)
qed

end
