(* ===== verification/Spec2Isabelle.thy ===== *)
theory Spec2Isabelle
  imports List_Props Sched_Props Map_Props Text_Props Time Mmu_Props Alarm_Props Object_Props Sema_Props Sleep_Props Pipe_Props
    Process_Mem_Props Elf_Props Device_Props Timer_Props Proc_Props Syscall_Props Arm_Vec Api_Props Console_Props Uart
    Payload Board_Props Kshell_Props
begin

text \<open>
  \<^bold>\<open>The program.\<close>  Tinker is a small kernel for ARM boards (the two Raspberry Pi boards under
  \<open>src/bspRaspberryPi\<close>).  A host program, \<open>src/utilBuilder\<close>, joins the kernel and the programs to start into one image.  The board is started
  by \<open>boot.c\<close>; \<open>kernel_initialise.c\<close> makes a memory pool, the managers and the kernel process, and loads the programs with \<open>loader.c\<close> and
  \<open>src/libelf\<close>.  From then on the kernel runs when an exception is taken (\<open>arm_vec.c\<close>): a system call of a user function
  (\<open>src/api\<close>) goes through \<open>interrupt_manager.c\<close> to \<open>syscall_handler.c\<close>, which works on the objects of the calling process (\<open>src/kernel/.../objects\<close>:
  threads, processes, pipes, semaphores, shared memory, timers); an interrupt goes through the same file to \<open>intc.c\<close> and the drivers of the
  BCM2835.  Either may change the state of threads and end with \<open>sch_set_context_for_next_thread\<close> of \<open>scheduler.c\<close>, which
  exchanges the registers that the exception returns to.  Everything is kept in linked lists, queues, stacks and hash maps of \<open>utils/collections\<close>.

  \<^bold>\<open>How the code is modelled.\<close>  A pointer is a 32 bit word, and \<open>NULL\<close> is 0.  Each type of C structure has a heap of its own, a partial map from
  pointers to records with the fields of the structure.  An operation is a function on the state that is executable, is written in the order of the
  code, and has an optional result: the missing result stands for an access outside of an allocated object, a failed assertion
  (\<open>kernel_panic\<close>), an exception of Java, or a loop that does not end.  Error codes are values of \<open>return_t\<close>.  Numbers keep their width, so that
  sums and differences wrap around as in the code.  The build is the release build, in which debug output has no effect.  The state grows with the
  components, each record extending the one before: \<open>lheap\<close>, \<open>cheap\<close> (lists, queues and stacks), \<open>kst\<close> (threads, contexts, processes, schedulers
  and the calls that reach the hardware), \<open>kern\<close> (with alarms, objects and page tables), and from there \<open>rkern\<close> (registry),
  \<open>skern\<close> (semaphores), \<open>pkern\<close> (pipes and memory), \<open>hkern\<close>, \<open>tkern\<close>, \<open>lkern\<close>, \<open>ekern\<close>, \<open>ykern\<close>, \<open>ikern\<close>, \<open>dkern\<close>, \<open>ukern\<close>,
  \<open>jkern\<close> and \<open>bkern\<close> (shared memory, timers, processes, loader, system calls, interrupts, devices, serial line, shell, board).

  \<^bold>\<open>What is an argument.\<close>  The allocator (\<open>memory/dlmalloc\<close>, a copy of a public domain allocator) is a list of answers for each heap; a property that
  needs memory says so by a hypothesis such as \<open>plenty\<close> or \<open>lvl2_room\<close>.  Registers of devices are a function \<open>io\<close>
  from addresses to values, with the writes recorded in \<open>io_writes\<close>; readings that change while a loop waits are a list.  Addresses
  that the linker chooses are records \<open>code_addrs\<close>, \<open>board_addrs\<close> and \<open>start_addrs\<close>.  The instruction \<open>svc\<close> is an argument of the functions of the user, and
  \<open>kernel_svc\<close> is the kernel behind it.  What printing leaves is the list of bytes.

  \<^bold>\<open>Theories and sources.\<close>
  \<^item> \<open>Prelude\<close>: machine types, error codes (\<open>tinker_api_errors.h\<close>), typed heaps, \<open>mem_alloc\<close> and \<open>mem_free\<close>.
  \<^item> \<open>Unbounded_List\<close>, \<open>Queue_Stack\<close>, \<open>Hashed_Map\<close>: \<open>unbounded_list.c\<close>, \<open>unbounded_queue.c\<close>, \<open>stack.c\<close>, \<open>hashed_map.c\<close>, \<open>basic_hashes.c\<close>.
    \<open>Collection_Spec\<close> and \<open>Map_Contract\<close> have the contracts as locales \<open>seq_store\<close>, \<open>fifo_store\<close>, \<open>lifo_store\<close> and \<open>map_store\<close>; \<open>List_Chain\<close>, \<open>List_Correct\<close>,
    \<open>List_Ops\<close>, \<open>List_Life\<close>, \<open>List_Iter\<close>, \<open>List_Contract\<close>, \<open>Queue_Correct\<close>, \<open>Map_Correct\<close> and \<open>Map_Update\<close> prove that the code meets them; the interpretations are \<open>ls\<close>, \<open>lf\<close>, \<open>qs\<close>,
    \<open>st\<close> and \<open>hm\<close>.  \<open>List_Props\<close> and \<open>Map_Props\<close>: adding, removing, the order of a queue, the hash map as a
    finite map, and what goes wrong when an element is removed in front of another.
  \<^item> \<open>Text_Util\<close>, \<open>Text_Props\<close>, \<open>Time\<close>: \<open>utils/util_*.c\<close> and \<open>tinker_api_time.c\<close>; comparison of strings, numbers as text and back, exact addition of times.
  \<^item> \<open>Thread\<close>, \<open>Scheduler\<close>: \<open>thread.c\<close>, the contexts of \<open>arm.c\<close>, \<open>scheduler.c\<close>.  \<open>Sched_Stack\<close>, \<open>Sched_Correct\<close>, \<open>Sched_Exit\<close>, \<open>Sched_Switch\<close> carry
    the invariant \<open>sched_wf\<close> through every operation; \<open>Sched_Props\<close>: a new thread is ready, a thread that ends is not, a switch exchanges
    exactly the two contexts, and the cases in which the order of the queues is lost.
  \<^item> \<open>Arm_Mmu\<close>: \<open>mem_section.c\<close>, \<open>arm_mmu.c\<close>.  \<open>Mmu_Correct\<close> defines \<open>arm_walk\<close>, what the hardware makes of a table; \<open>Mmu_Update\<close>, \<open>Mmu_Loop\<close> and \<open>Mmu_Props\<close>
    show what mapping and unmapping do to it.
  \<^item> \<open>Alarm\<close>, \<open>Alarm_Props\<close>: \<open>time_manager.c\<close>, \<open>alarm_manager.c\<close>; the alarm that is armed is the earliest.
  \<^item> \<open>Object_Table\<close>, \<open>Object_Props\<close>: \<open>object.c\<close>, \<open>object_table.c\<close>; numbers of objects are new and found again.
  \<^item> \<open>Kernel_State\<close>, \<open>Obj_Thread\<close>, \<open>Registry\<close>, \<open>Semaphore\<close>, \<open>Sema_Props\<close>, \<open>Sleep_Props\<close>: descriptors of processes, \<open>obj_thread.c\<close>, \<open>registry.c\<close>, \<open>obj_semaphore.c\<close>; the
    number of uses of a semaphore is constant.
  \<^item> \<open>Pipe\<close>: \<open>obj_pipe.c\<close> with its ring buffers in memory.  \<open>Pipe_Correct\<close>, \<open>Pipe_Loop\<close> (the locale \<open>pl_loop\<close> of loops over the pipes of a list, interpreted for
    the three loops in \<open>Pipe_Ops\<close>) and \<open>Pipe_Props\<close>: a message reaches all receivers or none, and the oldest is received first.
  \<^item> \<open>Process_Mem\<close>, \<open>Process_Mem_Correct\<close>, \<open>Process_Mem_Props\<close>, \<open>Proc_Props\<close>, \<open>Process_Life\<close>, \<open>Process_List\<close>, \<open>Obj_Shm\<close>, \<open>Obj_Timer\<close>, \<open>Timer_Props\<close>: \<open>process.c\<close>, \<open>process_list.c\<close>,
    \<open>obj_process.c\<close>, \<open>mem_pool.c\<close>, \<open>obj_shared_mem.c\<close>, \<open>obj_timer.c\<close>; the chain of sections stays ordered and free of overlaps, new memory is placed in a hole of it and mapped.
  \<^item> \<open>Elf\<close>, \<open>Elf_Props\<close>, \<open>Loader\<close>: \<open>src/libelf\<close> (with the relocation for ARM) and \<open>loader.c\<close>; a segment that is loaded is in memory, followed by zeros.
  \<^item> \<open>Syscall\<close>, \<open>Syscall_Handler\<close>, \<open>Syscall_Props\<close>, \<open>Api\<close>, \<open>Api_Props\<close>: \<open>syscall_handler.c\<close>, \<open>src/api\<close>, \<open>arm_syscall.c\<close>; an object of the wrong type is refused, a call that
    waits switches the thread, a call reaches the kernel with its parameters and returns its result.
  \<^item> \<open>Interrupts\<close>, \<open>Devices\<close>, \<open>Device_Props\<close>, \<open>Uart\<close>, \<open>Arm_Vec\<close>: \<open>intc.c\<close>, \<open>interrupt_manager.c\<close>, the drivers of the BCM2835, \<open>arm_vec.c\<close> instruction by
    instruction; an interrupt reaches its handler, the clock returns a time the counter had, an exception keeps the registers, and a new thread
    runs its entry point in user mode (\<open>arm_bootstrap\<close> of \<open>arm.c\<close>).
  \<^item> \<open>Console\<close>, \<open>Console_Props\<close>, \<open>Kshell\<close>, \<open>Kshell_Props\<close>: \<open>print_out.c\<close>, \<open>stack_trace.c\<close>, \<open>kshell.c\<close>; formats are printed as they say, a line is answered.
  \<^item> \<open>Board\<close>, \<open>Board_Props\<close>, \<open>Kernel_Start\<close>, \<open>Payload\<close>: \<open>bsp_pi.c\<close>, \<open>bsp_pi2.c\<close>, \<open>boot.c\<close>, \<open>kernel_initialise.c\<close>, \<open>kernel_main.c\<close>, \<open>kernel_idle.c\<close> and the builder of the image
    (\<open>Payload.java\<close>, \<open>IntToByte.java\<close>, \<open>Endian.java\<close>, \<open>TinkerBuilder.java\<close>); what is mapped when a board starts, the programs of an image are found, the memory that is cleared, and what a tick of the
    scheduler does from the exception to the registers.
  \<^item> \<open>Sched_Demo\<close>, \<open>Empty_Kernel\<close>: concrete states for the examples that show that the hypotheses can hold.

  A function of the code is a definition of the same name.  Its inner loops, blocks that several functions have alike, and constants are definitions of their
  own beside it (\<open>list_walk\<close>, \<open>pipe_send_loop\<close>, \<open>kshell_input\<close>, \<open>kernel_memory\<close>), written where the function that contains them is.

  \<^bold>\<open>Bounds and loops.\<close>  Loops over a list are recursions on its chain or \<open>partial_function\<close>s, for which the properties prove a result.  Loops with a bound in the
  code are recursions on it: \<open>pipe_pad\<close> and \<open>page_align\<close> end within the 4096 bytes of a page, \<open>el_findphdr_loop\<close> after \<open>phnum\<close> headers, the search for a process number after
  \<open>MAX_PROCESSES\<close>, a stack trace after its limit.  \<open>arm_map_loop\<close> has a proof of termination by the pages that are left.  Waiting for a device ends when the list of
  its readings does, so that a property that the loop returns names a reading with which it does (\<open>bcm2835_read_clock\<close>, \<open>uart_wait\<close>).

  \<^bold>\<open>Not modelled.\<close>  The allocator \<open>dlmalloc\<close> and its failure hook (third party code, used through the two functions above); relocation for other
  processors and the program that tests \<open>libelf\<close> (not part of the build for ARM); the fast interrupt, which banks more registers and is never enabled; the start file in
  assembly and the linker scripts; the C library of user programs; the tools \<open>objcopy\<close> and \<open>readelf\<close> that the builder runs, with the classes that start
  them; the stubs of the host tests, the unit tests and the example programs.  Caches and the order of memory accesses have no counterpart in the state.  The delay loops of the drivers have
  no effect in it.
\<close>

end
